(* ===== verification/Prelude.thy ===== *)
theory Prelude
  imports Main "HOL-Library.Word" "HOL-Library.Multiset"
begin

section \<open>Prelude: C strings, buffers and table lemmas\<close>

text \<open>
  What the component theories share. A C string is modelled by the list of its characters
  before the terminating NUL (\<open>cstr\<close>); a write into a buffer of \<open>n\<close> bytes by
  \<^verbatim>\<open>snprintf\<close> keeps the first \<open>n - 1\<close> of them. Decimal printing, \<^verbatim>\<open>strchr\<close> and
  \<^verbatim>\<open>strrchr\<close> on such lists, and the lemmas on lists updated by index that the
  component proofs rest on are here too. The collection \<open>cbuf\<close> holds the rewrite rules on
  bounded buffers, \<open>table\<close> those on tables kept in a list.
\<close>

named_theorems cbuf "bounded writes into C character buffers"
named_theorems table "tables kept in a list and updated by index"

type_synonym cstr = string

subsection \<open>Bounded writes\<close>

definition snprintf :: "nat \<Rightarrow> cstr \<Rightarrow> cstr" where
  "snprintf n s = take (n - 1) s"

lemma length_snprintf: "length (snprintf n s) = min (n - 1) (length s)"
  by (simp add: snprintf_def min.commute)

lemma snprintf_fits [cbuf]: "length s < n \<Longrightarrow> snprintf n s = s"
  by (simp add: snprintf_def)

lemma snprintf_bound [cbuf, intro]: "0 < n \<Longrightarrow> length (snprintf n s) < n"
  by (auto simp: snprintf_def)

lemma snprintf_Nil [simp]: "snprintf n [] = []"
  by (simp add: snprintf_def)

lemma snprintf_twice [cbuf]: "m \<le> n \<Longrightarrow> snprintf n (snprintf m s) = snprintf m s"
  by (simp add: snprintf_def min.absorb2)

lemma set_snprintf: "c \<in> set (snprintf n s) \<Longrightarrow> c \<in> set s"
  by (auto simp: snprintf_def dest: in_set_takeD)

subsection \<open>Decimal printing\<close>

definition digit_char :: "nat \<Rightarrow> char" where
  "digit_char d = char_of (48 + d)"

fun dec_of_nat :: "nat \<Rightarrow> cstr" where
  "dec_of_nat n = (if n < 10 then [digit_char n]
     else dec_of_nat (n div 10) @ [digit_char (n mod 10)])"

declare dec_of_nat.simps [simp del]

definition dec_of_int :: "int \<Rightarrow> cstr" where
  "dec_of_int i = (if i < 0 then CHR ''-'' # dec_of_nat (nat (- i)) else dec_of_nat (nat i))"

lemma dec_of_nat_nonempty [simp]: "dec_of_nat n \<noteq> []"
  by (subst dec_of_nat.simps) simp

lemma length_dec_of_nat: "n < 10 ^ k \<Longrightarrow> 0 < k \<Longrightarrow> length (dec_of_nat n) \<le> k"
proof (induction k arbitrary: n)
  case (Suc k)
  show ?case
  proof (cases "n < 10")
    case True
    then show ?thesis by (subst dec_of_nat.simps) simp
  next
    case False
    with Suc(2) have "n div 10 < 10 ^ k" "0 < k" by (cases k; auto simp: less_mult_imp_div_less)+
    with Suc(1) have "length (dec_of_nat (n div 10)) \<le> k" by blast
    with False show ?thesis by (subst dec_of_nat.simps) simp
  qed
qed simp

subsection \<open>Searching in strings\<close>

fun strchr_split :: "char \<Rightarrow> cstr \<Rightarrow> (cstr \<times> cstr) option" where
  "strchr_split c [] = None"
| "strchr_split c (x # xs) = (if x = c then Some ([], xs)
     else map_option (apfst (Cons x)) (strchr_split c xs))"

definition strrchr_after :: "char \<Rightarrow> cstr \<Rightarrow> cstr option" where
  "strrchr_after c s = (if c \<in> set s then Some (rev (takeWhile (\<lambda>x. x \<noteq> c) (rev s))) else None)"

lemma strchr_split_None: "strchr_split c s = None \<longleftrightarrow> c \<notin> set s"
  by (induction s) auto

lemma strchr_split_Some:
  "strchr_split c s = Some (a, b) \<longleftrightarrow> s = a @ c # b \<and> c \<notin> set a"
proof (induction s arbitrary: a)
  case (Cons x s)
  then show ?case by (cases a) (auto simp: apfst_def map_prod_def split: prod.splits)
qed simp

lemma strchr_split_append:
  "c \<notin> set a \<Longrightarrow> strchr_split c (a @ c # b) = Some (a, b)"
  by (simp add: strchr_split_Some)

subsection \<open>Cutting into pieces\<close>

function cut_list :: "nat \<Rightarrow> 'a list \<Rightarrow> 'a list list" where
  "cut_list n xs = (if xs = [] \<or> n = 0 then [] else take n xs # cut_list n (drop n xs))"
  by pat_completeness auto

termination cut_list
  by (relation "measure (\<lambda>(n, xs). length xs)") auto

declare cut_list.simps [simp del]

subsection \<open>Tables kept in a list\<close>

fun find_index :: "('a \<Rightarrow> bool) \<Rightarrow> 'a list \<Rightarrow> nat option" where
  "find_index P [] = None"
| "find_index P (x # xs) = (if P x then Some 0 else map_option Suc (find_index P xs))"

lemma find_index_None [table]: "find_index P xs = None \<longleftrightarrow> (\<forall>x \<in> set xs. \<not> P x)"
  by (induction xs) auto

lemma find_index_SomeD:
  "find_index P xs = Some i \<Longrightarrow> i < length xs \<and> P (xs ! i) \<and> (\<forall>j < i. \<not> P (xs ! j))"
proof (induction xs arbitrary: i)
  case Nil
  then show ?case by simp
next
  case (Cons x xs)
  show ?case
  proof (cases "P x")
    case True
    with Cons.prems show ?thesis by simp
  next
    case False
    with Cons.prems obtain k where k: "find_index P xs = Some k" "i = Suc k" by auto
    from Cons.IH [OF k(1)] k(2) False show ?thesis
      by (auto simp: nth_Cons split: nat.splits)
  qed
qed

lemma find_index_SomeI:
  "i < length xs \<Longrightarrow> P (xs ! i) \<Longrightarrow> \<exists>j. find_index P xs = Some j \<and> j \<le> i"
proof (induction xs arbitrary: i)
  case Nil
  then show ?case by simp
next
  case (Cons x xs)
  show ?case
  proof (cases "P x")
    case False
    with Cons.prems obtain k where "i = Suc k" "k < length xs" "P (xs ! k)"
      by (cases i) auto
    with Cons.IH [of k] False show ?thesis by auto
  qed simp
qed

lemma find_index_update_same [table]:
  assumes "\<And>x. x \<in> set xs \<Longrightarrow> P (f x) = P x"
  shows "find_index P (xs[i := f (xs ! i)]) = find_index P xs"
  using assms
proof (induction xs arbitrary: i)
  case (Cons x xs)
  then show ?case by (cases i) auto
qed simp

lemma map_update_same [table]:
  "i < length xs \<Longrightarrow> g y = g (xs ! i) \<Longrightarrow> map g (xs[i := y]) = map g xs"
  by (simp add: map_update nth_list_update list_eq_iff_nth_eq)

lemma list_all_update [table]:
  "list_all P xs \<Longrightarrow> P y \<Longrightarrow> list_all P (xs[i := y])"
  by (auto simp: list_all_iff dest!: set_update_subset_insert [THEN subsetD])

lemma list_all_nth [table]: "list_all P xs \<Longrightarrow> i < length xs \<Longrightarrow> P (xs ! i)"
  by (simp add: list_all_length)

text \<open>
  Deleting an entry by moving the last one into its slot keeps the other entries: the set of
  the table loses exactly the deleted entry.
\<close>

definition swap_remove :: "nat \<Rightarrow> 'a list \<Rightarrow> 'a list" where
  "swap_remove i xs =
     (let n = length xs - 1 in if i < n then (take n xs)[i := xs ! n] else take n xs)"

lemma length_swap_remove [simp]: "length (swap_remove i xs) = length xs - 1"
  by (simp add: swap_remove_def Let_def)

lemma mset_swap_remove_split:
  assumes "i < length xs"
  shows "\<exists>ys zs. xs = ys @ xs ! i # zs \<and>
    swap_remove i xs = (if zs = [] then ys else ys @ last zs # butlast zs)"
proof -
  let ?ys = "take i xs" and ?zs = "drop (Suc i) xs"
  have xs: "xs = ?ys @ xs ! i # ?zs" using assms by (simp add: id_take_nth_drop)
  have "swap_remove i xs = (if ?zs = [] then ?ys else ?ys @ last ?zs # butlast ?zs)"
  proof (cases "?zs = []")
    case True
    with assms have n: "length xs - 1 = i" by simp
    then show ?thesis using True by (simp add: swap_remove_def)
  next
    case False
    then have i: "i < length xs - 1" using assms by simp
    have "last ?zs = xs ! (length xs - 1)" proof -
      have "last ?zs = last xs" using i by (subst last_drop) auto
      moreover have "xs \<noteq> []" using i by auto
      ultimately show ?thesis using last_conv_nth [of xs] by simp
    qed
    moreover have "butlast ?zs = drop (Suc i) (take (length xs - 1) xs)"
      by (simp add: butlast_conv_take drop_take)
    moreover have "take i (take (length xs - 1) xs) = ?ys" using i by (simp add: min_def)
    ultimately show ?thesis
      using False i by (simp add: swap_remove_def Let_def upd_conv_take_nth_drop)
  qed
  with xs show ?thesis by blast
qed

lemma distinct_map_split:
  assumes "distinct (map f (ys @ x # zs))"
  shows "set ys \<union> set zs = {y \<in> set (ys @ x # zs). f y \<noteq> f x}"
  using assms by (auto simp: image_iff)

lemma set_swap_remove:
  assumes "i < length xs" and "distinct (map f xs)"
  shows "set (swap_remove i xs) = {x \<in> set xs. f x \<noteq> f (xs ! i)}"
    and "distinct (map f (swap_remove i xs))"
proof -
  define x where "x = xs ! i"
  obtain ys zs where xs: "xs = ys @ x # zs"
    and sr: "swap_remove i xs = (if zs = [] then ys else ys @ last zs # butlast zs)"
    using mset_swap_remove_split [OF assms(1)] unfolding x_def by blast
  from assms(2) have d: "distinct (map f (ys @ x # zs))" by (simp only: xs)
  have b: "zs \<noteq> [] \<Longrightarrow> mset (last zs # butlast zs) = mset zs"
    by (induction zs) auto
  have m: "mset (swap_remove i xs) = mset (ys @ zs)"
    using sr b by (cases "zs = []") simp_all
  then have "set (swap_remove i xs) = set (ys @ zs)" by (rule mset_eq_setD)
  also have "\<dots> = {y \<in> set (ys @ x # zs). f y \<noteq> f x}"
    unfolding set_append [of ys zs] by (rule distinct_map_split [OF d])
  finally show "set (swap_remove i xs) = {x \<in> set xs. f x \<noteq> f (xs ! i)}"
    unfolding x_def [symmetric] xs [symmetric] .
  have "distinct (map f (ys @ zs))" using d by auto
  moreover from m have "mset (map f (swap_remove i xs)) = mset (map f (ys @ zs))" by simp
  ultimately show "distinct (map f (swap_remove i xs))" by (metis mset_eq_imp_distinct_iff)
qed

end
