(* ===== verification/Mountd_State.thy ===== *)
theory Mountd_State
  imports Prelude
begin

section \<open>isde-mountd: the device table\<close>

text \<open>
  The state of the disk daemon (\<^verbatim>\<open>mountd/src/mountd.h\<close>) and its device list
  (\<^verbatim>\<open>mountd/src/devices.c\<close>). The fixed array \<^verbatim>\<open>devices[MAX_DEVICES]\<close> with its
  counter is the list of its used entries; a \<^verbatim>\<open>Device *\<close> into it is an index.

  Every call that leaves the daemon (system calls, libcryptsetup, libblkid, libdbus) is
  appended to the trace \<open>mtrace\<close> of the state and answered by an environment \<open>menv\<close>,
  whose answers may depend on the whole history: a theorem for every environment is a theorem
  for every behaviour of the kernel and of those libraries.
\<close>

subsection \<open>Data\<close>

definition MAX_DEVICES :: nat where "MAX_DEVICES = 64"
definition DEV_PATH_LEN :: nat where "DEV_PATH_LEN = 256"
definition LABEL_LEN :: nat where "LABEL_LEN = 256"
definition VENDOR_LEN :: nat where "VENDOR_LEN = 256"
definition FS_TYPE_LEN :: nat where "FS_TYPE_LEN = 64"
definition MOUNT_POINT_LEN :: nat where "MOUNT_POINT_LEN = 512"
definition LUKS_UUID_LEN :: nat where "LUKS_UUID_LEN = 64"
definition DM_NAME_LEN :: nat where "DM_NAME_LEN = 256"

lemmas mountd_limits [simp] = MAX_DEVICES_def DEV_PATH_LEN_def LABEL_LEN_def VENDOR_LEN_def
  FS_TYPE_LEN_def MOUNT_POINT_LEN_def LUKS_UUID_LEN_def DM_NAME_LEN_def

definition allowed_fs_types :: "cstr list" where
  "allowed_fs_types = [''vfat'', ''exfat'', ''ext2'', ''ext3'', ''ext4'',
     ''ntfs'', ''ntfs3'', ''iso9660'', ''udf'']"

record device =
  dev_path :: cstr
  label :: cstr
  vendor :: cstr
  fs_type :: cstr
  mount_point :: cstr
  is_mounted :: bool
  is_ejectable :: bool
  is_luks :: bool
  is_unlocked :: bool
  luks_opened_by_us :: bool
  luks_uuid :: cstr
  dm_name :: cstr
  dm_path :: cstr
  inner_fs_type :: cstr

datatype mflag = MS_NOSUID | MS_NODEV | MS_RELATIME | MS_NOEXEC

datatype mcall =
    CMount cstr cstr cstr "mflag list" cstr
  | CNmount "(cstr \<times> cstr) list" "mflag list"
  | CUmount cstr
  | CMkdir cstr nat
  | CRmdir cstr
  | CGetpwuid nat
  | CCryptInit cstr
  | CCryptLoad cstr
  | CCryptActivate cstr cstr cstr
  | CCryptInitByName cstr
  | CCryptDeactivate cstr
  | CCryptStatus cstr
  | CStat cstr
  | CUsleep nat
  | CBlkidNew cstr
  | CBlkidProbe cstr
  | CBlkidLookup cstr
  | COpen cstr
  | CIoctlEject cstr
  | CWrite cstr cstr
  | COpenMounts
  | CSignal cstr "cstr list"

datatype mplatform = Linux | FreeBSD

datatype crypt_status_info = CRYPT_INVALID | CRYPT_INACTIVE | CRYPT_ACTIVE | CRYPT_BUSY

record passwd =
  pw_name :: cstr
  pw_gid :: nat

text \<open>
  The environment. \<open>e_ret\<close> is the outcome of the last call of the history it is given: 0 for
  success, otherwise the \<^verbatim>\<open>errno\<close> of a system call or the negative result of a
  libcryptsetup call.
\<close>

record menv =
  e_plat :: mplatform
  e_ret :: "mcall list \<Rightarrow> int"
  e_strerror :: "int \<Rightarrow> cstr"
  e_passwd :: "mcall list \<Rightarrow> passwd option"
  e_crypt_status :: "mcall list \<Rightarrow> crypt_status_info"
  e_blkid_type :: "mcall list \<Rightarrow> cstr option"
  e_proc_mounts :: "mcall list \<Rightarrow> cstr"
  e_mntinfo :: "mcall list \<Rightarrow> (cstr \<times> cstr) list"

record mountd =
  devices :: "device list"
  mount_base :: cstr
  auto_mount :: bool
  dbus_connected :: bool
  running :: bool
  mtrace :: "mcall list"

definition log_call :: "mcall \<Rightarrow> mountd \<Rightarrow> mountd" where
  "log_call c md = md\<lparr>mtrace := mtrace md @ [c]\<rparr>"

definition sys :: "menv \<Rightarrow> mcall \<Rightarrow> mountd \<Rightarrow> int \<times> mountd" where
  "sys env c md = (let md' = log_call c md in (e_ret env (mtrace md'), md'))"

abbreviation dev_at :: "mountd \<Rightarrow> nat \<Rightarrow> device" where
  "dev_at md i \<equiv> devices md ! i"

definition upd_dev :: "nat \<Rightarrow> (device \<Rightarrow> device) \<Rightarrow> mountd \<Rightarrow> mountd" where
  "upd_dev i f md = md\<lparr>devices := (devices md)[i := f (devices md ! i)]\<rparr>"

subsection \<open>The operations of devices.c\<close>

definition mountd_find_device :: "mountd \<Rightarrow> cstr \<Rightarrow> nat option" where
  "mountd_find_device md p = find_index (\<lambda>d. dev_path d = p) (devices md)"

definition empty_device :: device where
  "empty_device = \<lparr>dev_path = [], label = [], vendor = [], fs_type = [], mount_point = [],
     is_mounted = False, is_ejectable = False, is_luks = False, is_unlocked = False,
     luks_opened_by_us = False, luks_uuid = [], dm_name = [], dm_path = [], inner_fs_type = []\<rparr>"

definition nullable :: "cstr option \<Rightarrow> cstr" where
  "nullable s = (case s of None \<Rightarrow> [] | Some t \<Rightarrow> t)"

definition new_device :: "cstr \<Rightarrow> cstr option \<Rightarrow> cstr option \<Rightarrow> cstr option \<Rightarrow> bool \<Rightarrow> device" where
  "new_device p lbl vend fs ejectable = empty_device
     \<lparr>dev_path := snprintf DEV_PATH_LEN p,
      label := snprintf LABEL_LEN (nullable lbl),
      vendor := snprintf VENDOR_LEN (nullable vend),
      fs_type := snprintf FS_TYPE_LEN (nullable fs),
      is_ejectable := ejectable\<rparr>"

definition mountd_add_device ::
  "mountd \<Rightarrow> cstr \<Rightarrow> cstr option \<Rightarrow> cstr option \<Rightarrow> cstr option \<Rightarrow> bool \<Rightarrow> nat option \<times> mountd" where
  "mountd_add_device md p lbl vend fs ejectable =
     (if mountd_find_device md p \<noteq> None then (None, md)
      else if length (devices md) \<ge> MAX_DEVICES then (None, md)
      else (Some (length (devices md)),
            md\<lparr>devices := devices md @ [new_device p lbl vend fs ejectable]\<rparr>))"

definition mountd_remove_device :: "mountd \<Rightarrow> cstr \<Rightarrow> mountd" where
  "mountd_remove_device md p = (case mountd_find_device md p of
     None \<Rightarrow> md
   | Some i \<Rightarrow> md\<lparr>devices := swap_remove i (devices md)\<rparr>)"

subsection \<open>Well-formed tables\<close>

text \<open>
  What holds of every entry of the table: the strings fit their buffers, a mount point is
  recorded exactly while the device is mounted, and a container that the daemon opened is a
  LUKS device that is still unlocked.
\<close>

definition wf_device :: "device \<Rightarrow> bool" where
  "wf_device d \<longleftrightarrow>
     length (dev_path d) < DEV_PATH_LEN \<and> length (label d) < LABEL_LEN \<and>
     length (vendor d) < VENDOR_LEN \<and> length (fs_type d) < FS_TYPE_LEN \<and>
     length (mount_point d) < MOUNT_POINT_LEN \<and> length (luks_uuid d) < LUKS_UUID_LEN \<and>
     length (dm_name d) < DM_NAME_LEN \<and> length (dm_path d) < DEV_PATH_LEN \<and>
     length (inner_fs_type d) < FS_TYPE_LEN \<and>
     (\<not> is_mounted d \<longrightarrow> mount_point d = []) \<and>
     (luks_opened_by_us d \<longrightarrow> is_luks d \<and> is_unlocked d)"

definition wf_table :: "mountd \<Rightarrow> bool" where
  "wf_table md \<longleftrightarrow> length (devices md) \<le> MAX_DEVICES \<and>
     distinct (map dev_path (devices md)) \<and> list_all wf_device (devices md)"

definition device_map :: "mountd \<Rightarrow> cstr \<Rightarrow> device option" where
  "device_map md p = map_option (\<lambda>i. devices md ! i) (mountd_find_device md p)"

lemma wf_new_device: "wf_device (new_device p lbl vend fs ej)"
  by (simp add: wf_device_def new_device_def empty_device_def cbuf)

lemma log_call_simps [simp]:
  "devices (log_call c md) = devices md" "mount_base (log_call c md) = mount_base md"
  "auto_mount (log_call c md) = auto_mount md" "dbus_connected (log_call c md) = dbus_connected md"
  "running (log_call c md) = running md" "mtrace (log_call c md) = mtrace md @ [c]"
  by (simp_all add: log_call_def)

lemma upd_dev_simps [simp]:
  "devices (upd_dev i f md) = (devices md)[i := f (devices md ! i)]"
  "mount_base (upd_dev i f md) = mount_base md"
  "auto_mount (upd_dev i f md) = auto_mount md"
  "dbus_connected (upd_dev i f md) = dbus_connected md"
  "running (upd_dev i f md) = running md" "mtrace (upd_dev i f md) = mtrace md"
  by (simp_all add: upd_dev_def)

lemma sys_snd [simp]: "snd (sys env c md) = log_call c md"
  by (simp add: sys_def Let_def)

lemma find_device_log [simp]: "mountd_find_device (log_call c md) p = mountd_find_device md p"
  by (simp add: mountd_find_device_def)

lemma find_device_SomeD:
  "mountd_find_device md p = Some i \<Longrightarrow> i < length (devices md) \<and> dev_path (dev_at md i) = p"
  by (auto simp: mountd_find_device_def dest: find_index_SomeD)

lemma find_device_None:
  "mountd_find_device md p = None \<longleftrightarrow> p \<notin> dev_path ` set (devices md)"
  by (auto simp: mountd_find_device_def find_index_None)

lemma find_device_upd [simp]:
  assumes "\<And>d. dev_path (f d) = dev_path d"
  shows "mountd_find_device (upd_dev i f md) p = mountd_find_device md p"
  unfolding mountd_find_device_def by (simp add: assms find_index_update_same)

lemma find_device_unique:
  assumes "distinct (map dev_path (devices md))" and "i < length (devices md)"
  shows "mountd_find_device md (dev_path (dev_at md i)) = Some i"
proof -
  let ?P = "\<lambda>d. dev_path d = dev_path (dev_at md i)"
  obtain j where j: "find_index ?P (devices md) = Some j"
    using find_index_SomeI [of i "devices md" ?P] assms(2) by auto
  from find_index_SomeD [OF j] have "j < length (devices md)" "dev_path (dev_at md j) = dev_path (dev_at md i)"
    by auto
  with assms have "j = i" by (metis distinct_conv_nth length_map nth_map)
  with j show ?thesis by (simp add: mountd_find_device_def)
qed

lemma device_map_Some:
  assumes "distinct (map dev_path (devices md))"
  shows "device_map md p = Some d \<longleftrightarrow> d \<in> set (devices md) \<and> dev_path d = p"
proof
  assume "device_map md p = Some d"
  then show "d \<in> set (devices md) \<and> dev_path d = p"
    by (auto simp: device_map_def dest!: find_device_SomeD)
next
  assume d: "d \<in> set (devices md) \<and> dev_path d = p"
  then obtain i where "i < length (devices md)" "d = dev_at md i" by (auto simp: in_set_conv_nth)
  with d find_device_unique [OF assms, of i] show "device_map md p = Some d"
    by (auto simp: device_map_def)
qed

lemma device_map_None: "device_map md p = None \<longleftrightarrow> p \<notin> dev_path ` set (devices md)"
  by (simp add: device_map_def find_device_None)

lemma wf_table_upd:
  assumes "wf_table md" and "i < length (devices md)"
    and "dev_path (f (dev_at md i)) = dev_path (dev_at md i)" and "wf_device (f (dev_at md i))"
  shows "wf_table (upd_dev i f md)"
  using assms by (simp add: wf_table_def list_all_update map_update_same)

lemma wf_table_nth: "wf_table md \<Longrightarrow> i < length (devices md) \<Longrightarrow> wf_device (dev_at md i)"
  by (simp add: wf_table_def list_all_nth)

lemma wf_table_log [simp]: "wf_table (log_call c md) = wf_table md"
  by (simp add: wf_table_def)

subsection \<open>The table as a map from device paths\<close>

text \<open>
  The contract the mount operations and the monitor rely on: a table is a finite map from
  device paths to entries, with a capacity. The lemmas a client needs are proved once from the
  contract; the interpretation below discharges it for the array of \<^verbatim>\<open>devices.c\<close>,
  where deletion moves the last entry into the freed slot.
\<close>

locale device_table =
  fixes lookup :: "'s \<Rightarrow> cstr \<Rightarrow> 'd option"
    and add :: "cstr \<Rightarrow> 'x \<Rightarrow> 's \<Rightarrow> 's"
    and remove :: "cstr \<Rightarrow> 's \<Rightarrow> 's"
    and mk :: "cstr \<Rightarrow> 'x \<Rightarrow> 'd"
    and full :: "'s \<Rightarrow> bool"
    and invar :: "'s \<Rightarrow> bool"
    and valid_key :: "cstr \<Rightarrow> bool"
  assumes lookup_add: "invar s \<Longrightarrow> valid_key p \<Longrightarrow> lookup s p = None \<Longrightarrow> \<not> full s \<Longrightarrow>
      lookup (add p x s) = (lookup s)(p \<mapsto> mk p x)"
    and add_tracked: "lookup s p \<noteq> None \<Longrightarrow> add p x s = s"
    and add_full: "full s \<Longrightarrow> add p x s = s"
    and lookup_remove: "invar s \<Longrightarrow> lookup (remove p s) = (lookup s)(p := None)"
    and remove_untracked: "lookup s p = None \<Longrightarrow> remove p s = s"
    and invar_add: "invar s \<Longrightarrow> valid_key p \<Longrightarrow> invar (add p x s)"
    and invar_remove: "invar s \<Longrightarrow> invar (remove p s)"
begin

lemma add_remove:
  "invar s \<Longrightarrow> valid_key p \<Longrightarrow> lookup s p = None \<Longrightarrow> \<not> full s \<Longrightarrow>
    lookup (remove p (add p x s)) = lookup s"
  by (auto simp: lookup_add lookup_remove invar_add fun_upd_idem)

lemma remove_idem: "invar s \<Longrightarrow> remove p (remove p s) = remove p s"
  by (rule remove_untracked) (simp add: lookup_remove)

lemma add_idem: "invar s \<Longrightarrow> valid_key p \<Longrightarrow> add p y (add p x s) = add p x s"
  by (metis add_full add_tracked fun_upd_same lookup_add option.distinct(1))

lemma remove_commute: "invar s \<Longrightarrow> lookup (remove p (remove q s)) = lookup (remove q (remove p s))"
  by (auto simp: lookup_remove invar_remove fun_eq_iff)

lemma add_keeps: "invar s \<Longrightarrow> valid_key p \<Longrightarrow> lookup s q = Some d \<Longrightarrow> lookup (add p x s) q = Some d"
  by (metis add_full add_tracked fun_upd_apply lookup_add option.distinct(1))

end

abbreviation add_dev :: "cstr \<Rightarrow> cstr option \<times> cstr option \<times> cstr option \<times> bool \<Rightarrow> mountd \<Rightarrow> mountd" where
  "add_dev p x md \<equiv> (case x of (lbl, vend, fs, ej) \<Rightarrow> snd (mountd_add_device md p lbl vend fs ej))"

lemma map_dev_path_nth_neq:
  "distinct (map dev_path ds) \<Longrightarrow> d \<in> set ds \<Longrightarrow> e \<in> set ds \<Longrightarrow> dev_path d = dev_path e \<Longrightarrow> d = e"
  by (meson distinct_map inj_onD)

lemma new_device_path: "length p < DEV_PATH_LEN \<Longrightarrow> dev_path (new_device p lbl vend fs ej) = p"
  by (simp add: new_device_def cbuf)

lemma wf_table_add:
  assumes "wf_table md" and "length p < DEV_PATH_LEN"
  shows "wf_table (snd (mountd_add_device md p lbl vend fs ej))"
proof (cases "mountd_find_device md p = None \<and> length (devices md) < MAX_DEVICES")
  case True
  then have "p \<notin> dev_path ` set (devices md)" by (simp add: find_device_None)
  with True assms new_device_path [OF assms(2), of lbl vend fs ej] show ?thesis
    by (auto simp: mountd_add_device_def wf_table_def wf_new_device)
next
  case False
  with assms show ?thesis by (auto simp: mountd_add_device_def)
qed

lemma device_map_add:
  assumes "wf_table md" and "length p < DEV_PATH_LEN" and "device_map md p = None"
    and "length (devices md) < MAX_DEVICES"
  shows "device_map (snd (mountd_add_device md p lbl vend fs ej)) =
    (device_map md)(p \<mapsto> new_device p lbl vend fs ej)"
proof
  fix q
  let ?md' = "snd (mountd_add_device md p lbl vend fs ej)"
  let ?d = "new_device p lbl vend fs ej"
  from assms(3) have p: "mountd_find_device md p = None" by (simp add: device_map_def)
  with assms(4) have ds: "devices ?md' = devices md @ [?d]"
    by (simp add: mountd_add_device_def)
  have dd: "distinct (map dev_path (devices ?md'))" "distinct (map dev_path (devices md))"
    using wf_table_add [OF assms(1,2)] assms(1) by (auto simp: wf_table_def)
  have pth: "dev_path ?d = p" by (rule new_device_path [OF assms(2)])
  have iff: "device_map ?md' q = Some d \<longleftrightarrow> ((device_map md)(p \<mapsto> ?d)) q = Some d" for d
    using dd ds pth p by (auto simp: device_map_Some find_device_None)
  then show "device_map ?md' q = ((device_map md)(p \<mapsto> ?d)) q"
    by (metis not_None_eq)
qed

lemma wf_table_remove: "wf_table md \<Longrightarrow> wf_table (mountd_remove_device md p)"
  by (auto simp: mountd_remove_device_def wf_table_def list_all_iff set_swap_remove
      split: option.splits dest!: find_device_SomeD)

lemma device_map_remove:
  assumes "wf_table md"
  shows "device_map (mountd_remove_device md p) = (device_map md)(p := None)"
proof (cases "mountd_find_device md p")
  case None
  then show ?thesis by (auto simp: mountd_remove_device_def device_map_def fun_eq_iff)
next
  case (Some i)
  note i = find_device_SomeD [OF Some]
  from assms have dd: "distinct (map dev_path (devices md))" by (simp add: wf_table_def)
  let ?md' = "mountd_remove_device md p"
  from Some have ds: "devices ?md' = swap_remove i (devices md)"
    by (simp add: mountd_remove_device_def)
  have set': "set (devices ?md') = {d \<in> set (devices md). dev_path d \<noteq> p}"
    using set_swap_remove(1) [OF _ dd, of i] i ds by simp
  have dd': "distinct (map dev_path (devices ?md'))"
    using set_swap_remove(2) [OF _ dd, of i] i ds by simp
  show ?thesis
  proof
    fix q
    have "device_map ?md' q = Some d \<longleftrightarrow> ((device_map md)(p := None)) q = Some d" for d
      using device_map_Some [OF dd'] device_map_Some [OF dd] set' by auto
    then show "device_map ?md' q = ((device_map md)(p := None)) q" by (metis not_None_eq)
  qed
qed

interpretation mdt: device_table device_map add_dev "\<lambda>p md. mountd_remove_device md p"
  "\<lambda>p x. case x of (lbl, vend, fs, ej) \<Rightarrow> new_device p lbl vend fs ej"
  "\<lambda>md. MAX_DEVICES \<le> length (devices md)" wf_table "\<lambda>p. length p < DEV_PATH_LEN"
proof unfold_locales
  fix md :: mountd and p and x :: "cstr option \<times> cstr option \<times> cstr option \<times> bool"
  obtain lbl vend fs ej where x: "x = (lbl, vend, fs, ej)" by (cases x)
  show "device_map md p \<noteq> None \<Longrightarrow> add_dev p x md = md"
    by (simp add: x mountd_add_device_def device_map_def)
  show "MAX_DEVICES \<le> length (devices md) \<Longrightarrow> add_dev p x md = md"
    by (simp add: x mountd_add_device_def)
  show "device_map md p = None \<Longrightarrow> mountd_remove_device md p = md"
    by (simp add: mountd_remove_device_def device_map_def)
qed (auto simp: device_map_add device_map_remove wf_table_add wf_table_remove split: prod.splits)

end
