(* ===== verification/Mountd_Luks.thy ===== *)
theory Mountd_Luks
  imports Mountd_State
begin

section \<open>isde-mountd: LUKS containers and the mount state\<close>

text \<open>
  \<^verbatim>\<open>mountd/src/luks.c\<close> (opening, closing and probing a container through libcryptsetup
  and libblkid) and \<^verbatim>\<open>mountd_refresh_mount_state\<close> of \<^verbatim>\<open>devices.c\<close>, which reads
  the kernel's mount table. A failing function returns its message (\<open>Inl\<close>), cut to the
  caller's error buffer.
\<close>

subsection \<open>luks.c\<close>

definition luks_unsupported :: cstr where
  "luks_unsupported = ''LUKS not supported on this platform''"

definition mountd_luks_open ::
  "menv \<Rightarrow> cstr \<Rightarrow> cstr \<Rightarrow> cstr \<Rightarrow> nat \<Rightarrow> mountd \<Rightarrow> (cstr + unit) \<times> mountd" where
  "mountd_luks_open env path name pass errlen md =
     (if e_plat env \<noteq> Linux then (Inl (snprintf errlen luks_unsupported), md)
      else
        let (r, md) = sys env (CCryptInit path) md in
        if r < 0 then (Inl (snprintf errlen (''crypt_init: '' @ e_strerror env (- r))), md)
        else
          let (r, md) = sys env (CCryptLoad path) md in
          if r < 0 then (Inl (snprintf errlen (''crypt_load: '' @ e_strerror env (- r))), md)
          else
            let (r, md) = sys env (CCryptActivate path name pass) md in
            if r < 0 then
              (Inl (if r = - 1 then snprintf errlen ''Wrong passphrase''
                    else snprintf errlen (''crypt_activate: '' @ e_strerror env (- r))), md)
            else (Inr (), md))"

definition mountd_luks_close ::
  "menv \<Rightarrow> cstr \<Rightarrow> nat \<Rightarrow> mountd \<Rightarrow> (cstr + unit) \<times> mountd" where
  "mountd_luks_close env name errlen md =
     (if e_plat env \<noteq> Linux then (Inl (snprintf errlen luks_unsupported), md)
      else
        let (r, md) = sys env (CCryptInitByName name) md in
        if r < 0 then (Inl (snprintf errlen (''crypt_init_by_name: '' @ e_strerror env (- r))), md)
        else
          let (r, md) = sys env (CCryptDeactivate name) md in
          if r < 0 then (Inl (snprintf errlen (''crypt_deactivate: '' @ e_strerror env (- r))), md)
          else (Inr (), md))"

definition mountd_luks_is_active :: "menv \<Rightarrow> cstr \<Rightarrow> mountd \<Rightarrow> bool \<times> mountd" where
  "mountd_luks_is_active env name md =
     (if e_plat env \<noteq> Linux then (False, md)
      else
        let md = log_call (CCryptStatus name) md; ci = e_crypt_status env (mtrace md) in
        (ci = CRYPT_ACTIVE \<or> ci = CRYPT_BUSY, md))"

text \<open>The wait of at most 50 times 0.1 s for udev to create the device node.\<close>

fun wait_for_node :: "nat \<Rightarrow> menv \<Rightarrow> cstr \<Rightarrow> mountd \<Rightarrow> mountd" where
  "wait_for_node 0 env path md = md"
| "wait_for_node (Suc n) env path md =
     (let (r, md) = sys env (CStat path) md in
      if r \<noteq> 0 then wait_for_node n env path (log_call (CUsleep 100000) md) else md)"

definition mountd_luks_probe_fs :: "menv \<Rightarrow> cstr \<Rightarrow> nat \<Rightarrow> mountd \<Rightarrow> cstr option \<times> mountd" where
  "mountd_luks_probe_fs env path fs_len md =
     (if e_plat env \<noteq> Linux then (None, md)
      else
        let md = wait_for_node 50 env path md;
            (r, md) = sys env (CBlkidNew path) md in
        if r \<noteq> 0 then (None, md)
        else
          let (r, md) = sys env (CBlkidProbe path) md in
          if r \<noteq> 0 then (None, md)
          else
            let md = log_call (CBlkidLookup path) md in
            (map_option (snprintf fs_len) (e_blkid_type env (mtrace md)), md))"

subsection \<open>Reading the mount table\<close>

definition is_space :: "char \<Rightarrow> bool" where
  "is_space c \<longleftrightarrow> c \<in> {CHR '' '', CHR 0x09, CHR 0x0A, CHR 0x0B, CHR 0x0C, CHR 0x0D}"

text \<open>\<^verbatim>\<open>fgets\<close> into a buffer of \<open>n\<close> bytes: up to \<open>n - 1\<close> characters, not past a newline.\<close>

fun fgets_take :: "nat \<Rightarrow> cstr \<Rightarrow> cstr \<times> cstr" where
  "fgets_take 0 s = ([], s)"
| "fgets_take (Suc n) [] = ([], [])"
| "fgets_take (Suc n) (c # cs) =
     (if c = CHR 0x0A then ([c], cs) else apfst (Cons c) (fgets_take n cs))"

lemma fgets_take_split: "fgets_take n s = (a, b) \<Longrightarrow> s = a @ b"
  by (induction n s arbitrary: a b rule: fgets_take.induct)
     (auto simp: apfst_def map_prod_def split: if_splits prod.splits)

lemma fgets_take_progress: "fgets_take (Suc n) (c # cs) = (a, b) \<Longrightarrow> length b < Suc (length cs)"
  using fgets_take_split [of n cs]
  by (fastforce simp: apfst_def map_prod_def split: if_splits prod.splits)

function fgets_lines :: "cstr \<Rightarrow> cstr list" where
  "fgets_lines [] = []"
| "fgets_lines (c # cs) = (let (l, rest) = fgets_take 1023 (c # cs) in l # fgets_lines rest)"
  by pat_completeness auto
termination
proof (relation "measure length", goal_cases)
  case (2 c cs x l rest)
  then show ?case using fgets_take_progress [of 1022 c cs l rest]
    by (simp add: numeral_eq_Suc)
qed simp

text \<open>One \<^verbatim>\<open>%Ns\<close> conversion of \<^verbatim>\<open>sscanf\<close>: skip white space, take up to \<open>n\<close> other characters.\<close>

definition scan_word :: "nat \<Rightarrow> cstr \<Rightarrow> (cstr \<times> cstr) option" where
  "scan_word n s = (let t = dropWhile is_space s; w = take n (takeWhile (\<lambda>c. \<not> is_space c) t) in
     if w = [] then None else Some (w, drop (length w) t))"

definition parse_mount_line :: "cstr \<Rightarrow> (cstr \<times> cstr) option" where
  "parse_mount_line line = (case scan_word 255 line of
     None \<Rightarrow> None
   | Some (dev, rest) \<Rightarrow> map_option (\<lambda>(mp, _). (dev, mp)) (scan_word 511 rest))"

definition mark_mounted :: "cstr \<Rightarrow> device \<Rightarrow> device" where
  "mark_mounted mp d = d\<lparr>is_mounted := True, mount_point := snprintf MOUNT_POINT_LEN mp\<rparr>"

definition apply_mount_entry :: "cstr \<times> cstr \<Rightarrow> mountd \<Rightarrow> mountd" where
  "apply_mount_entry e md = (let (dev, mp) = e in
     case mountd_find_device md dev of
       Some i \<Rightarrow> upd_dev i (mark_mounted mp) md
     | None \<Rightarrow>
         (case find_index (\<lambda>d. is_luks d \<and> dm_path d \<noteq> [] \<and> dm_path d = dev) (devices md) of
            Some i \<Rightarrow> upd_dev i (mark_mounted mp) md
          | None \<Rightarrow> md))"

definition clear_mount :: "device \<Rightarrow> device" where
  "clear_mount d = d\<lparr>is_mounted := False, mount_point := []\<rparr>"

fun refresh_unlocked :: "menv \<Rightarrow> nat \<Rightarrow> nat \<Rightarrow> mountd \<Rightarrow> mountd" where
  "refresh_unlocked env i 0 md = md"
| "refresh_unlocked env i (Suc n) md =
     (let d = dev_at md i in
      if is_luks d \<and> dm_name d \<noteq> [] then
        let (a, md) = mountd_luks_is_active env (dm_name d) md in
        refresh_unlocked env (Suc i) n (upd_dev i (\<lambda>d. d\<lparr>is_unlocked := a\<rparr>) md)
      else refresh_unlocked env (Suc i) n md)"

definition mountd_refresh_mount_state :: "menv \<Rightarrow> mountd \<Rightarrow> mountd" where
  "mountd_refresh_mount_state env md =
     (let md = md\<lparr>devices := map clear_mount (devices md)\<rparr>;
          md = refresh_unlocked env 0 (length (devices md)) md in
      if e_plat env = Linux then
        let (r, md) = sys env COpenMounts md in
        if r \<noteq> 0 then md
        else fold apply_mount_entry
               (List.map_filter parse_mount_line (fgets_lines (e_proc_mounts env (mtrace md)))) md
      else
        let md = log_call COpenMounts md in
        fold apply_mount_entry (e_mntinfo env (mtrace md)) md)"

subsection \<open>What these operations keep\<close>

lemma sys_eq: "sys env c md = (e_ret env (mtrace md @ [c]), log_call c md)"
  by (simp add: sys_def Let_def)

text \<open>
  The LUKS calls change nothing but the trace, and they mount nothing: \<open>only_trace\<close> says so,
  and the lemmas read every field of the state through it.
\<close>

fun is_mount_call :: "mcall \<Rightarrow> bool" where
  "is_mount_call (CMount _ _ _ _ _) = True"
| "is_mount_call (CNmount _ _) = True"
| "is_mount_call _ = False"

definition only_trace :: "mountd \<Rightarrow> mountd \<Rightarrow> bool" where
  "only_trace md md' \<longleftrightarrow>
     (\<exists>t. md' = md\<lparr>mtrace := mtrace md @ t\<rparr> \<and> list_all (\<lambda>c. \<not> is_mount_call c) t)"

lemma only_trace_refl [simp]: "only_trace md md"
  unfolding only_trace_def by (rule exI [of _ "[]"]) simp

lemma only_trace_log [simp]: "\<not> is_mount_call c \<Longrightarrow> only_trace md (log_call c md)"
  unfolding only_trace_def log_call_def by (rule exI [of _ "[c]"]) simp

lemma only_trace_trans [trans]: "only_trace a b \<Longrightarrow> only_trace b c \<Longrightarrow> only_trace a c"
  by (auto simp: only_trace_def)

lemma only_traceD:
  assumes "only_trace md md'"
  shows "devices md' = devices md" "mount_base md' = mount_base md"
    "auto_mount md' = auto_mount md" "dbus_connected md' = dbus_connected md"
    "running md' = running md" "\<exists>t. mtrace md' = mtrace md @ t"
  using assms by (auto simp: only_trace_def)

lemma only_trace_step:
  "only_trace md md' \<Longrightarrow> \<not> is_mount_call c \<Longrightarrow> only_trace md (log_call c md')"
  by (erule only_trace_trans) simp

lemma only_trace_after:
  "only_trace (log_call c md) md' \<Longrightarrow> \<not> is_mount_call c \<Longrightarrow> only_trace md md'"
  by (rule only_trace_trans [OF only_trace_log])

lemma luks_open_trace: "mountd_luks_open env p n w e md = (r, md') \<Longrightarrow> only_trace md md'"
  by (auto simp: mountd_luks_open_def sys_eq Let_def only_trace_step split: if_splits)

lemma luks_close_trace: "mountd_luks_close env n e md = (r, md') \<Longrightarrow> only_trace md md'"
  by (auto simp: mountd_luks_close_def sys_eq Let_def only_trace_step split: if_splits)

lemma luks_is_active_trace: "mountd_luks_is_active env n md = (r, md') \<Longrightarrow> only_trace md md'"
  by (auto simp: mountd_luks_is_active_def Let_def split: if_splits)

lemma wait_for_node_trace: "only_trace md (wait_for_node n env p md)"
proof (induction n arbitrary: md)
  case (Suc n)
  show ?case using only_trace_trans [OF _ Suc] by (simp add: sys_eq only_trace_step)
qed simp

lemma luks_probe_trace: "mountd_luks_probe_fs env p n md = (r, md') \<Longrightarrow> only_trace md md'"
  by (auto simp: mountd_luks_probe_fs_def sys_eq Let_def only_trace_step wait_for_node_trace
      split: if_splits)

lemma luks_probe_bound:
  "mountd_luks_probe_fs env p n md = (Some fs, md') \<Longrightarrow> 0 < n \<Longrightarrow> length fs < n"
  by (auto simp: mountd_luks_probe_fs_def sys_eq Let_def cbuf split: if_splits)

lemma wf_mark_mounted: "wf_device d \<Longrightarrow> wf_device (mark_mounted mp d)"
  by (simp add: wf_device_def mark_mounted_def cbuf)

lemma apply_mount_entry_wf: "wf_table md \<Longrightarrow> wf_table (apply_mount_entry e md)"
proof (cases e)
  case (Pair dev mp)
  assume wf: "wf_table md"
  have "i < length (devices md) \<Longrightarrow> wf_table (upd_dev i (mark_mounted mp) md)" for i
    using wf wf_table_nth [OF wf] by (intro wf_table_upd) (auto simp: wf_mark_mounted, simp add: mark_mounted_def)
  then show ?thesis using wf
    by (auto simp: apply_mount_entry_def Pair split: option.splits
        dest: find_device_SomeD find_index_SomeD)
qed

lemma fold_apply_mount_wf: "wf_table md \<Longrightarrow> wf_table (fold apply_mount_entry es md)"
  by (induction es arbitrary: md) (auto simp: apply_mount_entry_wf)

text \<open>
  The refresh runs before any container is opened (it is called from \<^verbatim>\<open>mountd_init\<close>
  only), which \<open>none_opened\<close> records: re-reading the unlock state of a container the daemon
  holds open could otherwise clear \<open>is_unlocked\<close> under \<open>luks_opened_by_us\<close>.
\<close>

definition none_opened :: "mountd \<Rightarrow> bool" where
  "none_opened md \<longleftrightarrow> list_all (\<lambda>d. \<not> luks_opened_by_us d) (devices md)"

lemma refresh_unlocked_wf:
  assumes "wf_table md" "none_opened md" "i + n \<le> length (devices md)"
  shows "wf_table (refresh_unlocked env i n md) \<and> none_opened (refresh_unlocked env i n md)"
  using assms
proof (induction n arbitrary: i md)
  case (Suc n)
  show ?case
  proof (cases "is_luks (dev_at md i) \<and> dm_name (dev_at md i) \<noteq> []")
    case False
    then have "refresh_unlocked env i (Suc n) md = refresh_unlocked env (Suc i) n md"
      by (auto simp: Let_def)
    with Suc show ?thesis by simp
  next
    case True
    obtain a md1 where a: "mountd_luks_is_active env (dm_name (dev_at md i)) md = (a, md1)"
      by fastforce
    note t = only_traceD [OF luks_is_active_trace [OF a]]
    let ?md2 = "upd_dev i (\<lambda>d. d\<lparr>is_unlocked := a\<rparr>) md1"
    have no: "\<not> luks_opened_by_us (dev_at md i)"
      using Suc.prems by (auto simp: none_opened_def list_all_length)
    have "wf_device (dev_at md i)" using Suc.prems by (auto intro: wf_table_nth)
    with no Suc.prems t have "wf_table ?md2"
      by (intro wf_table_upd) (auto simp: wf_table_def wf_device_def)
    moreover have "none_opened ?md2"
      using Suc.prems(2) no t by (auto simp: none_opened_def list_all_update)
    ultimately have "wf_table (refresh_unlocked env (Suc i) n ?md2) \<and>
        none_opened (refresh_unlocked env (Suc i) n ?md2)"
      using Suc.prems t by (intro Suc.IH) auto
    with True a show ?thesis by (simp add: Let_def)
  qed
qed simp

lemma refresh_wf:
  assumes "wf_table md" "none_opened md"
  shows "wf_table (mountd_refresh_mount_state env md)"
proof -
  let ?md0 = "md\<lparr>devices := map clear_mount (devices md)\<rparr>"
  have c: "wf_device d \<Longrightarrow> wf_device (clear_mount d)" for d
    by (simp add: wf_device_def clear_mount_def)
  have "wf_table ?md0" using assms(1) c
    by (auto simp: wf_table_def list_all_iff comp_def clear_mount_def)
  moreover have "none_opened ?md0" using assms(2)
    by (auto simp: none_opened_def list_all_iff clear_mount_def)
  ultimately have "wf_table (refresh_unlocked env 0 (length (devices ?md0)) ?md0)"
    using refresh_unlocked_wf by auto
  then show ?thesis
    by (simp add: mountd_refresh_mount_state_def Let_def sys_eq fold_apply_mount_wf)
qed

end
