(* ===== verification/Mountd_Mount.thy ===== *)
theory Mountd_Mount
  imports Mountd_Luks
begin

section \<open>isde-mountd: mount, unmount, eject\<close>

text \<open>
  \<^verbatim>\<open>mountd/src/mount_ops.c\<close>. A request returns \<open>Inl\<close> of the message written to the
  caller's error buffer or \<open>Inr\<close> of the result, and the new state; the branches follow the
  early returns of the C functions, including which of them roll the LUKS unlock back.
\<close>

subsection \<open>Helpers\<close>

definition is_fs_type_allowed :: "cstr \<Rightarrow> bool" where
  "is_fs_type_allowed fs = list_ex (\<lambda>a. fs = a) allowed_fs_types"

fun sanitize_loop :: "nat \<Rightarrow> nat \<Rightarrow> cstr \<Rightarrow> cstr" where
  "sanitize_loop len i [] = []"
| "sanitize_loop len i (c # cs) =
     (if i < len - 1 then
        (if c = CHR ''/'' then CHR ''_''
         else if i = 0 \<and> c = CHR ''.'' then CHR ''_'' else c) # sanitize_loop len (Suc i) cs
      else [])"

definition sanitize_label :: "cstr \<Rightarrow> nat \<Rightarrow> cstr" where
  "sanitize_label lbl len = (let out = sanitize_loop len 0 lbl in
     if out = [] then snprintf len ''disk'' else out)"

definition EEXIST :: int where "EEXIST = 17"

text \<open>
  \<open>mkdir_loop\<close> walks the path with \<open>seen\<close> the part before the pointer: at every slash the
  part before it is created, an existing directory is not an error.
\<close>

fun mkdir_loop :: "menv \<Rightarrow> nat \<Rightarrow> cstr \<Rightarrow> cstr \<Rightarrow> mountd \<Rightarrow> (int + unit) \<times> mountd" where
  "mkdir_loop env mode seen [] md =
     (let (r, md) = sys env (CMkdir seen mode) md in
      if r \<noteq> 0 \<and> r \<noteq> EEXIST then (Inl r, md) else (Inr (), md))"
| "mkdir_loop env mode seen (c # cs) md =
     (if c = CHR ''/'' then
        let (r, md) = sys env (CMkdir seen mode) md in
        if r \<noteq> 0 \<and> r \<noteq> EEXIST then (Inl r, md)
        else mkdir_loop env mode (seen @ [c]) cs md
      else mkdir_loop env mode (seen @ [c]) cs md)"

definition mkdir_p :: "menv \<Rightarrow> cstr \<Rightarrow> nat \<Rightarrow> mountd \<Rightarrow> (int + unit) \<times> mountd" where
  "mkdir_p env path mode md =
     (let tmp = snprintf 512 path in mkdir_loop env mode (take 1 tmp) (drop 1 tmp) md)"

subsection \<open>The platform's mount\<close>

definition linux_plat_mount ::
  "menv \<Rightarrow> cstr \<Rightarrow> cstr \<Rightarrow> cstr \<Rightarrow> bool \<Rightarrow> nat \<Rightarrow> nat \<Rightarrow> nat \<Rightarrow> mountd \<Rightarrow> (cstr + unit) \<times> mountd" where
  "linux_plat_mount env src tgt fs is_fat uid gid errlen md =
     (let opts = (if is_fat
                  then snprintf 256 (''uid='' @ dec_of_nat uid @ '',gid='' @ dec_of_nat gid)
                  else []);
          flags = [MS_NOSUID, MS_NODEV, MS_RELATIME] @ (if is_fat then [MS_NOEXEC] else []);
          (r, md) = sys env (CMount src tgt fs flags opts) md in
      if r \<noteq> 0 then (Inl (snprintf errlen (''mount failed: '' @ e_strerror env r)), md)
      else (Inr (), md))"

definition fbsd_vfstype :: "cstr \<Rightarrow> cstr option" where
  "fbsd_vfstype fs =
     (if fs = ''vfat'' then Some ''msdosfs''
      else if fs = ''iso9660'' then Some ''cd9660''
      else if fs = ''udf'' then Some ''udf''
      else if fs = ''ext2'' \<or> fs = ''ext3'' \<or> fs = ''ext4'' then Some ''ext2fs''
      else None)"

definition fbsd_plat_mount ::
  "menv \<Rightarrow> cstr \<Rightarrow> cstr \<Rightarrow> cstr \<Rightarrow> bool \<Rightarrow> nat \<Rightarrow> nat \<Rightarrow> nat \<Rightarrow> mountd \<Rightarrow> (cstr + unit) \<times> mountd" where
  "fbsd_plat_mount env src tgt fs is_fat uid gid errlen md =
     (case fbsd_vfstype fs of
        None \<Rightarrow> (Inl (snprintf errlen (''Filesystem '' @ fs @
                  '' needs a userspace helper; unsupported on FreeBSD'')), md)
      | Some vfs \<Rightarrow>
          let iov = [(''fstype'', vfs), (''fspath'', tgt), (''from'', src)] @
                (if is_fat then [(''uid'', snprintf 32 (dec_of_nat uid)),
                                 (''gid'', snprintf 32 (dec_of_nat gid))] else []);
              flags = [MS_NOSUID] @ (if is_fat then [MS_NOEXEC] else []);
              (r, md) = sys env (CNmount iov flags) md in
          if r \<noteq> 0 then (Inl (snprintf errlen (''nmount failed: '' @ e_strerror env r)), md)
          else (Inr (), md))"

definition plat_mount ::
  "menv \<Rightarrow> cstr \<Rightarrow> cstr \<Rightarrow> cstr \<Rightarrow> bool \<Rightarrow> nat \<Rightarrow> nat \<Rightarrow> nat \<Rightarrow> mountd \<Rightarrow> (cstr + unit) \<times> mountd" where
  "plat_mount env = (if e_plat env = Linux then linux_plat_mount env else fbsd_plat_mount env)"

subsection \<open>Mount\<close>

text \<open>The block repeated on the error paths: close the container if the daemon opened it.\<close>

definition luks_rollback :: "menv \<Rightarrow> nat \<Rightarrow> mountd \<Rightarrow> mountd" where
  "luks_rollback env i md =
     (if is_luks (dev_at md i) \<and> luks_opened_by_us (dev_at md i) then
        let (_, md) = mountd_luks_close env (dm_name (dev_at md i)) 128 md in
        upd_dev i (\<lambda>d. d\<lparr>is_unlocked := False, luks_opened_by_us := False\<rparr>) md
      else md)"

text \<open>Unlocking the container and probing the file system inside it.\<close>

definition luks_unlock :: "menv \<Rightarrow> nat \<Rightarrow> cstr \<Rightarrow> cstr \<Rightarrow> nat \<Rightarrow> mountd \<Rightarrow> (cstr + unit) \<times> mountd" where
  "luks_unlock env i path pass errlen md =
     (if \<not> is_unlocked (dev_at md i) then
        let (r, md) = mountd_luks_open env path (dm_name (dev_at md i)) pass errlen md in
        case r of
          Inl e \<Rightarrow> (Inl e, md)
        | Inr _ \<Rightarrow> (Inr (), upd_dev i (\<lambda>d. d\<lparr>is_unlocked := True, luks_opened_by_us := True\<rparr>) md)
      else (Inr (), md))"

definition luks_prepare ::
  "menv \<Rightarrow> nat \<Rightarrow> cstr \<Rightarrow> cstr \<Rightarrow> nat \<Rightarrow> mountd \<Rightarrow> (cstr + unit) \<times> mountd" where
  "luks_prepare env i path pass errlen md =
     (if pass = [] then (Inl (snprintf errlen ''Passphrase required for LUKS device''), md)
      else if dm_name (dev_at md i) = [] then (Inl (snprintf errlen ''LUKS device has no dm name''), md)
      else
        let (r, md) = luks_unlock env i path pass errlen md in
        case r of
          Inl e \<Rightarrow> (Inl e, md)
        | Inr _ \<Rightarrow>
            if inner_fs_type (dev_at md i) = [] then
              let (p, md) = mountd_luks_probe_fs env (dm_path (dev_at md i)) FS_TYPE_LEN md in
              case p of
                None \<Rightarrow>
                  (Inl (snprintf errlen ''Cannot determine filesystem inside LUKS container''),
                   luks_rollback env i md)
              | Some fs \<Rightarrow> (Inr (), upd_dev i (\<lambda>d. d\<lparr>inner_fs_type := fs\<rparr>) md)
            else (Inr (), md))"

definition mount_path :: "mountd \<Rightarrow> passwd \<Rightarrow> nat \<Rightarrow> cstr" where
  "mount_path md pw i = snprintf MOUNT_POINT_LEN
     (mount_base md @ ''/'' @ pw_name pw @ ''/'' @ sanitize_label (label (dev_at md i)) 256)"

text \<open>From the file system check to the updated entry.\<close>

definition mount_volume ::
  "menv \<Rightarrow> nat \<Rightarrow> cstr \<Rightarrow> cstr \<Rightarrow> nat \<Rightarrow> nat \<Rightarrow> nat \<Rightarrow> mountd \<Rightarrow> (cstr + cstr) \<times> mountd" where
  "mount_volume env i mount_dev fs uid mp_len errlen md =
     (if fs = [] then (Inl (snprintf errlen ''Unknown filesystem type''), md)
      else if \<not> is_fs_type_allowed fs then
        (Inl (snprintf errlen (''Filesystem type not allowed: '' @ fs)), luks_rollback env i md)
      else
        let md = log_call (CGetpwuid uid) md in
        case e_passwd env (mtrace md) of
          None \<Rightarrow> (Inl (snprintf errlen (''Cannot resolve UID '' @ dec_of_nat uid)), md)
        | Some pw \<Rightarrow>
            let mp = mount_path md pw i;
                (r, md) = mkdir_p env mp 493 md in
            case r of
              Inl e \<Rightarrow> (Inl (snprintf errlen (''Cannot create '' @ mp @ '': '' @ e_strerror env e)), md)
            | Inr _ \<Rightarrow>
                let is_fat = (fs = ''vfat'' \<or> fs = ''exfat'');
                    (r, md) = plat_mount env mount_dev mp fs is_fat uid (pw_gid pw) errlen md in
                case r of
                  Inl e \<Rightarrow> (Inl e, luks_rollback env i (log_call (CRmdir mp) md))
                | Inr _ \<Rightarrow>
                    (Inr (snprintf mp_len mp),
                     upd_dev i (\<lambda>d. d\<lparr>is_mounted := True, mount_point := snprintf MOUNT_POINT_LEN mp\<rparr>) md))"

definition mountd_do_mount ::
  "menv \<Rightarrow> cstr \<Rightarrow> nat \<Rightarrow> cstr \<Rightarrow> nat \<Rightarrow> nat \<Rightarrow> mountd \<Rightarrow> (cstr + cstr) \<times> mountd" where
  "mountd_do_mount env path uid pass mp_len errlen md =
     (case mountd_find_device md path of
        None \<Rightarrow> (Inl (snprintf errlen (''Device not tracked: '' @ path)), md)
      | Some i \<Rightarrow>
          if is_mounted (dev_at md i) then
            (Inl (snprintf errlen (''Already mounted at '' @ mount_point (dev_at md i))), md)
          else if is_luks (dev_at md i) then
            let (r, md) = luks_prepare env i path pass errlen md in
            case r of
              Inl e \<Rightarrow> (Inl e, md)
            | Inr _ \<Rightarrow> mount_volume env i (dm_path (dev_at md i)) (inner_fs_type (dev_at md i))
                         uid mp_len errlen md
          else mount_volume env i path (fs_type (dev_at md i)) uid mp_len errlen md)"

subsection \<open>Unmount and eject\<close>

text \<open>Close the container after an unmount or before an eject; a failed close keeps the flags.\<close>

definition luks_release :: "menv \<Rightarrow> nat \<Rightarrow> mountd \<Rightarrow> mountd" where
  "luks_release env i md =
     (let d = dev_at md i in
      if is_luks d \<and> is_unlocked d \<and> luks_opened_by_us d then
        let (r, md) = mountd_luks_close env (dm_name d) 256 md in
        case r of
          Inl _ \<Rightarrow> md
        | Inr _ \<Rightarrow> upd_dev i (\<lambda>d. d\<lparr>is_unlocked := False, luks_opened_by_us := False,
                                   inner_fs_type := []\<rparr>) md
      else md)"

definition mountd_do_unmount ::
  "menv \<Rightarrow> cstr \<Rightarrow> nat \<Rightarrow> mountd \<Rightarrow> (cstr + unit) \<times> mountd" where
  "mountd_do_unmount env path errlen md =
     (case mountd_find_device md path of
        None \<Rightarrow> (Inl (snprintf errlen (''Device not tracked: '' @ path)), md)
      | Some i \<Rightarrow>
          if \<not> is_mounted (dev_at md i) then (Inl (snprintf errlen ''Not mounted''), md)
          else
            let mp = mount_point (dev_at md i);
                (r, md) = sys env (CUmount mp) md in
            if r \<noteq> 0 then
              (Inl (snprintf errlen ((if e_plat env = Linux then ''umount failed: ''
                                      else ''unmount failed: '') @ e_strerror env r)), md)
            else
              let md = log_call (CRmdir mp) md;
                  md = upd_dev i clear_mount md in
              (Inr (), luks_release env i md))"

definition mountd_do_eject ::
  "menv \<Rightarrow> (menv \<Rightarrow> cstr \<Rightarrow> mountd \<Rightarrow> bool \<times> mountd) \<Rightarrow> cstr \<Rightarrow> nat \<Rightarrow> mountd \<Rightarrow> (cstr + unit) \<times> mountd" where
  "mountd_do_eject env plat_eject path errlen md =
     (case mountd_find_device md path of
        None \<Rightarrow> (Inl (snprintf errlen (''Device not tracked: '' @ path)), md)
      | Some i \<Rightarrow>
          let (r, md) = (if is_mounted (dev_at md i) then mountd_do_unmount env path errlen md
                         else (Inr (), md)) in
          case r of
            Inl e \<Rightarrow> (Inl e, md)
          | Inr _ \<Rightarrow>
              let md = luks_release env i md;
                  (ok, md) = plat_eject env path md in
              if \<not> ok then (Inl (snprintf errlen (''Eject failed for '' @ path)), md)
              else (Inr (), mountd_remove_device md path))"

subsection \<open>File names\<close>

definition no_slash :: "char \<Rightarrow> char" where
  "no_slash c = (if c = CHR ''/'' then CHR ''_'' else c)"

lemma sanitize_loop_Suc: "sanitize_loop len (Suc i) cs = map no_slash (take (len - 2 - i) cs)"
proof (induction cs arbitrary: i)
  case (Cons c cs)
  show ?case
  proof (cases "Suc i < len - 1")
    case True
    then have "len - 2 - i = Suc (len - 2 - Suc i)" by simp
    with True Cons [of "Suc i"] show ?thesis by (simp add: no_slash_def)
  next
    case False
    then have "len - 2 - i = 0" by simp
    with False show ?thesis by simp
  qed
qed simp

lemma sanitize_loop_Cons: "1 < len \<Longrightarrow> sanitize_loop len 0 (c # cs) =
    (if c = CHR ''.'' then CHR ''_'' else no_slash c) # map no_slash (take (len - 2) cs)"
  by (simp add: sanitize_loop_Suc no_slash_def)

text \<open>A name that can stand as one component of a path.\<close>

definition safe_component :: "cstr \<Rightarrow> bool" where
  "safe_component s \<longleftrightarrow> s \<noteq> [] \<and> CHR ''/'' \<notin> set s \<and> hd s \<noteq> CHR ''.''"

lemma sanitize_safe: "1 < len \<Longrightarrow> safe_component (sanitize_label lbl len)"
proof (cases lbl)
  case Nil
  assume "1 < len"
  then obtain k where "len = Suc (Suc k)" by (metis less_natE One_nat_def add_Suc)
  then show ?thesis using Nil
    by (auto simp: sanitize_label_def safe_component_def snprintf_def take_Cons split: nat.splits
        dest!: in_set_takeD)
next
  case (Cons c cs)
  assume "1 < len"
  with Cons show ?thesis
    by (auto simp: sanitize_label_def Let_def safe_component_def sanitize_loop_Cons no_slash_def
        simp del: sanitize_loop.simps)
qed

lemma sanitize_length: "1 < len \<Longrightarrow> length (sanitize_label lbl len) < len"
  by (cases lbl)
     (auto simp: sanitize_label_def Let_def sanitize_loop_Cons snprintf_bound
        simp del: sanitize_loop.simps(2))

subsection \<open>How a request evolves the state\<close>

text \<open>
  A mount call is safe when the file system type is one of the allowed list, set-user-id bits
  and (on Linux) device nodes are disabled, a FAT volume is not executable, and the target is
  one directory below the mount base and a user name (up to the length of the buffer).
\<close>

definition safe_target :: "cstr \<Rightarrow> cstr \<Rightarrow> bool" where
  "safe_target base tgt \<longleftrightarrow> (\<exists>user lbl. safe_component lbl \<and>
     tgt = snprintf MOUNT_POINT_LEN (base @ ''/'' @ user @ ''/'' @ lbl))"

fun safe_call :: "cstr \<Rightarrow> mcall \<Rightarrow> bool" where
  "safe_call base (CMount src tgt fs flags opts) \<longleftrightarrow>
     is_fs_type_allowed fs \<and> MS_NOSUID \<in> set flags \<and> MS_NODEV \<in> set flags \<and>
     (fs = ''vfat'' \<or> fs = ''exfat'' \<longrightarrow> MS_NOEXEC \<in> set flags) \<and> safe_target base tgt"
| "safe_call base (CNmount iov flags) \<longleftrightarrow>
     (\<exists>fs tgt. is_fs_type_allowed fs \<and> map_of iov ''fstype'' = fbsd_vfstype fs \<and>
        fbsd_vfstype fs \<noteq> None \<and> map_of iov ''fspath'' = Some tgt \<and> safe_target base tgt \<and>
        MS_NOSUID \<in> set flags \<and> (fs = ''vfat'' \<longrightarrow> MS_NOEXEC \<in> set flags))"
| "safe_call base _ \<longleftrightarrow> True"

lemma safe_call_other: "\<not> is_mount_call c \<Longrightarrow> safe_call base c"
  by (cases c) auto

definition id_fields :: "device \<Rightarrow> cstr \<times> cstr \<times> cstr \<times> cstr \<times> bool \<times> bool \<times> cstr \<times> cstr \<times> cstr" where
  "id_fields d = (dev_path d, label d, vendor d, fs_type d, is_ejectable d, is_luks d,
     luks_uuid d, dm_name d, dm_path d)"

text \<open>
  \<open>evolves i md md'\<close>: only entry \<open>i\<close> and the trace differ, the entry keeps its identity
  and its well-formedness, and every mount call added to the trace is safe.
\<close>

definition evolves :: "nat \<Rightarrow> mountd \<Rightarrow> mountd \<Rightarrow> bool" where
  "evolves i md md' \<longleftrightarrow> i < length (devices md) \<and>
     (\<exists>d t. md' = md\<lparr>devices := (devices md)[i := d], mtrace := mtrace md @ t\<rparr> \<and>
        id_fields d = id_fields (dev_at md i) \<and> (wf_device (dev_at md i) \<longrightarrow> wf_device d) \<and>
        list_all (safe_call (mount_base md)) t)"

lemma evolves_refl: "i < length (devices md) \<Longrightarrow> evolves i md md"
  unfolding evolves_def by (intro conjI exI [of _ "dev_at md i"] exI [of _ "[]"]) auto

lemma evolves_trans [trans]:
  assumes "evolves i a b" and "evolves i b c"
  shows "evolves i a c"
proof -
  from assms(1) obtain d t where b: "b = a\<lparr>devices := (devices a)[i := d], mtrace := mtrace a @ t\<rparr>"
    and d: "id_fields d = id_fields (dev_at a i)" "wf_device (dev_at a i) \<longrightarrow> wf_device d"
      "list_all (safe_call (mount_base a)) t" and i: "i < length (devices a)"
    by (auto simp: evolves_def)
  from assms(2) obtain e u where c: "c = b\<lparr>devices := (devices b)[i := e], mtrace := mtrace b @ u\<rparr>"
    and e: "id_fields e = id_fields (dev_at b i)" "wf_device (dev_at b i) \<longrightarrow> wf_device e"
      "list_all (safe_call (mount_base b)) u"
    by (auto simp: evolves_def)
  have "c = a\<lparr>devices := (devices a)[i := e], mtrace := mtrace a @ (t @ u)\<rparr>"
    by (simp add: b c)
  moreover have "dev_at b i = d" "mount_base b = mount_base a" using b i by simp_all
  ultimately show ?thesis
    unfolding evolves_def using i d e by (intro conjI exI [of _ e] exI [of _ "t @ u"]) auto
qed

lemma evolves_only_trace:
  assumes "only_trace md md'" and "i < length (devices md)"
  shows "evolves i md md'"
proof -
  from assms(1) obtain t where t: "md' = md\<lparr>mtrace := mtrace md @ t\<rparr>"
    "list_all (\<lambda>c. \<not> is_mount_call c) t"
    by (auto simp: only_trace_def)
  then have "list_all (safe_call (mount_base md)) t"
    by (auto simp: list_all_iff safe_call_other)
  with t assms(2) show ?thesis
    unfolding evolves_def by (intro conjI exI [of _ "dev_at md i"] exI [of _ t]) auto
qed

lemma evolves_log:
  assumes "safe_call (mount_base md) c" and "i < length (devices md)"
  shows "evolves i md (log_call c md)"
  using assms unfolding evolves_def log_call_def
  by (intro conjI exI [of _ "dev_at md i"] exI [of _ "[c]"]) auto

lemma evolves_upd:
  assumes "i < length (devices md)" and "id_fields (f (dev_at md i)) = id_fields (dev_at md i)"
    and "wf_device (dev_at md i) \<Longrightarrow> wf_device (f (dev_at md i))"
  shows "evolves i md (upd_dev i f md)"
  using assms unfolding evolves_def upd_dev_def
  by (intro conjI exI [of _ "f (dev_at md i)"] exI [of _ "[]"]) auto

lemma evolvesD:
  assumes "evolves i md md'"
  shows "i < length (devices md')" "length (devices md') = length (devices md)"
    "mount_base md' = mount_base md" "auto_mount md' = auto_mount md"
    "dbus_connected md' = dbus_connected md" "running md' = running md"
    "id_fields (dev_at md' i) = id_fields (dev_at md i)"
    "j \<noteq> i \<Longrightarrow> dev_at md' j = dev_at md j"
    "wf_device (dev_at md i) \<Longrightarrow> wf_device (dev_at md' i)"
    "list_all (safe_call (mount_base md)) (mtrace md) \<Longrightarrow>
       list_all (safe_call (mount_base md')) (mtrace md')"
    "\<exists>t. mtrace md' = mtrace md @ t"
  using assms by (auto simp: evolves_def)

lemma evolves_map_path:
  assumes "evolves i md md'"
  shows "map dev_path (devices md') = map dev_path (devices md)"
  using assms by (auto simp: evolves_def id_fields_def map_update_same)

lemma evolves_wf: "evolves i md md' \<Longrightarrow> wf_table md \<Longrightarrow> wf_table md'"
proof -
  assume e: "evolves i md md'" and wf: "wf_table md"
  from evolves_map_path [OF e] have "distinct (map dev_path (devices md'))"
    using wf by (simp add: wf_table_def)
  moreover have "list_all wf_device (devices md')"
    using e wf by (auto simp: evolves_def wf_table_def list_all_update list_all_nth)
  ultimately show "wf_table md'" using wf evolvesD(2) [OF e] by (simp add: wf_table_def)
qed

lemma find_index_map: "find_index (\<lambda>d. f d = p) xs = find_index (\<lambda>q. q = p) (map f xs)"
  by (induction xs) auto

lemma evolves_find: "evolves i md md' \<Longrightarrow> mountd_find_device md' p = mountd_find_device md p"
  by (simp add: mountd_find_device_def find_index_map [of dev_path] evolves_map_path)

subsection \<open>Every request evolves one entry\<close>

lemma evolves_sys: "safe_call (mount_base md) c \<Longrightarrow> i < length (devices md) \<Longrightarrow>
    sys env c md = (r, md') \<Longrightarrow> evolves i md md'"
  by (auto simp: sys_eq evolves_log)

lemma mkdir_loop_only_trace: "mkdir_loop env mode seen p md = (r, md') \<Longrightarrow> only_trace md md'"
proof (induction p arbitrary: seen md)
  case Nil
  then show ?case by (auto simp: sys_eq Let_def split: if_splits)
next
  case (Cons c p)
  then show ?case
    by (auto simp: sys_eq Let_def split: if_splits
        intro: only_trace_after [where c = "CMkdir seen mode"])
qed

lemma mkdir_p_only_trace: "mkdir_p env p mode md = (r, md') \<Longrightarrow> only_trace md md'"
  by (auto simp: mkdir_p_def Let_def dest: mkdir_loop_only_trace)

lemma plat_mount_evolves:
  assumes "plat_mount env src tgt fs fat uid gid errlen md = (r, md')"
    and "i < length (devices md)" and "is_fs_type_allowed fs" and "safe_target (mount_base md) tgt"
    and "fat = (fs = ''vfat'' \<or> fs = ''exfat'')"
  shows "evolves i md md'"
proof (cases "e_plat env = Linux")
  case True
  with assms show ?thesis
    by (auto simp: plat_mount_def linux_plat_mount_def Let_def sys_eq evolves_log split: if_splits)
next
  case False
  with assms have f: "fbsd_plat_mount env src tgt fs fat uid gid errlen md = (r, md')"
    by (simp add: plat_mount_def)
  show ?thesis
  proof (cases "fbsd_vfstype fs")
    case None
    with f assms(2) show ?thesis by (simp add: fbsd_plat_mount_def evolves_refl)
  next
    case (Some vfs)
    let ?iov = "[(''fstype'', vfs), (''fspath'', tgt), (''from'', src)] @
      (if fat then [(''uid'', snprintf 32 (dec_of_nat uid)), (''gid'', snprintf 32 (dec_of_nat gid))] else [])"
    let ?fl = "[MS_NOSUID] @ (if fat then [MS_NOEXEC] else [])"
    have "md' = log_call (CNmount ?iov ?fl) md"
      using f Some by (auto simp: fbsd_plat_mount_def sys_eq Let_def split: if_splits)
    moreover have "safe_call (mount_base md) (CNmount ?iov ?fl)"
      unfolding safe_call.simps using Some assms(3-5)
      by (intro exI [of _ fs] exI [of _ tgt]) auto
    ultimately show ?thesis using assms(2) by (simp add: evolves_log)
  qed
qed

lemma luks_rollback_evolves: "i < length (devices md) \<Longrightarrow> evolves i md (luks_rollback env i md)"
proof -
  assume i: "i < length (devices md)"
  obtain r md1 where c: "mountd_luks_close env (dm_name (dev_at md i)) 128 md = (r, md1)" by fastforce
  note e1 = evolves_only_trace [OF luks_close_trace [OF c] i]
  have "evolves i md1 (upd_dev i (\<lambda>d. d\<lparr>is_unlocked := False, luks_opened_by_us := False\<rparr>) md1)"
    using evolvesD(1) [OF e1] by (intro evolves_upd) (auto simp: id_fields_def wf_device_def)
  from evolves_trans [OF e1 this] i show ?thesis
    by (auto simp: luks_rollback_def c Let_def evolves_refl)
qed

lemma luks_release_evolves: "i < length (devices md) \<Longrightarrow> evolves i md (luks_release env i md)"
proof -
  assume i: "i < length (devices md)"
  obtain r md1 where c: "mountd_luks_close env (dm_name (dev_at md i)) 256 md = (r, md1)" by fastforce
  note e1 = evolves_only_trace [OF luks_close_trace [OF c] i]
  have "evolves i md1 (upd_dev i
      (\<lambda>d. d\<lparr>is_unlocked := False, luks_opened_by_us := False, inner_fs_type := []\<rparr>) md1)"
    using evolvesD(1) [OF e1] by (intro evolves_upd) (auto simp: id_fields_def wf_device_def)
  from evolves_trans [OF e1 this] e1 i show ?thesis
    by (auto simp: luks_release_def c Let_def evolves_refl split: sum.splits)
qed

lemma luks_unlock_evolves:
  assumes "luks_unlock env i path pass errlen md = (r, md')" and "i < length (devices md)"
    and "is_luks (dev_at md i)"
  shows "evolves i md md'"
proof -
  obtain r1 md1 where c: "mountd_luks_open env path (dm_name (dev_at md i)) pass errlen md = (r1, md1)"
    by fastforce
  note e1 = evolves_only_trace [OF luks_open_trace [OF c] assms(2)]
  have "is_luks (dev_at md1 i)" using evolvesD(7) [OF e1] assms(3) by (simp add: id_fields_def)
  then have "evolves i md1 (upd_dev i (\<lambda>d. d\<lparr>is_unlocked := True, luks_opened_by_us := True\<rparr>) md1)"
    using evolvesD(1) [OF e1] by (intro evolves_upd) (auto simp: id_fields_def wf_device_def)
  from evolves_trans [OF e1 this] e1 assms show ?thesis
    by (auto simp: luks_unlock_def c Let_def evolves_refl split: sum.splits if_splits)
qed

lemma probe_upd_evolves:
  assumes p: "mountd_luks_probe_fs env path FS_TYPE_LEN md = (Some fs, md')"
    and i: "i < length (devices md)"
  shows "evolves i md (upd_dev i (\<lambda>d. d\<lparr>inner_fs_type := fs\<rparr>) md')"
proof -
  note e1 = evolves_only_trace [OF luks_probe_trace [OF p] i]
  have "length fs < FS_TYPE_LEN" using luks_probe_bound [OF p] by simp
  then have "evolves i md' (upd_dev i (\<lambda>d. d\<lparr>inner_fs_type := fs\<rparr>) md')"
    using evolvesD(1) [OF e1] by (intro evolves_upd) (auto simp: id_fields_def wf_device_def)
  from evolves_trans [OF e1 this] show ?thesis .
qed

lemma luks_prepare_evolves:
  assumes "luks_prepare env i path pass errlen md = (r, md')" and "i < length (devices md)"
    and "is_luks (dev_at md i)"
  shows "evolves i md md'"
proof -
  obtain r1 md1 where u: "luks_unlock env i path pass errlen md = (r1, md1)" by fastforce
  note e1 = luks_unlock_evolves [OF u assms(2,3)]
  obtain p md2 where p: "mountd_luks_probe_fs env (dm_path (dev_at md1 i)) FS_TYPE_LEN md1 = (p, md2)"
    by fastforce
  note e2 = evolves_only_trace [OF luks_probe_trace [OF p] evolvesD(1) [OF e1]]
  have e3: "evolves i md (luks_rollback env i md2)"
    by (intro evolves_trans [OF e1] evolves_trans [OF e2] luks_rollback_evolves evolvesD(1) [OF e2])
  have e4: "p = Some fs \<Longrightarrow> evolves i md (upd_dev i (\<lambda>d. d\<lparr>inner_fs_type := fs\<rparr>) md2)" for fs
    using p evolvesD(1) [OF e1] by (auto intro!: evolves_trans [OF e1] probe_upd_evolves)
  from assms u p e1 e3 e4 show ?thesis
    by (auto simp: luks_prepare_def Let_def evolves_refl split: if_splits sum.splits option.splits)
qed

lemma mount_path_safe: "safe_target (mount_base md) (mount_path md pw i)"
  unfolding safe_target_def mount_path_def
  by (intro exI [of _ "pw_name pw"] exI [of _ "sanitize_label (label (dev_at md i)) 256"])
     (simp add: sanitize_safe)

lemma mount_path_length: "length (mount_path md pw i) < MOUNT_POINT_LEN"
  by (simp add: mount_path_def cbuf)

lemma set_mounted_evolves:
  assumes "i < length (devices md)"
  shows "evolves i md (upd_dev i (\<lambda>d. d\<lparr>is_mounted := True, mount_point := snprintf MOUNT_POINT_LEN mp\<rparr>) md)"
  using assms by (intro evolves_upd) (auto simp: id_fields_def wf_device_def cbuf)

lemma mount_path_log [simp]: "mount_path (log_call c md) pw i = mount_path md pw i"
  by (simp add: mount_path_def)

lemma mount_volume_evolves:
  assumes "mount_volume env i src fs uid mp_len errlen md = (r, md')" and i: "i < length (devices md)"
  shows "evolves i md md'"
proof -
  let ?md0 = "log_call (CGetpwuid uid) md"
  have e0: "evolves i md ?md0" using i by (simp add: evolves_log)
  show ?thesis
  proof (cases "fs = [] \<or> \<not> is_fs_type_allowed fs \<or> e_passwd env (mtrace ?md0) = None")
    case True
    with assms luks_rollback_evolves [OF i] e0 show ?thesis
      by (auto simp: mount_volume_def Let_def evolves_refl split: if_splits)
  next
    case False
    then obtain pw where pw: "e_passwd env (mtrace ?md0) = Some pw" by auto
    let ?mp = "mount_path md pw i"
    obtain r1 md1 where m1: "mkdir_p env ?mp 493 ?md0 = (r1, md1)" by fastforce
    have e1: "evolves i md md1"
      by (rule evolves_trans [OF e0 evolves_only_trace [OF mkdir_p_only_trace [OF m1] evolvesD(1) [OF e0]]])
    obtain r2 md2 where m2: "plat_mount env src ?mp fs (fs = ''vfat'' \<or> fs = ''exfat'')
        uid (pw_gid pw) errlen md1 = (r2, md2)" by fastforce
    have "evolves i md1 md2"
      by (rule plat_mount_evolves [OF m2 evolvesD(1) [OF e1] _ _ refl])
         (use False in \<open>auto simp: evolvesD(3) [OF e1] mount_path_safe\<close>)
    then have e2: "evolves i md md2" by (rule evolves_trans [OF e1])
    have "evolves i md (luks_rollback env i (log_call (CRmdir ?mp) md2))"
      using evolvesD(1) [OF e2]
      by (intro evolves_trans [OF e2] evolves_trans [OF _ luks_rollback_evolves] evolves_log) auto
    moreover have "evolves i md (upd_dev i (\<lambda>d. d\<lparr>is_mounted := True,
        mount_point := snprintf MOUNT_POINT_LEN ?mp\<rparr>) md2)"
      by (intro evolves_trans [OF e2] set_mounted_evolves evolvesD(1) [OF e2])
    ultimately show ?thesis using False pw assms(1) m1 m2 e1
      by (auto simp: mount_volume_def Let_def split: sum.splits)
  qed
qed

lemma do_mount_evolves:
  assumes "mountd_do_mount env p uid pass mp_len errlen md = (r, md')"
    and "mountd_find_device md p = Some i"
  shows "evolves i md md'"
proof -
  have i: "i < length (devices md)" using find_device_SomeD [OF assms(2)] by simp
  obtain r1 md1 where l: "luks_prepare env i p pass errlen md = (r1, md1)" by fastforce
  have "is_luks (dev_at md i) \<Longrightarrow> evolves i md md1" by (rule luks_prepare_evolves [OF l i])
  with assms i l show ?thesis
    by (auto simp: mountd_do_mount_def Let_def evolves_refl split: if_splits sum.splits
        intro: mount_volume_evolves evolves_trans dest: evolvesD(1))
qed

lemma do_mount_untracked:
  "mountd_find_device md p = None \<Longrightarrow> mountd_do_mount env p uid pass mp_len errlen md =
     (Inl (snprintf errlen (''Device not tracked: '' @ p)), md)"
  by (simp add: mountd_do_mount_def)

lemma clear_mount_evolves: "i < length (devices md) \<Longrightarrow> evolves i md (upd_dev i clear_mount md)"
  by (intro evolves_upd) (auto simp: id_fields_def wf_device_def clear_mount_def)

lemma do_unmount_evolves:
  assumes "mountd_do_unmount env p errlen md = (r, md')" and "mountd_find_device md p = Some i"
  shows "evolves i md md'"
proof -
  have i: "i < length (devices md)" using find_device_SomeD [OF assms(2)] by simp
  let ?mp = "mount_point (dev_at md i)"
  let ?md2 = "log_call (CRmdir ?mp) (log_call (CUmount ?mp) md)"
  have e1: "evolves i md (log_call (CUmount ?mp) md)" using i by (simp add: evolves_log)
  have e2: "evolves i md ?md2" using i by (intro evolves_trans [OF e1] evolves_log) auto
  have e3: "evolves i md (upd_dev i clear_mount ?md2)"
    using i by (intro evolves_trans [OF e2] clear_mount_evolves) auto
  have e4: "evolves i md (luks_release env i (upd_dev i clear_mount ?md2))"
    by (rule evolves_trans [OF e3 luks_release_evolves [OF evolvesD(1) [OF e3]]])
  from assms i e1 e4 show ?thesis
    by (auto simp: mountd_do_unmount_def Let_def sys_eq evolves_refl split: if_splits)
qed

subsection \<open>The platform contract for eject\<close>

text \<open>
  \<^verbatim>\<open>MountdPlatformOps.eject\<close> is a function pointer; \<open>mountd_do_eject\<close> relies on it to
  leave the device table alone and to mount nothing. What an eject does to the table follows
  from that contract.
\<close>

locale mountd_platform =
  fixes plat_eject :: "menv \<Rightarrow> cstr \<Rightarrow> mountd \<Rightarrow> bool \<times> mountd"
  assumes eject_only_trace: "plat_eject env p md = (ok, md') \<Longrightarrow> only_trace md md'"
begin

lemma do_eject_decomp:
  assumes "mountd_do_eject env plat_eject p errlen md = (r, md')"
    and "mountd_find_device md p = Some i"
  shows "\<exists>md1. evolves i md md1 \<and>
    (case r of Inl _ \<Rightarrow> md' = md1 | Inr _ \<Rightarrow> md' = mountd_remove_device md1 p)"
proof -
  have i: "i < length (devices md)" using find_device_SomeD [OF assms(2)] by simp
  define u where "u = (if is_mounted (dev_at md i) then mountd_do_unmount env p errlen md else (Inr (), md))"
  obtain r1 md1 where u1: "u = (r1, md1)" by fastforce
  have e1: "evolves i md md1"
    using u1 i do_unmount_evolves [OF _ assms(2)] by (auto simp: u_def evolves_refl split: if_splits)
  let ?md2 = "luks_release env i md1"
  have e2: "evolves i md ?md2"
    by (rule evolves_trans [OF e1 luks_release_evolves [OF evolvesD(1) [OF e1]]])
  obtain ok md3 where p: "plat_eject env p ?md2 = (ok, md3)" by fastforce
  have e3: "evolves i md md3"
    by (rule evolves_trans [OF e2 evolves_only_trace [OF eject_only_trace [OF p] evolvesD(1) [OF e2]]])
  from assms u1 p have "(r, md') = (case r1 of Inl e \<Rightarrow> (Inl e, md1)
      | Inr _ \<Rightarrow> if \<not> ok then (Inl (snprintf errlen (''Eject failed for '' @ p)), md3)
                 else (Inr (), mountd_remove_device md3 p))"
    by (auto simp: mountd_do_eject_def u_def Let_def split: sum.splits)
  with e1 e3 show ?thesis by (auto split: sum.splits if_splits)
qed

lemma do_eject_wf:
  assumes "wf_table md" and "mountd_do_eject env plat_eject p errlen md = (r, md')"
  shows "wf_table md'"
proof (cases "mountd_find_device md p")
  case None
  with assms show ?thesis by (simp add: mountd_do_eject_def)
next
  case (Some i)
  from do_eject_decomp [OF assms(2) Some] assms(1) show ?thesis
    by (cases r) (auto intro: wf_table_remove evolves_wf)
qed

lemma do_eject_safe:
  assumes "list_all (safe_call (mount_base md)) (mtrace md)"
    and "mountd_do_eject env plat_eject p errlen md = (r, md')"
  shows "list_all (safe_call (mount_base md')) (mtrace md') \<and> mount_base md' = mount_base md"
proof (cases "mountd_find_device md p")
  case None
  with assms show ?thesis by (simp add: mountd_do_eject_def)
next
  case (Some i)
  from do_eject_decomp [OF assms(2) Some] obtain md1 where e: "evolves i md md1"
    and "md' = md1 \<or> md' = mountd_remove_device md1 p" by (cases r) auto
  then have "mtrace md' = mtrace md1" "mount_base md' = mount_base md1"
    by (auto simp: mountd_remove_device_def split: option.splits)
  with evolvesD(10) [OF e assms(1)] evolvesD(3) [OF e] show ?thesis by simp
qed

lemma do_eject_untracks:
  assumes "wf_table md" and "mountd_do_eject env plat_eject p errlen md = (Inr (), md')"
  shows "device_map md p \<noteq> None \<and> device_map md' = (device_map md)(p := None)"
proof (cases "mountd_find_device md p")
  case None
  with assms(2) show ?thesis by (simp add: mountd_do_eject_def)
next
  case (Some i)
  from do_eject_decomp [OF assms(2) Some] obtain md1 where e: "evolves i md md1"
    and md': "md' = mountd_remove_device md1 p" by auto
  have wf1: "wf_table md1" by (rule evolves_wf [OF e assms(1)])
  have "device_map md1 q = device_map md q" if "q \<noteq> p" for q
  proof (cases "mountd_find_device md q")
    case None
    then show ?thesis by (simp add: device_map_def evolves_find [OF e])
  next
    case (Some j)
    with that find_device_SomeD \<open>mountd_find_device md p = Some i\<close> have "j \<noteq> i" by metis
    with Some show ?thesis by (simp add: device_map_def evolves_find [OF e] evolvesD(8) [OF e])
  qed
  with Some wf1 show ?thesis
    by (auto simp: md' device_map_remove device_map_def)
qed

end

end
