(* ===== verification/Mountd_Monitor.thy ===== *)
theory Mountd_Monitor
  imports Mountd_Mount
begin

section \<open>isde-mountd: the Linux device monitor\<close>

text \<open>
  \<^verbatim>\<open>mountd/src/platform_linux.c\<close>. libudev is not part of the program: a device it hands
  over is the record of what its accessors return for it. The signal emitters of
  \<^verbatim>\<open>mountd/src/dbus.c\<close>, which the monitor calls, come first.
\<close>

subsection \<open>Signals\<close>

definition emit :: "cstr \<Rightarrow> cstr list \<Rightarrow> mountd \<Rightarrow> mountd" where
  "emit name args md = (if dbus_connected md then log_call (CSignal name args) md else md)"

definition mountd_dbus_emit_device_added :: "device \<Rightarrow> mountd \<Rightarrow> mountd" where
  "mountd_dbus_emit_device_added d = emit ''DeviceAdded'' [dev_path d, label d, fs_type d]"

definition mountd_dbus_emit_device_removed :: "cstr \<Rightarrow> mountd \<Rightarrow> mountd" where
  "mountd_dbus_emit_device_removed p = emit ''DeviceRemoved'' [p]"

definition mountd_dbus_emit_device_mounted :: "cstr \<Rightarrow> cstr \<Rightarrow> mountd \<Rightarrow> mountd" where
  "mountd_dbus_emit_device_mounted p mp = emit ''DeviceMounted'' [p, mp]"

definition mountd_dbus_emit_device_unmounted :: "cstr \<Rightarrow> mountd \<Rightarrow> mountd" where
  "mountd_dbus_emit_device_unmounted p = emit ''DeviceUnmounted'' [p]"

subsection \<open>What udev says of a device\<close>

record udev_dev =
  u_action :: "cstr option"
  u_devnode :: "cstr option"
  u_devtype :: "cstr option"
  u_prop :: "cstr \<Rightarrow> cstr option"
  u_sysattr :: "cstr \<Rightarrow> cstr option"
  u_parent_disk :: "(cstr \<Rightarrow> cstr option) option"

definition is_removable :: "udev_dev \<Rightarrow> bool" where
  "is_removable dev =
     (if u_prop dev ''ID_BUS'' = Some ''usb'' then True
      else if u_prop dev ''ID_USB_DRIVER'' \<noteq> None then True
      else
        let disk = (case u_parent_disk dev of
                      Some sysattr \<Rightarrow> Some sysattr
                    | None \<Rightarrow> if u_devtype dev = Some ''disk'' then Some (u_sysattr dev) else None) in
        case disk of
          None \<Rightarrow> False
        | Some sysattr \<Rightarrow> sysattr ''removable'' = Some ''1'')"

definition is_ejectable_dev :: "udev_dev \<Rightarrow> bool" where
  "is_ejectable_dev dev =
     (if u_prop dev ''ID_BUS'' = Some ''usb'' then True
      else if u_prop dev ''ID_USB_DRIVER'' \<noteq> None then True
      else if u_prop dev ''ID_CDROM'' \<noteq> None then True
      else False)"

definition nonempty_prop :: "udev_dev \<Rightarrow> cstr \<Rightarrow> cstr option" where
  "nonempty_prop dev k = (case u_prop dev k of
     Some v \<Rightarrow> if v \<noteq> [] then Some v else None
   | None \<Rightarrow> None)"

definition get_label :: "udev_dev \<Rightarrow> cstr option" where
  "get_label dev = (case nonempty_prop dev ''ID_FS_LABEL'' of
     Some l \<Rightarrow> Some l
   | None \<Rightarrow> nonempty_prop dev ''ID_PART_ENTRY_NAME'')"

definition get_fs_type :: "udev_dev \<Rightarrow> cstr option" where
  "get_fs_type dev = u_prop dev ''ID_FS_TYPE''"

definition get_vendor_model :: "udev_dev \<Rightarrow> nat \<Rightarrow> cstr" where
  "get_vendor_model dev len =
     (let buf = (case (nonempty_prop dev ''ID_VENDOR'', nonempty_prop dev ''ID_MODEL'') of
                   (Some v, Some m) \<Rightarrow> snprintf len (v @ '' '' @ m)
                 | (Some v, None) \<Rightarrow> snprintf len v
                 | (None, Some m) \<Rightarrow> snprintf len m
                 | (None, None) \<Rightarrow> []) in
      map (\<lambda>c. if c = CHR ''_'' then CHR '' '' else c) buf)"

definition setup_luks_fields :: "udev_dev \<Rightarrow> cstr \<Rightarrow> device \<Rightarrow> device" where
  "setup_luks_fields dev devnode d =
     (let d = d\<lparr>is_luks := True\<rparr>;
          d = (case nonempty_prop dev ''ID_FS_UUID'' of
                 Some uuid \<Rightarrow> d\<lparr>luks_uuid := snprintf LUKS_UUID_LEN uuid,
                               dm_name := snprintf DM_NAME_LEN (''luks-'' @ uuid)\<rparr>
               | None \<Rightarrow>
                   (case strrchr_after (CHR ''/'') devnode of
                      Some base \<Rightarrow> d\<lparr>dm_name := snprintf DM_NAME_LEN (''luks-'' @ base)\<rparr>
                    | None \<Rightarrow> d\<lparr>dm_name := snprintf DM_NAME_LEN (''luks-'' @ devnode)\<rparr>)) in
      d\<lparr>dm_path := snprintf DEV_PATH_LEN (''/dev/mapper/'' @ dm_name d)\<rparr>)"

text \<open>Partitions, and whole disks that carry a file system.\<close>

definition acceptable :: "udev_dev \<Rightarrow> bool" where
  "acceptable dev \<longleftrightarrow> u_devtype dev = Some ''partition'' \<or>
     (u_devtype dev = Some ''disk'' \<and> get_fs_type dev \<noteq> None)"

text \<open>
  Adding what udev reports: the call of \<^verbatim>\<open>mountd_add_device\<close> with the LUKS fields filled in,
  as it appears in the enumeration and twice in the dispatch.
\<close>

definition track_device :: "udev_dev \<Rightarrow> cstr \<Rightarrow> mountd \<Rightarrow> nat option \<times> mountd" where
  "track_device dev devnode md =
     (let fs = get_fs_type dev;
          (d, md) = mountd_add_device md devnode (get_label dev)
                      (Some (get_vendor_model dev VENDOR_LEN)) fs (is_ejectable_dev dev) in
      case d of
        None \<Rightarrow> (None, md)
      | Some i \<Rightarrow> (Some i, if fs = Some ''crypto_LUKS'' then upd_dev i (setup_luks_fields dev devnode) md
                          else md))"

definition linux_enumerate_one :: "udev_dev \<Rightarrow> mountd \<Rightarrow> mountd" where
  "linux_enumerate_one dev md =
     (if \<not> acceptable dev then md
      else if is_removable dev then
        (case u_devnode dev of
           None \<Rightarrow> md
         | Some devnode \<Rightarrow> snd (track_device dev devnode md))
      else md)"

definition linux_enumerate_devices :: "udev_dev list \<Rightarrow> mountd \<Rightarrow> mountd" where
  "linux_enumerate_devices devs md = fold linux_enumerate_one devs md"

subsection \<open>Events\<close>

definition on_add :: "menv \<Rightarrow> udev_dev \<Rightarrow> cstr \<Rightarrow> mountd \<Rightarrow> mountd" where
  "on_add env dev devnode md =
     (if is_removable dev then
        let (d, md) = track_device dev devnode md in
        case d of
          None \<Rightarrow> md
        | Some i \<Rightarrow>
            let md = mountd_dbus_emit_device_added (dev_at md i) md in
            if auto_mount md \<and> \<not> is_luks (dev_at md i)
            then snd (mountd_do_mount env devnode 0 [] MOUNT_POINT_LEN 256 md)
            else md
      else md)"

definition on_remove :: "menv \<Rightarrow> cstr \<Rightarrow> mountd \<Rightarrow> mountd" where
  "on_remove env devnode md =
     (case mountd_find_device md devnode of
        None \<Rightarrow> md
      | Some i \<Rightarrow>
          let d = dev_at md i;
              md = (if is_luks d \<and> is_unlocked d \<and> luks_opened_by_us d
                    then snd (mountd_luks_close env (dm_name d) 256 md) else md);
              md = upd_dev i clear_mount md;
              md = mountd_dbus_emit_device_removed devnode md in
          mountd_remove_device md devnode)"

definition on_change :: "udev_dev \<Rightarrow> cstr \<Rightarrow> mountd \<Rightarrow> mountd" where
  "on_change dev devnode md =
     (if is_removable dev then
        (case mountd_find_device md devnode of
           Some _ \<Rightarrow> md
         | None \<Rightarrow>
             let (d, md) = track_device dev devnode md in
             case d of
               None \<Rightarrow> md
             | Some i \<Rightarrow> mountd_dbus_emit_device_added (dev_at md i) md)
      else md)"

definition linux_monitor_dispatch :: "menv \<Rightarrow> udev_dev option \<Rightarrow> mountd \<Rightarrow> mountd" where
  "linux_monitor_dispatch env received md =
     (case received of
        None \<Rightarrow> md
      | Some dev \<Rightarrow>
          (case (u_action dev, u_devnode dev) of
             (Some action, Some devnode) \<Rightarrow>
               if \<not> acceptable dev then md
               else if action = ''add'' then on_add env dev devnode md
               else if action = ''remove'' then on_remove env devnode md
               else if action = ''change'' then on_change dev devnode md
               else md
           | _ \<Rightarrow> md))"

subsection \<open>Eject\<close>

definition strip_digits :: "cstr \<Rightarrow> cstr" where
  "strip_digits s = rev (dropWhile (\<lambda>c. c \<in> set ''0123456789'') (rev s))"

definition disk_name :: "cstr \<Rightarrow> cstr option" where
  "disk_name path = map_option (\<lambda>base. strip_digits (snprintf 64 base)) (strrchr_after (CHR ''/'') path)"

definition linux_eject :: "menv \<Rightarrow> cstr \<Rightarrow> mountd \<Rightarrow> bool \<times> mountd" where
  "linux_eject env path md =
     (let (r, md) = sys env (COpen path) md;
          (done, md) = (if r = 0 then
                          let (r, md) = sys env (CIoctlEject path) md in (r = 0, md)
                        else (False, md)) in
      if done then (True, md)
      else
        case disk_name path of
          None \<Rightarrow> (False, md)
        | Some disk \<Rightarrow>
            let sysfs_path = snprintf 512 (''/sys/block/'' @ disk @ ''/device/delete'');
                (r, md) = sys env (COpen sysfs_path) md in
            if r = 0 then (True, log_call (CWrite sysfs_path ''1'') md)
            else (False, md))"

subsection \<open>What the monitor keeps\<close>

lemma linux_eject_only_trace: "linux_eject env p md = (ok, md') \<Longrightarrow> only_trace md md'"
  by (auto simp: linux_eject_def sys_eq Let_def only_trace_step split: if_splits option.splits)

interpretation linux: mountd_platform linux_eject
  by unfold_locales (rule linux_eject_only_trace)

lemma emit_only_trace [simp]: "only_trace md (emit name args md)"
  by (simp add: emit_def)

lemmas emitters = mountd_dbus_emit_device_added_def mountd_dbus_emit_device_removed_def
  mountd_dbus_emit_device_mounted_def mountd_dbus_emit_device_unmounted_def

text \<open>The invariant of the daemon: a well-formed table, and only safe mounts so far.\<close>

definition mountd_inv :: "mountd \<Rightarrow> bool" where
  "mountd_inv md \<longleftrightarrow> wf_table md \<and> list_all (safe_call (mount_base md)) (mtrace md)"

lemma inv_only_trace: "only_trace md md' \<Longrightarrow> mountd_inv md \<Longrightarrow> mountd_inv md'"
  by (auto simp: only_trace_def mountd_inv_def wf_table_def list_all_iff safe_call_other)

lemma inv_evolves: "evolves i md md' \<Longrightarrow> mountd_inv md \<Longrightarrow> mountd_inv md'"
  by (auto simp: mountd_inv_def intro: evolves_wf evolvesD(10))

lemma inv_remove: "mountd_inv md \<Longrightarrow> mountd_inv (mountd_remove_device md p)"
proof -
  assume inv: "mountd_inv md"
  have "mtrace (mountd_remove_device md p) = mtrace md" "mount_base (mountd_remove_device md p) = mount_base md"
    by (auto simp: mountd_remove_device_def split: option.splits)
  with inv show ?thesis by (simp add: mountd_inv_def wf_table_remove)
qed

lemma inv_add:
  "mountd_inv md \<Longrightarrow> length p < DEV_PATH_LEN \<Longrightarrow> mountd_inv (snd (mountd_add_device md p l v f e))"
  using wf_table_add [of md p l v f e] by (auto simp: mountd_inv_def mountd_add_device_def)

lemma setup_luks_fields_wf:
  "wf_device d \<Longrightarrow> wf_device (setup_luks_fields dev p d)"
  "dev_path (setup_luks_fields dev p d) = dev_path d"
  by (auto simp: setup_luks_fields_def Let_def wf_device_def cbuf split: option.splits)

lemma add_device_Some:
  "mountd_add_device md p l v f e = (Some i, md') \<Longrightarrow>
    i = length (devices md) \<and> i < length (devices md') \<and> dev_at md' i = new_device p l v f e"
  by (auto simp: mountd_add_device_def split: if_splits)

lemma track_device_inv:
  assumes "mountd_inv md" and "length p < DEV_PATH_LEN" and "track_device dev p md = (r, md')"
  shows "mountd_inv md'" and "r = Some i \<Longrightarrow> i < length (devices md')"
proof -
  obtain d md1 where a: "mountd_add_device md p (get_label dev)
      (Some (get_vendor_model dev VENDOR_LEN)) (get_fs_type dev) (is_ejectable_dev dev) = (d, md1)"
    by fastforce
  have inv1: "mountd_inv md1" using inv_add [OF assms(1,2)] a by (metis snd_conv)
  let ?upd = "\<lambda>i. upd_dev i (setup_luks_fields dev p) md1"
  have i: "d = Some i \<Longrightarrow> i < length (devices md1)" for i using a add_device_Some by blast
  have inv2: "d = Some i \<Longrightarrow> mountd_inv (?upd i)" for i
    using inv1 i [of i]
    by (auto simp: mountd_inv_def intro!: wf_table_upd setup_luks_fields_wf wf_table_nth)
  from assms(3) a have rmd: "(r, md') = (case d of None \<Rightarrow> (None, md1)
      | Some i \<Rightarrow> (Some i, if get_fs_type dev = Some ''crypto_LUKS'' then ?upd i else md1))"
    by (simp add: track_device_def Let_def)
  show "mountd_inv md'" using rmd inv1 inv2 by (auto split: option.splits if_splits)
  show "r = Some i \<Longrightarrow> i < length (devices md')" using rmd i by (auto split: option.splits if_splits)
qed

lemma on_add_inv:
  assumes "mountd_inv md" and "length p < DEV_PATH_LEN"
  shows "mountd_inv (on_add env dev p md)"
proof -
  obtain r md1 where t: "track_device dev p md = (r, md1)" by fastforce
  note inv1 = track_device_inv(1) [OF assms t]
  let ?md2 = "\<lambda>i. mountd_dbus_emit_device_added (dev_at md1 i) md1"
  have inv2: "mountd_inv (?md2 i)" for i
    by (rule inv_only_trace [OF _ inv1]) (simp add: emitters)
  have inv3: "mountd_inv (snd (mountd_do_mount env p 0 [] MOUNT_POINT_LEN 256 (?md2 i)))" for i
  proof (cases "mountd_find_device (?md2 i) p")
    case None
    then show ?thesis using inv2 [of i] by (simp add: do_mount_untracked)
  next
    case (Some j)
    obtain x md3 where "mountd_do_mount env p 0 [] MOUNT_POINT_LEN 256 (?md2 i) = (x, md3)"
      by fastforce
    with inv_evolves [OF do_mount_evolves [OF _ Some] inv2] show ?thesis by simp
  qed
  from assms(1) inv1 inv2 inv3 t show ?thesis
    by (auto simp: on_add_def Let_def split: option.splits)
qed

lemma on_change_inv:
  assumes "mountd_inv md" and "length p < DEV_PATH_LEN"
  shows "mountd_inv (on_change dev p md)"
proof -
  obtain r md1 where t: "track_device dev p md = (r, md1)" by fastforce
  note inv1 = track_device_inv(1) [OF assms t]
  have "mountd_inv (mountd_dbus_emit_device_added (dev_at md1 i) md1)" for i
    by (rule inv_only_trace [OF _ inv1]) (simp add: emitters)
  with assms(1) inv1 t show ?thesis
    by (auto simp: on_change_def Let_def split: option.splits)
qed

lemma on_remove_inv:
  assumes "mountd_inv md"
  shows "mountd_inv (on_remove env p md)"
proof (cases "mountd_find_device md p")
  case None
  with assms show ?thesis by (simp add: on_remove_def)
next
  case (Some i)
  let ?d = "dev_at md i"
  define md1 where "md1 = (if is_luks ?d \<and> is_unlocked ?d \<and> luks_opened_by_us ?d
    then snd (mountd_luks_close env (dm_name ?d) 256 md) else md)"
  have t1: "only_trace md md1"
    using luks_close_trace [of env "dm_name ?d" 256 md] by (cases "mountd_luks_close env (dm_name ?d) 256 md")
      (auto simp: md1_def)
  have inv1: "mountd_inv md1" by (rule inv_only_trace [OF t1 assms])
  have "i < length (devices md1)" using find_device_SomeD [OF Some] only_traceD(1) [OF t1] by simp
  then have "mountd_inv (upd_dev i clear_mount md1)"
    by (rule inv_evolves [OF clear_mount_evolves inv1])
  then have "mountd_inv (mountd_dbus_emit_device_removed p (upd_dev i clear_mount md1))"
    by (rule inv_only_trace [rotated]) (simp add: emitters)
  with Some show ?thesis by (simp add: on_remove_def Let_def md1_def inv_remove)
qed

lemma dispatch_inv:
  assumes "mountd_inv md" and "\<forall>dev. ev = Some dev \<longrightarrow> length (nullable (u_devnode dev)) < DEV_PATH_LEN"
  shows "mountd_inv (linux_monitor_dispatch env ev md)"
  using assms
  by (auto simp: linux_monitor_dispatch_def nullable_def on_add_inv on_change_inv on_remove_inv
      split: option.splits)

lemma enumerate_inv:
  assumes "mountd_inv md" and "none_opened md"
    and "list_all (\<lambda>dev. length (nullable (u_devnode dev)) < DEV_PATH_LEN) devs"
  shows "mountd_inv (linux_enumerate_devices devs md) \<and> none_opened (linux_enumerate_devices devs md)"
  using assms unfolding linux_enumerate_devices_def
proof (induction devs arbitrary: md)
  case (Cons dev devs)
  let ?md1 = "linux_enumerate_one dev md"
  have "mountd_inv ?md1 \<and> none_opened ?md1"
  proof (cases "acceptable dev \<and> is_removable dev \<and> u_devnode dev \<noteq> None")
    case False
    with Cons.prems show ?thesis by (auto simp: linux_enumerate_one_def split: option.splits)
  next
    case True
    then obtain p where p: "u_devnode dev = Some p" by auto
    obtain r md1 where t: "track_device dev p md = (r, md1)" by fastforce
    have len: "length p < DEV_PATH_LEN" using Cons.prems(3) p by (simp add: nullable_def)
    have "none_opened md1" using Cons.prems(2) t
      by (auto simp: track_device_def mountd_add_device_def none_opened_def new_device_def
          empty_device_def setup_luks_fields_def Let_def list_all_append split: if_splits option.splits
          intro!: list_all_update)
    with track_device_inv(1) [OF Cons.prems(1) len t] True p t show ?thesis
      by (simp add: linux_enumerate_one_def)
  qed
  with Cons show ?case by simp
qed simp

end
