(* ===== verification/Mountd_Dbus.thy ===== *)
theory Mountd_Dbus
  imports Mountd_Monitor
begin

section \<open>isde-mountd: the D-Bus interface, start-up and the event loop\<close>

text \<open>
  The methods of \<^verbatim>\<open>mountd/src/dbus.c\<close>, the start-up and the loop of
  \<^verbatim>\<open>mountd/src/mountd.c\<close>. A message is the record of what libdbus's accessors return
  for it: its type, interface and member, the signature, the string arguments
  \<^verbatim>\<open>dbus_message_get_args\<close> yields (\<open>None\<close> where it fails) and the sender's Unix uid.
  One iteration of the loop handles at most one udev event and then the queued messages.
\<close>

subsection \<open>Methods\<close>

record dbus_msg =
  m_is_call :: bool
  m_iface :: "cstr option"
  m_member :: "cstr option"
  m_signature :: "cstr option"
  m_get_s :: "cstr option"
  m_get_ss :: "(cstr \<times> cstr) option"
  m_sender_uid :: "nat option"

datatype dbus_reply =
    RError cstr cstr
  | RDevices "(cstr \<times> cstr \<times> cstr \<times> cstr \<times> cstr \<times> bool \<times> bool \<times> bool) list"
  | RResult bool cstr
  | RIntrospect

datatype dbus_handled = NotYetHandled | Handled dbus_reply

definition INVALID_ARGS :: cstr where
  "INVALID_ARGS = ''org.freedesktop.DBus.Error.InvalidArgs''"
definition AUTH_FAILED :: cstr where
  "AUTH_FAILED = ''org.freedesktop.DBus.Error.AuthFailed''"
definition UNKNOWN_METHOD :: cstr where
  "UNKNOWN_METHOD = ''org.freedesktop.DBus.Error.UnknownMethod''"
definition MOUNTD_DBUS_INTERFACE :: cstr where
  "MOUNTD_DBUS_INTERFACE = ''org.isde.DiskManager''"

definition handle_list_devices :: "mountd \<Rightarrow> dbus_reply" where
  "handle_list_devices md = RDevices (map (\<lambda>d.
     (dev_path d, label d, vendor d, fs_type d, mount_point d, is_mounted d, is_ejectable d, is_luks d))
     (devices md))"

definition mount_args :: "dbus_msg \<Rightarrow> cstr + cstr \<times> cstr" where
  "mount_args msg =
     (if m_signature msg = Some ''ss'' then
        (case m_get_ss msg of
           None \<Rightarrow> Inl ''Expected (device_path: s, passphrase: s)''
         | Some pw \<Rightarrow> Inr pw)
      else
        (case m_get_s msg of
           None \<Rightarrow> Inl ''Expected (device_path: s)''
         | Some p \<Rightarrow> Inr (p, [])))"

definition handle_mount :: "menv \<Rightarrow> dbus_msg \<Rightarrow> mountd \<Rightarrow> dbus_reply \<times> mountd" where
  "handle_mount env msg md =
     (case mount_args msg of
        Inl e \<Rightarrow> (RError INVALID_ARGS e, md)
      | Inr (p, pass) \<Rightarrow>
          (case m_sender_uid msg of
             None \<Rightarrow> (RError AUTH_FAILED ''Cannot determine caller UID'', md)
           | Some uid \<Rightarrow>
               let (r, md) = mountd_do_mount env p uid pass MOUNT_POINT_LEN 256 md in
               case r of
                 Inl e \<Rightarrow> (RResult False e, md)
               | Inr mp \<Rightarrow> (RResult True mp, mountd_dbus_emit_device_mounted p mp md)))"

definition handle_unmount :: "menv \<Rightarrow> dbus_msg \<Rightarrow> mountd \<Rightarrow> dbus_reply \<times> mountd" where
  "handle_unmount env msg md =
     (case m_get_s msg of
        None \<Rightarrow> (RError INVALID_ARGS ''Expected (device_path: s)'', md)
      | Some p \<Rightarrow>
          let (r, md) = mountd_do_unmount env p 256 md in
          case r of
            Inl e \<Rightarrow> (RResult False e, md)
          | Inr _ \<Rightarrow> (RResult True [], mountd_dbus_emit_device_unmounted p md))"

definition handle_eject :: "menv \<Rightarrow> dbus_msg \<Rightarrow> mountd \<Rightarrow> dbus_reply \<times> mountd" where
  "handle_eject env msg md =
     (case m_get_s msg of
        None \<Rightarrow> (RError INVALID_ARGS ''Expected (device_path: s)'', md)
      | Some p \<Rightarrow>
          let (r, md) = mountd_do_eject env linux_eject p 256 md in
          case r of
            Inl e \<Rightarrow> (RResult False e, md)
          | Inr _ \<Rightarrow> (RResult True [],
              mountd_dbus_emit_device_removed p (mountd_dbus_emit_device_unmounted p md)))"

definition handle_method :: "menv \<Rightarrow> dbus_msg \<Rightarrow> mountd \<Rightarrow> dbus_handled \<times> mountd" where
  "handle_method env msg md =
     (if \<not> m_is_call msg then (NotYetHandled, md)
      else
        case m_member msg of
          None \<Rightarrow> (NotYetHandled, md)
        | Some meth \<Rightarrow>
            if m_iface msg = Some ''org.freedesktop.DBus.Introspectable'' \<and> meth = ''Introspect''
            then (Handled RIntrospect, md)
            else if m_iface msg \<noteq> Some MOUNTD_DBUS_INTERFACE then (NotYetHandled, md)
            else
              let (reply, md) =
                (if meth = ''ListDevices'' then (handle_list_devices md, md)
                 else if meth = ''Mount'' then handle_mount env msg md
                 else if meth = ''Unmount'' then handle_unmount env msg md
                 else if meth = ''Eject'' then handle_eject env msg md
                 else (RError UNKNOWN_METHOD ''Unknown method'', md)) in
              (Handled reply, md))"

subsection \<open>Start-up and the loop\<close>

text \<open>
  The configuration as \<^verbatim>\<open>load_config\<close> reads it: \<open>None\<close> when the file or its
  \<^verbatim>\<open>[mount]\<close> table is absent, else the mount base if set and the auto-mount flag.
\<close>

type_synonym mount_config = "(cstr option \<times> bool) option"

definition load_config :: "mount_config \<Rightarrow> mountd \<Rightarrow> mountd" where
  "load_config cfg md = (case cfg of
     None \<Rightarrow> md
   | Some (base, auto) \<Rightarrow>
       (case base of None \<Rightarrow> md | Some b \<Rightarrow> md\<lparr>mount_base := b\<rparr>)\<lparr>auto_mount := auto\<rparr>)"

definition mountd_start :: mountd where
  "mountd_start = \<lparr>devices = [], mount_base = ''/media'', auto_mount = False,
     dbus_connected = False, running = False, mtrace = []\<rparr>"

definition mountd_init ::
  "menv \<Rightarrow> mount_config \<Rightarrow> bool \<Rightarrow> bool \<Rightarrow> bool \<Rightarrow> udev_dev list \<Rightarrow> mountd option" where
  "mountd_init env cfg pipe_ok dbus_ok monitor_ok devs =
     (let md = load_config cfg mountd_start in
      if \<not> pipe_ok then None
      else
        let md = md\<lparr>dbus_connected := dbus_ok\<rparr> in
        if \<not> monitor_ok then None
        else
          let md = linux_enumerate_devices devs md;
              md = mountd_refresh_mount_state env md in
          Some (md\<lparr>running := True\<rparr>))"

text \<open>
  One turn of \<^verbatim>\<open>mountd_run\<close>: the monitor descriptor first, then the messages the bus has
  queued, in order. (The child reaping of the first branch keeps no state.)
\<close>

definition mountd_turn :: "menv \<Rightarrow> udev_dev option \<Rightarrow> dbus_msg list \<Rightarrow> mountd \<Rightarrow> mountd" where
  "mountd_turn env ev msgs md =
     fold (\<lambda>m s. snd (handle_method env m s)) msgs (linux_monitor_dispatch env ev md)"

definition valid_dev :: "udev_dev \<Rightarrow> bool" where
  "valid_dev dev \<longleftrightarrow> length (nullable (u_devnode dev)) < DEV_PATH_LEN"

inductive mountd_reachable :: "menv \<Rightarrow> mountd \<Rightarrow> bool" for env where
  init: "mountd_init env cfg pipe_ok dbus_ok monitor_ok devs = Some md \<Longrightarrow>
    list_all valid_dev devs \<Longrightarrow> mountd_reachable env md"
| turn: "mountd_reachable env md \<Longrightarrow> running md \<Longrightarrow> (\<And>dev. ev = Some dev \<Longrightarrow> valid_dev dev) \<Longrightarrow>
    mountd_reachable env (mountd_turn env ev msgs md)"

subsection \<open>The invariant holds in every reachable state\<close>

lemma do_mount_inv:
  assumes "mountd_inv md" and "mountd_do_mount env p uid pass ml el md = (r, md')"
  shows "mountd_inv md'"
proof (cases "mountd_find_device md p")
  case None
  with assms show ?thesis by (simp add: do_mount_untracked)
next
  case (Some i)
  from inv_evolves [OF do_mount_evolves [OF assms(2) Some] assms(1)] show ?thesis .
qed

lemma do_unmount_inv:
  assumes "mountd_inv md" and "mountd_do_unmount env p el md = (r, md')"
  shows "mountd_inv md'"
proof (cases "mountd_find_device md p")
  case None
  with assms show ?thesis by (simp add: mountd_do_unmount_def)
next
  case (Some i)
  from inv_evolves [OF do_unmount_evolves [OF assms(2) Some] assms(1)] show ?thesis .
qed

lemma do_eject_inv:
  assumes "mountd_inv md" and "mountd_do_eject env linux_eject p el md = (r, md')"
  shows "mountd_inv md'"
  using linux.do_eject_wf [OF _ assms(2)] linux.do_eject_safe [OF _ assms(2)] assms(1)
  by (auto simp: mountd_inv_def)

lemma inv_emit: "mountd_inv md \<Longrightarrow> mountd_inv (emit name args md)"
  by (rule inv_only_trace [OF emit_only_trace])

lemma handle_mount_inv: "mountd_inv md \<Longrightarrow> mountd_inv (snd (handle_mount env msg md))"
  by (auto simp: handle_mount_def Let_def emitters inv_emit split: sum.splits prod.splits option.splits
      dest: do_mount_inv)

lemma handle_unmount_inv: "mountd_inv md \<Longrightarrow> mountd_inv (snd (handle_unmount env msg md))"
  by (auto simp: handle_unmount_def Let_def emitters inv_emit split: sum.splits prod.splits option.splits
      dest: do_unmount_inv)

lemma handle_eject_inv: "mountd_inv md \<Longrightarrow> mountd_inv (snd (handle_eject env msg md))"
  by (auto simp: handle_eject_def Let_def emitters inv_emit split: sum.splits prod.splits option.splits
      dest: do_eject_inv)

lemma handle_method_inv: "mountd_inv md \<Longrightarrow> mountd_inv (snd (handle_method env msg md))"
proof -
  assume inv: "mountd_inv md"
  note h = handle_mount_inv [OF inv, of env msg] handle_unmount_inv [OF inv, of env msg]
    handle_eject_inv [OF inv, of env msg]
  show ?thesis using inv h
    by (auto simp: handle_method_def Let_def split: option.splits prod.splits)
qed

lemma fold_methods_inv:
  "mountd_inv md \<Longrightarrow> mountd_inv (fold (\<lambda>m s. snd (handle_method env m s)) msgs md)"
  by (induction msgs arbitrary: md) (auto simp: handle_method_inv)

lemma turn_inv:
  assumes "mountd_inv md" and "\<And>dev. ev = Some dev \<Longrightarrow> valid_dev dev"
  shows "mountd_inv (mountd_turn env ev msgs md)"
  unfolding mountd_turn_def
  using assms by (intro fold_methods_inv dispatch_inv) (auto simp: valid_dev_def)

definition keeps_safe :: "mountd \<Rightarrow> mountd \<Rightarrow> bool" where
  "keeps_safe md md' \<longleftrightarrow> mount_base md' = mount_base md \<and>
     (list_all (safe_call (mount_base md)) (mtrace md) \<longrightarrow> list_all (safe_call (mount_base md)) (mtrace md'))"

lemma keeps_safe_only_trace: "only_trace md md' \<Longrightarrow> keeps_safe md md'"
  by (auto simp: only_trace_def keeps_safe_def list_all_iff safe_call_other)

lemma refresh_unlocked_safe: "keeps_safe md (refresh_unlocked env i n md)"
proof (induction n arbitrary: i md)
  case (Suc n)
  obtain a md1 where a: "mountd_luks_is_active env (dm_name (dev_at md i)) md = (a, md1)" by fastforce
  note k = keeps_safe_only_trace [OF luks_is_active_trace [OF a]]
  show ?case using k Suc [of md "Suc i"] Suc [of "upd_dev i (\<lambda>d. d\<lparr>is_unlocked := a\<rparr>) md1" "Suc i"] a
    by (auto simp: Let_def keeps_safe_def)
qed (simp add: keeps_safe_def)

lemma fold_apply_mount_safe: "keeps_safe md (fold apply_mount_entry es md)"
proof (induction es arbitrary: md)
  case (Cons e es)
  have "keeps_safe md (apply_mount_entry e md)"
    by (auto simp: apply_mount_entry_def keeps_safe_def Let_def split: prod.splits option.splits)
  with Cons [of "apply_mount_entry e md"] show ?case by (auto simp: keeps_safe_def)
qed (simp add: keeps_safe_def)

lemma refresh_safe: "keeps_safe md (mountd_refresh_mount_state env md)"
proof -
  let ?md0 = "md\<lparr>devices := map clear_mount (devices md)\<rparr>"
  let ?md1 = "refresh_unlocked env 0 (length (devices ?md0)) ?md0"
  let ?md2 = "log_call COpenMounts ?md1"
  have "keeps_safe ?md0 ?md1" by (rule refresh_unlocked_safe)
  then have k2: "keeps_safe md ?md2" by (auto simp: keeps_safe_def)
  have "keeps_safe md (fold apply_mount_entry es ?md2)" for es
    using k2 fold_apply_mount_safe [of ?md2 es] by (auto simp: keeps_safe_def)
  with k2 show ?thesis by (simp add: mountd_refresh_mount_state_def Let_def sys_eq)
qed

lemma init_inv:
  assumes "mountd_init env cfg pipe_ok dbus_ok monitor_ok devs = Some md" and "list_all valid_dev devs"
  shows "mountd_inv md"
proof -
  let ?md0 = "(load_config cfg mountd_start)\<lparr>dbus_connected := dbus_ok\<rparr>"
  have z: "devices ?md0 = []" "mtrace ?md0 = []"
    by (auto simp: load_config_def mountd_start_def split: option.splits)
  then have "mountd_inv ?md0" "none_opened ?md0"
    by (simp_all add: mountd_inv_def wf_table_def none_opened_def)
  then have e: "mountd_inv (linux_enumerate_devices devs ?md0)"
      "none_opened (linux_enumerate_devices devs ?md0)"
    using enumerate_inv [of ?md0 devs] assms(2) by (simp_all add: valid_dev_def [abs_def])
  let ?md1 = "linux_enumerate_devices devs ?md0"
  from assms(1) have "md = (mountd_refresh_mount_state env ?md1)\<lparr>running := True\<rparr>"
    by (auto simp: mountd_init_def Let_def split: if_splits)
  with e refresh_wf [of ?md1 env] refresh_safe [of ?md1 env] show ?thesis
    by (auto simp: mountd_inv_def keeps_safe_def wf_table_def)
qed

lemma reachable_inv: "mountd_reachable env md \<Longrightarrow> mountd_inv md"
proof (induction rule: mountd_reachable.induct)
  case (init cfg pipe_ok dbus_ok monitor_ok devs md)
  then show ?case by (rule init_inv)
next
  case (turn md ev msgs)
  then show ?case by (intro turn_inv) auto
qed

end
