(* ===== verification/Mountd_Props.thy ===== *)
theory Mountd_Props
  imports Mountd_Dbus
begin

section \<open>isde-mountd: the properties\<close>

text \<open>
  What the disk daemon guarantees: the invariant of its table and the safety of its mounts in
  every reachable state, the exact effect of mount, unmount, eject and removal, and three
  behaviours the code does not intend. The concrete environment and devices at the start serve
  the witnesses.
\<close>

subsection \<open>A concrete environment\<close>

definition demo_env :: menv where
  "demo_env = \<lparr>e_plat = Linux, e_ret = (\<lambda>_. 0), e_strerror = (\<lambda>_. ''I/O error''),
     e_passwd = (\<lambda>_. Some \<lparr>pw_name = ''alice'', pw_gid = 100\<rparr>),
     e_crypt_status = (\<lambda>_. CRYPT_INACTIVE), e_blkid_type = (\<lambda>_. Some ''ext4''),
     e_proc_mounts = (\<lambda>_. []), e_mntinfo = (\<lambda>_. [])\<rparr>"

text \<open>The same environment without the caller in the password database.\<close>

definition nouser_env :: menv where
  "nouser_env = demo_env\<lparr>e_passwd := (\<lambda>_. None)\<rparr>"

definition demo_dev :: "cstr \<Rightarrow> cstr \<Rightarrow> cstr \<Rightarrow> cstr \<Rightarrow> udev_dev" where
  "demo_dev act node lbl fs = \<lparr>u_action = Some act, u_devnode = Some node,
     u_devtype = Some ''partition'',
     u_prop = map_of [(''ID_BUS'', ''usb''), (''ID_FS_LABEL'', lbl), (''ID_FS_TYPE'', fs)],
     u_sysattr = Map.empty, u_parent_disk = None\<rparr>"

definition demo_msg :: "cstr \<Rightarrow> cstr \<Rightarrow> cstr \<Rightarrow> dbus_msg" where
  "demo_msg meth p pass = \<lparr>m_is_call = True, m_iface = Some MOUNTD_DBUS_INTERFACE,
     m_member = Some meth, m_signature = Some (if pass = [] then ''s'' else ''ss''),
     m_get_s = Some p, m_get_ss = Some (p, pass), m_sender_uid = Some 1000\<rparr>"

definition demo_start :: mountd where
  "demo_start = mountd_start\<lparr>dbus_connected := True, running := True, mtrace := [COpenMounts]\<rparr>"

definition demo_stick :: mountd where
  "demo_stick = mountd_turn demo_env (Some (demo_dev ''add'' ''/dev/sdb1'' ''STICK'' ''vfat'')) [] demo_start"

definition demo_mounted :: mountd where
  "demo_mounted = mountd_turn demo_env None [demo_msg ''Mount'' ''/dev/sdb1'' []] demo_stick"

definition demo_luks :: mountd where
  "demo_luks = mountd_turn demo_env (Some (demo_dev ''add'' ''/dev/sdc1'' ''SAFE'' ''crypto_LUKS'')) [] demo_start"

lemma demo_start_init: "mountd_init demo_env None True True True [] = Some demo_start"
  by (simp add: mountd_init_def load_config_def mountd_start_def linux_enumerate_devices_def
      mountd_refresh_mount_state_def Let_def sys_eq demo_env_def log_call_def demo_start_def)

lemma demo_start_reachable: "mountd_reachable demo_env demo_start"
  by (rule mountd_reachable.init [OF demo_start_init]) simp

lemma demo_stick_reachable: "mountd_reachable demo_env demo_stick"
  unfolding demo_stick_def
  by (rule mountd_reachable.turn [OF demo_start_reachable])
     (auto simp: demo_start_def valid_dev_def demo_dev_def nullable_def)

lemma demo_luks_reachable: "mountd_reachable demo_env demo_luks"
  unfolding demo_luks_def
  by (rule mountd_reachable.turn [OF demo_start_reachable])
     (auto simp: demo_start_def valid_dev_def demo_dev_def nullable_def)

lemma demo_mounted_reachable: "mountd_reachable demo_env demo_mounted"
  unfolding demo_mounted_def
  by (rule mountd_reachable.turn [OF demo_stick_reachable]) (auto, code_simp)

subsection \<open>Reading one entry through an operation\<close>

lemma device_map_evolves:
  assumes "evolves i md md'" and "mountd_find_device md p = Some i"
  shows "device_map md' p = Some (dev_at md' i)" and "q \<noteq> p \<Longrightarrow> device_map md' q = device_map md q"
proof -
  show "device_map md' p = Some (dev_at md' i)"
    using assms by (simp add: device_map_def evolves_find)
  assume "q \<noteq> p"
  show "device_map md' q = device_map md q"
  proof (cases "mountd_find_device md q")
    case None
    then show ?thesis by (simp add: device_map_def evolves_find [OF assms(1)])
  next
    case (Some j)
    with \<open>q \<noteq> p\<close> find_device_SomeD assms(2) have "j \<noteq> i" by metis
    with Some show ?thesis by (simp add: device_map_def evolves_find [OF assms(1)] evolvesD(8) [OF assms(1)])
  qed
qed

lemma linux_mount_ok:
  assumes "plat_mount env src tgt fs fat uid gid errlen md = (Inr u, md')" and "e_plat env = Linux"
  shows "\<exists>flags opts. md' = log_call (CMount src tgt fs flags opts) md \<and> e_ret env (mtrace md') = 0"
  using assms by (auto simp: plat_mount_def linux_plat_mount_def Let_def sys_eq split: if_splits)

lemma mount_volume_Inr:
  assumes "mount_volume env i src fs uid mp_len errlen md = (Inr mp, md')"
    and i: "i < length (devices md)"
  shows "\<exists>pw md2. is_fs_type_allowed fs \<and> evolves i md md2 \<and>
    mp = snprintf mp_len (mount_path md pw i) \<and>
    md' = upd_dev i (\<lambda>d. d\<lparr>is_mounted := True, mount_point := snprintf MOUNT_POINT_LEN (mount_path md pw i)\<rparr>) md2 \<and>
    (e_plat env = Linux \<longrightarrow> (\<exists>t flags opts.
       mtrace md2 = t @ [CMount src (mount_path md pw i) fs flags opts] \<and> e_ret env (mtrace md2) = 0))"
proof -
  let ?md0 = "log_call (CGetpwuid uid) md"
  have e0: "evolves i md ?md0" using i by (simp add: evolves_log)
  from assms(1) have fs: "is_fs_type_allowed fs" "fs \<noteq> []"
    by (auto simp: mount_volume_def split: if_splits)
  with assms(1) obtain pw where pw: "e_passwd env (mtrace ?md0) = Some pw"
    by (auto simp: mount_volume_def Let_def split: option.splits)
  let ?mp = "mount_path md pw i"
  obtain r1 md1 where m1: "mkdir_p env ?mp 493 ?md0 = (r1, md1)" by fastforce
  have e1: "evolves i md md1"
    by (rule evolves_trans [OF e0 evolves_only_trace [OF mkdir_p_only_trace [OF m1] evolvesD(1) [OF e0]]])
  obtain r2 md2 where m2: "plat_mount env src ?mp fs (fs = ''vfat'' \<or> fs = ''exfat'')
      uid (pw_gid pw) errlen md1 = (r2, md2)" by fastforce
  have "evolves i md1 md2"
    by (rule plat_mount_evolves [OF m2 evolvesD(1) [OF e1] fs(1) _ refl])
       (simp add: evolvesD(3) [OF e1] mount_path_safe)
  then have e2: "evolves i md md2" by (rule evolves_trans [OF e1])
  from assms(1) fs pw m1 m2 have r: "r2 = Inr ()" "mp = snprintf mp_len ?mp"
    "md' = upd_dev i (\<lambda>d. d\<lparr>is_mounted := True, mount_point := snprintf MOUNT_POINT_LEN ?mp\<rparr>) md2"
    by (auto simp: mount_volume_def Let_def split: sum.splits)
  have "e_plat env = Linux \<Longrightarrow> \<exists>t flags opts.
       mtrace md2 = t @ [CMount src ?mp fs flags opts] \<and> e_ret env (mtrace md2) = 0"
    using linux_mount_ok [of env src ?mp fs] m2 r(1) by fastforce
  with fs(1) e2 r show ?thesis by blast
qed

lemma plat_mount_devices:
  "plat_mount env s t f b u g e md = (r, md') \<Longrightarrow> devices md' = devices md"
  by (auto simp: plat_mount_def linux_plat_mount_def fbsd_plat_mount_def Let_def sys_eq
      split: if_splits option.splits)

lemma mkdir_p_devices: "mkdir_p env p m md = (r, md') \<Longrightarrow> devices md' = devices md"
  using mkdir_p_only_trace only_traceD(1) by blast

lemma luks_close_devices: "mountd_luks_close env k n md = (r, md') \<Longrightarrow> devices md' = devices md"
  using luks_close_trace only_traceD(1) by blast

lemma luks_open_devices: "mountd_luks_open env p n w e md = (r, md') \<Longrightarrow> devices md' = devices md"
  using luks_open_trace only_traceD(1) by blast

lemma luks_probe_devices: "mountd_luks_probe_fs env p n md = (r, md') \<Longrightarrow> devices md' = devices md"
  using luks_probe_trace only_traceD(1) by blast

lemmas op_devices = plat_mount_devices mkdir_p_devices luks_close_devices luks_open_devices
  luks_probe_devices

lemma mount_volume_inner:
  assumes "mount_volume env i src fs uid mp_len errlen md = (Inr mp, md')" and "i < length (devices md)"
  shows "inner_fs_type (dev_at md' i) = inner_fs_type (dev_at md i)"
  using assms by (auto simp: mount_volume_def Let_def split: if_splits option.splits sum.splits prod.splits dest!: op_devices)

lemma luks_prepare_kept:
  assumes "luks_prepare env i p pass errlen md = (r, md')" and "i < length (devices md)"
  shows "is_mounted (dev_at md' i) = is_mounted (dev_at md i) \<and>
    mount_point (dev_at md' i) = mount_point (dev_at md i)"
  using assms by (auto simp: luks_prepare_def luks_unlock_def luks_rollback_def Let_def
        split: if_splits sum.splits option.splits prod.splits dest!: op_devices)

lemma mount_volume_Inr_luks:
  assumes "mount_volume env i src fs uid mp_len errlen md = (Inr mp, md')" and "i < length (devices md)"
  shows "is_unlocked (dev_at md' i) = is_unlocked (dev_at md i) \<and>
    luks_opened_by_us (dev_at md' i) = luks_opened_by_us (dev_at md i)"
  using assms by (auto simp: mount_volume_def Let_def split: if_splits option.splits sum.splits prod.splits
        dest!: op_devices)

lemma luks_prepare_opened:
  assumes "luks_prepare env i p pass errlen md = (Inr u, md')" and "i < length (devices md)"
    and "\<not> is_unlocked (dev_at md i)"
  shows "is_unlocked (dev_at md' i) \<and> luks_opened_by_us (dev_at md' i)"
  using assms by (auto simp: luks_prepare_def luks_unlock_def Let_def
        split: if_splits sum.splits option.splits prod.splits dest!: op_devices)

lemma do_mount_luks_state:
  assumes "mountd_do_mount env p uid pass mp_len errlen md = (Inr mp, md')"
    and "mountd_find_device md p = Some i"
  shows "is_luks (dev_at md i) \<Longrightarrow> \<not> is_unlocked (dev_at md i) \<Longrightarrow>
      is_unlocked (dev_at md' i) \<and> luks_opened_by_us (dev_at md' i)"
    and "\<not> is_luks (dev_at md i) \<Longrightarrow> is_unlocked (dev_at md' i) = is_unlocked (dev_at md i) \<and>
      luks_opened_by_us (dev_at md' i) = luks_opened_by_us (dev_at md i) \<and>
      inner_fs_type (dev_at md' i) = inner_fs_type (dev_at md i)"
proof -
  have il: "i < length (devices md)" using find_device_SomeD [OF assms(2)] by simp
  obtain r1 md1 where l: "luks_prepare env i p pass errlen md = (r1, md1)" by fastforce
  show "is_unlocked (dev_at md' i) \<and> luks_opened_by_us (dev_at md' i)"
    if a: "is_luks (dev_at md i)" "\<not> is_unlocked (dev_at md i)"
  proof -
    have i1: "i < length (devices md1)" using luks_prepare_evolves [OF l il a(1)] evolvesD(1) by blast
    from assms a l luks_prepare_opened [of env i p pass errlen md _ md1] il i1 mount_volume_Inr_luks
    show ?thesis by (auto simp: mountd_do_mount_def Let_def split: if_splits sum.splits)
  qed
  show "is_unlocked (dev_at md' i) = is_unlocked (dev_at md i) \<and>
      luks_opened_by_us (dev_at md' i) = luks_opened_by_us (dev_at md i) \<and>
      inner_fs_type (dev_at md' i) = inner_fs_type (dev_at md i)" if "\<not> is_luks (dev_at md i)"
    using assms that il mount_volume_Inr_luks mount_volume_inner
    by (auto simp: mountd_do_mount_def split: if_splits)
qed

lemma luks_close_ok:
  assumes "e_plat env = Linux" and "\<forall>t. e_ret env t = 0"
  shows "\<exists>md'. mountd_luks_close env n el md = (Inr (), md') \<and> devices md' = devices md"
  using assms by (auto simp: mountd_luks_close_def sys_eq)

lemma do_unmount_ok:
  assumes "mountd_do_unmount env p errlen md = (r, md')" and "mountd_find_device md p = Some i"
    and "is_mounted (dev_at md i)" and "e_plat env = Linux" and "\<forall>t. e_ret env t = 0"
  shows "r = Inr () \<and> devices md' = (devices md)[i := (let d = clear_mount (dev_at md i) in
    if is_luks d \<and> is_unlocked d \<and> luks_opened_by_us d
    then d\<lparr>is_unlocked := False, luks_opened_by_us := False, inner_fs_type := []\<rparr> else d)]"
proof -
  have il: "i < length (devices md)" using find_device_SomeD [OF assms(2)] by simp
  let ?mp = "mount_point (dev_at md i)"
  let ?md2 = "upd_dev i clear_mount (log_call (CRmdir ?mp) (log_call (CUmount ?mp) md))"
  have r: "r = Inr ()" "md' = luks_release env i ?md2"
    using assms by (auto simp: mountd_do_unmount_def Let_def sys_eq split: if_splits)
  obtain md3 where c: "mountd_luks_close env (dm_name (clear_mount (dev_at md i))) 256 ?md2 = (Inr (), md3)"
    and d3: "devices md3 = devices ?md2" using luks_close_ok [OF assms(4,5)] by blast
  show ?thesis using r c d3 il by (auto simp: luks_release_def Let_def)
qed

subsection \<open>Invariants of the running daemon\<close>





text \<open>
  C3: on a well-formed table \<^verbatim>\<open>mountd_add_device\<close> of a new path binds exactly that path to the
  new entry, \<^verbatim>\<open>mountd_remove_device\<close> unbinds exactly one path although it moves the last
  entry into the freed slot, and removing right after adding restores every lookup.
\<close>

theorem device_table_refines_map:
  assumes "wf_table md" and "length p < DEV_PATH_LEN" and "device_map md p = None"
    and "length (devices md) < MAX_DEVICES"
  shows "device_map (snd (mountd_add_device md p l v f e)) = (device_map md)(p \<mapsto> new_device p l v f e) \<and>
    device_map (mountd_remove_device md q) = (device_map md)(q := None) \<and>
    device_map (mountd_remove_device (snd (mountd_add_device md p l v f e)) p) = device_map md"
  using mdt.lookup_add [of md p "(l, v, f, e)"] mdt.lookup_remove [of md q]
    mdt.add_remove [of md p "(l, v, f, e)"] assms by simp

theorem device_table_refines_map_witness:
  "device_map demo_stick ''/dev/sdz'' = None \<and>
   device_map (mountd_remove_device (snd (mountd_add_device demo_stick ''/dev/sdz'' None None None True)) ''/dev/sdz'')
     = device_map demo_stick"
proof -
  have wf: "wf_table demo_stick" using reachable_inv [OF demo_stick_reachable] by (simp add: mountd_inv_def)
  have n: "device_map demo_stick ''/dev/sdz'' = None" by code_simp
  have l: "length (devices demo_stick) < MAX_DEVICES" by code_simp
  from device_table_refines_map [OF wf _ n l] n show ?thesis by simp
qed

subsection \<open>Requests\<close>

text \<open>
  C4: a successful mount request was for a tracked device that was not mounted; afterwards that
  device is recorded as mounted at \<^verbatim>\<open>base/user/label\<close> (label sanitised), the path is
  returned, the mounted file system type is an allowed one, no other device changed, and on
  Linux the last call of the daemon was a successful \<^verbatim>\<open>mount(2)\<close> of the device (of its
  dm-crypt node for a LUKS container) on that directory.
\<close>

theorem do_mount_success:
  assumes "mountd_do_mount env p uid pass mp_len errlen md = (Inr mp, md')"
  shows "\<exists>d d' user fs. device_map md p = Some d \<and> \<not> is_mounted d \<and> device_map md' p = Some d' \<and>
    is_mounted d' \<and> mount_point d' = snprintf MOUNT_POINT_LEN
      (mount_base md @ ''/'' @ user @ ''/'' @ sanitize_label (label d) 256) \<and>
    mp = snprintf mp_len (mount_point d') \<and>
    fs = (if is_luks d then inner_fs_type d' else fs_type d) \<and> is_fs_type_allowed fs \<and>
    (\<forall>q. q \<noteq> p \<longrightarrow> device_map md' q = device_map md q) \<and>
    (e_plat env = Linux \<longrightarrow> (\<exists>t flags opts. mtrace md' = t @
       [CMount (if is_luks d then dm_path d else p) (mount_point d') fs flags opts] \<and>
       e_ret env (mtrace md') = 0))"
proof -
  from assms obtain i where i: "mountd_find_device md p = Some i"
    by (auto simp: mountd_do_mount_def split: option.splits)
  note il = find_device_SomeD [OF i]
  let ?d = "dev_at md i"
  note e = do_mount_evolves [OF assms i]
  have nm: "\<not> is_mounted ?d" using assms i by (auto simp: mountd_do_mount_def split: if_splits)
  obtain r1 md1 where l: "luks_prepare env i p pass errlen md = (r1, md1)" by fastforce
  define md0 where "md0 = (if is_luks ?d then md1 else md)"
  define src where "src = (if is_luks ?d then dm_path (dev_at md0 i) else p)"
  define fs where "fs = (if is_luks ?d then inner_fs_type (dev_at md0 i) else fs_type ?d)"
  have mv: "mount_volume env i src fs uid mp_len errlen md0 = (Inr mp, md')"
    using assms i nm l by (auto simp: mountd_do_mount_def md0_def src_def fs_def Let_def split: sum.splits if_splits)
  have e0: "evolves i md md0"
    using il luks_prepare_evolves [OF l] by (auto simp: md0_def evolves_refl)
  note id = evolvesD(7) [OF e0]
  obtain pw md2 where v: "is_fs_type_allowed fs" "evolves i md0 md2"
      "mp = snprintf mp_len (mount_path md0 pw i)"
      "md' = upd_dev i (\<lambda>d. d\<lparr>is_mounted := True, mount_point := snprintf MOUNT_POINT_LEN (mount_path md0 pw i)\<rparr>) md2"
      "e_plat env = Linux \<Longrightarrow> \<exists>t flags opts. mtrace md2 = t @ [CMount src (mount_path md0 pw i) fs flags opts] \<and>
         e_ret env (mtrace md2) = 0"
    using mount_volume_Inr [OF mv evolvesD(1) [OF e0]] by blast
  have mp: "mount_path md0 pw i = snprintf MOUNT_POINT_LEN
      (mount_base md @ ''/'' @ pw_name pw @ ''/'' @ sanitize_label (label ?d) 256)"
    using evolvesD(3) [OF e0] id by (simp add: mount_path_def id_fields_def)
  have i2: "i < length (devices md2)" using evolvesD(1) [OF v(2)] .
  have inner: "inner_fs_type (dev_at md2 i) = inner_fs_type (dev_at md0 i)"
    using mount_volume_inner [OF mv evolvesD(1) [OF e0]] v(4) i2 by simp
  have dm: "dm_path (dev_at md0 i) = dm_path ?d" using id by (simp add: id_fields_def)
  show ?thesis
    using i il nm v i2 mp inner dm device_map_evolves [OF e i]
    by (intro exI [of _ ?d] exI [of _ "dev_at md' i"] exI [of _ "pw_name pw"] exI [of _ fs])
       (auto simp: device_map_def src_def fs_def cbuf)
qed

theorem do_mount_success_witness:
  "fst (mountd_do_mount demo_env ''/dev/sdc1'' 1000 ''pw'' 512 256 demo_luks) = Inr ''/media/alice/SAFE'' \<and>
   (\<exists>d'. device_map (snd (mountd_do_mount demo_env ''/dev/sdc1'' 1000 ''pw'' 512 256 demo_luks)) ''/dev/sdc1''
      = Some d' \<and> is_mounted d')"
proof -
  let ?m = "mountd_do_mount demo_env ''/dev/sdc1'' 1000 ''pw'' 512 256 demo_luks"
  have f: "fst ?m = Inr ''/media/alice/SAFE''" by code_simp
  then have "?m = (Inr ''/media/alice/SAFE'', snd ?m)" by (metis prod.collapse)
  from do_mount_success [OF this] f show ?thesis by blast
qed

lemma mount_volume_Inl_kept:
  assumes "mount_volume env i src fs uid mp_len errlen md = (Inl e, md')" and "i < length (devices md)"
  shows "is_mounted (dev_at md' i) = is_mounted (dev_at md i) \<and>
    mount_point (dev_at md' i) = mount_point (dev_at md i)"
  using assms by (auto simp: mount_volume_def luks_rollback_def Let_def
        split: if_splits option.splits sum.splits prod.splits dest!: op_devices)

text \<open>
  C5: a failed mount request changes no other device, and of its own device neither the mount
  flag, nor the mount point, nor any identifying field; only the LUKS state can differ.
\<close>

theorem do_mount_failure:
  assumes "mountd_do_mount env p uid pass mp_len errlen md = (Inl e, md')"
  shows "(\<forall>q. q \<noteq> p \<longrightarrow> device_map md' q = device_map md q) \<and>
    (case device_map md p of None \<Rightarrow> md' = md
     | Some d \<Rightarrow> (\<exists>d'. device_map md' p = Some d' \<and> is_mounted d' = is_mounted d \<and>
         mount_point d' = mount_point d \<and> id_fields d' = id_fields d))"
proof (cases "mountd_find_device md p")
  case None
  with assms show ?thesis by (simp add: do_mount_untracked device_map_def)
next
  case (Some i)
  note il = find_device_SomeD [OF Some]
  note ev = do_mount_evolves [OF assms Some]
  obtain r1 md1 where l: "luks_prepare env i p pass errlen md = (r1, md1)" by fastforce
  have k: "is_luks (dev_at md i) \<Longrightarrow> i < length (devices md1)"
    using il luks_prepare_evolves [OF l] evolvesD(1) by blast
  have "is_mounted (dev_at md' i) = is_mounted (dev_at md i) \<and>
      mount_point (dev_at md' i) = mount_point (dev_at md i)"
  proof (cases "is_luks (dev_at md i)")
    case True
    with assms Some l k luks_prepare_kept [OF l] il mount_volume_Inl_kept show ?thesis
      by (auto simp: mountd_do_mount_def Let_def split: if_splits sum.splits)
  next
    case False
    with assms Some il mount_volume_Inl_kept show ?thesis
      by (auto simp: mountd_do_mount_def split: if_splits)
  qed
  with Some device_map_evolves [OF ev Some] evolvesD(7) [OF ev] show ?thesis
    by (auto simp: device_map_def)
qed

theorem do_mount_failure_witness:
  "fst (mountd_do_mount nouser_env ''/dev/sdb1'' 7 [] 512 256 demo_stick) = Inl ''Cannot resolve UID 7'' \<and>
   device_map (snd (mountd_do_mount nouser_env ''/dev/sdb1'' 7 [] 512 256 demo_stick)) ''/dev/sdx''
     = device_map demo_stick ''/dev/sdx''"
proof -
  let ?m = "mountd_do_mount nouser_env ''/dev/sdb1'' 7 [] 512 256 demo_stick"
  have f: "fst ?m = Inl ''Cannot resolve UID 7''" by code_simp
  then have "?m = (Inl ''Cannot resolve UID 7'', snd ?m)" by (metis prod.collapse)
  from do_mount_failure [OF this] f show ?thesis by simp
qed



text \<open>
  A successful eject untracks the device and changes no other lookup; a device that was not
  tracked cannot be ejected.
\<close>

theorem do_eject_success:
  assumes "wf_table md" and "mountd_do_eject env linux_eject p errlen md = (Inr (), md')"
  shows "device_map md p \<noteq> None \<and> device_map md' = (device_map md)(p := None)"
  using assms by (rule linux.do_eject_untracks)

theorem do_eject_success_witness:
  "fst (mountd_do_eject demo_env linux_eject ''/dev/sdb1'' 256 demo_mounted) = Inr () \<and>
   device_map (snd (mountd_do_eject demo_env linux_eject ''/dev/sdb1'' 256 demo_mounted)) ''/dev/sdb1'' = None"
proof -
  let ?m = "mountd_do_eject demo_env linux_eject ''/dev/sdb1'' 256 demo_mounted"
  have wf: "wf_table demo_mounted" using reachable_inv [OF demo_mounted_reachable] by (simp add: mountd_inv_def)
  have f: "fst ?m = Inr ()" by code_simp
  then have "?m = (Inr (), snd ?m)" by (metis prod.collapse)
  from do_eject_success [OF wf this] f show ?thesis by simp
qed



subsection \<open>Where the code falls short\<close>

text \<open>
  A failed mount request leaves a container that it unlocked itself open only on three error
  paths: the file system type inside is empty, the caller's uid has no password entry, or the
  mount directory cannot be created. On every other path the container is closed again.
\<close>

theorem luks_left_open_paths:
  assumes "mountd_do_mount env p uid pass mp_len errlen md = (Inl e, md')"
    and "device_map md p = Some d" and "\<not> luks_opened_by_us d"
    and "device_map md' p = Some d'" and "luks_opened_by_us d'"
  shows "e = snprintf errlen ''Unknown filesystem type'' \<or>
    e = snprintf errlen (''Cannot resolve UID '' @ dec_of_nat uid) \<or>
    (\<exists>m. e = snprintf errlen (''Cannot create '' @ m))"
proof -
  from assms(2) obtain i where i: "mountd_find_device md p = Some i" and d: "d = dev_at md i"
    by (auto simp: device_map_def)
  note il = find_device_SomeD [OF i]
  note ev = do_mount_evolves [OF assms(1) i]
  have d': "d' = dev_at md' i" using assms(4) device_map_evolves(1) [OF ev i] by simp
  obtain r1 md1 where l: "luks_prepare env i p pass errlen md = (r1, md1)" by fastforce
  have l1: "is_luks d \<Longrightarrow> evolves i md md1" using luks_prepare_evolves [OF l] il d by simp
  have lk: "is_luks (dev_at md' i) = is_luks d" using evolvesD(7) [OF ev] d by (simp add: id_fields_def)
  have no: "is_luks d \<Longrightarrow> r1 = Inl x \<Longrightarrow> \<not> luks_opened_by_us (dev_at md1 i)" for x
    using l assms(3) d il
    by (auto simp: luks_prepare_def luks_unlock_def luks_rollback_def Let_def
        split: if_splits sum.splits option.splits prod.splits dest!: op_devices)
  have mv: "mount_volume env i src fs uid mp_len errlen md0 = (Inl e, md') \<Longrightarrow> i < length (devices md0) \<Longrightarrow>
      is_luks (dev_at md0 i) \<Longrightarrow> luks_opened_by_us (dev_at md' i) \<Longrightarrow> ?thesis" for src fs md0
    by (auto simp: mount_volume_def luks_rollback_def Let_def
        split: if_splits option.splits sum.splits prod.splits dest!: op_devices)
  have mv': "mount_volume env i src fs uid mp_len errlen md0 = (Inl e, md') \<Longrightarrow> i < length (devices md0) \<Longrightarrow>
      \<not> is_luks (dev_at md0 i) \<Longrightarrow> luks_opened_by_us (dev_at md' i) = luks_opened_by_us (dev_at md0 i)" for src fs md0
    by (auto simp: mount_volume_def luks_rollback_def Let_def
        split: if_splits option.splits sum.splits prod.splits dest!: op_devices)
  have i1: "is_luks d \<Longrightarrow> i < length (devices md1) \<and> is_luks (dev_at md1 i)"
    using l1 evolvesD(1,7) [OF l1] d by (auto simp: id_fields_def)
  show ?thesis using assms(1,3,5) i il d d' l no mv mv' i1
    by (auto simp: mountd_do_mount_def Let_def split: if_splits sum.splits)
qed

text \<open>
  The three paths are real: with a caller that has no password entry, a request with the right
  passphrase fails and the container stays unlocked, without any close in the trace. The witness below
  is this run.
\<close>

theorem luks_left_open_paths_witness:
  "fst (mountd_do_mount nouser_env ''/dev/sdc1'' 7 ''pw'' 512 256 demo_luks) = Inl ''Cannot resolve UID 7'' \<and>
   (\<exists>d'. device_map (snd (mountd_do_mount nouser_env ''/dev/sdc1'' 7 ''pw'' 512 256 demo_luks)) ''/dev/sdc1''
      = Some d' \<and> is_unlocked d' \<and> luks_opened_by_us d') \<and>
   CCryptDeactivate ''luks-sdc1'' \<notin> set (mtrace (snd (mountd_do_mount nouser_env ''/dev/sdc1'' 7 ''pw'' 512 256 demo_luks)))"
proof -
  let ?m = "mountd_do_mount nouser_env ''/dev/sdc1'' 7 ''pw'' 512 256 demo_luks"
  have f: "fst ?m = Inl ''Cannot resolve UID 7''" by code_simp
  then have m: "?m = (Inl ''Cannot resolve UID 7'', snd ?m)" by (metis prod.collapse)
  have d: "device_map demo_luks ''/dev/sdc1'' = Some (dev_at demo_luks 0)"
    "\<not> luks_opened_by_us (dev_at demo_luks 0)" by code_simp+
  have d': "device_map (snd ?m) ''/dev/sdc1'' = Some (dev_at (snd ?m) 0)"
    "luks_opened_by_us (dev_at (snd ?m) 0)" "is_unlocked (dev_at (snd ?m) 0)" by code_simp+
  have "CCryptDeactivate ''luks-sdc1'' \<notin> set (mtrace (snd ?m))" by code_simp
  with luks_left_open_paths [OF m d d'(1,2)] f d' show ?thesis by blast
qed

text \<open>
  Two volumes with the same label (here two sticks labelled STICK, of the same user) are
  both mounted on the same directory: the second mount covers the first, and both entries record
  that one mount point. Nothing in \<^verbatim>\<open>mountd_do_mount\<close> makes the mount point unique.
\<close>

definition demo_two :: mountd where
  "demo_two = mountd_turn demo_env (Some (demo_dev ''add'' ''/dev/sdd1'' ''STICK'' ''vfat''))
     [demo_msg ''Mount'' ''/dev/sdd1'' []] demo_mounted"

theorem same_label_same_mount_point:
  "mountd_reachable demo_env demo_two \<and>
   map (\<lambda>d. (dev_path d, is_mounted d, mount_point d)) (devices demo_two) =
     [(''/dev/sdb1'', True, ''/media/alice/STICK''), (''/dev/sdd1'', True, ''/media/alice/STICK'')]"
proof
  have "running demo_mounted" by code_simp
  then show "mountd_reachable demo_env demo_two" unfolding demo_two_def
    by (intro mountd_reachable.turn demo_mounted_reachable)
       (auto simp: valid_dev_def demo_dev_def nullable_def)
  show "map (\<lambda>d. (dev_path d, is_mounted d, mount_point d)) (devices demo_two) =
     [(''/dev/sdb1'', True, ''/media/alice/STICK''), (''/dev/sdd1'', True, ''/media/alice/STICK'')]"
    by code_simp
qed

text \<open>
  \<^verbatim>\<open>linux_eject\<close> finds the disk of a partition by cutting the trailing digits off the last
  path component: right for names such as \<^verbatim>\<open>sdb1\<close> (a disk name that does not end in a digit,
  followed by the partition number), whatever the directory.
\<close>

theorem disk_name_strips_partition:
  assumes "CHR ''/'' \<notin> set disk" and "disk \<noteq> []" and "last disk \<notin> set ''0123456789''"
    and "set n \<subseteq> set ''0123456789''" and "length (disk @ n) < 64"
  shows "disk_name (dir @ ''/'' @ disk @ n) = Some disk"
proof -
  have nos: "CHR ''/'' \<notin> set (disk @ n)" using assms(1,4) by auto
  have b: "strrchr_after (CHR ''/'') (dir @ ''/'' @ disk @ n) = Some (disk @ n)"
  proof -
    have "takeWhile (\<lambda>x. x \<noteq> CHR ''/'') (rev (disk @ n) @ CHR ''/'' # rev dir) = rev (disk @ n)"
      using nos by (subst takeWhile_append2) (auto simp del: rev_append)
    then show ?thesis by (simp add: strrchr_after_def)
  qed
  have d: "strip_digits (disk @ n) = disk"
  proof -
    let ?P = "\<lambda>c. c \<in> set ''0123456789''"
    have "dropWhile ?P (rev n @ rev disk) = dropWhile ?P (rev disk)"
    proof (rule dropWhile_append2)
      fix c assume "c \<in> set (rev n)"
      then show "?P c" using assms(4) unfolding set_rev by (rule subsetD [rotated])
    qed
    also have "\<dots> = rev disk"
    proof (cases disk rule: rev_cases)
      case (snoc xs x)
      with assms(3) have "\<not> ?P x" by simp
      then show ?thesis unfolding snoc rev_append by (simp only: dropWhile.simps rev.simps append.simps if_False)
    qed simp
    finally show ?thesis unfolding strip_digits_def rev_append by (simp only: rev_rev_ident)
  qed
  from b d assms(5) show ?thesis by (simp add: disk_name_def cbuf)
qed

theorem disk_name_strips_partition_witness: "disk_name ''/dev/sdb1'' = Some ''sdb''"
  using disk_name_strips_partition [of "''sdb''" "''1''" "''/dev''"] by simp

text \<open>
  For names whose partition number follows a letter p the digits alone are cut, which leaves no
  existing disk: an SD card's first partition gives \<^verbatim>\<open>mmcblk0p\<close>.
\<close>

lemma disk_name_mmc: "disk_name ''/dev/mmcblk0p1'' = Some ''mmcblk0p''"
  by code_simp

end
