(* ===== verification/Dm_State.thy ===== *)
theory Dm_State
  imports Prelude
begin

section \<open>isde-dm: state, processes, locking\<close>

text \<open>
  The display manager's state (\<^verbatim>\<open>dm/src/dm.h\<close>), the greeter and X server processes
  (\<^verbatim>\<open>greeter_proc.c\<close>, \<^verbatim>\<open>session.c\<close>), authentication (\<^verbatim>\<open>auth.c\<close>), the user
  session, power (\<^verbatim>\<open>power.c\<close>), and lock and unlock (\<^verbatim>\<open>dm.c\<close>). As in the disk
  daemon, every call that leaves the program is appended to a trace (\<open>dtrace\<close>) and answered by
  an environment that sees the whole history. Descriptors and pids are \<open>int\<close>, with -1 and 0 for
  none, as in the C code.
\<close>

subsection \<open>Data\<close>

datatype dsig = SIGTERM | SIGKILL

datatype child =
    XserverChild cstr cstr int
  | GreeterChild cstr "cstr option"
  | SessionChild cstr cstr

datatype dcall =
    DFork child
  | DKill int dsig
  | DWaitpid int bool
  | DClose int
  | DAccept int
  | DRead int int
  | DSend int cstr
  | DAccess cstr
  | DXcbConnect cstr
  | DRandom
  | DWriteFile cstr "8 word list"
  | DPamStart cstr
  | DPamAuthenticate cstr cstr
  | DPamAcctMgmt cstr
  | DPamSetcred cstr bool
  | DPamOpenSession cstr
  | DPamCloseSession cstr
  | DGetpwnam cstr
  | DDesktopLoad cstr
  | DScanDir cstr
  | DSwitchVt int
  | DSeatDisable
  | DSeatDispatch
  | DShutdown
  | DReboot
  | DSuspend
  | DConfigWrite cstr cstr cstr
  | DSignal cstr "cstr list"
  | DUnlink cstr

record dpasswd =
  dpw_name :: cstr
  dpw_uid :: nat
  dpw_gid :: nat
  dpw_dir :: cstr
  dpw_shell :: "cstr option"

text \<open>
  \<open>d_ret\<close> is the integer result of the last call of the history: a pid, a descriptor, a PAM
  code (0 is \<^verbatim>\<open>PAM_SUCCESS\<close>) or 0 / non-zero. \<open>d_read\<close> is what a read returns: \<open>Inr\<close> of
  the bytes, or \<open>Inl\<close> of whether the error is transient (\<^verbatim>\<open>EAGAIN\<close>, \<^verbatim>\<open>EINTR\<close>).
\<close>

record denv =
  d_ret :: "dcall list \<Rightarrow> int"
  d_read :: "dcall list \<Rightarrow> bool + cstr"
  d_random :: "dcall list \<Rightarrow> 8 word list option"
  d_pam_strerror :: "int \<Rightarrow> cstr"
  d_passwd :: "dcall list \<Rightarrow> dpasswd option"
  d_desktop :: "dcall list \<Rightarrow> (cstr option) option"
  d_scan :: "dcall list \<Rightarrow> (cstr option \<times> cstr option) list"
  d_data_dirs :: cstr
  d_rundir :: cstr

record dm =
  greeter_cmd :: cstr
  default_session :: "cstr option"
  xserver_cmd :: cstr
  allow_shutdown :: bool
  allow_reboot :: bool
  allow_suspend :: bool
  dev_mode :: bool
  clock_time_fmt :: cstr
  clock_date_fmt :: cstr
  seat :: bool
  seat_active :: bool
  greeter_vt :: int
  xserver_pid :: int
  display_num :: int
  display :: cstr
  xauth_path :: cstr
  xauth_cookie :: "8 word list"
  greeter_pid :: int
  session_pid :: int
  session_user :: "cstr option"
  session_desktop :: "cstr option"
  session_vt :: int
  locked :: bool
  ipc_listen_fd :: int
  ipc_client_fd :: int
  ipc_buf :: cstr
  ipc_buf_len :: int
  dm_dbus :: bool
  lid_fd :: int
  lid_closed :: bool
  dm_running :: bool
  dtrace :: "dcall list"

definition dlog :: "dcall \<Rightarrow> dm \<Rightarrow> dm" where
  "dlog c s = s\<lparr>dtrace := dtrace s @ [c]\<rparr>"

definition dsys :: "denv \<Rightarrow> dcall \<Rightarrow> dm \<Rightarrow> int \<times> dm" where
  "dsys env c s = (let s' = dlog c s in (d_ret env (dtrace s'), s'))"

lemma dsys_eq: "dsys env c s = (d_ret env (dtrace s @ [c]), dlog c s)"
  by (simp add: dsys_def dlog_def Let_def)

subsection \<open>Signals on the bus\<close>

definition emit_signal :: "cstr \<Rightarrow> cstr list \<Rightarrow> dm \<Rightarrow> dm" where
  "emit_signal name args s = (if dm_dbus s then dlog (DSignal name args) s else s)"

definition dm_dbus_emit_session_started :: "cstr \<Rightarrow> cstr \<Rightarrow> dm \<Rightarrow> dm" where
  "dm_dbus_emit_session_started user sess = emit_signal ''SessionStarted'' [user, sess]"
definition dm_dbus_emit_session_ended :: "cstr \<Rightarrow> dm \<Rightarrow> dm" where
  "dm_dbus_emit_session_ended user = emit_signal ''SessionEnded'' [user]"
definition dm_dbus_emit_locked :: "dm \<Rightarrow> dm" where
  "dm_dbus_emit_locked = emit_signal ''Locked'' []"
definition dm_dbus_emit_unlocked :: "dm \<Rightarrow> dm" where
  "dm_dbus_emit_unlocked = emit_signal ''Unlocked'' []"
definition dm_dbus_emit_lid_switch :: "bool \<Rightarrow> dm \<Rightarrow> dm" where
  "dm_dbus_emit_lid_switch closed = emit_signal ''LidSwitchChanged'' [if closed then ''true'' else ''false'']"

subsection \<open>The greeter process\<close>

text \<open>
  The child of the fork execs the greeter, with \<^verbatim>\<open>--lock user\<close> when the session is locked: what
  it would exec is recorded in the fork. The result is whether the C function returned 0.
\<close>

definition dm_greeter_start :: "denv \<Rightarrow> dm \<Rightarrow> bool \<times> dm" where
  "dm_greeter_start env s =
     (if greeter_pid s > 0 then (True, s)
      else
        let lock_user = (if locked s then session_user s else None);
            (pid, s) = dsys env (DFork (GreeterChild (greeter_cmd s) lock_user)) s in
        if pid < 0 then (False, s)
        else (True, s\<lparr>greeter_pid := pid\<rparr>))"

text \<open>Ten polls 50 ms apart for the terminated greeter to be reaped.\<close>

fun wait_exit :: "nat \<Rightarrow> denv \<Rightarrow> int \<Rightarrow> dm \<Rightarrow> bool \<times> dm" where
  "wait_exit 0 env pid s = (False, s)"
| "wait_exit (Suc n) env pid s =
     (let (r, s) = dsys env (DWaitpid pid True) s in
      if r = pid then (True, s) else wait_exit n env pid s)"

definition dm_greeter_stop :: "denv \<Rightarrow> dm \<Rightarrow> dm" where
  "dm_greeter_stop env s =
     (if greeter_pid s \<le> 0 then s
      else
        let pid = greeter_pid s;
            s = dlog (DKill pid SIGTERM) s;
            (exited, s) = wait_exit 10 env pid s;
            s = (if \<not> exited then dlog (DWaitpid pid False) (dlog (DKill pid SIGKILL) s) else s);
            s = s\<lparr>greeter_pid := 0\<rparr> in
        if ipc_client_fd s \<ge> 0
        then (dlog (DClose (ipc_client_fd s)) s)\<lparr>ipc_client_fd := -1, ipc_buf_len := 0\<rparr>
        else s)"

subsection \<open>The X server\<close>

definition be16 :: "nat \<Rightarrow> 8 word list" where
  "be16 n = [word_of_nat (n div 256 mod 256), word_of_nat (n mod 256)]"

definition bytes_of :: "cstr \<Rightarrow> 8 word list" where
  "bytes_of s = map (\<lambda>c. word_of_nat (of_char c)) s"

definition PROTO :: cstr where "PROTO = ''MIT-MAGIC-COOKIE-1''"

text \<open>The Xauthority record that \<^verbatim>\<open>generate_xauth\<close> writes: family, address, display, name, cookie.\<close>

definition xauth_record :: "int \<Rightarrow> 8 word list \<Rightarrow> 8 word list" where
  "xauth_record dnum cookie =
     (let display_str = snprintf 8 (dec_of_int dnum);
          dlen = length (dec_of_int dnum) in
      [255, 255] @ [0, 0] @ be16 dlen @ bytes_of (take dlen display_str) @
      be16 (length PROTO) @ bytes_of PROTO @ be16 16 @ cookie)"

definition generate_xauth :: "denv \<Rightarrow> dm \<Rightarrow> bool \<times> dm" where
  "generate_xauth env s =
     (let s = dlog DRandom s in
      case d_random env (dtrace s) of
        None \<Rightarrow> (False, s)
      | Some bs \<Rightarrow>
          if length bs \<noteq> 16 then (False, s)
          else
            let s = s\<lparr>xauth_cookie := bs, xauth_path := snprintf 256 (d_rundir env @ ''/Xauthority'')\<rparr>;
                (r, s) = dsys env (DWriteFile (xauth_path s) (xauth_record (display_num s) bs)) s in
            if r < 0 then (False, s) else (True, s))"

fun find_free_display_from :: "nat \<Rightarrow> int \<Rightarrow> denv \<Rightarrow> dm \<Rightarrow> int \<times> dm" where
  "find_free_display_from 0 i env s = (-1, s)"
| "find_free_display_from (Suc n) i env s =
     (let (r, s) = dsys env (DAccess (snprintf 64 (''/tmp/.X'' @ dec_of_int i @ ''-lock''))) s in
      if r \<noteq> 0 then (i, s) else find_free_display_from n (i + 1) env s)"

definition find_free_display :: "denv \<Rightarrow> dm \<Rightarrow> int \<times> dm" where
  "find_free_display env s = find_free_display_from 63 1 env s"

definition dm_xserver_start :: "denv \<Rightarrow> int \<Rightarrow> dm \<Rightarrow> bool \<times> dm" where
  "dm_xserver_start env vt s =
     (let (free, s) = (if dev_mode s then find_free_display env s else (display_num s, s)) in
      if free < 0 \<and> dev_mode s then (False, s)
      else
        let s = s\<lparr>display_num := free\<rparr>;
            s = s\<lparr>display := snprintf 16 ('':'' @ dec_of_int (display_num s))\<rparr>;
            (ok, s) = generate_xauth env s in
        if \<not> ok then (False, s)
        else
          let (pid, s) = dsys env (DFork (XserverChild (xserver_cmd s) (display s) vt)) s in
          if pid < 0 then (False, s)
          else (True, s\<lparr>xserver_pid := pid\<rparr>))"

definition dm_xserver_stop :: "dm \<Rightarrow> dm" where
  "dm_xserver_stop s =
     (if xserver_pid s > 0
      then dlog (DKill (xserver_pid s) SIGKILL) (dlog (DKill (xserver_pid s) SIGTERM) s)
      else s)"

text \<open>At most 50 polls, 100 ms apart, for the lock file and a working connection.\<close>

fun xserver_poll :: "nat \<Rightarrow> denv \<Rightarrow> cstr \<Rightarrow> dm \<Rightarrow> bool \<times> dm" where
  "xserver_poll 0 env lockfile s = (False, s)"
| "xserver_poll (Suc n) env lockfile s =
     (let (r, s) = dsys env (DAccess lockfile) s;
          (ready, s) = (if r = 0 then let (r, s) = dsys env (DXcbConnect (display s)) s in (r = 0, s)
                        else (False, s)) in
      if ready then (True, s)
      else if xserver_pid s = 0 then (False, s)
      else xserver_poll n env lockfile s)"

definition dm_xserver_ready :: "denv \<Rightarrow> dm \<Rightarrow> bool \<times> dm" where
  "dm_xserver_ready env s =
     xserver_poll 50 env (snprintf 64 (''/tmp/.X'' @ dec_of_int (display_num s) @ ''-lock'')) s"

subsection \<open>PAM\<close>

definition PAM_SUCCESS :: int where "PAM_SUCCESS = 0"

definition dm_auth_check :: "denv \<Rightarrow> cstr \<Rightarrow> cstr \<Rightarrow> nat \<Rightarrow> dm \<Rightarrow> (cstr + unit) \<times> dm" where
  "dm_auth_check env user pass errlen s =
     (let (r, s) = dsys env (DPamStart user) s in
      if r \<noteq> PAM_SUCCESS then (Inl (snprintf errlen (d_pam_strerror env r)), s)
      else
        let (r, s) = dsys env (DPamAuthenticate user pass) s in
        if r \<noteq> PAM_SUCCESS then (Inl (snprintf errlen (d_pam_strerror env r)), s)
        else
          let (r, s) = dsys env (DPamAcctMgmt user) s in
          if r \<noteq> PAM_SUCCESS then (Inl (snprintf errlen (d_pam_strerror env r)), s)
          else (Inr (), s))"

definition dm_auth_start_session :: "denv \<Rightarrow> cstr \<Rightarrow> dm \<Rightarrow> bool \<times> dm" where
  "dm_auth_start_session env user s =
     (let (r, s) = dsys env (DPamStart user) s in
      if r \<noteq> PAM_SUCCESS then (False, s)
      else
        let (r, s) = dsys env (DPamSetcred user True) s in
        if r \<noteq> PAM_SUCCESS then (False, s)
        else
          let (r, s) = dsys env (DPamOpenSession user) s in
          if r \<noteq> PAM_SUCCESS then (False, dlog (DPamSetcred user False) s)
          else (True, s))"

definition dm_auth_end_session :: "cstr \<Rightarrow> dm \<Rightarrow> dm" where
  "dm_auth_end_session user s = dlog (DPamSetcred user False) (dlog (DPamCloseSession user) s)"

subsection \<open>The user session\<close>

text \<open>The non-empty entries of a colon-separated list, as the loops over \<^verbatim>\<open>XDG_DATA_DIRS\<close> see them.\<close>

fun colon_dirs :: "cstr \<Rightarrow> cstr \<Rightarrow> cstr list" where
  "colon_dirs cur [] = (if cur = [] then [] else [cur])"
| "colon_dirs cur (c # cs) =
     (if c = CHR '':'' then (if cur = [] then colon_dirs [] cs else cur # colon_dirs [] cs)
      else colon_dirs (cur @ [c]) cs)"

fun find_session_in :: "denv \<Rightarrow> cstr \<Rightarrow> cstr list \<Rightarrow> dm \<Rightarrow> cstr option \<times> dm" where
  "find_session_in env name [] s = (None, s)"
| "find_session_in env name (d # ds) s =
     (let s = dlog (DDesktopLoad (snprintf 512 (d @ ''/xsessions/'' @ name))) s in
      case d_desktop env (dtrace s) of
        Some exec \<Rightarrow> (exec, s)
      | None \<Rightarrow> find_session_in env name ds s)"

definition find_session_exec :: "denv \<Rightarrow> cstr \<Rightarrow> dm \<Rightarrow> cstr option \<times> dm" where
  "find_session_exec env name s = find_session_in env name (colon_dirs [] (d_data_dirs env)) s"

definition dm_session_start :: "denv \<Rightarrow> cstr \<Rightarrow> cstr \<Rightarrow> dm \<Rightarrow> bool \<times> dm" where
  "dm_session_start env user desktop s =
     (let s = dlog (DGetpwnam user) s in
      case d_passwd env (dtrace s) of
        None \<Rightarrow> (False, s)
      | Some pw \<Rightarrow>
          let (exec, s) = find_session_exec env desktop s in
          case exec of
            None \<Rightarrow> (False, s)
          | Some cmd \<Rightarrow>
              let (pam, s) = dm_auth_start_session env user s;
                  (pid, s) = dsys env (DFork (SessionChild user cmd)) s in
              if pid < 0 then (False, if pam then dm_auth_end_session user s else s)
              else
                let s = s\<lparr>session_pid := pid, session_user := Some user, session_desktop := Some desktop\<rparr> in
                (True, dm_dbus_emit_session_started user desktop s))"

definition dm_session_cleanup :: "denv \<Rightarrow> dm \<Rightarrow> dm" where
  "dm_session_cleanup env s =
     (let s = dm_dbus_emit_session_ended (case session_user s of None \<Rightarrow> [] | Some u \<Rightarrow> u) s;
          s = s\<lparr>session_pid := 0, locked := False, session_user := None\<rparr> in
      snd (dm_greeter_start env s))"

subsection \<open>Lock, unlock, power\<close>

definition dm_lock_session :: "denv \<Rightarrow> dm \<Rightarrow> dm" where
  "dm_lock_session env s =
     (if locked s then s
      else if session_pid s = 0 \<or> session_user s = None then s
      else
        let s = s\<lparr>locked := True\<rparr>;
            s = (if greeter_pid s = 0 then snd (dm_greeter_start env s) else s);
            s = (if \<not> dev_mode s \<and> seat s then dlog (DSwitchVt (greeter_vt s)) s else s) in
        dm_dbus_emit_locked s)"

definition dm_unlock_session :: "denv \<Rightarrow> dm \<Rightarrow> dm" where
  "dm_unlock_session env s =
     (if \<not> locked s then s
      else
        let s = s\<lparr>locked := False\<rparr>;
            s = dm_greeter_stop env s;
            s = (if \<not> dev_mode s \<and> seat s \<and> session_vt s > 0 then dlog (DSwitchVt (session_vt s)) s else s) in
        dm_dbus_emit_unlocked s)"

definition kill_if :: "int \<Rightarrow> dsig \<Rightarrow> dm \<Rightarrow> dm" where
  "kill_if pid sig s = (if pid > 0 then dlog (DKill pid sig) s else s)"

definition dm_kill_sessions :: "dm \<Rightarrow> dm" where
  "dm_kill_sessions s =
     kill_if (greeter_pid s) SIGKILL (kill_if (session_pid s) SIGKILL
       (kill_if (greeter_pid s) SIGTERM (kill_if (session_pid s) SIGTERM s)))"

definition dm_power_shutdown :: "dm \<Rightarrow> dm" where
  "dm_power_shutdown s = dlog DShutdown ((dm_xserver_stop (dm_kill_sessions s))\<lparr>dm_running := False\<rparr>)"

definition dm_power_reboot :: "dm \<Rightarrow> dm" where
  "dm_power_reboot s = dlog DReboot ((dm_xserver_stop (dm_kill_sessions s))\<lparr>dm_running := False\<rparr>)"

definition dm_power_suspend :: "dm \<Rightarrow> dm" where
  "dm_power_suspend s =
     (let s = (if seat s then dlog DSeatDisable s else s);
          s = dlog DSuspend s in
      if seat s then dlog DSeatDispatch s else s)"

end
