(* ===== verification/Dm_Ipc.thy ===== *)
theory Dm_Ipc
  imports Dm_State
begin

section \<open>isde-dm: the greeter protocol\<close>

text \<open>
  \<^verbatim>\<open>dm/src/ipc.c\<close>: the line protocol on the Unix socket between the greeter and the daemon.
  The receive buffer is the list of its bytes; \<open>ipc_scan\<close> is the loop of \<^verbatim>\<open>strchr\<close> calls that
  cuts it into lines, which stops at a NUL byte as \<^verbatim>\<open>strchr\<close> does.
\<close>

subsection \<open>Connections\<close>

definition DM_IPC_MAX_MSG :: int where "DM_IPC_MAX_MSG = 4096"
definition DM_IPC_MAX_USER :: nat where "DM_IPC_MAX_USER = 256"
definition DM_IPC_MAX_PASS :: nat where "DM_IPC_MAX_PASS = 1024"

definition dm_ipc_cleanup :: "denv \<Rightarrow> dm \<Rightarrow> dm" where
  "dm_ipc_cleanup env s =
     (let s = (if ipc_client_fd s \<ge> 0 then (dlog (DClose (ipc_client_fd s)) s)\<lparr>ipc_client_fd := -1\<rparr> else s);
          s = (if ipc_listen_fd s \<ge> 0 then (dlog (DClose (ipc_listen_fd s)) s)\<lparr>ipc_listen_fd := -1\<rparr> else s) in
      dlog (DUnlink (snprintf 512 (d_rundir env @ ''/greeter.sock''))) s)"

definition dm_ipc_accept :: "denv \<Rightarrow> dm \<Rightarrow> dm" where
  "dm_ipc_accept env s =
     (let (fd, s) = dsys env (DAccept (ipc_listen_fd s)) s in
      if fd < 0 then s
      else
        let s = (if ipc_client_fd s \<ge> 0 then dlog (DClose (ipc_client_fd s)) s else s) in
        s\<lparr>ipc_client_fd := fd, ipc_buf_len := 0\<rparr>)"

text \<open>
  \<^verbatim>\<open>dm_ipc_send\<close>: the message with a newline, if it fits the buffer. No caller looks at the
  result, so the write loop is one call here.
\<close>

definition dm_ipc_send :: "cstr \<Rightarrow> dm \<Rightarrow> dm" where
  "dm_ipc_send msg s =
     (if ipc_client_fd s < 0 then s
      else if int (length msg) + 1 > DM_IPC_MAX_MSG then s
      else dlog (DSend (ipc_client_fd s) (msg @ [CHR 0x0A])) s)"

subsection \<open>Messages\<close>

definition handle_auth :: "denv \<Rightarrow> cstr \<Rightarrow> dm \<Rightarrow> dm" where
  "handle_auth env args s =
     (case strchr_split (CHR '' '') args of
        None \<Rightarrow> dm_ipc_send ''AUTH_FAIL Invalid request'' s
      | Some (user, pass) \<Rightarrow>
          if length user \<ge> DM_IPC_MAX_USER then dm_ipc_send ''AUTH_FAIL Username too long'' s
          else if length pass \<ge> DM_IPC_MAX_PASS then dm_ipc_send ''AUTH_FAIL Password too long'' s
          else
            let (r, s) = dm_auth_check env user pass 256 s in
            case r of
              Inl e \<Rightarrow> dm_ipc_send (snprintf 512 (''AUTH_FAIL '' @ e)) s
            | Inr _ \<Rightarrow>
                let desktop = (case session_desktop s of None \<Rightarrow> default_session s | Some d \<Rightarrow> Some d);
                    s = dm_ipc_send ''AUTH_OK'' s in
                if locked s then
                  (if session_user s = Some user then dm_unlock_session env s else s)
                else
                  (case desktop of
                     None \<Rightarrow> dm_ipc_send ''AUTH_FAIL no session configured'' s
                   | Some d \<Rightarrow> snd (dm_session_start env user d (dm_greeter_stop env s))))"

definition handle_session :: "cstr \<Rightarrow> dm \<Rightarrow> dm" where
  "handle_session args s = s\<lparr>session_desktop := Some args\<rparr>"

text \<open>
  The session list: \<open>off\<close> is the C variable, which grows by what \<^verbatim>\<open>snprintf\<close> would have
  written; the buffer keeps what fitted.
\<close>

fun scan_all :: "denv \<Rightarrow> cstr list \<Rightarrow> dm \<Rightarrow> (cstr option \<times> cstr option) list \<times> dm" where
  "scan_all env [] s = ([], s)"
| "scan_all env (d # ds) s =
     (let s = dlog (DScanDir (snprintf 512 (d @ ''/xsessions''))) s;
          es = d_scan env (dtrace s);
          (rest, s) = scan_all env ds s in
      (es @ rest, s))"

fun append_sessions :: "(cstr option \<times> cstr option) list \<Rightarrow> int \<Rightarrow> cstr \<Rightarrow> int \<times> cstr" where
  "append_sessions [] off buf = (off, buf)"
| "append_sessions ((name, file) # es) off buf =
     (if off < DM_IPC_MAX_MSG - 128 then
        (case (name, file) of
           (Some n, Some f) \<Rightarrow>
             let entry = n @ [CHR 0x09] @ f @ [CHR 0x0A] in
             append_sessions es (off + int (length entry))
               (buf @ snprintf (nat (DM_IPC_MAX_MSG - off)) entry)
         | _ \<Rightarrow> append_sessions es off buf)
      else (off, buf))"

definition sessions_reply :: "(cstr option \<times> cstr option) list \<Rightarrow> int \<times> cstr" where
  "sessions_reply es =
     (let hdr = ''SESSIONS '' @ dec_of_nat (length es) @ [CHR 0x0A] in
      append_sessions es (int (length hdr)) hdr)"

definition handle_list_sessions :: "denv \<Rightarrow> dm \<Rightarrow> dm" where
  "handle_list_sessions env s =
     (let (es, s) = scan_all env (colon_dirs [] (d_data_dirs env)) s;
          (off, buf) = sessions_reply es;
          msg = (if buf \<noteq> [] \<and> off \<le> int (length buf) \<and> last buf = CHR 0x0A then butlast buf else buf) in
      dm_ipc_send msg s)"

definition starts_with :: "cstr \<Rightarrow> cstr \<Rightarrow> bool" where
  "starts_with s p \<longleftrightarrow> take (length p) s = p"

definition dispatch_message :: "denv \<Rightarrow> cstr \<Rightarrow> dm \<Rightarrow> dm" where
  "dispatch_message env line s =
     (if starts_with line ''AUTH '' then handle_auth env (drop 5 line) s
      else if starts_with line ''SESSION '' then handle_session (drop 8 line) s
      else if line = ''LIST_SESSIONS'' then handle_list_sessions env s
      else if line = ''SHUTDOWN'' then (if allow_shutdown s then dm_power_shutdown s else s)
      else if line = ''REBOOT'' then (if allow_reboot s then dm_power_reboot s else s)
      else if line = ''SUSPEND'' then (if allow_suspend s then dm_power_suspend s else s)
      else if line = ''CANCEL_LOCK'' then dm_unlock_session env s
      else s)"

subsection \<open>Receiving\<close>

fun ipc_scan :: "cstr \<Rightarrow> cstr \<Rightarrow> cstr list \<times> cstr" where
  "ipc_scan line [] = ([], line)"
| "ipc_scan line (c # cs) =
     (if c = CHR 0x00 then ([], line @ c # cs)
      else if c = CHR 0x0A then (let (ls, r) = ipc_scan [] cs in (line # ls, r))
      else ipc_scan (line @ [c]) cs)"

definition dispatch_lines :: "denv \<Rightarrow> cstr list \<Rightarrow> dm \<Rightarrow> dm" where
  "dispatch_lines env ls s = fold (\<lambda>l s. if l \<noteq> [] then dispatch_message env l s else s) ls s"

definition drop_client :: "dm \<Rightarrow> dm" where
  "drop_client s = (dlog (DClose (ipc_client_fd s)) s)\<lparr>ipc_client_fd := -1, ipc_buf_len := 0\<rparr>"

text \<open>
  The second half of \<^verbatim>\<open>dm_ipc_handle\<close>: with \<open>content\<close> in the buffer, dispatch each complete
  line and move what remains to the front. \<open>ipc_buf_len\<close> is read again after the loop, because
  a dispatched message may have closed the connection and reset it.
\<close>

definition ipc_consume :: "denv \<Rightarrow> cstr \<Rightarrow> dm \<Rightarrow> dm" where
  "ipc_consume env content s =
     (let (ls, rest) = ipc_scan [] content;
          s = dispatch_lines env ls s;
          start = int (length content) - int (length rest);
          remaining = ipc_buf_len s - start;
          s = (if remaining > 0 \<and> start \<noteq> 0 then s\<lparr>ipc_buf := take (nat remaining) rest\<rparr> else s) in
      s\<lparr>ipc_buf_len := remaining\<rparr>)"

definition dm_ipc_handle :: "denv \<Rightarrow> dm \<Rightarrow> dm" where
  "dm_ipc_handle env s =
     (if ipc_client_fd s < 0 then s
      else
        let space = DM_IPC_MAX_MSG - ipc_buf_len s - 1 in
        if space \<le> 0 then drop_client s
        else
          let s = dlog (DRead (ipc_client_fd s) space) s in
          case d_read env (dtrace s) of
            Inl transient \<Rightarrow> if transient then s else drop_client s
          | Inr data \<Rightarrow>
              let n = take (nat space) data in
              if n = [] then drop_client s
              else
                let content = take (nat (ipc_buf_len s)) (ipc_buf s) @ n in
                ipc_consume env content
                  (s\<lparr>ipc_buf := content, ipc_buf_len := ipc_buf_len s + int (length n)\<rparr>))"

end
