(* ===== verification/Dm_Run.thy ===== *)
theory Dm_Run
  imports Dm_Ipc
begin

section \<open>isde-dm: the session child, D-Bus methods, start-up and the event loop\<close>

text \<open>
  The child process of \<^verbatim>\<open>dm_session_start\<close> (\<^verbatim>\<open>session.c\<close>), the methods of
  \<^verbatim>\<open>dm/src/dbus.c\<close>, the seat callbacks of \<^verbatim>\<open>seat.c\<close>, and \<^verbatim>\<open>dm_init\<close>,
  \<^verbatim>\<open>dm_run\<close> and \<^verbatim>\<open>dm_cleanup\<close> of \<^verbatim>\<open>dm.c\<close>. One turn of the loop takes what the poll
  found (exited children, seat callbacks, a readable IPC socket, bus messages, lid readings) and
  ends with the two restart rules.
\<close>

subsection \<open>The child that becomes the user's session\<close>

datatype cact =
    ClearEnv
  | SetEnv cstr cstr
  | CopyXauth cstr cstr nat nat
  | MkDir cstr nat
  | ChOwn cstr nat nat
  | InitGroups cstr nat
  | SetGid nat
  | SetUid nat
  | ChDir cstr
  | Exec "cstr list"
  | ExitChild int

text \<open>\<open>c_ret\<close> gives the result of the last action of the child's log; an action is appended by \<open>act\<close>.\<close>

definition act :: "cact \<Rightarrow> cact list \<Rightarrow> cact list" where
  "act a log = log @ [a]"

definition child_env :: "cstr \<Rightarrow> cstr option \<Rightarrow> dm \<Rightarrow> dpasswd \<Rightarrow> cact list" where
  "child_env runtime_base path s pw =
     (let saved_path = (if dev_mode s then (case path of None \<Rightarrow> [] | Some p \<Rightarrow> snprintf 1024 p) else []);
          user_xauth = snprintf 512 (dpw_dir pw @ ''/.Xauthority'');
          xdg_rt = snprintf 512 (runtime_base @ ''/'' @ dec_of_nat (dpw_uid pw)) in
      [ClearEnv, SetEnv ''DISPLAY'' (display s)] @
      (if dev_mode s then [SetEnv ''XAUTHORITY'' (xauth_path s)]
       else [CopyXauth (xauth_path s) user_xauth (dpw_uid pw) (dpw_gid pw), SetEnv ''XAUTHORITY'' user_xauth]) @
      [SetEnv ''HOME'' (dpw_dir pw), SetEnv ''USER'' (dpw_name pw), SetEnv ''LOGNAME'' (dpw_name pw),
       SetEnv ''SHELL'' (case dpw_shell pw of None \<Rightarrow> ''/bin/sh'' | Some sh \<Rightarrow> sh),
       SetEnv ''PATH'' (if dev_mode s \<and> saved_path \<noteq> [] then saved_path else ''/usr/local/bin:/usr/bin:/bin''),
       SetEnv ''XDG_SESSION_TYPE'' ''x11'', SetEnv ''XDG_SEAT'' ''seat0'',
       SetEnv ''XDG_VTNR'' (snprintf 8 (dec_of_int (greeter_vt s))),
       SetEnv ''XDG_CONFIG_HOME'' (snprintf 512 (dpw_dir pw @ ''/.config'')),
       SetEnv ''XDG_DATA_HOME'' (snprintf 512 (dpw_dir pw @ ''/.local/share'')),
       SetEnv ''XDG_CACHE_HOME'' (snprintf 512 (dpw_dir pw @ ''/.cache'')),
       SetEnv ''XDG_RUNTIME_DIR'' xdg_rt,
       MkDir runtime_base 493, MkDir xdg_rt 448, ChOwn xdg_rt (dpw_uid pw) (dpw_gid pw)])"

text \<open>The short-circuit chain \<^verbatim>\<open>initgroups || setgid || setuid\<close>, then chdir and exec.\<close>

definition child_exec :: "(cact list \<Rightarrow> int) \<Rightarrow> dpasswd \<Rightarrow> cstr \<Rightarrow> cact list \<Rightarrow> cact list" where
  "child_exec c_ret pw cmd log =
     (let log = act (ChDir (dpw_dir pw)) log;
          log = (if c_ret log \<noteq> 0 then act (ChDir ''/'') log else log);
          log = act (Exec [''dbus-launch'', ''--exit-with-session'', ''sh'', ''-c'', cmd]) log in
      if c_ret log \<noteq> 0 then act (ExitChild 1) log else log)"

definition session_child ::
  "(cact list \<Rightarrow> int) \<Rightarrow> cstr \<Rightarrow> cstr option \<Rightarrow> dm \<Rightarrow> dpasswd \<Rightarrow> cstr \<Rightarrow> cact list" where
  "session_child c_ret runtime_base path s pw cmd =
     (let log = child_env runtime_base path s pw in
      if dev_mode s then child_exec c_ret pw cmd log
      else
        let log = act (InitGroups (dpw_name pw) (dpw_gid pw)) log in
        if c_ret log \<noteq> 0 then act (ExitChild 1) log
        else
          let log = act (SetGid (dpw_gid pw)) log in
          if c_ret log \<noteq> 0 then act (ExitChild 1) log
          else
            let log = act (SetUid (dpw_uid pw)) log in
            if c_ret log \<noteq> 0 then act (ExitChild 1) log
            else child_exec c_ret pw cmd log)"

subsection \<open>D-Bus methods\<close>

record ddbus_msg =
  dm_is_call :: bool
  dm_iface :: "cstr option"
  dm_member :: "cstr option"
  dm_get_s :: "cstr option"
  dm_get_ss :: "(cstr \<times> cstr) option"

datatype ddbus_reply = DEmpty | DError cstr cstr | DConfig "(cstr \<times> cstr) list" | DIntrospect

datatype ddbus_handled = DNotYetHandled | DHandled ddbus_reply

definition DM_DBUS_INTERFACE :: cstr where "DM_DBUS_INTERFACE = ''org.isde.DisplayManager''"

text \<open>
  Inside a handler the bus is connected, so the signals it sends itself go straight to the trace.
\<close>

definition set_greeter_config :: "cstr \<Rightarrow> cstr \<Rightarrow> dm \<Rightarrow> dm" where
  "set_greeter_config key val s =
     (if key = ''clock_time_format'' then
        dlog (DSignal ''GreeterConfigChanged'' [key])
          (dlog (DConfigWrite ''clock'' ''time_format'' val) (s\<lparr>clock_time_fmt := val\<rparr>))
      else if key = ''clock_date_format'' then
        dlog (DSignal ''GreeterConfigChanged'' [key])
          (dlog (DConfigWrite ''clock'' ''date_format'' val) (s\<lparr>clock_date_fmt := val\<rparr>))
      else s)"

definition handle_show_confirmation :: "cstr option \<Rightarrow> dm \<Rightarrow> dm" where
  "handle_show_confirmation action s = (case action of
     None \<Rightarrow> s
   | Some a \<Rightarrow> if a \<in> {''shutdown'', ''reboot'', ''suspend'', ''logout''}
               then dlog (DSignal ''ConfirmationRequested'' [a]) s else s)"

definition handle_method :: "denv \<Rightarrow> ddbus_msg \<Rightarrow> dm \<Rightarrow> ddbus_handled \<times> dm" where
  "handle_method env msg s =
     (if \<not> dm_is_call msg then (DNotYetHandled, s)
      else case dm_member msg of
        None \<Rightarrow> (DNotYetHandled, s)
      | Some meth \<Rightarrow>
          if dm_iface msg = Some ''org.freedesktop.DBus.Introspectable'' \<and> meth = ''Introspect''
          then (DHandled DIntrospect, s)
          else if dm_iface msg \<noteq> Some DM_DBUS_INTERFACE then (DNotYetHandled, s)
          else if meth = ''Lock'' then (DHandled DEmpty, dm_lock_session env s)
          else if meth = ''Shutdown'' then
            (DHandled DEmpty, if allow_shutdown s then dm_power_shutdown s else s)
          else if meth = ''Reboot'' then
            (DHandled DEmpty, if allow_reboot s then dm_power_reboot s else s)
          else if meth = ''Suspend'' then
            (DHandled DEmpty, if allow_suspend s then dm_power_suspend s else s)
          else if meth = ''ShowConfirmation'' then (DHandled DEmpty, handle_show_confirmation (dm_get_s msg) s)
          else if meth = ''GetGreeterConfig'' then
            (DHandled (DConfig [(''clock_time_format'', clock_time_fmt s),
                                (''clock_date_format'', clock_date_fmt s)]), s)
          else if meth = ''SetGreeterConfig'' then
            (case dm_get_ss msg of
               None \<Rightarrow> (DHandled (DError ''org.freedesktop.DBus.Error.InvalidArgs''
                          ''Expected (key: s, value: s)''), s)
             | Some (key, val) \<Rightarrow> (DHandled DEmpty, set_greeter_config key val s))
          else (DHandled (DError ''org.freedesktop.DBus.Error.UnknownMethod'' ''Unknown method''), s))"

subsection \<open>Seat, lid, children\<close>

definition on_seat_event :: "bool \<Rightarrow> dm \<Rightarrow> dm" where
  "on_seat_event enable s =
     (if enable then s\<lparr>seat_active := True\<rparr> else dlog DSeatDisable (s\<lparr>seat_active := False\<rparr>))"

definition dm_seat_dispatch :: "bool list \<Rightarrow> dm \<Rightarrow> dm" where
  "dm_seat_dispatch evs s = (if seat s then fold on_seat_event evs s else s)"

definition lid_event :: "bool \<Rightarrow> dm \<Rightarrow> dm" where
  "lid_event closed s =
     (if closed \<noteq> lid_closed s then dm_dbus_emit_lid_switch closed (s\<lparr>lid_closed := closed\<rparr>) else s)"

definition handle_lid_events :: "bool list \<Rightarrow> dm \<Rightarrow> dm" where
  "handle_lid_events readings s = fold lid_event readings s"

definition reap_one :: "denv \<Rightarrow> int \<Rightarrow> dm \<Rightarrow> dm" where
  "reap_one env pid s =
     (if pid = xserver_pid s then s\<lparr>xserver_pid := 0\<rparr>
      else if pid = greeter_pid s then s\<lparr>greeter_pid := 0\<rparr>
      else if pid = session_pid s then dm_session_cleanup env s
      else s)"

definition reap_children :: "denv \<Rightarrow> int list \<Rightarrow> dm \<Rightarrow> dm" where
  "reap_children env pids s = fold (reap_one env) pids s"

subsection \<open>The loop\<close>

record dturn =
  t_children :: "int list"
  t_seat :: "bool list"
  t_ipc :: bool
  t_dbus :: "ddbus_msg list"
  t_lid :: "bool list"

definition restart_greeter :: "denv \<Rightarrow> dm \<Rightarrow> dm" where
  "restart_greeter env s =
     (if greeter_pid s = 0 \<and> session_pid s = 0 \<and> xserver_pid s \<noteq> 0
      then snd (dm_greeter_start env s) else s)"

definition restart_xserver :: "denv \<Rightarrow> dm \<Rightarrow> dm" where
  "restart_xserver env s =
     (if xserver_pid s = 0 \<and> dm_running s then
        let s = dm_greeter_stop env s;
            (ok, s) = dm_xserver_start env (greeter_vt s) s in
        if ok then
          let (ready, s) = dm_xserver_ready env s in
          if ready then snd (dm_greeter_start env s) else s
        else s
      else s)"

definition dm_turn :: "denv \<Rightarrow> dturn \<Rightarrow> dm \<Rightarrow> dm" where
  "dm_turn env t s =
     (let client = ipc_client_fd s \<ge> 0;
          polled = client \<or> ipc_listen_fd s \<ge> 0;
          s = reap_children env (t_children t) s;
          s = dm_seat_dispatch (t_seat t) s;
          s = (if t_ipc t \<and> polled then
                 (if ipc_client_fd s \<ge> 0 then dm_ipc_handle env s else dm_ipc_accept env s)
               else s);
          s = (if dm_dbus s then fold (\<lambda>m s. snd (handle_method env m s)) (t_dbus t) s else s);
          s = (if lid_fd s \<ge> 0 then handle_lid_events (t_lid t) s else s);
          s = restart_greeter env s in
      restart_xserver env s)"

subsection \<open>Start-up and exit\<close>

text \<open>The configuration file as \<^verbatim>\<open>load_config\<close> reads it; \<open>None\<close> for an absent key.\<close>

record dm_config =
  cf_greeter :: "cstr option"
  cf_default_session :: "cstr option"
  cf_allow :: "bool option \<times> bool option \<times> bool option"
  cf_xserver :: "cstr option"
  cf_dev_mode :: "bool option"
  cf_clock :: "(cstr option \<times> cstr option) option"

definition opt :: "'a option \<Rightarrow> 'a \<Rightarrow> 'a" where
  "opt x d = (case x of None \<Rightarrow> d | Some v \<Rightarrow> v)"

definition load_config :: "dm_config option \<Rightarrow> dm \<Rightarrow> dm" where
  "load_config cfg s = (case cfg of
     None \<Rightarrow> s
   | Some c \<Rightarrow>
       let (sd, rb, su) = cf_allow c;
           dev = opt (cf_dev_mode c) False;
           s = s\<lparr>greeter_cmd := opt (cf_greeter c) (greeter_cmd s),
                 default_session := (case cf_default_session c of None \<Rightarrow> default_session s | Some d \<Rightarrow> Some d),
                 allow_shutdown := opt sd True, allow_reboot := opt rb True, allow_suspend := opt su True,
                 xserver_cmd := (case cf_xserver c of
                                   Some x \<Rightarrow> x
                                 | None \<Rightarrow> if dev then ''Xephyr'' else xserver_cmd s),
                 dev_mode := dev\<rparr> in
       case cf_clock c of
         None \<Rightarrow> s
       | Some (tf, df) \<Rightarrow> s\<lparr>clock_time_fmt := opt tf (clock_time_fmt s), clock_date_fmt := opt df (clock_date_fmt s)\<rparr>)"

definition dm_defaults :: dm where
  "dm_defaults = \<lparr>greeter_cmd = ''isde-greeter-x11'', default_session = Some ''isde-x11.desktop'',
     xserver_cmd = ''Xorg'', allow_shutdown = True, allow_reboot = True, allow_suspend = True,
     dev_mode = False, clock_time_fmt = ''%H:%M'', clock_date_fmt = ''%Y-%m-%d'',
     seat = False, seat_active = False, greeter_vt = 0, xserver_pid = 0, display_num = 0,
     display = [], xauth_path = [], xauth_cookie = replicate 16 0, greeter_pid = 0, session_pid = 0,
     session_user = None, session_desktop = None, session_vt = 0, locked = False,
     ipc_listen_fd = -1, ipc_client_fd = -1, ipc_buf = [], ipc_buf_len = 0, dm_dbus = False,
     lid_fd = -1, lid_closed = False, dm_running = False, dtrace = []\<rparr>"

text \<open>What the start-up finds: root, a runtime directory, a pipe, a seat, the lid device, a socket, a bus.\<close>

record dm_boot =
  b_root :: bool
  b_rundir_ok :: bool
  b_pipe_ok :: bool
  b_seat_ok :: bool
  b_lid_fd :: int
  b_listen_fd :: int
  b_dbus_ok :: bool
  b_vt :: int

definition dm_init :: "denv \<Rightarrow> dm_config option \<Rightarrow> dm_boot \<Rightarrow> dm option" where
  "dm_init env cfg b =
     (let s = load_config cfg dm_defaults in
      if \<not> dev_mode s \<and> \<not> b_root b then None
      else if \<not> b_rundir_ok b then None
      else if \<not> b_pipe_ok b then None
      else if \<not> dev_mode s \<and> \<not> b_seat_ok b then None
      else
        let s = (if dev_mode s then s else s\<lparr>seat := True, seat_active := True, lid_fd := b_lid_fd b\<rparr>) in
        if b_listen_fd b < 0 then None
        else
          let s = s\<lparr>ipc_listen_fd := b_listen_fd b, ipc_client_fd := -1, ipc_buf_len := 0,
                    dm_dbus := b_dbus_ok b, greeter_vt := (if dev_mode s then 0 else b_vt b)\<rparr>;
              (ok, s) = dm_xserver_start env (greeter_vt s) s in
          if \<not> ok then None
          else
            let (ready, s) = dm_xserver_ready env s in
            if \<not> ready then None
            else
              let (ok, s) = dm_greeter_start env s in
              if \<not> ok then None else Some (s\<lparr>dm_running := True\<rparr>))"

definition dm_cleanup :: "denv \<Rightarrow> dm \<Rightarrow> dm" where
  "dm_cleanup env s =
     (let s = dm_xserver_stop (dm_greeter_stop env s);
          s = (dm_ipc_cleanup env s)\<lparr>dm_dbus := False, seat := False\<rparr>;
          s = (if lid_fd s \<ge> 0 then (dlog (DClose (lid_fd s)) s)\<lparr>lid_fd := -1\<rparr> else s) in
      dlog (DUnlink (snprintf 512 (d_rundir env @ ''/Xauthority'')))
        (dlog (DUnlink (snprintf 512 (d_rundir env @ ''/greeter.sock''))) s))"

inductive dm_reachable :: "denv \<Rightarrow> dm \<Rightarrow> bool" for env where
  init: "dm_init env cfg b = Some s \<Longrightarrow> dm_reachable env s"
| turn: "dm_reachable env s \<Longrightarrow> dm_running s \<Longrightarrow> list_all (\<lambda>p. p > 0) (t_children t) \<Longrightarrow>
    dm_reachable env (dm_turn env t s)"

end
