(* ===== verification/Dm_Inv.thy ===== *)
theory Dm_Inv
  imports Dm_Run
begin

section \<open>isde-dm: what each operation keeps\<close>

text \<open>
  Two views of the state, the session and the greeter connection, and for each operation which
  of them it leaves alone. The invariants of both follow operation by operation; the
  collection \<open>dm_frame\<close> carries the frame rules.
\<close>

named_theorems dm_frame "views of the display manager's state an operation leaves alone"

subsection \<open>Views\<close>

definition sess :: "dm \<Rightarrow> int \<times> cstr option \<times> bool" where
  "sess s = (session_pid s, session_user s, locked s)"

definition conn :: "dm \<Rightarrow> int \<times> cstr \<times> int" where
  "conn s = (ipc_client_fd s, ipc_buf s, ipc_buf_len s)"

lemma sess_fields [simp]:
  "sess (s\<lparr>dtrace := t\<rparr>) = sess s" "sess (s\<lparr>greeter_pid := p\<rparr>) = sess s"
  "sess (s\<lparr>xserver_pid := p\<rparr>) = sess s" "sess (s\<lparr>display_num := i\<rparr>) = sess s"
  "sess (s\<lparr>display := d\<rparr>) = sess s" "sess (s\<lparr>xauth_cookie := c\<rparr>) = sess s"
  "sess (s\<lparr>xauth_path := d\<rparr>) = sess s" "sess (s\<lparr>ipc_client_fd := f\<rparr>) = sess s"
  "sess (s\<lparr>ipc_buf := d\<rparr>) = sess s" "sess (s\<lparr>ipc_buf_len := f\<rparr>) = sess s"
  "sess (s\<lparr>dm_running := b\<rparr>) = sess s" "sess (s\<lparr>seat_active := b\<rparr>) = sess s"
  "sess (s\<lparr>lid_closed := b\<rparr>) = sess s" "sess (s\<lparr>session_desktop := x\<rparr>) = sess s"
  "sess (s\<lparr>clock_time_fmt := d\<rparr>) = sess s" "sess (s\<lparr>clock_date_fmt := d\<rparr>) = sess s"
  by (simp_all add: sess_def)

lemma conn_fields [simp]:
  "conn (s\<lparr>dtrace := t\<rparr>) = conn s" "conn (s\<lparr>greeter_pid := p\<rparr>) = conn s"
  "conn (s\<lparr>xserver_pid := p\<rparr>) = conn s" "conn (s\<lparr>display_num := i\<rparr>) = conn s"
  "conn (s\<lparr>display := d\<rparr>) = conn s" "conn (s\<lparr>xauth_cookie := c\<rparr>) = conn s"
  "conn (s\<lparr>xauth_path := d\<rparr>) = conn s" "conn (s\<lparr>session_pid := p\<rparr>) = conn s"
  "conn (s\<lparr>session_user := u\<rparr>) = conn s" "conn (s\<lparr>session_desktop := u\<rparr>) = conn s"
  "conn (s\<lparr>locked := b\<rparr>) = conn s" "conn (s\<lparr>dm_running := b\<rparr>) = conn s"
  "conn (s\<lparr>seat_active := b\<rparr>) = conn s" "conn (s\<lparr>lid_closed := b\<rparr>) = conn s"
  "conn (s\<lparr>clock_time_fmt := d\<rparr>) = conn s" "conn (s\<lparr>clock_date_fmt := d\<rparr>) = conn s"
  by (simp_all add: conn_def)

lemma dlog_fields [simp]:
  "sess (dlog c s) = sess s" "conn (dlog c s) = conn s" "greeter_pid (dlog c s) = greeter_pid s"
  "xserver_pid (dlog c s) = xserver_pid s" "dm_running (dlog c s) = dm_running s"
  "session_pid (dlog c s) = session_pid s" "session_user (dlog c s) = session_user s"
  "locked (dlog c s) = locked s" "ipc_client_fd (dlog c s) = ipc_client_fd s"
  "dtrace (dlog c s) = dtrace s @ [c]" "session_desktop (dlog c s) = session_desktop s"
  "default_session (dlog c s) = default_session s" "ipc_buf_len (dlog c s) = ipc_buf_len s"
  "ipc_buf (dlog c s) = ipc_buf s" "seat (dlog c s) = seat s" "dev_mode (dlog c s) = dev_mode s"
  "dm_dbus (dlog c s) = dm_dbus s" "greeter_cmd (dlog c s) = greeter_cmd s"
  "session_vt (dlog c s) = session_vt s" "greeter_vt (dlog c s) = greeter_vt s"
  "ipc_listen_fd (dlog c s) = ipc_listen_fd s" "lid_fd (dlog c s) = lid_fd s"
  "allow_shutdown (dlog c s) = allow_shutdown s" "allow_reboot (dlog c s) = allow_reboot s"
  "allow_suspend (dlog c s) = allow_suspend s" "display_num (dlog c s) = display_num s"
  "display (dlog c s) = display s" "xserver_cmd (dlog c s) = xserver_cmd s"
  "xauth_path (dlog c s) = xauth_path s"
  by (simp_all add: dlog_def sess_def conn_def)

lemma emit_frame [dm_frame, simp]:
  "sess (emit_signal n a s) = sess s" "conn (emit_signal n a s) = conn s"
  "greeter_pid (emit_signal n a s) = greeter_pid s" "xserver_pid (emit_signal n a s) = xserver_pid s"
  "dm_running (emit_signal n a s) = dm_running s"
  by (simp_all add: emit_signal_def)

lemmas dm_emitters = dm_dbus_emit_session_started_def dm_dbus_emit_session_ended_def
  dm_dbus_emit_locked_def dm_dbus_emit_unlocked_def dm_dbus_emit_lid_switch_def

subsection \<open>Processes\<close>

lemma greeter_start_frame [dm_frame, simp]:
  "sess (snd (dm_greeter_start env s)) = sess s" "conn (snd (dm_greeter_start env s)) = conn s"
  "xserver_pid (snd (dm_greeter_start env s)) = xserver_pid s"
  "dm_running (snd (dm_greeter_start env s)) = dm_running s"
  by (simp_all add: dm_greeter_start_def dsys_eq Let_def)

lemma wait_exit_frame [dm_frame, simp]:
  "sess (snd (wait_exit n env p s)) = sess s" "conn (snd (wait_exit n env p s)) = conn s"
  "xserver_pid (snd (wait_exit n env p s)) = xserver_pid s"
  "dm_running (snd (wait_exit n env p s)) = dm_running s"
  "ipc_client_fd (snd (wait_exit n env p s)) = ipc_client_fd s"
  by (induction n arbitrary: s) (simp_all add: dsys_eq Let_def)

lemma greeter_stop_frame [dm_frame, simp]:
  "sess (dm_greeter_stop env s) = sess s" "xserver_pid (dm_greeter_stop env s) = xserver_pid s"
  "dm_running (dm_greeter_stop env s) = dm_running s"
  by (simp_all add: dm_greeter_stop_def Let_def split_beta)

lemma greeter_stop_conn:
  "conn (dm_greeter_stop env s) = conn s \<or>
   (ipc_client_fd (dm_greeter_stop env s) = -1 \<and> ipc_buf_len (dm_greeter_stop env s) = 0)"
  by (simp add: dm_greeter_stop_def Let_def split_beta)

lemma xauth_frame [dm_frame, simp]:
  "sess (snd (generate_xauth env s)) = sess s" "conn (snd (generate_xauth env s)) = conn s"
  "greeter_pid (snd (generate_xauth env s)) = greeter_pid s"
  "dm_running (snd (generate_xauth env s)) = dm_running s"
  by (simp_all add: generate_xauth_def dsys_eq Let_def split: option.splits)

lemma free_display_frame [dm_frame, simp]:
  "sess (snd (find_free_display_from n i env s)) = sess s"
  "conn (snd (find_free_display_from n i env s)) = conn s"
  "greeter_pid (snd (find_free_display_from n i env s)) = greeter_pid s"
  "dm_running (snd (find_free_display_from n i env s)) = dm_running s"
  by (induction n arbitrary: i s) (simp_all add: dsys_eq Let_def)

lemma xserver_start_frame [dm_frame, simp]:
  "sess (snd (dm_xserver_start env vt s)) = sess s" "conn (snd (dm_xserver_start env vt s)) = conn s"
  "greeter_pid (snd (dm_xserver_start env vt s)) = greeter_pid s"
  "dm_running (snd (dm_xserver_start env vt s)) = dm_running s"
  by (simp_all add: dm_xserver_start_def find_free_display_def dsys_eq Let_def split_beta)

lemma xserver_poll_frame [dm_frame, simp]:
  "sess (snd (xserver_poll n env l s)) = sess s" "conn (snd (xserver_poll n env l s)) = conn s"
  "greeter_pid (snd (xserver_poll n env l s)) = greeter_pid s"
  "dm_running (snd (xserver_poll n env l s)) = dm_running s"
  "xserver_pid (snd (xserver_poll n env l s)) = xserver_pid s"
  by (induction n arbitrary: s) (simp_all add: dsys_eq Let_def split_beta)

lemma xserver_ready_frame [dm_frame, simp]:
  "sess (snd (dm_xserver_ready env s)) = sess s" "conn (snd (dm_xserver_ready env s)) = conn s"
  "greeter_pid (snd (dm_xserver_ready env s)) = greeter_pid s"
  "dm_running (snd (dm_xserver_ready env s)) = dm_running s"
  "xserver_pid (snd (dm_xserver_ready env s)) = xserver_pid s"
  by (simp_all add: dm_xserver_ready_def)

lemma xserver_stop_frame [dm_frame, simp]:
  "sess (dm_xserver_stop s) = sess s" "conn (dm_xserver_stop s) = conn s"
  by (simp_all add: dm_xserver_stop_def)

lemma auth_frame [dm_frame, simp]:
  "sess (snd (dm_auth_check env u p n s)) = sess s" "conn (snd (dm_auth_check env u p n s)) = conn s"
  "sess (snd (dm_auth_start_session env u s)) = sess s"
  "conn (snd (dm_auth_start_session env u s)) = conn s"
  "sess (dm_auth_end_session u s) = sess s" "conn (dm_auth_end_session u s) = conn s"
  by (simp_all add: dm_auth_check_def dm_auth_start_session_def dm_auth_end_session_def dsys_eq Let_def)

lemma find_in_dirs_frame [dm_frame, simp]:
  "sess (snd (find_session_in env n ds s)) = sess s" "conn (snd (find_session_in env n ds s)) = conn s"
  by (induction ds arbitrary: s) (simp_all add: Let_def split: option.splits)

lemma scan_all_frame [dm_frame, simp]:
  "sess (snd (scan_all env ds s)) = sess s" "conn (snd (scan_all env ds s)) = conn s"
  by (induction ds arbitrary: s) (simp_all add: Let_def split_beta)

lemma send_frame [dm_frame, simp]:
  "sess (dm_ipc_send m s) = sess s" "conn (dm_ipc_send m s) = conn s"
  by (simp_all add: dm_ipc_send_def)

lemma list_sessions_frame [dm_frame, simp]:
  "sess (handle_list_sessions env s) = sess s" "conn (handle_list_sessions env s) = conn s"
  by (simp_all add: handle_list_sessions_def Let_def split_beta)

lemma power_frame [dm_frame, simp]:
  "sess (dm_power_shutdown s) = sess s" "conn (dm_power_shutdown s) = conn s"
  "sess (dm_power_reboot s) = sess s" "conn (dm_power_reboot s) = conn s"
  "sess (dm_power_suspend s) = sess s" "conn (dm_power_suspend s) = conn s"
  by (simp_all add: dm_power_shutdown_def dm_power_reboot_def dm_power_suspend_def dm_kill_sessions_def
      kill_if_def Let_def)

subsection \<open>The session invariant\<close>

text \<open>
  A session process and a session user exist together, and only a running session can be locked.
  \<open>fork\<close> gives the parent a positive pid or an error, never 0 (that is the child).
\<close>

definition forks_ok :: "denv \<Rightarrow> bool" where
  "forks_ok env \<longleftrightarrow> (\<forall>t c. d_ret env (t @ [DFork c]) \<noteq> 0)"

definition session_inv :: "dm \<Rightarrow> bool" where
  "session_inv s \<longleftrightarrow> (session_pid s \<noteq> 0 \<longleftrightarrow> session_user s \<noteq> None) \<and> (locked s \<longrightarrow> session_pid s \<noteq> 0)"

lemma session_inv_sess: "sess s' = sess s \<Longrightarrow> session_inv s' = session_inv s"
  by (simp add: session_inv_def sess_def)

lemma sess_eqD: "sess s' = sess s \<Longrightarrow>
    session_pid s' = session_pid s \<and> session_user s' = session_user s \<and> locked s' = locked s"
  by (simp add: sess_def)

lemma conn_eqD: "conn s' = conn s \<Longrightarrow>
    ipc_client_fd s' = ipc_client_fd s \<and> ipc_buf s' = ipc_buf s \<and> ipc_buf_len s' = ipc_buf_len s"
  by (simp add: conn_def)

definition fork_result :: "denv \<Rightarrow> int \<Rightarrow> bool" where
  "fork_result env p \<longleftrightarrow> (\<exists>t c. p = d_ret env (t @ [DFork c]))"

lemma fork_resultI [simp]: "fork_result env (d_ret env (t @ [DFork c]))"
  by (auto simp: fork_result_def)

lemma fork_result_nonzero: "forks_ok env \<Longrightarrow> fork_result env p \<Longrightarrow> p \<noteq> 0"
  by (auto simp: forks_ok_def fork_result_def)

lemma session_start_sess:
  assumes "dm_session_start env u d s = (ok, s')"
  shows "conn s' = conn s" and "locked s' = locked s"
    and "\<not> ok \<Longrightarrow> sess s' = sess s"
    and "ok \<Longrightarrow> session_user s' = Some u \<and> session_desktop s' = Some d \<and>
      fork_result env (session_pid s') \<and> session_pid s' \<ge> 0"
proof -
  let ?s0 = "dlog (DGetpwnam u) s"
  let ?f = "find_session_exec env d ?s0"
  let ?a = "dm_auth_start_session env u (snd ?f)"
  have fr: "sess (snd ?f) = sess s" "conn (snd ?f) = conn s" by (simp_all add: find_session_exec_def)
  have fa: "sess (snd ?a) = sess s" "conn (snd ?a) = conn s" using fr by simp_all
  note facts = fr fa sess_eqD [OF fr(1)] sess_eqD [OF fa(1)]
  have "conn s' = conn s \<and> locked s' = locked s \<and> (\<not> ok \<longrightarrow> sess s' = sess s) \<and>
    (ok \<longrightarrow> session_user s' = Some u \<and> session_desktop s' = Some d \<and>
      fork_result env (session_pid s') \<and> session_pid s' \<ge> 0)"
    using assms facts
    by (auto simp: dm_session_start_def Let_def dsys_eq split_beta dm_emitters emit_signal_def
        dm_auth_end_session_def split: option.splits if_splits)
  then show "conn s' = conn s" "locked s' = locked s" "\<not> ok \<Longrightarrow> sess s' = sess s"
    "ok \<Longrightarrow> session_user s' = Some u \<and> session_desktop s' = Some d \<and>
      fork_result env (session_pid s') \<and> session_pid s' \<ge> 0"
    by auto
qed

lemma session_start_inv:
  assumes "forks_ok env" "session_inv s"
  shows "session_inv (snd (dm_session_start env u d s))"
proof -
  obtain ok s' where r: "dm_session_start env u d s = (ok, s')" by fastforce
  show ?thesis
  proof (cases ok)
    case True
    with session_start_sess(4) [OF r] fork_result_nonzero [OF assms(1)]
    have "session_pid s' \<noteq> 0" "session_user s' = Some u" by auto
    then show ?thesis using r by (simp add: session_inv_def)
  next
    case False
    then have "sess s' = sess s" by (rule session_start_sess(3) [OF r])
    then have "session_inv s' = session_inv s" by (rule session_inv_sess)
    with assms(2) r show ?thesis by simp
  qed
qed

lemma session_cleanup_sess [simp]: "sess (dm_session_cleanup env s) = (0, None, False)"
proof -
  let ?s = "dm_dbus_emit_session_ended (case session_user s of None \<Rightarrow> [] | Some u \<Rightarrow> u) s"
  have "sess (dm_session_cleanup env s) = sess (?s\<lparr>session_pid := 0, locked := False, session_user := None\<rparr>)"
    by (simp only: dm_session_cleanup_def Let_def greeter_start_frame(1))
  then show ?thesis by (simp add: sess_def)
qed

lemma session_cleanup_conn [simp]: "conn (dm_session_cleanup env s) = conn s"
  by (simp add: dm_session_cleanup_def Let_def dm_emitters)

lemma lock_sess: "sess (dm_lock_session env s) =
    (session_pid s, session_user s, locked s \<or> (session_pid s \<noteq> 0 \<and> session_user s \<noteq> None))"
  "conn (dm_lock_session env s) = conn s"
proof -
  have "\<not> (locked s \<or> session_pid s = 0 \<or> session_user s = None) \<Longrightarrow>
      sess (dm_lock_session env s) = sess (s\<lparr>locked := True\<rparr>)"
    by (auto simp: dm_lock_session_def Let_def dm_emitters)
  then show "sess (dm_lock_session env s) =
    (session_pid s, session_user s, locked s \<or> (session_pid s \<noteq> 0 \<and> session_user s \<noteq> None))"
    by (cases "locked s \<or> session_pid s = 0 \<or> session_user s = None")
       (auto simp: dm_lock_session_def sess_def)
  show "conn (dm_lock_session env s) = conn s"
    by (simp add: dm_lock_session_def Let_def dm_emitters)
qed

lemma unlock_sess: "sess (dm_unlock_session env s) = (session_pid s, session_user s, False)"
proof -
  have "locked s \<Longrightarrow> sess (dm_unlock_session env s) = sess (s\<lparr>locked := False\<rparr>)"
    by (simp add: dm_unlock_session_def Let_def dm_emitters)
  then show ?thesis by (cases "locked s") (auto simp: dm_unlock_session_def sess_def)
qed

text \<open>The connection is kept as it is, or closed with its buffer emptied.\<close>

definition conn_kept :: "dm \<Rightarrow> dm \<Rightarrow> bool" where
  "conn_kept s s' \<longleftrightarrow> conn s' = conn s \<or> ipc_client_fd s' = -1"

lemma conn_kept_refl [simp]: "conn_kept s s" by (simp add: conn_kept_def)

lemma conn_kept_eq: "conn s' = conn s \<Longrightarrow> conn_kept s s'" by (simp add: conn_kept_def)

lemma conn_kept_trans: "conn_kept a b \<Longrightarrow> conn_kept b c \<Longrightarrow> conn_kept a c"
  by (auto simp: conn_kept_def conn_def)

lemma greeter_stop_kept: "conn_kept s (dm_greeter_stop env s)"
  using greeter_stop_conn [of env s] by (auto simp: conn_kept_def)

lemma unlock_kept: "conn_kept s (dm_unlock_session env s)"
proof -
  have "conn_kept (s\<lparr>locked := False\<rparr>) (dm_greeter_stop env (s\<lparr>locked := False\<rparr>))"
    by (rule greeter_stop_kept)
  then show ?thesis
    by (auto simp: dm_unlock_session_def Let_def dm_emitters conn_kept_def emit_signal_def)
qed

subsection \<open>Messages\<close>

lemma starts_with_append: "starts_with l p \<Longrightarrow> l = p @ drop (length p) l"
  unfolding starts_with_def by (metis append_take_drop_id)

lemma dispatch_cases:
  obtains (auth) args where "dispatch_message env l s = handle_auth env args s" "l = ''AUTH '' @ args"
  | (unlock) "dispatch_message env l s = dm_unlock_session env s" "l = ''CANCEL_LOCK''"
  | (other) "sess (dispatch_message env l s) = sess s" "conn (dispatch_message env l s) = conn s"
proof -
  consider (a) "starts_with l ''AUTH ''" | (c) "l = ''CANCEL_LOCK''"
    | (o) "\<not> starts_with l ''AUTH ''" "l \<noteq> ''CANCEL_LOCK''" by blast
  then show thesis
  proof cases
    case a
    have "dispatch_message env l s = handle_auth env (drop 5 l) s"
      unfolding dispatch_message_def by (simp only: a if_True)
    moreover from starts_with_append [OF a] have "l = ''AUTH '' @ drop 5 l"
      by (simp add: numeral_eq_Suc)
    ultimately show thesis by (rule auth)
  next
    case c
    then have "dispatch_message env l s = dm_unlock_session env s"
      by (simp add: dispatch_message_def starts_with_def)
    then show thesis using c by (rule unlock)
  next
    case o
    have "sess (dispatch_message env l s) = sess s" "conn (dispatch_message env l s) = conn s"
      unfolding dispatch_message_def by (simp_all add: o handle_session_def)
    then show thesis by (rule other)
  qed
qed

lemma handle_auth_kept: "conn_kept s (handle_auth env args s)"
proof -
  have st: "conn (snd (dm_session_start env u d x)) = conn x" for u d x
    using session_start_sess(1) by (metis prod.collapse)
  have k: "conn x = conn s \<Longrightarrow> conn_kept s (dm_unlock_session env x)" for x
    using unlock_kept conn_kept_trans conn_kept_eq by blast
  have g: "conn x = conn s \<Longrightarrow> conn_kept s (snd (dm_session_start env u d (dm_greeter_stop env x)))" for x u d
    using greeter_stop_kept [of x env] st by (auto simp: conn_kept_def conn_def)
  show ?thesis
    by (auto simp: handle_auth_def Let_def split_beta conn_kept_eq intro!: k g
        split: option.splits sum.splits prod.splits)
qed

lemma handle_auth_inv:
  assumes "forks_ok env" and "session_inv s"
  shows "session_inv (handle_auth env args s)"
proof -
  have eq: "sess x = sess s \<Longrightarrow> session_inv x" for x using session_inv_sess assms(2) by blast
  have u: "sess x = sess s \<Longrightarrow> session_inv (dm_unlock_session env x)" for x
    using unlock_sess [of env x] eq [of x] by (auto simp: session_inv_def sess_def)
  have g: "sess x = sess s \<Longrightarrow> session_inv (snd (dm_session_start env n d (dm_greeter_stop env x)))" for x n d
    by (rule session_start_inv [OF assms(1)]) (rule eq, simp)
  show ?thesis
    by (auto simp: handle_auth_def Let_def split_beta intro!: eq u g
        split: option.splits sum.splits prod.splits)
qed

lemma dispatch_kept: "conn_kept s (dispatch_message env l s)"
  by (rule dispatch_cases [of env l s]) (auto simp: handle_auth_kept unlock_kept conn_kept_eq)

lemma dm_dispatch_inv:
  assumes "forks_ok env" and "session_inv s"
  shows "session_inv (dispatch_message env l s)"
proof (cases rule: dispatch_cases [of env l s])
  case (auth args)
  then show ?thesis using handle_auth_inv [OF assms] by simp
next
  case unlock
  then show ?thesis using unlock_sess [of env s] assms(2) by (auto simp: session_inv_def sess_def)
next
  case other
  then show ?thesis using session_inv_sess assms(2) by blast
qed

lemma dispatch_lines_simps [simp]:
  "dispatch_lines env [] s = s"
  "dispatch_lines env (l # ls) s =
     dispatch_lines env ls (if l \<noteq> [] then dispatch_message env l s else s)"
  by (simp_all add: dispatch_lines_def)

lemma dispatch_lines_kept: "conn_kept s (dispatch_lines env ls s)"
proof (induction ls arbitrary: s)
  case (Cons l ls)
  show ?case using Cons [of s] conn_kept_trans [OF dispatch_kept Cons, of s env l] by simp
qed simp

lemma dispatch_lines_inv:
  assumes "forks_ok env" shows "session_inv s \<Longrightarrow> session_inv (dispatch_lines env ls s)"
  by (induction ls arbitrary: s) (auto simp: dm_dispatch_inv [OF assms])

subsection \<open>The receive buffer\<close>

lemma ipc_scan_length: "ipc_scan line cs = (ls, r) \<Longrightarrow> length r \<le> length line + length cs"
proof (induction line cs arbitrary: ls r rule: ipc_scan.induct)
  case (2 line c cs)
  then show ?case by (auto simp: Let_def split: if_splits prod.splits)
qed simp

text \<open>While a greeter is connected, the buffer holds the bytes its length says, with room for the NUL.\<close>

definition conn_inv :: "dm \<Rightarrow> bool" where
  "conn_inv s \<longleftrightarrow> (ipc_client_fd s \<ge> 0 \<longrightarrow>
     0 \<le> ipc_buf_len s \<and> ipc_buf_len s < DM_IPC_MAX_MSG \<and> ipc_buf_len s \<le> int (length (ipc_buf s)))"

lemma conn_inv_conn: "conn s' = conn s \<Longrightarrow> conn_inv s' = conn_inv s"
  by (simp add: conn_inv_def conn_def)

lemma conn_inv_kept: "conn_kept s s' \<Longrightarrow> conn_inv s \<Longrightarrow> conn_inv s'"
  by (auto simp: conn_kept_def conn_inv_def conn_def)

lemma drop_client_inv [simp]: "conn_inv (drop_client s)" "sess (drop_client s) = sess s"
  by (simp_all add: drop_client_def conn_inv_def)

lemma accept_inv: "conn_inv s \<Longrightarrow> conn_inv (dm_ipc_accept env s)" "sess (dm_ipc_accept env s) = sess s"
  by (simp_all add: dm_ipc_accept_def dsys_eq Let_def conn_inv_def DM_IPC_MAX_MSG_def)

lemma ipc_consume_inv:
  assumes env: "forks_ok env" and inv: "session_inv s"
    and len: "ipc_buf_len s = int (length content)" "ipc_buf s = content" "ipc_buf_len s < DM_IPC_MAX_MSG"
  shows "session_inv (ipc_consume env content s)" "conn_inv (ipc_consume env content s)"
proof -
  obtain ls rest where sc: "ipc_scan [] content = (ls, rest)" by fastforce
  define s3 where "s3 = dispatch_lines env ls s"
  define start where "start = int (length content) - int (length rest)"
  define rem where "rem = ipc_buf_len s3 - start"
  let ?s4 = "(if rem > 0 \<and> start \<noteq> 0 then s3\<lparr>ipc_buf := take (nat rem) rest\<rparr> else s3)\<lparr>ipc_buf_len := rem\<rparr>"
  have eq: "ipc_consume env content s = ?s4"
    by (simp add: ipc_consume_def sc Let_def s3_def start_def rem_def)
  have "session_inv s3" unfolding s3_def by (rule dispatch_lines_inv [OF env inv])
  then show "session_inv (ipc_consume env content s)"
    unfolding eq using session_inv_sess [of ?s4 s3] by simp
  have k3: "conn s3 = conn s \<or> ipc_client_fd s3 = -1"
    using dispatch_lines_kept [of s env ls] by (simp add: s3_def conn_kept_def)
  have rl: "length rest \<le> length content" using ipc_scan_length [OF sc] by simp
  show "conn_inv (ipc_consume env content s)"
  proof (cases "ipc_client_fd s3 = -1")
    case True
    then show ?thesis by (simp add: eq conn_inv_def)
  next
    case False
    with k3 have "conn s3 = conn s" by simp
    note c3 = conn_eqD [OF this]
    have "rem = int (length rest)" using c3 len by (simp add: rem_def start_def)
    then show ?thesis using rl c3 len by (auto simp: eq conn_inv_def start_def)
  qed
qed

lemma ipc_handle_inv:
  assumes env: "forks_ok env" and inv: "session_inv s" "conn_inv s"
  shows "session_inv (dm_ipc_handle env s)" "conn_inv (dm_ipc_handle env s)"
proof -
  define space where "space = DM_IPC_MAX_MSG - ipc_buf_len s - 1"
  define s1 where "s1 = dlog (DRead (ipc_client_fd s) space) s"
  have s1: "sess s1 = sess s" "conn s1 = conn s" by (simp_all add: s1_def)
  have keep: "sess x = sess s \<Longrightarrow> session_inv x" for x using session_inv_sess inv(1) by blast
  have "session_inv (dm_ipc_handle env s) \<and> conn_inv (dm_ipc_handle env s)"
  proof (cases "ipc_client_fd s < 0 \<or> space \<le> 0")
    case True
    then show ?thesis using inv keep [of "drop_client s"]
      by (auto simp: dm_ipc_handle_def Let_def space_def)
  next
    case False
    show ?thesis
    proof (cases "d_read env (dtrace s1)")
      case (Inl transient)
      have "dm_ipc_handle env s = (if transient then s1 else drop_client s1)"
        using False Inl by (simp add: dm_ipc_handle_def Let_def space_def s1_def)
      then show ?thesis using keep [OF s1(1)] keep [of "drop_client s1"] s1 conn_inv_conn [OF s1(2)] inv(2)
        by simp
    next
      case (Inr data)
      define n where "n = take (nat space) data"
      define content where "content = take (nat (ipc_buf_len s)) (ipc_buf s) @ n"
      define s2 where "s2 = s1\<lparr>ipc_buf := content, ipc_buf_len := ipc_buf_len s1 + int (length n)\<rparr>"
      have len: "int (length content) = ipc_buf_len s + int (length n)" "int (length n) \<le> space"
        using inv(2) False by (auto simp: content_def n_def conn_inv_def)
      have "session_inv s2" by (rule keep) (simp add: s2_def s1)
      moreover have "ipc_buf_len s2 = int (length content)" "ipc_buf s2 = content"
        "ipc_buf_len s2 < DM_IPC_MAX_MSG"
        using conn_eqD [OF s1(2)] len by (simp_all add: s2_def space_def)
      ultimately have c: "session_inv (ipc_consume env content s2)" "conn_inv (ipc_consume env content s2)"
        using ipc_consume_inv [OF env] by blast+
      have "dm_ipc_handle env s = (if n = [] then drop_client s1 else ipc_consume env content s2)"
        using False Inr unfolding dm_ipc_handle_def Let_def
        by (simp add: s1_def space_def n_def content_def s2_def)
      then show ?thesis using c keep [of "drop_client s1"] s1 by simp
    qed
  qed
  then show "session_inv (dm_ipc_handle env s)" "conn_inv (dm_ipc_handle env s)" by auto
qed

subsection \<open>One turn of the loop\<close>

definition dm_inv :: "dm \<Rightarrow> bool" where
  "dm_inv s \<longleftrightarrow> session_inv s \<and> conn_inv s"

lemma dm_inv_views: "dm_inv s \<Longrightarrow> sess s' = sess s \<Longrightarrow> conn_kept s s' \<Longrightarrow> dm_inv s'"
  unfolding dm_inv_def using session_inv_sess conn_inv_kept by blast

lemma dm_inv_same: "dm_inv s \<Longrightarrow> sess s' = sess s \<Longrightarrow> conn s' = conn s \<Longrightarrow> dm_inv s'"
  using dm_inv_views conn_kept_eq by blast

lemma fold_keeps: "(\<And>x y. P y \<Longrightarrow> P (f x y)) \<Longrightarrow> P s \<Longrightarrow> P (fold f xs s)"
  by (induction xs arbitrary: s) simp_all

lemma cleanup_inv: "dm_inv s \<Longrightarrow> dm_inv (dm_session_cleanup env s)"
  using session_cleanup_sess [of env s] conn_inv_conn [OF session_cleanup_conn]
  by (simp add: dm_inv_def session_inv_def sess_def)

lemma reap_one_inv: "dm_inv s \<Longrightarrow> dm_inv (reap_one env p s)"
  by (auto simp: reap_one_def cleanup_inv elim!: dm_inv_same)

lemma seat_frame [dm_frame, simp]:
  "sess (on_seat_event e s) = sess s" "conn (on_seat_event e s) = conn s"
  "sess (lid_event b s) = sess s" "conn (lid_event b s) = conn s"
  "greeter_pid (lid_event b s) = greeter_pid s" "greeter_pid (on_seat_event e s) = greeter_pid s"
  "xserver_pid (lid_event b s) = xserver_pid s" "xserver_pid (on_seat_event e s) = xserver_pid s"
  "dm_running (lid_event b s) = dm_running s" "dm_running (on_seat_event e s) = dm_running s"
  by (simp_all add: on_seat_event_def lid_event_def dm_emitters)

lemma fold_view: "(\<And>x y. v (f x y) = v y) \<Longrightarrow> v (fold f xs s) = v s"
  by (induction xs arbitrary: s) simp_all

lemma seat_dispatch_frame [dm_frame, simp]:
  "sess (dm_seat_dispatch es s) = sess s" "conn (dm_seat_dispatch es s) = conn s"
  "greeter_pid (dm_seat_dispatch es s) = greeter_pid s" "xserver_pid (dm_seat_dispatch es s) = xserver_pid s"
  "dm_running (dm_seat_dispatch es s) = dm_running s"
  by (simp_all add: dm_seat_dispatch_def fold_view)

lemma lid_events_frame [dm_frame, simp]:
  "sess (handle_lid_events es s) = sess s" "conn (handle_lid_events es s) = conn s"
  "greeter_pid (handle_lid_events es s) = greeter_pid s" "xserver_pid (handle_lid_events es s) = xserver_pid s"
  "dm_running (handle_lid_events es s) = dm_running s"
  by (simp_all add: handle_lid_events_def fold_view)

text \<open>A method call locks a session or leaves it alone; it never touches the connection.\<close>

definition method_result :: "denv \<Rightarrow> dm \<Rightarrow> ddbus_handled \<times> dm \<Rightarrow> bool" where
  "method_result env s r \<longleftrightarrow>
     conn (snd r) = conn s \<and> (sess (snd r) = sess s \<or> snd r = dm_lock_session env s)"

lemma method_result_if:
  "method_result env s x \<Longrightarrow> method_result env s y \<Longrightarrow> method_result env s (if b then x else y)"
  by simp

lemma method_result_same: "conn s' = conn s \<Longrightarrow> sess s' = sess s \<Longrightarrow> method_result env s (h, s')"
  by (simp add: method_result_def)

lemma method_result_lock: "method_result env s (h, dm_lock_session env s)"
  by (simp add: method_result_def lock_sess(2))

lemma set_greeter_config_frame [dm_frame, simp]:
  "sess (set_greeter_config k v s) = sess s" "conn (set_greeter_config k v s) = conn s"
  unfolding set_greeter_config_def by simp_all

lemma show_confirmation_frame [dm_frame, simp]:
  "sess (handle_show_confirmation a s) = sess s" "conn (handle_show_confirmation a s) = conn s"
  unfolding handle_show_confirmation_def by (simp_all split: option.split)

lemma method_views: "method_result env s (handle_method env m s)"
proof (cases "dm_member m")
  case None
  then show ?thesis by (simp add: handle_method_def method_result_same)
next
  case (Some meth)
  show ?thesis
    unfolding handle_method_def Some option.case
    by (intro method_result_if method_result_lock; cases "dm_get_ss m")
       (simp_all add: method_result_same split_beta)
qed

text \<open>While the session is locked, a method call changes neither a process nor the session.\<close>

lemma method_pids:
  assumes "locked s"
  shows "greeter_pid (snd (handle_method env m s)) = greeter_pid s"
    "xserver_pid (snd (handle_method env m s)) = xserver_pid s"
    "sess (snd (handle_method env m s)) = sess s"
proof -
  define v where "v = (\<lambda>s. (greeter_pid s, xserver_pid s, sess s))"
  have i: "v (snd a) = v s \<Longrightarrow> v (snd b) = v s \<Longrightarrow> v (snd (if c then a else b)) = v s"
    for c and a b :: "ddbus_handled \<times> dm" by simp
  have l: "dm_lock_session env s = s" using assms by (simp add: dm_lock_session_def)
  have c: "v (set_greeter_config k x s) = v s" "v (handle_show_confirmation y s) = v s" for k x y
    unfolding set_greeter_config_def handle_show_confirmation_def by (simp_all add: v_def split: option.split)
  have p: "v (dm_power_shutdown s) = v s" "v (dm_power_reboot s) = v s" "v (dm_power_suspend s) = v s"
    by (simp_all add: v_def dm_power_shutdown_def dm_power_reboot_def dm_power_suspend_def dm_kill_sessions_def
        dm_xserver_stop_def kill_if_def Let_def)
  have "v (snd (handle_method env m s)) = v s"
  proof (cases "dm_member m")
    case (Some meth)
    show ?thesis unfolding handle_method_def Some option.case
      by (intro i; cases "dm_get_ss m") (simp_all add: l c p split_beta)
  qed (simp add: handle_method_def)
  then show "greeter_pid (snd (handle_method env m s)) = greeter_pid s"
    "xserver_pid (snd (handle_method env m s)) = xserver_pid s"
    "sess (snd (handle_method env m s)) = sess s" by (simp_all add: v_def)
qed

lemma lock_inv: "dm_inv s \<Longrightarrow> dm_inv (dm_lock_session env s)"
  using lock_sess [of env s] conn_inv_conn [OF lock_sess(2), of env s]
  by (auto simp: dm_inv_def session_inv_def sess_def)

lemma method_inv: "dm_inv s \<Longrightarrow> dm_inv (snd (handle_method env m s))"
  using method_views [of env s m] lock_inv [of s env] dm_inv_same [of s "snd (handle_method env m s)"]
  by (auto simp: method_result_def)

lemma restart_greeter_frame [dm_frame, simp]:
  "sess (restart_greeter env s) = sess s" "conn (restart_greeter env s) = conn s"
  "xserver_pid (restart_greeter env s) = xserver_pid s" "dm_running (restart_greeter env s) = dm_running s"
  by (simp_all add: restart_greeter_def)

lemma restart_xserver_sess [dm_frame, simp]: "sess (restart_xserver env s) = sess s"
  by (simp add: restart_xserver_def Let_def split_beta)

lemma restart_xserver_kept: "conn_kept s (restart_xserver env s)"
proof -
  have "conn x = conn (dm_greeter_stop env s) \<Longrightarrow> conn_kept s x" for x
    using greeter_stop_kept [of s env] by (auto simp: conn_kept_def conn_def)
  then show ?thesis by (simp add: restart_xserver_def Let_def split_beta)
qed

lemma restart_inv: "dm_inv s \<Longrightarrow> dm_inv (restart_xserver env (restart_greeter env s))"
  by (rule dm_inv_views [OF _ _ conn_kept_trans [OF conn_kept_eq restart_xserver_kept]]) simp_all

lemma ipc_step_inv:
  "forks_ok env \<Longrightarrow> dm_inv s \<Longrightarrow> dm_inv (if ipc_client_fd s \<ge> 0 then dm_ipc_handle env s else dm_ipc_accept env s)"
  using ipc_handle_inv [of env s] accept_inv(1) [of s env] session_inv_sess [OF accept_inv(2), of env s]
  by (simp add: dm_inv_def)

lemma dm_turn_inv:
  assumes "forks_ok env" and "dm_inv s"
  shows "dm_inv (dm_turn env t s)"
proof -
  define s1 where "s1 = dm_seat_dispatch (t_seat t) (reap_children env (t_children t) s)"
  define s2 where "s2 = (if t_ipc t \<and> (ipc_client_fd s \<ge> 0 \<or> ipc_listen_fd s \<ge> 0) then
    (if ipc_client_fd s1 \<ge> 0 then dm_ipc_handle env s1 else dm_ipc_accept env s1) else s1)"
  define s3 where "s3 = (if dm_dbus s2 then fold (\<lambda>m s. snd (handle_method env m s)) (t_dbus t) s2 else s2)"
  have "dm_inv (reap_children env (t_children t) s)"
    unfolding reap_children_def by (rule fold_keeps [where P = dm_inv, OF reap_one_inv assms(2)])
  then have "dm_inv s1" unfolding s1_def by (rule dm_inv_same) simp_all
  then have "dm_inv s2" unfolding s2_def using ipc_step_inv [OF assms(1)] by auto
  then have "dm_inv s3" unfolding s3_def using fold_keeps [where P = dm_inv, OF method_inv] by auto
  then have "dm_inv (if lid_fd s3 \<ge> 0 then handle_lid_events (t_lid t) s3 else s3)"
    by (auto elim: dm_inv_same)
  then show ?thesis
    unfolding dm_turn_def Let_def s1_def [symmetric] s2_def [symmetric] s3_def [symmetric]
    by (rule restart_inv)
qed

lemma init_state:
  assumes "dm_init env cfg b = Some s"
  shows "\<exists>s2. sess s2 = (0, None, False) \<and> ipc_client_fd s2 = -1 \<and> dtrace s2 = [] \<and>
    s = (snd (dm_greeter_start env (snd (dm_xserver_ready env
          (snd (dm_xserver_start env (greeter_vt s2) s2))))))\<lparr>dm_running := True\<rparr>"
proof -
  define s0 where "s0 = load_config cfg dm_defaults"
  have s0: "sess s0 = (0, None, False)" "dtrace s0 = []"
    by (auto simp: s0_def load_config_def dm_defaults_def sess_def Let_def split: option.splits prod.splits)
  define s1 where "s1 = (if dev_mode s0 then s0 else s0\<lparr>seat := True, seat_active := True, lid_fd := b_lid_fd b\<rparr>)"
  define s2 where "s2 = s1\<lparr>ipc_listen_fd := b_listen_fd b, ipc_client_fd := -1, ipc_buf_len := 0,
      dm_dbus := b_dbus_ok b, greeter_vt := (if dev_mode s1 then 0 else b_vt b)\<rparr>"
  have "sess s2 = (0, None, False)" "ipc_client_fd s2 = -1" "dtrace s2 = []"
    using s0 by (simp_all add: s2_def s1_def sess_def)
  moreover have "s = (snd (dm_greeter_start env (snd (dm_xserver_ready env
          (snd (dm_xserver_start env (greeter_vt s2) s2))))))\<lparr>dm_running := True\<rparr>"
    using assms
    by (simp add: dm_init_def Let_def split_beta s0_def [symmetric] s1_def [symmetric] s2_def [symmetric]
        split: if_splits)
  ultimately show ?thesis by blast
qed

lemma dm_init_inv:
  assumes "dm_init env cfg b = Some s" shows "dm_inv s" "dm_running s"
proof -
  obtain s2 where s2: "sess s2 = (0, None, False)" "ipc_client_fd s2 = -1"
    and s: "s = (snd (dm_greeter_start env (snd (dm_xserver_ready env
          (snd (dm_xserver_start env (greeter_vt s2) s2))))))\<lparr>dm_running := True\<rparr>"
    using init_state [OF assms] by blast
  have v: "sess s = sess s2" "conn s = conn s2" unfolding s by simp_all
  show "dm_running s" unfolding s by simp
  show "dm_inv s" using v s2 conn_eqD [OF v(2)]
    by (simp add: dm_inv_def session_inv_def conn_inv_def sess_def)
qed

lemma dm_reachable_inv:
  assumes "forks_ok env" shows "dm_reachable env s \<Longrightarrow> dm_inv s"
  by (induction rule: dm_reachable.induct) (auto intro: dm_init_inv dm_turn_inv [OF assms])

end
