(* ===== verification/Dm_Trace.thy ===== *)
theory Dm_Trace
  imports Dm_Inv
begin

section \<open>isde-dm: the trace only grows, and power actions need permission\<close>

text \<open>
  One relation between a state and a later one: the trace is extended, the three permissions are
  unchanged, and a shutdown, reboot or suspend among the new calls was permitted. Every
  operation stays in it; the rules of the collection \<open>grow\<close> chain them.
\<close>

named_theorems grow "operations that only extend the trace, with power actions permitted"

definition power_ok :: "dm \<Rightarrow> dcall \<Rightarrow> bool" where
  "power_ok s c \<longleftrightarrow> (c = DShutdown \<longrightarrow> allow_shutdown s) \<and> (c = DReboot \<longrightarrow> allow_reboot s) \<and>
     (c = DSuspend \<longrightarrow> allow_suspend s)"

definition grows :: "dm \<Rightarrow> dm \<Rightarrow> bool" where
  "grows s s' \<longleftrightarrow> (\<exists>w. dtrace s' = dtrace s @ w \<and> list_all (power_ok s) w) \<and>
     allow_shutdown s' = allow_shutdown s \<and> allow_reboot s' = allow_reboot s \<and>
     allow_suspend s' = allow_suspend s"

lemma grows_refl [simp]: "grows s s"
  by (simp add: grows_def)

lemma power_ok_cong: "grows s s' \<Longrightarrow> power_ok s' = power_ok s"
  by (auto simp: grows_def power_ok_def fun_eq_iff)

lemma grows_trans: "grows a b \<Longrightarrow> grows b c \<Longrightarrow> grows a c"
  by (drule (1) conjI) (auto simp: grows_def power_ok_def list_all_iff)

lemma grows_fields [simp]:
  "grows s (x\<lparr>greeter_pid := p\<rparr>) = grows s x" "grows s (x\<lparr>xserver_pid := p\<rparr>) = grows s x"
  "grows s (x\<lparr>display_num := i\<rparr>) = grows s x" "grows s (x\<lparr>display := d\<rparr>) = grows s x"
  "grows s (x\<lparr>xauth_cookie := c\<rparr>) = grows s x" "grows s (x\<lparr>xauth_path := d\<rparr>) = grows s x"
  "grows s (x\<lparr>session_pid := p\<rparr>) = grows s x" "grows s (x\<lparr>session_user := u\<rparr>) = grows s x"
  "grows s (x\<lparr>session_desktop := u\<rparr>) = grows s x" "grows s (x\<lparr>locked := b\<rparr>) = grows s x"
  "grows s (x\<lparr>ipc_client_fd := p\<rparr>) = grows s x" "grows s (x\<lparr>ipc_buf := d\<rparr>) = grows s x"
  "grows s (x\<lparr>ipc_buf_len := p\<rparr>) = grows s x" "grows s (x\<lparr>dm_running := b\<rparr>) = grows s x"
  "grows s (x\<lparr>seat_active := b\<rparr>) = grows s x" "grows s (x\<lparr>lid_closed := b\<rparr>) = grows s x"
  "grows s (x\<lparr>clock_time_fmt := d\<rparr>) = grows s x" "grows s (x\<lparr>clock_date_fmt := d\<rparr>) = grows s x"
  by (simp_all add: grows_def)

lemma grows_dlog_power: "grows s x \<Longrightarrow> power_ok s c \<Longrightarrow> grows s (dlog c x)"
  by (auto simp: grows_def dlog_def)

definition harmless :: "dcall \<Rightarrow> bool" where
  "harmless c \<longleftrightarrow> c \<notin> {DShutdown, DReboot, DSuspend}"

lemma grows_dlog [grow]: "grows s x \<Longrightarrow> harmless c \<Longrightarrow> grows s (dlog c x)"
  by (rule grows_dlog_power) (auto simp: harmless_def power_ok_def)

lemma harmless_calls [simp, grow]:
  "harmless (DFork a)" "harmless (DKill p g)" "harmless (DWaitpid p b)" "harmless (DClose p)"
  "harmless (DAccept p)" "harmless (DRead p q)" "harmless (DSend p m)" "harmless (DAccess m)"
  "harmless (DXcbConnect m)" "harmless DRandom" "harmless (DWriteFile m ws)" "harmless (DPamStart m)"
  "harmless (DPamAuthenticate m n)" "harmless (DPamAcctMgmt m)" "harmless (DPamSetcred m b)"
  "harmless (DPamOpenSession m)" "harmless (DPamCloseSession m)" "harmless (DGetpwnam m)"
  "harmless (DDesktopLoad m)" "harmless (DScanDir m)" "harmless (DSwitchVt p)" "harmless DSeatDisable"
  "harmless DSeatDispatch" "harmless (DConfigWrite m n k)" "harmless (DSignal m l)" "harmless (DUnlink m)"
  by (simp_all add: harmless_def)

lemma emit_grows [grow]: "grows s x \<Longrightarrow> grows s (emit_signal n a x)"
  by (simp add: emit_signal_def grow)

lemma greeter_start_grows [grow]: "grows s x \<Longrightarrow> grows s (snd (dm_greeter_start env x))"
  by (simp add: dm_greeter_start_def dsys_eq Let_def grow)

lemma wait_exit_grows [grow]: "grows s x \<Longrightarrow> grows s (snd (wait_exit n env p x))"
  by (induction n arbitrary: x) (simp_all add: dsys_eq Let_def grow)

lemma greeter_stop_grows [grow]: "grows s x \<Longrightarrow> grows s (dm_greeter_stop env x)"
  by (simp add: dm_greeter_stop_def Let_def split_beta grow)

lemma xauth_grows [grow]: "grows s x \<Longrightarrow> grows s (snd (generate_xauth env x))"
  by (simp add: generate_xauth_def dsys_eq Let_def grow split: option.splits)

lemma free_display_grows [grow]: "grows s x \<Longrightarrow> grows s (snd (find_free_display_from n i env x))"
  by (induction n arbitrary: i x) (simp_all add: dsys_eq Let_def grow)

lemma xserver_start_grows [grow]: "grows s x \<Longrightarrow> grows s (snd (dm_xserver_start env vt x))"
  by (simp add: dm_xserver_start_def find_free_display_def dsys_eq Let_def split_beta grow)

lemma xserver_poll_grows [grow]: "grows s x \<Longrightarrow> grows s (snd (xserver_poll n env l x))"
  by (induction n arbitrary: x) (simp_all add: dsys_eq Let_def split_beta grow)

lemma xserver_ready_grows [grow]: "grows s x \<Longrightarrow> grows s (snd (dm_xserver_ready env x))"
  by (simp add: dm_xserver_ready_def grow)

lemma xserver_stop_grows [grow]: "grows s x \<Longrightarrow> grows s (dm_xserver_stop x)"
  by (simp add: dm_xserver_stop_def grow)

lemma auth_grows [grow]:
  "grows s x \<Longrightarrow> grows s (snd (dm_auth_check env u p n x))"
  "grows s x \<Longrightarrow> grows s (snd (dm_auth_start_session env u x))"
  "grows s x \<Longrightarrow> grows s (dm_auth_end_session u x)"
  by (simp_all add: dm_auth_check_def dm_auth_start_session_def dm_auth_end_session_def dsys_eq Let_def grow)

lemma find_in_dirs_grows [grow]: "grows s x \<Longrightarrow> grows s (snd (find_session_in env n ds x))"
  by (induction ds arbitrary: x) (simp_all add: Let_def grow split: option.splits)

lemma session_start_grows [grow]: "grows s x \<Longrightarrow> grows s (snd (dm_session_start env u d x))"
  by (simp add: dm_session_start_def find_session_exec_def dsys_eq Let_def split_beta dm_emitters grow
      split: option.splits)

lemma session_cleanup_grows [grow]: "grows s x \<Longrightarrow> grows s (dm_session_cleanup env x)"
  by (simp add: dm_session_cleanup_def Let_def dm_emitters grow)

lemma lock_grows [grow]:
  "grows s x \<Longrightarrow> grows s (dm_lock_session env x)" "grows s x \<Longrightarrow> grows s (dm_unlock_session env x)"
  by (simp_all add: dm_lock_session_def dm_unlock_session_def Let_def dm_emitters grow)

lemma kill_sessions_grows [grow]: "grows s x \<Longrightarrow> grows s (dm_kill_sessions x)"
  by (simp add: dm_kill_sessions_def kill_if_def grow)

lemma power_grows [grow]:
  "grows s x \<Longrightarrow> allow_shutdown x \<Longrightarrow> grows s (dm_power_shutdown x)"
  "grows s x \<Longrightarrow> allow_reboot x \<Longrightarrow> grows s (dm_power_reboot x)"
  "grows s x \<Longrightarrow> allow_suspend x \<Longrightarrow> grows s (dm_power_suspend x)"
proof -
  assume g: "grows s x"
  then have "allow_shutdown x \<Longrightarrow> power_ok s DShutdown" "allow_reboot x \<Longrightarrow> power_ok s DReboot"
    "allow_suspend x \<Longrightarrow> power_ok s DSuspend"
    by (auto simp: grows_def power_ok_def)
  with g show "allow_shutdown x \<Longrightarrow> grows s (dm_power_shutdown x)"
    "allow_reboot x \<Longrightarrow> grows s (dm_power_reboot x)" "allow_suspend x \<Longrightarrow> grows s (dm_power_suspend x)"
    by (simp_all add: dm_power_shutdown_def dm_power_reboot_def dm_power_suspend_def Let_def grow
        grows_dlog_power)
qed

lemma send_grows [grow]: "grows s x \<Longrightarrow> grows s (dm_ipc_send m x)"
  by (simp add: dm_ipc_send_def grow)

lemma handle_auth_grows [grow]: "grows s x \<Longrightarrow> grows s (handle_auth env a x)"
  by (simp add: handle_auth_def Let_def split_beta grow split: option.splits sum.splits prod.splits)

lemma scan_all_grows [grow]: "grows s x \<Longrightarrow> grows s (snd (scan_all env ds x))"
  by (induction ds arbitrary: x) (simp_all add: Let_def split_beta grow)

lemma list_sessions_grows [grow]: "grows s x \<Longrightarrow> grows s (handle_list_sessions env x)"
  by (simp add: handle_list_sessions_def Let_def split_beta grow)

lemma dispatch_grows [grow]: "grows s x \<Longrightarrow> grows s (dispatch_message env l x)"
  unfolding dispatch_message_def handle_session_def by (simp add: grow)

lemma dispatch_lines_grows [grow]: "grows s x \<Longrightarrow> grows s (dispatch_lines env ls x)"
  by (induction ls arbitrary: x) (simp_all add: grow)

lemma ipc_handle_grows [grow]: "grows s x \<Longrightarrow> grows s (dm_ipc_handle env x)"
  by (simp add: dm_ipc_handle_def ipc_consume_def drop_client_def Let_def split_beta grow split: sum.splits)

lemma accept_grows [grow]: "grows s x \<Longrightarrow> grows s (dm_ipc_accept env x)"
  by (simp add: dm_ipc_accept_def dsys_eq Let_def grow)

lemma method_grows_if:
  "grows s (snd a) \<Longrightarrow> grows s (snd b) \<Longrightarrow> grows s (snd (if c then a else b))"
  by simp

lemma config_grows [grow]:
  "grows s x \<Longrightarrow> grows s (set_greeter_config k v x)" "grows s x \<Longrightarrow> grows s (handle_show_confirmation a x)"
  unfolding set_greeter_config_def handle_show_confirmation_def by (simp_all add: grow split: option.split)

lemma method_grows [grow]: "grows s x \<Longrightarrow> grows s (snd (handle_method env m x))"
proof (cases "dm_member m")
  case (Some meth)
  assume g: "grows s x"
  show ?thesis
    unfolding handle_method_def Some option.case
    by (intro method_grows_if; cases "dm_get_ss m") (simp_all add: g grow split_beta)
qed (simp add: handle_method_def)

lemma fold_grows: "(\<And>c y. grows s y \<Longrightarrow> grows s (f c y)) \<Longrightarrow> grows s x \<Longrightarrow> grows s (fold f cs x)"
  by (rule fold_keeps [where P = "grows s"])

lemma reap_grows [grow]: "grows s x \<Longrightarrow> grows s (reap_children env ps x)"
  unfolding reap_children_def by (rule fold_grows) (simp_all add: reap_one_def grow)

lemma seat_grows [grow]: "grows s x \<Longrightarrow> grows s (dm_seat_dispatch es x)"
  unfolding dm_seat_dispatch_def by (auto intro!: fold_grows simp: on_seat_event_def grow)

lemma lid_grows [grow]: "grows s x \<Longrightarrow> grows s (handle_lid_events es x)"
  unfolding handle_lid_events_def by (rule fold_grows) (simp_all add: lid_event_def dm_emitters grow)

lemma restart_grows [grow]:
  "grows s x \<Longrightarrow> grows s (restart_greeter env x)" "grows s x \<Longrightarrow> grows s (restart_xserver env x)"
  by (simp_all add: restart_greeter_def restart_xserver_def Let_def split_beta grow)

lemma methods_grow [grow]:
  "grows s x \<Longrightarrow> grows s (fold (\<lambda>m s. snd (handle_method env m s)) ms x)"
  by (rule fold_grows) (rule method_grows)

lemma turn_grows [grow]: "grows s x \<Longrightarrow> grows s (dm_turn env t x)"
  unfolding dm_turn_def Let_def by (simp add: grow)

lemma init_power:
  assumes "dm_init env cfg b = Some s" shows "list_all (power_ok s) (dtrace s)"
proof -
  obtain s2 where t2: "dtrace s2 = []"
    and s: "s = (snd (dm_greeter_start env (snd (dm_xserver_ready env
          (snd (dm_xserver_start env (greeter_vt s2) s2))))))\<lparr>dm_running := True\<rparr>"
    using init_state [OF assms] by blast
  have g: "grows s2 s" unfolding s by (simp add: grow)
  show ?thesis using t2 g power_ok_cong [OF g] by (auto simp: grows_def)
qed

lemma reachable_power: "dm_reachable env s \<Longrightarrow> list_all (power_ok s) (dtrace s)"
proof (induction rule: dm_reachable.induct)
  case (turn s t)
  have g: "grows s (dm_turn env t s)" by (simp add: grow)
  then show ?case using turn.IH power_ok_cong [OF g] by (auto simp: grows_def)
qed (rule init_power)

end
