(* ===== verification/Dm_Proto.thy ===== *)
theory Dm_Proto
  imports Dm_Trace
begin

section \<open>isde-dm: protocol, authentication and restart lemmas\<close>

text \<open>
  Lemmas behind the display manager's properties: how the byte stream of the greeter is cut into
  lines whatever the sizes of the reads (an interface, \<open>line_stream\<close>, interpreted on
  \<open>ipc_scan\<close>), what can unlock a session, what the session child does before it execs, which
  processes the restart rules leave running, and the Xauthority record read back.
\<close>

subsection \<open>Lines of a stream\<close>

text \<open>
  A splitter takes the bytes received so far and gives the complete lines and the incomplete
  rest. The law: splitting more bytes later, with the rest in front, gives the same lines.
\<close>

locale line_stream =
  fixes split_lines :: "cstr \<Rightarrow> cstr list \<times> cstr"
  assumes split_nil: "split_lines [] = ([], [])"
    and split_append: "split_lines (a @ b) =
      (fst (split_lines a) @ fst (split_lines (snd (split_lines a) @ b)),
       snd (split_lines (snd (split_lines a) @ b)))"
begin

definition feed :: "cstr \<Rightarrow> cstr list \<times> cstr \<Rightarrow> cstr list \<times> cstr" where
  "feed chunk st = (fst st @ fst (split_lines (snd st @ chunk)), snd (split_lines (snd st @ chunk)))"

lemma feed_split: "feed chunk (split_lines a) = split_lines (a @ chunk)"
  by (simp add: feed_def split_append [of a])

lemma feeds_split: "fold feed chunks (split_lines a) = split_lines (a @ concat chunks)"
  by (induction chunks arbitrary: a) (simp_all add: feed_split)

lemma feeds_concat: "fold feed chunks ([], []) = split_lines (concat chunks)"
  using feeds_split [of chunks "[]"] by (simp add: split_nil)

lemma rest_has_no_line: "fst (split_lines (snd (split_lines a))) = []"
  using split_append [of a "[]"] by simp (metis append_self_conv fst_conv)

end

lemma ipc_scan_prefix: "CHR 0x0A \<notin> set pre \<Longrightarrow> CHR 0x00 \<notin> set pre \<Longrightarrow>
    ipc_scan line (pre @ cs) = ipc_scan (line @ pre) cs"
  by (induction pre arbitrary: line) auto

text \<open>The accumulated line holds neither a newline nor a NUL, so it can be scanned again.\<close>

lemma ipc_scan_append:
  assumes "CHR 0x0A \<notin> set line" "CHR 0x00 \<notin> set line"
  shows "ipc_scan line (a @ b) =
    (fst (ipc_scan line a) @ fst (ipc_scan [] (snd (ipc_scan line a) @ b)),
     snd (ipc_scan [] (snd (ipc_scan line a) @ b)))"
  using assms
proof (induction line a rule: ipc_scan.induct)
  case (1 line)
  then show ?case by (simp add: ipc_scan_prefix)
next
  case (2 line c cs)
  show ?case
  proof (cases "c = CHR 0x00")
    case True
    then show ?thesis using ipc_scan_prefix [OF 2(3,4), of "[]" "c # cs @ b"] by simp
  next
    case False
    then show ?thesis using 2 by (cases "c = CHR 0x0A") (auto simp: split_beta Let_def)
  qed
qed

interpretation ipc: line_stream "ipc_scan []"
  by unfold_locales (simp, rule ipc_scan_append, simp_all)

subsection \<open>What unlocks a session\<close>

definition pam_accepts :: "denv \<Rightarrow> dcall list \<Rightarrow> cstr \<Rightarrow> cstr \<Rightarrow> bool" where
  "pam_accepts env t u p \<longleftrightarrow>
     d_ret env (t @ [DPamStart u]) = PAM_SUCCESS \<and>
     d_ret env (t @ [DPamStart u, DPamAuthenticate u p]) = PAM_SUCCESS \<and>
     d_ret env (t @ [DPamStart u, DPamAuthenticate u p, DPamAcctMgmt u]) = PAM_SUCCESS"

lemma auth_check_ok: "(\<exists>s'. dm_auth_check env u p n s = (Inr (), s')) \<longleftrightarrow> pam_accepts env (dtrace s) u p"
  by (auto simp: dm_auth_check_def dsys_eq Let_def pam_accepts_def)

lemma auth_check_trace: "dm_auth_check env u p n s = (Inr (), s') \<Longrightarrow>
    dtrace s' = dtrace s @ [DPamStart u, DPamAuthenticate u p, DPamAcctMgmt u]"
  by (auto simp: dm_auth_check_def dsys_eq Let_def split: if_splits)

text \<open>While a session is locked, \<open>handle_auth\<close> keeps its process and user, and unlocks it exactly when PAM accepts its user.\<close>

lemma handle_auth_locked:
  assumes "locked s"
  shows "session_pid (handle_auth env args s) = session_pid s"
    and "session_user (handle_auth env args s) = session_user s"
    and "\<not> locked (handle_auth env args s) \<longleftrightarrow>
      (\<exists>u p. strchr_split (CHR '' '') args = Some (u, p) \<and> length u < DM_IPC_MAX_USER \<and>
         length p < DM_IPC_MAX_PASS \<and> session_user s = Some u \<and> pam_accepts env (dtrace s) u p)"
proof -
  let ?G = "\<exists>u p. strchr_split (CHR '' '') args = Some (u, p) \<and> length u < DM_IPC_MAX_USER \<and>
         length p < DM_IPC_MAX_PASS \<and> session_user s = Some u \<and> pam_accepts env (dtrace s) u p"
  have keep: "sess x = sess s \<Longrightarrow> session_pid x = session_pid s \<and> session_user x = session_user s \<and> locked x" for x
    using assms by (simp add: sess_def)
  have "session_pid (handle_auth env args s) = session_pid s \<and>
    session_user (handle_auth env args s) = session_user s \<and> (\<not> locked (handle_auth env args s) \<longleftrightarrow> ?G)"
  proof (cases "strchr_split (CHR '' '') args")
    case None
    then show ?thesis using keep [of "handle_auth env args s"] by (simp add: handle_auth_def)
  next
    case (Some up)
    obtain u p where up: "up = (u, p)" by fastforce
    show ?thesis
    proof (cases "length u \<ge> DM_IPC_MAX_USER \<or> length p \<ge> DM_IPC_MAX_PASS")
      case True
      then show ?thesis using Some up keep [of "handle_auth env args s"] by (auto simp: handle_auth_def)
    next
      case False
      obtain r s1 where c: "dm_auth_check env u p 256 s = (r, s1)" by fastforce
      have s1: "sess s1 = sess s" using auth_frame(1) [of env u p 256 s] c by simp
      show ?thesis
      proof (cases r)
        case (Inl e)
        then have "\<not> pam_accepts env (dtrace s) u p" using auth_check_ok [of env u p 256 s] c by auto
        then show ?thesis using Some up c Inl False s1 keep [of "handle_auth env args s"]
          by (simp add: handle_auth_def)
      next
        case (Inr x)
        then have pam: "pam_accepts env (dtrace s) u p" using auth_check_ok [of env u p 256 s] c by auto
        let ?s2 = "dm_ipc_send ''AUTH_OK'' s1"
        have s2: "sess ?s2 = sess s" using s1 by simp
        note k2 = keep [OF s2]
        have "handle_auth env args s = (if session_user s = Some u then dm_unlock_session env ?s2 else ?s2)"
          using Some up c Inr False k2 by (simp add: handle_auth_def Let_def)
        then show ?thesis using k2 unlock_sess [of env ?s2] pam Some up False
          by (auto simp: sess_def)
      qed
    qed
  qed
  then show "session_pid (handle_auth env args s) = session_pid s"
    "session_user (handle_auth env args s) = session_user s"
    "\<not> locked (handle_auth env args s) \<longleftrightarrow> ?G" by auto
qed

lemma handle_auth_accepted:
  assumes "locked s" "strchr_split (CHR '' '') args = Some (u, p)" "length u < DM_IPC_MAX_USER"
    "length p < DM_IPC_MAX_PASS" "session_user s = Some u" "pam_accepts env (dtrace s) u p"
  shows "\<exists>w. dtrace (handle_auth env args s) =
    dtrace s @ [DPamStart u, DPamAuthenticate u p, DPamAcctMgmt u] @ w"
proof -
  obtain s1 where c: "dm_auth_check env u p 256 s = (Inr (), s1)"
    using auth_check_ok [of env u p 256 s] assms(6) by blast
  have s1: "sess s1 = sess s" using auth_frame(1) [of env u p 256 s] c by simp
  let ?s2 = "dm_ipc_send ''AUTH_OK'' s1"
  have "sess ?s2 = sess s" using s1 by simp
  then have "handle_auth env args s = dm_unlock_session env ?s2"
    using assms c sess_eqD [of ?s2 s] by (simp add: handle_auth_def Let_def)
  moreover have "grows s1 (dm_unlock_session env ?s2)" by (simp add: grow)
  ultimately show ?thesis using auth_check_trace [OF c] by (auto simp: grows_def)
qed

text \<open>The trace between two states shows PAM accepting a password of a user.\<close>

definition pam_evidence :: "denv \<Rightarrow> cstr \<Rightarrow> cstr \<Rightarrow> dm \<Rightarrow> dm \<Rightarrow> bool" where
  "pam_evidence env u p s s' \<longleftrightarrow> (\<exists>t0 w. dtrace s' = dtrace s @ t0 @
     [DPamStart u, DPamAuthenticate u p, DPamAcctMgmt u] @ w \<and> pam_accepts env (dtrace s @ t0) u p)"

definition unlock_evidence :: "denv \<Rightarrow> cstr \<Rightarrow> dm \<Rightarrow> dm \<Rightarrow> bool" where
  "unlock_evidence env l s s' \<longleftrightarrow> l = ''CANCEL_LOCK'' \<or>
     (\<exists>u p. l = ''AUTH '' @ u @ CHR '' '' # p \<and> session_user s = Some u \<and> pam_evidence env u p s s')"

lemma evidence_later: "unlock_evidence env l s s1 \<Longrightarrow> grows s1 s2 \<Longrightarrow> unlock_evidence env l s s2"
  unfolding unlock_evidence_def pam_evidence_def grows_def by (elim disjE exE conjE) auto

lemma evidence_earlier:
  assumes "unlock_evidence env l s1 s2" "grows s s1" "session_user s1 = session_user s"
  shows "unlock_evidence env l s s2"
proof -
  obtain w where w: "dtrace s1 = dtrace s @ w" using assms(2) by (auto simp: grows_def)
  have "pam_evidence env u p s1 s2 \<Longrightarrow> pam_evidence env u p s s2" for u p
    unfolding pam_evidence_def w by (metis append.assoc)
  then show ?thesis using assms(1,3) unfolding unlock_evidence_def by auto
qed

lemma dispatch_locked:
  assumes "locked s"
  shows "session_pid (dispatch_message env l s) = session_pid s \<and>
    session_user (dispatch_message env l s) = session_user s \<and>
    (\<not> locked (dispatch_message env l s) \<longrightarrow> unlock_evidence env l s (dispatch_message env l s))"
proof (cases rule: dispatch_cases [of env l s])
  case (auth args)
  have "unlock_evidence env l s (handle_auth env args s)" if nl: "\<not> locked (handle_auth env args s)"
  proof -
    obtain u p where a: "strchr_split (CHR '' '') args = Some (u, p)" "length u < DM_IPC_MAX_USER"
      "length p < DM_IPC_MAX_PASS" "session_user s = Some u" "pam_accepts env (dtrace s) u p"
      using handle_auth_locked(3) [OF assms, of env args] nl by blast
    have "pam_evidence env u p s (handle_auth env args s)"
      using handle_auth_accepted [OF assms a] a(5) unfolding pam_evidence_def
      by (metis append_Nil append_Nil2)
    with a auth(2) show ?thesis unfolding unlock_evidence_def by (auto simp: strchr_split_Some)
  qed
  then show ?thesis using auth handle_auth_locked [OF assms, of env args] by simp
next
  case unlock
  then show ?thesis using unlock_sess [of env s] by (simp add: unlock_evidence_def sess_def)
next
  case other
  then show ?thesis using assms by (simp add: sess_def)
qed

lemma dispatch_lines_unlock:
  "locked s \<Longrightarrow> \<not> locked (dispatch_lines env ls s) \<Longrightarrow>
   \<exists>l \<in> set ls. unlock_evidence env l s (dispatch_lines env ls s)"
proof (induction ls arbitrary: s)
  case (Cons l ls)
  let ?s1 = "if l \<noteq> [] then dispatch_message env l s else s"
  have u: "session_user ?s1 = session_user s" using dispatch_locked [OF Cons(2), of env l] by simp
  have g: "grows s ?s1" by (simp add: grow)
  have eq: "dispatch_lines env (l # ls) s = dispatch_lines env ls ?s1" by simp
  show ?case
  proof (cases "locked ?s1")
    case True
    obtain k where k: "k \<in> set ls" "unlock_evidence env k ?s1 (dispatch_lines env ls ?s1)"
      using Cons.IH [OF True] Cons(3) unfolding eq by blast
    show ?thesis unfolding eq using evidence_earlier [OF k(2) g u] k(1) by auto
  next
    case False
    then have "unlock_evidence env l s ?s1"
      using dispatch_locked [OF Cons(2), of env l] Cons(2) by (auto split: if_splits)
    from evidence_later [OF this, of "dispatch_lines env ls ?s1"] show ?thesis
      unfolding eq by (auto simp: grow simp del: dispatch_lines_simps)
  qed
qed simp

text \<open>A message on the socket unlocks only through a line among those received.\<close>

definition received :: "denv \<Rightarrow> dm \<Rightarrow> cstr list" where
  "received env s =
     (let space = DM_IPC_MAX_MSG - ipc_buf_len s - 1 in
      case d_read env (dtrace s @ [DRead (ipc_client_fd s) space]) of
        Inl _ \<Rightarrow> []
      | Inr data \<Rightarrow> fst (ipc_scan [] (take (nat (ipc_buf_len s)) (ipc_buf s) @ take (nat space) data)))"

lemma ipc_handle_unlock:
  assumes "locked s" and "\<not> locked (dm_ipc_handle env s)"
  shows "\<exists>l \<in> set (received env s). unlock_evidence env l s (dm_ipc_handle env s)"
proof -
  define s1 where "s1 = dlog (DRead (ipc_client_fd s) (DM_IPC_MAX_MSG - ipc_buf_len s - 1)) s"
  have l: "sess x = sess s \<Longrightarrow> locked x" for x using assms(1) by (simp add: sess_def)
  have L: "locked s1" "locked (drop_client s)" "locked (drop_client s1)" by (rule l, simp add: s1_def)+
  obtain data where d: "d_read env (dtrace s1) = Inr data"
    using assms L by (auto simp: dm_ipc_handle_def Let_def s1_def split: if_splits sum.splits)
  define n where "n = take (nat (DM_IPC_MAX_MSG - ipc_buf_len s - 1)) data"
  let ?c = "take (nat (ipc_buf_len s)) (ipc_buf s) @ n"
  let ?s2 = "s1\<lparr>ipc_buf := ?c, ipc_buf_len := ipc_buf_len s + int (length n)\<rparr>"
  have n: "dm_ipc_handle env s = ipc_consume env ?c ?s2"
    using assms L d by (simp add: dm_ipc_handle_def Let_def s1_def n_def split: if_splits)
  have rec: "received env s = fst (ipc_scan [] ?c)" using d by (simp add: received_def Let_def s1_def n_def)
  have s2: "locked ?s2" "session_user ?s2 = session_user s" "grows s ?s2"
    using assms(1) by (simp_all add: s1_def grow)
  let ?s3 = "dispatch_lines env (received env s) ?s2"
  have c: "locked (ipc_consume env ?c ?s2) = locked ?s3" "grows ?s3 (ipc_consume env ?c ?s2)"
    unfolding rec by (simp_all add: ipc_consume_def Let_def split_beta)
  then have "\<not> locked ?s3" using assms(2) n by simp
  with dispatch_lines_unlock [OF s2(1)] obtain k where k: "k \<in> set (received env s)" "unlock_evidence env k ?s2 ?s3"
    by blast
  from evidence_later [OF evidence_earlier [OF k(2) s2(3,2)] c(2)] k(1) show ?thesis unfolding n by blast
qed

lemma reap_keeps_sess: "session_pid s \<notin> set pids \<Longrightarrow> sess (reap_children env pids s) = sess s"
proof (induction pids arbitrary: s)
  case (Cons p ps)
  have "sess (reap_one env p s) = sess s" using Cons(2) by (auto simp: reap_one_def)
  then show ?case using Cons(1) [of "reap_one env p s"] Cons(2) sess_eqD [of "reap_one env p s" s]
    by (auto simp: reap_children_def)
qed (simp add: reap_children_def)

lemma methods_keep_lock: "locked (s :: dm) \<Longrightarrow> locked (fold (\<lambda>m s. snd (handle_method env m s)) ms s)"
proof (rule fold_keeps [where P = locked])
  fix m and s :: dm assume "locked s"
  then show "locked (snd (handle_method env m s))"
    using method_views [of env s m] lock_sess(1) [of env s] by (auto simp: method_result_def sess_def)
qed

lemma turn_unlock:
  assumes "locked s" and "session_pid s \<notin> set (t_children t)" and "\<not> locked (dm_turn env t s)"
  shows "t_ipc t \<and> (\<exists>l \<in> set (received env (dm_seat_dispatch (t_seat t) (reap_children env (t_children t) s))). unlock_evidence env l s (dm_turn env t s))"
proof -
  define s1 where "s1 = dm_seat_dispatch (t_seat t) (reap_children env (t_children t) s)"
  define s2 where "s2 = (if t_ipc t \<and> (ipc_client_fd s \<ge> 0 \<or> ipc_listen_fd s \<ge> 0) then
    (if ipc_client_fd s1 \<ge> 0 then dm_ipc_handle env s1 else dm_ipc_accept env s1) else s1)"
  define s3 where "s3 = (if dm_dbus s2 then fold (\<lambda>m s. snd (handle_method env m s)) (t_dbus t) s2 else s2)"
  have s1: "sess s1 = sess s" using reap_keeps_sess [OF assms(2)] by (simp add: s1_def)
  have l1: "locked s1" "session_user s1 = session_user s" using sess_eqD [OF s1] assms(1) by auto
  have g1: "grows s s1" by (simp add: s1_def grow)
  have turn: "dm_turn env t s = restart_xserver env (restart_greeter env
      (if lid_fd s3 \<ge> 0 then handle_lid_events (t_lid t) s3 else s3))"
    unfolding dm_turn_def Let_def s1_def [symmetric] s2_def [symmetric] s3_def [symmetric] ..
  then have "sess (dm_turn env t s) = sess s3" by simp
  then have "\<not> locked s3" using assms(3) sess_eqD by blast
  then have n2: "\<not> locked s2" using methods_keep_lock [of s2 env "t_dbus t"] unfolding s3_def by (auto split: if_splits)
  moreover have "locked (dm_ipc_accept env s1)"
    using l1 sess_eqD [OF accept_inv(2), of env s1] by simp
  ultimately have h: "t_ipc t" "\<not> locked (dm_ipc_handle env s1)" "s2 = dm_ipc_handle env s1"
    using l1(1) unfolding s2_def by (auto split: if_splits)
  have g2: "grows s2 (dm_turn env t s)" unfolding turn by (simp add: s3_def grow)
  obtain k where k: "k \<in> set (received env s1)" "unlock_evidence env k s1 s2"
    using ipc_handle_unlock [OF l1(1) h(2)] h(3) by blast
  from evidence_later [OF evidence_earlier [OF k(2) g1 l1(2)] g2] k(1) h(1) show ?thesis unfolding s1_def by blast
qed

subsection \<open>The session child\<close>

definition is_exec :: "cact \<Rightarrow> bool" where
  "is_exec a = (case a of Exec _ \<Rightarrow> True | _ \<Rightarrow> False)"

lemma child_env_no_exec: "list_all (\<lambda>a. \<not> is_exec a) (child_env rt path s pw)"
  unfolding child_env_def Let_def by (simp add: is_exec_def)

lemma child_exec_extends: "\<exists>post. child_exec c_ret pw cmd log = log @ post"
  by (simp add: child_exec_def Let_def act_def)

lemma session_child_exec:
  assumes "\<not> dev_mode s" and "list_ex is_exec (session_child c_ret rt path s pw cmd)"
  shows "\<exists>pre post. session_child c_ret rt path s pw cmd =
      pre @ [InitGroups (dpw_name pw) (dpw_gid pw), SetGid (dpw_gid pw), SetUid (dpw_uid pw)] @ post \<and>
    list_all (\<lambda>a. \<not> is_exec a) pre \<and>
    c_ret (pre @ [InitGroups (dpw_name pw) (dpw_gid pw)]) = 0 \<and>
    c_ret (pre @ [InitGroups (dpw_name pw) (dpw_gid pw), SetGid (dpw_gid pw)]) = 0 \<and>
    c_ret (pre @ [InitGroups (dpw_name pw) (dpw_gid pw), SetGid (dpw_gid pw), SetUid (dpw_uid pw)]) = 0"
proof -
  define pre where "pre = child_env rt path s pw"
  note ne = child_env_no_exec [of rt path s pw, folded pre_def]
  then have nx: "\<not> list_ex is_exec pre" by (simp add: list_ex_iff list_all_iff)
  define ig where "ig = InitGroups (dpw_name pw) (dpw_gid pw)"
  have [simp]: "\<not> is_exec ig" "\<not> is_exec (SetGid g)" "\<not> is_exec (SetUid g)" "\<not> is_exec (ExitChild k)" for g k
    by (simp_all add: ig_def is_exec_def)
  have r: "c_ret (pre @ [ig]) = 0" "c_ret (pre @ [ig, SetGid (dpw_gid pw)]) = 0"
    "c_ret (pre @ [ig, SetGid (dpw_gid pw), SetUid (dpw_uid pw)]) = 0"
    using assms nx unfolding session_child_def Let_def pre_def [symmetric] ig_def [symmetric] act_def
    by (auto split: if_splits)
  have "session_child c_ret rt path s pw cmd =
      child_exec c_ret pw cmd (pre @ [ig, SetGid (dpw_gid pw), SetUid (dpw_uid pw)])"
    using assms(1) r unfolding session_child_def Let_def pre_def [symmetric] ig_def [symmetric] act_def
    by simp
  with child_exec_extends [of c_ret pw cmd "pre @ [ig, SetGid (dpw_gid pw), SetUid (dpw_uid pw)]"] ne r
  show ?thesis unfolding ig_def by auto
qed

subsection \<open>A login that succeeds\<close>

definition forks_succeed :: "denv \<Rightarrow> bool" where
  "forks_succeed env \<longleftrightarrow> (\<forall>t c. d_ret env (t @ [DFork c]) > 0)"

lemma forks_succeedD:
  assumes "forks_succeed env"
  shows "\<not> d_ret env (t @ [DFork c]) < 0" "d_ret env (t @ [DFork c]) > 0" "d_ret env (t @ [DFork c]) \<noteq> 0"
proof -
  show "d_ret env (t @ [DFork c]) > 0" using assms by (auto simp: forks_succeed_def)
  then show "\<not> d_ret env (t @ [DFork c]) < 0" "d_ret env (t @ [DFork c]) \<noteq> 0" by auto
qed

lemma find_session_exec_found:
  assumes "\<forall>t. \<exists>cmd. d_desktop env t = Some (Some cmd)" and "colon_dirs [] (d_data_dirs env) \<noteq> []"
  shows "fst (find_session_exec env d s) \<noteq> None"
proof -
  obtain x xs where dirs: "colon_dirs [] (d_data_dirs env) = x # xs"
    using assms(2) by (auto simp: neq_Nil_conv)
  obtain cmd where "d_desktop env (dtrace (dlog (DDesktopLoad (snprintf 512 (x @ ''/xsessions/'' @ d))) s)) = Some (Some cmd)"
    using assms(1) by blast
  then show ?thesis by (simp add: find_session_exec_def dirs Let_def del: dlog_fields)
qed

lemma session_start_ok:
  assumes "\<forall>t. d_passwd env t \<noteq> None" and "\<And>x. fst (find_session_exec env d x) \<noteq> None"
    and "forks_succeed env"
  shows "fst (dm_session_start env u d s)"
proof -
  obtain pw where "d_passwd env (dtrace (dlog (DGetpwnam u) s)) = Some pw" using assms(1) by fastforce
  moreover obtain cmd where "fst (find_session_exec env d (dlog (DGetpwnam u) s)) = Some cmd"
    using assms(2) by fastforce
  ultimately show ?thesis
    by (simp add: dm_session_start_def Let_def split_beta dsys_eq forks_succeedD [OF assms(3)] del: dlog_fields)
qed

lemma session_start_greeter: "greeter_pid (snd (dm_session_start env u d s)) = greeter_pid s"
proof -
  have [simp]: "greeter_pid (snd (find_session_in env n ds x)) = greeter_pid x" for n ds x
    by (induction ds arbitrary: x) (simp_all add: Let_def split: option.splits)
  have [simp]: "greeter_pid (snd (dm_auth_start_session env u x)) = greeter_pid x"
    "greeter_pid (dm_auth_end_session u x) = greeter_pid x" for x
    by (simp_all add: dm_auth_start_session_def dm_auth_end_session_def dsys_eq Let_def)
  show ?thesis
    by (simp add: dm_session_start_def find_session_exec_def Let_def split_beta dsys_eq dm_emitters
        split: option.splits)
qed

lemma greeter_stop_pid: "greeter_pid (dm_greeter_stop env s) \<le> 0"
  by (simp add: dm_greeter_stop_def Let_def split_beta)

text \<open>\<open>handle_auth\<close> when nothing is locked and PAM accepts.\<close>

lemma handle_auth_login:
  assumes "\<not> locked s" and "strchr_split (CHR '' '') args = Some (u, p)"
    and "length u < DM_IPC_MAX_USER" "length p < DM_IPC_MAX_PASS" and "pam_accepts env (dtrace s) u p"
    and "session_desktop s = Some d \<or> session_desktop s = None \<and> default_session s = Some d"
  shows "\<exists>x. \<not> locked x \<and> handle_auth env args s = snd (dm_session_start env u d (dm_greeter_stop env x))"
proof -
  obtain s1 where c: "dm_auth_check env u p 256 s = (Inr (), s1)"
    using auth_check_ok [of env u p 256 s] assms(5) by blast
  let ?s2 = "dm_ipc_send ''AUTH_OK'' s1"
  have s1: "sess s1 = sess s" using auth_frame(1) [of env u p 256 s] c by simp
  have k1: "session_desktop s1 = session_desktop s \<and> default_session s1 = default_session s"
    using c by (auto simp: dm_auth_check_def dsys_eq Let_def split: if_splits)
  have l2: "\<not> locked ?s2" using sess_eqD [of ?s2 s] s1 assms(1) by simp
  have "handle_auth env args s = snd (dm_session_start env u d (dm_greeter_stop env ?s2))"
    using assms(2-4,6) c l2 k1 by (auto simp: handle_auth_def Let_def split: option.splits)
  with l2 show ?thesis by blast
qed

subsection \<open>Who is running after a turn\<close>

definition display_answers :: "denv \<Rightarrow> bool" where
  "display_answers env \<longleftrightarrow>
     (\<forall>t p. d_ret env (t @ [DAccess p]) = 0) \<and> (\<forall>t d. d_ret env (t @ [DXcbConnect d]) = 0)"

definition someone_runs :: "dm \<Rightarrow> bool" where
  "someone_runs s \<longleftrightarrow> greeter_pid s \<noteq> 0 \<or> session_pid s \<noteq> 0 \<or> xserver_pid s = 0"

lemma greeter_start_runs:
  "forks_succeed env \<Longrightarrow> greeter_pid (snd (dm_greeter_start env s)) \<noteq> 0"
  by (simp add: dm_greeter_start_def dsys_eq Let_def forks_succeedD)

lemma restart_greeter_runs: "forks_succeed env \<Longrightarrow> someone_runs (restart_greeter env s)"
  using greeter_start_runs [of env s] by (auto simp: restart_greeter_def someone_runs_def)

lemma xserver_ready_answers: "display_answers env \<Longrightarrow> fst (dm_xserver_ready env s)"
  by (simp add: dm_xserver_ready_def display_answers_def dsys_eq Let_def numeral_eq_Suc)

lemma xserver_start_fail: "\<not> fst (dm_xserver_start env vt s) \<Longrightarrow>
    xserver_pid (snd (dm_xserver_start env vt s)) = xserver_pid s"
proof -
  have [simp]: "xserver_pid (snd (find_free_display_from n i env x)) = xserver_pid x" for n i x
    by (induction n arbitrary: i x) (simp_all add: dsys_eq Let_def)
  have [simp]: "xserver_pid (snd (generate_xauth env x)) = xserver_pid x" for x
    by (simp add: generate_xauth_def dsys_eq Let_def split: option.splits)
  show "\<not> fst (dm_xserver_start env vt s) \<Longrightarrow> ?thesis"
    by (auto simp: dm_xserver_start_def find_free_display_def dsys_eq Let_def split_beta split: if_splits)
qed

lemma restart_xserver_runs:
  assumes "forks_succeed env" and "display_answers env" and "someone_runs s"
  shows "someone_runs (restart_xserver env s)"
proof (cases "xserver_pid s = 0 \<and> dm_running s")
  case True
  define s1 where "s1 = dm_greeter_stop env s"
  define s2 where "s2 = snd (dm_xserver_start env (greeter_vt s1) s1)"
  have x1: "xserver_pid s1 = 0" using True by (simp add: s1_def)
  have "restart_xserver env s = (if fst (dm_xserver_start env (greeter_vt s1) s1)
      then snd (dm_greeter_start env (snd (dm_xserver_ready env s2))) else s2)"
    using True xserver_ready_answers [OF assms(2)]
    by (simp add: restart_xserver_def Let_def split_beta s1_def s2_def)
  then show ?thesis
    using greeter_start_runs [OF assms(1)] xserver_start_fail [of env "greeter_vt s1" s1] x1
    by (auto simp: someone_runs_def s2_def)
next
  case False
  then show ?thesis using assms(3) by (auto simp: restart_xserver_def)
qed

lemma turn_runs:
  "forks_succeed env \<Longrightarrow> display_answers env \<Longrightarrow> someone_runs (dm_turn env t s)"
  unfolding dm_turn_def Let_def by (rule restart_xserver_runs [OF _ _ restart_greeter_runs])

end
