(* ===== verification/Dm_Props.thy ===== *)
theory Dm_Props
  imports Dm_Proto
begin

section \<open>isde-dm: the properties\<close>

text \<open>
  What the display manager guarantees: the session and buffer invariants in every reachable
  state, what can unlock a session, how a login runs from message to session, that the child
  gives up its privileges before it execs, that a restart rule leaves somebody running, that
  power actions need their permission, and the two wire formats read back.
\<close>

subsection \<open>A concrete machine\<close>

definition demo_ret :: "dcall list \<Rightarrow> int" where
  "demo_ret t = (case last t of
     DFork _ \<Rightarrow> 100 + int (length t)
   | DWaitpid p _ \<Rightarrow> p
   | DAccept _ \<Rightarrow> 7
   | _ \<Rightarrow> 0)"

definition demo_denv :: denv where
  "demo_denv = \<lparr>d_ret = demo_ret,
     d_read = (\<lambda>_. Inr (''AUTH alice secret'' @ [CHR 0x0A])),
     d_random = (\<lambda>_. Some (replicate 16 7)),
     d_pam_strerror = (\<lambda>_. ''Authentication failure''),
     d_passwd = (\<lambda>_. Some \<lparr>dpw_name = ''alice'', dpw_uid = 1000, dpw_gid = 100,
        dpw_dir = ''/home/alice'', dpw_shell = None\<rparr>),
     d_desktop = (\<lambda>_. Some (Some ''isde-session'')),
     d_scan = (\<lambda>_. [(Some ''ISDE'', Some ''isde-x11.desktop'')]),
     d_data_dirs = ''/usr/local/share:/usr/share'', d_rundir = ''/run/isde-dm''\<rparr>"

definition demo_boot :: dm_boot where
  "demo_boot = \<lparr>b_root = True, b_rundir_ok = True, b_pipe_ok = True, b_seat_ok = True, b_lid_fd = -1,
     b_listen_fd = 3, b_dbus_ok = True, b_vt = 7\<rparr>"

definition idle_turn :: dturn where
  "idle_turn = \<lparr>t_children = [], t_seat = [], t_ipc = False, t_dbus = [], t_lid = []\<rparr>"

definition lock_call :: ddbus_msg where
  "lock_call = \<lparr>dm_is_call = True, dm_iface = Some DM_DBUS_INTERFACE, dm_member = Some ''Lock'',
     dm_get_s = None, dm_get_ss = None\<rparr>"

definition demo_up :: dm where
  "demo_up = the (dm_init demo_denv None demo_boot)"

definition demo_conn :: dm where
  "demo_conn = dm_turn demo_denv (idle_turn\<lparr>t_ipc := True\<rparr>) demo_up"

definition demo_login :: dm where
  "demo_login = dm_turn demo_denv (idle_turn\<lparr>t_ipc := True\<rparr>) demo_conn"

definition demo_locked :: dm where
  "demo_locked = dm_turn demo_denv (idle_turn\<lparr>t_dbus := [lock_call]\<rparr>) demo_login"

text \<open>A locked session with a connected greeter, written down directly.\<close>

definition lock_state :: dm where
  "lock_state = dm_defaults\<lparr>dm_running := True, xserver_pid := 50, session_pid := 60,
     session_user := Some ''alice'', greeter_pid := 70, locked := True, ipc_listen_fd := 3,
     ipc_client_fd := 7, dm_dbus := True\<rparr>"

lemma demo_forks: "forks_succeed demo_denv" "forks_ok demo_denv" "display_answers demo_denv"
  by (simp_all add: forks_succeed_def forks_ok_def display_answers_def demo_denv_def demo_ret_def)

lemma demo_up_init: "dm_init demo_denv None demo_boot = Some demo_up"
proof -
  have "\<not> Option.is_none (dm_init demo_denv None demo_boot)" by code_simp
  then show ?thesis by (auto simp: demo_up_def Option.is_none_def)
qed

lemma demo_running: "dm_running demo_up" "dm_running demo_conn" "dm_running demo_login"
  by code_simp+

lemma demo_locked_reachable: "dm_reachable demo_denv demo_locked"
proof -
  have "dm_reachable demo_denv demo_up" using demo_up_init by (rule dm_reachable.init)
  then have "dm_reachable demo_denv demo_conn" unfolding demo_conn_def
    by (rule dm_reachable.turn) (simp_all add: demo_running idle_turn_def)
  then have "dm_reachable demo_denv demo_login" unfolding demo_login_def
    by (rule dm_reachable.turn) (simp_all add: demo_running idle_turn_def)
  then show ?thesis unfolding demo_locked_def
    by (rule dm_reachable.turn) (simp_all add: demo_running idle_turn_def)
qed

subsection \<open>The state and the greeter connection\<close>

text \<open>
  C12. In every state the display manager reaches, a session process and a session user exist
  together, only a running session is locked, and while a greeter is connected its receive buffer
  holds at most 4095 bytes, all of them in the buffer. The hypothesis says that \<^verbatim>\<open>fork\<close> in
  the parent never returns 0.
\<close>

theorem dm_reachable_invariant:
  assumes "forks_ok env" and "dm_reachable env s"
  shows "(session_pid s \<noteq> 0 \<longleftrightarrow> session_user s \<noteq> None) \<and> (locked s \<longrightarrow> session_pid s \<noteq> 0) \<and>
    (ipc_client_fd s \<ge> 0 \<longrightarrow> 0 \<le> ipc_buf_len s \<and> ipc_buf_len s < DM_IPC_MAX_MSG \<and>
       ipc_buf_len s \<le> int (length (ipc_buf s)))"
  using dm_reachable_inv [OF assms] by (simp add: dm_inv_def session_inv_def conn_inv_def)

theorem dm_reachable_invariant_witness:
  "forks_ok demo_denv \<and> dm_reachable demo_denv demo_locked \<and> locked demo_locked \<and>
   session_pid demo_locked \<noteq> 0"
proof -
  have "locked demo_locked" by code_simp
  then show ?thesis
    using dm_reachable_invariant [OF demo_forks(2) demo_locked_reachable] demo_forks demo_locked_reachable
    by blast
qed

text \<open>
  C13. While a session is locked and its process lives, the only thing in a turn of the event loop
  that unlocks it is a line on the greeter socket: either \<^verbatim>\<open>CANCEL_LOCK\<close>, or \<^verbatim>\<open>AUTH\<close>
  for the user of the session with a password for which PAM started, authenticated and accepted
  the account. No bus method, seat or lid event, exit of another process or restart does.
\<close>

theorem turn_unlocks_only_by_auth:
  assumes "locked s" and "session_pid s \<notin> set (t_children t)" and "\<not> locked (dm_turn env t s)"
  shows "t_ipc t \<and>
    (\<exists>l \<in> set (received env (dm_seat_dispatch (t_seat t) (reap_children env (t_children t) s))).
      l = ''CANCEL_LOCK'' \<or>
      (\<exists>u p t0 w. l = ''AUTH '' @ u @ CHR '' '' # p \<and> session_user s = Some u \<and>
         dtrace (dm_turn env t s) =
           dtrace s @ t0 @ [DPamStart u, DPamAuthenticate u p, DPamAcctMgmt u] @ w \<and>
         d_ret env (dtrace s @ t0 @ [DPamStart u]) = PAM_SUCCESS \<and>
         d_ret env (dtrace s @ t0 @ [DPamStart u, DPamAuthenticate u p]) = PAM_SUCCESS \<and>
         d_ret env (dtrace s @ t0 @ [DPamStart u, DPamAuthenticate u p, DPamAcctMgmt u]) = PAM_SUCCESS))"
proof -
  have e: "unlock_evidence env l s s' \<longleftrightarrow> l = ''CANCEL_LOCK'' \<or>
      (\<exists>u p t0 w. l = ''AUTH '' @ u @ CHR '' '' # p \<and> session_user s = Some u \<and>
         dtrace s' = dtrace s @ t0 @ [DPamStart u, DPamAuthenticate u p, DPamAcctMgmt u] @ w \<and>
         d_ret env (dtrace s @ t0 @ [DPamStart u]) = PAM_SUCCESS \<and>
         d_ret env (dtrace s @ t0 @ [DPamStart u, DPamAuthenticate u p]) = PAM_SUCCESS \<and>
         d_ret env (dtrace s @ t0 @ [DPamStart u, DPamAuthenticate u p, DPamAcctMgmt u]) = PAM_SUCCESS)" for l s'
    unfolding unlock_evidence_def pam_evidence_def pam_accepts_def append_assoc by blast
  show ?thesis using turn_unlock [OF assms] unfolding e .
qed

theorem turn_unlocks_only_by_auth_witness:
  "locked lock_state \<and> \<not> locked (dm_turn demo_denv (idle_turn\<lparr>t_ipc := True\<rparr>) lock_state) \<and>
   received demo_denv lock_state \<noteq> []"
proof -
  have l: "locked lock_state" by (simp add: lock_state_def dm_defaults_def)
  have c: "session_pid lock_state \<notin> set (t_children (idle_turn\<lparr>t_ipc := True\<rparr>))" by (simp add: idle_turn_def)
  have n: "\<not> locked (dm_turn demo_denv (idle_turn\<lparr>t_ipc := True\<rparr>) lock_state)" by code_simp
  have "dm_seat_dispatch (t_seat (idle_turn\<lparr>t_ipc := True\<rparr>))
      (reap_children demo_denv (t_children (idle_turn\<lparr>t_ipc := True\<rparr>)) lock_state) = lock_state"
    by (simp add: idle_turn_def dm_seat_dispatch_def reap_children_def)
  with turn_unlocks_only_by_auth [OF l c n] l n show ?thesis by auto
qed

text \<open>
  A login. With no session locked, a well-formed \<^verbatim>\<open>AUTH\<close> line that PAM accepts, for a user of
  the password database and a desktop entry with an \<^verbatim>\<open>Exec\<close>, stops the greeter, and if the fork
  succeeds the forked process is the session of that user, on that desktop.
\<close>

theorem login_starts_session:
  assumes "\<not> locked s" and "strchr_split (CHR '' '') args = Some (u, p)"
    and "length u < DM_IPC_MAX_USER" "length p < DM_IPC_MAX_PASS"
    and "pam_accepts env (dtrace s) u p"
    and "session_desktop s = Some d \<or> session_desktop s = None \<and> default_session s = Some d"
    and "\<forall>t. d_passwd env t \<noteq> None" and "\<forall>t. \<exists>cmd. d_desktop env t = Some (Some cmd)"
    and "colon_dirs [] (d_data_dirs env) \<noteq> []" and "forks_succeed env"
  shows "let s' = dispatch_message env (''AUTH '' @ args) s in
    session_user s' = Some u \<and> session_desktop s' = Some d \<and> session_pid s' > 0 \<and>
    greeter_pid s' \<le> 0 \<and> \<not> locked s'"
proof -
  obtain x where x: "\<not> locked x"
    "handle_auth env args s = snd (dm_session_start env u d (dm_greeter_stop env x))"
    using handle_auth_login [OF assms(1-6)] by blast
  let ?s3 = "dm_greeter_stop env x"
  have eq: "dispatch_message env (''AUTH '' @ args) s = snd (dm_session_start env u d ?s3)"
    using x(2) by (simp add: dispatch_message_def starts_with_def)
  obtain ok s4 where r: "dm_session_start env u d ?s3 = (ok, s4)" by fastforce
  have ok: "ok"
    using session_start_ok [OF assms(7) find_session_exec_found [OF assms(8,9)] assms(10), of u d ?s3] r by simp
  have st: "session_user s4 = Some u \<and> session_desktop s4 = Some d \<and> session_pid s4 > 0"
    using session_start_sess(4) [OF r ok] forks_succeedD(2) [OF assms(10)] by (auto simp: fork_result_def)
  have "locked s4 = locked ?s3" by (rule session_start_sess(2) [OF r])
  moreover have "locked ?s3 = locked x" using greeter_stop_frame(1) sess_eqD by blast
  ultimately have "\<not> locked s4" using x(1) by simp
  moreover have "greeter_pid s4 \<le> 0"
    using session_start_greeter [of env u d ?s3] greeter_stop_pid [of env x] r by simp
  ultimately show ?thesis using st r unfolding eq Let_def by simp
qed

definition greeter_state :: dm where
  "greeter_state = dm_defaults\<lparr>dm_running := True, xserver_pid := 50, greeter_pid := 70,
     ipc_listen_fd := 3, ipc_client_fd := 7, dm_dbus := True\<rparr>"

theorem login_starts_session_witness:
  "session_user (dispatch_message demo_denv ''AUTH alice secret'' greeter_state) = Some ''alice''"
proof -
  have "\<not> locked greeter_state" "session_desktop greeter_state = None \<and> default_session greeter_state = Some ''isde-x11.desktop''"
    by (simp_all add: greeter_state_def dm_defaults_def)
  moreover have "strchr_split (CHR '' '') ''alice secret'' = Some (''alice'', ''secret'')" by simp
  moreover have "length ''alice'' < DM_IPC_MAX_USER" "length ''secret'' < DM_IPC_MAX_PASS"
    by (simp_all add: DM_IPC_MAX_USER_def DM_IPC_MAX_PASS_def)
  moreover have "pam_accepts demo_denv (dtrace greeter_state) ''alice'' ''secret''"
    by (simp add: pam_accepts_def demo_denv_def demo_ret_def PAM_SUCCESS_def)
  moreover have "\<forall>t. d_passwd demo_denv t \<noteq> None" "\<forall>t. \<exists>cmd. d_desktop demo_denv t = Some (Some cmd)"
    "colon_dirs [] (d_data_dirs demo_denv) \<noteq> []"
    by (simp_all add: demo_denv_def)
  ultimately show ?thesis
    using login_starts_session [of greeter_state "''alice secret''" "''alice''" "''secret''" demo_denv "''isde-x11.desktop''"]
      demo_forks(1) by (simp add: Let_def)
qed


definition alice :: dpasswd where
  "alice = \<lparr>dpw_name = ''alice'', dpw_uid = 1000, dpw_gid = 100, dpw_dir = ''/home/alice'', dpw_shell = None\<rparr>"


subsection \<open>The wire formats\<close>

lemma ipc_scan_same: "length (snd (ipc_scan line cs)) = length line + length cs \<Longrightarrow>
    snd (ipc_scan line cs) = line @ cs"
proof (induction line cs rule: ipc_scan.induct)
  case (2 line c cs)
  then show ?case using ipc_scan_length [of "[]" cs "fst (ipc_scan [] cs)" "snd (ipc_scan [] cs)"]
    by (cases "c = CHR 0x0A") (auto simp: split_beta Let_def)
qed simp

lemma ipc_scan_lines:
  "\<forall>l \<in> set ls. CHR 0x0A \<notin> set l \<and> CHR 0x00 \<notin> set l \<Longrightarrow>
   ipc_scan [] (concat (map (\<lambda>l. l @ [CHR 0x0A]) ls)) = (ls, [])"
  by (induction ls) (simp_all add: ipc_scan_prefix)

text \<open>The rest that \<open>ipc_scan\<close> leaves is what stays in the receive buffer of a kept connection.\<close>

lemma ipc_consume_rest:
  assumes "ipc_buf_len s = int (length content)" and "ipc_buf s = content"
    and "conn (dispatch_lines env (fst (ipc_scan [] content)) s) = conn s"
  shows "take (nat (ipc_buf_len (ipc_consume env content s))) (ipc_buf (ipc_consume env content s)) =
    snd (ipc_scan [] content)"
proof -
  obtain ls rest where sc: "ipc_scan [] content = (ls, rest)" by fastforce
  have c: "ipc_buf_len (dispatch_lines env ls s) = int (length content)" "ipc_buf (dispatch_lines env ls s) = content"
    using assms conn_eqD [OF assms(3)] sc by simp_all
  show ?thesis
  proof (cases "rest = content")
    case True
    then show ?thesis using c by (simp add: ipc_consume_def Let_def sc)
  next
    case False
    then have "length rest \<noteq> length content" using ipc_scan_same [of "[]" content] sc by auto
    then show ?thesis using c by (cases rest) (simp_all add: ipc_consume_def Let_def sc)
  qed
qed

text \<open>
  Lines written to the greeter socket come out of the receive loop as they went in, whatever
  the sizes of the pieces the reads deliver: the loop keeps the incomplete rest of one read in
  front of the next.
\<close>

theorem ipc_lines_in_any_chunks:
  assumes "\<forall>l \<in> set ls. CHR 0x0A \<notin> set l \<and> CHR 0x00 \<notin> set l"
    and "concat chunks = concat (map (\<lambda>l. l @ [CHR 0x0A]) ls)"
  shows "fold (\<lambda>chunk st. (fst st @ fst (ipc_scan [] (snd st @ chunk)), snd (ipc_scan [] (snd st @ chunk))))
    chunks ([], []) = (ls, [])"
  using ipc.feeds_concat [of chunks]
  unfolding assms(2) ipc_scan_lines [OF assms(1)] ipc.feed_def [abs_def] .

theorem ipc_lines_in_any_chunks_witness:
  "fold (\<lambda>chunk st. (fst st @ fst (ipc_scan [] (snd st @ chunk)), snd (ipc_scan [] (snd st @ chunk))))
    [''LIST_SES'', ''SIONS'' @ [CHR 0x0A] @ ''REB'', ''OOT'' @ [CHR 0x0A]] ([], []) = ([''LIST_SESSIONS'', ''REBOOT''], [])"
  by (rule ipc_lines_in_any_chunks) simp_all

text \<open>The Xauthority format, read back: a 16-bit family and four counted fields.\<close>

fun read16 :: "8 word list \<Rightarrow> (nat \<times> 8 word list) option" where
  "read16 (a # b # r) = Some (unat a * 256 + unat b, r)"
| "read16 _ = None"

definition read_counted :: "8 word list \<Rightarrow> (8 word list \<times> 8 word list) option" where
  "read_counted bs = (case read16 bs of
     None \<Rightarrow> None
   | Some (n, r) \<Rightarrow> if length r < n then None else Some (take n r, drop n r))"

definition read_xauth :: "8 word list \<Rightarrow> (nat \<times> 8 word list \<times> 8 word list \<times> 8 word list \<times> 8 word list) option" where
  "read_xauth bs =
     Option.bind (read16 bs) (\<lambda>(fam, r). Option.bind (read_counted r) (\<lambda>(addr, r).
     Option.bind (read_counted r) (\<lambda>(num, r). Option.bind (read_counted r) (\<lambda>(name, r).
     Option.bind (read_counted r) (\<lambda>(cookie, r). if r = [] then Some (fam, addr, num, name, cookie) else None)))))"

lemma read16_be16: "n < 65536 \<Longrightarrow> read16 (be16 n @ r) = Some (n, r)"
  by (simp add: be16_def unat_of_nat take_bit_eq_mod)

lemma read_counted_be16: "length xs < 65536 \<Longrightarrow> n = length xs \<Longrightarrow> read_counted (be16 n @ xs @ r) = Some (xs, r)"
  by (simp add: read_counted_def read16_be16)

lemma read_counted_end: "length xs < 65536 \<Longrightarrow> n = length xs \<Longrightarrow> read_counted (be16 n @ xs) = Some (xs, [])"
  using read_counted_be16 [of xs n "[]"] by simp

text \<open>
  C17. The Xauthority record that the display manager writes for display \<open>n\<close> reads back, in the
  format of the file, as the wildcard family (65535), no address, the digits of \<open>n\<close>, the protocol
  name and the 16 bytes of the cookie, with nothing left over.
\<close>

theorem xauth_record_reads_back:
  assumes "0 \<le> n" "n < 10 ^ 7" and "length cookie = 16"
  shows "read_xauth (xauth_record n cookie) =
    Some (65535, [], bytes_of (dec_of_int n), bytes_of ''MIT-MAGIC-COOKIE-1'', cookie)"
proof -
  have l: "length (dec_of_int n) \<le> 7"
    using assms length_dec_of_nat [of "nat n" 7] by (simp add: dec_of_int_def nat_less_iff)
  then have fits: "take (length (dec_of_int n)) (snprintf 8 (dec_of_int n)) = dec_of_int n"
    by (simp add: snprintf_fits)
  have [simp]: "length (bytes_of x) = length x" for x by (simp add: bytes_of_def)
  have h: "read_counted (0 # 0 # r) = Some ([], r)" for r
    by (simp add: read_counted_def)
  show ?thesis unfolding xauth_record_def Let_def fits read_xauth_def
    using l assms(3) by (simp add: read_counted_be16 read_counted_end h PROTO_def)
qed

theorem xauth_record_reads_back_witness:
  "read_xauth (xauth_record 12 (replicate 16 7)) =
     Some (65535, [], bytes_of (dec_of_int 12), bytes_of ''MIT-MAGIC-COOKIE-1'', replicate 16 7)"
  by (rule xauth_record_reads_back) simp_all

subsection \<open>Processes and permissions\<close>

text \<open>
  C18. When forks succeed and the X server answers, every turn of the event loop ends with
  somebody to talk to: while an X server runs, there is a greeter or a session.
\<close>

theorem turn_leaves_someone_running:
  assumes "forks_succeed env" and "display_answers env"
  shows "let s' = dm_turn env t s in
    xserver_pid s' \<noteq> 0 \<longrightarrow> greeter_pid s' \<noteq> 0 \<or> session_pid s' \<noteq> 0"
  using turn_runs [OF assms, of t s] by (auto simp: someone_runs_def Let_def)

theorem turn_leaves_someone_running_witness:
  "let s' = dm_turn demo_denv (idle_turn\<lparr>t_children := [70]\<rparr>) greeter_state in
   xserver_pid s' = 50 \<and> (greeter_pid s' \<noteq> 0 \<or> session_pid s' \<noteq> 0)"
proof -
  have "xserver_pid (dm_turn demo_denv (idle_turn\<lparr>t_children := [70]\<rparr>) greeter_state) = 50" by code_simp
  with turn_leaves_someone_running [OF demo_forks(1,3), of "idle_turn\<lparr>t_children := [70]\<rparr>" greeter_state]
  show ?thesis by (simp add: Let_def)
qed

text \<open>
  C19. In every reachable state, the machine was asked to shut down, reboot or suspend only if the
  configuration allows it, whether the request came from the greeter or over the bus.
\<close>

theorem power_needs_permission:
  assumes "dm_reachable env s"
  shows "(DShutdown \<in> set (dtrace s) \<longrightarrow> allow_shutdown s) \<and> (DReboot \<in> set (dtrace s) \<longrightarrow> allow_reboot s) \<and>
    (DSuspend \<in> set (dtrace s) \<longrightarrow> allow_suspend s)"
  using reachable_power [OF assms] by (auto simp: list_all_iff power_ok_def)

definition suspend_call :: ddbus_msg where
  "suspend_call = lock_call\<lparr>dm_member := Some ''Suspend''\<rparr>"

definition demo_suspended :: dm where
  "demo_suspended = dm_turn demo_denv (idle_turn\<lparr>t_dbus := [suspend_call]\<rparr>) demo_up"

theorem power_needs_permission_witness:
  "dm_reachable demo_denv demo_suspended \<and> DSuspend \<in> set (dtrace demo_suspended) \<and> allow_suspend demo_suspended"
proof -
  have "dm_reachable demo_denv demo_up" using demo_up_init by (rule dm_reachable.init)
  then have r: "dm_reachable demo_denv demo_suspended" unfolding demo_suspended_def
    by (rule dm_reachable.turn) (simp_all add: demo_running idle_turn_def)
  moreover have "DSuspend \<in> set (dtrace demo_suspended)" by code_simp
  ultimately show ?thesis using power_needs_permission [OF r] by blast
qed

text \<open>
  When the session's process exits, the turn that reaps it ends the session: no process, no
  user, not locked; and if no greeter was running a new one is started, with no lock user.
\<close>

theorem session_exit_returns_to_greeter:
  assumes "forks_succeed env" and "session_pid s \<noteq> xserver_pid s" "session_pid s \<noteq> greeter_pid s"
  shows "let s' = reap_children env [session_pid s] s in
    session_pid s' = 0 \<and> session_user s' = None \<and> \<not> locked s' \<and> greeter_pid s' \<noteq> 0 \<and>
    (greeter_pid s \<le> 0 \<longrightarrow> last (dtrace s') = DFork (GreeterChild (greeter_cmd s) None))"
proof -
  have eq: "reap_children env [session_pid s] s = dm_session_cleanup env s"
    using assms by (simp add: reap_children_def reap_one_def)
  have "greeter_pid (dm_session_cleanup env s) \<noteq> 0"
    unfolding dm_session_cleanup_def Let_def by (rule greeter_start_runs [OF assms(1)])
  moreover have "greeter_pid s \<le> 0 \<Longrightarrow>
      last (dtrace (dm_session_cleanup env s)) = DFork (GreeterChild (greeter_cmd s) None)"
    by (simp add: dm_session_cleanup_def Let_def dm_greeter_start_def dsys_eq dm_emitters emit_signal_def)
  moreover have "session_pid (dm_session_cleanup env s) = 0 \<and> session_user (dm_session_cleanup env s) = None \<and>
      \<not> locked (dm_session_cleanup env s)"
    using session_cleanup_sess [of env s] by (simp add: sess_def)
  ultimately show ?thesis unfolding eq Let_def by blast
qed

theorem session_exit_returns_to_greeter_witness:
  "greeter_pid (reap_children demo_denv [60] (lock_state\<lparr>greeter_pid := 0\<rparr>)) \<noteq> 0"
proof -
  have p: "session_pid (lock_state\<lparr>greeter_pid := 0\<rparr>) = 60" "xserver_pid (lock_state\<lparr>greeter_pid := 0\<rparr>) = 50"
    by (simp_all add: lock_state_def)
  from session_exit_returns_to_greeter [OF demo_forks(1), of "lock_state\<lparr>greeter_pid := 0\<rparr>"] show ?thesis
    unfolding p by (simp add: Let_def)
qed

text \<open>
  A greeter that exits while the session is locked is not started again by the turn that reaps
  it, nor by any later turn in which nobody else exits and nothing arrives on the socket, whatever
  the bus, the seat and the lid do: the restart rule asks that there be no session, and a second
  \<^verbatim>\<open>Lock\<close> returns early. The session stays locked with nothing to unlock it.
\<close>

theorem locked_greeter_not_restarted:
  assumes "locked s" and "session_pid s \<noteq> 0" and "xserver_pid s \<noteq> 0"
    and "greeter_pid s = 0 \<and> t_children t = [] \<or>
      t_children t = [greeter_pid s] \<and> greeter_pid s \<noteq> xserver_pid s"
    and "\<not> t_ipc t"
  shows "locked (dm_turn env t s) \<and> greeter_pid (dm_turn env t s) = 0 \<and>
    session_pid (dm_turn env t s) = session_pid s \<and> xserver_pid (dm_turn env t s) = xserver_pid s"
proof -
  define v where "v = (\<lambda>s. (greeter_pid s, xserver_pid s, sess s))"
  define s1 where "s1 = dm_seat_dispatch (t_seat t) (reap_children env (t_children t) s)"
  define s3 where "s3 = (if dm_dbus s1 then fold (\<lambda>m s. snd (handle_method env m s)) (t_dbus t) s1 else s1)"
  define s4 where "s4 = (if lid_fd s3 \<ge> 0 then handle_lid_events (t_lid t) s3 else s3)"
  have v1: "v s1 = (0, xserver_pid s, sess s)"
    using assms(4) by (auto simp: v_def s1_def reap_children_def reap_one_def)
  have m: "v (snd (handle_method env m x)) = v x" if "locked x" for m x
    using that method_pids [of x env m] by (simp add: v_def)
  have "locked s1" using v1 assms(1) by (simp add: v_def sess_def)
  then have "v (fold (\<lambda>m s. snd (handle_method env m s)) ms s1) = v s1" for ms
    by (induction ms rule: rev_induct) (simp_all add: m methods_keep_lock)
  then have v4: "v s4 = (0, xserver_pid s, sess s)"
    using v1 by (simp add: v_def s4_def s3_def)
  have "dm_turn env t s = restart_xserver env (restart_greeter env s4)"
    unfolding dm_turn_def Let_def s1_def [symmetric] s3_def [symmetric] s4_def [symmetric] using assms(5) s3_def s4_def by simp
  also have "\<dots> = s4" using v4 assms(2,3) by (simp add: restart_greeter_def restart_xserver_def v_def sess_def)
  finally show ?thesis using v4 assms(1) by (simp add: v_def sess_def)
qed

theorem locked_greeter_not_restarted_witness:
  "greeter_pid (dm_turn demo_denv (idle_turn\<lparr>t_children := [70]\<rparr>) lock_state) = 0 \<and>
   locked (dm_turn demo_denv (idle_turn\<lparr>t_children := [70]\<rparr>) lock_state)"
  using locked_greeter_not_restarted [of lock_state "idle_turn\<lparr>t_children := [70]\<rparr>" demo_denv]
  by (simp add: lock_state_def idle_turn_def)

end
