(* ===== verification/Calc_State.thy ===== *)
theory Calc_State
  imports Prelude "HOL-Library.Signed_Division"
begin

section \<open>isde-calc: state, display buffer and stacks\<close>

text \<open>
  The calculator's static variables (\<^verbatim>\<open>calc/src/math.c\<close>) as one record, its 32-byte display
  buffer as a list of bytes, the two stacks as arrays with their stack pointers, and the routines
  of \<^verbatim>\<open>math.c\<close> that all keys share. Floating point (the C operators on \<^verbatim>\<open>double\<close>, libm,
  \<^verbatim>\<open>printf\<close> of a double, \<^verbatim>\<open>scanf\<close> of one) is a record of operations, an argument of the
  definitions, over a type parameter. The build defines \<^verbatim>\<open>IEEE\<close>: there is no signal handler,
  \<^verbatim>\<open>post_op\<close> is empty and \<^verbatim>\<open>errno\<close> is never looked at; \<^verbatim>\<open>HAVE_STRLCPY\<close>: \<^verbatim>\<open>strlcpy\<close> does
  not pad.
\<close>

unbundle bit_operations_syntax

subsection \<open>Keys and arithmetic\<close>

datatype (plugins only: code) key =
    kRECIP | kSQR | kSQRT | kCLR | kOFF | kINV | kSIN | kCOS | kTAN | kDRG | kE | kEE | kLOG | kLN | kPOW
  | kPI | kFACT | kLPAR | kRPAR | kDIV | kSTO | kSEVEN | kEIGHT | kNINE | kMUL | kRCL | kFOUR | kFIVE | kSIX
  | kSUB | kSUM | kONE | kTWO | kTHREE | kADD | kEXC | kZERO | kDEC | kNEG | kEQU | kENTR | kXXY | kEXP | k10X
  | kROLL | kNOP | kBKSP | kAND | kBASE | kMOD | kNOT | kOR | kSHL | kSHR | kXOR | kTRUNC | kxA | kxB | kxC
  | kxD | kxE | kxF

text \<open>
  \<open>f_of_int\<close> gives the literals; \<open>f_scan\<close> is \<^verbatim>\<open>sscanf("%lf")\<close>, \<open>None\<close> when nothing matches;
  \<open>f_print\<close> is \<^verbatim>\<open>"%.8g"\<close>; \<open>f_shift\<close> is a shift by a count outside 0 to 63, which C leaves
  undefined; \<open>f_point\<close> is the locale's decimal point.
\<close>

record 'd fops =
  f_add :: "'d \<Rightarrow> 'd \<Rightarrow> 'd"
  f_sub :: "'d \<Rightarrow> 'd \<Rightarrow> 'd"
  f_mul :: "'d \<Rightarrow> 'd \<Rightarrow> 'd"
  f_div :: "'d \<Rightarrow> 'd \<Rightarrow> 'd"
  f_pow :: "'d \<Rightarrow> 'd \<Rightarrow> 'd"
  f_le :: "'d \<Rightarrow> 'd \<Rightarrow> bool"
  f_lt :: "'d \<Rightarrow> 'd \<Rightarrow> bool"
  f_eq :: "'d \<Rightarrow> 'd \<Rightarrow> bool"
  f_fun :: "cstr \<Rightarrow> 'd \<Rightarrow> 'd"
  f_of_int :: "int \<Rightarrow> 'd"
  f_pi :: 'd
  f_e :: 'd
  f_to_long :: "'d \<Rightarrow> 64 word"
  f_of_long :: "64 word \<Rightarrow> 'd"
  f_of_ulong :: "64 word \<Rightarrow> 'd"
  f_shift :: "bool \<Rightarrow> 64 word \<Rightarrow> 64 word \<Rightarrow> 64 word"
  f_scan :: "cstr \<Rightarrow> 'd option"
  f_print :: "'d \<Rightarrow> cstr"
  f_point :: cstr

definition shift_long :: "'d fops \<Rightarrow> bool \<Rightarrow> 64 word \<Rightarrow> 64 word \<Rightarrow> 64 word" where
  "shift_long F left x n =
     (if n < 64 then (if left then push_bit (unat n) x else signed_drop_bit (unat n) x)
      else f_shift F left x n)"

text \<open>
  The switch on the operator that \<open>twoop\<close>, \<open>twof\<close>, \<open>equf\<close> and \<open>rparf\<close> share. A remainder by
  zero, or of the least long by -1, raises SIGFPE and ends the process: \<open>None\<close>.
\<close>

definition arith :: "'d fops \<Rightarrow> key \<Rightarrow> 'd \<Rightarrow> 'd \<Rightarrow> 'd option" where
  "arith F op a b =
     (let x = f_to_long F a; y = f_to_long F b in
      case op of
        kADD \<Rightarrow> Some (f_add F a b)
      | kSUB \<Rightarrow> Some (f_sub F a b)
      | kMUL \<Rightarrow> Some (f_mul F a b)
      | kDIV \<Rightarrow> Some (f_div F a b)
      | kPOW \<Rightarrow> Some (f_pow F a b)
      | kMOD \<Rightarrow> if y = 0 \<or> sint x = - (2 ^ 63) \<and> y = - 1 then None
                else Some (f_of_long F (word_of_int (sint x smod sint y)))
      | kAND \<Rightarrow> Some (f_of_long F (x AND y))
      | kOR \<Rightarrow> Some (f_of_long F (x OR y))
      | kXOR \<Rightarrow> Some (f_of_long F (x XOR y))
      | kSHL \<Rightarrow> Some (f_of_long F (shift_long F True x y))
      | kSHR \<Rightarrow> Some (f_of_long F (shift_long F False x y))
      | _ \<Rightarrow> Some a)"

definition priority :: "key \<Rightarrow> nat" where
  "priority op = (case op of
     kPOW \<Rightarrow> 6 | kMUL \<Rightarrow> 5 | kDIV \<Rightarrow> 5 | kMOD \<Rightarrow> 5 | kADD \<Rightarrow> 4 | kSUB \<Rightarrow> 4
   | kSHL \<Rightarrow> 3 | kSHR \<Rightarrow> 3 | kAND \<Rightarrow> 2 | kXOR \<Rightarrow> 1 | kOR \<Rightarrow> 0 | _ \<Rightarrow> 0)"

subsection \<open>State\<close>

definition LCD_STR_LEN :: nat where "LCD_STR_LEN = 32"
definition MAXDISP :: nat where "MAXDISP = 11"
definition STACKMAX :: nat where "STACKMAX = 32"
definition XCALC_MEMORY :: nat where "XCALC_MEMORY = 10"

datatype drg = DEG | RAD | GRAD

record 'd calc =
  rpn :: bool
  flagINV :: int
  flagPAREN :: int
  flagM :: bool
  drgmode :: drg
  numbase :: int
  drg2rad :: 'd
  rad2drg :: 'd
  entered :: int
  lift_enabled :: bool
  CLR :: int
  Dpoint :: int
  clrdisp :: int
  lastop :: key
  memop :: key
  exponent :: int
  acc_reg :: 'd
  dnum :: 'd
  mem :: "'d list"
  dispstr :: "char list"
  opstack :: "key list"
  opsp :: nat
  numstack :: "'d list"
  numsp :: nat
  lcd :: cstr
  indicators :: "bool list"

subsection \<open>The display buffer\<close>

text \<open>
  \<open>cstr_of\<close> reads the string in a buffer; \<open>put\<close> writes a string and its NUL at the front, as
  \<^verbatim>\<open>strcpy\<close> does, and leaves the bytes behind it alone. A string too long for the buffer makes
  the list longer than 32: that is an overflow.
\<close>

definition cstr_of :: "char list \<Rightarrow> cstr" where
  "cstr_of b = takeWhile (\<lambda>c. c \<noteq> CHR 0x00) b"

definition put :: "char list \<Rightarrow> cstr \<Rightarrow> char list" where
  "put b s = s @ CHR 0x00 # drop (Suc (length s)) b"

definition strlcpy :: "cstr \<Rightarrow> 'd calc \<Rightarrow> 'd calc" where
  "strlcpy str s = s\<lparr>dispstr := put (dispstr s) (snprintf LCD_STR_LEN str)\<rparr>"

definition strcat :: "cstr \<Rightarrow> 'd calc \<Rightarrow> 'd calc" where
  "strcat str s = s\<lparr>dispstr := put (dispstr s) (cstr_of (dispstr s) @ str)\<rparr>"

definition poke :: "nat \<Rightarrow> char \<Rightarrow> 'd calc \<Rightarrow> 'd calc" where
  "poke i c s = s\<lparr>dispstr := (dispstr s)[i := c]\<rparr>"

definition disp :: "'d calc \<Rightarrow> cstr" where
  "disp s = cstr_of (dispstr s)"

subsection \<open>Drawing\<close>

definition draw :: "cstr \<Rightarrow> 'd calc \<Rightarrow> 'd calc" where
  "draw str s = s\<lparr>lcd := str\<rparr>"

definition setflag :: "nat \<Rightarrow> bool \<Rightarrow> 'd calc \<Rightarrow> 'd calc" where
  "setflag i on s = s\<lparr>indicators := (indicators s)[i := on]\<rparr>"

definition DrawDisplay :: "'d calc \<Rightarrow> 'd calc" where
  "DrawDisplay s =
     (let str = disp s;
          s = (if length str \<ge> MAXDISP then
                 (if CHR ''e'' \<notin> set str then poke 12 (CHR 0x00) s
                  else
                    let estr = dropWhile (\<lambda>c. c \<noteq> CHR ''e'') str;
                        tmp = snprintf 32 (take (if length estr \<le> 4 then 8 else 7) str @ estr) in
                    strlcpy tmp s)
               else s);
          s = draw (disp s) s in
      setflag 8 (numbase s = 8) (setflag 7 (numbase s = 10) (setflag 6 (numbase s = 16)
        (setflag 5 (flagPAREN s \<noteq> 0) (setflag 4 (drgmode s = GRAD) (setflag 3 (drgmode s = RAD)
          (setflag 2 (drgmode s = DEG) (setflag 1 (flagINV s \<noteq> 0) (setflag 0 (flagM s) s)))))))))"

subsection \<open>Numbers in the display\<close>

text \<open>
  \<open>scan_ulong\<close> is \<^verbatim>\<open>sscanf\<close> with \<^verbatim>\<open>%lo\<close> or \<^verbatim>\<open>%lX\<close> into an unsigned long that was 0: an
  optional sign, for base 16 an optional \<^verbatim>\<open>0x\<close>, then digits, clamped at the largest value.
\<close>

definition digit_val :: "char \<Rightarrow> int option" where
  "digit_val c =
     (let n = of_char c :: int in
      if 48 \<le> n \<and> n \<le> 57 then Some (n - 48)
      else if 65 \<le> n \<and> n \<le> 70 then Some (n - 55)
      else if 97 \<le> n \<and> n \<le> 102 then Some (n - 87)
      else None)"

fun scan_digits :: "int \<Rightarrow> int \<Rightarrow> cstr \<Rightarrow> int" where
  "scan_digits b n [] = n"
| "scan_digits b n (c # cs) = (case digit_val c of
     None \<Rightarrow> n
   | Some d \<Rightarrow> if d < b then scan_digits b (n * b + d) cs else n)"

definition scan_ulong :: "int \<Rightarrow> cstr \<Rightarrow> 64 word" where
  "scan_ulong b str =
     (let cs = dropWhile (\<lambda>c. c = CHR '' '') str;
          neg = (cs \<noteq> [] \<and> hd cs = CHR ''-'');
          cs = (if cs \<noteq> [] \<and> (hd cs = CHR ''-'' \<or> hd cs = CHR ''+'') then tl cs else cs);
          cs = (if b = 16 \<and> take 2 cs \<in> {''0x'', ''0X''} \<and> (case drop 2 cs of [] \<Rightarrow> False | c # _ \<Rightarrow> digit_val c \<noteq> None)
                then drop 2 cs else cs);
          n = scan_digits b 0 cs;
          w = (if n \<ge> 2 ^ 64 then - 1 else word_of_int n) in
      if neg \<and> n < 2 ^ 64 then - w else w)"

definition upper_digit :: "int \<Rightarrow> char" where
  "upper_digit d = char_of (if d < 10 then 48 + d else 55 + d)"

function digits_of :: "int \<Rightarrow> int \<Rightarrow> cstr" where
  "digits_of b n = (if b < 2 \<or> n < b then [upper_digit n] else digits_of b (n div b) @ [upper_digit (n mod b)])"
  by pat_completeness auto
termination
  by (relation "measure (\<lambda>(b, n). nat n)") (auto simp: int_div_less_self)

declare digits_of.simps [simp del]

definition parse_double :: "'d fops \<Rightarrow> 'd calc \<Rightarrow> 'd calc" where
  "parse_double F s =
     (if numbase s = 8 then s\<lparr>dnum := f_of_ulong F (scan_ulong 8 (disp s))\<rparr>
      else if numbase s = 16 then s\<lparr>dnum := f_of_ulong F (scan_ulong 16 (disp s))\<rparr>
      else (case f_scan F (disp s) of None \<Rightarrow> s | Some d \<Rightarrow> s\<lparr>dnum := d\<rparr>))"

definition format_double :: "'d fops \<Rightarrow> 'd \<Rightarrow> 'd calc \<Rightarrow> 'd calc" where
  "format_double F n s =
     (if numbase s = 8 then strlcpy (digits_of 8 (uint (f_to_long F n))) s
      else if numbase s = 16 then strlcpy (digits_of 16 (uint (f_to_long F n))) s
      else strlcpy (f_print F n) s)"

subsection \<open>The stacks\<close>

definition stack_error :: "'d calc \<Rightarrow> 'd calc" where
  "stack_error s = (strlcpy ''stack error'' s)\<lparr>entered := 3\<rparr>"

definition PushOp :: "key \<Rightarrow> 'd calc \<Rightarrow> 'd calc" where
  "PushOp op s =
     (if opsp s = STACKMAX then stack_error s
      else s\<lparr>opstack := (opstack s)[opsp s := op], opsp := opsp s + 1\<rparr>)"

definition PopOp :: "'d calc \<Rightarrow> key \<times> 'd calc" where
  "PopOp s =
     (if opsp s = 0 then (kNOP, stack_error s)
      else (opstack s ! (opsp s - 1), s\<lparr>opsp := opsp s - 1\<rparr>))"

definition isopempty :: "'d calc \<Rightarrow> bool" where
  "isopempty s \<longleftrightarrow> opsp s = 0"

definition PushNum :: "'d \<Rightarrow> 'd calc \<Rightarrow> 'd calc" where
  "PushNum num s =
     (if rpn s then s\<lparr>numstack := (numstack s)[2 := numstack s ! 1, 1 := numstack s ! 0, 0 := num]\<rparr>
      else if numsp s = STACKMAX then stack_error s
      else s\<lparr>numstack := (numstack s)[numsp s := num], numsp := numsp s + 1\<rparr>)"

definition PopNum :: "'d fops \<Rightarrow> 'd calc \<Rightarrow> 'd \<times> 'd calc" where
  "PopNum F s =
     (if rpn s then
        (numstack s ! 0, s\<lparr>numstack := (numstack s)[0 := numstack s ! 1, 1 := numstack s ! 2]\<rparr>)
      else if numsp s = 0 then (f_of_int F 0, stack_error s)
      else (numstack s ! (numsp s - 1), s\<lparr>numsp := numsp s - 1\<rparr>))"

definition RollNum :: "bool \<Rightarrow> 'd calc \<Rightarrow> 'd calc" where
  "RollNum up s =
     (if up then
        s\<lparr>dnum := numstack s ! 2,
          numstack := (numstack s)[2 := numstack s ! 1, 1 := numstack s ! 0, 0 := dnum s]\<rparr>
      else
        s\<lparr>dnum := numstack s ! 0,
          numstack := (numstack s)[0 := numstack s ! 1, 1 := numstack s ! 2, 2 := dnum s]\<rparr>)"

definition ClearStacks :: "'d fops \<Rightarrow> 'd calc \<Rightarrow> 'd calc" where
  "ClearStacks F s =
     (if rpn s then s\<lparr>numstack := (numstack s)[0 := f_of_int F 0, 1 := f_of_int F 0, 2 := f_of_int F 0]\<rparr> else s)
       \<lparr>opsp := 0, numsp := 0\<rparr>"

definition ResetCalc :: "'d fops \<Rightarrow> 'd calc \<Rightarrow> 'd calc" where
  "ResetCalc F s =
     (let s = s\<lparr>flagM := False, flagINV := 0, flagPAREN := 0, drgmode := DEG,
                numbase := (if numbase s = 0 then 10 else numbase s)\<rparr>;
          s = setflag 8 False (setflag 7 True (setflag 6 False (setflag 2 True (setflag 4 False
                (setflag 3 False (setflag 5 False (setflag 1 False (setflag 0 False s))))))));
          s = strlcpy ''0'' s;
          s = draw (disp s) s;
          s = ClearStacks F s in
      s\<lparr>drg2rad := f_div F (f_pi F) (f_of_int F 180), rad2drg := f_div F (f_of_int F 180) (f_pi F)\<rparr>)"

end
