(* ===== verification/Calc_Keys.thy ===== *)
theory Calc_Keys
  imports Calc_State
begin

section \<open>isde-calc: what each key does\<close>

text \<open>
  The key routines of \<^verbatim>\<open>calc/src/math.c\<close> in their order there, and \<^verbatim>\<open>calc_do_op\<close> and the
  action handlers of \<^verbatim>\<open>calc/src/actions.c\<close>. A routine that can reach a remainder operation
  returns an option, \<open>None\<close> when SIGFPE ends the process.
\<close>

subsection \<open>Entering a number\<close>

text \<open>\<open>pre_op\<close> returns whether the key is to be ignored; the bell it rings is an empty function.\<close>

definition pre_op :: "key \<Rightarrow> 'd calc \<Rightarrow> bool \<times> 'd calc" where
  "pre_op keynum s =
     (let locked = (entered s = 3 \<and> \<not> (keynum = kCLR \<or> keynum = kOFF)) in
      if locked \<and> \<not> rpn s then (True, s)
      else
        let s = (if locked then s\<lparr>clrdisp := clrdisp s + 1\<rparr> else s) in
        (False, if keynum \<noteq> kCLR then s\<lparr>CLR := 0\<rparr> else s))"

definition next_base :: "int \<Rightarrow> int" where
  "next_base b = (if b = 8 then 10 else if b = 10 then 16 else if b = 16 then 8 else b)"

definition show_base :: "'d fops \<Rightarrow> 'd calc \<Rightarrow> 'd calc" where
  "show_base F s =
     (if f_le F (f_of_int F 0) (dnum s)
      then format_double F (dnum s) (s\<lparr>numbase := next_base (numbase s)\<rparr>)
      else strlcpy ''error'' s)"

definition change_base :: "'d fops \<Rightarrow> 'd calc \<Rightarrow> 'd calc" where
  "change_base F s = DrawDisplay (show_base F (parse_double F s))"

definition cell_of :: "key \<Rightarrow> nat" where
  "cell_of keynum = (case keynum of
     kONE \<Rightarrow> 1 | kTWO \<Rightarrow> 2 | kTHREE \<Rightarrow> 3 | kFOUR \<Rightarrow> 4 | kFIVE \<Rightarrow> 5 | kSIX \<Rightarrow> 6 | kSEVEN \<Rightarrow> 7
   | kEIGHT \<Rightarrow> 8 | kNINE \<Rightarrow> 9 | _ \<Rightarrow> 0)"

definition digit_of :: "int \<Rightarrow> key \<Rightarrow> cstr" where
  "digit_of base keynum = (case keynum of
     kZERO \<Rightarrow> ''0'' | kONE \<Rightarrow> ''1'' | kTWO \<Rightarrow> ''2'' | kTHREE \<Rightarrow> ''3'' | kFOUR \<Rightarrow> ''4''
   | kFIVE \<Rightarrow> ''5'' | kSIX \<Rightarrow> ''6'' | kSEVEN \<Rightarrow> ''7''
   | kEIGHT \<Rightarrow> if base > 8 then ''8'' else []
   | kNINE \<Rightarrow> if base > 8 then ''9'' else []
   | kxA \<Rightarrow> if base > 10 then ''A'' else []
   | kxB \<Rightarrow> if base > 10 then ''B'' else []
   | kxC \<Rightarrow> if base > 10 then ''C'' else []
   | kxD \<Rightarrow> if base > 10 then ''D'' else []
   | kxE \<Rightarrow> if base > 10 then ''E'' else []
   | kxF \<Rightarrow> if base > 10 then ''F'' else []
   | _ \<Rightarrow> [])"

text \<open>The first half of \<^verbatim>\<open>numeric\<close>: in RPN mode a digit after STO, RCL or SUM names a memory cell.\<close>

definition numeric_mem :: "'d fops \<Rightarrow> nat \<Rightarrow> 'd calc \<Rightarrow> 'd calc" where
  "numeric_mem F cell s =
     (let s =
        (if memop s = kSTO then
           s\<lparr>mem := (mem s)[cell := dnum s], lift_enabled := True, entered := 2, clrdisp := clrdisp s + 1\<rparr>
         else if memop s = kRCL then
           let s = PushNum (dnum s) s;
               s = s\<lparr>dnum := mem s ! cell\<rparr>;
               s = format_double F (dnum s) s in
           s\<lparr>lift_enabled := True, entered := 1, clrdisp := clrdisp s + 1\<rparr>
         else
           s\<lparr>mem := (mem s)[cell := f_add F (mem s ! cell) (dnum s)], lift_enabled := True,
             entered := 2, clrdisp := clrdisp s + 1\<rparr>) in
      DrawDisplay (s\<lparr>memop := kCLR\<rparr>))"

text \<open>The second half: a cleared display loses its old number, then the digit is appended.\<close>

definition begin_number :: "'d calc \<Rightarrow> 'd calc" where
  "begin_number s =
     (if clrdisp s \<noteq> 0 then
        let s = (poke 0 (CHR 0x00) s)\<lparr>exponent := 0, Dpoint := 0\<rparr> in
        if rpn s \<and> lift_enabled s then PushNum (dnum s) s else s
      else s)"

definition append_digit :: "key \<Rightarrow> 'd calc \<Rightarrow> 'd calc" where
  "append_digit keynum s =
     (let st = digit_of (numbase s) keynum in
      if length (disp s) \<ge> MAXDISP then s
      else if st = [] then s
      else
        let s = DrawDisplay (strcat st s) in
        s\<lparr>clrdisp := (if clrdisp s \<noteq> 0 \<and> keynum \<noteq> kZERO then 0 else clrdisp s),
          memop := keynum, entered := 1, lift_enabled := False\<rparr>)"

definition numeric :: "'d fops \<Rightarrow> key \<Rightarrow> 'd calc \<Rightarrow> 'd calc" where
  "numeric F keynum s =
     (if rpn s \<and> memop s \<in> {kSTO, kRCL, kSUM} then numeric_mem F (cell_of keynum) (s\<lparr>flagINV := 0\<rparr>)
      else append_digit keynum (begin_number (s\<lparr>flagINV := 0\<rparr>)))"

definition clearf :: "'d fops \<Rightarrow> 'd calc \<Rightarrow> 'd calc" where
  "clearf F s =
     (let s = s\<lparr>flagINV := 0\<rparr>;
          s = (if CLR s \<noteq> 0 \<and> \<not> rpn s then (ClearStacks F s)\<lparr>flagPAREN := 0\<rparr> else s);
          s = s\<lparr>CLR := CLR s + 1, exponent := 0, Dpoint := 0, clrdisp := 1, entered := 1\<rparr> in
      DrawDisplay (strlcpy ''0'' s))"

definition ends_with :: "cstr \<Rightarrow> cstr \<Rightarrow> bool" where
  "ends_with str suf \<longleftrightarrow> length str \<ge> length suf \<and> drop (length str - length suf) str = suf"

definition bkspf :: "'d fops \<Rightarrow> 'd calc \<Rightarrow> 'd calc" where
  "bkspf F s =
     (let s = s\<lparr>lift_enabled := False\<rparr> in
      if flagINV s = 0 then
        (if entered s \<noteq> 1 then clearf F s
         else if clrdisp s \<noteq> 0 then s
         else
           let s = (if disp s \<noteq> [] then
                      let s = (if ends_with (disp s) (f_point F) then s\<lparr>Dpoint := 0\<rparr> else s) in
                      poke (length (disp s) - 1) (CHR 0x00) s
                    else s);
               s = (if disp s = [] then (strcat ''0'' s)\<lparr>clrdisp := clrdisp s + 1\<rparr> else s) in
           DrawDisplay s)
      else
        let s = strlcpy ''0'' s in
        DrawDisplay (s\<lparr>dnum := f_of_int F 0, clrdisp := clrdisp s + 1, flagINV := 0\<rparr>))"

definition start_entry :: "cstr \<Rightarrow> 'd calc \<Rightarrow> 'd calc" where
  "start_entry str s =
     (if clrdisp s \<noteq> 0 then
        strlcpy str (if rpn s \<and> lift_enabled s then PushNum (dnum s) s else s)
      else s)"

definition decf :: "'d fops \<Rightarrow> 'd calc \<Rightarrow> 'd calc" where
  "decf F s =
     (let s = start_entry ''0'' (s\<lparr>flagINV := 0\<rparr>);
          s = (if Dpoint s = 0 then
                 let s = DrawDisplay (strcat (f_point F) s) in s\<lparr>Dpoint := Dpoint s + 1\<rparr>
               else s) in
      s\<lparr>clrdisp := 0, entered := 1\<rparr>)"

definition eef :: "'d calc \<Rightarrow> 'd calc" where
  "eef s =
     (let s = start_entry (if rpn s then ''1'' else ''0'') (s\<lparr>flagINV := 0\<rparr>);
          s = (if exponent s = 0 then
                 let s = DrawDisplay (strcat ''E+'' s) in s\<lparr>exponent := int (length (disp s)) - 1\<rparr>
               else s) in
      s\<lparr>clrdisp := 0, entered := 1\<rparr>)"

definition negf :: "'d fops \<Rightarrow> 'd calc \<Rightarrow> 'd calc" where
  "negf F s =
     (let s = s\<lparr>flagINV := 0\<rparr> in
      if exponent s \<noteq> 0 then
        DrawDisplay (poke (nat (exponent s))
          (if dispstr s ! nat (exponent s) = CHR ''-'' then CHR ''+'' else CHR ''-'') s)
      else if disp s = ''0'' then s
      else
        let s = (if disp s \<noteq> [] \<and> hd (disp s) = CHR ''-''
                 then s\<lparr>dispstr := put (dispstr s) (tl (disp s))\<rparr>
                 else strlcpy (snprintf (LCD_STR_LEN + 1) (CHR ''-'' # disp s)) s);
            s = (if entered s = 2 then s\<lparr>dnum := f_mul F (f_of_int F (- 1)) (dnum s)\<rparr> else s) in
        DrawDisplay s)"

subsection \<open>Two operands\<close>

definition clear_inv :: "'d calc \<Rightarrow> 'd calc" where
  "clear_inv s = (if flagINV s \<noteq> 0 then DrawDisplay (s\<lparr>flagINV := 0\<rparr>) else s)"

definition read_display :: "'d fops \<Rightarrow> 'd calc \<Rightarrow> 'd calc" where
  "read_display F s = (if entered s = 1 then parse_double F s else s)"

definition twoop :: "'d fops \<Rightarrow> key \<Rightarrow> 'd calc \<Rightarrow> 'd calc option" where
  "twoop F keynum s =
     (let s = clear_inv s in
      if entered s = 0 then
        Some (PushOp keynum (if \<not> isopempty s then snd (PopOp s) else s))
      else
        let s = read_display F s;
            s = s\<lparr>clrdisp := 1, CLR := 1, entered := 0, Dpoint := 0, exponent := 0\<rparr> in
        if \<not> isopempty s then
          let (op, s) = PopOp s;
              s = s\<lparr>lastop := op\<rparr> in
          if op = kLPAR then Some (PushNum (dnum s) (PushOp keynum (PushOp kLPAR s)))
          else if priority keynum > priority op then
            Some (PushOp keynum (PushOp op (PushNum (dnum s) s)))
          else
            let (a, s) = PopNum F s in
            case arith F op a (dnum s) of
              None \<Rightarrow> None
            | Some r \<Rightarrow>
                let s = PushOp keynum (PushNum r (s\<lparr>acc_reg := r\<rparr>));
                    s = DrawDisplay (format_double F r s) in
                Some (s\<lparr>dnum := r\<rparr>)
        else Some (PushNum (dnum s) (PushOp keynum s)))"

definition twof :: "'d fops \<Rightarrow> key \<Rightarrow> 'd calc \<Rightarrow> 'd calc option" where
  "twof F keynum s =
     (let s = clear_inv s in
      if entered s = 0 then Some s
      else
        let s = read_display F s;
            (a, s) = PopNum F s;
            s = (if keynum = kXXY then PushNum (dnum s) s else s) in
        case arith F keynum a (dnum s) of
          None \<Rightarrow> None
        | Some r \<Rightarrow>
            let s = DrawDisplay (format_double F r (s\<lparr>acc_reg := r\<rparr>)) in
            Some (s\<lparr>clrdisp := clrdisp s + 1, Dpoint := 0, exponent := 0, entered := 2,
                    lift_enabled := True, dnum := r\<rparr>))"

definition entrf :: "'d fops \<Rightarrow> 'd calc \<Rightarrow> 'd calc" where
  "entrf F s =
     (let s = s\<lparr>flagINV := 0\<rparr> in
      if entered s = 0 then s
      else
        let s = read_display F (s\<lparr>clrdisp := 1, CLR := 1, Dpoint := 0, exponent := 0\<rparr>);
            s = s\<lparr>entered := 2, memop := kENTR\<rparr> in
        (PushNum (dnum s) s)\<lparr>lift_enabled := False\<rparr>)"

text \<open>
  One round of the loop of \<^verbatim>\<open>equf\<close>: pop two numbers and an operator, compute, push the result.
  At a left parenthesis the first number popped is dropped and the other pushed twice.
\<close>

definition equ_step :: "'d fops \<Rightarrow> 'd calc \<Rightarrow> 'd calc option" where
  "equ_step F s =
     (let (d, s) = PopNum F s;
          s = s\<lparr>dnum := d\<rparr>;
          (a, s) = PopNum F s;
          (op, s) = PopOp s;
          s = s\<lparr>lastop := op\<rparr>;
          s = (if op = kLPAR then PushNum a (s\<lparr>flagPAREN := flagPAREN s - 1\<rparr>) else s) in
      case arith F op a (dnum s) of
        None \<Rightarrow> None
      | Some r \<Rightarrow> Some (PushNum r (s\<lparr>acc_reg := r, dnum := r\<rparr>)))"

lemma stack_fields [simp]:
  "opsp (stack_error s) = opsp s" "opsp (PushNum x s) = opsp s" "opsp (snd (PopNum F s)) = opsp s"
  by (simp_all add: stack_error_def strlcpy_def PushNum_def PopNum_def)

lemma PopOp_opsp: "\<not> isopempty s \<Longrightarrow> opsp (snd (PopOp s)) < opsp s"
  by (simp add: PopOp_def isopempty_def)

lemma equ_step_opsp: "\<not> isopempty s \<Longrightarrow> equ_step F s = Some s' \<Longrightarrow> opsp s' < opsp s"
  by (auto simp: equ_step_def Let_def split_beta PopOp_def isopempty_def split: option.splits if_splits)

function equ_loop :: "'d fops \<Rightarrow> 'd calc \<Rightarrow> 'd calc option" where
  "equ_loop F s =
     (if isopempty s then Some s
      else case equ_step F s of None \<Rightarrow> None | Some s' \<Rightarrow> equ_loop F s')"
  by pat_completeness auto
termination
  by (relation "measure (\<lambda>(F, s). opsp s)") (simp_all add: equ_step_opsp)

declare equ_loop.simps [simp del]

definition equf :: "'d fops \<Rightarrow> 'd calc \<Rightarrow> 'd calc option" where
  "equf F s =
     (let s = s\<lparr>flagINV := 0\<rparr> in
      if entered s = 0 then Some s
      else
        let s = read_display F (s\<lparr>clrdisp := 1, CLR := 1, Dpoint := 0, exponent := 0\<rparr>);
            s = s\<lparr>entered := 2\<rparr> in
        case equ_loop F (PushNum (dnum s) s) of
          None \<Rightarrow> None
        | Some s \<Rightarrow> Some (DrawDisplay (format_double F (dnum s) s)))"

definition lparf :: "'d calc \<Rightarrow> 'd calc" where
  "lparf s =
     (let s = PushOp kLPAR (s\<lparr>flagINV := 0\<rparr>) in
      DrawDisplay (s\<lparr>flagPAREN := flagPAREN s + 1\<rparr>))"

definition rollf :: "'d fops \<Rightarrow> 'd calc \<Rightarrow> 'd calc" where
  "rollf F s =
     (if entered s = 0 then s
      else
        let s = read_display F s;
            s = RollNum (flagINV s \<noteq> 0) (s\<lparr>entered := 2, lift_enabled := True\<rparr>);
            s = s\<lparr>flagINV := 0, clrdisp := clrdisp s + 1\<rparr> in
        DrawDisplay (format_double F (dnum s) s))"

definition rpar_step :: "'d fops \<Rightarrow> key \<Rightarrow> 'd calc \<Rightarrow> 'd calc option" where
  "rpar_step F op s =
     (let (d, s) = PopNum F s;
          s = s\<lparr>dnum := d\<rparr>;
          (a, s) = PopNum F s in
      case arith F op a (dnum s) of
        None \<Rightarrow> None
      | Some r \<Rightarrow> Some (PushNum r (s\<lparr>acc_reg := r, dnum := r\<rparr>)))"

lemma rpar_step_opsp: "rpar_step F op s = Some s' \<Longrightarrow> opsp s' = opsp s"
  by (auto simp: rpar_step_def Let_def split_beta split: option.splits)

text \<open>The loop condition pops the operator it tests, so a left parenthesis leaves the stack with it.\<close>

function rpar_loop :: "'d fops \<Rightarrow> 'd calc \<Rightarrow> 'd calc option" where
  "rpar_loop F s =
     (if isopempty s then Some s
      else
        let (op, s1) = PopOp s; s2 = s1\<lparr>lastop := op\<rparr> in
        if op = kLPAR then Some s2
        else case rpar_step F op s2 of None \<Rightarrow> None | Some s3 \<Rightarrow> rpar_loop F s3)"
  by pat_completeness auto
termination
proof (relation "measure (\<lambda>(F, s). opsp s)")
  fix F and s :: "'d calc" and x op s1 s2 s3
  assume "\<not> isopempty s" "x = PopOp s" "(op, s1) = x" "s2 = s1\<lparr>lastop := op\<rparr>" "rpar_step F op s2 = Some s3"
  then show "((F, s3), (F, s)) \<in> measure (\<lambda>(F, s). opsp s)"
    using PopOp_opsp [of s] rpar_step_opsp [of F op s2 s3] by (simp add: prod_eq_iff)
qed simp

declare rpar_loop.simps [simp del]

definition rparf :: "'d fops \<Rightarrow> 'd calc \<Rightarrow> 'd calc option" where
  "rparf F s =
     (let s = s\<lparr>flagINV := 0\<rparr> in
      if entered s = 0 \<or> flagPAREN s = 0 then Some s
      else
        let s = read_display F (s\<lparr>clrdisp := clrdisp s + 1, Dpoint := 0, exponent := 0\<rparr>);
            s = s\<lparr>entered := 2\<rparr> in
        case rpar_loop F (PushNum (dnum s) s) of
          None \<Rightarrow> None
        | Some s \<Rightarrow>
            let s = snd (PopNum F s);
                s = s\<lparr>flagPAREN := flagPAREN s - 1, entered := 2\<rparr> in
            Some (DrawDisplay (format_double F (dnum s) s)))"

end
