(* ===== verification/Calc_Actions.thy ===== *)
theory Calc_Actions
  imports Calc_Keys
begin

section \<open>isde-calc: functions of one operand, memory, and the dispatch of keys\<close>

text \<open>
  The rest of \<^verbatim>\<open>calc/src/math.c\<close> (angles, memory, functions of one operand, reset) and
  \<^verbatim>\<open>calc/src/actions.c\<close>: \<^verbatim>\<open>calc_do_op\<close>, which the buttons call with the number of the key,
  and one handler per keyboard action. \<^verbatim>\<open>quit\<close> and \<^verbatim>\<open>selection\<close>, which only call the
  toolkit, are left out.
\<close>

subsection \<open>One operand\<close>

definition drgf :: "'d fops \<Rightarrow> 'd calc \<Rightarrow> 'd calc" where
  "drgf F s =
     (let s = (if flagINV s \<noteq> 0 then
                 let s = read_display F s;
                     d = dnum s;
                     d = (case drgmode s of
                            DEG \<Rightarrow> f_div F (f_mul F d (f_pi F)) (f_of_int F 180)
                          | RAD \<Rightarrow> f_div F (f_mul F d (f_of_int F 200)) (f_pi F)
                          | GRAD \<Rightarrow> f_div F (f_mul F d (f_of_int F 90)) (f_of_int F 100)) in
                 format_double F d (s\<lparr>dnum := d, entered := 2, clrdisp := 1, flagINV := 0\<rparr>)
               else s);
          s = s\<lparr>flagINV := 0, drgmode := (case drgmode s of DEG \<Rightarrow> RAD | RAD \<Rightarrow> GRAD | GRAD \<Rightarrow> DEG)\<rparr>;
          s = (case drgmode s of
                 DEG \<Rightarrow> s\<lparr>drg2rad := f_div F (f_pi F) (f_of_int F 180), rad2drg := f_div F (f_of_int F 180) (f_pi F)\<rparr>
               | RAD \<Rightarrow> s\<lparr>drg2rad := f_of_int F 1, rad2drg := f_of_int F 1\<rparr>
               | GRAD \<Rightarrow> s\<lparr>drg2rad := f_div F (f_pi F) (f_of_int F 200), rad2drg := f_div F (f_of_int F 200) (f_pi F)\<rparr>) in
      DrawDisplay s)"

text \<open>\<^verbatim>\<open>~flagINV\<close> on a C int.\<close>

definition invf :: "'d calc \<Rightarrow> 'd calc" where
  "invf s = DrawDisplay (s\<lparr>flagINV := - flagINV s - 1\<rparr>)"

definition memf :: "'d fops \<Rightarrow> key \<Rightarrow> 'd calc \<Rightarrow> 'd calc" where
  "memf F keynum s =
     (let s = read_display F (s\<lparr>memop := keynum\<rparr>) in
      s\<lparr>entered := 2, clrdisp := clrdisp s + 1, lift_enabled := False\<rparr>)"

fun fact_loop :: "'d fops \<Rightarrow> nat \<Rightarrow> nat \<Rightarrow> 'd \<Rightarrow> 'd" where
  "fact_loop F j 0 d = d"
| "fact_loop F j (Suc k) d = fact_loop F (j + 1) k (f_mul F d (f_of_int F (int j)))"

definition push_constant :: "'d \<Rightarrow> 'd calc \<Rightarrow> 'd calc" where
  "push_constant c s = (if rpn s \<and> memop s \<noteq> kENTR then PushNum (dnum s) s else s)\<lparr>dnum := c\<rparr>"

definition toggle_inv :: "'d calc \<Rightarrow> 'd calc" where
  "toggle_inv s = s\<lparr>flagINV := (if flagINV s = 0 then 1 else 0)\<rparr>"

definition inv_fun :: "('d \<Rightarrow> 'd) \<Rightarrow> ('d \<Rightarrow> 'd) \<Rightarrow> 'd calc \<Rightarrow> 'd calc" where
  "inv_fun g f s = s\<lparr>dnum := (if flagINV s \<noteq> 0 then g (dnum s) else f (dnum s))\<rparr>"

definition set_mem0 :: "'d fops \<Rightarrow> 'd \<Rightarrow> 'd calc \<Rightarrow> 'd calc" where
  "set_mem0 F x s = s\<lparr>mem := (mem s)[0 := x], flagM := \<not> f_eq F x (f_of_int F 0)\<rparr>"

definition factorial :: "'d fops \<Rightarrow> 'd calc \<Rightarrow> 'd calc" where
  "factorial F s =
     (if \<not> f_eq F (f_fun F ''floor'' (dnum s)) (dnum s) \<or> f_lt F (dnum s) (f_of_int F 0) \<or>
         f_lt F (f_of_int F 500) (dnum s)
      then (strlcpy ''error'' s)\<lparr>entered := 3\<rparr>
      else
        let i = unat (f_to_long F (f_fun F ''floor'' (dnum s))) in
        s\<lparr>dnum := fact_loop F 1 i (f_of_int F 1)\<rparr>)"

text \<open>The switch of \<^verbatim>\<open>oneop\<close>, with the fall-through of kSQR, k10X and kEXP.\<close>

definition oneop_fun :: "'d fops \<Rightarrow> key \<Rightarrow> 'd calc \<Rightarrow> 'd calc" where
  "oneop_fun F keynum s =
     (let m = f_fun F;
          sqrt = inv_fun (\<lambda>x. f_mul F x x) (m ''sqrt'');
          log10 = inv_fun (f_pow F (f_of_int F 10)) (m ''log10'');
          ln = inv_fun (m ''exp'') (m ''log'');
          trig = (\<lambda>f g s. inv_fun (\<lambda>x. f_mul F (m g x) (rad2drg s)) (\<lambda>x. m f (f_mul F x (drg2rad s))) s) in
      case keynum of
        kE \<Rightarrow> push_constant (f_e F) s
      | kPI \<Rightarrow> push_constant (f_pi F) s
      | kRECIP \<Rightarrow> s\<lparr>dnum := f_div F (f_of_int F 1) (dnum s)\<rparr>
      | kSQR \<Rightarrow> sqrt (toggle_inv s)
      | kSQRT \<Rightarrow> sqrt s
      | k10X \<Rightarrow> log10 (toggle_inv s)
      | kLOG \<Rightarrow> log10 s
      | kEXP \<Rightarrow> ln (toggle_inv s)
      | kLN \<Rightarrow> ln s
      | kSIN \<Rightarrow> trig ''sin'' ''asin'' s
      | kCOS \<Rightarrow> trig ''cos'' ''acos'' s
      | kTAN \<Rightarrow> trig ''tan'' ''atan'' s
      | kSTO \<Rightarrow> set_mem0 F (dnum s) s
      | kRCL \<Rightarrow> set_mem0 F (mem s ! 0)
                 ((if rpn s \<and> lift_enabled s then PushNum (dnum s) s else s)\<lparr>dnum := mem s ! 0\<rparr>)
      | kSUM \<Rightarrow> set_mem0 F (f_add F (mem s ! 0) (dnum s)) s
      | kEXC \<Rightarrow> set_mem0 F (dnum s) (s\<lparr>dnum := mem s ! 0\<rparr>)
      | kFACT \<Rightarrow> factorial F s
      | kNOT \<Rightarrow> s\<lparr>dnum := f_of_long F (NOT (f_to_long F (dnum s)))\<rparr>
      | kTRUNC \<Rightarrow> s\<lparr>dnum := m ''trunc'' (dnum s)\<rparr>
      | _ \<Rightarrow> s)"

definition oneop :: "'d fops \<Rightarrow> key \<Rightarrow> 'd calc \<Rightarrow> 'd calc" where
  "oneop F keynum s =
     (let s = (read_display F s)\<lparr>entered := 2\<rparr>;
          s = oneop_fun F keynum s in
      if entered s = 3 then DrawDisplay s
      else
        let s = s\<lparr>memop := keynum, entered := 2, clrdisp := 1, flagINV := 0, lift_enabled := True\<rparr> in
        DrawDisplay (format_double F (dnum s) s))"

definition offf :: "'d fops \<Rightarrow> 'd calc \<Rightarrow> 'd calc" where
  "offf F s =
     (let s = (ResetCalc F s)\<lparr>entered := 1, clrdisp := 1, lift_enabled := False, dnum := f_of_int F 0\<rparr>;
          s = s\<lparr>mem := (if rpn s then replicate XCALC_MEMORY (f_of_int F 0) else (mem s)[0 := f_of_int F 0])\<rparr> in
      DrawDisplay (s\<lparr>exponent := 0, Dpoint := 0\<rparr>))"

subsection \<open>The dispatch\<close>

text \<open>The macro \<^verbatim>\<open>XCALC_PRE_OP\<close>.\<close>

definition with_pre :: "key \<Rightarrow> ('d calc \<Rightarrow> 'd calc option) \<Rightarrow> 'd calc \<Rightarrow> 'd calc option" where
  "with_pre keynum f s =
     (if fst (pre_op keynum s) then Some (snd (pre_op keynum s)) else f (snd (pre_op keynum s)))"

definition two_keys :: "key list" where
  "two_keys = [kADD, kSUB, kMUL, kDIV, kPOW, kMOD, kAND, kOR, kXOR, kSHL, kSHR]"

definition one_keys :: "key list" where
  "one_keys = [kRECIP, kSQR, kSQRT, kSIN, kCOS, kTAN, kLOG, kLN, kEXP, k10X, kE, kPI, kFACT, kNOT, kTRUNC]"

definition num_keys :: "key list" where
  "num_keys = [kZERO, kONE, kTWO, kTHREE, kFOUR, kFIVE, kSIX, kSEVEN, kEIGHT, kNINE, kxA, kxB, kxC, kxD, kxE, kxF]"

definition do_key :: "'d fops \<Rightarrow> key \<Rightarrow> 'd calc \<Rightarrow> 'd calc option" where
  "do_key F op s =
     (if op \<in> set two_keys then (if rpn s then twof F op s else twoop F op s)
      else if op \<in> set one_keys then Some (oneop F op s)
      else if op \<in> set num_keys then Some (numeric F op s)
      else case op of
        kXXY \<Rightarrow> twof F op s
      | kSTO \<Rightarrow> Some (if rpn s then memf F kSTO s else oneop F kSTO s)
      | kRCL \<Rightarrow> Some (if rpn s then memf F kRCL s else oneop F kRCL s)
      | kSUM \<Rightarrow> Some (if rpn s then memf F kSUM s else oneop F kSUM s)
      | kEXC \<Rightarrow> Some (oneop F kEXC s)
      | kCLR \<Rightarrow> Some (clearf F s)
      | kOFF \<Rightarrow> Some (offf F s)
      | kINV \<Rightarrow> Some (invf s)
      | kDRG \<Rightarrow> Some (drgf F s)
      | kEE \<Rightarrow> Some (eef s)
      | kDEC \<Rightarrow> Some (decf F s)
      | kNEG \<Rightarrow> Some (negf F s)
      | kBKSP \<Rightarrow> Some (bkspf F s)
      | kLPAR \<Rightarrow> Some (lparf s)
      | kRPAR \<Rightarrow> rparf F s
      | kENTR \<Rightarrow> Some (entrf F s)
      | kEQU \<Rightarrow> equf F s
      | kROLL \<Rightarrow> Some (rollf F s)
      | kBASE \<Rightarrow> Some (change_base F s)
      | _ \<Rightarrow> Some s)"

definition calc_do_op :: "'d fops \<Rightarrow> key \<Rightarrow> 'd calc \<Rightarrow> 'd calc option" where
  "calc_do_op F op = with_pre op (do_key F op)"

fun press :: "'d fops \<Rightarrow> key list \<Rightarrow> 'd calc \<Rightarrow> 'd calc option" where
  "press F [] s = Some s"
| "press F (k # ks) s = (case calc_do_op F k s of None \<Rightarrow> None | Some s' \<Rightarrow> press F ks s')"

text \<open>The static initialisers, then \<^verbatim>\<open>ResetCalc\<close>, as \<^verbatim>\<open>main\<close> runs it.\<close>

definition calc_init :: "'d fops \<Rightarrow> bool \<Rightarrow> 'd calc" where
  "calc_init F mode =
     (let z = f_of_int F 0 in
      ResetCalc F \<lparr>rpn = mode, flagINV = 0, flagPAREN = 0, flagM = False, drgmode = DEG, numbase = 0,
        drg2rad = f_div F (f_pi F) (f_of_int F 180), rad2drg = f_div F (f_of_int F 180) (f_pi F),
        entered = 1, lift_enabled = False, CLR = 0, Dpoint = 0, clrdisp = 1, lastop = kCLR, memop = kCLR,
        exponent = 0, acc_reg = z, dnum = z, mem = replicate XCALC_MEMORY z,
        dispstr = replicate LCD_STR_LEN (CHR 0x00), opstack = replicate STACKMAX kRECIP, opsp = 0,
        numstack = replicate STACKMAX z, numsp = 0, lcd = [], indicators = replicate 9 False\<rparr>)"

subsection \<open>The keyboard actions\<close>

definition add_act :: "'d fops \<Rightarrow> 'd calc \<Rightarrow> 'd calc option" where
  "add_act F = with_pre kADD (\<lambda>s. if rpn s then twof F kADD s else twoop F kADD s)"

definition and_act :: "'d fops \<Rightarrow> 'd calc \<Rightarrow> 'd calc option" where
  "and_act F = with_pre kAND (\<lambda>s. if rpn s then twof F kAND s else twoop F kAND s)"

definition back_act :: "'d fops \<Rightarrow> 'd calc \<Rightarrow> 'd calc option" where
  "back_act F = with_pre kBKSP (\<lambda>s. Some (bkspf F s))"

definition base_act :: "'d fops \<Rightarrow> 'd calc \<Rightarrow> 'd calc option" where
  "base_act F = with_pre kBASE (\<lambda>s. Some (change_base F s))"

definition clearit_act :: "'d fops \<Rightarrow> 'd calc \<Rightarrow> 'd calc option" where
  "clearit_act F = with_pre kCLR (\<lambda>s. Some (clearf F s))"

definition cosine_act :: "'d fops \<Rightarrow> 'd calc \<Rightarrow> 'd calc option" where
  "cosine_act F = with_pre kCOS (\<lambda>s. Some (oneop F kCOS s))"

definition decimal_act :: "'d fops \<Rightarrow> 'd calc \<Rightarrow> 'd calc option" where
  "decimal_act F = with_pre kDEC (\<lambda>s. Some (decf F s))"

definition degree_act :: "'d fops \<Rightarrow> 'd calc \<Rightarrow> 'd calc option" where
  "degree_act F = with_pre kDRG (\<lambda>s. Some (drgf F s))"

definition divide_act :: "'d fops \<Rightarrow> 'd calc \<Rightarrow> 'd calc option" where
  "divide_act F = with_pre kDIV (\<lambda>s. if rpn s then twof F kDIV s else twoop F kDIV s)"

definition e_act :: "'d fops \<Rightarrow> 'd calc \<Rightarrow> 'd calc option" where
  "e_act F = with_pre kE (\<lambda>s. Some (oneop F kE s))"

definition enter_act :: "'d fops \<Rightarrow> 'd calc \<Rightarrow> 'd calc option" where
  "enter_act F = with_pre kENTR (\<lambda>s. Some (entrf F s))"

definition epower_act :: "'d fops \<Rightarrow> 'd calc \<Rightarrow> 'd calc option" where
  "epower_act F = with_pre kEXP (\<lambda>s. Some (oneop F kEXP s))"

definition equal_act :: "'d fops \<Rightarrow> 'd calc \<Rightarrow> 'd calc option" where
  "equal_act F = with_pre kEQU (\<lambda>s. equf F s)"

definition exchange_act :: "'d fops \<Rightarrow> 'd calc \<Rightarrow> 'd calc option" where
  "exchange_act F = with_pre kEXC (\<lambda>s. Some (oneop F kEXC s))"

definition factorial_act :: "'d fops \<Rightarrow> 'd calc \<Rightarrow> 'd calc option" where
  "factorial_act F = with_pre kFACT (\<lambda>s. Some (oneop F kFACT s))"

definition inverse_act :: "'d fops \<Rightarrow> 'd calc \<Rightarrow> 'd calc option" where
  "inverse_act F = with_pre kINV (\<lambda>s. Some (invf s))"

definition leftParen_act :: "'d fops \<Rightarrow> 'd calc \<Rightarrow> 'd calc option" where
  "leftParen_act F = with_pre kLPAR (\<lambda>s. Some (lparf s))"

definition logarithm_act :: "'d fops \<Rightarrow> 'd calc \<Rightarrow> 'd calc option" where
  "logarithm_act F = with_pre kLOG (\<lambda>s. Some (oneop F kLOG s))"

definition mod_act :: "'d fops \<Rightarrow> 'd calc \<Rightarrow> 'd calc option" where
  "mod_act F = with_pre kMOD (\<lambda>s. if rpn s then twof F kMOD s else twoop F kMOD s)"

definition multiply_act :: "'d fops \<Rightarrow> 'd calc \<Rightarrow> 'd calc option" where
  "multiply_act F = with_pre kMUL (\<lambda>s. if rpn s then twof F kMUL s else twoop F kMUL s)"

definition naturalLog_act :: "'d fops \<Rightarrow> 'd calc \<Rightarrow> 'd calc option" where
  "naturalLog_act F = with_pre kLN (\<lambda>s. Some (oneop F kLN s))"

definition negate_act :: "'d fops \<Rightarrow> 'd calc \<Rightarrow> 'd calc option" where
  "negate_act F = with_pre kNEG (\<lambda>s. Some (negf F s))"

definition not_act :: "'d fops \<Rightarrow> 'd calc \<Rightarrow> 'd calc option" where
  "not_act F = with_pre kNOT (\<lambda>s. Some (oneop F kNOT s))"

definition off_act :: "'d fops \<Rightarrow> 'd calc \<Rightarrow> 'd calc option" where
  "off_act F = with_pre kOFF (\<lambda>s. Some (offf F s))"

definition or_act :: "'d fops \<Rightarrow> 'd calc \<Rightarrow> 'd calc option" where
  "or_act F = with_pre kOR (\<lambda>s. if rpn s then twof F kOR s else twoop F kOR s)"

definition pi_act :: "'d fops \<Rightarrow> 'd calc \<Rightarrow> 'd calc option" where
  "pi_act F = with_pre kPI (\<lambda>s. Some (oneop F kPI s))"

definition power_act :: "'d fops \<Rightarrow> 'd calc \<Rightarrow> 'd calc option" where
  "power_act F = with_pre kPOW (\<lambda>s. if rpn s then twof F kPOW s else twoop F kPOW s)"

definition recall_act :: "'d fops \<Rightarrow> 'd calc \<Rightarrow> 'd calc option" where
  "recall_act F = with_pre kRCL (\<lambda>s. Some (if rpn s then memf F kRCL s else oneop F kRCL s))"

definition reciprocal_act :: "'d fops \<Rightarrow> 'd calc \<Rightarrow> 'd calc option" where
  "reciprocal_act F = with_pre kRECIP (\<lambda>s. Some (oneop F kRECIP s))"

definition rightParen_act :: "'d fops \<Rightarrow> 'd calc \<Rightarrow> 'd calc option" where
  "rightParen_act F = with_pre kRPAR (\<lambda>s. rparf F s)"

definition roll_act :: "'d fops \<Rightarrow> 'd calc \<Rightarrow> 'd calc option" where
  "roll_act F = with_pre kROLL (\<lambda>s. Some (rollf F s))"

definition scientific_act :: "'d fops \<Rightarrow> 'd calc \<Rightarrow> 'd calc option" where
  "scientific_act F = with_pre kEE (\<lambda>s. Some (eef s))"

definition shl_act :: "'d fops \<Rightarrow> 'd calc \<Rightarrow> 'd calc option" where
  "shl_act F = with_pre kSHL (\<lambda>s. if rpn s then twof F kSHL s else twoop F kSHL s)"

definition shr_act :: "'d fops \<Rightarrow> 'd calc \<Rightarrow> 'd calc option" where
  "shr_act F = with_pre kSHR (\<lambda>s. if rpn s then twof F kSHR s else twoop F kSHR s)"

definition sine_act :: "'d fops \<Rightarrow> 'd calc \<Rightarrow> 'd calc option" where
  "sine_act F = with_pre kSIN (\<lambda>s. Some (oneop F kSIN s))"

definition square_act :: "'d fops \<Rightarrow> 'd calc \<Rightarrow> 'd calc option" where
  "square_act F = with_pre kSQR (\<lambda>s. Some (oneop F kSQR s))"

definition squareRoot_act :: "'d fops \<Rightarrow> 'd calc \<Rightarrow> 'd calc option" where
  "squareRoot_act F = with_pre kSQRT (\<lambda>s. Some (oneop F kSQRT s))"

definition store_act :: "'d fops \<Rightarrow> 'd calc \<Rightarrow> 'd calc option" where
  "store_act F = with_pre kSTO (\<lambda>s. Some (if rpn s then memf F kSTO s else oneop F kSTO s))"

definition subtract_act :: "'d fops \<Rightarrow> 'd calc \<Rightarrow> 'd calc option" where
  "subtract_act F = with_pre kSUB (\<lambda>s. if rpn s then twof F kSUB s else twoop F kSUB s)"

definition sum_act :: "'d fops \<Rightarrow> 'd calc \<Rightarrow> 'd calc option" where
  "sum_act F = with_pre kSUM (\<lambda>s. Some (if rpn s then memf F kSUM s else oneop F kSUM s))"

definition tangent_act :: "'d fops \<Rightarrow> 'd calc \<Rightarrow> 'd calc option" where
  "tangent_act F = with_pre kTAN (\<lambda>s. Some (oneop F kTAN s))"

definition tenpower_act :: "'d fops \<Rightarrow> 'd calc \<Rightarrow> 'd calc option" where
  "tenpower_act F = with_pre k10X (\<lambda>s. Some (oneop F k10X s))"

definition XexchangeY_act :: "'d fops \<Rightarrow> 'd calc \<Rightarrow> 'd calc option" where
  "XexchangeY_act F = with_pre kXXY (\<lambda>s. twof F kXXY s)"

definition xor_act :: "'d fops \<Rightarrow> 'd calc \<Rightarrow> 'd calc option" where
  "xor_act F = with_pre kXOR (\<lambda>s. if rpn s then twof F kXOR s else twoop F kXOR s)"

definition xtrunc_act :: "'d fops \<Rightarrow> 'd calc \<Rightarrow> 'd calc option" where
  "xtrunc_act F = with_pre kTRUNC (\<lambda>s. Some (oneop F kTRUNC s))"

definition digit_act :: "'d fops \<Rightarrow> char \<Rightarrow> 'd calc \<Rightarrow> 'd calc option" where
  "digit_act F c =
     (let key = map_of [(CHR ''0'', kZERO), (CHR ''1'', kONE), (CHR ''2'', kTWO), (CHR ''3'', kTHREE),
        (CHR ''4'', kFOUR), (CHR ''5'', kFIVE), (CHR ''6'', kSIX), (CHR ''7'', kSEVEN), (CHR ''8'', kEIGHT),
        (CHR ''9'', kNINE), (CHR ''A'', kxA), (CHR ''B'', kxB), (CHR ''C'', kxC), (CHR ''D'', kxD),
        (CHR ''E'', kxE), (CHR ''F'', kxF)] c in
      case key of
        None \<Rightarrow> Some
      | Some k \<Rightarrow> with_pre k (\<lambda>s. Some (numeric F k s)))"

definition bell_act :: "'d calc \<Rightarrow> 'd calc option" where
  "bell_act s = Some s"

definition nop_act :: "'d calc \<Rightarrow> 'd calc option" where
  "nop_act s = Some s"

end
