(* ===== verification/Calc_Inv.thy ===== *)
theory Calc_Inv
  imports Calc_Actions
begin

section \<open>isde-calc: buffers and stacks stay in bounds\<close>

text \<open>
  The invariant \<open>calc_ok\<close>: the display buffer has its 32 bytes and ends in NUL, the stack pointers
  and arrays agree, the index kept in \<^verbatim>\<open>exponent\<close> lies in the buffer, and \<^verbatim>\<open>entered\<close> is 0 to 3.
  Every key keeps it; the decimal point and EE keys under the condition that what they append
  fits. The collection \<open>calc_keep\<close> holds one rule per routine.
\<close>

named_theorems calc_keep "routines of the calculator that keep its invariant"

subsection \<open>The buffer\<close>

lemma cstr_of_put: "CHR 0x00 \<notin> set t \<Longrightarrow> cstr_of (put b t) = t"
  unfolding cstr_of_def put_def by (subst takeWhile_append2) auto

lemma nul_cstr_of [simp]: "CHR 0x00 \<notin> set (cstr_of b)"
  using set_takeWhileD [of "CHR 0x00"] by (fastforce simp: cstr_of_def)

lemma length_put: "length t < length b \<Longrightarrow> length (put b t) = length b"
  by (simp add: put_def)

lemma put_nth: "length t < i \<Longrightarrow> i < length b \<Longrightarrow> put b t ! i = b ! i"
  by (simp add: put_def nth_append)

lemma put_end: "put b t ! length t = CHR 0x00"
  by (simp add: put_def nth_append)

definition buf_ok :: "char list \<Rightarrow> bool" where
  "buf_ok b \<longleftrightarrow> length b = LCD_STR_LEN \<and> b ! 31 = CHR 0x00"

lemma buf_ok_put:
  assumes "buf_ok b" and "length t \<le> 31"
  shows "buf_ok (put b t)"
proof (cases "length t = 31")
  case True
  then show ?thesis using assms put_end [of b t] length_put [of t b] by (simp add: buf_ok_def LCD_STR_LEN_def)
next
  case False
  then show ?thesis using assms put_nth [of t 31 b] length_put [of t b] by (simp add: buf_ok_def LCD_STR_LEN_def)
qed

lemma buf_ok_update: "buf_ok b \<Longrightarrow> i < 31 \<or> c = CHR 0x00 \<Longrightarrow> buf_ok (b[i := c])"
  by (cases "i = 31") (auto simp: buf_ok_def LCD_STR_LEN_def)

lemma length_cstr_of: "buf_ok b \<Longrightarrow> length (cstr_of b) \<le> 31"
proof (rule ccontr)
  assume b: "buf_ok b" and "\<not> length (cstr_of b) \<le> 31"
  then have "31 < length (cstr_of b)" by simp
  then have "cstr_of b ! 31 \<in> set (cstr_of b)" by (rule nth_mem)
  moreover have "cstr_of b ! 31 = b ! 31"
    using \<open>31 < length (cstr_of b)\<close> by (simp add: cstr_of_def takeWhile_nth)
  ultimately show False using b nul_cstr_of [of b] by (simp add: buf_ok_def)
qed

subsection \<open>The invariant\<close>

definition calc_ok :: "'d calc \<Rightarrow> bool" where
  "calc_ok s \<longleftrightarrow> buf_ok (dispstr s) \<and> opsp s \<le> STACKMAX \<and> length (opstack s) = STACKMAX \<and>
     numsp s \<le> STACKMAX \<and> length (numstack s) = STACKMAX \<and> length (mem s) = XCALC_MEMORY \<and>
     0 \<le> exponent s \<and> exponent s < 31 \<and> 0 \<le> entered s \<and> entered s \<le> 3 \<and> numbase s \<in> {8, 10, 16}"

lemma calc_ok_fields [simp]:
  "calc_ok (s\<lparr>flagINV := i\<rparr>) = calc_ok s" "calc_ok (s\<lparr>flagPAREN := i\<rparr>) = calc_ok s"
  "calc_ok (s\<lparr>flagM := b\<rparr>) = calc_ok s" "calc_ok (s\<lparr>drgmode := g\<rparr>) = calc_ok s"
  "calc_ok (s\<lparr>drg2rad := x\<rparr>) = calc_ok s" "calc_ok (s\<lparr>rad2drg := x\<rparr>) = calc_ok s"
  "calc_ok (s\<lparr>lift_enabled := b\<rparr>) = calc_ok s" "calc_ok (s\<lparr>CLR := i\<rparr>) = calc_ok s"
  "calc_ok (s\<lparr>Dpoint := i\<rparr>) = calc_ok s" "calc_ok (s\<lparr>clrdisp := i\<rparr>) = calc_ok s"
  "calc_ok (s\<lparr>lastop := k\<rparr>) = calc_ok s" "calc_ok (s\<lparr>memop := k\<rparr>) = calc_ok s"
  "calc_ok (s\<lparr>acc_reg := x\<rparr>) = calc_ok s" "calc_ok (s\<lparr>dnum := x\<rparr>) = calc_ok s"
  "calc_ok (s\<lparr>lcd := l\<rparr>) = calc_ok s" "calc_ok (s\<lparr>indicators := bs\<rparr>) = calc_ok s"
  by (simp_all add: calc_ok_def)

lemma calc_ok_set [calc_keep]:
  "calc_ok s \<Longrightarrow> 0 \<le> i \<Longrightarrow> i \<le> 3 \<Longrightarrow> calc_ok (s\<lparr>entered := i\<rparr>)"
  "calc_ok s \<Longrightarrow> 0 \<le> i \<Longrightarrow> i < 31 \<Longrightarrow> calc_ok (s\<lparr>exponent := i\<rparr>)"
  "calc_ok s \<Longrightarrow> length m = XCALC_MEMORY \<Longrightarrow> calc_ok (s\<lparr>mem := m\<rparr>)" "calc_ok s \<Longrightarrow> length (mem s) = XCALC_MEMORY"
  "calc_ok s \<Longrightarrow> calc_ok (s\<lparr>opsp := 0\<rparr>)" "calc_ok s \<Longrightarrow> calc_ok (s\<lparr>numsp := 0\<rparr>)"
  "calc_ok s \<Longrightarrow> calc_ok (s\<lparr>numbase := next_base (numbase s)\<rparr>)"
  by (auto simp: calc_ok_def next_base_def)

lemma strlcpy_keep [calc_keep]: "calc_ok s \<Longrightarrow> calc_ok (strlcpy t s)"
  by (simp add: calc_ok_def strlcpy_def buf_ok_put length_snprintf LCD_STR_LEN_def)

lemma strcat_keep [calc_keep]:
  "calc_ok s \<Longrightarrow> length (disp s) + length t \<le> 31 \<Longrightarrow> calc_ok (strcat t s)"
  by (simp add: calc_ok_def strcat_def disp_def buf_ok_put)

lemma poke_keep [calc_keep]: "calc_ok s \<Longrightarrow> i < 31 \<or> c = CHR 0x00 \<Longrightarrow> calc_ok (poke i c s)"
  by (simp add: calc_ok_def poke_def buf_ok_update)

lemma disp_length: "calc_ok s \<Longrightarrow> length (disp s) \<le> 31"
  by (simp add: calc_ok_def disp_def length_cstr_of)

lemma setflag_keep [simp]: "calc_ok (setflag i b s) = calc_ok s" "calc_ok (draw t s) = calc_ok s"
  by (simp_all add: setflag_def draw_def)

lemma DrawDisplay_keep [calc_keep]: "calc_ok s \<Longrightarrow> calc_ok (DrawDisplay s)"
  by (simp add: DrawDisplay_def Let_def calc_keep)

lemma stack_keep [calc_keep]:
  "calc_ok s \<Longrightarrow> calc_ok (stack_error s)" "calc_ok s \<Longrightarrow> calc_ok (PushOp k s)"
  "calc_ok s \<Longrightarrow> calc_ok (snd (PopOp s))" "calc_ok s \<Longrightarrow> calc_ok (PushNum x s)"
  "calc_ok s \<Longrightarrow> calc_ok (snd (PopNum F s))" "calc_ok s \<Longrightarrow> calc_ok (RollNum b s)"
  "calc_ok s \<Longrightarrow> calc_ok (ClearStacks F s)"
proof -
  assume s: "calc_ok s"
  then show e: "calc_ok (stack_error s)" by (simp add: stack_error_def calc_keep)
  show "calc_ok (PushOp k s)" "calc_ok (snd (PopOp s))" "calc_ok (PushNum x s)" "calc_ok (snd (PopNum F s))"
    using s e by (auto simp: PushOp_def PopOp_def PushNum_def PopNum_def calc_ok_def)
  show "calc_ok (RollNum b s)" "calc_ok (ClearStacks F s)"
    using s by (auto simp: RollNum_def ClearStacks_def calc_ok_def)
qed

lemma parse_keep [calc_keep]:
  "calc_ok s \<Longrightarrow> calc_ok (parse_double F s)" "calc_ok s \<Longrightarrow> calc_ok (read_display F s)"
  "calc_ok s \<Longrightarrow> calc_ok (format_double F x s)"
  by (simp_all add: parse_double_def read_display_def format_double_def calc_keep split: option.split)

subsection \<open>The keys\<close>

lemma change_base_keep [calc_keep]: "calc_ok s \<Longrightarrow> calc_ok (change_base F s)"
  by (simp add: change_base_def show_base_def calc_keep)

lemma numeric_mem_keep [calc_keep]: "calc_ok s \<Longrightarrow> calc_ok (numeric_mem F c s)"
  by (simp add: numeric_mem_def Let_def calc_keep)

lemma length_digit_of: "length (digit_of b k) \<le> 1"
  by (cases k) (simp_all add: digit_of_def)

lemma begin_number_keep [calc_keep]: "calc_ok s \<Longrightarrow> calc_ok (begin_number s)"
  by (simp add: begin_number_def Let_def calc_keep)

lemma append_digit_keep [calc_keep]: "calc_ok s \<Longrightarrow> calc_ok (append_digit k s)"
  using length_digit_of [of "numbase s" k] by (simp add: append_digit_def Let_def calc_keep MAXDISP_def)

lemma numeric_keep [calc_keep]: "calc_ok s \<Longrightarrow> calc_ok (numeric F k s)"
  unfolding numeric_def by (simp add: calc_keep)

lemma clearf_keep [calc_keep]: "calc_ok s \<Longrightarrow> calc_ok (clearf F s)"
  by (simp add: clearf_def Let_def calc_keep)

lemma bkspf_keep [calc_keep]: "calc_ok s \<Longrightarrow> calc_ok (bkspf F s)"
  unfolding bkspf_def Let_def by (simp add: calc_keep)

lemma start_entry_keep [calc_keep]: "calc_ok s \<Longrightarrow> calc_ok (start_entry t s)"
  by (simp add: start_entry_def calc_keep)

lemma twoop_keep [calc_keep]: "calc_ok s \<Longrightarrow> pred_option calc_ok (twoop F k s)"
  by (auto simp: twoop_def clear_inv_def Let_def split_beta calc_keep split: option.split)

lemma stack_error_fields [simp]:
  "clrdisp (stack_error s) = clrdisp s" "Dpoint (stack_error s) = Dpoint s" "exponent (stack_error s) = exponent s"
  "rpn (stack_error s) = rpn s" "dnum (stack_error s) = dnum s" "numbase (stack_error s) = numbase s"
  by (simp_all add: stack_error_def strlcpy_def)

lemma PushNum_fields [simp]:
  "clrdisp (PushNum x s) = clrdisp s" "Dpoint (PushNum x s) = Dpoint s" "exponent (PushNum x s) = exponent s"
  "rpn (PushNum x s) = rpn s" "dnum (PushNum x s) = dnum s" "numbase (PushNum x s) = numbase s"
  by (simp_all add: PushNum_def)

lemma strlcpy_fields [simp]:
  "clrdisp (strlcpy t s) = clrdisp s" "Dpoint (strlcpy t s) = Dpoint s" "exponent (strlcpy t s) = exponent s"
  "rpn (strlcpy t s) = rpn s" "dnum (strlcpy t s) = dnum s" "numbase (strlcpy t s) = numbase s"
  "entered (strlcpy t s) = entered s" "opsp (strlcpy t s) = opsp s" "numsp (strlcpy t s) = numsp s"
  "opstack (strlcpy t s) = opstack s" "numstack (strlcpy t s) = numstack s" "mem (strlcpy t s) = mem s"
  "flagINV (strlcpy t s) = flagINV s" "flagPAREN (strlcpy t s) = flagPAREN s" "lift_enabled (strlcpy t s) = lift_enabled s"
  "memop (strlcpy t s) = memop s"
  by (simp_all add: strlcpy_def)

lemma disp_strlcpy: "CHR 0x00 \<notin> set t \<Longrightarrow> disp (strlcpy t s) = snprintf LCD_STR_LEN t"
proof -
  assume "CHR 0x00 \<notin> set t"
  then have "CHR 0x00 \<notin> set (snprintf LCD_STR_LEN t)" using set_snprintf by blast
  then show ?thesis by (simp add: disp_def strlcpy_def cstr_of_put)
qed

lemma start_entry_disp:
  assumes "CHR 0x00 \<notin> set t" "length t \<le> 1"
  shows "clrdisp s \<noteq> 0 \<Longrightarrow> disp (start_entry t s) = t" and "clrdisp s = 0 \<Longrightarrow> start_entry t s = s"
  using assms disp_strlcpy [of t] by (auto simp: start_entry_def snprintf_fits LCD_STR_LEN_def)

lemma start_entry_fields [simp]:
  "Dpoint (start_entry t s) = Dpoint s" "exponent (start_entry t s) = exponent s" "rpn (start_entry t s) = rpn s"
  "clrdisp (start_entry t s) = clrdisp s"
  by (simp_all add: start_entry_def)

lemma decf_keep:
  assumes "calc_ok s" and "clrdisp s = 0 \<Longrightarrow> Dpoint s = 0 \<Longrightarrow> length (disp s) + length (f_point F) \<le> 31"
    and "length (f_point F) \<le> 30"
  shows "calc_ok (decf F s)"
proof -
  let ?s1 = "start_entry ''0'' (s\<lparr>flagINV := 0\<rparr>)"
  have ok: "calc_ok ?s1" using assms(1) by (simp add: calc_keep)
  have "length (disp ?s1) + length (f_point F) \<le> 31" if "Dpoint ?s1 = 0"
    using start_entry_disp [of "''0''" "s\<lparr>flagINV := 0\<rparr>"] assms(2,3) that
    by (cases "clrdisp s = 0") (simp_all add: disp_def)
  with ok have "Dpoint ?s1 = 0 \<Longrightarrow> calc_ok (strcat (f_point F) ?s1)" by (simp add: strcat_keep)
  with ok show ?thesis by (simp add: decf_def Let_def calc_keep)
qed

lemma disp_strcat: "CHR 0x00 \<notin> set t \<Longrightarrow> disp (strcat t s) = disp s @ t"
  by (simp add: disp_def strcat_def cstr_of_put)

lemma disp_setflag [simp]: "disp (setflag i b s) = disp s" "disp (draw t s) = disp s"
  by (simp_all add: disp_def setflag_def draw_def)

text \<open>What \<open>DrawDisplay\<close> makes of the string in the buffer.\<close>

definition shown :: "cstr \<Rightarrow> cstr" where
  "shown str =
     (if length str \<ge> MAXDISP then
        (if CHR ''e'' \<notin> set str then take 12 str
         else let estr = dropWhile (\<lambda>c. c \<noteq> CHR ''e'') str in
           snprintf 32 (take (if length estr \<le> 4 then 8 else 7) str @ estr))
      else str)"

lemma takeWhile_update_stop: "\<not> P c \<Longrightarrow> i < length xs \<Longrightarrow> takeWhile P (xs[i := c]) = take i (takeWhile P xs)"
  by (induction xs arbitrary: i) (auto split: nat.split)

lemma disp_poke_nul: "i < length (dispstr s) \<Longrightarrow> disp (poke i (CHR 0x00) s) = take i (disp s)"
  by (simp add: disp_def poke_def cstr_of_def takeWhile_update_stop)

lemma disp_DrawDisplay:
  assumes "calc_ok s" shows "disp (DrawDisplay s) = shown (disp s)"
proof -
  have nul: "CHR 0x00 \<notin> set (disp s)" by (simp add: disp_def)
  let ?e = "dropWhile (\<lambda>c. c \<noteq> CHR ''e'') (disp s)"
  have "CHR 0x00 \<notin> set (take n (disp s) @ ?e)" for n
    using nul by (auto dest: in_set_takeD set_dropWhileD)
  then have z: "CHR 0x00 \<notin> set (snprintf 32 (take n (disp s) @ ?e))" for n using set_snprintf by blast
  have l: "length (dispstr s) = 32" using assms by (simp add: calc_ok_def buf_ok_def LCD_STR_LEN_def)
  show ?thesis
    by (simp add: DrawDisplay_def shown_def Let_def disp_poke_nul l disp_strlcpy [OF z] snprintf_twice LCD_STR_LEN_def)
qed

lemma shown_length: "str \<noteq> [] \<Longrightarrow> length (shown str) > 0"
  by (auto simp: shown_def Let_def snprintf_def MAXDISP_def dropWhile_eq_Nil_conv)

lemma eef_keep:
  assumes "calc_ok s" and "clrdisp s = 0 \<Longrightarrow> exponent s = 0 \<Longrightarrow> length (disp s) \<le> 29"
  shows "calc_ok (eef s)"
proof -
  let ?s1 = "start_entry (if rpn s then ''1'' else ''0'') (s\<lparr>flagINV := 0\<rparr>)"
  have ok: "calc_ok ?s1" using assms(1) by (simp add: calc_keep)
  show ?thesis
  proof (cases "exponent s = 0")
    case True
    have "length (disp ?s1) \<le> 29"
      using start_entry_disp [of "if rpn s then ''1'' else ''0''" "s\<lparr>flagINV := 0\<rparr>"] assms(2) True
      by (cases "clrdisp s = 0") (simp_all add: disp_def)
    then have ok2: "calc_ok (strcat ''E+'' ?s1)" using ok by (intro strcat_keep) simp_all
    then have ok3: "calc_ok (DrawDisplay (strcat ''E+'' ?s1))" by (simp add: calc_keep)
    have "disp (DrawDisplay (strcat ''E+'' ?s1)) = shown (disp ?s1 @ ''E+'')"
      using disp_DrawDisplay [OF ok2] by (simp add: disp_strcat)
    then have "0 < length (disp (DrawDisplay (strcat ''E+'' ?s1)))" using shown_length [of "disp ?s1 @ ''E+''"] by simp
    then show ?thesis using True ok3 disp_length [OF ok3] by (simp add: eef_def Let_def calc_keep)
  next
    case False
    then show ?thesis using ok by (simp add: eef_def Let_def calc_keep)
  qed
qed

lemma negf_keep [calc_keep]: "calc_ok s \<Longrightarrow> calc_ok (negf F s)"
proof -
  assume s: "calc_ok s"
  then have "nat (exponent s) < 31" by (auto simp: calc_ok_def nat_less_iff)
  moreover have "calc_ok (s\<lparr>flagINV := 0, dispstr := put (dispstr s) (tl (disp (s\<lparr>flagINV := 0\<rparr>)))\<rparr>)"
    using s disp_length [OF s] by (simp add: calc_ok_def buf_ok_put disp_def)
  ultimately show ?thesis using s unfolding negf_def Let_def by (simp add: calc_keep)
qed

lemma twof_keep [calc_keep]: "calc_ok s \<Longrightarrow> pred_option calc_ok (twof F k s)"
  by (auto simp: twof_def clear_inv_def Let_def split_beta calc_keep split: option.split)

lemma entrf_keep [calc_keep]: "calc_ok s \<Longrightarrow> calc_ok (entrf F s)"
  by (simp add: entrf_def Let_def calc_keep)

lemma equ_step_keep: "calc_ok s \<Longrightarrow> pred_option calc_ok (equ_step F s)"
  by (auto simp: equ_step_def Let_def split_beta calc_keep split: option.split)

lemma equ_loop_keep: "calc_ok s \<Longrightarrow> pred_option calc_ok (equ_loop F s)"
proof (induction F s rule: equ_loop.induct)
  case (1 F s)
  then show ?case
    using equ_step_keep [of s F] by (subst equ_loop.simps) (auto split: option.split)
qed

lemma equf_keep [calc_keep]: "calc_ok s \<Longrightarrow> pred_option calc_ok (equf F s)"
proof -
  assume s: "calc_ok s"
  define x where "x = (read_display F (s\<lparr>flagINV := 0, clrdisp := 1, CLR := 1, Dpoint := 0, exponent := 0\<rparr>))
      \<lparr>entered := 2\<rparr>"
  have "calc_ok (PushNum (dnum x) x)" using s by (simp add: x_def calc_keep)
  then have "pred_option calc_ok (equ_loop F (PushNum (dnum x) x))" by (rule equ_loop_keep)
  then show ?thesis unfolding equf_def Let_def using s
    by (cases "equ_loop F (PushNum (dnum x) x)") (simp_all add: x_def calc_keep)
qed

lemma lparf_keep [calc_keep]: "calc_ok s \<Longrightarrow> calc_ok (lparf s)"
  by (simp add: lparf_def Let_def calc_keep)

lemma rollf_keep [calc_keep]: "calc_ok s \<Longrightarrow> calc_ok (rollf F s)"
  by (simp add: rollf_def Let_def calc_keep)

lemma rpar_step_keep: "calc_ok s \<Longrightarrow> pred_option calc_ok (rpar_step F op s)"
  by (auto simp: rpar_step_def Let_def split_beta calc_keep split: option.split)

lemma rpar_loop_keep: "calc_ok s \<Longrightarrow> pred_option calc_ok (rpar_loop F s)"
proof (induction F s rule: rpar_loop.induct)
  case (1 F s)
  let ?s2 = "(snd (PopOp s))\<lparr>lastop := fst (PopOp s)\<rparr>"
  have ok: "calc_ok ?s2" using 1(2) by (simp add: calc_keep)
  then show ?case
    using rpar_step_keep [OF ok, of F "fst (PopOp s)"] 1(1) [OF _ refl prod.collapse refl] 1(2)
    by (subst rpar_loop.simps) (auto simp: Let_def split_beta split: option.split)
qed

lemma rparf_keep [calc_keep]: "calc_ok s \<Longrightarrow> pred_option calc_ok (rparf F s)"
proof -
  assume s: "calc_ok s"
  define x where "x = (read_display F (s\<lparr>flagINV := 0, clrdisp := clrdisp s + 1, Dpoint := 0, exponent := 0\<rparr>))
      \<lparr>entered := 2\<rparr>"
  have "calc_ok (PushNum (dnum x) x)" using s by (simp add: x_def calc_keep)
  then have "pred_option calc_ok (rpar_loop F (PushNum (dnum x) x))" by (rule rpar_loop_keep)
  then show ?thesis unfolding rparf_def Let_def using s
    by (cases "rpar_loop F (PushNum (dnum x) x)") (simp_all add: x_def calc_keep)
qed

lemma drgf_keep [calc_keep]: "calc_ok s \<Longrightarrow> calc_ok (drgf F s)"
  by (simp add: drgf_def Let_def calc_keep split: drg.split)

lemma invf_keep [calc_keep]: "calc_ok s \<Longrightarrow> calc_ok (invf s)"
  by (simp add: invf_def calc_keep)

lemma memf_keep [calc_keep]: "calc_ok s \<Longrightarrow> calc_ok (memf F k s)"
  by (simp add: memf_def Let_def calc_keep)

lemma oneop_fun_keep [calc_keep]: "calc_ok s \<Longrightarrow> calc_ok (oneop_fun F k s)"
  by (cases k) (simp_all add: oneop_fun_def push_constant_def inv_fun_def toggle_inv_def set_mem0_def
      factorial_def Let_def calc_keep)

lemma oneop_keep [calc_keep]: "calc_ok s \<Longrightarrow> calc_ok (oneop F k s)"
  by (simp add: oneop_def Let_def calc_keep)

lemma offf_keep [calc_keep]: "calc_ok s \<Longrightarrow> calc_ok (offf F s)"
proof -
  assume s: "calc_ok s"
  have "numbase s \<noteq> 0" using s by (auto simp: calc_ok_def)
  then have "calc_ok (ResetCalc F s)" using s
    by (simp add: ResetCalc_def Let_def calc_keep)
  then show ?thesis by (simp add: offf_def Let_def calc_keep)
qed

subsection \<open>Any key\<close>

text \<open>The decimal point and EE append to the display without a test of its length.\<close>

definition fits :: "'d fops \<Rightarrow> key \<Rightarrow> 'd calc \<Rightarrow> bool" where
  "fits F k s \<longleftrightarrow>
     (k = kDEC \<and> clrdisp s = 0 \<and> Dpoint s = 0 \<longrightarrow> length (disp s) + length (f_point F) \<le> 31) \<and>
     (k = kEE \<and> clrdisp s = 0 \<and> exponent s = 0 \<longrightarrow> length (disp s) \<le> 29)"

lemma pre_op_fields:
  "calc_ok (snd (pre_op k s)) = calc_ok s" "disp (snd (pre_op k s)) = disp s" "Dpoint (snd (pre_op k s)) = Dpoint s"
  "exponent (snd (pre_op k s)) = exponent s" "entered s \<noteq> 3 \<Longrightarrow> clrdisp (snd (pre_op k s)) = clrdisp s"
  "rpn (snd (pre_op k s)) = rpn s"
  by (auto simp: pre_op_def Let_def disp_def)

lemma do_key_keep:
  assumes "calc_ok s" and "fits F k s" and "length (f_point F) \<le> 30"
  shows "pred_option calc_ok (do_key F k s)"
proof -
  have d: "k = kDEC \<Longrightarrow> calc_ok (decf F s)" using decf_keep [OF assms(1) _ assms(3)] assms(2) by (simp add: fits_def)
  have e: "k = kEE \<Longrightarrow> calc_ok (eef s)" using eef_keep [OF assms(1)] assms(2) by (simp add: fits_def)
  have "k \<in> set two_keys \<or> k \<in> set one_keys \<or> k \<in> set num_keys \<or> k \<notin> set two_keys \<union> set one_keys \<union> set num_keys"
    by blast
  then show ?thesis
  proof (elim disjE)
    assume "k \<notin> set two_keys \<union> set one_keys \<union> set num_keys"
    then show ?thesis unfolding do_key_def using assms(1) d e by (cases k) (simp_all add: calc_keep)
  qed (use assms(1) in \<open>auto simp: do_key_def calc_keep\<close>)
qed

end
