(* ===== verification/Calc_Entry.thy ===== *)
theory Calc_Entry
  imports Calc_Inv
begin

section \<open>isde-calc: typing a number never overflows the display\<close>

text \<open>
  The keys that type a number (digits, decimal point, EE, change of sign, backspace, clear) keep
  at most twelve characters in the display. The change of sign writes at the place kept in
  \<^verbatim>\<open>exponent\<close>, which backspace may have left on or behind the terminating NUL; the invariant
  therefore also says that the bytes from the end of the string up to one behind that place are
  NUL, so that no stale byte joins the string.
\<close>

subsection \<open>Bytes behind the string\<close>

definition tail_nul :: "char list \<Rightarrow> nat \<Rightarrow> int \<Rightarrow> bool" where
  "tail_nul b n x \<longleftrightarrow> (x > 0 \<longrightarrow> (\<forall>i. n \<le> i \<and> i \<le> nat x + 1 \<and> i \<noteq> nat x \<longrightarrow> b ! i = CHR 0x00))"

lemma tail_nul_0 [simp]: "tail_nul b n 0"
  by (simp add: tail_nul_def)

lemma tail_nulD: "tail_nul b n x \<Longrightarrow> x > 0 \<Longrightarrow> n \<le> i \<Longrightarrow> i \<le> nat x + 1 \<Longrightarrow> i \<noteq> nat x \<Longrightarrow> b ! i = CHR 0x00"
  by (simp add: tail_nul_def)

lemma tail_nul_put:
  assumes "tail_nul b n x" and "n \<le> Suc (length t)" and "x \<le> 11" and "length b = 32"
  shows "tail_nul (put b t) (length t) x"
  unfolding tail_nul_def
proof (intro impI allI, elim conjE)
  fix i assume x: "x > 0" and i: "length t \<le> i" "i \<le> nat x + 1" "i \<noteq> nat x"
  show "put b t ! i = CHR 0x00"
  proof (cases "i = length t")
    case False
    with i assms(3,4) x have "put b t ! i = b ! i" by (intro put_nth) auto
    with False tail_nulD [OF assms(1) x _ i(2,3)] assms(2) i(1) show ?thesis by simp
  qed (simp add: put_end)
qed

lemma tail_nul_update:
  assumes "tail_nul b n x" and "c = CHR 0x00 \<or> i = nat x" and "length b = 32" and "x \<le> 11"
  shows "tail_nul (b[i := c]) n x"
  unfolding tail_nul_def
proof (intro impI allI, elim conjE)
  fix j assume j: "x > 0" "n \<le> j" "j \<le> nat x + 1" "j \<noteq> nat x"
  then have "j < 32" "b ! j = CHR 0x00" using assms(4) tail_nulD [OF assms(1) j] by auto
  then show "b[i := c] ! j = CHR 0x00" using assms(2,3) j(4) by (cases "i = j") auto
qed

lemma tail_nul_cut:
  assumes "tail_nul b n x" and "length b = 32" and "m \<le> n" and "x \<le> 11"
    and "\<And>i. m < i \<Longrightarrow> i < n \<Longrightarrow> nat x + 1 < i"
  shows "tail_nul (b[m := CHR 0x00]) m x"
  unfolding tail_nul_def
proof (intro impI allI, elim conjE)
  fix i assume x: "x > 0" and i: "m \<le> i" "i \<le> nat x + 1" "i \<noteq> nat x"
  then have "i < 32" using assms(4) by auto
  show "b[m := CHR 0x00] ! i = CHR 0x00"
  proof (cases "i = m")
    case False
    then have "n \<le> i" using assms(5) [of i] i by force
    then show ?thesis using False tail_nulD [OF assms(1) x _ i(2,3)] by simp
  qed (use assms(2) \<open>i < 32\<close> in simp)
qed

text \<open>A string that ends at \<open>i\<close> grows by one when its NUL is overwritten and the next byte is NUL.\<close>

lemma cstr_of_extend:
  assumes "length (cstr_of b) = i" and "Suc i < length b" and "b ! Suc i = CHR 0x00" and "c \<noteq> CHR 0x00"
  shows "cstr_of (b[i := c]) = cstr_of b @ [c]"
  using assms
proof (induction b arbitrary: i)
  case (Cons a b)
  show ?case
  proof (cases "a = CHR 0x00")
    case True
    with Cons show ?thesis by (cases b) (auto simp: cstr_of_def)
  next
    case False
    with Cons.prems obtain j where j: "i = Suc j" by (cases i) (auto simp: cstr_of_def)
    show ?thesis using Cons.IH [of j] Cons.prems False j by (simp add: cstr_of_def)
  qed
qed simp

lemma cstr_of_inside:
  "i < length (cstr_of b) \<Longrightarrow> c \<noteq> CHR 0x00 \<Longrightarrow> cstr_of (b[i := c]) = (cstr_of b)[i := c]"
proof (induction b arbitrary: i)
  case (Cons a b)
  then show ?case by (cases i) (auto simp: cstr_of_def split: if_splits)
qed (simp add: cstr_of_def)

lemma cstr_of_beyond: "length (cstr_of b) < i \<Longrightarrow> cstr_of (b[i := c]) = cstr_of b"
proof (induction b arbitrary: i)
  case (Cons a b)
  then show ?case by (cases i) (auto simp: cstr_of_def split: if_splits)
qed (simp add: cstr_of_def)

subsection \<open>The invariant of typing\<close>

definition entry_keys :: "key list" where
  "entry_keys = num_keys @ [kDEC, kEE, kNEG, kBKSP, kCLR]"

definition entry_str :: "char list \<Rightarrow> bool" where
  "entry_str b \<longleftrightarrow> length (cstr_of b) \<le> 12 \<and> CHR ''e'' \<notin> set (cstr_of b)"

definition entry_inv :: "'d calc \<Rightarrow> bool" where
  "entry_inv s \<longleftrightarrow> calc_ok s \<and> entered s = 1 \<and> flagINV s = 0 \<and> memop s \<notin> {kSTO, kRCL, kSUM} \<and>
     entry_str (dispstr s) \<and> exponent s \<le> 11 \<and>
     tail_nul (dispstr s) (if clrdisp s \<noteq> 0 then 1 else length (disp s)) (exponent s)"

definition good_point :: "'d fops \<Rightarrow> bool" where
  "good_point F \<longleftrightarrow> length (f_point F) \<le> 4 \<and> CHR 0x00 \<notin> set (f_point F) \<and> CHR ''e'' \<notin> set (f_point F)"

text \<open>\<open>DrawDisplay\<close> only cuts a string without the letter e at twelve characters.\<close>

lemma DrawDisplay_fields [simp]:
  "clrdisp (DrawDisplay s) = clrdisp s" "Dpoint (DrawDisplay s) = Dpoint s" "exponent (DrawDisplay s) = exponent s"
  "rpn (DrawDisplay s) = rpn s" "dnum (DrawDisplay s) = dnum s" "numbase (DrawDisplay s) = numbase s"
  "entered (DrawDisplay s) = entered s" "opsp (DrawDisplay s) = opsp s" "numsp (DrawDisplay s) = numsp s"
  "opstack (DrawDisplay s) = opstack s" "numstack (DrawDisplay s) = numstack s" "mem (DrawDisplay s) = mem s"
  "flagINV (DrawDisplay s) = flagINV s" "flagPAREN (DrawDisplay s) = flagPAREN s" "lift_enabled (DrawDisplay s) = lift_enabled s"
  "memop (DrawDisplay s) = memop s"
  by (simp_all add: DrawDisplay_def Let_def setflag_def draw_def poke_def)

lemma DrawDisplay_entry:
  assumes "buf_ok (dispstr s)" and "CHR ''e'' \<notin> set (disp s)" and "exponent s \<le> 11"
    and "tail_nul (dispstr s) (length (disp s)) (exponent s)"
  shows "entry_str (dispstr (DrawDisplay s))"
    and "disp (DrawDisplay s) = take 12 (disp s)"
    and "tail_nul (dispstr (DrawDisplay s)) (length (disp (DrawDisplay s))) (exponent s)"
proof -
  let ?b = "dispstr s"
  have l: "length ?b = 32" using assms(1) by (simp add: buf_ok_def LCD_STR_LEN_def)
  have b: "dispstr (DrawDisplay s) = (if length (disp s) \<ge> MAXDISP then ?b[12 := CHR 0x00] else ?b)"
    using assms(2) by (simp add: DrawDisplay_def Let_def setflag_def draw_def poke_def disp_def)
  have cut: "cstr_of (?b[12 := CHR 0x00]) = take 12 (disp s)"
    using l by (simp add: cstr_of_def disp_def takeWhile_update_stop)
  show d: "disp (DrawDisplay s) = take 12 (disp s)"
    using cut by (auto simp: disp_def [of "DrawDisplay s"] b MAXDISP_def) (simp add: disp_def)
  show "entry_str (dispstr (DrawDisplay s))"
    using d assms(2) by (auto simp: entry_str_def disp_def dest: in_set_takeD)
  show "tail_nul (dispstr (DrawDisplay s)) (length (disp (DrawDisplay s))) (exponent s)"
  proof (cases "length (disp s) > 12")
    case True
    then have "tail_nul (?b[12 := CHR 0x00]) 12 (exponent s)"
      using assms(3) by (intro tail_nul_cut [OF assms(4) l]) auto
    then show ?thesis using True by (simp add: d b MAXDISP_def)
  next
    case False
    then have "tail_nul (dispstr (DrawDisplay s)) (length (disp s)) (exponent s)"
      unfolding b using tail_nul_update [OF assms(4) _ l assms(3)] assms(4) by simp
    then show ?thesis using False by (simp add: d)
  qed
qed

text \<open>The common end of a typing key: a string without e is drawn, then some flags are set.\<close>

definition entry_pre :: "'d calc \<Rightarrow> bool" where
  "entry_pre s \<longleftrightarrow> calc_ok s \<and> CHR ''e'' \<notin> set (disp s) \<and> exponent s \<le> 11 \<and>
     tail_nul (dispstr s) (length (disp s)) (exponent s)"

lemma drawn_entry_inv:
  assumes "entry_pre s" and "calc_ok z" "dispstr z = dispstr (DrawDisplay s)" "exponent z = exponent s"
    and "entered z = 1" "flagINV z = 0" "memop z \<notin> {kSTO, kRCL, kSUM}" "clrdisp z \<noteq> 0 \<Longrightarrow> length (disp s) \<le> 1"
  shows "entry_inv z"
proof -
  have s: "buf_ok (dispstr s)" "CHR ''e'' \<notin> set (disp s)" "exponent s \<le> 11"
    "tail_nul (dispstr s) (length (disp s)) (exponent s)"
    using assms(1) by (simp_all add: entry_pre_def calc_ok_def)
  note d = DrawDisplay_entry [OF s]
  have dz: "disp z = disp (DrawDisplay s)" using assms(3) by (simp add: disp_def)
  have "tail_nul (dispstr z) (if clrdisp z \<noteq> 0 then 1 else length (disp z)) (exponent z)"
    using d(3) assms(3,4,8) by (auto simp: dz d(2) tail_nul_def)
  then show ?thesis using assms s(3) d(1) by (simp add: entry_inv_def)
qed

lemma entry_pre_strcat:
  assumes "calc_ok s" "length (disp s) \<le> 12" "CHR ''e'' \<notin> set (disp s)" "exponent s \<le> 11"
    and "tail_nul (dispstr s) (length (disp s)) (exponent s)"
    and "length t \<le> 4" "CHR 0x00 \<notin> set t" "CHR ''e'' \<notin> set t"
  shows "entry_pre (strcat t s)"
proof -
  have l: "length (dispstr s) = 32" using assms(1) by (simp add: calc_ok_def buf_ok_def LCD_STR_LEN_def)
  have "calc_ok (strcat t s)" using assms(1,2,6) by (simp add: strcat_keep)
  moreover have "exponent (strcat t s) = exponent s" by (simp add: strcat_def)
  moreover have "tail_nul (put (dispstr s) (disp s @ t)) (length (disp s @ t)) (exponent s)"
    by (rule tail_nul_put [OF assms(5) _ assms(4) l]) simp
  ultimately show ?thesis using assms
    by (simp add: entry_pre_def disp_strcat) (simp add: strcat_def disp_def)
qed

lemma entry_invD:
  assumes "entry_inv s"
  shows "calc_ok s" "length (disp s) \<le> 12" "CHR ''e'' \<notin> set (disp s)" "exponent s \<le> 11" "entered s = 1"
    "flagINV s = 0" "memop s \<notin> {kSTO, kRCL, kSUM}" "length (dispstr s) = 32" "0 \<le> exponent s"
    "tail_nul (dispstr s) (if clrdisp s \<noteq> 0 then 1 else length (disp s)) (exponent s)"
  using assms by (auto simp: entry_inv_def entry_str_def disp_def calc_ok_def buf_ok_def LCD_STR_LEN_def)

subsection \<open>The typing keys\<close>

lemma flagINV_same: "flagINV s = 0 \<Longrightarrow> s\<lparr>flagINV := 0\<rparr> = s"
  by simp

lemma begin_number_entry:
  assumes "entry_inv s"
  shows "entry_inv (begin_number s)" "clrdisp (begin_number s) = clrdisp s"
    "clrdisp s \<noteq> 0 \<Longrightarrow> disp (begin_number s) = [] \<and> exponent (begin_number s) = 0"
proof -
  note D = entry_invD [OF assms]
  have d: "clrdisp s \<noteq> 0 \<Longrightarrow> disp (begin_number s) = []"
    using D(8) by (auto simp: begin_number_def Let_def disp_def poke_def PushNum_def cstr_of_def takeWhile_update_stop)
  have e: "clrdisp s \<noteq> 0 \<Longrightarrow> exponent (begin_number s) = 0" by (simp add: begin_number_def Let_def)
  have f: "entered (begin_number s) = 1" "flagINV (begin_number s) = 0" "memop (begin_number s) = memop s"
    "clrdisp (begin_number s) = clrdisp s"
    using D(5,6) by (simp_all add: begin_number_def Let_def poke_def PushNum_def)
  show "clrdisp (begin_number s) = clrdisp s" by (rule f(4))
  show "clrdisp s \<noteq> 0 \<Longrightarrow> disp (begin_number s) = [] \<and> exponent (begin_number s) = 0" using d e by blast
  show "entry_inv (begin_number s)"
  proof (cases "clrdisp s = 0")
    case True
    then show ?thesis using assms by (simp add: begin_number_def)
  next
    case False
    then show ?thesis using d e f D(1,7) begin_number_keep [OF D(1)]
      by (simp add: entry_inv_def entry_str_def disp_def)
  qed
qed

lemma digit_of_chars: "CHR 0x00 \<notin> set (digit_of b k)" "CHR ''e'' \<notin> set (digit_of b k)"
  by (cases k; simp add: digit_of_def)+

lemma append_digit_entry:
  assumes "entry_inv s" and "k \<in> set num_keys" and "clrdisp s \<noteq> 0 \<Longrightarrow> disp s = [] \<and> exponent s = 0"
  shows "entry_inv (append_digit k s)"
proof (cases "MAXDISP \<le> length (disp s) \<or> digit_of (numbase s) k = []")
  case True
  then show ?thesis using assms(1) by (auto simp: append_digit_def Let_def)
next
  case False
  note D = entry_invD [OF assms(1)]
  have tl: "tail_nul (dispstr s) (length (disp s)) (exponent s)"
    using D(10) assms(3) by (cases "clrdisp s = 0") simp_all
  let ?y = "strcat (digit_of (numbase s) k) s"
  have pre: "entry_pre ?y"
    using length_digit_of [of "numbase s" k] by (intro entry_pre_strcat D tl digit_of_chars) simp
  have one: "clrdisp s \<noteq> 0 \<Longrightarrow> length (disp ?y) \<le> 1"
    using assms(3) length_digit_of [of "numbase s" k] by (simp add: disp_strcat digit_of_chars)
  have m: "k \<notin> {kSTO, kRCL, kSUM}" using assms(2) by (auto simp: num_keys_def)
  have c: "clrdisp ?y = clrdisp s" "flagINV ?y = 0" by (simp_all add: strcat_def D(6))
  have ok: "calc_ok (DrawDisplay ?y)" using pre by (simp add: entry_pre_def calc_keep)
  show ?thesis
    using False ok m one unfolding append_digit_def Let_def
    by (simp add: c) (intro conjI impI drawn_entry_inv [OF pre]; simp add: c calc_keep strcat_def D(6))
qed

lemma numeric_entry: "entry_inv s \<Longrightarrow> k \<in> set num_keys \<Longrightarrow> entry_inv (numeric F k s)"
  using begin_number_entry [of s] append_digit_entry [of "begin_number s" k] entry_invD(6,7) [of s]
  by (auto simp: numeric_def flagINV_same)

text \<open>Starting a number anew with \<^verbatim>\<open>.\<close> or EE.\<close>

lemma start_entry_entry:
  assumes "entry_inv s" and "length t = 1" "CHR 0x00 \<notin> set t" "CHR ''e'' \<notin> set t"
  shows "calc_ok (start_entry t s)" "length (disp (start_entry t s)) \<le> 12"
    "CHR ''e'' \<notin> set (disp (start_entry t s))"
    "tail_nul (dispstr (start_entry t s)) (length (disp (start_entry t s))) (exponent s)"
    "entered (start_entry t s) = 1" "flagINV (start_entry t s) = 0" "memop (start_entry t s) = memop s"
    "disp (start_entry t s) = [] \<longrightarrow> disp s = []"
proof -
  note D = entry_invD [OF assms(1)]
  show "calc_ok (start_entry t s)" using D(1) by (simp add: calc_keep)
  show "entered (start_entry t s) = 1" "flagINV (start_entry t s) = 0" "memop (start_entry t s) = memop s"
    using D(5,6) by (simp_all add: start_entry_def PushNum_def)
  have d: "disp (start_entry t s) = (if clrdisp s \<noteq> 0 then t else disp s)"
    using start_entry_disp [OF assms(3), of s] assms(2) by simp
  then show "length (disp (start_entry t s)) \<le> 12" "CHR ''e'' \<notin> set (disp (start_entry t s))"
    "disp (start_entry t s) = [] \<longrightarrow> disp s = []"
    using D assms by auto
  show "tail_nul (dispstr (start_entry t s)) (length (disp (start_entry t s))) (exponent s)"
  proof (cases "clrdisp s = 0")
    case False
    have "dispstr (start_entry t s) = put (dispstr s) t"
      using False assms(2) by (simp add: start_entry_def strlcpy_def PushNum_def snprintf_fits LCD_STR_LEN_def)
    moreover have "tail_nul (dispstr s) 1 (exponent s)" using D(10) False by simp
    then have "tail_nul (put (dispstr s) t) (length t) (exponent s)"
      by (rule tail_nul_put) (use assms(2) D(4,8) in simp_all)
    ultimately show ?thesis using False by (simp add: d)
  qed (use D(10) in \<open>simp add: start_entry_def\<close>)
qed

lemma decf_entry:
  assumes "entry_inv s" and "good_point F" shows "entry_inv (decf F s)"
proof -
  note D = entry_invD [OF assms(1)]
  let ?s1 = "start_entry ''0'' s"
  have S: "calc_ok ?s1" "length (disp ?s1) \<le> 12" "CHR ''e'' \<notin> set (disp ?s1)"
    "tail_nul (dispstr ?s1) (length (disp ?s1)) (exponent s)" "entered ?s1 = 1" "flagINV ?s1 = 0" "memop ?s1 = memop s"
    using start_entry_entry [OF assms(1), of "''0''"] by simp_all
  show ?thesis
  proof (cases "Dpoint s = 0")
    case True
    have pre: "entry_pre (strcat (f_point F) ?s1)"
      using assms(2) D(4) S by (intro entry_pre_strcat) (simp_all add: good_point_def)
    then have ok: "calc_ok (DrawDisplay (strcat (f_point F) ?s1))" by (simp add: entry_pre_def calc_keep)
    show ?thesis
      using True ok D(7) S(5-7) unfolding decf_def Let_def flagINV_same [OF D(6)]
      by (simp, intro drawn_entry_inv [OF pre]) (simp_all add: calc_keep strcat_def)
  next
    case False
    then show ?thesis using S D unfolding decf_def Let_def flagINV_same [OF D(6)]
      by (simp add: entry_inv_def entry_str_def disp_def calc_keep)
  qed
qed

text \<open>After EE the place for the sign is the last character, with the NUL right behind it.\<close>

lemma exponent_at_end:
  assumes "calc_ok z" and "0 < length (disp z)"
  shows "tail_nul (dispstr z) (length (disp z)) (int (length (disp z)) - 1)"
proof -
  have "length (disp z) < 32" using disp_length [OF assms(1)] by simp
  then have "dispstr z ! length (disp z) = CHR 0x00"
    using assms(1) nth_length_takeWhile [of "\<lambda>c. c \<noteq> CHR 0x00" "dispstr z"]
    by (simp add: disp_def cstr_of_def calc_ok_def buf_ok_def LCD_STR_LEN_def)
  then show ?thesis using assms(2) unfolding tail_nul_def by (auto simp: nat_diff_distrib le_Suc_eq)
qed

lemma eef_entry:
  assumes "entry_inv s" shows "entry_inv (eef s)"
proof -
  note D = entry_invD [OF assms]
  define t where "t = (if rpn s then ''1'' else ''0'')"
  have t: "length t = 1" "CHR 0x00 \<notin> set t" "CHR ''e'' \<notin> set t" by (simp_all add: t_def)
  define s1 where "s1 = start_entry t s"
  note S = start_entry_entry [OF assms t, folded s1_def]
  have f: "exponent s1 = exponent s" by (simp add: s1_def)
  have eq: "eef s = (if exponent s = 0
      then (DrawDisplay (strcat ''E+'' s1))\<lparr>exponent := int (length (disp (DrawDisplay (strcat ''E+'' s1)))) - 1,
        clrdisp := 0, entered := 1\<rparr>
      else s1\<lparr>clrdisp := 0, entered := 1\<rparr>)"
    unfolding eef_def Let_def flagINV_same [OF D(6)] t_def [symmetric] s1_def [symmetric] f by simp
  show ?thesis
  proof (cases "exponent s = 0")
    case True
    define z where "z = DrawDisplay (strcat ''E+'' s1)"
    have pre: "entry_pre (strcat ''E+'' s1)" using D(4) S f by (intro entry_pre_strcat) simp_all
    have b: "buf_ok (dispstr (strcat ''E+'' s1))" "CHR ''e'' \<notin> set (disp (strcat ''E+'' s1))"
      "exponent (strcat ''E+'' s1) \<le> 11"
      "tail_nul (dispstr (strcat ''E+'' s1)) (length (disp (strcat ''E+'' s1))) (exponent (strcat ''E+'' s1))"
      using pre by (simp_all add: entry_pre_def calc_ok_def)
    note d = DrawDisplay_entry [OF b, folded z_def]
    have len: "0 < length (disp z)" "length (disp z) \<le> 12" by (simp_all add: d(2) disp_strcat)
    have ok: "calc_ok z" using pre by (simp add: entry_pre_def calc_keep z_def)
    have g: "flagINV z = 0" "memop z = memop s" using S(6,7) by (simp_all add: z_def strcat_def)
    show ?thesis
      using True len ok d(1) g D(7) exponent_at_end [OF ok len(1)] unfolding eq z_def [symmetric]
      by (simp add: entry_inv_def calc_keep) (simp add: disp_def)
  next
    case False
    then show ?thesis using S D f unfolding eq
      by (simp add: entry_inv_def entry_str_def disp_def calc_keep)
  qed
qed

lemma clearf_entry: "entry_inv s \<Longrightarrow> entry_inv (clearf F s)"
proof -
  assume s: "entry_inv s"
  note D = entry_invD [OF s]
  let ?x = "(if CLR s \<noteq> 0 \<and> \<not> rpn s then (ClearStacks F s)\<lparr>flagPAREN := 0\<rparr> else s)
      \<lparr>CLR := CLR s + 1, exponent := 0, Dpoint := 0, clrdisp := 1, entered := 1\<rparr>"
  have x: "calc_ok ?x" using D(1) by (simp add: calc_keep)
  have d0: "disp (strlcpy ''0'' ?x) = ''0''" by (simp add: disp_strlcpy snprintf_fits LCD_STR_LEN_def)
  have pre: "entry_pre (strlcpy ''0'' ?x)" using x strlcpy_keep [OF x] by (simp add: entry_pre_def d0)
  have m: "memop ?x = memop s" "flagINV ?x = 0" using D(6) by (simp_all add: ClearStacks_def)
  have "entry_inv (DrawDisplay (strlcpy ''0'' ?x))"
    by (rule drawn_entry_inv [OF pre]) (use x D(7) m d0 in \<open>simp_all add: calc_keep\<close>)
  moreover have "clearf F s = DrawDisplay (strlcpy ''0'' ?x)"
    unfolding clearf_def Let_def flagINV_same [OF D(6)] by (simp add: ClearStacks_def)
  ultimately show ?thesis by simp
qed

lemma bkspf_entry:
  assumes "entry_inv s" shows "entry_inv (bkspf F s)"
proof -
  note D = entry_invD [OF assms]
  let ?s0 = "s\<lparr>lift_enabled := False\<rparr>"
  have "disp ?s0 = disp s" by (simp add: disp_def)
  then have s0: "entry_inv ?s0" using assms by (auto simp: entry_inv_def calc_keep)
  show ?thesis
  proof (cases "clrdisp s = 0")
    case False
    then show ?thesis using s0 D(5,6) by (simp add: bkspf_def Let_def)
  next
    case True
    define x where "x = (if disp s \<noteq> [] then poke (length (disp s) - 1) (CHR 0x00)
        (if ends_with (disp s) (f_point F) then ?s0\<lparr>Dpoint := 0\<rparr> else ?s0) else ?s0)"
    have l: "length (disp s) \<le> 12" "length (dispstr s) = 32" by (rule D)+
    have dx: "disp x = take (length (disp s) - 1) (disp s)"
    proof (cases "disp s = []")
      case False
      have "dispstr x = (dispstr s)[length (disp s) - 1 := CHR 0x00]" using False by (simp add: x_def poke_def)
      moreover have "length (disp s) - 1 < length (dispstr s)" using l by simp
      ultimately show ?thesis by (simp add: disp_def cstr_of_def takeWhile_update_stop)
    qed (simp add: x_def disp_def)
    have tx: "tail_nul (dispstr x) (length (disp x)) (exponent s)"
    proof (cases "disp s = []")
      case False
      have t: "tail_nul (dispstr s) (length (disp s)) (exponent s)" using D(10) True by simp
      have "tail_nul ((dispstr s)[length (disp s) - 1 := CHR 0x00]) (length (disp s) - 1) (exponent s)"
        by (rule tail_nul_cut [OF t l(2) _ D(4)]) auto
      then show ?thesis using False l by (simp add: dx) (simp add: x_def poke_def)
    qed (use D(10) True in \<open>simp add: x_def disp_def\<close>)
    have fx: "calc_ok x" "exponent x = exponent s" "flagINV x = 0" "entered x = 1" "memop x = memop s" "clrdisp x = 0"
      using D True by (simp_all add: x_def calc_keep) (simp_all add: poke_def)
    have ex: "CHR ''e'' \<notin> set (disp x)" "length (disp x) \<le> 12"
      using D(3) l by (auto simp: dx dest: in_set_takeD)
    define y where "y = (if disp x = [] then (strcat ''0'' x)\<lparr>clrdisp := clrdisp x + 1\<rparr> else x)"
    have pre: "entry_pre y"
    proof (cases "disp x = []")
      case True
      have "entry_pre (strcat ''0'' x)" using fx ex tx D(4) by (intro entry_pre_strcat) simp_all
      then show ?thesis using True by (simp add: y_def entry_pre_def disp_def)
    qed (use fx ex tx D(4) in \<open>simp add: y_def entry_pre_def\<close>)
    have one: "clrdisp y \<noteq> 0 \<Longrightarrow> length (disp y) \<le> 1"
      using fx(6) disp_strcat [of "''0''" x] by (auto simp: y_def disp_def split: if_splits)
    have fy: "entered y = 1" "flagINV y = 0" "memop y = memop s" using fx by (simp_all add: y_def strcat_def)
    have "entry_inv (DrawDisplay y)"
      by (rule drawn_entry_inv [OF pre]) (use pre fy D(7) one in \<open>simp_all add: entry_pre_def calc_keep\<close>)
    moreover have "bkspf F s = DrawDisplay y"
    proof -
      have ds: "disp ?s0 = disp s" "disp (?s0\<lparr>Dpoint := 0\<rparr>) = disp s" by (simp_all add: disp_def)
      show ?thesis unfolding bkspf_def Let_def y_def x_def
        using D(5,6) True by (simp add: ds)
    qed
    ultimately show ?thesis by simp
  qed
qed

text \<open>The change of sign: in the exponent it overwrites one byte, else it adds or drops a minus.\<close>

lemma DrawDisplay_tail:
  assumes "calc_ok s" "CHR ''e'' \<notin> set (disp s)" "tail_nul (dispstr s) n x" "x \<le> 11"
  shows "tail_nul (dispstr (DrawDisplay s)) n x"
proof -
  have l: "length (dispstr s) = 32" using assms(1) by (simp add: calc_ok_def buf_ok_def LCD_STR_LEN_def)
  have "dispstr (DrawDisplay s) = (if length (disp s) \<ge> MAXDISP then (dispstr s)[12 := CHR 0x00] else dispstr s)"
    using assms(2) by (simp add: DrawDisplay_def Let_def setflag_def draw_def poke_def disp_def)
  then show ?thesis using assms(3) tail_nul_update [OF assms(3) _ l assms(4)] by simp
qed

lemma drawn_tail_inv:
  assumes "entry_pre s" and "entered s = 1" "flagINV s = 0" "memop s \<notin> {kSTO, kRCL, kSUM}"
    and "clrdisp s \<noteq> 0 \<Longrightarrow> tail_nul (dispstr s) 1 (exponent s)"
  shows "entry_inv (DrawDisplay s)"
proof -
  have s: "calc_ok s" "buf_ok (dispstr s)" "CHR ''e'' \<notin> set (disp s)" "exponent s \<le> 11"
    "tail_nul (dispstr s) (length (disp s)) (exponent s)"
    using assms(1) by (simp_all add: entry_pre_def calc_ok_def)
  note d = DrawDisplay_entry [OF s(2-5)]
  show ?thesis
    using assms s(1,4) d(1,3) DrawDisplay_tail [OF s(1,3) _ s(4)]
    by (auto simp: entry_inv_def calc_keep)
qed

lemma poke_sign:
  assumes b: "length b = 32" "0 < x" "x \<le> 11" "tail_nul b n x" "n \<le> nat x + 1 \<or> n = length (cstr_of b)"
    and c: "c \<noteq> CHR 0x00" "c \<noteq> CHR ''e''" and e: "CHR ''e'' \<notin> set (cstr_of b)"
  shows "CHR ''e'' \<notin> set (cstr_of (b[nat x := c]))" "length (cstr_of b) \<le> length (cstr_of (b[nat x := c]))"
proof -
  consider (inside) "nat x < length (cstr_of b)" | (extend) "nat x = length (cstr_of b)" | (beyond) "length (cstr_of b) < nat x"
    by linarith
  then have "CHR ''e'' \<notin> set (cstr_of (b[nat x := c])) \<and> length (cstr_of b) \<le> length (cstr_of (b[nat x := c]))"
  proof cases
    case inside
    then show ?thesis using c e set_update_subset_insert [of "cstr_of b" "nat x" c] by (auto simp: cstr_of_inside)
  next
    case extend
    then have "b ! Suc (nat x) = CHR 0x00" using tail_nulD [OF b(4,2), of "Suc (nat x)"] b(5) by auto
    then show ?thesis using cstr_of_extend [of b "nat x" c] extend b(1,3) c e by auto
  next
    case beyond
    then show ?thesis using e by (simp add: cstr_of_beyond)
  qed
  then show "CHR ''e'' \<notin> set (cstr_of (b[nat x := c]))" "length (cstr_of b) \<le> length (cstr_of (b[nat x := c]))"
    by simp_all
qed

lemma set_tl_subset: "set (tl xs) \<subseteq> set xs"
  by (cases xs) auto

lemma tail_nul_mono: "tail_nul b n x \<Longrightarrow> n \<le> m \<Longrightarrow> tail_nul b m x"
  by (auto simp: tail_nul_def)

lemma tail_nul_string:
  assumes "tail_nul b 1 x" "length b = 32" shows "tail_nul b (length (cstr_of b)) x"
proof (cases "cstr_of b = []")
  case True
  then have "b ! 0 = CHR 0x00" using assms(2) by (cases b) (auto simp: cstr_of_def split: if_splits)
  then show ?thesis using assms(1) True by (auto simp: tail_nul_def) (metis One_nat_def less_one not_less)
next
  case False
  then have "1 \<le> length (cstr_of b)" by (cases "cstr_of b") auto
  then show ?thesis using assms(1) by (rule tail_nul_mono [rotated])
qed

lemma neg_exponent_entry:
  assumes "entry_inv s" "exponent s \<noteq> 0" "c \<noteq> CHR 0x00" "c \<noteq> CHR ''e''"
  shows "entry_inv (DrawDisplay (poke (nat (exponent s)) c s))"
proof (rule drawn_tail_inv)
  note D = entry_invD [OF assms(1)]
  define n where "n = (if clrdisp s \<noteq> 0 then 1 else length (disp s))"
  let ?x = "exponent s" and ?y = "poke (nat (exponent s)) c s"
  have x: "0 < ?x" using D(9) assms(2) by simp
  have y: "dispstr ?y = (dispstr s)[nat ?x := c]" by (simp add: poke_def)
  have t: "tail_nul (dispstr s) n ?x" using D(10) by (simp add: n_def)
  have "n \<le> nat ?x + 1 \<or> n = length (cstr_of (dispstr s))" by (simp add: n_def disp_def)
  note P = poke_sign [OF D(8) x D(4) t this assms(3,4) D(3)[unfolded disp_def]]
  have t': "tail_nul ((dispstr s)[nat ?x := c]) n ?x" using tail_nul_update [OF t _ D(8,4)] by simp
  show one: "tail_nul (dispstr ?y) 1 (exponent ?y)" if "clrdisp ?y \<noteq> 0"
    using t' that by (simp add: poke_def n_def)
  have "tail_nul (dispstr ?y) (length (disp ?y)) ?x"
  proof (cases "clrdisp s = 0")
    case True
    then show ?thesis using tail_nul_mono [OF t'] P(2) by (simp add: n_def y disp_def)
  next
    case False
    then show ?thesis using tail_nul_string [of "dispstr ?y" ?x] t' D(8) by (simp add: n_def y disp_def)
  qed
  moreover have "calc_ok ?y" using D(1,4,9) by (intro poke_keep) auto
  moreover have "CHR ''e'' \<notin> set (disp ?y)" using P(1) by (simp add: disp_def y)
  ultimately show "entry_pre ?y" using D(4) by (simp add: entry_pre_def) (simp add: poke_def)
qed (use entry_invD [OF assms(1)] in \<open>simp_all add: poke_def\<close>)

lemma negf_entry:
  assumes "entry_inv s" shows "entry_inv (negf F s)"
proof -
  note D = entry_invD [OF assms]
  have inv: "s\<lparr>flagINV := 0\<rparr> = s" using D(6) by simp
  consider "exponent s \<noteq> 0" | "exponent s = 0" "disp s = ''0''" | (sign) "exponent s = 0" "disp s \<noteq> ''0''" by blast
  then show ?thesis
  proof cases
    case sign
    define y where "y = (if disp s \<noteq> [] \<and> hd (disp s) = CHR ''-'' then s\<lparr>dispstr := put (dispstr s) (tl (disp s))\<rparr>
      else strlcpy (snprintf (LCD_STR_LEN + 1) (CHR ''-'' # disp s)) s)"
    have n: "CHR 0x00 \<notin> set (tl (disp s))" "CHR 0x00 \<notin> set (disp s)" "CHR ''e'' \<notin> set (tl (disp s))"
      using D(3) nul_cstr_of [of "dispstr s"] set_tl_subset [of "disp s"] by (auto simp: disp_def)
    have "disp y = (if disp s \<noteq> [] \<and> hd (disp s) = CHR ''-'' then tl (disp s) else CHR ''-'' # disp s)"
      using n D(2) by (simp add: y_def disp_strlcpy snprintf_fits LCD_STR_LEN_def) (simp add: disp_def cstr_of_put)
    moreover have "calc_ok (s\<lparr>dispstr := put (dispstr s) (tl (disp s))\<rparr>)"
      using D(1,2) by (simp add: calc_ok_def buf_ok_put)
    then have "calc_ok y" using D(1) by (simp add: y_def calc_keep)
    moreover have f: "exponent y = 0" "entered y = 1" "flagINV y = 0" "memop y = memop s" using sign(1) D(5,6) by (simp_all add: y_def)
    ultimately have "entry_pre y" using n D(3) by (simp add: entry_pre_def)
    then have "entry_inv (DrawDisplay y)" by (rule drawn_tail_inv) (use f D(7) in simp_all)
    moreover have "negf F s = DrawDisplay y"
      unfolding negf_def Let_def inv using sign f(2) by (simp add: y_def)
    ultimately show ?thesis by simp
  qed (use assms neg_exponent_entry [OF assms] in \<open>simp_all add: negf_def Let_def inv\<close>)
qed

subsection \<open>Any sequence of typing keys\<close>

lemma num_keys_apart: "k \<in> set num_keys \<Longrightarrow> k \<notin> set two_keys \<and> k \<notin> set one_keys"
proof -
  have "list_all (\<lambda>k. k \<notin> set two_keys \<and> k \<notin> set one_keys) num_keys" by code_simp
  then show "k \<in> set num_keys \<Longrightarrow> k \<notin> set two_keys \<and> k \<notin> set one_keys" by (simp add: list_all_iff)
qed

lemma entry_key:
  assumes "entry_inv s" "k \<in> set entry_keys" "good_point F"
  shows "pred_option entry_inv (calc_do_op F k s)"
proof -
  let ?s = "snd (pre_op k s)"
  have p: "fst (pre_op k s) = False" "entry_inv ?s"
    using assms(1) entry_invD(5) [OF assms(1)]
    by (auto simp: pre_op_def Let_def entry_inv_def disp_def calc_keep)
  have "pred_option entry_inv (do_key F k ?s)"
  proof (cases "k \<in> set num_keys")
    case True
    then have "do_key F k ?s = Some (numeric F k ?s)" using num_keys_apart by (simp add: do_key_def)
    then show ?thesis using numeric_entry [OF p(2) True] by simp
  next
    case False
    with assms(2) consider "k = kDEC" | "k = kEE" | "k = kNEG" | "k = kBKSP" | "k = kCLR" by (auto simp: entry_keys_def)
    then show ?thesis
      using decf_entry [OF p(2) assms(3)] eef_entry [OF p(2)] negf_entry [OF p(2)] bkspf_entry [OF p(2)] clearf_entry [OF p(2)]
      by cases (simp_all add: do_key_def num_keys_def two_keys_def one_keys_def)
  qed
  then show ?thesis by (simp add: calc_do_op_def with_pre_def p(1))
qed

lemma entry_press:
  "entry_inv s \<Longrightarrow> set ks \<subseteq> set entry_keys \<Longrightarrow> good_point F \<Longrightarrow> pred_option entry_inv (press F ks s)"
proof (induction ks arbitrary: s)
  case (Cons k ks)
  then show ?case using entry_key [of s k F] by (auto split: option.splits)
qed simp

text \<open>The calculator as it starts.\<close>

lemma calc_init_fields:
  "entered (calc_init F m) = 1" "flagINV (calc_init F m) = 0" "memop (calc_init F m) = kCLR" "exponent (calc_init F m) = 0"
  "clrdisp (calc_init F m) = 1" "rpn (calc_init F m) = m" "opsp (calc_init F m) = 0" "numsp (calc_init F m) = 0"
  "lift_enabled (calc_init F m) = False" "CLR (calc_init F m) = 0"
  by (simp_all add: calc_init_def ResetCalc_def ClearStacks_def setflag_def draw_def strlcpy_def Let_def)

lemma calc_init_keep: "calc_ok (calc_init F m)"
proof -
  have "buf_ok (put (replicate 32 (CHR 0x00)) ''0'')" by (intro buf_ok_put) (simp_all add: buf_ok_def LCD_STR_LEN_def)
  then show ?thesis
    by (simp add: calc_init_def ResetCalc_def ClearStacks_def setflag_def draw_def Let_def calc_ok_def strlcpy_def snprintf_def
        LCD_STR_LEN_def STACKMAX_def XCALC_MEMORY_def)
qed

lemma calc_init_disp: "disp (calc_init F m) = ''0''"
  by (simp add: calc_init_def ResetCalc_def ClearStacks_def setflag_def draw_def Let_def strlcpy_def snprintf_def
      LCD_STR_LEN_def disp_def cstr_of_put)

lemma calc_init_entry: "entry_inv (calc_init F m)"
  using calc_init_keep [of F m] calc_init_disp [of F m]
  by (simp add: entry_inv_def entry_str_def calc_init_fields) (simp add: disp_def)

end
