(* ===== verification/Calc_Eval.thy ===== *)
theory Calc_Eval
  imports Calc_Entry
begin

section \<open>isde-calc: what the stacks compute\<close>

text \<open>
  The two arrays with their stack pointers as lists (\<open>nums\<close>, \<open>ops\<close>, top first), the reference
  evaluator \<open>reduce\<close> on such lists, and the proofs that the loops of \<^verbatim>\<open>equf\<close> and \<^verbatim>\<open>rparf\<close>
  refine it in infix mode; then the four registers of RPN mode as a list that is never empty.
\<close>

subsection \<open>The stacks as lists\<close>

definition nums :: "'d calc \<Rightarrow> 'd list" where
  "nums s = rev (take (numsp s) (numstack s))"

definition ops :: "'d calc \<Rightarrow> key list" where
  "ops s = rev (take (opsp s) (opstack s))"

definition infix_ok :: "'d calc \<Rightarrow> bool" where
  "infix_ok s \<longleftrightarrow> calc_ok s \<and> \<not> rpn s"

lemma take_push: "n < length xs \<Longrightarrow> rev (take (n + 1) (xs[n := x])) = x # rev (take n xs)"
  by (simp add: take_Suc_conv_app_nth)

lemma take_pop: "0 < n \<Longrightarrow> n \<le> length xs \<Longrightarrow> rev (take n xs) = xs ! (n - 1) # rev (take (n - 1) xs)"
  using take_push [of "n - 1" xs "xs ! (n - 1)"] by simp

lemma infix_okD: "infix_ok s \<Longrightarrow> calc_ok s" "infix_ok s \<Longrightarrow> \<not> rpn s"
  "infix_ok s \<Longrightarrow> length (nums s) = numsp s" "infix_ok s \<Longrightarrow> length (ops s) = opsp s"
  by (auto simp: infix_ok_def calc_ok_def nums_def ops_def)

lemma nums_empty: "infix_ok s \<Longrightarrow> nums s = [] \<longleftrightarrow> numsp s = 0" "infix_ok s \<Longrightarrow> ops s = [] \<longleftrightarrow> opsp s = 0"
  using infix_okD(3,4) [of s] by auto

lemma nums_update [simp]:
  "nums (s\<lparr>dnum := x\<rparr>) = nums s" "nums (s\<lparr>lastop := k\<rparr>) = nums s" "nums (s\<lparr>opsp := n\<rparr>) = nums s" "nums (s\<lparr>acc_reg := x\<rparr>) = nums s"
  "nums (s\<lparr>entered := i\<rparr>) = nums s" "nums (s\<lparr>clrdisp := i\<rparr>) = nums s" "nums (s\<lparr>CLR := i\<rparr>) = nums s"
  "nums (s\<lparr>Dpoint := i\<rparr>) = nums s" "nums (s\<lparr>exponent := i\<rparr>) = nums s" "nums (s\<lparr>flagINV := i\<rparr>) = nums s"
  "nums (s\<lparr>flagPAREN := i\<rparr>) = nums s" "nums (s\<lparr>dispstr := b\<rparr>) = nums s" "nums (s\<lparr>opstack := os\<rparr>) = nums s"
  "nums (s\<lparr>lift_enabled := lf\<rparr>) = nums s"
  by (simp_all add: nums_def)

lemma ops_update [simp]:
  "ops (s\<lparr>dnum := x\<rparr>) = ops s" "ops (s\<lparr>lastop := k\<rparr>) = ops s" "ops (s\<lparr>numsp := n\<rparr>) = ops s" "ops (s\<lparr>acc_reg := x\<rparr>) = ops s"
  "ops (s\<lparr>entered := i\<rparr>) = ops s" "ops (s\<lparr>clrdisp := i\<rparr>) = ops s" "ops (s\<lparr>CLR := i\<rparr>) = ops s"
  "ops (s\<lparr>Dpoint := i\<rparr>) = ops s" "ops (s\<lparr>exponent := i\<rparr>) = ops s" "ops (s\<lparr>flagINV := i\<rparr>) = ops s"
  "ops (s\<lparr>flagPAREN := i\<rparr>) = ops s" "ops (s\<lparr>dispstr := b\<rparr>) = ops s" "ops (s\<lparr>numstack := os\<rparr>) = ops s"
  "ops (s\<lparr>lift_enabled := lf\<rparr>) = ops s"
  by (simp_all add: ops_def)

lemma infix_ok_update [simp]:
  "infix_ok (s\<lparr>dnum := x\<rparr>) = infix_ok s" "infix_ok (s\<lparr>lastop := k\<rparr>) = infix_ok s" "infix_ok (s\<lparr>acc_reg := x\<rparr>) = infix_ok s"
  "infix_ok (s\<lparr>clrdisp := i\<rparr>) = infix_ok s" "infix_ok (s\<lparr>CLR := i\<rparr>) = infix_ok s" "infix_ok (s\<lparr>flagPAREN := i\<rparr>) = infix_ok s"
  "infix_ok (s\<lparr>Dpoint := i\<rparr>) = infix_ok s" "infix_ok (s\<lparr>flagINV := i\<rparr>) = infix_ok s"
  by (simp_all add: infix_ok_def)

lemma PushNum_infix:
  assumes "infix_ok s" "numsp s < 32"
  shows "nums (PushNum x s) = x # nums s" "ops (PushNum x s) = ops s" "infix_ok (PushNum x s)"
    "dnum (PushNum x s) = dnum s" "entered (PushNum x s) = entered s" "flagPAREN (PushNum x s) = flagPAREN s"
proof -
  have n: "numsp s < length (numstack s)" using assms by (simp add: infix_ok_def calc_ok_def STACKMAX_def)
  show "nums (PushNum x s) = x # nums s" "ops (PushNum x s) = ops s" "dnum (PushNum x s) = dnum s" "entered (PushNum x s) = entered s"
    "flagPAREN (PushNum x s) = flagPAREN s"
    using assms n take_push [OF n, of x] by (simp_all add: PushNum_def nums_def ops_def STACKMAX_def infix_ok_def)
  show "infix_ok (PushNum x s)" using assms(1) by (simp add: infix_ok_def stack_keep PushNum_fields)
qed

lemma PopNum_infix:
  assumes "infix_ok s" "nums s = x # ns"
  shows "fst (PopNum F s) = x" "nums (snd (PopNum F s)) = ns" "ops (snd (PopNum F s)) = ops s" "infix_ok (snd (PopNum F s))"
    "dnum (snd (PopNum F s)) = dnum s" "entered (snd (PopNum F s)) = entered s" "flagPAREN (snd (PopNum F s)) = flagPAREN s"
proof -
  have n: "0 < numsp s" "numsp s \<le> length (numstack s)"
    using assms infix_okD(3) [OF assms(1)] by (auto simp: infix_ok_def calc_ok_def STACKMAX_def)
  show "fst (PopNum F s) = x" "nums (snd (PopNum F s)) = ns" "ops (snd (PopNum F s)) = ops s"
    "dnum (snd (PopNum F s)) = dnum s" "entered (snd (PopNum F s)) = entered s" "flagPAREN (snd (PopNum F s)) = flagPAREN s"
    using assms n take_pop [OF n] by (simp_all add: PopNum_def nums_def ops_def infix_ok_def)
  show "infix_ok (snd (PopNum F s))" using assms(1) n(1) by (simp add: infix_ok_def stack_keep) (simp add: PopNum_def)
qed

lemma PopOp_infix:
  assumes "infix_ok s" "ops s = op # os"
  shows "fst (PopOp s) = op" "ops (snd (PopOp s)) = os" "nums (snd (PopOp s)) = nums s" "infix_ok (snd (PopOp s))"
    "dnum (snd (PopOp s)) = dnum s" "entered (snd (PopOp s)) = entered s" "flagPAREN (snd (PopOp s)) = flagPAREN s"
proof -
  have n: "0 < opsp s" "opsp s \<le> length (opstack s)"
    using assms infix_okD(4) [OF assms(1)] by (auto simp: infix_ok_def calc_ok_def STACKMAX_def)
  show "fst (PopOp s) = op" "nums (snd (PopOp s)) = nums s" "ops (snd (PopOp s)) = os"
    "dnum (snd (PopOp s)) = dnum s" "entered (snd (PopOp s)) = entered s" "flagPAREN (snd (PopOp s)) = flagPAREN s"
    using assms n take_pop [OF n] by (simp_all add: PopOp_def nums_def ops_def infix_ok_def)
  show "infix_ok (snd (PopOp s))" using assms(1) n(1) by (simp add: infix_ok_def stack_keep) (simp add: PopOp_def)
qed

lemma PushOp_infix:
  assumes "infix_ok s" "opsp s < 32"
  shows "ops (PushOp x s) = x # ops s" "nums (PushOp x s) = nums s" "infix_ok (PushOp x s)"
    "dnum (PushOp x s) = dnum s" "entered (PushOp x s) = entered s" "numsp (PushOp x s) = numsp s"
proof -
  have n: "opsp s < length (opstack s)" using assms by (simp add: infix_ok_def calc_ok_def STACKMAX_def)
  show "ops (PushOp x s) = x # ops s" "nums (PushOp x s) = nums s" "dnum (PushOp x s) = dnum s"
    "entered (PushOp x s) = entered s" "numsp (PushOp x s) = numsp s"
    using assms n take_push [OF n, of x] by (simp_all add: PushOp_def nums_def ops_def STACKMAX_def)
  show "infix_ok (PushOp x s)" using assms by (simp add: infix_ok_def stack_keep) (simp add: PushOp_def STACKMAX_def)
qed

subsection \<open>Bounded stacks\<close>

text \<open>
  What a client may rely on: below its capacity a push puts an element on top, a pop takes it off
  again. Both stacks of the calculator provide it in infix mode.
\<close>

locale lifo =
  fixes ok :: "'s \<Rightarrow> bool" and stk :: "'s \<Rightarrow> 'a list" and push :: "'a \<Rightarrow> 's \<Rightarrow> 's" and pop :: "'s \<Rightarrow> 'a \<times> 's" and cap :: nat
  assumes push_stk: "ok s \<Longrightarrow> length (stk s) < cap \<Longrightarrow> stk (push x s) = x # stk s"
    and push_ok: "ok s \<Longrightarrow> length (stk s) < cap \<Longrightarrow> ok (push x s)"
    and pop_top: "ok s \<Longrightarrow> stk s = x # xs \<Longrightarrow> fst (pop s) = x"
    and pop_stk: "ok s \<Longrightarrow> stk s = x # xs \<Longrightarrow> stk (snd (pop s)) = xs"
    and pop_ok: "ok s \<Longrightarrow> stk s = x # xs \<Longrightarrow> ok (snd (pop s))"
begin

lemma pop_push: "ok s \<Longrightarrow> length (stk s) < cap \<Longrightarrow> fst (pop (push x s)) = x \<and> stk (snd (pop (push x s))) = stk s"
  using pop_top [OF push_ok push_stk] pop_stk [OF push_ok push_stk] by simp

lemma push_all: "ok s \<Longrightarrow> length (stk s) + length xs \<le> cap \<Longrightarrow> stk (fold push xs s) = rev xs @ stk s \<and> ok (fold push xs s)"
proof (induction xs arbitrary: s)
  case (Cons x xs)
  then have "ok (push x s)" "stk (push x s) = x # stk s" by (auto intro: push_ok simp: push_stk)
  then show ?case using Cons by simp
qed simp

end

interpretation number: lifo infix_ok nums PushNum "PopNum F" 32 for F
  by unfold_locales (simp_all add: infix_okD(3) PushNum_infix PopNum_infix)

interpretation operator: lifo infix_ok ops PushOp PopOp 32
  by unfold_locales (simp_all add: infix_okD(4) PushOp_infix PopOp_infix)

subsection \<open>The reference evaluator\<close>

text \<open>
  \<open>reduce\<close> applies the operators from the top; \<open>None\<close> when one of them ends the process.
\<close>

fun reduce :: "'d fops \<Rightarrow> key list \<Rightarrow> 'd list \<Rightarrow> 'd option" where
  "reduce F [] (x # ns) = Some x"
| "reduce F (op # os) (b # a # ns) = (case arith F op a b of None \<Rightarrow> None | Some r \<Rightarrow> reduce F os (r # ns))"
| "reduce F _ _ = None"

lemma equ_step_infix:
  assumes "infix_ok s" "ops s = op # os" "nums s = b # a # ns" "op \<noteq> kLPAR" "arith F op a b = Some r"
  obtains s' where "equ_step F s = Some s'" "infix_ok s'" "ops s' = os" "nums s' = r # ns" "dnum s' = r"
    "entered s' = entered s" "flagPAREN s' = flagPAREN s"
proof -
  define s1 where "s1 = (snd (PopNum F s))\<lparr>dnum := b\<rparr>"
  define s2 where "s2 = snd (PopNum F s1)"
  define s3 where "s3 = (snd (PopOp s2))\<lparr>lastop := op\<rparr>"
  note p1 = PopNum_infix [OF assms(1,3), of F]
  have 1: "infix_ok s1" "nums s1 = a # ns" "ops s1 = op # os" "dnum s1 = b" "entered s1 = entered s" "flagPAREN s1 = flagPAREN s"
    using p1 assms(2) by (simp_all add: s1_def)
  note p2 = PopNum_infix [OF 1(1,2), of F]
  have 2: "infix_ok s2" "nums s2 = ns" "ops s2 = op # os" "dnum s2 = b" "entered s2 = entered s" "flagPAREN s2 = flagPAREN s"
    using p2 1 by (simp_all add: s2_def)
  note p3 = PopOp_infix [OF 2(1,3)]
  have 3: "infix_ok s3" "nums s3 = ns" "ops s3 = os" "dnum s3 = b" "entered s3 = entered s" "flagPAREN s3 = flagPAREN s"
    using p3 2 by (simp_all add: s3_def)
  have room: "numsp (s3\<lparr>acc_reg := r, dnum := r\<rparr>) < 32"
    using infix_okD(3) [OF 3(1)] infix_okD(3) [OF assms(1)] assms(1,3) 3(2)
    by (auto simp: infix_ok_def calc_ok_def STACKMAX_def)
  have e: "equ_step F s = Some (PushNum r (s3\<lparr>acc_reg := r, dnum := r\<rparr>))"
    using p1(1) p2(1) p3(1) 3(4) assms(4,5)
    by (simp add: equ_step_def Let_def split_beta s1_def [symmetric] s2_def [symmetric] s3_def [symmetric])
  have ok: "infix_ok (s3\<lparr>acc_reg := r, dnum := r\<rparr>)" using 3(1) by simp
  show thesis
    by (rule that [OF e]) (use PushNum_infix [OF ok room, of r] 3 in simp_all)
qed

lemma equ_loop_infix:
  assumes "infix_ok s" "kLPAR \<notin> set (ops s)" "dnum s = hd (nums s)" "length (ops s) < length (nums s)"
  shows "reduce F (ops s) (nums s) = None \<Longrightarrow> equ_loop F s = None"
    and "reduce F (ops s) (nums s) = Some r \<Longrightarrow> \<exists>s'. equ_loop F s = Some s' \<and> infix_ok s' \<and> ops s' = [] \<and>
      nums s' = r # drop (Suc (length (ops s))) (nums s) \<and> dnum s' = r \<and> entered s' = entered s \<and> flagPAREN s' = flagPAREN s"
proof -
  have "case reduce F (ops s) (nums s) of
      None \<Rightarrow> equ_loop F s = None
    | Some r \<Rightarrow> \<exists>s'. equ_loop F s = Some s' \<and> infix_ok s' \<and> ops s' = [] \<and>
      nums s' = r # drop (Suc (length (ops s))) (nums s) \<and> dnum s' = r \<and> entered s' = entered s \<and> flagPAREN s' = flagPAREN s"
    using assms
  proof (induction "ops s" arbitrary: s)
    case Nil
    then obtain x ns where n: "nums s = x # ns" by (cases "nums s") auto
    have "ops s = []" using Nil(1) by simp
    then have "isopempty s" using nums_empty(2) [OF Nil(2)] by (simp add: isopempty_def)
    then show ?case using Nil n \<open>ops s = []\<close> by (simp add: equ_loop.simps [of F s])
  next
    case (Cons op os)
    then have o: "ops s = op # os" by simp
    then obtain b a ns where n: "nums s = b # a # ns" using Cons(6) by (cases "nums s"; cases "tl (nums s)") auto
    have ne: "\<not> isopempty s" using o nums_empty(2) [OF Cons(3)] by (auto simp: isopempty_def)
    have l: "op \<noteq> kLPAR" using Cons(4) o by auto
    show ?case
    proof (cases "arith F op a b")
      case None
      have "equ_step F s = None"
        using None l PopNum_infix [OF Cons(3) n, of F] o
          PopNum_infix [of "(snd (PopNum F s))\<lparr>dnum := b\<rparr>" a ns F] PopOp_infix [of "snd (PopNum F ((snd (PopNum F s))\<lparr>dnum := b\<rparr>))" op os]
        by (simp add: equ_step_def Let_def split_beta)
      then show ?thesis using None ne by (simp add: o n equ_loop.simps [of F s])
    next
      case (Some r)
      obtain s' where s': "equ_step F s = Some s'" "infix_ok s'" "ops s' = os" "nums s' = r # ns" "dnum s' = r"
        "entered s' = entered s" "flagPAREN s' = flagPAREN s"
        by (rule equ_step_infix [OF Cons(3) o n l Some]) auto
      have "equ_loop F s = equ_loop F s'" using ne s'(1) by (simp add: equ_loop.simps [of F s])
      then show ?thesis using Cons(1) [of s'] s' Cons(4,6) o n Some by (simp split: option.splits)
    qed
  qed
  then show "reduce F (ops s) (nums s) = None \<Longrightarrow> equ_loop F s = None"
    and "reduce F (ops s) (nums s) = Some r \<Longrightarrow> \<exists>s'. equ_loop F s = Some s' \<and> infix_ok s' \<and> ops s' = [] \<and>
      nums s' = r # drop (Suc (length (ops s))) (nums s) \<and> dnum s' = r \<and> entered s' = entered s \<and> flagPAREN s' = flagPAREN s"
    by (simp_all split: option.splits)
qed

lemma rpar_step_infix:
  assumes "infix_ok s" "nums s = b # a # ns" "arith F op a b = Some r"
  obtains s' where "rpar_step F op s = Some s'" "infix_ok s'" "ops s' = ops s" "nums s' = r # ns" "dnum s' = r"
    "entered s' = entered s" "flagPAREN s' = flagPAREN s"
proof -
  define s1 where "s1 = (snd (PopNum F s))\<lparr>dnum := b\<rparr>"
  define s2 where "s2 = snd (PopNum F s1)"
  note p1 = PopNum_infix [OF assms(1,2), of F]
  have 1: "infix_ok s1" "nums s1 = a # ns" "ops s1 = ops s" "dnum s1 = b" "entered s1 = entered s" "flagPAREN s1 = flagPAREN s"
    using p1 by (simp_all add: s1_def)
  note p2 = PopNum_infix [OF 1(1,2), of F]
  have 2: "infix_ok s2" "nums s2 = ns" "ops s2 = ops s" "dnum s2 = b" "entered s2 = entered s" "flagPAREN s2 = flagPAREN s"
    using p2 1 by (simp_all add: s2_def)
  have room: "numsp (s2\<lparr>acc_reg := r, dnum := r\<rparr>) < 32"
    using infix_okD(3) [OF 2(1)] infix_okD(3) [OF assms(1)] assms(1,2) 2(2)
    by (auto simp: infix_ok_def calc_ok_def STACKMAX_def)
  have e: "rpar_step F op s = Some (PushNum r (s2\<lparr>acc_reg := r, dnum := r\<rparr>))"
    using p1(1) p2(1) 2(4) assms(3)
    by (simp add: rpar_step_def Let_def split_beta s1_def [symmetric] s2_def [symmetric])
  have ok: "infix_ok (s2\<lparr>acc_reg := r, dnum := r\<rparr>)" using 2(1) by simp
  show thesis
    by (rule that [OF e]) (use PushNum_infix [OF ok room, of r] 2 in simp_all)
qed

lemma rpar_loop_infix:
  assumes "infix_ok s" "ops s = seg @ kLPAR # os" "kLPAR \<notin> set seg" "nums s = ms @ ns" "length ms = Suc (length seg)"
    "dnum s = hd (nums s)" "reduce F seg ms = Some r"
  shows "\<exists>s'. rpar_loop F s = Some s' \<and> infix_ok s' \<and> ops s' = os \<and> nums s' = r # ns \<and> dnum s' = r \<and>
    flagPAREN s' = flagPAREN s"
  using assms
proof (induction seg arbitrary: s ms)
  case Nil
  then obtain x where x: "ms = [x]" by (cases ms) auto
  have "\<not> isopempty s" using Nil(2) nums_empty(2) [OF Nil(1)] by (auto simp: isopempty_def)
  then show ?case using PopOp_infix [OF Nil(1), of kLPAR os] Nil x
    by (simp add: rpar_loop.simps [of F s] split_beta Let_def)
next
  case (Cons op seg)
  then obtain b a ms' where m: "ms = b # a # ms'" by (cases ms; cases "tl ms") auto
  obtain q where q: "arith F op a b = Some q" using Cons(8) m by (auto split: option.splits)
  have ne: "\<not> isopempty s" using Cons(3) nums_empty(2) [OF Cons(2)] by (auto simp: isopempty_def)
  define s2 where "s2 = (snd (PopOp s))\<lparr>lastop := op\<rparr>"
  have 2: "fst (PopOp s) = op" "infix_ok s2" "ops s2 = seg @ kLPAR # os" "nums s2 = b # a # ms' @ ns" "flagPAREN s2 = flagPAREN s"
    using PopOp_infix [OF Cons(2), of op "seg @ kLPAR # os"] Cons(3,5) m by (simp_all add: s2_def)
  obtain s3 where s3: "rpar_step F op s2 = Some s3" "infix_ok s3" "ops s3 = ops s2" "nums s3 = q # ms' @ ns" "dnum s3 = q"
    "flagPAREN s3 = flagPAREN s2"
    by (rule rpar_step_infix [OF 2(2,4) q]) auto
  have "rpar_loop F s = rpar_loop F s3"
    using ne Cons(4) 2(1) s3(1) by (auto simp: rpar_loop.simps [of F s] split_beta Let_def s2_def)
  then show ?case using Cons(1) [OF s3(2), of "q # ms'"] s3 2 Cons(4,6,8) m q by simp
qed

subsection \<open>An operator key refines a step on the lists\<close>

text \<open>
  \<open>shift\<close> is what an operator key does to the two stacks when \<open>x\<close> is the number shown: it
  carries out the operator on top when that binds at least as strongly, and only that one.
\<close>

definition shift :: "'d fops \<Rightarrow> key \<Rightarrow> 'd \<Rightarrow> key list \<times> 'd list \<Rightarrow> (key list \<times> 'd list) option" where
  "shift F k x st =
     (case st of
        ([], ns) \<Rightarrow> Some ([k], x # ns)
      | (op # os, ns) \<Rightarrow>
          if op = kLPAR \<or> priority op < priority k then Some (k # op # os, x # ns)
          else case ns of
            [] \<Rightarrow> None
          | a # ns \<Rightarrow> (case arith F op a x of None \<Rightarrow> None | Some r \<Rightarrow> Some (k # os, r # ns)))"

lemma nums_same: "numsp t = numsp s \<Longrightarrow> numstack t = numstack s \<Longrightarrow> nums t = nums s"
  and ops_same: "opsp t = opsp s \<Longrightarrow> opstack t = opstack s \<Longrightarrow> ops t = ops s"
  by (simp_all add: nums_def ops_def)

lemma nums_DrawDisplay [simp]: "nums (DrawDisplay s) = nums s" "ops (DrawDisplay s) = ops s"
  "infix_ok s \<Longrightarrow> infix_ok (DrawDisplay s)"
  by (simp_all add: nums_def ops_def infix_ok_def calc_keep)

lemma parse_double_fields [simp]:
  "nums (parse_double F s) = nums s" "ops (parse_double F s) = ops s" "entered (parse_double F s) = entered s"
  "rpn (parse_double F s) = rpn s" "flagPAREN (parse_double F s) = flagPAREN s" "numsp (parse_double F s) = numsp s"
  "opsp (parse_double F s) = opsp s" "numstack (parse_double F s) = numstack s"
  by (simp_all add: parse_double_def nums_def ops_def split: option.split)

lemma read_display_fields [simp]:
  "nums (read_display F s) = nums s" "ops (read_display F s) = ops s" "entered (read_display F s) = entered s"
  "rpn (read_display F s) = rpn s" "flagPAREN (read_display F s) = flagPAREN s" "numsp (read_display F s) = numsp s"
  "opsp (read_display F s) = opsp s" "numstack (read_display F s) = numstack s"
  "infix_ok s \<Longrightarrow> infix_ok (read_display F s)"
  by (simp_all add: read_display_def infix_ok_def calc_keep)

lemma format_double_fields [simp]:
  "nums (format_double F x s) = nums s" "ops (format_double F x s) = ops s" "entered (format_double F x s) = entered s"
  "dnum (format_double F x s) = dnum s" "flagPAREN (format_double F x s) = flagPAREN s" "numsp (format_double F x s) = numsp s"
  "opsp (format_double F x s) = opsp s" "numstack (format_double F x s) = numstack s" "rpn (format_double F x s) = rpn s"
  "flagINV (format_double F x s) = flagINV s" "infix_ok s \<Longrightarrow> infix_ok (format_double F x s)"
  by (simp_all add: format_double_def nums_def ops_def infix_ok_def calc_keep)

lemma flagINV_stacks [simp]:
  "flagINV (stack_error s) = flagINV s" "flagINV (PushNum x s) = flagINV s" "flagINV (PushOp k s) = flagINV s"
  "flagINV (snd (PopNum F s)) = flagINV s" "flagINV (snd (PopOp s)) = flagINV s"
  by (simp_all add: stack_error_def PushNum_def PushOp_def PopNum_def PopOp_def)

text \<open>The number an operator or \<^verbatim>\<open>=\<close> finds in the display.\<close>

definition operand :: "'d fops \<Rightarrow> 'd calc \<Rightarrow> 'd" where
  "operand F s = dnum (read_display F s)"

definition ready :: "'d calc \<Rightarrow> bool" where
  "ready s \<longleftrightarrow> infix_ok s \<and> entered s \<in> {1, 2} \<and> flagINV s = 0"

lemma operand_flags:
  "dispstr t = dispstr s \<Longrightarrow> entered t = entered s \<Longrightarrow> numbase t = numbase s \<Longrightarrow> dnum t = dnum s \<Longrightarrow> operand F t = operand F s"
  by (simp add: operand_def read_display_def parse_double_def disp_def split: option.split)

lemma twoop_infix:
  assumes "ready s" "opsp s < 32" "numsp s < 32" "length (ops s) \<le> length (nums s)"
  shows "map_option (\<lambda>s'. (ops s', nums s')) (twoop F k s) = shift F k (operand F s) (ops s, nums s)"
    and "\<And>s'. twoop F k s = Some s' \<Longrightarrow> infix_ok s' \<and> entered s' = 0 \<and> flagINV s' = 0"
proof -
  have s: "infix_ok s" "clear_inv s = s" "entered s \<noteq> 0" using assms(1) by (auto simp: ready_def clear_inv_def)
  define s1 where "s1 = (read_display F s)\<lparr>clrdisp := 1, CLR := 1, entered := 0, Dpoint := 0, exponent := 0\<rparr>"
  have 1: "infix_ok s1" "nums s1 = nums s" "ops s1 = ops s" "dnum s1 = operand F s" "entered s1 = 0" "flagINV s1 = 0"
    "numsp s1 = numsp s" "opsp s1 = opsp s"
    using assms(1) s(1) parse_keep(2) [of s F]
    by (simp_all add: s1_def operand_def infix_ok_def calc_keep)
      (simp add: ready_def read_display_def parse_double_def split: option.split)
  have main: "map_option (\<lambda>s'. (ops s', nums s')) (twoop F k s) = shift F k (operand F s) (ops s, nums s) \<and>
    (\<forall>s'. twoop F k s = Some s' \<longrightarrow> infix_ok s' \<and> entered s' = 0 \<and> flagINV s' = 0)"
  proof (cases "ops s")
    case Nil
    then have e: "isopempty s1" using nums_empty(2) [OF 1(1)] 1(3) by (simp add: isopempty_def)
    have t: "twoop F k s = Some (PushNum (dnum s1) (PushOp k s1))"
      unfolding twoop_def Let_def s(2) s1_def [symmetric] using s(3) e by simp
    note p = PushOp_infix [OF 1(1), of k]
    have "numsp (PushOp k s1) < 32" using p 1 assms(2,3) by simp
    then show ?thesis using t p PushNum_infix [of "PushOp k s1" "dnum s1"] 1 assms(2) Nil
      by (simp add: shift_def)
  next
    case (Cons op os)
    have e: "\<not> isopempty s1" using Cons nums_empty(2) [OF 1(1)] 1(3) by (auto simp: isopempty_def)
    define s2 where "s2 = (snd (PopOp s1))\<lparr>lastop := op\<rparr>"
    have o1: "ops s1 = op # os" using Cons 1(3) by simp
    note q = PopOp_infix [OF 1(1) o1]
    have "Suc (length os) < 32" using Cons 1(1,3,8) infix_okD(4) [OF 1(1)] assms(2) by simp
    then have "opsp (snd (PopOp s1)) < 31" using infix_okD(4) [OF q(4)] q(2) by simp
    moreover have "numsp (snd (PopOp s1)) = numsp s" using infix_okD(3) [OF 1(1)] infix_okD(3) [OF q(4)] q(3) 1(7) by simp
    ultimately
    have 2: "infix_ok s2" "nums s2 = nums s" "ops s2 = os" "dnum s2 = operand F s" "entered s2 = 0" "flagINV s2 = 0"
      "numsp s2 = numsp s" "opsp s2 < 31" "fst (PopOp s1) = op"
      using q 1 by (simp_all add: s2_def)
    note u = twoop_def [of F k s, unfolded Let_def s(2) s1_def [symmetric] split_beta]
    show ?thesis
    proof (cases "op = kLPAR \<or> priority op < priority k")
      case True
      have a: "op = kLPAR \<Longrightarrow> twoop F k s = Some (PushNum (dnum s2) (PushOp k (PushOp op s2)))"
        using u s(3) e 2(9) by (simp add: s2_def)
      have b: "op \<noteq> kLPAR \<Longrightarrow> twoop F k s = Some (PushOp k (PushOp op (PushNum (dnum s2) s2)))"
        using u s(3) e 2(4,9) True by (simp add: s2_def [symmetric] 2)
      note p = PushOp_infix [OF 2(1), of op]
      have p1: "infix_ok (PushOp op s2)" "opsp (PushOp op s2) < 32" "numsp (PushOp op s2) = numsp s"
        using p 2(7,8) infix_okD(4) [OF 2(1)] infix_okD(4) [OF p(3)] by simp_all
      note p2 = PushOp_infix [OF p1(1,2), of k]
      have p3: "numsp (PushOp k (PushOp op s2)) < 32" using p2(6) p1(3) assms(3) by simp
      note n = PushNum_infix [OF 2(1), of "operand F s"]
      have n1: "opsp (PushNum (operand F s) s2) < 32" using 2(8) by simp
      note n2 = PushOp_infix [of "PushNum (operand F s) s2" op]
      have n3: "opsp (PushOp op (PushNum (operand F s) s2)) < 32"
        using n(3) n1 n2 n(2) infix_okD(4) [of "PushOp op (PushNum (operand F s) s2)"] infix_okD(4) [OF 2(1)] 2(7,8) assms(3) by simp
      show ?thesis
      proof (cases "op = kLPAR")
        case True
        then show ?thesis using a p p1 p2 PushNum_infix [OF p2(3) p3, of "operand F s"] 2 Cons by (simp add: shift_def)
      next
        case no: False
        then show ?thesis using True b n n1 n2 PushOp_infix [OF _ n3, of k] 2 Cons assms(3) by (simp add: shift_def)
      qed
    next
      case False
      obtain a ns where ns: "nums s = a # ns" using assms(4) Cons by (cases "nums s") auto
      define s3 where "s3 = snd (PopNum F s2)"
      have n2: "nums s2 = a # ns" using 2(2) ns by simp
      note r = PopNum_infix [OF 2(1) n2, of F]
      have 3: "infix_ok s3" "nums s3 = ns" "ops s3 = os" "dnum s3 = operand F s" "entered s3 = 0" "flagINV s3 = 0" "opsp s3 < 31"
        "numsp s3 < 32" "fst (PopNum F s2) = a"
        using r 2 infix_okD(3) [OF r(4)] infix_okD(3) [OF assms(1)[unfolded ready_def, THEN conjunct1]] ns assms(3) by (simp_all add: s3_def)
      have t: "twoop F k s = (case arith F op a (operand F s) of None \<Rightarrow> None
          | Some r \<Rightarrow> Some ((DrawDisplay (format_double F r (PushOp k (PushNum r (s3\<lparr>acc_reg := r\<rparr>)))))\<lparr>dnum := r\<rparr>))"
        using u s(3) e 2(9) 3(4,9) False by (simp add: s2_def [symmetric] s3_def [symmetric] cong: option.case_cong)
      show ?thesis
      proof (cases "arith F op a (operand F s)")
        case None
        then show ?thesis using t False Cons ns by (simp add: shift_def)
      next
        case (Some r)
        note m = PushNum_infix [of "s3\<lparr>acc_reg := r\<rparr>" r]
        have o: "opsp (PushNum r (s3\<lparr>acc_reg := r\<rparr>)) < 32" using 3(7) by simp
        show ?thesis using t Some False Cons ns 3 m PushOp_infix [OF _ o, of k] by (simp add: shift_def)
      qed
    qed
  qed
  then show "map_option (\<lambda>s'. (ops s', nums s')) (twoop F k s) = shift F k (operand F s) (ops s, nums s)"
    and "\<And>s'. twoop F k s = Some s' \<Longrightarrow> infix_ok s' \<and> entered s' = 0 \<and> flagINV s' = 0"
    by simp_all
qed

subsection \<open>The equals key and the right parenthesis\<close>

lemma loaded_infix:
  fixes s :: "'d calc" and F :: "'d fops" and c r :: int
  assumes "infix_ok s" "numsp s < 32"
  defines "s1 \<equiv> (read_display F (s\<lparr>flagINV := 0, clrdisp := c, CLR := r, Dpoint := 0, exponent := 0\<rparr>))\<lparr>entered := 2\<rparr>"
  shows "infix_ok (PushNum (dnum s1) s1)" "nums (PushNum (dnum s1) s1) = operand F s # nums s" "ops (PushNum (dnum s1) s1) = ops s"
    "dnum (PushNum (dnum s1) s1) = operand F s" "entered (PushNum (dnum s1) s1) = 2"
    "flagPAREN (PushNum (dnum s1) s1) = flagPAREN s"
proof -
  have "operand F (s\<lparr>flagINV := 0, clrdisp := c, CLR := r, Dpoint := 0, exponent := 0\<rparr>) = operand F s"
    by (rule operand_flags) simp_all
  then have d: "dnum s1 = operand F s" by (simp add: s1_def operand_def)
  have "calc_ok s1" using assms(1) unfolding s1_def infix_ok_def by (intro calc_keep) (simp_all add: calc_keep)
  then have 1: "infix_ok s1" "numsp s1 < 32" "nums s1 = nums s" "ops s1 = ops s" "entered s1 = 2" "flagPAREN s1 = flagPAREN s"
    using assms(1,2) by (simp_all add: s1_def infix_ok_def)
  show "infix_ok (PushNum (dnum s1) s1)" "nums (PushNum (dnum s1) s1) = operand F s # nums s" "ops (PushNum (dnum s1) s1) = ops s"
    "dnum (PushNum (dnum s1) s1) = operand F s" "entered (PushNum (dnum s1) s1) = 2"
    "flagPAREN (PushNum (dnum s1) s1) = flagPAREN s"
    using PushNum_infix [OF 1(1,2), of "dnum s1"] 1 d by simp_all
qed

lemma equf_infix:
  assumes "ready s" "numsp s < 32" "kLPAR \<notin> set (ops s)" "length (ops s) \<le> length (nums s)"
  shows "reduce F (ops s) (operand F s # nums s) = None \<Longrightarrow> equf F s = None"
    and "reduce F (ops s) (operand F s # nums s) = Some r \<Longrightarrow> \<exists>s'. equf F s = Some s' \<and> infix_ok s' \<and> ops s' = [] \<and>
      nums s' = r # drop (length (ops s)) (nums s) \<and> dnum s' = r \<and> entered s' = 2"
proof -
  have s: "infix_ok s" "entered s \<noteq> 0" using assms(1) by (auto simp: ready_def)
  define s1 where "s1 = (read_display F (s\<lparr>flagINV := 0, clrdisp := 1, CLR := 1, Dpoint := 0, exponent := 0\<rparr>))\<lparr>entered := 2\<rparr>"
  define p where "p = PushNum (dnum s1) s1"
  note l = loaded_infix [OF s(1) assms(2), where F = F and c = 1 and r = 1, folded s1_def, folded p_def]
  have e: "equf F s = (case equ_loop F p of None \<Rightarrow> None | Some s \<Rightarrow> Some (DrawDisplay (format_double F (dnum s) s)))"
    using s(2) by (simp add: equf_def Let_def p_def s1_def)
  have pre: "kLPAR \<notin> set (ops p)" "dnum p = hd (nums p)" "length (ops p) < length (nums p)" using l assms(3,4) by simp_all
  note q = equ_loop_infix [OF l(1) pre, of F]
  show "reduce F (ops s) (operand F s # nums s) = None \<Longrightarrow> equf F s = None"
    using q(1) l by (simp add: e)
  show "reduce F (ops s) (operand F s # nums s) = Some r \<Longrightarrow> \<exists>s'. equf F s = Some s' \<and> infix_ok s' \<and> ops s' = [] \<and>
      nums s' = r # drop (length (ops s)) (nums s) \<and> dnum s' = r \<and> entered s' = 2"
    using q(2) [of r] l by (auto simp: e)
qed

lemma rparf_infix:
  assumes "ready s" "numsp s < 32" "flagPAREN s \<noteq> 0" "ops s = seg @ kLPAR # os" "kLPAR \<notin> set seg" "nums s = ms @ ns"
    "length ms = length seg" "reduce F seg (operand F s # ms) = Some r"
  shows "\<exists>s'. rparf F s = Some s' \<and> infix_ok s' \<and> ops s' = os \<and> nums s' = ns \<and> dnum s' = r \<and> entered s' = 2 \<and>
    flagPAREN s' = flagPAREN s - 1"
proof -
  have s: "infix_ok s" "entered s \<noteq> 0" using assms(1) by (auto simp: ready_def)
  define s1 where "s1 = (read_display F (s\<lparr>flagINV := 0, clrdisp := clrdisp s + 1, CLR := CLR s, Dpoint := 0, exponent := 0\<rparr>))\<lparr>entered := 2\<rparr>"
  define p where "p = PushNum (dnum s1) s1"
  note l = loaded_infix [OF s(1) assms(2), where F = F and c = "clrdisp s + 1" and r = "CLR s", folded s1_def, folded p_def]
  have pre: "ops p = seg @ kLPAR # os" "nums p = (operand F s # ms) @ ns" "dnum p = hd (nums p)" using l assms(4,6) by simp_all
  obtain t where t: "rpar_loop F p = Some t" "infix_ok t" "ops t = os" "nums t = r # ns" "dnum t = r" "flagPAREN t = flagPAREN p"
    using rpar_loop_infix [OF l(1) pre(1) assms(5) pre(2) _ pre(3) assms(8)] assms(7) by auto
  have "s\<lparr>flagINV := 0, clrdisp := clrdisp s + 1, CLR := CLR s, Dpoint := 0, exponent := 0\<rparr> =
      s\<lparr>flagINV := 0, clrdisp := clrdisp s + 1, Dpoint := 0, exponent := 0\<rparr>" by simp
  then have "rparf F s = (case rpar_loop F p of None \<Rightarrow> None | Some s \<Rightarrow>
      let s = snd (PopNum F s); s = s\<lparr>flagPAREN := flagPAREN s - 1, entered := 2\<rparr> in
      Some (DrawDisplay (format_double F (dnum s) s)))"
    using s(2) assms(3) by (simp add: rparf_def Let_def p_def s1_def cong: option.case_cong)
  moreover have "infix_ok ((snd (PopNum F t))\<lparr>flagPAREN := flagPAREN t - 1, entered := 2\<rparr>)"
    using PopNum_infix [OF t(2,4), of F] by (simp add: infix_ok_def calc_keep)
  ultimately show ?thesis using t PopNum_infix [OF t(2,4), of F] l(6) by (simp add: Let_def)
qed

subsection \<open>A calculation in infix mode\<close>

text \<open>
  \<open>typed F s0 a xs s\<close>: beginning in \<open>s0\<close>, which shows \<open>a\<close>, the user pressed the operators of
  \<open>xs\<close>, each followed by its operand, however that came into the display; \<open>s\<close> is the state
  before the next operator or \<^verbatim>\<open>=\<close>.
\<close>

definition entry :: "'d fops \<Rightarrow> 'd \<Rightarrow> 'd calc \<Rightarrow> 'd calc \<Rightarrow> bool" where
  "entry F x s s' \<longleftrightarrow> ready s' \<and> operand F s' = x \<and> ops s' = ops s \<and> nums s' = nums s"

inductive typed :: "'d fops \<Rightarrow> 'd calc \<Rightarrow> 'd \<Rightarrow> (key \<times> 'd) list \<Rightarrow> 'd calc \<Rightarrow> bool" for F s0 a where
  first: "ready s0 \<Longrightarrow> operand F s0 = a \<Longrightarrow> ops s0 = [] \<Longrightarrow> typed F s0 a [] s0"
| more: "typed F s0 a xs s \<Longrightarrow> k \<in> set two_keys \<Longrightarrow> twoop F k s = Some s1 \<Longrightarrow> entry F x s1 s2 \<Longrightarrow>
    typed F s0 a (xs @ [(k, x)]) s2"

text \<open>The number shown and the stacks, on lists.\<close>

fun shifts :: "'d fops \<Rightarrow> (key \<times> 'd) list \<Rightarrow> 'd \<times> key list \<times> 'd list \<Rightarrow> ('d \<times> key list \<times> 'd list) option" where
  "shifts F [] st = Some st"
| "shifts F ((k, y) # xs) (x, st) = (case shift F k x st of None \<Rightarrow> None | Some st' \<Rightarrow> shifts F xs (y, st'))"

lemma shifts_append:
  "shifts F (xs @ ys) st = (case shifts F xs st of None \<Rightarrow> None | Some st' \<Rightarrow> shifts F ys st')"
  by (induction F xs st rule: shifts.induct) (simp_all split: option.split)

lemma shift_size:
  "shift F k x (os, ns) = Some (os', ns') \<Longrightarrow> k \<noteq> kLPAR \<Longrightarrow>
    length os' \<le> Suc (length os) \<and> length ns' \<le> Suc (length ns) \<and> length ns' + length os = length ns + length os' \<and>
    (kLPAR \<in> set os' \<longrightarrow> kLPAR \<in> set os)"
  by (auto simp: shift_def split: list.splits option.splits if_splits)

lemma two_keys_not_LPAR: "k \<in> set two_keys \<Longrightarrow> k \<noteq> kLPAR"
  by (auto simp: two_keys_def)

lemma typed_stacks:
  assumes "typed F s0 a xs s" "numsp s0 + length xs < 32"
  shows "shifts F xs (a, [], nums s0) = Some (operand F s, ops s, nums s) \<and> ready s \<and> kLPAR \<notin> set (ops s) \<and>
    length (ops s) \<le> length xs \<and> length (nums s) = numsp s0 + length (ops s)"
  using assms
proof (induction rule: typed.induct)
  case first
  then show ?case using infix_okD(3) [of s0] by (simp add: ready_def)
next
  case (more xs s k s1 x s2)
  then have s: "shifts F xs (a, [], nums s0) = Some (operand F s, ops s, nums s)" "ready s" "kLPAR \<notin> set (ops s)"
    "length (ops s) \<le> length xs" "length (nums s) = numsp s0 + length (ops s)" by simp_all
  have sp: "opsp s < 32" "numsp s < 32"
    using s infix_okD(3,4) [of s] more(6) by (simp_all add: ready_def)
  have "map_option (\<lambda>s'. (ops s', nums s')) (twoop F k s) = shift F k (operand F s) (ops s, nums s)"
    by (rule twoop_infix(1) [OF s(2) sp]) (use s(5) in simp)
  then have sh: "shift F k (operand F s) (ops s, nums s) = Some (ops s2, nums s2)"
    using more(3,4) by (simp add: entry_def)
  then show ?case using more(4) s shift_size [OF sh two_keys_not_LPAR [OF more(2)]]
    by (auto simp: shifts_append entry_def)
qed

text \<open>What \<^verbatim>\<open>=\<close> computes from the keys, on lists.\<close>

definition infix_value :: "'d fops \<Rightarrow> 'd \<Rightarrow> (key \<times> 'd) list \<Rightarrow> 'd option" where
  "infix_value F a xs = (case shifts F xs (a, [], []) of None \<Rightarrow> None | Some (x, os, ns) \<Rightarrow> reduce F os (x # ns))"

lemma shift_below:
  "length os \<le> length ns \<Longrightarrow> shift F k x (os, ns @ g) = map_option (\<lambda>(os', ns'). (os', ns' @ g)) (shift F k x (os, ns))"
  by (cases os; cases ns) (auto simp: shift_def split: option.split)

lemma shifts_below:
  assumes "length os \<le> length ns" "\<forall>(k, y) \<in> set xs. k \<noteq> kLPAR"
  shows "shifts F xs (x, os, ns @ g) = map_option (\<lambda>(x', os', ns'). (x', os', ns' @ g)) (shifts F xs (x, os, ns))"
  using assms
proof (induction xs arbitrary: x os ns)
  case (Cons p xs)
  obtain k y where p: "p = (k, y)" by (cases p)
  show ?case
  proof (cases "shift F k x (os, ns)")
    case None
    then show ?thesis using Cons(2) by (simp add: p shift_below)
  next
    case (Some st)
    obtain os' ns' where st: "st = (os', ns')" by (cases st)
    have "k \<noteq> kLPAR" using Cons(3) p by simp
    then have "length os' \<le> length ns'" using shift_size [of F k x os ns os' ns'] Some st Cons(2) by simp
    then show ?thesis using Cons Some st by (simp add: p shift_below)
  qed
qed simp

lemma reduce_below: "length os \<le> length ns \<Longrightarrow> reduce F os (x # ns @ g) = reduce F os (x # ns)"
proof (induction os arbitrary: x ns)
  case (Cons op os)
  then show ?case by (cases ns) (auto split: option.split)
qed simp

lemma typed_keys: "typed F s0 a xs s \<Longrightarrow> \<forall>(k, y) \<in> set xs. k \<noteq> kLPAR"
  by (induction rule: typed.induct) (auto simp: two_keys_def)

lemma typed_equf:
  assumes "typed F s0 a xs s" "numsp s0 + length xs < 32"
  shows "map_option dnum (equf F s) = infix_value F a xs"
    and "equf F s = Some s' \<Longrightarrow> infix_ok s' \<and> entered s' = 2 \<and> ops s' = [] \<and> nums s' = dnum s' # nums s0"
proof -
  note t = typed_stacks [OF assms]
  obtain x os ns where st: "shifts F xs (a, [], []) = Some (x, os, ns)" "operand F s = x" "ops s = os" "nums s = ns @ nums s0"
    using t shifts_below [of "[]" "[]" xs F a "nums s0"] typed_keys [OF assms(1)]
    by (cases "shifts F xs (a, [], [])") auto
  have "infix_ok s0" using assms(1) by (induction rule: typed.induct) (simp_all add: ready_def)
  then have l: "length os = length ns" using t st infix_okD(3) [of s0] by simp
  have sp: "numsp s < 32" "kLPAR \<notin> set (ops s)" "length (ops s) \<le> length (nums s)"
    using t infix_okD(3) [of s] assms(2) by (simp_all add: ready_def)
  note e = equf_infix [OF _ sp, of F]
  have v: "reduce F (ops s) (operand F s # nums s) = infix_value F a xs"
    using st l by (simp add: infix_value_def reduce_below)
  show "map_option dnum (equf F s) = infix_value F a xs"
    using t e v by (cases "infix_value F a xs") auto
  show "equf F s = Some s' \<Longrightarrow> infix_ok s' \<and> entered s' = 2 \<and> ops s' = [] \<and> nums s' = dnum s' # nums s0"
    using t e v st l by (cases "infix_value F a xs") auto
qed

text \<open>Operators that never bind stronger than the one before are carried out from left to right.\<close>

fun chain :: "'d fops \<Rightarrow> 'd \<Rightarrow> (key \<times> 'd) list \<Rightarrow> 'd option" where
  "chain F a [] = Some a"
| "chain F a ((op, x) # xs) = (case arith F op a x of None \<Rightarrow> None | Some r \<Rightarrow> chain F r xs)"

fun falling :: "key list \<Rightarrow> bool" where
  "falling (k # k' # ks) \<longleftrightarrow> priority k' \<le> priority k \<and> falling (k' # ks)"
| "falling _ \<longleftrightarrow> True"

lemma shifts_falling:
  assumes "falling (k # map fst xs)" "k \<noteq> kLPAR" "\<forall>(k, y) \<in> set xs. k \<noteq> kLPAR"
  shows "(case shifts F xs (x, [k], [a]) of None \<Rightarrow> None | Some (x', os, ns) \<Rightarrow> reduce F os (x' # ns)) = chain F a ((k, x) # xs)"
  using assms
proof (induction xs arbitrary: k x a)
  case (Cons p xs)
  obtain k' y where p: "p = (k', y)" by (cases p)
  have "shift F k' x ([k], [a]) = (case arith F k a x of None \<Rightarrow> None | Some r \<Rightarrow> Some ([k'], [r]))"
    using Cons(2,3) p by (simp add: shift_def split: option.split)
  then show ?case using Cons(1) [of k' y] Cons(2-4) p by (simp split: option.split)
qed (simp split: option.split)

lemma infix_value_falling:
  assumes "falling (map fst xs)" "\<forall>(k, y) \<in> set xs. k \<noteq> kLPAR"
  shows "infix_value F a xs = chain F a xs"
proof (cases xs)
  case (Cons p ys)
  obtain k x where p: "p = (k, x)" by (cases p)
  show ?thesis using shifts_falling [of k ys F x a] assms Cons p by (simp add: infix_value_def shift_def)
qed (simp add: infix_value_def)

subsection \<open>Calculations exist\<close>

text \<open>Digit keys bring an operand into the display without touching the stacks.\<close>

lemma digit_is_entry:
  assumes "infix_ok s" "digit_of (numbase s) k \<noteq> []" "clrdisp s \<noteq> 0 \<or> length (disp s) < MAXDISP"
  shows "entry F (operand F (numeric F k s)) s (numeric F k s)"
proof -
  let ?b = "begin_number (s\<lparr>flagINV := 0\<rparr>)"
  have n: "numeric F k s = append_digit k ?b" using assms(1) by (simp add: numeric_def infix_ok_def)
  have b: "numbase ?b = numbase s" "rpn ?b = rpn s" "flagINV ?b = 0" "nums ?b = nums s" "ops ?b = ops s"
    using assms(1) by (simp_all add: begin_number_def Let_def poke_def infix_ok_def)
  have "length (dispstr s) = 32" using assms(1) by (simp add: infix_ok_def calc_ok_def buf_ok_def LCD_STR_LEN_def)
  then have "length (disp ?b) < MAXDISP"
    using assms(1,3) disp_poke_nul [of 0 "s\<lparr>flagINV := 0\<rparr>"]
    by (auto simp: begin_number_def Let_def infix_ok_def) (simp_all add: disp_def poke_def MAXDISP_def)
  then have a: "append_digit k ?b = (let t = DrawDisplay (strcat (digit_of (numbase s) k) ?b) in
      t\<lparr>clrdisp := (if clrdisp t \<noteq> 0 \<and> k \<noteq> kZERO then 0 else clrdisp t), memop := k, entered := 1, lift_enabled := False\<rparr>)"
    using assms(2) b(1) by (simp add: append_digit_def Let_def)
  have st: "nums (strcat w ?b) = nums s" "ops (strcat w ?b) = ops s" "flagINV (strcat w ?b) = 0" "rpn (strcat w ?b) = rpn s" for w
    using b by (simp_all add: strcat_def)
  have "calc_ok (numeric F k s)" using assms(1) by (simp add: infix_ok_def numeric_keep)
  moreover have "rpn (numeric F k s) = rpn s" "entered (numeric F k s) = 1" "flagINV (numeric F k s) = 0"
    "nums (numeric F k s) = nums s" "ops (numeric F k s) = ops s"
    unfolding n a by (simp_all add: Let_def st) (simp_all add: nums_def ops_def st [unfolded nums_def ops_def])
  ultimately show ?thesis using assms(1) by (simp add: entry_def ready_def infix_ok_def)
qed

lemma typed_exists:
  assumes "ready s0" "operand F s0 = a" "ops s0 = []" "numsp s0 + length xs < 32"
    "shifts F xs (a, [], nums s0) \<noteq> None" "set (map fst xs) \<subseteq> set two_keys"
  shows "\<exists>s. typed F s0 a xs s"
  using assms(4-6)
proof (induction xs rule: rev_induct)
  case Nil
  then show ?case using assms by (blast intro: typed.first)
next
  case (snoc p xs)
  obtain k x where p: "p = (k, x)" by (cases p)
  have "shifts F xs (a, [], nums s0) \<noteq> None" using snoc(3) by (auto simp: shifts_append split: option.splits)
  then obtain s where s: "typed F s0 a xs s" using snoc by auto
  have le: "numsp s0 + length xs < 32" using snoc(2) by simp
  note t = typed_stacks [OF s le]
  have sp: "opsp s < 32" "numsp s < 32" "length (ops s) \<le> length (nums s)"
    using t infix_okD(3,4) [of s] snoc(2) by (simp_all add: ready_def)
  have "shift F k (operand F s) (ops s, nums s) \<noteq> None" using snoc(3) t by (auto simp: shifts_append p split: option.splits)
  then obtain s1 where s1: "twoop F k s = Some s1" using twoop_infix(1) [OF _ sp, of F k] t by (cases "twoop F k s") auto
  then have i: "infix_ok s1" "flagINV s1 = 0" using twoop_infix(2) [OF _ sp s1] t by simp_all
  then have "entry F x s1 (s1\<lparr>dnum := x, entered := 2\<rparr>)"
    by (simp add: entry_def ready_def infix_ok_def calc_keep) (simp add: operand_def read_display_def)
  moreover have "k \<in> set two_keys" using snoc(4) p by simp
  ultimately show ?case using typed.more [OF s _ s1] p by blast
qed

end
