(* ===== verification/Calc_Num.thy ===== *)
theory Calc_Num
  imports Calc_Eval
begin

section \<open>isde-calc: numbers in octal and hexadecimal, factorials, and what can end the process\<close>

text \<open>
  Printing in base 8 or 16 is undone by reading, up to the twelve characters that
  \<^verbatim>\<open>DrawDisplay\<close> keeps; the factorial loop is exact as long as products of doubles are; a
  remainder is the only operation that can end the process.
\<close>

subsection \<open>Digits\<close>

lemma digit_val_upper: "0 \<le> d \<Longrightarrow> d < 16 \<Longrightarrow> digit_val (upper_digit d) = Some d"
proof -
  assume "0 \<le> d" "d < 16"
  moreover have "list_all (\<lambda>d. digit_val (upper_digit d) = Some d) [0..15]" by code_simp
  ultimately show ?thesis by (auto simp: list_all_iff)
qed

lemma upper_digit_plain: "0 \<le> d \<Longrightarrow> d < 16 \<Longrightarrow> upper_digit d \<notin> {CHR 0x00, CHR ''e'', CHR '' '', CHR ''-'', CHR ''+'', CHR ''x'', CHR ''X''}"
proof -
  assume "0 \<le> d" "d < 16"
  moreover have "list_all (\<lambda>d. upper_digit d \<notin> {CHR 0x00, CHR ''e'', CHR '' '', CHR ''-'', CHR ''+'', CHR ''x'', CHR ''X''}) [0..15]" by code_simp
  ultimately show ?thesis by (auto simp: list_all_iff)
qed

lemma digits_of_set: "1 < b \<Longrightarrow> 0 \<le> n \<Longrightarrow> set (digits_of b n) \<subseteq> upper_digit ` {0..<b}"
proof (induction b n rule: digits_of.induct)
  case (1 b n)
  show ?case
  proof (cases "n < b")
    case True
    then show ?thesis using 1(3) by (subst digits_of.simps) auto
  next
    case False
    then show ?thesis using 1 by (subst digits_of.simps) (auto simp: pos_imp_zdiv_nonneg_iff)
  qed
qed

lemma scan_digits_snoc:
  "\<forall>c \<in> set xs. \<exists>d. digit_val c = Some d \<and> d < b \<Longrightarrow> digit_val c = Some e \<Longrightarrow> e < b \<Longrightarrow>
    scan_digits b a (xs @ [c]) = scan_digits b a xs * b + e"
  by (induction xs arbitrary: a) auto

lemma digits_of_digits:
  assumes "b \<in> {8, 16}" "0 \<le> n" "c \<in> set (digits_of b n)"
  shows "\<exists>d. digit_val c = Some d \<and> d < b" "c \<notin> {CHR 0x00, CHR ''e'', CHR '' '', CHR ''-'', CHR ''+'', CHR ''x'', CHR ''X''}"
proof -
  have "c \<in> upper_digit ` {0..<b}" using assms digits_of_set [of b n] by auto
  then obtain d where "c = upper_digit d" "0 \<le> d" "d < b" "d < 16" using assms(1) by auto
  then show "\<exists>d. digit_val c = Some d \<and> d < b" "c \<notin> {CHR 0x00, CHR ''e'', CHR '' '', CHR ''-'', CHR ''+'', CHR ''x'', CHR ''X''}"
    using digit_val_upper [of d] upper_digit_plain [of d] by auto
qed

text \<open>The first \<open>m\<close> digits of a number are its quotient by a power of the base.\<close>

lemma scan_digits_take:
  assumes "b \<in> {8, 16}" "0 \<le> n" "0 < m"
  shows "scan_digits b 0 (take m (digits_of b n)) = n div b ^ (length (digits_of b n) - m)"
  using assms
proof (induction b n rule: digits_of.induct)
  case (1 b n)
  show ?case
  proof (cases "n < b")
    case True
    then have "digits_of b n = [upper_digit n]" by (subst digits_of.simps) simp
    then show ?thesis using 1(2-4) True digit_val_upper [of n] by auto
  next
    case False
    let ?ds = "digits_of b (n div b)" and ?c = "upper_digit (n mod b)"
    have b: "\<not> (b < 2 \<or> n < b)" "0 < b" "b \<le> 16" using 1(2) False by auto
    have d: "digits_of b n = ?ds @ [?c]" using b by (subst digits_of.simps) simp
    have q: "0 \<le> n div b" using 1(3) b by (simp add: pos_imp_zdiv_nonneg_iff)
    show ?thesis
    proof (cases "m \<le> length ?ds")
      case True
      then show ?thesis using 1(1) [OF b(1) 1(2) q 1(4)] b
        by (simp add: d Suc_diff_le div_mult2_eq zdiv_zmult2_eq [symmetric] flip: zdiv_zmult2_eq) 
    next
      case False
      then have "length ?ds < m" by simp
      moreover have "scan_digits b 0 ?ds = n div b"
        using 1(1) [OF b(1) 1(2) q 1(4)] False by simp
      moreover have "digit_val ?c = Some (n mod b)" using digit_val_upper [of "n mod b"] b pos_mod_bound [OF b(2), of n] pos_mod_sign [OF b(2), of n] by simp
      ultimately show ?thesis using scan_digits_snoc [of ?ds b ?c "n mod b" 0] digits_of_digits(1) [OF 1(2) q] b
        by (simp add: d)
    qed
  qed
qed

lemma scan_ulong_plain:
  assumes "\<forall>c \<in> set cs. c \<notin> {CHR '' '', CHR ''-'', CHR ''+'', CHR ''x'', CHR ''X''}"
  shows "scan_ulong b cs = (if scan_digits b 0 cs \<ge> 2 ^ 64 then - 1 else word_of_int (scan_digits b 0 cs))"
proof -
  have d: "dropWhile (\<lambda>c. c = CHR '' '') cs = cs" using assms by (cases cs) auto
  have h: "cs \<noteq> [] \<Longrightarrow> hd cs \<noteq> CHR ''-'' \<and> hd cs \<noteq> CHR ''+''" using assms by (cases cs) auto
  have x: "take 2 cs \<notin> {''0x'', ''0X''}"
    using assms by (cases cs; cases "tl cs") auto
  show ?thesis using h x unfolding scan_ulong_def Let_def d by auto
qed

subsection \<open>Round trip through the display\<close>

lemma digits_of_length:
  assumes "b \<in> {8, 16}" "0 \<le> n" "n < b ^ Suc m" shows "length (digits_of b n) \<le> Suc m"
  using assms
proof (induction m arbitrary: n)
  case 0
  then show ?case by (subst digits_of.simps) auto
next
  case (Suc m)
  show ?case
  proof (cases "n < b")
    case False
    have "n div b < b ^ Suc m" using Suc(2-4) by (auto intro!: div_less_iff_less_mult [THEN iffD2] simp: mult.commute)
    moreover have "0 \<le> n div b" using Suc(2,3) by auto
    ultimately show ?thesis using False Suc(1) [OF Suc(2)] by (subst digits_of.simps) simp
  qed (subst digits_of.simps, simp)
qed

lemma format_based:
  fixes F :: "'d fops" and x :: 'd
  assumes "numbase s \<in> {8, 16}" "calc_ok s"
  defines "n \<equiv> uint (f_to_long F x)"
  shows "disp (DrawDisplay (format_double F x s)) = take 12 (digits_of (numbase s) n)"
proof -
  let ?ds = "digits_of (numbase s) n"
  have n: "0 \<le> n" "n < 2 ^ 64" using uint_lt2p [of "f_to_long F x"] by (simp_all add: n_def)
  have p: "CHR 0x00 \<notin> set ?ds" "CHR ''e'' \<notin> set ?ds" using digits_of_digits(2) [OF assms(1) n(1)] by blast+
  have "n < numbase s ^ Suc 21" using n(2) assms(1) by auto
  then have "length ?ds \<le> 22" using digits_of_length [OF assms(1) n(1), of 21] by simp
  then have f: "snprintf LCD_STR_LEN ?ds = ?ds" by (simp add: snprintf_fits LCD_STR_LEN_def)
  have "disp (format_double F x s) = ?ds"
    using assms(1) p(1) f by (auto simp: format_double_def n_def disp_strlcpy)
  then show ?thesis using p(2) assms(2) disp_DrawDisplay [of "format_double F x s"]
    by (auto simp: calc_keep shown_def MAXDISP_def)
qed

lemma format_double_numbase [simp]: "numbase (format_double F x s) = numbase s"
  by (simp add: format_double_def)

lemma based_round_trip:
  fixes F :: "'d fops" and x :: 'd
  assumes "numbase s \<in> {8, 16}" "calc_ok s"
  defines "n \<equiv> uint (f_to_long F x)"
  shows "dnum (parse_double F (DrawDisplay (format_double F x s))) =
    f_of_ulong F (word_of_int (n div numbase s ^ (length (digits_of (numbase s) n) - 12)))"
proof -
  let ?ds = "digits_of (numbase s) n"
  have n: "0 \<le> n" "n < 2 ^ 64" using uint_lt2p [of "f_to_long F x"] by (simp_all add: n_def)
  have c: "\<forall>c \<in> set (take 12 ?ds). c \<notin> {CHR '' '', CHR ''-'', CHR ''+'', CHR ''x'', CHR ''X''}"
    using digits_of_digits(2) [OF assms(1) n(1)] by (auto dest!: in_set_takeD)
  have v: "scan_digits (numbase s) 0 (take 12 ?ds) = n div numbase s ^ (length ?ds - 12)"
    by (rule scan_digits_take [OF assms(1) n(1)]) simp
  have "n div numbase s ^ (length ?ds - 12) \<le> n"
    using zdiv_mono2 [of n 1 "numbase s ^ (length ?ds - 12)"] n(1) assms(1) by auto
  then have "scan_ulong (numbase s) (take 12 ?ds) = word_of_int (n div numbase s ^ (length ?ds - 12))"
    using scan_ulong_plain [OF c] v n(2) by simp
  then show ?thesis
    using format_based [OF assms(1,2), of F x] assms(1) by (auto simp: parse_double_def n_def)
qed

subsection \<open>Factorials\<close>

text \<open>
  Doubles hold the integers up to \<^verbatim>\<open>2^53\<close> exactly (IEEE 754); \<open>exact_ints\<close> says so of the
  operations the factorial uses.
\<close>

definition exact_ints :: "'d fops \<Rightarrow> bool" where
  "exact_ints F \<longleftrightarrow>
     (\<forall>x y. 0 \<le> x \<and> x \<le> 2 ^ 53 \<and> 0 \<le> y \<and> y \<le> 2 ^ 53 \<longrightarrow>
        (f_eq F (f_of_int F x) (f_of_int F y) \<longleftrightarrow> x = y) \<and> (f_lt F (f_of_int F x) (f_of_int F y) \<longleftrightarrow> x < y) \<and>
        (x * y \<le> 2 ^ 53 \<longrightarrow> f_mul F (f_of_int F x) (f_of_int F y) = f_of_int F (x * y))) \<and>
     (\<forall>x. 0 \<le> x \<and> x \<le> 2 ^ 53 \<longrightarrow> f_fun F ''floor'' (f_of_int F x) = f_of_int F x \<and> f_to_long F (f_of_int F x) = word_of_int x)"

lemma fact_18: "n \<le> 18 \<Longrightarrow> (fact n :: int) \<le> 2 ^ 53"
proof -
  assume "n \<le> 18"
  then have "(fact n :: int) \<le> fact 18" by (rule fact_mono)
  also have "(fact 18 :: int) \<le> 2 ^ 53" by (simp add: fact_numeral)
  finally show ?thesis .
qed

lemma fact_loop_exact:
  assumes "exact_ints F" "j + k \<le> 18"
  shows "fact_loop F (Suc j) k (f_of_int F (fact j)) = f_of_int F (fact (j + k))"
  using assms(2)
proof (induction k arbitrary: j)
  case (Suc k)
  have f: "(fact (Suc j) :: int) \<le> 2 ^ 53" "(fact j :: int) \<le> 2 ^ 53" using fact_18 [of "Suc j"] fact_18 [of j] Suc(2) by (simp_all del: fact_Suc)
  have m: "(fact j :: int) * int (Suc j) = fact (Suc j)" by (simp add: mult.commute)
  have "f_mul F (f_of_int F (fact j)) (f_of_int F (int (Suc j))) = f_of_int F (fact j * int (Suc j))"
    using assms(1) f m Suc(2) unfolding exact_ints_def by (simp del: fact_Suc of_nat_Suc)
  then show ?case using Suc(1) [of "Suc j"] Suc(2) m by (simp del: fact_Suc of_nat_Suc)
qed simp

lemma factorial_exact:
  assumes "exact_ints F" "dnum s = f_of_int F (int n)" "n \<le> 18"
  shows "factorial F s = s\<lparr>dnum := f_of_int F (fact n)\<rparr>"
proof -
  have e: "f_fun F ''floor'' (dnum s) = dnum s" "f_eq F (dnum s) (dnum s)" "\<not> f_lt F (dnum s) (f_of_int F 0)"
    "\<not> f_lt F (f_of_int F 500) (dnum s)" "f_to_long F (dnum s) = word_of_int (int n)"
    using assms unfolding exact_ints_def by simp_all
  have "unat (word_of_int (int n) :: 64 word) = n" using assms(3) by (simp add: unat_of_nat take_bit_nat_eq_self)
  then show ?thesis using e fact_loop_exact [OF assms(1), of 0 n] assms(3) by (simp add: factorial_def Let_def)
qed

subsection \<open>What can end the process\<close>

text \<open>
  The pending operators come from the keys pressed, and only a pending or requested remainder can
  end the process.
\<close>

definition ops_ok :: "'d calc \<Rightarrow> bool" where
  "ops_ok s \<longleftrightarrow> opsp s \<le> STACKMAX \<and> length (opstack s) = STACKMAX"

definition opk :: "'d calc \<Rightarrow> nat \<times> key list" where
  "opk s = (opsp s, opstack s)"

lemma opk_same: "opk t = opk s \<Longrightarrow> ops t = ops s \<and> ops_ok t = ops_ok s"
  by (simp add: opk_def ops_def ops_ok_def)

lemma opk_basic [simp]:
  "opk (strlcpy t s) = opk s" "opk (strcat t s) = opk s" "opk (poke i c s) = opk s" "opk (DrawDisplay s) = opk s"
  "opk (stack_error s) = opk s" "opk (PushNum x s) = opk s" "opk (snd (PopNum F s)) = opk s" "opk (RollNum b s) = opk s"
  "opk (parse_double F s) = opk s" "opk (read_display F s) = opk s" "opk (format_double F x s) = opk s"
  "opk (clear_inv s) = opk s" "opk (setflag i b s) = opk s" "opk (draw t s) = opk s"
  by (simp_all add: opk_def strlcpy_def strcat_def poke_def stack_error_def PushNum_def PopNum_def RollNum_def
      parse_double_def read_display_def format_double_def clear_inv_def setflag_def draw_def split: option.split)

lemma opk_fields [simp]:
  "opk (s\<lparr>dnum := x\<rparr>) = opk s" "opk (s\<lparr>lastop := k\<rparr>) = opk s" "opk (s\<lparr>acc_reg := x\<rparr>) = opk s" "opk (s\<lparr>entered := i\<rparr>) = opk s"
  "opk (s\<lparr>clrdisp := i\<rparr>) = opk s" "opk (s\<lparr>CLR := i\<rparr>) = opk s" "opk (s\<lparr>Dpoint := i\<rparr>) = opk s" "opk (s\<lparr>exponent := i\<rparr>) = opk s"
  "opk (s\<lparr>flagINV := i\<rparr>) = opk s" "opk (s\<lparr>flagPAREN := i\<rparr>) = opk s" "opk (s\<lparr>dispstr := b\<rparr>) = opk s" "opk (s\<lparr>lift_enabled := l\<rparr>) = opk s"
  "opk (s\<lparr>memop := k\<rparr>) = opk s" "opk (s\<lparr>mem := m\<rparr>) = opk s" "opk (s\<lparr>numbase := i\<rparr>) = opk s" "opk (s\<lparr>flagM := l\<rparr>) = opk s"
  "opk (s\<lparr>drgmode := g\<rparr>) = opk s" "opk (s\<lparr>drg2rad := x\<rparr>) = opk s" "opk (s\<lparr>rad2drg := x\<rparr>) = opk s"
  by (simp_all add: opk_def)

lemma opk_keys [simp]:
  "opk (numeric F k s) = opk s" "opk (bkspf F (s\<lparr>lift_enabled := False\<rparr>)) = opk (bkspf F s)" "opk (decf F s) = opk s" "opk (eef s) = opk s"
  "opk (negf F s) = opk s" "opk (entrf F s) = opk s" "opk (rollf F s) = opk s" "opk (drgf F s) = opk s" "opk (invf s) = opk s"
  "opk (memf F k s) = opk s" "opk (change_base F s) = opk s" "opk (snd (pre_op k s)) = opk s"
  by (simp_all add: numeric_def numeric_mem_def begin_number_def append_digit_def bkspf_def decf_def eef_def negf_def entrf_def rollf_def
      drgf_def invf_def memf_def change_base_def show_base_def pre_op_def start_entry_def Let_def split: drg.split)

lemma opk_oneop [simp]: "opk (oneop F k s) = opk s"
proof -
  have "opk (oneop_fun F k s) = opk s" for s
    by (cases k) (simp_all add: oneop_fun_def push_constant_def inv_fun_def toggle_inv_def set_mem0_def factorial_def Let_def)
  then show ?thesis by (simp add: oneop_def Let_def)
qed

text \<open>\<open>keeps k s s'\<close>: the key \<open>k\<close> adds at most itself to the pending operators.\<close>

definition keeps :: "key \<Rightarrow> 'd calc \<Rightarrow> 'd calc \<Rightarrow> bool" where
  "keeps k s s' \<longleftrightarrow> (ops_ok s \<longrightarrow> ops_ok s' \<and> set (ops s') \<subseteq> insert k (set (ops s)))"

lemma keeps_opk: "opk s' = opk s \<Longrightarrow> keeps k s s'"
  using opk_same [of s' s] by (auto simp: keeps_def)

lemma keeps_same: "opk t = opk u \<Longrightarrow> keeps k s t = keeps k s u"
  using opk_same [of t u] by (simp add: keeps_def)

lemma keeps_draw [simp]:
  "keeps k s (DrawDisplay t) = keeps k s t" "keeps k s (format_double F x t) = keeps k s t" "keeps k s (snd (PopNum F t)) = keeps k s t"
  "keeps k s (PushNum x t) = keeps k s t" "keeps k s (t\<lparr>entered := i\<rparr>) = keeps k s t" "keeps k s (t\<lparr>flagPAREN := i\<rparr>) = keeps k s t"
  by (rule keeps_same; simp)+

lemma kept_trans_calc: "keeps k s t \<Longrightarrow> keeps k t u \<Longrightarrow> keeps k s u"
  by (auto simp: keeps_def)

lemma PushOp_ops: "ops_ok s \<Longrightarrow> ops_ok (PushOp k s) \<and> set (ops (PushOp k s)) \<subseteq> insert k (set (ops s))"
proof (cases "opsp s = STACKMAX")
  case False
  assume "ops_ok s"
  with False show ?thesis using take_push [of "opsp s" "opstack s" k] by (auto simp: PushOp_def ops_ok_def ops_def)
next
  case True
  assume "ops_ok s"
  with True show ?thesis using opk_same [of "stack_error s" s] by (auto simp: PushOp_def)
qed

lemma keeps_PushOp: "keeps k s (PushOp k s)"
  using PushOp_ops [of s k] by (simp add: keeps_def)

lemma PopOp_ops:
  assumes "ops_ok s" "\<not> isopempty s"
  shows "ops s = fst (PopOp s) # ops (snd (PopOp s))" "ops_ok (snd (PopOp s))"
  using assms take_pop [of "opsp s" "opstack s"] by (auto simp: PopOp_def ops_def ops_ok_def isopempty_def)

lemma keeps_PopOp: "\<not> isopempty s \<Longrightarrow> keeps k s (snd (PopOp s))"
  using PopOp_ops [of s] by (auto simp: keeps_def)

lemma keeps_ClearStacks: "keeps k s (ClearStacks F s)"
  by (auto simp: keeps_def ops_ok_def ClearStacks_def ops_def)

lemma arith_None: "arith F op a b = None \<Longrightarrow> op = kMOD"
  by (cases op) (simp_all add: arith_def Let_def)

text \<open>\<open>mod_only k s r\<close>: the result \<open>r\<close> of a routine keeps the operators, or a remainder was pending.\<close>

definition mod_only :: "key \<Rightarrow> 'd calc \<Rightarrow> 'd calc option \<Rightarrow> bool" where
  "mod_only k s r \<longleftrightarrow> (case r of Some s' \<Rightarrow> keeps k s s' | None \<Rightarrow> ops_ok s \<longrightarrow> kMOD \<in> insert k (set (ops s)))"

lemma mod_only_Some [simp]: "mod_only k s (Some s') = keeps k s s'"
  by (simp add: mod_only_def)

lemma mod_only_trans: "keeps k s t \<Longrightarrow> mod_only k t r \<Longrightarrow> mod_only k s r"
  by (auto simp: mod_only_def keeps_def split: option.splits)

lemma mod_only_None: "ops_ok s \<Longrightarrow> \<not> isopempty s \<Longrightarrow> arith F (fst (PopOp s)) a b = None \<Longrightarrow> mod_only k s None"
  using PopOp_ops(1) [of s] arith_None [of F "fst (PopOp s)" a b] by (auto simp: mod_only_def)

lemma keeps_not_ok: "\<not> ops_ok s \<Longrightarrow> mod_only k s r"
  by (simp add: mod_only_def keeps_def split: option.split)

lemma equ_step_ops:
  assumes "\<not> isopempty s" shows "mod_only k s (equ_step F s)"
proof (cases "ops_ok s")
  case True
  define t where "t = snd (PopNum F ((snd (PopNum F s))\<lparr>dnum := fst (PopNum F s)\<rparr>))"
  have o: "opk t = opk s" by (simp add: t_def)
  then have t: "\<not> isopempty t" "ops_ok t" "keeps k s t" using assms True opk_same [OF o] by (auto simp: isopempty_def opk_def keeps_opk)
  show ?thesis
  proof (cases "equ_step F s")
    case None
    then obtain a b where "arith F (fst (PopOp t)) a b = None"
      by (auto simp: equ_step_def Let_def split_beta t_def split: option.splits)
    then show ?thesis using mod_only_trans [OF t(3) mod_only_None [OF t(2,1)]] None by simp
  next
    case (Some s')
    then have "opk s' = opk (snd (PopOp t))"
      by (auto simp: equ_step_def Let_def split_beta t_def split: option.splits)
    then have "keeps k (snd (PopOp t)) s'" by (rule keeps_opk)
    then show ?thesis using Some kept_trans_calc [OF kept_trans_calc [OF t(3) keeps_PopOp [OF t(1)]]] by simp
  qed
qed (rule keeps_not_ok)

lemma equ_loop_ops: "mod_only k s (equ_loop F s)"
proof (induction F s rule: equ_loop.induct)
  case (1 F s)
  show ?case
  proof (cases "isopempty s")
    case False
    show ?thesis
    proof (cases "equ_step F s")
      case None
      then show ?thesis using False equ_step_ops [OF False, of k F] by (subst equ_loop.simps) simp
    next
      case (Some s')
      then show ?thesis using False mod_only_trans [OF _ 1(1) [OF False Some]] equ_step_ops [OF False, of k F]
        by (subst equ_loop.simps) simp
    qed
  qed (subst equ_loop.simps, simp add: keeps_opk)
qed

lemma rpar_loop_ops: "mod_only k s (rpar_loop F s)"
proof (induction F s rule: rpar_loop.induct)
  case (1 F s)
  show ?case
  proof (cases "isopempty s \<or> \<not> ops_ok s")
    case True
    then show ?thesis by (auto intro: keeps_not_ok) (subst rpar_loop.simps, simp add: keeps_opk)
  next
    case False
    obtain op s1 where p: "PopOp s = (op, s1)" by (cases "PopOp s")
    let ?s2 = "s1\<lparr>lastop := op\<rparr>"
    have k2: "keeps k s ?s2" using keeps_PopOp [of s k] False p keeps_opk [of ?s2 s1 k] kept_trans_calc [of k s s1 ?s2] by simp
    have u: "rpar_loop F s = (if op = kLPAR then Some ?s2 else case rpar_step F op ?s2 of None \<Rightarrow> None | Some s3 \<Rightarrow> rpar_loop F s3)"
      using False p by (subst rpar_loop.simps) simp
    show ?thesis
    proof (cases "op = kLPAR")
      case no: False
      show ?thesis
      proof (cases "rpar_step F op ?s2")
        case None
        then obtain a b where "arith F op a b = None" by (auto simp: rpar_step_def Let_def split_beta split: option.splits)
        then show ?thesis using u no None mod_only_None [of s F a b k] False p by simp
      next
        case (Some s3)
        then have "opk s3 = opk ?s2" by (auto simp: rpar_step_def Let_def split_beta split: option.splits)
        then show ?thesis using u no Some mod_only_trans [OF kept_trans_calc [OF k2 keeps_opk] 1(1)] False p by simp
      qed
    qed (use u k2 in simp)
  qed
qed

text \<open>An operator key with operators pending: \<open>t\<close> is the state in which the topmost is popped.\<close>

lemma twoop_pending_ops:
  fixes F :: "'d fops" and k
  assumes ent: "entered (clear_inv s) \<noteq> 0" and ok: "ops_ok s"
  defines "t \<equiv> (read_display F (clear_inv s))\<lparr>clrdisp := 1, CLR := 1, entered := 0, Dpoint := 0, exponent := 0\<rparr>"
  assumes pend: "\<not> isopempty t"
  shows "mod_only k s (twoop F k s)"
proof -
  note u = twoop_def [of F k s, unfolded Let_def t_def [symmetric]]
  have tk: "ops_ok t" "ops t = ops s" using ok opk_same [of t s] by (simp_all add: t_def)
  define v where "v = (snd (PopOp t))\<lparr>lastop := fst (PopOp t)\<rparr>"
  have v: "ops_ok v" "ops s = fst (PopOp t) # ops v" using PopOp_ops [OF tk(1) pend] tk(2) opk_same [of v "snd (PopOp t)"] by (simp_all add: v_def)
  let ?op = "fst (PopOp t)"
  have res: "keeps k s w" if "opk w = opk (PushOp k y)" "ops_ok y" "set (ops y) \<subseteq> set (ops s)" for w y
    using PushOp_ops [of y k] opk_same [OF that(1)] that by (auto simp: keeps_def)
  have re: "ops_ok y" "set (ops y) \<subseteq> set (ops s)" if "opk y = opk (PushOp ?op z)" "opk z = opk v" for y z
    using PushOp_ops [of z ?op] opk_same [OF that(1)] opk_same [OF that(2)] v by auto
  consider "?op = kLPAR" | (higher) "?op \<noteq> kLPAR" "priority ?op < priority k" | (do) "?op \<noteq> kLPAR" "\<not> priority ?op < priority k" by blast
  then show ?thesis
  proof cases
    case 1
    then have "twoop F k s = Some (PushNum (dnum v) (PushOp k (PushOp ?op v)))" using u ent pend by (simp add: split_beta v_def)
    then show ?thesis using res [of "PushNum (dnum v) (PushOp k (PushOp ?op v))" "PushOp ?op v"] re [of "PushOp ?op v" v] by simp
  next
    case higher
    then have "twoop F k s = Some (PushOp k (PushOp ?op (PushNum (dnum v) v)))" using u ent pend by (simp add: split_beta v_def)
    then show ?thesis using res [of "PushOp k (PushOp ?op (PushNum (dnum v) v))" "PushOp ?op (PushNum (dnum v) v)"]
        re [of "PushOp ?op (PushNum (dnum v) v)" "PushNum (dnum v) v"] by simp
  next
    case do
    define a w where "a = fst (PopNum F v)" and "w = snd (PopNum F v)"
    have e: "twoop F k s = (case arith F ?op a (dnum w) of None \<Rightarrow> None | Some r \<Rightarrow>
        Some ((DrawDisplay (format_double F r (PushOp k (PushNum r (w\<lparr>acc_reg := r\<rparr>)))))\<lparr>dnum := r\<rparr>))"
      using u ent pend do by (simp add: split_beta v_def a_def w_def cong: option.case_cong)
    have "opk (PushNum r (w\<lparr>acc_reg := r\<rparr>)) = opk v" for r by (simp add: w_def)
    then have "ops_ok (PushNum r (w\<lparr>acc_reg := r\<rparr>)) \<and> set (ops (PushNum r (w\<lparr>acc_reg := r\<rparr>))) \<subseteq> set (ops s)" for r
      using opk_same [of "PushNum r (w\<lparr>acc_reg := r\<rparr>)" v] v by auto
    then have "keeps k s ((DrawDisplay (format_double F r (PushOp k (PushNum r (w\<lparr>acc_reg := r\<rparr>)))))\<lparr>dnum := r\<rparr>)" for r
      using res [of _ "PushNum r (w\<lparr>acc_reg := r\<rparr>)"] by simp
    then show ?thesis using e arith_None [of F ?op a "dnum w"] v(2) by (cases "arith F ?op a (dnum w)") (auto simp: mod_only_def)
  qed
qed

lemma twoop_ops: "mod_only k s (twoop F k s)"
proof -
  define t where "t = (read_display F (clear_inv s))\<lparr>clrdisp := 1, CLR := 1, entered := 0, Dpoint := 0, exponent := 0\<rparr>"
  have c: "keeps k s (clear_inv s)" "keeps k s t" by (rule keeps_opk; simp add: t_def)+
  consider "\<not> ops_ok s" | "entered (clear_inv s) = 0" | "entered (clear_inv s) \<noteq> 0" "isopempty t"
    | "ops_ok s" "entered (clear_inv s) \<noteq> 0" "\<not> isopempty t" by blast
  then show ?thesis
  proof cases
    case 2
    then show ?thesis using kept_trans_calc [OF kept_trans_calc [OF c(1) keeps_PopOp] keeps_PushOp] kept_trans_calc [OF c(1) keeps_PushOp]
      by (simp add: twoop_def Let_def)
  next
    case 3
    have "keeps k s (PushOp k t)" by (rule kept_trans_calc [OF c(2) keeps_PushOp])
    then show ?thesis using 3 twoop_def [of F k s, unfolded Let_def t_def [symmetric]]
by simp
  next
    case 4
    then show ?thesis using twoop_pending_ops [of s F k] by (simp add: t_def)
  qed (rule keeps_not_ok)
qed

lemma equf_ops: "mod_only k s (equf F s)"
proof -
  define t where "t = (read_display F (s\<lparr>flagINV := 0, clrdisp := 1, CLR := 1, Dpoint := 0, exponent := 0\<rparr>))\<lparr>entered := 2\<rparr>"
  have "keeps k s (PushNum (dnum t) t)" by (rule keeps_opk) (simp add: t_def)
  then have m: "mod_only k s (equ_loop F (PushNum (dnum t) t))" using equ_loop_ops by (rule mod_only_trans)
  have "equf F s = (if entered s = 0 then Some (s\<lparr>flagINV := 0\<rparr>)
      else map_option (\<lambda>s. DrawDisplay (format_double F (dnum s) s)) (equ_loop F (PushNum (dnum t) t)))"
    by (simp add: equf_def Let_def t_def split: option.split)
  then show ?thesis using m keeps_opk [of "s\<lparr>flagINV := 0\<rparr>" s k]
    by (cases "equ_loop F (PushNum (dnum t) t)") (auto simp: mod_only_def)
qed

lemma rparf_ops: "mod_only k s (rparf F s)"
proof -
  define t where "t = (read_display F (s\<lparr>flagINV := 0, clrdisp := clrdisp s + 1, Dpoint := 0, exponent := 0\<rparr>))\<lparr>entered := 2\<rparr>"
  have "keeps k s (PushNum (dnum t) t)" by (rule keeps_opk) (simp add: t_def)
  then have m: "mod_only k s (rpar_loop F (PushNum (dnum t) t))" using rpar_loop_ops by (rule mod_only_trans)
  have "rparf F s = (if entered s = 0 \<or> flagPAREN s = 0 then Some (s\<lparr>flagINV := 0\<rparr>)
      else map_option (\<lambda>s. let s = snd (PopNum F s); s = s\<lparr>flagPAREN := flagPAREN s - 1, entered := 2\<rparr> in
        DrawDisplay (format_double F (dnum s) s)) (rpar_loop F (PushNum (dnum t) t)))"
    by (simp add: rparf_def Let_def t_def split: option.split)
  then show ?thesis using m keeps_opk [of "s\<lparr>flagINV := 0\<rparr>" s k]
    by (cases "rpar_loop F (PushNum (dnum t) t)") (auto simp: mod_only_def Let_def)
qed

lemma clear_ops: "keeps k s (clearf F s)" "keeps k s (offf F s)" "keeps kLPAR s (lparf s)"
proof -
  have "opk (clearf F s) = opk s \<or> opk (clearf F s) = (0, opstack s)"
    by (simp add: clearf_def Let_def) (simp add: opk_def ClearStacks_def)
  then show "keeps k s (clearf F s)" by (auto simp: keeps_opk) (auto simp: keeps_def ops_ok_def ops_def opk_def)
  have "opk (offf F s) = (0, opstack s)" by (simp add: offf_def ResetCalc_def ClearStacks_def Let_def) (simp add: opk_def setflag_def draw_def)
  then show "keeps k s (offf F s)" by (auto simp: keeps_def ops_ok_def ops_def opk_def)
  have "keeps kLPAR s (PushOp kLPAR (s\<lparr>flagINV := 0\<rparr>))"
    by (rule kept_trans_calc [OF keeps_opk keeps_PushOp]) simp
  then show "keeps kLPAR s (lparf s)" by (simp add: lparf_def Let_def)
qed

lemma bkspf_ops: "keeps k s (bkspf F s)"
proof (cases "flagINV s = 0 \<and> entered s \<noteq> 1")
  case True
  then have "bkspf F s = clearf F (s\<lparr>lift_enabled := False\<rparr>)" by (simp add: bkspf_def Let_def)
  then show ?thesis using kept_trans_calc [OF keeps_opk clear_ops(1), of "s\<lparr>lift_enabled := False\<rparr>" s k F] by simp
next
  case False
  then show ?thesis by (intro keeps_opk) (auto simp: bkspf_def Let_def)
qed

lemma do_key_ops: "mod_only k s (do_key F k s)"
proof -
  have f: "twof F k s = None \<Longrightarrow> k = kMOD" "\<And>s'. twof F k s = Some s' \<Longrightarrow> opk s' = opk s" if "k \<noteq> kXXY" for k
    using that arith_None [of F k] by (auto simp: twof_def Let_def split_beta split: option.splits if_splits)
  have two: "mod_only k s (twof F k s)" if "k \<noteq> kXXY" for k
    using f [OF that] keeps_opk by (cases "twof F k s") (auto simp: mod_only_def)
  have x: "mod_only kXXY s (twof F kXXY s)"
    by (simp add: twof_def arith_def Let_def split_beta keeps_opk)
  consider "k \<in> set two_keys" | "k \<in> set one_keys" "k \<notin> set two_keys" | "k \<in> set num_keys" "k \<notin> set two_keys \<union> set one_keys"
    | (other) "k \<notin> set two_keys \<union> set one_keys \<union> set num_keys" by blast
  then show ?thesis
  proof cases
    case 1
    then have "k \<noteq> kXXY" by (auto simp: two_keys_def)
    then show ?thesis using 1 two by (simp add: do_key_def twoop_ops)
  next
    case other
    then show ?thesis using x unfolding do_key_def
      by (cases k) (simp_all add: clear_ops bkspf_ops equf_ops rparf_ops keeps_opk)
  qed (simp_all add: do_key_def keeps_opk)
qed

lemma press_ops:
  "ops_ok s \<Longrightarrow> kMOD \<notin> set (ops s) \<Longrightarrow> kMOD \<notin> set ks \<Longrightarrow> press F ks s \<noteq> None"
proof (induction ks arbitrary: s)
  case (Cons k ks)
  have p: "keeps k s (snd (pre_op k s))" by (rule keeps_opk) simp
  have "mod_only k s (calc_do_op F k s)"
    using mod_only_trans [OF p do_key_ops] p by (simp add: calc_do_op_def with_pre_def)
  then show ?case using Cons by (auto simp: mod_only_def keeps_def split: option.splits)
qed simp

end
