(* ===== verification/Calc_Rpn.thy ===== *)
theory Calc_Rpn
  imports Calc_Eval
begin

section \<open>isde-calc: RPN mode\<close>

text \<open>
  In RPN mode the number shown and the first three places of the number stack are the registers
  X, Y, Z and T. An expression keyed in the usual way (left operand, ENTER, right operand,
  operator) is evaluated by these four registers when it needs no more than four.
\<close>

subsection \<open>Registers\<close>

definition rpn_ok :: "'d calc \<Rightarrow> bool" where
  "rpn_ok s \<longleftrightarrow> calc_ok s \<and> rpn s \<and> entered s \<in> {1, 2} \<and> flagINV s = 0"

definition regs :: "'d fops \<Rightarrow> 'd calc \<Rightarrow> 'd list" where
  "regs F s = operand F s # take 3 (numstack s)"

lemma take3_push:
  "3 \<le> length xs \<Longrightarrow> take 3 (xs[2 := xs ! 1, 1 := xs ! 0, 0 := x]) = x # take 2 xs"
  "3 \<le> length xs \<Longrightarrow> take 3 (xs[0 := xs ! 1, 1 := xs ! 2]) = [xs ! 1, xs ! 2, xs ! 2]"
  by (cases xs; cases "tl xs"; cases "tl (tl xs)"; simp add: numeral_3_eq_3 numeral_2_eq_2)+

lemma rpn_okD: "rpn_ok s \<Longrightarrow> 3 \<le> length (numstack s)" "rpn_ok s \<Longrightarrow> rpn s" "rpn_ok s \<Longrightarrow> calc_ok s" "rpn_ok s \<Longrightarrow> entered s \<noteq> 0"
  "rpn_ok s \<Longrightarrow> clear_inv s = s"
  by (auto simp: rpn_ok_def calc_ok_def STACKMAX_def clear_inv_def)

lemma operand_computed: "entered s = 2 \<Longrightarrow> operand F s = dnum s"
  by (simp add: operand_def read_display_def)

lemma entrf_rpn:
  assumes "rpn_ok s"
  shows "rpn_ok (entrf F s)" "\<not> lift_enabled (entrf F s)" "regs F (entrf F s) = operand F s # take 3 (regs F s)"
proof -
  define s1 where "s1 = (read_display F (s\<lparr>flagINV := 0, clrdisp := 1, CLR := 1, Dpoint := 0, exponent := 0\<rparr>))\<lparr>entered := 2, memop := kENTR\<rparr>"
  have e: "entrf F s = (PushNum (dnum s1) s1)\<lparr>lift_enabled := False\<rparr>"
    using rpn_okD(4) [OF assms] by (simp add: entrf_def Let_def s1_def)
  have "operand F (s\<lparr>flagINV := 0, clrdisp := 1, CLR := 1, Dpoint := 0, exponent := 0\<rparr>) = operand F s"
    by (rule operand_flags) simp_all
  then have 1: "dnum s1 = operand F s" "numstack s1 = numstack s" "rpn s1" "flagINV s1 = 0"
    using rpn_okD [OF assms] assms
    by (simp_all add: s1_def operand_def) (simp add: read_display_def parse_double_def split: option.split)
  have k: "calc_ok s1" unfolding s1_def using rpn_okD(3) [OF assms] by (simp add: calc_keep)
  then have "calc_ok (PushNum (dnum s1) s1)" by (rule calc_keep)
  moreover have "entered (PushNum (dnum s1) s1) = 2" using 1(3) by (simp add: PushNum_def) (simp add: s1_def)
  ultimately show "rpn_ok (entrf F s)" "\<not> lift_enabled (entrf F s)" using 1 by (simp_all add: e rpn_ok_def)
  then have "operand F (entrf F s) = operand F s"
    using 1 \<open>entered (PushNum (dnum s1) s1) = 2\<close> by (simp add: e operand_computed)
  moreover have "take 3 (numstack (entrf F s)) = operand F s # take 2 (numstack s)"
    using 1 take3_push(1) [OF rpn_okD(1) [OF assms]] by (simp add: e PushNum_def)
  ultimately show "regs F (entrf F s) = operand F s # take 3 (regs F s)"
    by (simp add: regs_def numeral_3_eq_3 numeral_2_eq_2 take_Suc min_def)
qed

text \<open>The common end of \<^verbatim>\<open>twof\<close>: the result is shown and is the new X.\<close>

definition twof_end :: "'d fops \<Rightarrow> 'd \<Rightarrow> 'd calc \<Rightarrow> 'd calc" where
  "twof_end F r s = (let s = DrawDisplay (format_double F r (s\<lparr>acc_reg := r\<rparr>)) in
     s\<lparr>clrdisp := clrdisp s + 1, Dpoint := 0, exponent := 0, entered := 2, lift_enabled := True, dnum := r\<rparr>)"

lemma twof_end_rpn:
  assumes "calc_ok s" "flagINV s = 0" "rpn s"
  shows "rpn_ok (twof_end F r s)" "lift_enabled (twof_end F r s)" "regs F (twof_end F r s) = r # take 3 (numstack s)"
proof -
  show "rpn_ok (twof_end F r s)" "lift_enabled (twof_end F r s)"
    using assms by (simp_all add: twof_end_def Let_def rpn_ok_def calc_keep)
  have "entered (twof_end F r s) = 2" "dnum (twof_end F r s) = r" "numstack (twof_end F r s) = numstack s"
    by (simp_all add: twof_end_def Let_def)
  then show "regs F (twof_end F r s) = r # take 3 (numstack s)" by (simp add: regs_def operand_computed)
qed

lemma popped_rpn:
  assumes "rpn_ok s"
  obtains s1 where "PopNum F (read_display F s) = (numstack s ! 0, s1)" "dnum s1 = operand F s" "calc_ok s1" "flagINV s1 = 0" "rpn s1"
    "numstack s1 = (numstack s)[0 := numstack s ! 1, 1 := numstack s ! 2]"
proof
  let ?s = "(read_display F s)\<lparr>numstack := (numstack s)[0 := numstack s ! 1, 1 := numstack s ! 2]\<rparr>"
  show "PopNum F (read_display F s) = (numstack s ! 0, ?s)" using rpn_okD [OF assms] by (simp add: PopNum_def)
  show "calc_ok ?s" using parse_keep(2) [OF rpn_okD(3) [OF assms], of F] by (simp add: calc_ok_def)
  show "flagINV ?s = 0" using assms by (simp add: rpn_ok_def read_display_def parse_double_def split: option.split)
qed (use rpn_okD [OF assms] in \<open>simp_all add: operand_def\<close>)

lemma twof_rpn:
  assumes "rpn_ok s" "k \<noteq> kXXY"
  shows "arith F k (numstack s ! 0) (operand F s) = None \<Longrightarrow> twof F k s = None"
    and "arith F k (numstack s ! 0) (operand F s) = Some r \<Longrightarrow> \<exists>s'. twof F k s = Some s' \<and> rpn_ok s' \<and> lift_enabled s' \<and>
      regs F s' = [r, numstack s ! 1, numstack s ! 2, numstack s ! 2]"
proof -
  obtain s1 where p: "PopNum F (read_display F s) = (numstack s ! 0, s1)" "dnum s1 = operand F s" "calc_ok s1" "flagINV s1 = 0" "rpn s1"
    "numstack s1 = (numstack s)[0 := numstack s ! 1, 1 := numstack s ! 2]"
    by (rule popped_rpn [OF assms(1)])
  have t: "twof F k s = map_option (\<lambda>r. twof_end F r s1) (arith F k (numstack s ! 0) (operand F s))"
    using assms rpn_okD [OF assms(1)] p(1,2) by (simp add: twof_def Let_def twof_end_def split: option.split)
  show "arith F k (numstack s ! 0) (operand F s) = None \<Longrightarrow> twof F k s = None" by (simp add: t)
  show "arith F k (numstack s ! 0) (operand F s) = Some r \<Longrightarrow> \<exists>s'. twof F k s = Some s' \<and> rpn_ok s' \<and> lift_enabled s' \<and>
      regs F s' = [r, numstack s ! 1, numstack s ! 2, numstack s ! 2]"
    using twof_end_rpn [OF p(3-5), of F r] p(6) take3_push(2) [OF rpn_okD(1) [OF assms(1)]] by (simp add: t)
qed

subsection \<open>Expressions\<close>

datatype 'd expr = Num 'd | Bin key "'d expr" "'d expr"

fun value_of :: "'d fops \<Rightarrow> 'd expr \<Rightarrow> 'd option" where
  "value_of F (Num x) = Some x"
| "value_of F (Bin k a b) = (case value_of F a of None \<Rightarrow> None | Some x \<Rightarrow>
     (case value_of F b of None \<Rightarrow> None | Some y \<Rightarrow> arith F k x y))"

fun registers :: "'d expr \<Rightarrow> nat" where
  "registers (Num x) = 1"
| "registers (Bin k a b) = max (registers a) (Suc (registers b))"

fun op_keys :: "'d expr \<Rightarrow> key list" where
  "op_keys (Num x) = []"
| "op_keys (Bin k a b) = k # op_keys a @ op_keys b"

inductive keyed :: "'d fops \<Rightarrow> 'd expr \<Rightarrow> 'd calc \<Rightarrow> 'd calc \<Rightarrow> bool" for F where
  num: "\<not> lift_enabled s \<Longrightarrow> rpn_ok s' \<Longrightarrow> regs F s' = x # tl (regs F s) \<Longrightarrow> keyed F (Num x) s s'"
| bin: "keyed F a s s1 \<Longrightarrow> keyed F b (entrf F s1) s2 \<Longrightarrow> k \<in> set two_keys \<Longrightarrow> twof F k s2 = Some s3 \<Longrightarrow>
    keyed F (Bin k a b) s s3"

lemma registers_pos: "0 < registers e"
  by (induction e) auto

lemma regs_shape: "rpn_ok s \<Longrightarrow> regs F s = [operand F s, numstack s ! 0, numstack s ! 1, numstack s ! 2]"
  using rpn_okD(1) [of s]
  by (cases "numstack s"; cases "tl (numstack s)"; cases "tl (tl (numstack s))")
    (auto simp: regs_def numeral_3_eq_3 numeral_2_eq_2)

lemma keyed_regs:
  assumes "keyed F e s s'" "rpn_ok s" "registers e \<le> 4"
  shows "rpn_ok s' \<and> value_of F e = Some (operand F s') \<and>
    (\<forall>i. 0 < i \<and> i \<le> 4 - registers e \<longrightarrow> regs F s' ! i = regs F s ! i)"
  using assms
proof (induction rule: keyed.induct)
  case (num s s' x)
  then show ?case by (cases "regs F s") (auto simp: regs_def nth_Cons split: nat.splits)
next
  case (bin a s s1 b s2 k s3)
  have 1: "rpn_ok s1" "value_of F a = Some (operand F s1)" "\<And>i. 0 < i \<Longrightarrow> i \<le> 4 - registers a \<Longrightarrow> regs F s1 ! i = regs F s ! i"
    using bin by auto
  note en = entrf_rpn [OF 1(1), of F]
  have 2: "rpn_ok s2" "value_of F b = Some (operand F s2)"
    "\<And>i. 0 < i \<Longrightarrow> i \<le> 4 - registers b \<Longrightarrow> regs F s2 ! i = regs F (entrf F s1) ! i"
    using bin en(1) by auto
  have rb: "registers b \<le> 3" using bin.prems(2) by simp
  note sh1 = regs_shape [OF 1(1), of F] and sh2 = regs_shape [OF 2(1), of F]
  have y: "numstack s2 ! 0 = operand F s1" using 2(3) [of 1] rb by (simp add: sh1 sh2 en(3))
  have k: "k \<noteq> kXXY" using bin.hyps by (auto simp: two_keys_def)
  note t = twof_rpn [OF 2(1) k, of F]
  obtain r where r: "arith F k (operand F s1) (operand F s2) = Some r" using t(1) bin.hyps y by (cases "arith F k (operand F s1) (operand F s2)") auto
  then have 3: "rpn_ok s3" "regs F s3 = [r, numstack s2 ! 1, numstack s2 ! 2, numstack s2 ! 2]" using t(2) [of r] bin.hyps y by auto
  have "regs F s3 ! i = regs F s ! i" if i: "0 < i" "i \<le> 4 - registers (Bin k a b)" for i
  proof -
    have c: "i = 1 \<or> i = 2" "i \<le> 4 - registers a" "Suc i \<le> 4 - registers b" using i rb registers_pos [of b] registers_pos [of a] by (auto simp: le_Suc_eq numeral_eq_Suc)
    have "regs F s3 ! i = regs F s2 ! Suc i" using c(1) by (auto simp: 3(2) sh2)
    also have "\<dots> = regs F (entrf F s1) ! Suc i" using 2(3) [of "Suc i"] c(3) by simp
    also have "\<dots> = regs F s1 ! i" using c(1) by (auto simp: en(3) sh1)
    finally show ?thesis using 1(3) [of i] c i by simp
  qed
  moreover have "operand F s3 = r" using 3 by (simp add: regs_def)
  ultimately show ?case using 1(2) 2(2) r 3(1) by simp
qed

text \<open>Every expression that has a value and needs at most four registers can be keyed.\<close>

lemma keyed_exists:
  assumes "value_of F e = Some v" "registers e \<le> 4" "rpn_ok s" "\<not> lift_enabled s" "set (op_keys e) \<subseteq> set two_keys"
  shows "\<exists>s'. keyed F e s s'"
  using assms
proof (induction e arbitrary: s v)
  case (Num x)
  let ?s = "s\<lparr>dnum := x, entered := 2\<rparr>"
  have "rpn_ok ?s" using Num by (simp add: rpn_ok_def calc_keep)
  moreover have "regs F ?s = x # tl (regs F s)" by (simp add: regs_def operand_computed)
  ultimately show ?case using Num by (blast intro: keyed.num)
next
  case (Bin k a b)
  obtain x y where v: "value_of F a = Some x" "value_of F b = Some y" "arith F k x y = Some v" using Bin(3) by (auto split: option.splits)
  obtain s1 where s1: "keyed F a s s1" using Bin(1) [OF v(1) _ Bin(5,6)] Bin(4,7) by auto
  note r1 = keyed_regs [OF s1 Bin(5)]
  have en: "rpn_ok (entrf F s1)" "\<not> lift_enabled (entrf F s1)" "regs F (entrf F s1) = operand F s1 # take 3 (regs F s1)"
    using r1 Bin(4) entrf_rpn [of s1 F] by simp_all
  obtain s2 where s2: "keyed F b (entrf F s1) s2" using Bin(2) [OF v(2) _ en(1,2)] Bin(4,7) by auto
  note r2 = keyed_regs [OF s2 en(1)]
  have rb: "registers b \<le> 3" using Bin(4) by simp
  have "regs F s2 ! 1 = regs F (entrf F s1) ! 1" using r2 rb by simp
  then have y: "numstack s2 ! 0 = operand F s1" using r1 r2 rb Bin(4) regs_shape [of s2 F] regs_shape [of s1 F] by (simp add: en(3))
  have "arith F k (numstack s2 ! 0) (operand F s2) = Some v" using y r1 r2 v rb Bin(4) by simp
  moreover have k: "k \<in> set two_keys" using Bin(7) by simp
  then have "k \<noteq> kXXY" by (auto simp: two_keys_def)
  ultimately obtain s3 where "twof F k s2 = Some s3" using twof_rpn(2) [of s2 k F v] r2 rb by auto
  then show ?case using keyed.bin [OF s1 s2 k] by blast
qed

subsection \<open>Rolling and exchanging registers\<close>

lemma RollNum_inverse:
  assumes "3 \<le> length (numstack s)"
  shows "dnum (RollNum (\<not> u) (RollNum u s)) = dnum s" "take 3 (numstack (RollNum (\<not> u) (RollNum u s))) = take 3 (numstack s)"
  using assms
  by (cases "numstack s"; cases "tl (numstack s)"; cases "tl (tl (numstack s))"; cases u;
      simp add: RollNum_def numeral_3_eq_3 numeral_2_eq_2)+

lemma exchange_rpn:
  assumes "rpn_ok s"
  shows "\<exists>s'. twof F kXXY s = Some s' \<and> rpn_ok s' \<and> regs F s' = [numstack s ! 0, operand F s, numstack s ! 1, numstack s ! 2]"
proof -
  obtain s1 where p: "PopNum F (read_display F s) = (numstack s ! 0, s1)" "dnum s1 = operand F s" "calc_ok s1" "flagINV s1 = 0" "rpn s1"
    "numstack s1 = (numstack s)[0 := numstack s ! 1, 1 := numstack s ! 2]"
    by (rule popped_rpn [OF assms])
  let ?t = "PushNum (operand F s) s1"
  have n: "take 3 (numstack ?t) = [operand F s, numstack s ! 1, numstack s ! 2]"
    using rpn_okD [OF assms] p(5,6)
    by (cases "numstack s"; cases "tl (numstack s)"; cases "tl (tl (numstack s))")
      (auto simp: PushNum_def numeral_3_eq_3 numeral_2_eq_2)
  have "twof F kXXY s = Some (twof_end F (numstack s ! 0) ?t)"
    using rpn_okD [OF assms] p(1,2) by (simp add: twof_def Let_def twof_end_def arith_def)
  moreover have "calc_ok ?t" "flagINV ?t = 0" "rpn ?t" using p by (simp_all add: calc_keep)
  ultimately show ?thesis using twof_end_rpn [of ?t F "numstack s ! 0"] n by simp
qed

end
