(* ===== verification/Calc_Props.thy ===== *)
theory Calc_Props
  imports Calc_Num Calc_Rpn
begin

section \<open>isde-calc: properties\<close>

text \<open>
  The properties of the calculator, each with an instance at a concrete arithmetic: integers in
  place of doubles, which satisfies every hypothesis made about floating point.
\<close>

subsection \<open>A concrete arithmetic\<close>

definition split_E :: "cstr \<Rightarrow> cstr \<times> cstr" where
  "split_E s = (takeWhile (\<lambda>c. c \<noteq> CHR ''E'') s, drop 2 (dropWhile (\<lambda>c. c \<noteq> CHR ''E'') s))"

definition demo_scan :: "cstr \<Rightarrow> int option" where
  "demo_scan s =
     (let neg = (s \<noteq> [] \<and> hd s = CHR ''-''); (m, x) = split_E (if neg then tl s else s);
          v = scan_digits 10 0 m * 10 ^ nat (scan_digits 10 0 x) in
      if m = [] \<or> digit_val (hd m) = None then None else Some (if neg then - v else v))"

definition demo_fops :: "int fops" where
  "demo_fops = \<lparr>f_add = (+), f_sub = (-), f_mul = (*), f_div = (div), f_pow = (\<lambda>a b. a ^ nat b),
     f_le = (\<le>), f_lt = (<), f_eq = (=), f_fun = (\<lambda>n x. x), f_of_int = (\<lambda>i. i), f_pi = 3, f_e = 2,
     f_to_long = word_of_int, f_of_long = sint, f_of_ulong = uint, f_shift = (\<lambda>l x n. 0),
     f_scan = demo_scan, f_print = dec_of_int, f_point = ''.''\<rparr>"

lemma demo_good_point: "good_point demo_fops"
  by (simp add: good_point_def demo_fops_def)

lemma demo_exact_ints: "exact_ints demo_fops"
  by (simp add: exact_ints_def demo_fops_def)

subsection \<open>Bounds\<close>

text \<open>
  C22. Typing digits, decimal points, exponents, changes of sign, backspaces and clears in any
  order, from the calculator as it starts and in either mode, never writes outside the 32-byte
  display buffer, and leaves at most twelve characters in the display; the decimal point of the
  locale is taken to have at most four bytes, none of them NUL or e.
\<close>

lemma typing_never_overflows:
  assumes "set ks \<subseteq> set entry_keys" "good_point F"
  shows "\<exists>s. press F ks (calc_init F mode) = Some s \<and> length (dispstr s) = 32 \<and> CHR 0x00 \<in> set (dispstr s) \<and> length (disp s) \<le> 12"
proof -
  have "kMOD \<notin> set ks" using assms(1) by (auto simp: entry_keys_def num_keys_def)
  moreover have "ops_ok (calc_init F mode)" "ops (calc_init F mode) = []"
    using calc_init_keep [of F mode] by (simp_all add: ops_ok_def calc_ok_def calc_init_fields ops_def)
  ultimately obtain s where s: "press F ks (calc_init F mode) = Some s" using press_ops [of "calc_init F mode" ks F] by auto
  then have e: "entry_inv s" using entry_press [OF calc_init_entry [of F mode] assms] by simp
  have "length (dispstr s) = 32" "length (disp s) \<le> 12" using entry_invD [OF e] by simp_all
  moreover have "dispstr s ! 31 = CHR 0x00" using entry_invD(1) [OF e] by (simp add: calc_ok_def buf_ok_def)
  ultimately show ?thesis using s nth_mem [of 31 "dispstr s"] by auto
qed

lemma typing_never_overflows_witness:
  "\<exists>s. press demo_fops [kFIVE, kNEG, kDEC, kEE, kNEG, kBKSP] (calc_init demo_fops False) = Some s \<and> length (dispstr s) = 32 \<and>
    CHR 0x00 \<in> set (dispstr s) \<and> length (disp s) \<le> 12"
  by (rule typing_never_overflows [OF _ demo_good_point]) code_simp

text \<open>
  C23. Every key keeps the invariant of the calculator: the display buffer is 32 bytes long and
  ends with a NUL, both stack pointers stay within their arrays of 32, the memory has ten cells,
  the place of the exponent's sign lies inside the buffer, and the base is 8, 10 or 16. The decimal
  point and EE need what they append to fit, as they do not test it.
\<close>

lemma every_key_keeps_invariant:
  assumes "calc_ok s" "fits F k (snd (pre_op k s))" "length (f_point F) \<le> 30"
  shows "pred_option calc_ok (calc_do_op F k s)"
  using do_key_keep [OF _ assms(2,3)] assms(1) by (simp add: calc_do_op_def with_pre_def pre_op_fields)

lemma every_key_keeps_invariant_witness: "pred_option calc_ok (calc_do_op demo_fops kDEC (calc_init demo_fops True))"
  by (rule every_key_keeps_invariant [OF calc_init_keep])
    (simp_all add: fits_def pre_op_fields calc_init_fields demo_fops_def)

text \<open>
  That need is real. After a negative number is refused by the base key the display holds
  \<^verbatim>\<open>error\<close>, digits are appended to it, and as it contains the letter e the display is no longer
  cut at twelve characters: the last of these keys writes one byte beyond the buffer.
\<close>

lemma base_error_overflows:
  "map_option (\<lambda>s. length (dispstr s))
     (press demo_fops [kFIVE, kNEG, kBASE, kONE, kTWO, kTHREE, kFOUR, kFIVE, kSIX, kDEC, kBKSP, kDEC] (calc_init demo_fops False)) = Some 33"
  by code_simp

subsection \<open>Infix mode\<close>

lemma init_stacks [simp]: "ops (calc_init F m) = []" "nums (calc_init F m) = []"
  by (simp_all add: ops_def nums_def calc_init_fields)

lemma init_infix: "infix_ok ((calc_init F False)\<lparr>dnum := x, entered := 2\<rparr>)"
  using calc_init_keep [of F False] by (simp add: infix_ok_def calc_keep calc_init_fields)

lemma init_ready:
  "ready ((calc_init F False)\<lparr>dnum := x, entered := 2\<rparr>)" "operand F ((calc_init F False)\<lparr>dnum := x, entered := 2\<rparr>) = x"
  "ops ((calc_init F False)\<lparr>dnum := x, entered := 2\<rparr>) = []" "nums ((calc_init F False)\<lparr>dnum := x, entered := 2\<rparr>) = []"
  "numsp ((calc_init F False)\<lparr>dnum := x, entered := 2\<rparr>) = 0"
  using init_infix [where F = F and x = x] by (simp_all add: ready_def calc_init_fields operand_def read_display_def ops_def nums_def)

lemma init_typed:
  assumes "length xs < 32" "shifts F xs (a, [], []) \<noteq> None" "set (map fst xs) \<subseteq> set two_keys"
  shows "\<exists>s. typed F ((calc_init F False)\<lparr>dnum := a, entered := 2\<rparr>) a xs s"
  by (rule typed_exists) (use assms in \<open>simp_all add: init_ready\<close>)

text \<open>
  C25. In infix mode, operators none of which binds more strongly than the one before it are
  carried out from left to right: after a number, any such operators with their operands, and
  \<^verbatim>\<open>=\<close>, the calculator holds the left fold of the operators, no operator is pending, and only
  the result has been added to the number stack.
\<close>

lemma equals_left_to_right:
  assumes "typed F s0 a xs s" "falling (map fst xs)" "numsp s0 + length xs < 32" "chain F a xs = Some r"
  shows "\<exists>s'. equf F s = Some s' \<and> dnum s' = r \<and> ops s' = [] \<and> nums s' = r # nums s0"
proof -
  have "map_option dnum (equf F s) = Some r"
    using typed_equf(1) [OF assms(1,3)] infix_value_falling [OF assms(2) typed_keys [OF assms(1)]] assms(4) by simp
  then show ?thesis using typed_equf(2) [OF assms(1,3)] by auto
qed

lemma equals_left_to_right_witness:
  "\<exists>s s'. typed demo_fops ((calc_init demo_fops False)\<lparr>dnum := 10, entered := 2\<rparr>) 10 [(kMUL, 3), (kSUB, 4), (kADD, 5)] s \<and>
    equf demo_fops s = Some s' \<and> dnum s' = 31"
proof -
  let ?s0 = "(calc_init demo_fops False)\<lparr>dnum := 10, entered := 2\<rparr>" and ?xs = "[(kMUL, 3), (kSUB, 4), (kADD, 5)] :: (key \<times> int) list"
  obtain s where s: "typed demo_fops ?s0 10 ?xs s"
    using init_typed [of ?xs demo_fops 10] by (auto simp: shift_def arith_def priority_def two_keys_def Let_def)
  have "chain demo_fops 10 ?xs = Some 31" by (simp add: arith_def demo_fops_def Let_def)
  moreover have "falling (map fst ?xs)" by (simp add: priority_def)
  ultimately show ?thesis using equals_left_to_right [OF s, of 31] s by (auto simp: init_ready)
qed

text \<open>
  An operator key carries out only the one operator on top of the stack. In
  \<^verbatim>\<open>a - b * c + d =\<close> the multiplication is done at the plus, the subtraction stays pending
  beneath it, and the calculator computes \<^verbatim>\<open>a - (b * c + d)\<close>.
\<close>

lemma subtract_multiply_add:
  assumes "typed F s0 a [(kSUB, b), (kMUL, c), (kADD, d)] s" "numsp s0 < 29"
  shows "\<exists>s'. equf F s = Some s' \<and> dnum s' = f_sub F a (f_add F (f_mul F b c) d)"
proof -
  have "infix_value F a [(kSUB, b), (kMUL, c), (kADD, d)] = Some (f_sub F a (f_add F (f_mul F b c) d))"
    by (simp add: infix_value_def shift_def priority_def arith_def Let_def)
  then show ?thesis using typed_equf(1) [OF assms(1)] assms(2) by (cases "equf F s") auto
qed

lemma subtract_multiply_add_witness:
  "\<exists>s s'. typed demo_fops ((calc_init demo_fops False)\<lparr>dnum := 10, entered := 2\<rparr>) 10 [(kSUB, 2), (kMUL, 3), (kADD, 4)] s \<and>
    equf demo_fops s = Some s' \<and> dnum s' = 0"
proof -
  let ?s0 = "(calc_init demo_fops False)\<lparr>dnum := 10, entered := 2\<rparr>" and ?xs = "[(kSUB, 2), (kMUL, 3), (kADD, 4)] :: (key \<times> int) list"
  obtain s where s: "typed demo_fops ?s0 10 ?xs s"
    using init_typed [of ?xs demo_fops 10] by (auto simp: shift_def arith_def priority_def two_keys_def Let_def)
  show ?thesis using subtract_multiply_add [OF s] s by (auto simp: init_ready demo_fops_def)
qed

text \<open>
  A right parenthesis carries out what is pending since the matching left one, shows the
  result, and leaves both stacks as they were before that left parenthesis.
\<close>

lemma right_parenthesis_closes_group:
  assumes "ready s" "numsp s < 32" "flagPAREN s \<noteq> 0" "ops s = seg @ kLPAR # os" "kLPAR \<notin> set seg" "nums s = ms @ ns"
    "length ms = length seg" "reduce F seg (operand F s # ms) = Some r"
  shows "\<exists>s'. rparf F s = Some s' \<and> ops s' = os \<and> nums s' = ns \<and> dnum s' = r \<and> entered s' = 2 \<and> flagPAREN s' = flagPAREN s - 1"
  using rparf_infix [OF assms] by blast

lemma right_parenthesis_closes_group_witness:
  "\<exists>s'. rparf demo_fops (PushNum 6 (PushOp kSUB (PushOp kLPAR ((calc_init demo_fops False)\<lparr>dnum := 2, entered := 2, flagPAREN := 1\<rparr>)))) = Some s' \<and>
     ops s' = [] \<and> nums s' = [] \<and> dnum s' = 4 \<and> entered s' = 2 \<and> flagPAREN s' = 0"
proof -
  let ?s0 = "(calc_init demo_fops False)\<lparr>dnum := 2, entered := 2, flagPAREN := 1\<rparr>"
  let ?s1 = "PushOp kLPAR ?s0" let ?s2 = "PushOp kSUB ?s1" let ?s3 = "PushNum 6 ?s2"
  have 0: "infix_ok ?s0" "opsp ?s0 = 0" "ops ?s0 = []" "nums ?s0 = []" using calc_init_keep [of demo_fops False]
    by (simp_all add: infix_ok_def calc_keep calc_init_fields ops_def nums_def)
  have o0: "opsp ?s0 < 32" using 0(2) by simp
  note 1 = PushOp_infix [OF 0(1) o0, of kLPAR]
  have o1: "opsp ?s1 < 32" "numsp ?s1 < 32" using 0 1 infix_okD(3,4) [OF 1(3)] by simp_all
  note 2 = PushOp_infix [OF 1(3) o1(1), of kSUB]
  have o2: "numsp ?s2 < 32" using 2(6) o1(2) by simp
  note 3 = PushNum_infix [OF 2(3) o2, of 6]
  have f: "flagINV ?s3 = 0" "flagPAREN ?s3 = 1" "entered ?s3 = 2" "dnum ?s3 = 2" using 0 1 2 3
    by (simp_all add: calc_init_fields) (simp add: PushOp_def calc_init_fields STACKMAX_def)
  have r: "ready ?s3" "operand demo_fops ?s3 = 2" using 3(3) f by (simp_all add: ready_def operand_computed)
  have "numsp ?s3 < 32" using infix_okD(3) [OF 3(3)] 3(1) 2(2) 1(2) 0(4) by simp
  then show ?thesis
    using right_parenthesis_closes_group [OF r(1) _ _ _ _ _ _, of "[kSUB]" "[]" "[6]" "[]" demo_fops 4] r(2) f 0 1 2 3
    by (simp add: arith_def demo_fops_def)
qed

definition after_equals :: "nat \<Rightarrow> 'd calc \<Rightarrow> bool" where
  "after_equals n s \<longleftrightarrow> infix_ok s \<and> opsp s = 0 \<and> numsp s = min n 32 \<and> entered s = (if n = 0 then 1 else if n \<le> 32 then 2 else 3)"

lemma locked_key: "entered s = 3 \<Longrightarrow> \<not> rpn s \<Longrightarrow> k \<notin> {kCLR, kOFF} \<Longrightarrow> calc_do_op F k s = Some s"
  by (simp add: calc_do_op_def with_pre_def pre_op_def Let_def)

lemma equals_after:
  assumes "after_equals n s" shows "\<exists>s'. calc_do_op F kEQU s = Some s' \<and> after_equals (Suc n) s'"
proof (cases "n \<le> 32")
  case False
  then show ?thesis using assms locked_key [of s kEQU F] by (auto simp: after_equals_def infix_ok_def)
next
  case True
  define t where "t = (read_display F (s\<lparr>flagINV := 0, clrdisp := 1, CLR := 1, Dpoint := 0, exponent := 0\<rparr>))\<lparr>entered := 2\<rparr>"
  define p where "p = PushNum (dnum t) t"
  have s: "calc_ok s" "\<not> rpn s" "opsp s = 0" "numsp s = n" "entered s \<in> {1, 2}"
    using assms True by (auto simp: after_equals_def infix_ok_def)
  have t: "calc_ok t" "\<not> rpn t" "opsp t = 0" "numsp t = n" "entered t = 2"
    unfolding t_def using s by (simp_all add: calc_keep)
  have p: "infix_ok p" "opsp p = 0" "numsp p = min (Suc n) 32" "entered p = (if Suc n \<le> 32 then 2 else 3)"
    using t True by (auto simp: p_def infix_ok_def stack_keep) (auto simp: PushNum_def STACKMAX_def stack_error_def)
  have "equ_loop F p = Some p" using p(2) by (subst equ_loop.simps) (simp add: isopempty_def)
  moreover have "calc_do_op F kEQU s = map_option (\<lambda>s. DrawDisplay (format_double F (dnum s) s)) (equ_loop F p)"
    using s(5) by (auto simp: calc_do_op_def with_pre_def pre_op_def do_key_def two_keys_def one_keys_def num_keys_def equf_def Let_def
        p_def t_def split: option.split)
  ultimately show ?thesis using p by (simp add: after_equals_def)
qed

lemma equals_many: "after_equals m s \<Longrightarrow> \<exists>s'. press F (replicate n kEQU) s = Some s' \<and> after_equals (m + n) s'"
proof (induction n arbitrary: m s)
  case (Suc n)
  obtain s1 where "calc_do_op F kEQU s = Some s1" "after_equals (Suc m) s1" using equals_after [OF Suc(2)] by blast
  then show ?case using Suc(1) [of "Suc m" s1] by simp
qed simp

text \<open>
  Each \<^verbatim>\<open>=\<close> leaves its result on the number stack and nothing takes it off, so the stack
  fills: after 32 presses it is full, and the next one is a stack error that locks every key but
  clear and off.
\<close>

lemma equals_fills_the_stack:
  "\<exists>s. press F (replicate n kEQU) (calc_init F False) = Some s \<and> numsp s = min n 32 \<and>
    (n > 32 \<longrightarrow> entered s = 3 \<and> (\<forall>k. k \<notin> {kCLR, kOFF} \<longrightarrow> calc_do_op F k s = Some s))"
proof -
  have "after_equals 0 (calc_init F False)"
    using calc_init_keep [of F False] by (simp add: after_equals_def infix_ok_def calc_init_fields)
  then obtain s where "press F (replicate n kEQU) (calc_init F False) = Some s" "after_equals n s" using equals_many [of 0] by fastforce
  then show ?thesis using locked_key [of s _ F] by (auto simp: after_equals_def infix_ok_def)
qed

lemma equals_fills_the_stack_witness:
  "\<exists>s. press demo_fops (replicate 33 kEQU) (calc_init demo_fops False) = Some s \<and> calc_do_op demo_fops kFIVE s = Some s"
  using equals_fills_the_stack [of demo_fops 33] by auto

subsection \<open>RPN mode\<close>

text \<open>
  C29. In RPN mode the four registers evaluate every expression that needs no more than four:
  keyed as left operand, ENTER, right operand, operator, it ends with its value in the display
  and the registers it did not need unchanged.
\<close>

lemma rpn_evaluates:
  assumes "keyed F e s s'" "rpn_ok s" "registers e \<le> 4"
  shows "value_of F e = Some (operand F s') \<and> (\<forall>i \<in> {1..4 - registers e}. regs F s' ! i = regs F s ! i)"
  using keyed_regs [OF assms] by auto

lemma rpn_evaluates_witness:
  "\<exists>s'. keyed demo_fops (Bin kSUB (Bin kMUL (Num 4) (Num 5)) (Bin kADD (Num 6) (Num 7))) (calc_init demo_fops True) s' \<and>
    operand demo_fops s' = 7"
proof -
  let ?e = "Bin kSUB (Bin kMUL (Num 4) (Num 5)) (Bin kADD (Num 6) (Num (7::int)))"
  have i: "rpn_ok (calc_init demo_fops True)"
    using calc_init_keep [of demo_fops True] by (simp add: rpn_ok_def calc_init_fields)
  have v: "value_of demo_fops ?e = Some 7" by (simp add: arith_def demo_fops_def)
  obtain s' where s: "keyed demo_fops ?e (calc_init demo_fops True) s'"
    using keyed_exists [OF v _ i] by (auto simp: calc_init_fields two_keys_def)
  then show ?thesis using rpn_evaluates [OF s i] v by auto
qed

subsection \<open>Numbers\<close>

text \<open>
  A number shown in base 8 or 16 and read back is the number divided by the base to the
  power of the digits beyond twelve: up to twelve digits it comes back unchanged, beyond them
  the low digits are lost.
\<close>

lemma shown_number_read_back:
  assumes "calc_ok s" "numbase s \<in> {8, 16}"
  shows "dnum (parse_double F (DrawDisplay (format_double F x s))) = f_of_ulong F (word_of_int
    (uint (f_to_long F x) div numbase s ^ (length (digits_of (numbase s) (uint (f_to_long F x))) - 12)))"
  by (rule based_round_trip [OF assms(2,1)])

lemma shown_number_read_back_witness:
  "dnum (parse_double demo_fops (DrawDisplay (format_double demo_fops 255 ((calc_init demo_fops False)\<lparr>numbase := 16\<rparr>)))) = 255"
proof -
  have "calc_ok ((calc_init demo_fops False)\<lparr>numbase := 16\<rparr>)" using calc_init_keep [of demo_fops False] by (simp add: calc_ok_def)
  moreover have "digits_of 16 255 = ''FF''" by code_simp
  ultimately show ?thesis using shown_number_read_back [of "(calc_init demo_fops False)\<lparr>numbase := 16\<rparr>" demo_fops 255]
    by (simp add: demo_fops_def)
qed



text \<open>
  The factorial key is exact up to 18 when doubles multiply integers up to \<^verbatim>\<open>2^53\<close>
  exactly.
\<close>

lemma factorial_key_exact:
  assumes "exact_ints F" "operand F s = f_of_int F (int n)" "n \<le> 18"
  shows "dnum (oneop F kFACT s) = f_of_int F (fact n) \<and> entered (oneop F kFACT s) = 2"
proof -
  have "factorial F ((read_display F s)\<lparr>entered := 2\<rparr>) = (read_display F s)\<lparr>entered := 2, dnum := f_of_int F (fact n)\<rparr>"
    using factorial_exact [OF assms(1) _ assms(3), of "(read_display F s)\<lparr>entered := 2\<rparr>"] assms(2) by (simp add: operand_def)
  then show ?thesis by (simp add: oneop_def oneop_fun_def Let_def)
qed

lemma factorial_key_exact_witness: "dnum (oneop demo_fops kFACT ((calc_init demo_fops False)\<lparr>dnum := 10, entered := 2\<rparr>)) = 3628800"
  using factorial_key_exact [OF demo_exact_ints, of "(calc_init demo_fops False)\<lparr>dnum := 10, entered := 2\<rparr>" 10] init_ready(2) [of demo_fops 10]
  by (simp add: demo_fops_def fact_numeral)

subsection \<open>Buttons and keyboard\<close>

lemmas act_defs = add_act_def and_act_def back_act_def base_act_def clearit_act_def cosine_act_def decimal_act_def degree_act_def divide_act_def e_act_def enter_act_def epower_act_def equal_act_def exchange_act_def factorial_act_def inverse_act_def leftParen_act_def logarithm_act_def mod_act_def multiply_act_def naturalLog_act_def negate_act_def not_act_def off_act_def or_act_def pi_act_def power_act_def recall_act_def reciprocal_act_def rightParen_act_def roll_act_def scientific_act_def shl_act_def shr_act_def sine_act_def square_act_def squareRoot_act_def store_act_def subtract_act_def sum_act_def tangent_act_def tenpower_act_def XexchangeY_act_def xor_act_def xtrunc_act_def

text \<open>
  Every keyboard action does exactly what the button with its key does: the handlers of
  \<^verbatim>\<open>actions.c\<close> and the dispatch \<^verbatim>\<open>calc_do_op\<close> are the same functions.
\<close>

lemma keyboard_agrees_with_buttons:
  "add_act F = calc_do_op F kADD \<and> and_act F = calc_do_op F kAND \<and> back_act F = calc_do_op F kBKSP \<and>
   base_act F = calc_do_op F kBASE \<and> clearit_act F = calc_do_op F kCLR \<and>
   cosine_act F = calc_do_op F kCOS \<and> decimal_act F = calc_do_op F kDEC \<and>
   degree_act F = calc_do_op F kDRG \<and> divide_act F = calc_do_op F kDIV \<and>
   e_act F = calc_do_op F kE \<and> enter_act F = calc_do_op F kENTR \<and>
   epower_act F = calc_do_op F kEXP \<and> equal_act F = calc_do_op F kEQU \<and>
   exchange_act F = calc_do_op F kEXC \<and> factorial_act F = calc_do_op F kFACT \<and>
   inverse_act F = calc_do_op F kINV \<and> leftParen_act F = calc_do_op F kLPAR \<and>
   logarithm_act F = calc_do_op F kLOG \<and> mod_act F = calc_do_op F kMOD \<and>
   multiply_act F = calc_do_op F kMUL \<and> naturalLog_act F = calc_do_op F kLN \<and>
   negate_act F = calc_do_op F kNEG \<and> not_act F = calc_do_op F kNOT \<and>
   off_act F = calc_do_op F kOFF \<and> or_act F = calc_do_op F kOR \<and> pi_act F = calc_do_op F kPI \<and>
   power_act F = calc_do_op F kPOW \<and> recall_act F = calc_do_op F kRCL \<and>
   reciprocal_act F = calc_do_op F kRECIP \<and> rightParen_act F = calc_do_op F kRPAR \<and>
   roll_act F = calc_do_op F kROLL \<and> scientific_act F = calc_do_op F kEE \<and>
   shl_act F = calc_do_op F kSHL \<and> shr_act F = calc_do_op F kSHR \<and> sine_act F = calc_do_op F kSIN \<and>
   square_act F = calc_do_op F kSQR \<and> squareRoot_act F = calc_do_op F kSQRT \<and>
   store_act F = calc_do_op F kSTO \<and> subtract_act F = calc_do_op F kSUB \<and>
   sum_act F = calc_do_op F kSUM \<and> tangent_act F = calc_do_op F kTAN \<and>
   tenpower_act F = calc_do_op F k10X \<and> XexchangeY_act F = calc_do_op F kXXY \<and>
   xor_act F = calc_do_op F kXOR \<and> xtrunc_act F = calc_do_op F kTRUNC \<and>
   digit_act F (CHR ''0'') = calc_do_op F kZERO \<and> digit_act F (CHR ''1'') = calc_do_op F kONE \<and>
   digit_act F (CHR ''2'') = calc_do_op F kTWO \<and> digit_act F (CHR ''3'') = calc_do_op F kTHREE \<and>
   digit_act F (CHR ''4'') = calc_do_op F kFOUR \<and> digit_act F (CHR ''5'') = calc_do_op F kFIVE \<and>
   digit_act F (CHR ''6'') = calc_do_op F kSIX \<and> digit_act F (CHR ''7'') = calc_do_op F kSEVEN \<and>
   digit_act F (CHR ''8'') = calc_do_op F kEIGHT \<and> digit_act F (CHR ''9'') = calc_do_op F kNINE \<and>
   digit_act F (CHR ''A'') = calc_do_op F kxA \<and> digit_act F (CHR ''B'') = calc_do_op F kxB \<and>
   digit_act F (CHR ''C'') = calc_do_op F kxC \<and> digit_act F (CHR ''D'') = calc_do_op F kxD \<and>
   digit_act F (CHR ''E'') = calc_do_op F kxE \<and> digit_act F (CHR ''F'') = calc_do_op F kxF"
  by (intro conjI; simp add: act_defs digit_act_def calc_do_op_def do_key_def [abs_def] two_keys_def one_keys_def num_keys_def)

end
