(* ===== verification/Text_Lines.thy ===== *)
theory Text_Lines
  imports Prelude
begin

section \<open>Reading text files line by line\<close>

text \<open>
  What the line-based readers of the common library share: \<^verbatim>\<open>isspace\<close> of the C locale, the
  chunks \<^verbatim>\<open>fgets\<close> reads into a buffer of \<open>n\<close> bytes, stripping of white space, and
  \<^verbatim>\<open>strtok\<close>. A line longer than the buffer is read in several chunks. The collection
  \<open>text_lines\<close> holds the rules the round trips use.
\<close>

named_theorems text_lines "reading back text that was written line by line"

definition newline :: char where "newline = CHR 0x0A"

definition isspace :: "char \<Rightarrow> bool" where
  "isspace c = (c \<in> {CHR '' '', CHR 0x09, CHR 0x0A, CHR 0x0B, CHR 0x0C, CHR 0x0D})"

fun fgets_line :: "nat \<Rightarrow> cstr \<Rightarrow> cstr" where
  "fgets_line 0 s = []"
| "fgets_line (Suc k) [] = []"
| "fgets_line (Suc k) (c # cs) = c # (if c = newline then [] else fgets_line k cs)"

lemma fgets_line_nonempty: "s \<noteq> [] \<Longrightarrow> 0 < k \<Longrightarrow> fgets_line k s \<noteq> []"
  by (cases k; cases s) auto

text \<open>
  \<open>read_lines n s\<close> lists what repeated calls with a buffer of \<open>n\<close> bytes read, each cut at the
  first NUL as the readers, which treat the buffer as a string, see it.
\<close>

definition c_string :: "cstr \<Rightarrow> cstr" where
  "c_string s = takeWhile (\<lambda>c. c \<noteq> CHR 0x00) s"

function read_lines :: "nat \<Rightarrow> cstr \<Rightarrow> cstr list" where
  "read_lines n s =
     (if s = [] \<or> n < 2 then []
      else let l = fgets_line (n - 1) s in c_string l # read_lines n (drop (length l) s))"
  by pat_completeness auto
termination
proof (relation "measure (\<lambda>(n, s). length s)", simp)
  fix n :: nat and s l :: cstr
  assume a: "\<not> (s = [] \<or> n < 2)" and l: "l = fgets_line (n - 1) s"
  then have "l \<noteq> []" using fgets_line_nonempty [of s "n - 1"] by simp
  with a show "((n, drop (length l) s), (n, s)) \<in> measure (\<lambda>(n, s). length s)" by simp
qed

declare read_lines.simps [simp del]

definition strip_left :: "cstr \<Rightarrow> cstr" where
  "strip_left s = dropWhile isspace s"

definition strip_right :: "cstr \<Rightarrow> cstr" where
  "strip_right s = rev (dropWhile isspace (rev s))"

text \<open>\<^verbatim>\<open>strtok\<close> with one separator: the maximal non-empty stretches without it.\<close>

fun split_on :: "char \<Rightarrow> cstr \<Rightarrow> cstr list" where
  "split_on sep [] = [[]]"
| "split_on sep (c # cs) =
     (if c = sep then [] # split_on sep cs
      else (case split_on sep cs of [] \<Rightarrow> [[c]] | t # ts \<Rightarrow> (c # t) # ts))"

definition strtok :: "char \<Rightarrow> cstr \<Rightarrow> cstr list" where
  "strtok sep s = filter (\<lambda>t. t \<noteq> []) (split_on sep s)"

subsection \<open>Facts\<close>

lemma isspace_newline [simp]: "isspace newline"
  by (simp add: isspace_def newline_def)

lemma newline_neq [simp]:
  "newline \<noteq> CHR ''#''" "newline \<noteq> CHR ''@''" "newline \<noteq> CHR 0x00" "newline \<noteq> CHR ''[''" "newline \<noteq> CHR ''=''"
  by (simp_all add: newline_def)

lemma fgets_line_whole:
  "newline \<notin> set l \<Longrightarrow> length l < k \<Longrightarrow> fgets_line k (l @ newline # rest) = l @ [newline]"
proof (induction l arbitrary: k)
  case Nil
  then show ?case by (cases k) auto
next
  case (Cons c l)
  then show ?case by (cases k) auto
qed

lemma read_lines_whole [text_lines]:
  assumes "newline \<notin> set l" and "CHR 0x00 \<notin> set l" and "Suc (Suc (length l)) \<le> n" and "2 \<le> n"
  shows "read_lines n (l @ newline # rest) = (l @ [newline]) # read_lines n rest"
proof -
  have "fgets_line (n - 1) (l @ newline # rest) = l @ [newline]"
    using assms by (intro fgets_line_whole) auto
  moreover have "c_string (l @ [newline]) = l @ [newline]"
    unfolding c_string_def using assms(2) by (intro takeWhile_eq_all_conv [THEN iffD2]) auto
  ultimately show ?thesis using assms(4) by (subst read_lines.simps) simp
qed

lemma read_lines_nil [simp]: "read_lines n [] = []"
  by (subst read_lines.simps) simp

lemma split_at_first:
  assumes "x \<in> set s"
  shows "\<exists>r. s = takeWhile (\<lambda>c. c \<noteq> x) s @ x # r"
proof -
  from split_list_first [OF assms] obtain ys zs where s: "s = ys @ x # zs" and "x \<notin> set ys" by blast
  then have "takeWhile (\<lambda>c. c \<noteq> x) s = ys" by (auto simp: takeWhile_tail intro: takeWhile_eq_all_conv [THEN iffD2])
  with s show ?thesis by metis
qed

lemma split_on_nonempty [simp]: "split_on sep s \<noteq> []"
  by (cases s) (auto split: list.split)

lemma split_on_none: "sep \<notin> set s \<Longrightarrow> split_on sep s = [s]"
  by (induction s) auto

lemma split_on_first: "sep \<notin> set a \<Longrightarrow> split_on sep (a @ sep # s) = a # split_on sep s"
  by (induction a) auto

text \<open>A trimmed string has no white space at either end.\<close>

definition trimmed :: "cstr \<Rightarrow> bool" where
  "trimmed s \<longleftrightarrow> s = [] \<or> (\<not> isspace (hd s) \<and> \<not> isspace (last s))"

lemma strip_right_newline [simp]: "strip_right (s @ [newline]) = strip_right s"
  by (simp add: strip_right_def)

lemma strip_right_trimmed [text_lines]: "trimmed s \<Longrightarrow> strip_right s = s"
  by (cases s rule: rev_cases) (auto simp: strip_right_def trimmed_def)

lemma strip_left_trimmed [text_lines]: "trimmed s \<Longrightarrow> strip_left s = s"
  by (cases s) (auto simp: strip_left_def trimmed_def)

subsection \<open>Messages in pieces of twenty bytes\<close>

text \<open>
  A startup notification message travels with its NUL in client messages of twenty bytes each,
  the last one padded with NULs.
\<close>

definition data_pieces :: "cstr \<Rightarrow> cstr list" where
  "data_pieces msg =
     map (\<lambda>c. c @ replicate (20 - length c) (CHR 0x00)) (cut_list 20 (msg @ [CHR 0x00]))"

lemma data_pieces_short:
  "length msg < 20 \<Longrightarrow> data_pieces msg = [msg @ replicate (20 - length msg) (CHR 0x00)]"
  by (simp add: data_pieces_def cut_list.simps [of _ "msg @ _"] cut_list.simps [of _ "[]"]
      Suc_diff_Suc replicate_Suc [symmetric] del: replicate_Suc)

lemma data_pieces_long:
  "20 \<le> length msg \<Longrightarrow> data_pieces msg = take 20 msg # data_pieces (drop 20 msg)"
  by (simp add: data_pieces_def cut_list.simps [of _ "msg @ _"])

end
