(* ===== verification/Desktop.thy ===== *)
theory Desktop
  imports Text_Lines
begin

section \<open>Desktop entries\<close>

text \<open>
  \<^verbatim>\<open>platform/X11/common/desktop.c\<close>: the reader of \<^verbatim>\<open>.desktop\<close> files, which entries a
  desktop shows, and the shell command built from an \<^verbatim>\<open>Exec\<close> line. A file is its contents.
  A string field that was never set is \<open>None\<close>, as the C pointer is NULL; the array of actions is
  \<open>None\<close> until \<^verbatim>\<open>parse_action_ids\<close> allocates it. The output buffer of
  \<open>isde_desktop_build_exec\<close> is kept with its capacity; a write outside it is \<open>Overrun\<close>.
\<close>

subsection \<open>Data\<close>

record desktop_action =
  a_id :: cstr
  a_name :: "cstr option"
  a_exec :: "cstr option"
  a_icon :: "cstr option"

record desktop_entry =
  desktop_id :: cstr
  de_name :: "cstr option"
  generic_name :: "cstr option"
  de_comment :: "cstr option"
  de_exec :: "cstr option"
  de_icon :: "cstr option"
  de_type :: "cstr option"
  categories :: "cstr option"
  mime_types :: "cstr option"
  startup_wm_class :: "cstr option"
  only_show_in :: "cstr option"
  not_show_in :: "cstr option"
  actions_str :: "cstr option"
  de_actions :: "desktop_action list option"
  de_terminal :: bool
  no_display :: bool
  de_hidden :: bool
  startup_notify :: bool

definition empty_entry :: "cstr \<Rightarrow> desktop_entry" where
  "empty_entry i = \<lparr>desktop_id = i, de_name = None, generic_name = None, de_comment = None,
     de_exec = None, de_icon = None, de_type = None, categories = None, mime_types = None,
     startup_wm_class = None, only_show_in = None, not_show_in = None, actions_str = None,
     de_actions = None, de_terminal = False, no_display = False, de_hidden = False,
     startup_notify = False\<rparr>"

subsection \<open>Reading a file\<close>

definition strip :: "cstr \<Rightarrow> cstr" where
  "strip s = strip_right (strip_left s)"

definition set_field :: "cstr \<Rightarrow> cstr \<Rightarrow> desktop_entry \<Rightarrow> desktop_entry" where
  "set_field key val e =
     (if key = ''Name'' then e\<lparr>de_name := Some val\<rparr>
      else if key = ''GenericName'' then e\<lparr>generic_name := Some val\<rparr>
      else if key = ''Comment'' then e\<lparr>de_comment := Some val\<rparr>
      else if key = ''Exec'' then e\<lparr>de_exec := Some val\<rparr>
      else if key = ''Icon'' then e\<lparr>de_icon := Some val\<rparr>
      else if key = ''Type'' then e\<lparr>de_type := Some val\<rparr>
      else if key = ''Categories'' then e\<lparr>categories := Some val\<rparr>
      else if key = ''MimeType'' then e\<lparr>mime_types := Some val\<rparr>
      else if key = ''OnlyShowIn'' then e\<lparr>only_show_in := Some val\<rparr>
      else if key = ''NotShowIn'' then e\<lparr>not_show_in := Some val\<rparr>
      else if key = ''Terminal'' then e\<lparr>de_terminal := (val = ''true'')\<rparr>
      else if key = ''NoDisplay'' then e\<lparr>no_display := (val = ''true'')\<rparr>
      else if key = ''Hidden'' then e\<lparr>de_hidden := (val = ''true'')\<rparr>
      else if key = ''StartupWMClass'' then e\<lparr>startup_wm_class := Some val\<rparr>
      else if key = ''StartupNotify'' then e\<lparr>startup_notify := (val = ''true'')\<rparr>
      else if key = ''Actions'' then e\<lparr>actions_str := Some val\<rparr>
      else e)"

text \<open>The first action with the identifier, as an index into the array.\<close>

fun find_action :: "desktop_action list \<Rightarrow> cstr \<Rightarrow> nat option" where
  "find_action [] i = None"
| "find_action (a # as) i = (if a_id a = i then Some 0 else map_option Suc (find_action as i))"

text \<open>
  The number of slots \<^verbatim>\<open>parse_action_ids\<close> counts before it allocates one more than that;
  \<open>prev\<close> is \<^verbatim>\<open>p[-1]\<close>, which the code reads only when the count is no longer zero.
\<close>

fun count_slots :: "nat \<Rightarrow> char option \<Rightarrow> cstr \<Rightarrow> nat" where
  "count_slots n prev [] = n"
| "count_slots n prev (c # cs) =
     count_slots (if c = CHR '';'' then n + 1
                  else if n = 0 \<or> prev = Some (CHR '';'') then n + 1 else n) (Some c) cs"

definition action_ids :: "cstr \<Rightarrow> cstr list" where
  "action_ids s = filter (\<lambda>i. i \<noteq> []) (map strip (strtok (CHR '';'') s))"

definition parse_action_ids :: "desktop_entry \<Rightarrow> desktop_entry" where
  "parse_action_ids e =
     (case actions_str e of
        None \<Rightarrow> e
      | Some s \<Rightarrow> e\<lparr>de_actions := Some (map (\<lambda>i.
          \<lparr>a_id = i, a_name = None, a_exec = None, a_icon = None\<rparr>) (action_ids s))\<rparr>)"

definition set_action_field :: "cstr \<Rightarrow> cstr \<Rightarrow> desktop_action \<Rightarrow> desktop_action" where
  "set_action_field key val a =
     (if key = ''Name'' then a\<lparr>a_name := Some val\<rparr>
      else if key = ''Exec'' then a\<lparr>a_exec := Some val\<rparr>
      else if key = ''Icon'' then a\<lparr>a_icon := Some val\<rparr>
      else a)"

text \<open>Where the reader is: in the main group, and the identifier of the action group it is in.\<close>

record reader =
  in_desktop_entry :: bool
  current_action_id :: "cstr option"
  r_entry :: desktop_entry

definition group_header :: "cstr \<Rightarrow> reader \<Rightarrow> reader" where
  "group_header s r =
     (let r = r\<lparr>in_desktop_entry := False, current_action_id := None\<rparr> in
      if take 15 s = ''[Desktop Entry]'' then r\<lparr>in_desktop_entry := True\<rparr>
      else if take 16 s = ''[Desktop Action '' \<and> CHR '']'' \<in> set (drop 16 s)
      then r\<lparr>current_action_id := Some (takeWhile (\<lambda>c. c \<noteq> CHR '']'') (drop 16 s))\<rparr>
      else r)"

definition action_value :: "cstr \<Rightarrow> cstr \<Rightarrow> cstr \<Rightarrow> desktop_entry \<Rightarrow> desktop_entry" where
  "action_value act key val e =
     (let e = (if de_actions e = None then parse_action_ids e else e) in
      case de_actions e of
        None \<Rightarrow> e
      | Some as \<Rightarrow>
          (case find_action as act of
             None \<Rightarrow> e
           | Some i \<Rightarrow> e\<lparr>de_actions := Some (as[i := set_action_field key val (as ! i)])\<rparr>))"

definition key_value :: "cstr \<Rightarrow> reader \<Rightarrow> reader" where
  "key_value s r =
     (if CHR ''='' \<notin> set s then r
      else
        let k = takeWhile (\<lambda>c. c \<noteq> CHR ''='') s; v = drop (Suc (length k)) s in
        if CHR ''['' \<in> set k then r
        else
          let key = strip k; val = strip v in
          if in_desktop_entry r then r\<lparr>r_entry := set_field key val (r_entry r)\<rparr>
          else case current_action_id r of
            None \<Rightarrow> r
          | Some act \<Rightarrow> r\<lparr>r_entry := action_value act key val (r_entry r)\<rparr>)"

definition read_line :: "cstr \<Rightarrow> reader \<Rightarrow> reader" where
  "read_line line r =
     (let s = strip line in
      if s = [] \<or> hd s = CHR ''#'' then r
      else if hd s = CHR ''['' then group_header s r
      else key_value s r)"

definition base_name :: "cstr \<Rightarrow> cstr" where
  "base_name path = rev (takeWhile (\<lambda>c. c \<noteq> CHR ''/'') (rev path))"

text \<open>The contents are \<open>None\<close> when the file cannot be opened.\<close>

definition isde_desktop_load :: "cstr \<Rightarrow> cstr option \<Rightarrow> desktop_entry option" where
  "isde_desktop_load path contents =
     (case contents of
        None \<Rightarrow> None
      | Some text \<Rightarrow>
          let r = fold read_line (read_lines 1024 text)
                    \<lparr>in_desktop_entry = False, current_action_id = None, r_entry = empty_entry (base_name path)\<rparr>;
              e = r_entry r in
          Some (if de_actions e = None \<and> actions_str e \<noteq> None then parse_action_ids e else e))"

definition isde_desktop_action :: "desktop_entry option \<Rightarrow> int \<Rightarrow> desktop_action option" where
  "isde_desktop_action e index =
     (case e of
        None \<Rightarrow> None
      | Some e \<Rightarrow>
          let as = (case de_actions e of None \<Rightarrow> [] | Some as \<Rightarrow> as) in
          if index < 0 \<or> index \<ge> int (length as) then None else Some (as ! nat index))"

subsection \<open>What is shown\<close>

function list_contains_loop :: "cstr \<Rightarrow> cstr \<Rightarrow> bool" where
  "list_contains_loop p item =
     (if p = [] then False
      else
        let elem = takeWhile (\<lambda>c. c \<noteq> CHR '';'') p in
        if elem = item then True
        else list_contains_loop (if CHR '';'' \<in> set p then drop (Suc (length elem)) p else []) item)"
  by pat_completeness auto
termination
  by (relation "measure (\<lambda>(p, item). length p)") auto

declare list_contains_loop.simps [simp del]

definition list_contains :: "cstr option \<Rightarrow> cstr \<Rightarrow> bool" where
  "list_contains l item = (case l of None \<Rightarrow> False | Some p \<Rightarrow> list_contains_loop p item)"

definition isde_desktop_should_show :: "desktop_entry \<Rightarrow> cstr \<Rightarrow> bool" where
  "isde_desktop_should_show e desktop =
     (if de_hidden e \<or> no_display e then False
      else if only_show_in e \<noteq> None then list_contains (only_show_in e) desktop
      else if not_show_in e \<noteq> None then \<not> list_contains (not_show_in e) desktop
      else True)"

definition isde_desktop_handles_mime :: "desktop_entry option \<Rightarrow> cstr option \<Rightarrow> bool" where
  "isde_desktop_handles_mime e mime =
     (case (e, mime) of
        (Some e, Some m) \<Rightarrow> mime_types e \<noteq> None \<and> list_contains (mime_types e) m
      | _ \<Rightarrow> False)"

subsection \<open>The command\<close>

text \<open>
  The buffer of \<open>cap\<close> bytes is the string written so far and \<^verbatim>\<open>pos\<close>. \<^verbatim>\<open>snprintf\<close> returns
  the length it wanted to write, so \<^verbatim>\<open>pos\<close> may pass the capacity; \<^verbatim>\<open>cap - pos\<close> is a
  \<^verbatim>\<open>size_t\<close> and then wraps to a huge bound, and the next write is outside the buffer.
\<close>

datatype out_buf = Overrun | Out nat cstr

fun out_printf :: "nat \<Rightarrow> cstr \<Rightarrow> out_buf \<Rightarrow> out_buf" where
  "out_printf cap t Overrun = Overrun"
| "out_printf cap t (Out pos out) =
     (if pos > cap then Overrun
      else Out (pos + length t) (if pos < cap then take pos out @ take (cap - pos - 1) t else out))"

fun out_char :: "nat \<Rightarrow> char \<Rightarrow> out_buf \<Rightarrow> out_buf" where
  "out_char cap c Overrun = Overrun"
| "out_char cap c (Out pos out) =
     (if pos < cap - 1 then Out (pos + 1) (take pos out @ [c]) else Out pos out)"

definition quoted :: "cstr \<Rightarrow> cstr" where
  "quoted s = [CHR 0x27] @ s @ [CHR 0x27]"


fun out_files :: "nat \<Rightarrow> bool \<Rightarrow> cstr list \<Rightarrow> out_buf \<Rightarrow> out_buf" where
  "out_files cap later [] b = b"
| "out_files cap later (f # fs) b =
     out_files cap True fs (out_printf cap ((if later then '' '' else []) @ quoted f) b)"

definition exec_code :: "nat \<Rightarrow> desktop_entry \<Rightarrow> cstr list \<Rightarrow> char \<Rightarrow> out_buf \<Rightarrow> out_buf" where
  "exec_code cap e files d b =
     (if d = CHR ''f'' \<or> d = CHR ''u'' then
        (if files \<noteq> [] then out_printf cap (quoted (hd files)) b else b)
      else if d = CHR ''F'' \<or> d = CHR ''U'' then out_files cap False files b
      else if d = CHR ''i'' then
        (case de_icon e of None \<Rightarrow> b | Some i \<Rightarrow> out_printf cap (''--icon '' @ quoted i) b)
      else if d = CHR ''c'' then
        (case de_name e of None \<Rightarrow> b | Some n \<Rightarrow> out_printf cap (quoted n) b)
      else if d = CHR ''%'' then out_char cap d b
      else b)"

fun exec_loop :: "nat \<Rightarrow> desktop_entry \<Rightarrow> cstr list \<Rightarrow> cstr \<Rightarrow> out_buf \<Rightarrow> out_buf" where
  "exec_loop cap e files [] b = b"
| "exec_loop cap e files [c] b = out_char cap c b"
| "exec_loop cap e files (c # d # cs) b =
     (if c = CHR ''%'' then exec_loop cap e files cs (exec_code cap e files d b)
      else exec_loop cap e files (d # cs) (out_char cap c b))"

definition exec_cap :: "cstr \<Rightarrow> cstr list \<Rightarrow> nat" where
  "exec_cap src files = length src + 256 + sum_list (map (\<lambda>f. length f + 3) files)"

datatype exec_error = WriteOutsideBuffer

definition isde_desktop_build_exec ::
  "desktop_entry option \<Rightarrow> cstr list \<Rightarrow> (exec_error + cstr) option" where
  "isde_desktop_build_exec e files =
     (case e of
        None \<Rightarrow> None
      | Some e \<Rightarrow>
          (case de_exec e of
             None \<Rightarrow> None
           | Some src \<Rightarrow>
               let cap = exec_cap src files in
               Some (case exec_loop cap e files src (Out 0 []) of
                       Overrun \<Rightarrow> Inl WriteOutsideBuffer
                     | Out pos out \<Rightarrow>
                         if pos < cap then Inr (take pos out) else Inl WriteOutsideBuffer)))"

subsection \<open>Scanning a directory\<close>

text \<open>
  The directory is the list of its names in the order \<^verbatim>\<open>readdir\<close> gives them, \<open>None\<close> when it
  cannot be opened; \<open>files\<close> gives the contents of a path. The entry of a name of at least nine
  characters that ends in the suffix is loaded.
\<close>

fun scan_names :: "(cstr \<Rightarrow> cstr option) \<Rightarrow> cstr \<Rightarrow> cstr list \<Rightarrow> desktop_entry list" where
  "scan_names files dirpath [] = []"
| "scan_names files dirpath (n # ns) =
     (if length n < 9 \<or> drop (length n - 8) n \<noteq> ''.desktop'' then scan_names files dirpath ns
      else
        let path = dirpath @ ''/'' @ n in
        case isde_desktop_load path (files path) of
          None \<Rightarrow> scan_names files dirpath ns
        | Some e \<Rightarrow> e # scan_names files dirpath ns)"

definition isde_desktop_scan_dir ::
  "(cstr \<Rightarrow> cstr option) \<Rightarrow> cstr \<Rightarrow> cstr list option \<Rightarrow> desktop_entry list option" where
  "isde_desktop_scan_dir files dirpath names = map_option (scan_names files dirpath) names"

subsection \<open>Startup notification values\<close>

fun escape_quotes :: "cstr \<Rightarrow> cstr" where
  "escape_quotes [] = []"
| "escape_quotes (c # cs) =
     (if c = CHR 0x22 \<or> c = CHR 0x5C then CHR 0x5C # c # escape_quotes cs else c # escape_quotes cs)"

definition quote_value :: "cstr option \<Rightarrow> cstr" where
  "quote_value v =
     (case v of
        None \<Rightarrow> [CHR 0x22, CHR 0x22]
      | Some val \<Rightarrow>
          if list_ex (\<lambda>c. c = CHR '' '' \<or> c = CHR 0x22 \<or> c = CHR 0x5C) val
          then [CHR 0x22] @ escape_quotes val @ [CHR 0x22] else val)"

subsection \<open>Startup notification and launching\<close>

text \<open>
  A launch with startup notification tells the window manager of it, forks, and runs the command
  by the shell, in the terminal when the entry asks for one. What the process asks of the system is
  a list of \<open>launch_call\<close>; the host name, the process id, the clocks, the configured terminal and
  the answer of \<^verbatim>\<open>fork\<close> come from a \<open>launch_env\<close>. \<^verbatim>\<open>LSend\<close> is one client message to
  the root window, with \<open>True\<close> for the atom that begins a message; \<^verbatim>\<open>LExec\<close> is what the child
  executes. The message is written like the command, with \<^verbatim>\<open>pos += snprintf\<close> into a fixed buffer.
\<close>

datatype launch_call = LSend bool cstr | LExec "cstr list" "cstr option"

record launch_env =
  l_host :: "cstr option"
  l_pid :: nat
  l_seq :: nat
  l_ms :: nat
  l_time :: nat
  l_terminal :: "cstr option"
  l_fork :: int

definition generate_startup_id :: "launch_env \<Rightarrow> cstr" where
  "generate_startup_id env =
     (let hostname = take 63 (case l_host env of Some h \<Rightarrow> h | None \<Rightarrow> ''localhost'') in
      snprintf 256 (hostname @ ''+'' @ dec_of_nat (l_pid env) @ ''-'' @ dec_of_nat (l_seq env) @ ''-'' @
        dec_of_nat (l_ms env) @ ''_TIME'' @ dec_of_nat (l_time env)))"

definition send_startup_message :: "cstr \<Rightarrow> launch_call list" where
  "send_startup_message msg =
     (let cs = data_pieces msg in map2 LSend (True # replicate (length cs - 1) False) cs)"

definition send_startup_new :: "launch_env \<Rightarrow> cstr \<Rightarrow> desktop_entry \<Rightarrow> exec_error + launch_call list" where
  "send_startup_new env i e =
     (let msg = out_printf 1024 (''new: ID='' @ i @ '' NAME='' @ quote_value (de_name e) @ '' SCREEN=0'')
                  (Out 0 []);
          msg = (case de_exec e of None \<Rightarrow> msg
                 | Some _ \<Rightarrow> out_printf 1024 ('' BIN='' @ quote_value (de_exec e)) msg);
          msg = (case startup_wm_class e of None \<Rightarrow> msg
                 | Some _ \<Rightarrow> out_printf 1024 ('' WMCLASS='' @ quote_value (startup_wm_class e)) msg);
          msg = out_printf 1024 ('' TIMESTAMP='' @ dec_of_nat (l_time env)) msg in
      case msg of
        Overrun \<Rightarrow> Inl WriteOutsideBuffer
      | Out _ out \<Rightarrow> Inr (send_startup_message out))"

definition isde_desktop_startup_remove :: "cstr \<Rightarrow> launch_call list" where
  "isde_desktop_startup_remove i = send_startup_message (snprintf 256 (''remove: ID='' @ i))"

definition isde_desktop_get_terminal :: "launch_env \<Rightarrow> cstr" where
  "isde_desktop_get_terminal env =
     (case l_terminal env of Some t \<Rightarrow> snprintf 256 t | None \<Rightarrow> ''isde-term'')"

definition launch_cmd_with_id :: "launch_env \<Rightarrow> cstr \<Rightarrow> cstr option \<Rightarrow> int \<times> launch_call list" where
  "launch_cmd_with_id env cmd i =
     (l_fork env, if l_fork env \<ge> 0 then [LExec [''/bin/sh'', ''sh'', ''-c'', cmd] i] else [])"

definition launch_terminal_with_id :: "launch_env \<Rightarrow> cstr \<Rightarrow> cstr option \<Rightarrow> int \<times> launch_call list" where
  "launch_terminal_with_id env cmd i =
     (let term = isde_desktop_get_terminal env in
      (l_fork env, if l_fork env \<ge> 0 then [LExec [term, term, ''-e'', ''sh'', ''-c'', cmd] i] else []))"

definition launch_entry :: "launch_env \<Rightarrow> desktop_entry \<Rightarrow> cstr \<Rightarrow> cstr option \<Rightarrow> int \<times> launch_call list" where
  "launch_entry env e cmd i =
     (if de_terminal e then launch_terminal_with_id env cmd i else launch_cmd_with_id env cmd i)"

definition isde_desktop_launch ::
  "launch_env \<Rightarrow> desktop_entry option \<Rightarrow> cstr list \<Rightarrow> exec_error + int \<times> launch_call list" where
  "isde_desktop_launch env e files =
     (case isde_desktop_build_exec e files of
        None \<Rightarrow> Inr (- 1, [])
      | Some (Inl err) \<Rightarrow> Inl err
      | Some (Inr cmd) \<Rightarrow> Inr (launch_entry env (the e) cmd None))"

definition isde_desktop_launch_notify ::
  "launch_env \<Rightarrow> desktop_entry option \<Rightarrow> cstr list \<Rightarrow> bool \<Rightarrow>
     exec_error + int \<times> cstr option \<times> launch_call list" where
  "isde_desktop_launch_notify env e files dpy =
     (case isde_desktop_build_exec e files of
        None \<Rightarrow> Inr (- 1, None, [])
      | Some (Inl err) \<Rightarrow> Inl err
      | Some (Inr cmd) \<Rightarrow>
          if dpy \<and> startup_notify (the e) then
            let i = generate_startup_id env in
            case send_startup_new env i (the e) of
              Inl err \<Rightarrow> Inl err
            | Inr sent \<Rightarrow>
                (case launch_entry env (the e) cmd (Some i) of (pid, calls) \<Rightarrow>
                   if pid < 0 then Inr (pid, None, sent @ calls @ isde_desktop_startup_remove i)
                   else Inr (pid, Some i, sent @ calls))
          else case launch_entry env (the e) cmd None of (pid, calls) \<Rightarrow> Inr (pid, None, calls))"

subsection \<open>The action array is large enough\<close>

text \<open>
  The count made before the allocation is at least the number of tokens written after it. While
  the scan is inside a token that was counted already, the token it is in is not counted again.
\<close>

lemma count_slots_split:
  "n + length (filter (\<lambda>t. t \<noteq> []) (split_on (CHR '';'') s)) \<le> count_slots n p s +
     (if n = 0 \<or> p = Some (CHR '';'') \<or> hd (split_on (CHR '';'') s) = [] then 0 else 1)"
proof (induction n p s rule: count_slots.induct)
  case (2 n p c cs)
  obtain x xs where "split_on (CHR '';'') cs = x # xs"
    using split_on_nonempty by (cases "split_on (CHR '';'') cs") auto
  with 2 show ?case by (auto split: if_splits)
qed simp

lemma action_ids_fit: "length (action_ids s) \<le> count_slots 0 None s"
proof -
  have "length (action_ids s) \<le> length (strtok (CHR '';'') s)"
    unfolding action_ids_def by (metis length_filter_le length_map)
  with count_slots_split [of 0 s None] show ?thesis by (simp add: strtok_def)
qed

subsection \<open>Lists separated by semicolons\<close>

lemma list_contains_split:
  "item \<noteq> [] \<Longrightarrow> list_contains_loop p item \<longleftrightarrow> item \<in> set (split_on (CHR '';'') p)"
proof (induction p item rule: list_contains_loop.induct)
  case (1 p item)
  let ?elem = "takeWhile (\<lambda>c. c \<noteq> CHR '';'') p"
  show ?case
  proof (cases "CHR '';'' \<in> set p")
    case True
    then obtain r where p: "p = ?elem @ CHR '';'' # r"
      using split_at_first [OF True] by blast
    have "CHR '';'' \<notin> set ?elem" by (auto dest: set_takeWhileD)
    then have "split_on (CHR '';'') p = ?elem # split_on (CHR '';'') r"
      using split_on_first by (subst p) simp
    moreover have "drop (Suc (length ?elem)) p = r" by (subst (2) p) simp
    moreover have "p \<noteq> []" using True by auto
    ultimately show ?thesis using 1 True by (subst list_contains_loop.simps) (auto simp: Let_def)
  next
    case False
    then have e: "?elem = p" by (auto simp: takeWhile_eq_all_conv)
    have nil: "list_contains_loop [] item = False" by (subst list_contains_loop.simps) simp
    show ?thesis
      using False 1(2) by (subst list_contains_loop.simps) (simp add: e nil split_on_none eq_commute)
  qed
qed

end
