(* ===== verification/Desktop_Props.thy ===== *)
theory Desktop_Props
  imports Desktop
begin

section \<open>Desktop entries: what is read and what is run\<close>

text \<open>
  Key and value lines of the main group read back; the command built from an \<^verbatim>\<open>Exec\<close> line is
  its expansion when that fits, and when it does not the routine writes outside its buffer.
\<close>

subsection \<open>Reading back\<close>

definition good_key :: "cstr \<Rightarrow> bool" where
  "good_key k \<longleftrightarrow> k \<noteq> [] \<and> trimmed k \<and> hd k \<noteq> CHR ''#'' \<and> set k \<inter> {CHR ''='', CHR ''['', newline, CHR 0x00} = {}"

definition good_value :: "cstr \<Rightarrow> bool" where
  "good_value v \<longleftrightarrow> trimmed v \<and> set v \<inter> {newline, CHR 0x00} = {}"

definition good_field :: "cstr \<times> cstr \<Rightarrow> bool" where
  "good_field kv \<longleftrightarrow> good_key (fst kv) \<and> good_value (snd kv) \<and> length (fst kv) + length (snd kv) \<le> 1021"

definition print_field :: "cstr \<times> cstr \<Rightarrow> cstr" where
  "print_field kv = fst kv @ ''='' @ snd kv @ [newline]"

definition print_fields :: "(cstr \<times> cstr) list \<Rightarrow> cstr" where
  "print_fields kvs = ''[Desktop Entry]'' @ [newline] @ concat (map print_field kvs)"

lemma strip_trimmed: "trimmed s \<Longrightarrow> strip s = s"
  by (simp add: strip_def text_lines)

lemma strip_key_newline:
  assumes "good_key k" and "good_value v"
  shows "strip (k @ ''='' @ v @ [newline]) = k @ ''='' @ v"
proof -
  have k: "k \<noteq> []" "\<not> isspace (hd k)" using assms(1) by (auto simp: good_key_def trimmed_def)
  then have "strip_left (k @ ''='' @ v @ [newline]) = k @ ''='' @ v @ [newline]"
    by (cases k) (auto simp: strip_left_def)
  moreover have "strip_right ((k @ ''='' @ v) @ [newline]) = strip_right (k @ ''='' @ v)"
    by (rule strip_right_newline)
  moreover have "trimmed (k @ ''='' @ v)"
    using k assms(2) by (cases v rule: rev_cases) (auto simp: trimmed_def good_value_def isspace_def)
  ultimately show ?thesis by (simp add: strip_def text_lines)
qed

lemma read_field_line:
  assumes "good_key k" and "good_value v" and "in_desktop_entry r"
  shows "read_line (k @ ''='' @ v @ [newline]) r = r\<lparr>r_entry := set_field k v (r_entry r)\<rparr>"
proof -
  have k: "k \<noteq> []" "hd k \<noteq> CHR ''#''" "hd k \<noteq> CHR ''[''" "CHR ''='' \<notin> set k" "CHR ''['' \<notin> set k" "trimmed k"
    using assms(1) by (cases k; auto simp: good_key_def)+
  have "takeWhile (\<lambda>c. c \<noteq> CHR ''='') (k @ ''='' @ v) = k"
    using k(4) by (subst takeWhile_append2) auto
  moreover have "strip k = k" "strip v = v"
    using k(6) assms(2) by (simp_all add: strip_trimmed good_value_def)
  ultimately have "key_value (k @ ''='' @ v) r = r\<lparr>r_entry := set_field k v (r_entry r)\<rparr>"
    using k assms(3) by (simp add: key_value_def Let_def)
  then show ?thesis
    using strip_key_newline [OF assms(1,2)] k by (simp add: read_line_def Let_def hd_append)
qed

lemma read_fields:
  assumes "list_all good_field kvs" and "in_desktop_entry r"
  shows "fold read_line (read_lines 1024 (concat (map print_field kvs))) r =
    r\<lparr>r_entry := fold (\<lambda>kv. set_field (fst kv) (snd kv)) kvs (r_entry r)\<rparr>"
  using assms
proof (induction kvs arbitrary: r)
  case (Cons kv kvs)
  obtain k v where kv: "kv = (k, v)" by (cases kv)
  from Cons.prems kv have g: "good_key k" "good_value v" "length k + length v \<le> 1021"
    by (auto simp: good_field_def)
  have "read_lines 1024 ((k @ ''='' @ v) @ newline # concat (map print_field kvs)) =
      ((k @ ''='' @ v) @ [newline]) # read_lines 1024 (concat (map print_field kvs))"
    using g by (intro read_lines_whole) (auto simp: good_key_def good_value_def newline_def)
  moreover have "print_field kv = (k @ ''='' @ v) @ [newline]" by (simp add: print_field_def kv)
  ultimately show ?case
    using read_field_line [OF g(1,2) Cons.prems(2)] Cons.IH [of "r\<lparr>r_entry := set_field k v (r_entry r)\<rparr>"] Cons.prems
    by (simp add: kv)
qed simp

definition finish :: "desktop_entry \<Rightarrow> desktop_entry" where
  "finish e = (if de_actions e = None \<and> actions_str e \<noteq> None then parse_action_ids e else e)"

lemma load_fields:
  assumes "list_all good_field kvs"
  shows "isde_desktop_load path (Some (print_fields kvs)) =
    Some (finish (fold (\<lambda>kv. set_field (fst kv) (snd kv)) kvs (empty_entry (base_name path))))"
proof -
  define r0 where "r0 = \<lparr>in_desktop_entry = False, current_action_id = None, r_entry = empty_entry (base_name path)\<rparr>"
  have "read_lines 1024 (''[Desktop Entry]'' @ newline # concat (map print_field kvs)) =
      (''[Desktop Entry]'' @ [newline]) # read_lines 1024 (concat (map print_field kvs))"
    by (rule read_lines_whole) (simp_all add: newline_def)
  then have l: "read_lines 1024 (print_fields kvs) =
      (''[Desktop Entry]'' @ [newline]) # read_lines 1024 (concat (map print_field kvs))"
    by (simp only: print_fields_def append.simps)
  have "strip (''[Desktop Entry]'' @ [newline]) = ''[Desktop Entry]''" by code_simp
  then have h: "read_line (''[Desktop Entry]'' @ [newline]) r0 = r0\<lparr>in_desktop_entry := True\<rparr>"
    by (simp add: read_line_def Let_def group_header_def r0_def)
  have "fold read_line (read_lines 1024 (print_fields kvs)) r0 =
      fold read_line (read_lines 1024 (concat (map print_field kvs))) (r0\<lparr>in_desktop_entry := True\<rparr>)"
    by (simp only: l h fold.simps comp_apply)
  also have "r_entry \<dots> = fold (\<lambda>kv. set_field (fst kv) (snd kv)) kvs (empty_entry (base_name path))"
    using assms by (subst read_fields) (simp_all add: r0_def)
  finally show ?thesis
    by (simp add: isde_desktop_load_def finish_def Let_def flip: r0_def)
qed

lemma set_field_get:
  "de_exec (set_field k v e) = (if k = ''Exec'' then Some v else de_exec e)"
  "de_name (set_field k v e) = (if k = ''Name'' then Some v else de_name e)"
  "only_show_in (set_field k v e) = (if k = ''OnlyShowIn'' then Some v else only_show_in e)"
  "not_show_in (set_field k v e) = (if k = ''NotShowIn'' then Some v else not_show_in e)"
  "de_hidden (set_field k v e) = (if k = ''Hidden'' then v = ''true'' else de_hidden e)"
  "no_display (set_field k v e) = (if k = ''NoDisplay'' then v = ''true'' else no_display e)"
  by (simp_all add: set_field_def)

lemma fold_set_field:
  assumes "\<And>k v e. get (set_field k v e) = (if k = key then f v else get e)"
  shows "get (fold (\<lambda>kv. set_field (fst kv) (snd kv)) kvs e) =
    (case map_of (rev kvs) key of None \<Rightarrow> get e | Some v \<Rightarrow> f v)"
  by (induction kvs rule: rev_induct) (auto simp: assms)

lemmas fold_set_field_get = set_field_get [THEN fold_set_field]

lemma finish_get [simp]:
  "de_exec (finish e) = de_exec e" "de_name (finish e) = de_name e"
  "only_show_in (finish e) = only_show_in e" "not_show_in (finish e) = not_show_in e"
  "de_hidden (finish e) = de_hidden e" "no_display (finish e) = no_display e"
  by (auto simp: finish_def parse_action_ids_def split: option.splits)

lemma should_show_split:
  "desktop \<noteq> [] \<Longrightarrow> isde_desktop_should_show e desktop \<longleftrightarrow> \<not> de_hidden e \<and> \<not> no_display e \<and>
    (case only_show_in e of
       Some l \<Rightarrow> desktop \<in> set (split_on (CHR '';'') l)
     | None \<Rightarrow> (case not_show_in e of Some l \<Rightarrow> desktop \<notin> set (split_on (CHR '';'') l) | None \<Rightarrow> True))"
  by (simp add: isde_desktop_should_show_def list_contains_def list_contains_split split: option.split)

subsection \<open>The command built\<close>

text \<open>The text a code stands for, and the expansion of a whole \<^verbatim>\<open>Exec\<close> line.\<close>

definition code_text :: "desktop_entry \<Rightarrow> cstr list \<Rightarrow> char \<Rightarrow> cstr" where
  "code_text e files d =
     (if d \<in> {CHR ''f'', CHR ''u''} then (case files of [] \<Rightarrow> [] | f # _ \<Rightarrow> quoted f)
      else if d \<in> {CHR ''F'', CHR ''U''} then
        (case files of [] \<Rightarrow> [] | f # fs \<Rightarrow> quoted f @ concat (map (\<lambda>g. '' '' @ quoted g) fs))
      else if d = CHR ''i'' then (case de_icon e of None \<Rightarrow> [] | Some i \<Rightarrow> ''--icon '' @ quoted i)
      else if d = CHR ''c'' then (case de_name e of None \<Rightarrow> [] | Some n \<Rightarrow> quoted n)
      else if d = CHR ''%'' then ''%''
      else [])"

fun expand :: "desktop_entry \<Rightarrow> cstr list \<Rightarrow> cstr \<Rightarrow> cstr" where
  "expand e files [] = []"
| "expand e files [c] = [c]"
| "expand e files (c # d # cs) =
     (if c = CHR ''%'' then code_text e files d @ expand e files cs else c # expand e files (d # cs))"

text \<open>How many codes stand for files, and how much text the codes for icon and name add.\<close>

fun file_codes :: "cstr \<Rightarrow> nat" where
  "file_codes (c # d # cs) =
     (if c = CHR ''%'' then (if d \<in> {CHR ''f'', CHR ''u'', CHR ''F'', CHR ''U''} then 1 else 0) + file_codes cs
      else file_codes (d # cs))"
| "file_codes s = 0"

fun entry_text :: "desktop_entry \<Rightarrow> cstr \<Rightarrow> nat" where
  "entry_text e (c # d # cs) =
     (if c = CHR ''%'' then (if d \<in> {CHR ''i'', CHR ''c''} then length (code_text e [] d) else 0) + entry_text e cs
      else entry_text e (d # cs))"
| "entry_text e s = 0"

lemma out_printf_fits:
  "length out + length t < cap \<Longrightarrow>
    out_printf cap t (Out (length out) out) = Out (length (out @ t)) (out @ t)"
  by simp

lemma out_char_fits:
  "length out + 1 < cap \<Longrightarrow> out_char cap c (Out (length out) out) = Out (length (out @ [c])) (out @ [c])"
  by simp

lemmas out_buf_def = out_printf.simps out_char.simps
declare out_printf.simps(2) [simp del] out_char.simps(2) [simp del]

lemma out_files_fits:
  "length out + length (concat (map (\<lambda>g. '' '' @ quoted g) fs)) < cap \<Longrightarrow>
    out_files cap True fs (Out (length out) out) =
      Out (length (out @ concat (map (\<lambda>g. '' '' @ quoted g) fs))) (out @ concat (map (\<lambda>g. '' '' @ quoted g) fs))"
proof (induction fs arbitrary: out)
  case (Cons f fs)
  then show ?case
    using Cons.IH [of "out @ '' '' @ quoted f"] by (simp add: out_printf_fits)
qed simp

lemma out_all_files_fits:
  assumes "length out + length (quoted f @ concat (map (\<lambda>g. '' '' @ quoted g) fs)) < cap"
  shows "out_files cap False (f # fs) (Out (length out) out) =
    Out (length (out @ quoted f @ concat (map (\<lambda>g. '' '' @ quoted g) fs)))
      (out @ quoted f @ concat (map (\<lambda>g. '' '' @ quoted g) fs))"
proof -
  have "out_files cap False (f # fs) (Out (length out) out) =
      out_files cap True fs (Out (length (out @ quoted f)) (out @ quoted f))"
    using assms out_printf_fits [of out "quoted f" cap] by (simp del: length_append) simp
  also have "\<dots> = Out (length ((out @ quoted f) @ concat (map (\<lambda>g. '' '' @ quoted g) fs)))
      ((out @ quoted f) @ concat (map (\<lambda>g. '' '' @ quoted g) fs))"
    using assms by (intro out_files_fits) simp
  finally show ?thesis by simp
qed

lemma exec_code_fits:
  assumes "length out + length (code_text e files d) < cap"
  shows "exec_code cap e files d (Out (length out) out) =
    Out (length (out @ code_text e files d)) (out @ code_text e files d)"
proof -
  consider "d \<in> {CHR ''f'', CHR ''u''}" | "d \<in> {CHR ''F'', CHR ''U''}" | "d = CHR ''i''" | "d = CHR ''c''"
    | "d = CHR ''%''" | "d \<notin> {CHR ''f'', CHR ''u'', CHR ''F'', CHR ''U'', CHR ''i'', CHR ''c'', CHR ''%''}"
    by blast
  then show ?thesis
  proof cases
    case 1
    then have "exec_code cap e files d b = (if files \<noteq> [] then out_printf cap (quoted (hd files)) b else b)"
      "code_text e files d = (if files \<noteq> [] then quoted (hd files) else [])" for b
      by (auto simp: exec_code_def code_text_def split: list.split)
    with assms show ?thesis by (cases "files = []") (simp_all add: out_printf_fits)
  next
    case 2
    then have "exec_code cap e files d b = out_files cap False files b" for b
      by (auto simp: exec_code_def)
    moreover have "code_text e (f # fs) d = quoted f @ concat (map (\<lambda>g. '' '' @ quoted g) fs)" "code_text e [] d = []" for f fs
      using 2 by (auto simp: code_text_def)
    ultimately show ?thesis
      using assms by (cases files) (simp_all only: out_all_files_fits out_files.simps(1) append_Nil2)
  next
    case 3
    with assms show ?thesis
      by (cases "de_icon e") (simp_all add: exec_code_def code_text_def out_printf_fits)
  next
    case 4
    with assms show ?thesis
      by (cases "de_name e") (simp_all add: exec_code_def code_text_def out_printf_fits)
  next
    case 5
    with assms show ?thesis by (simp add: exec_code_def code_text_def out_char_fits)
  next
    case 6
    then show ?thesis by (simp add: exec_code_def code_text_def)
  qed
qed

lemma exec_loop_fits:
  "length out + length (expand e files src) < cap \<Longrightarrow>
    exec_loop cap e files src (Out (length out) out) =
      Out (length (out @ expand e files src)) (out @ expand e files src)"
proof (induction cap e files src "Out (length out) out" arbitrary: out rule: exec_loop.induct)
  case (3 cap e files c d cs)
  show ?case
  proof (cases "c = CHR ''%''")
    case True
    with 3(3) have f: "exec_code cap e files d (Out (length out) out) =
        Out (length (out @ code_text e files d)) (out @ code_text e files d)"
      by (intro exec_code_fits) simp
    show ?thesis using 3(1) [OF True f] 3(3) True by (simp add: f)
  next
    case False
    with 3(3) have f: "out_char cap c (Out (length out) out) = Out (length (out @ [c])) (out @ [c])"
      by (intro out_char_fits) simp
    show ?thesis using 3(2) [OF False f] 3(3) False by (simp add: f)
  qed
qed (simp_all add: out_char_fits)

lemma build_exec_fits:
  assumes "de_exec e = Some src" and "length (expand e files src) < exec_cap src files"
  shows "isde_desktop_build_exec (Some e) files = Some (Inr (expand e files src))"
  using assms exec_loop_fits [of "[]" e files src "exec_cap src files"]
  by (simp add: isde_desktop_build_exec_def Let_def)

lemma length_files_text:
  "length (concat (map (\<lambda>g. '' '' @ quoted g) fs)) = sum_list (map (\<lambda>f. length f + 3) fs)"
  by (induction fs) (auto simp: quoted_def)

lemma length_code_text:
  "length (code_text e files d) \<le>
    (if d \<in> {CHR ''f'', CHR ''u'', CHR ''F'', CHR ''U''} then sum_list (map (\<lambda>f. length f + 3) files)
     else if d \<in> {CHR ''i'', CHR ''c''} then length (code_text e [] d) else 1)"
  using length_files_text [of "tl files"]
  by (cases files) (auto simp: code_text_def quoted_def split: option.splits)

lemma length_expand:
  "length (expand e files src) \<le>
    length src + entry_text e src + file_codes src * sum_list (map (\<lambda>f. length f + 3) files)"
proof (induction e files src rule: expand.induct)
  case (3 e files c d cs)
  show ?case
  proof (cases "c = CHR ''%''")
    case True
    with 3(1) length_code_text [of e files d] show ?thesis
      by (auto split: if_splits)
  next
    case False
    with 3(2) show ?thesis by simp
  qed
qed simp_all

subsection \<open>Properties\<close>



text \<open>
  C35: the command built from an \<^verbatim>\<open>Exec\<close> line is the line with every code replaced by its text,
  and nothing is written outside the buffer, when at most one of its codes stands for files and
  the codes for icon and name add at most 255 bytes.
\<close>

theorem build_exec_expands:
  assumes "de_exec e = Some src" and "file_codes src \<le> 1" and "entry_text e src \<le> 255"
  shows "isde_desktop_build_exec (Some e) files = Some (Inr (expand e files src))"
proof (rule build_exec_fits [OF assms(1)])
  have "file_codes src * sum_list (map (\<lambda>f. length f + 3) files) \<le> sum_list (map (\<lambda>f. length f + 3) files)"
    using assms(2) by (cases "file_codes src") auto
  with length_expand [of e files src] assms(3)
  show "length (expand e files src) < exec_cap src files"
    unfolding exec_cap_def by linarith
qed

theorem build_exec_expands_witness:
  "isde_desktop_build_exec (Some (set_field ''Exec'' ''view %F -t %c'' (set_field ''Name'' ''My viewer'' (empty_entry ''v''))))
     [''a b'', ''c''] =
   Some (Inr (''view '' @ quoted ''a b'' @ '' '' @ quoted ''c'' @ '' -t '' @ quoted ''My viewer''))"
proof -
  let ?e = "set_field ''Exec'' ''view %F -t %c'' (set_field ''Name'' ''My viewer'' (empty_entry ''v''))"
  have "de_exec ?e = Some ''view %F -t %c''" "file_codes ''view %F -t %c'' \<le> 1"
    "entry_text ?e ''view %F -t %c'' \<le> 255"
    by code_simp+
  from build_exec_expands [OF this, of "[''a b'', ''c'']"] show ?thesis
    by (simp add: code_text_def set_field_def)
qed

text \<open>
  The buffer does not allow for the name. A file whose \<^verbatim>\<open>Exec\<close> line is \<^verbatim>\<open>%c\<close> and
  whose \<^verbatim>\<open>Name\<close> has at least 256 characters loads, and launching it writes outside the buffer.
\<close>

theorem long_name_overruns_buffer:
  assumes "good_value name" and "256 \<le> length name" and "length name \<le> 1017"
  shows "\<exists>e. isde_desktop_load path (Some (print_fields [(''Name'', name), (''Exec'', ''%c'')])) = Some e \<and>
    isde_desktop_build_exec (Some e) [] = Some (Inl WriteOutsideBuffer)"
proof -
  let ?e = "set_field ''Exec'' ''%c'' (set_field ''Name'' name (empty_entry (base_name path)))"
  have g: "list_all good_field [(''Name'', name), (''Exec'', ''%c'')]"
    using assms by (simp add: good_field_def good_key_def good_value_def trimmed_def isspace_def newline_def)
  have "de_exec ?e = Some ''%c''" "de_name ?e = Some name" by (simp_all add: set_field_get)
  moreover have "exec_cap ''%c'' [] = 258" by (simp add: exec_cap_def)
  ultimately have "isde_desktop_build_exec (Some (finish ?e)) [] = Some (Inl WriteOutsideBuffer)"
    using assms(2) by (simp add: isde_desktop_build_exec_def exec_code_def out_buf_def quoted_def Let_def)
  with load_fields [OF g, of path] show ?thesis by simp
qed

theorem long_name_overruns_buffer_witness:
  "\<exists>e. isde_desktop_load ''x.desktop'' (Some (print_fields [(''Name'', replicate 300 (CHR ''N'')), (''Exec'', ''%c'')])) = Some e \<and>
    isde_desktop_build_exec (Some e) [] = Some (Inl WriteOutsideBuffer)"
proof (rule long_name_overruns_buffer)
  show "good_value (replicate 300 (CHR ''N''))"
    by (simp add: good_value_def trimmed_def isspace_def newline_def)
qed simp_all

end
