(* ===== verification/Config.thy ===== *)
theory Config
  imports Prelude "HOL-Library.Signed_Division"
begin

section \<open>Configuration values\<close>

text \<open>
  \<^verbatim>\<open>platform/common/isde-config.c\<close> over the tables that the TOML parser, which is not part of
  the program, returns. A table is an association list in the order of the file; a table pointer
  is \<open>None\<close> when it is NULL. Integers of a file are 64 bits wide and cut to the 32 bits of a C
  \<^verbatim>\<open>int\<close> by \<open>c_int\<close>.
\<close>

datatype toml =
    TInt int
  | TStr cstr
  | TBool bool
  | TTable "(cstr \<times> toml) list"

type_synonym toml_table = "(cstr \<times> toml) list"

definition c_int :: "int \<Rightarrow> int" where
  "c_int i = sint (word_of_int i :: 32 word)"

definition isde_config_table :: "toml_table option \<Rightarrow> cstr \<Rightarrow> toml_table option" where
  "isde_config_table parent key =
     (case parent of
        None \<Rightarrow> None
      | Some t \<Rightarrow> (case map_of t key of Some (TTable u) \<Rightarrow> Some u | _ \<Rightarrow> None))"

definition isde_config_string :: "toml_table option \<Rightarrow> cstr \<Rightarrow> cstr option \<Rightarrow> cstr option" where
  "isde_config_string tbl key def =
     (case tbl of
        None \<Rightarrow> def
      | Some t \<Rightarrow> (case map_of t key of Some (TStr s) \<Rightarrow> Some s | _ \<Rightarrow> def))"

definition isde_config_int :: "toml_table option \<Rightarrow> cstr \<Rightarrow> int \<Rightarrow> int" where
  "isde_config_int tbl key def =
     (case tbl of
        None \<Rightarrow> def
      | Some t \<Rightarrow> (case map_of t key of Some (TInt i) \<Rightarrow> i | _ \<Rightarrow> def))"

definition isde_config_bool :: "toml_table option \<Rightarrow> cstr \<Rightarrow> bool \<Rightarrow> bool" where
  "isde_config_bool tbl key def =
     (case tbl of
        None \<Rightarrow> def
      | Some t \<Rightarrow> (case map_of t key of Some (TBool b) \<Rightarrow> b | _ \<Rightarrow> def))"

lemma c_int_id: "- (2 ^ 31) \<le> i \<Longrightarrow> i < 2 ^ 31 \<Longrightarrow> c_int i = i"
  unfolding c_int_def by (simp add: signed_take_bit_int_eq_self signed_of_int)

end
