(* ===== verification/Sess_State.thy ===== *)
theory Sess_State
  imports Config
begin

section \<open>isde-session: state and child processes\<close>

text \<open>
  The session's state (\<^verbatim>\<open>platform/common/session/session.h\<close>) and the start, end and restart of
  its child processes (\<^verbatim>\<open>child.c\<close>). The linked lists of children and of delayed respawns are
  lists, newest first, as the code pushes at the head. As in the daemons, a call that leaves the
  program is appended to a trace (\<open>strace\<close>), a reading of the clock included, and answered by
  an environment that sees the whole history. What \<^verbatim>\<open>waitpid\<close> reports comes as an argument, the
  list of exits that one run of its loop collects, and is logged as \<open>SExit\<close>; so is the message
  that the code prints when it gives a child up. Allocation is taken to succeed.
\<close>

subsection \<open>Data\<close>

datatype exit_status = Exited int | Signaled int

datatype signal = SIGTERM | SIGKILL

datatype scall =
    SNow
  | SFork cstr
  | SForkConfirm cstr
  | SKill int signal
  | SExit int exit_status
  | SGiveUp cstr
  | SSleep
  | SPoll int
  | SLoadConfig
  | SSystemBus
  | SDmCall cstr
  | SDpmsEnable
  | SDpmsDisable
  | SDpmsTimeouts int int int
  | SScreenSaver int
  | SQueryIdle
  | SAppearance
  | SInput
  | SBackground
  | SThemeReload
  | SPublishTheme
  | SReplyCookie "32 word"
  | SReplyEmpty
  | SReplyError cstr
  | SCloseWindow int

record senv =
  s_ret :: "scall list \<Rightarrow> int"
  s_cfg :: "scall list \<Rightarrow> toml_table option"

record sess_child =
  c_pid :: int
  c_command :: cstr
  c_respawn :: bool
  c_is_wm :: bool
  c_is_panel :: bool
  c_start_ms :: int
  c_rapid_crashes :: int

record pending_respawn =
  p_command :: cstr
  p_is_wm :: bool
  p_is_panel :: bool
  p_rapid_crashes :: int
  p_deadline_ms :: int

datatype lid_action = LID_ACTION_SUSPEND | LID_ACTION_HIBERNATE | LID_ACTION_LOCK | LID_ACTION_NOTHING

text \<open>
  The inhibitors are the used part of the two arrays of 32 places: cookie and owner. A bus
  connection or the X connection is whether it is there; \<open>sess_objects\<close> lists the object paths
  registered on the session bus, which libdbus keeps.
\<close>

record session =
  wm_command :: cstr
  panel_command :: cstr
  fm_command :: "cstr option"
  children :: "sess_child list"
  pending_respawns :: "pending_respawn list"
  autostart :: "(cstr \<times> bool) list"
  server_context :: bool
  check_deadline_ms :: int
  idle_deadline_ms :: int
  idle_suspend_sec :: int
  screen_off_sec :: int
  lid_action :: lid_action
  idle_lock_sec :: int
  confirm_pid :: int
  confirm_action :: cstr
  sess_dbus :: bool
  system_bus :: bool
  session_bus :: bool
  sess_objects :: "cstr list"
  inhibitors :: "(32 word \<times> cstr) list"
  next_cookie :: "32 word"
  reload_appearance :: bool
  reload_display :: bool
  reload_power :: bool
  reload_background :: bool
  sess_running :: bool
  strace :: "scall list"

definition slog :: "scall \<Rightarrow> session \<Rightarrow> session" where
  "slog c s = s\<lparr>strace := strace s @ [c]\<rparr>"

definition ssys :: "senv \<Rightarrow> scall \<Rightarrow> session \<Rightarrow> int \<times> session" where
  "ssys env c s = (let s = slog c s in (s_ret env (strace s), s))"

definition now_ms :: "senv \<Rightarrow> session \<Rightarrow> int \<times> session" where
  "now_ms env s = ssys env SNow s"

subsection \<open>Children\<close>

definition RAPID_CRASH_WINDOW_MS :: int where "RAPID_CRASH_WINDOW_MS = 5000"
definition MAX_RAPID_CRASHES :: int where "MAX_RAPID_CRASHES = 5"
definition BASE_RETRY_DELAY_MS :: int where "BASE_RETRY_DELAY_MS = 1000"
definition MAX_RETRY_DELAY_MS :: int where "MAX_RETRY_DELAY_MS = 60000"

text \<open>The result says whether the child was started; it is then the head of the list.\<close>

definition child_spawn :: "senv \<Rightarrow> cstr \<Rightarrow> bool \<Rightarrow> bool \<Rightarrow> session \<Rightarrow> bool \<times> session" where
  "child_spawn env command respawn is_wm s =
     (let (pid, s) = ssys env (SFork command) s in
      if pid < 0 then (False, s)
      else
        let (t, s) = now_ms env s in
        (True, s\<lparr>children := \<lparr>c_pid = pid, c_command = command, c_respawn = respawn, c_is_wm = is_wm,
           c_is_panel = False, c_start_ms = t, c_rapid_crashes = 0\<rparr> # children s\<rparr>))"

fun update_head :: "('a \<Rightarrow> 'a) \<Rightarrow> 'a list \<Rightarrow> 'a list" where
  "update_head f [] = []"
| "update_head f (x # xs) = f x # xs"

text \<open>\<open>if (nc) { ... }\<close> after a spawn: the new child, when there is one, is changed by \<open>f\<close>.\<close>

definition with_new :: "(sess_child \<Rightarrow> sess_child) \<Rightarrow> bool \<times> session \<Rightarrow> session" where
  "with_new f r = (if fst r then (snd r)\<lparr>children := update_head f (children (snd r))\<rparr> else snd r)"

definition child_find_pid :: "session \<Rightarrow> int \<Rightarrow> sess_child option" where
  "child_find_pid s pid = find (\<lambda>c. c_pid c = pid) (children s)"

text \<open>
  The child to remove is always the one \<open>child_find_pid\<close> returned for a pid, so it is named by the
  pid: the first child that has it.
\<close>

fun remove_first :: "('a \<Rightarrow> bool) \<Rightarrow> 'a list \<Rightarrow> 'a list" where
  "remove_first P [] = []"
| "remove_first P (x # xs) = (if P x then xs else x # remove_first P xs)"

definition child_remove :: "int \<Rightarrow> session \<Rightarrow> session" where
  "child_remove pid s = s\<lparr>children := remove_first (\<lambda>c. c_pid c = pid) (children s)\<rparr>"

definition retry_delay :: "int \<Rightarrow> int" where
  "retry_delay crashes =
     (let delay = BASE_RETRY_DELAY_MS * 2 ^ nat (crashes - 1) in
      if delay > MAX_RETRY_DELAY_MS then MAX_RETRY_DELAY_MS else delay)"

text \<open>A child that is to be restarted has ended: give it up, restart it later, or restart it now.\<close>

definition child_restart :: "senv \<Rightarrow> sess_child \<Rightarrow> session \<Rightarrow> session" where
  "child_restart env c s =
     (let (t, s) = now_ms env s;
          uptime = t - c_start_ms c;
          crashes = (if uptime < RAPID_CRASH_WINDOW_MS then c_rapid_crashes c + 1 else 0) in
      if crashes \<ge> MAX_RAPID_CRASHES then child_remove (c_pid c) (slog (SGiveUp (c_command c)) s)
      else if crashes > 0 then
        let (t, s) = now_ms env s;
            s = s\<lparr>pending_respawns := \<lparr>p_command = c_command c, p_is_wm = c_is_wm c, p_is_panel = c_is_panel c,
                   p_rapid_crashes = crashes, p_deadline_ms = t + retry_delay crashes\<rparr> # pending_respawns s\<rparr> in
        child_remove (c_pid c) s
      else
        with_new (\<lambda>n. n\<lparr>c_is_panel := c_is_panel c\<rparr>)
          (child_spawn env (c_command c) True (c_is_wm c) (child_remove (c_pid c) s)))"

definition reap_child :: "senv \<Rightarrow> int \<times> exit_status \<Rightarrow> session \<Rightarrow> session" where
  "reap_child env e s =
     (let s = slog (SExit (fst e) (snd e)) s in
      case child_find_pid s (fst e) of
        None \<Rightarrow> s
      | Some c \<Rightarrow>
          if c_respawn c \<and> sess_running s then child_restart env c s
          else child_remove (c_pid c) s)"

definition child_reap :: "senv \<Rightarrow> (int \<times> exit_status) list \<Rightarrow> session \<Rightarrow> session" where
  "child_reap env exits s = fold (reap_child env) exits s"

fun respawn_due :: "senv \<Rightarrow> int \<Rightarrow> pending_respawn list \<Rightarrow> session \<Rightarrow> pending_respawn list \<times> session" where
  "respawn_due env now [] s = ([], s)"
| "respawn_due env now (pr # prs) s =
     (if now < p_deadline_ms pr then
        let (rest, s) = respawn_due env now prs s in (pr # rest, s)
      else
        respawn_due env now prs
          (with_new (\<lambda>n. n\<lparr>c_is_panel := p_is_panel pr, c_rapid_crashes := p_rapid_crashes pr\<rparr>)
             (child_spawn env (p_command pr) True (p_is_wm pr) s)))"

definition child_process_pending_respawns :: "senv \<Rightarrow> session \<Rightarrow> session" where
  "child_process_pending_respawns env s =
     (let (now, s) = now_ms env s;
          (rest, s) = respawn_due env now (pending_respawns s) s in
      s\<lparr>pending_respawns := rest\<rparr>)"

definition child_next_respawn_deadline :: "session \<Rightarrow> int" where
  "child_next_respawn_deadline s =
     fold (\<lambda>pr earliest. if earliest < 0 \<or> p_deadline_ms pr < earliest then p_deadline_ms pr else earliest)
       (pending_respawns s) (-1)"

definition restart_ui_children :: "session \<Rightarrow> session" where
  "restart_ui_children s =
     fold (\<lambda>c. if c_is_wm c \<or> c_is_panel c then slog (SKill (c_pid c) SIGTERM) else id) (children s) s"

end
