(* ===== verification/Sess_Bus.thy ===== *)
theory Sess_Bus
  imports Sess_State
begin

section \<open>isde-session: inhibitors, power, confirmations\<close>

text \<open>
  The screen saver service of \<^verbatim>\<open>platform/common/session/dbus.c\<close> and the handlers of
  \<^verbatim>\<open>platform/X11/session/src/session.c\<close>: blanking, power settings, the idle timer, the
  confirmation overlay and the bus filters. A message is what libdbus's accessors return for it;
  \<^verbatim>\<open>dbus_message_get_args\<close> succeeds when the first arguments have the types asked for.
\<close>

subsection \<open>Messages\<close>

datatype bus_arg = AStr cstr | AU32 "32 word" | ABool bool

record bus_msg =
  b_signal :: bool
  b_path :: cstr
  b_iface :: "cstr option"
  b_member :: "cstr option"
  b_sender :: "cstr option"
  b_args :: "bus_arg list"

datatype handled = HANDLED | NOT_YET_HANDLED

definition is_signal :: "bus_msg \<Rightarrow> cstr \<Rightarrow> cstr \<Rightarrow> bool" where
  "is_signal m iface member \<longleftrightarrow> b_signal m \<and> b_iface m = Some iface \<and> b_member m = Some member"

definition is_method_call :: "bus_msg \<Rightarrow> cstr \<Rightarrow> cstr \<Rightarrow> bool" where
  "is_method_call m iface member \<longleftrightarrow> \<not> b_signal m \<and> b_iface m = Some iface \<and> b_member m = Some member"

definition DBUS_INTERFACE_DBUS :: cstr where "DBUS_INTERFACE_DBUS = ''org.freedesktop.DBus''"
definition SCREENSAVER_DBUS_IFACE :: cstr where "SCREENSAVER_DBUS_IFACE = ''org.freedesktop.ScreenSaver''"
definition SCREENSAVER_DBUS_PATH :: cstr where "SCREENSAVER_DBUS_PATH = ''/org/freedesktop/ScreenSaver''"
definition ISDE_SESSION_DBUS_INTERFACE :: cstr where "ISDE_SESSION_DBUS_INTERFACE = ''org.isde.Session''"
definition ISDE_SESSION_DBUS_PATH :: cstr where "ISDE_SESSION_DBUS_PATH = ''/org/isde/Session''"
definition DM_IFACE :: cstr where "DM_IFACE = ''org.isde.DisplayManager''"

lemmas bus_names = DBUS_INTERFACE_DBUS_def SCREENSAVER_DBUS_IFACE_def SCREENSAVER_DBUS_PATH_def
  ISDE_SESSION_DBUS_INTERFACE_def ISDE_SESSION_DBUS_PATH_def DM_IFACE_def

subsection \<open>Blanking and power\<close>

definition isde_dpms_set_timeouts :: "int \<Rightarrow> int \<Rightarrow> int \<Rightarrow> session \<Rightarrow> session" where
  "isde_dpms_set_timeouts standby suspend off s =
     slog (SDpmsTimeouts standby suspend off)
       (slog (if standby > 0 \<or> suspend > 0 \<or> off > 0 then SDpmsEnable else SDpmsDisable) s)"

definition update_blanking_inhibit :: "session \<Rightarrow> session" where
  "update_blanking_inhibit s =
     (if \<not> server_context s then s
      else if length (inhibitors s) > 0 then slog (SScreenSaver 0) (isde_dpms_set_timeouts 0 0 0 s)
      else slog (SScreenSaver (-1))
        (isde_dpms_set_timeouts (screen_off_sec s) (screen_off_sec s) (screen_off_sec s) s))"

definition parse_lid_action :: "cstr \<Rightarrow> lid_action" where
  "parse_lid_action a =
     (if a = ''hibernate'' then LID_ACTION_HIBERNATE
      else if a = ''lock'' then LID_ACTION_LOCK
      else if a = ''nothing'' then LID_ACTION_NOTHING
      else LID_ACTION_SUSPEND)"

definition load_isde_toml :: "senv \<Rightarrow> session \<Rightarrow> toml_table option \<times> session" where
  "load_isde_toml env s = (let s = slog SLoadConfig s in (s_cfg env (strace s), s))"

definition apply_power_settings :: "senv \<Rightarrow> session \<Rightarrow> session" where
  "apply_power_settings env s =
     (let (cfg, s) = load_isde_toml env s in
      case isde_config_table cfg ''power'' of
        None \<Rightarrow> s
      | Some tbl \<Rightarrow>
          let s = s\<lparr>screen_off_sec := c_int (isde_config_int (Some tbl) ''screen_off_sec'' 600),
                    idle_suspend_sec := c_int (isde_config_int (Some tbl) ''idle_suspend_sec'' 0),
                    lid_action := parse_lid_action (the (isde_config_string (Some tbl) ''lid_action'' (Some ''suspend'')))\<rparr> in
          if server_context s
          then isde_dpms_set_timeouts (screen_off_sec s) (screen_off_sec s) (screen_off_sec s) s
          else s)"

definition dm_dbus_call :: "senv \<Rightarrow> cstr \<Rightarrow> session \<Rightarrow> session" where
  "dm_dbus_call env method s =
     (let (r, s) = ssys env SSystemBus s in if r < 0 then s else slog (SDmCall method) s)"

text \<open>A query for the idle time that gets no reply is answered by a negative number.\<close>

definition idle_timer_fire :: "senv \<Rightarrow> session \<Rightarrow> session" where
  "idle_timer_fire env s =
     (let (t, s) = now_ms env s; s = s\<lparr>idle_deadline_ms := t + 10000\<rparr> in
      if length (inhibitors s) > 0 then s
      else if (idle_lock_sec s > 0 \<or> idle_suspend_sec s > 0) \<and> server_context s then
        let (ms, s) = ssys env SQueryIdle s in
        if ms < 0 then s
        else
          let idle_sec = ms div 1000;
              s = (if idle_lock_sec s > 0 \<and> idle_sec \<ge> idle_lock_sec s then dm_dbus_call env ''Lock'' s else s) in
          if idle_suspend_sec s > 0 \<and> idle_sec \<ge> idle_suspend_sec s then dm_dbus_call env ''Suspend'' s else s
      else s)"

subsection \<open>Screen saver inhibitors\<close>

fun cookie_index :: "32 word \<Rightarrow> (32 word \<times> cstr) list \<Rightarrow> nat option" where
  "cookie_index k [] = None"
| "cookie_index k (x # xs) = (if fst x = k then Some 0 else map_option Suc (cookie_index k xs))"

function drop_owner :: "cstr \<Rightarrow> nat \<Rightarrow> (32 word \<times> cstr) list \<Rightarrow> (32 word \<times> cstr) list" where
  "drop_owner name i xs =
     (if i < length xs then
        (if snd (xs ! i) = name then drop_owner name i (swap_remove i xs)
         else drop_owner name (i + 1) xs)
      else xs)"
  by pat_completeness auto
termination
  by (relation "measure (\<lambda>(name, i, xs). length xs - i)") auto

declare drop_owner.simps [simp del]

definition session_bus_filter :: "bus_msg \<Rightarrow> session \<Rightarrow> handled \<times> session" where
  "session_bus_filter m s =
     (NOT_YET_HANDLED,
      if is_signal m DBUS_INTERFACE_DBUS ''NameOwnerChanged'' then
        (case b_args m of
           AStr name # AStr old_owner # AStr new_owner # _ \<Rightarrow>
             if new_owner \<noteq> [] then s
             else
               let rest = drop_owner name 0 (inhibitors s);
                   removed = (length rest < length (inhibitors s));
                   s = s\<lparr>inhibitors := rest\<rparr> in
               if removed then update_blanking_inhibit s else s
         | _ \<Rightarrow> s)
      else s)"

definition screensaver_message_handler :: "bus_msg \<Rightarrow> session \<Rightarrow> handled \<times> session" where
  "screensaver_message_handler m s =
     (if is_method_call m SCREENSAVER_DBUS_IFACE ''Inhibit'' then
        (case b_args m of
           AStr app # AStr reason # _ \<Rightarrow>
             if length (inhibitors s) \<ge> 32 then (HANDLED, slog (SReplyError ''too many inhibitors'') s)
             else
               let cookie = next_cookie s + 1;
                   owner = snprintf 64 (case b_sender m of None \<Rightarrow> [] | Some n \<Rightarrow> n);
                   s = s\<lparr>next_cookie := cookie, inhibitors := inhibitors s @ [(cookie, owner)]\<rparr> in
               (HANDLED, slog (SReplyCookie cookie) (update_blanking_inhibit s))
         | _ \<Rightarrow> (NOT_YET_HANDLED, s))
      else if is_method_call m SCREENSAVER_DBUS_IFACE ''UnInhibit'' then
        (case b_args m of
           AU32 cookie # _ \<Rightarrow>
             let s = (case cookie_index cookie (inhibitors s) of
                        None \<Rightarrow> s
                      | Some i \<Rightarrow> update_blanking_inhibit (s\<lparr>inhibitors := swap_remove i (inhibitors s)\<rparr>)) in
             (HANDLED, slog SReplyEmpty s)
         | _ \<Rightarrow> (NOT_YET_HANDLED, s))
      else (NOT_YET_HANDLED, s))"

subsection \<open>Confirmation\<close>

text \<open>\<open>status\<close> is what \<^verbatim>\<open>waitpid\<close> of the overlay's pid reports, \<open>None\<close> when it reports nothing.\<close>

definition confirm_reap :: "senv \<Rightarrow> exit_status option \<Rightarrow> session \<Rightarrow> session" where
  "confirm_reap env status s =
     (if confirm_pid s \<le> 0 then s
      else case status of
        None \<Rightarrow> s
      | Some st \<Rightarrow>
          let s = (slog (SExit (confirm_pid s) st) s)\<lparr>confirm_pid := 0\<rparr>;
              act = confirm_action s;
              s = (if st = Exited 0 then
                     (if act = ''shutdown'' then dm_dbus_call env ''Shutdown'' s
                      else if act = ''reboot'' then dm_dbus_call env ''Reboot'' s
                      else if act = ''suspend'' then dm_dbus_call env ''Suspend'' s
                      else if act = ''logout'' then s\<lparr>sess_running := False\<rparr>
                      else s)
                   else s) in
          s\<lparr>confirm_action := []\<rparr>)"

definition sigchld_dispatch ::
  "senv \<Rightarrow> exit_status option \<Rightarrow> (int \<times> exit_status) list \<Rightarrow> session \<Rightarrow> session" where
  "sigchld_dispatch env status exits s = child_reap env exits (confirm_reap env status s)"

definition show_confirmation :: "senv \<Rightarrow> cstr \<Rightarrow> session \<Rightarrow> session" where
  "show_confirmation env action s =
     (if confirm_pid s > 0 then s
      else if action \<notin> {''shutdown'', ''reboot'', ''suspend'', ''logout''} then s
      else
        let s = s\<lparr>confirm_action := snprintf 16 action\<rparr>;
            (pid, s) = ssys env (SForkConfirm action) s in
        if pid < 0 then s else s\<lparr>confirm_pid := pid\<rparr>)"

definition session_command_handler :: "senv \<Rightarrow> bus_msg \<Rightarrow> session \<Rightarrow> handled \<times> session" where
  "session_command_handler env m s =
     (if is_method_call m ISDE_SESSION_DBUS_INTERFACE ''Logout'' then (HANDLED, show_confirmation env ''logout'' s)
      else if is_method_call m ISDE_SESSION_DBUS_INTERFACE ''Shutdown'' then (HANDLED, show_confirmation env ''shutdown'' s)
      else if is_method_call m ISDE_SESSION_DBUS_INTERFACE ''Reboot'' then (HANDLED, show_confirmation env ''reboot'' s)
      else if is_method_call m ISDE_SESSION_DBUS_INTERFACE ''Suspend'' then (HANDLED, show_confirmation env ''suspend'' s)
      else if is_method_call m ISDE_SESSION_DBUS_INTERFACE ''Lock'' then (HANDLED, dm_dbus_call env ''Lock'' s)
      else (NOT_YET_HANDLED, s))"

definition system_bus_filter :: "senv \<Rightarrow> bus_msg \<Rightarrow> session \<Rightarrow> handled \<times> session" where
  "system_bus_filter env m s =
     (if is_signal m DM_IFACE ''ConfirmationRequested'' then
        (HANDLED, case b_args m of AStr action # _ \<Rightarrow> show_confirmation env action s | _ \<Rightarrow> s)
      else if is_signal m DM_IFACE ''LidSwitchChanged'' then
        (HANDLED,
         case b_args m of
           ABool True # _ \<Rightarrow>
             (case lid_action s of
                LID_ACTION_SUSPEND \<Rightarrow> dm_dbus_call env ''Suspend'' s
              | LID_ACTION_HIBERNATE \<Rightarrow> dm_dbus_call env ''Suspend'' s
              | LID_ACTION_LOCK \<Rightarrow> dm_dbus_call env ''Lock'' s
              | LID_ACTION_NOTHING \<Rightarrow> s)
         | _ \<Rightarrow> s)
      else (NOT_YET_HANDLED, s))"

subsection \<open>Settings\<close>

definition on_settings_changed :: "cstr \<Rightarrow> cstr \<Rightarrow> session \<Rightarrow> session" where
  "on_settings_changed section key s =
     (let s = (if section = ''display'' \<or> section = ''*'' then s\<lparr>reload_display := True\<rparr> else s);
          s = (if section = ''appearance'' \<or> section = ''*'' then s\<lparr>reload_appearance := True\<rparr> else s);
          s = (if section = ''power'' \<or> section = ''*'' then s\<lparr>reload_power := True\<rparr> else s) in
      if section = ''desktop.background'' \<or> section = ''*'' then s\<lparr>reload_background := True\<rparr> else s)"

text \<open>
  The filter of \<^verbatim>\<open>platform/common/dbus.c\<close> on the private connection for settings; the session is
  its only subscriber.
\<close>

definition filter_func :: "bus_msg \<Rightarrow> session \<Rightarrow> handled \<times> session" where
  "filter_func m s =
     (if is_signal m ''org.isde.Settings'' ''SettingsChanged'' then
        (HANDLED, case b_args m of AStr section # AStr key # _ \<Rightarrow> on_settings_changed section key s | _ \<Rightarrow> s)
      else (NOT_YET_HANDLED, s))"

text \<open>A message on the session bus goes through the filter and then to the object of its path.\<close>

definition session_bus_message :: "senv \<Rightarrow> bus_msg \<Rightarrow> session \<Rightarrow> session" where
  "session_bus_message env m s =
     (let s = snd (session_bus_filter m s) in
      if b_path m \<notin> set (sess_objects s) then s
      else if b_path m = ISDE_SESSION_DBUS_PATH then snd (session_command_handler env m s)
      else snd (screensaver_message_handler m s))"

definition check_timer_fire :: "senv \<Rightarrow> session \<Rightarrow> session" where
  "check_timer_fire env s =
     (let (t, s) = now_ms env s;
          s = s\<lparr>check_deadline_ms := t + 500\<rparr>;
          s = (if reload_display s then restart_ui_children (slog SAppearance (s\<lparr>reload_display := False\<rparr>)) else s);
          s = (if reload_appearance s then
                 let s = slog SThemeReload (s\<lparr>reload_appearance := False\<rparr>) in
                 if server_context s then slog SPublishTheme s else s
               else s);
          s = (if reload_power s then apply_power_settings env (s\<lparr>reload_power := False\<rparr>) else s) in
      if reload_background s then slog SBackground (s\<lparr>reload_background := False\<rparr>) else s)"

end
