(* ===== verification/Xdg.thy ===== *)
theory Xdg
  imports Text_Lines
begin

section \<open>XDG directories\<close>

text \<open>
  \<^verbatim>\<open>platform/common/isde-xdg.c\<close>: the base directories, the search for a file in them, and the
  user's own directories. The file system is a record of what the code asks of it: environment
  variables, the contents of a readable file (\<open>None\<close> when \<^verbatim>\<open>access\<close> or \<^verbatim>\<open>fopen\<close> fails) and
  the names in a directory. The environment does not change, so the static buffers are no state.
\<close>

record fsys =
  fs_getenv :: "cstr \<Rightarrow> cstr option"
  fs_file :: "cstr \<Rightarrow> cstr option"
  fs_dir :: "cstr \<Rightarrow> cstr list option"

definition get_home :: "fsys \<Rightarrow> cstr" where
  "get_home fs = (case fs_getenv fs ''HOME'' of Some h \<Rightarrow> h | None \<Rightarrow> ''/tmp'')"

definition env_or :: "fsys \<Rightarrow> cstr \<Rightarrow> cstr \<Rightarrow> cstr" where
  "env_or fs var d = (case fs_getenv fs var of Some v \<Rightarrow> if v \<noteq> [] then v else d | None \<Rightarrow> d)"

definition isde_xdg_config_home :: "fsys \<Rightarrow> cstr" where
  "isde_xdg_config_home fs = env_or fs ''XDG_CONFIG_HOME'' (snprintf 512 (get_home fs @ ''/.config''))"

definition isde_xdg_data_home :: "fsys \<Rightarrow> cstr" where
  "isde_xdg_data_home fs = env_or fs ''XDG_DATA_HOME'' (snprintf 512 (get_home fs @ ''/.local/share''))"

definition isde_xdg_cache_home :: "fsys \<Rightarrow> cstr" where
  "isde_xdg_cache_home fs = env_or fs ''XDG_CACHE_HOME'' (snprintf 512 (get_home fs @ ''/.cache''))"

definition isde_xdg_config_dirs :: "fsys \<Rightarrow> cstr" where
  "isde_xdg_config_dirs fs = env_or fs ''XDG_CONFIG_DIRS'' ''/usr/local/etc/xdg:/etc/xdg''"

definition isde_xdg_data_dirs :: "fsys \<Rightarrow> cstr" where
  "isde_xdg_data_dirs fs = env_or fs ''XDG_DATA_DIRS'' ''/usr/local/share:/usr/share''"

definition isde_xdg_config_path :: "fsys \<Rightarrow> cstr \<Rightarrow> cstr" where
  "isde_xdg_config_path fs suffix = isde_xdg_config_home fs @ ''/isde/'' @ suffix"

definition isde_xdg_data_path :: "fsys \<Rightarrow> cstr \<Rightarrow> cstr" where
  "isde_xdg_data_path fs suffix = isde_xdg_data_home fs @ ''/isde/'' @ suffix"

text \<open>The directories of a colon-separated list, empty ones skipped, and the first with the file.\<close>

definition find_in_dirs :: "fsys \<Rightarrow> cstr \<Rightarrow> cstr \<Rightarrow> cstr \<Rightarrow> cstr option" where
  "find_in_dirs fs home dirs name =
     find (\<lambda>path. fs_file fs path \<noteq> None)
       (map (\<lambda>d. d @ ''/isde/'' @ name) (home # strtok (CHR '':'') dirs))"

definition isde_xdg_find_config :: "fsys \<Rightarrow> cstr \<Rightarrow> cstr option" where
  "isde_xdg_find_config fs name = find_in_dirs fs (isde_xdg_config_home fs) (isde_xdg_config_dirs fs) name"

definition isde_xdg_find_data :: "fsys \<Rightarrow> cstr \<Rightarrow> cstr option" where
  "isde_xdg_find_data fs name = find_in_dirs fs (isde_xdg_data_home fs) (isde_xdg_data_dirs fs) name"

subsection \<open>The user's directories\<close>

definition skip_blanks :: "cstr \<Rightarrow> cstr" where
  "skip_blanks s = dropWhile (\<lambda>c. c = CHR '' '' \<or> c = CHR 0x09) s"

text \<open>
  What one line of \<^verbatim>\<open>user-dirs.dirs\<close> does: \<open>None\<close> when the loop goes on, \<open>Some r\<close> when it stops
  with the result \<open>r\<close>.
\<close>

definition user_dir_line :: "cstr \<Rightarrow> cstr \<Rightarrow> cstr \<Rightarrow> cstr option option" where
  "user_dir_line home key line =
     (let p = skip_blanks line in
      if p = [] \<or> hd p = CHR ''#'' \<or> hd p = newline then None
      else if take (length key) p \<noteq> key \<or> take 1 (drop (length key) p) \<noteq> ''='' then None
      else
        let p = skip_blanks (drop (length key + 1) p) in
        if p = [] \<or> hd p \<noteq> CHR 0x22 then None
        else
          let p = tl p in
          if CHR 0x22 \<notin> set p then None
          else
            let v = takeWhile (\<lambda>c. c \<noteq> CHR 0x22) p in
            Some (if take 6 v = ''$HOME/'' then Some (home @ drop 5 v)
                  else if v = ''$HOME'' then None
                  else if take 1 v = ''/'' then Some v
                  else None))"

fun first_some :: "('a \<Rightarrow> 'b option) \<Rightarrow> 'a list \<Rightarrow> 'b option" where
  "first_some f [] = None"
| "first_some f (x # xs) = (case f x of None \<Rightarrow> first_some f xs | Some y \<Rightarrow> Some y)"

definition user_dir_defaults :: "(cstr \<times> cstr) list" where
  "user_dir_defaults =
     [(''DESKTOP'', ''/Desktop''), (''DOCUMENTS'', ''/Documents''), (''DOWNLOAD'', ''/Downloads''),
      (''MUSIC'', ''/Music''), (''PICTURES'', ''/Pictures''), (''VIDEOS'', ''/Videos''),
      (''PUBLICSHARE'', ''/Public''), (''TEMPLATES'', ''/Templates'')]"

definition isde_xdg_user_dir :: "fsys \<Rightarrow> cstr \<Rightarrow> cstr option" where
  "isde_xdg_user_dir fs name =
     (let home = get_home fs;
          path = snprintf 512 (isde_xdg_config_home fs @ ''/user-dirs.dirs'');
          key = snprintf 64 (''XDG_'' @ name @ ''_DIR'');
          result = (case fs_file fs path of
                      None \<Rightarrow> None
                    | Some text \<Rightarrow>
                        (case first_some (user_dir_line home key) (read_lines 1024 text) of
                           Some (Some r) \<Rightarrow> Some r
                         | _ \<Rightarrow> None)) in
      case result of
        Some r \<Rightarrow> Some r
      | None \<Rightarrow> map_option (\<lambda>suffix. home @ suffix) (map_of user_dir_defaults name))"

subsection \<open>The search order\<close>

text \<open>The user's own directory wins, then the first of the system directories that has the file.\<close>

lemma find_in_dirs_home:
  "fs_file fs (home @ ''/isde/'' @ name) \<noteq> None \<Longrightarrow>
    find_in_dirs fs home dirs name = Some (home @ ''/isde/'' @ name)"
  by (simp add: find_in_dirs_def)

lemma find_in_dirs_exists:
  assumes "find_in_dirs fs home dirs name = Some path"
  shows "fs_file fs path \<noteq> None"
proof -
  have "find P xs = Some x \<Longrightarrow> P x" for P and xs :: "cstr list" and x
    by (auto simp: find_Some_iff)
  from this [OF assms [unfolded find_in_dirs_def]] show ?thesis .
qed

end
