(* ===== verification/Sess_Run.thy ===== *)
theory Sess_Run
  imports Sess_Bus Desktop Xdg
begin

section \<open>isde-session: autostart, start-up, the event loop, the end\<close>

text \<open>
  \<^verbatim>\<open>platform/common/session/autostart.c\<close> and the rest of
  \<^verbatim>\<open>platform/X11/session/src/session.c\<close>. One turn of the loop takes what the poll found: the
  exits behind the wake-up byte of the signal pipe and the messages of the three buses. The signal
  handler for SIGTERM and SIGINT is a step of its own between turns.
\<close>

subsection \<open>Autostart\<close>

definition add_entry :: "cstr \<Rightarrow> bool \<Rightarrow> session \<Rightarrow> session" where
  "add_entry cmd respawn s = s\<lparr>autostart := autostart s @ [(cmd, respawn)]\<rparr>"

definition autostart_line :: "cstr \<Rightarrow> session \<Rightarrow> session" where
  "autostart_line line s =
     (let p = strip_left (strip_right line) in
      if p = [] \<or> hd p = CHR ''#'' then s
      else
        let respawn = (hd p = CHR ''@'');
            p = (if respawn then strip_left (tl p) else p) in
        if p \<noteq> [] then add_entry p respawn s else s)"

definition autostart_load :: "fsys \<Rightarrow> cstr \<Rightarrow> session \<Rightarrow> session" where
  "autostart_load fs path s =
     (case fs_file fs path of
        None \<Rightarrow> s
      | Some text \<Rightarrow> fold autostart_line (read_lines 1024 text) s)"

definition add_desktop_entry :: "desktop_entry \<Rightarrow> session \<Rightarrow> session" where
  "add_desktop_entry e s =
     (if isde_desktop_should_show e ''ISDE'' then
        (case de_exec e of None \<Rightarrow> s | Some x \<Rightarrow> add_entry x False s)
      else s)"

definition autostart_dir :: "fsys \<Rightarrow> cstr \<Rightarrow> session \<Rightarrow> session" where
  "autostart_dir fs path s =
     (case isde_desktop_scan_dir (fs_file fs) path (fs_dir fs path) of
        None \<Rightarrow> s
      | Some entries \<Rightarrow> fold add_desktop_entry entries s)"

definition autostart_load_xdg :: "fsys \<Rightarrow> session \<Rightarrow> session" where
  "autostart_load_xdg fs s =
     (let s = autostart_dir fs (snprintf 512 (isde_xdg_config_home fs @ ''/autostart'')) s in
      fold (\<lambda>d s. if length d < 500 then autostart_dir fs (snprintf 512 (d @ ''/autostart'')) s else s)
        (strtok (CHR '':'') (isde_xdg_config_dirs fs)) s)"

subsection \<open>Start-up\<close>

text \<open>What the rest of the system grants at start-up: the buses, the two names and the X server.\<close>

record boot =
  bt_dbus :: bool
  bt_system_bus :: bool
  bt_screensaver :: bool
  bt_session_name :: bool
  bt_x :: bool

definition session_zero :: session where
  "session_zero = \<lparr>wm_command = [], panel_command = [], fm_command = None, children = [],
     pending_respawns = [], autostart = [], server_context = False, check_deadline_ms = 0,
     idle_deadline_ms = 0, idle_suspend_sec = 0, screen_off_sec = 0, lid_action = LID_ACTION_SUSPEND,
     idle_lock_sec = 0, confirm_pid = 0, confirm_action = [], sess_dbus = False, system_bus = False,
     session_bus = False, sess_objects = [], inhibitors = [], next_cookie = 0,
     reload_appearance = False, reload_display = False, reload_power = False,
     reload_background = False, sess_running = False, strace = []\<rparr>"

definition init_screensaver_service :: "boot \<Rightarrow> session \<Rightarrow> session" where
  "init_screensaver_service b s =
     (if bt_screensaver b
      then s\<lparr>session_bus := True, sess_objects := [SCREENSAVER_DBUS_PATH, ''/ScreenSaver'']\<rparr> else s)"

definition init_session_command_service :: "boot \<Rightarrow> session \<Rightarrow> session" where
  "init_session_command_service b s =
     (if session_bus s \<and> bt_session_name b
      then s\<lparr>sess_objects := sess_objects s @ [ISDE_SESSION_DBUS_PATH]\<rparr> else s)"

definition session_config :: "toml_table option \<Rightarrow> session \<Rightarrow> session" where
  "session_config cfg s =
     (let sess = isde_config_table cfg ''session'';
          str = (\<lambda>key. isde_config_string sess key None) in
      s\<lparr>wm_command := (case str ''window_manager'' of Some c \<Rightarrow> c | None \<Rightarrow> ''isde-wm''),
        panel_command := (case str ''panel'' of Some c \<Rightarrow> c | None \<Rightarrow> ''isde-panel-x11''),
        fm_command := str ''file_manager'',
        idle_lock_sec := c_int (isde_config_int sess ''lock_timeout'' 0)\<rparr>)"

definition session_init :: "senv \<Rightarrow> boot \<Rightarrow> fsys \<Rightarrow> session" where
  "session_init env b fs =
     (let (cfg, s) = load_isde_toml env session_zero;
          s = session_config cfg s;
          s = (case isde_xdg_find_config fs ''autostart'' of None \<Rightarrow> s | Some path \<Rightarrow> autostart_load fs path s);
          s = autostart_load_xdg fs s;
          s = apply_power_settings env (slog SInput (slog SAppearance s));
          s = s\<lparr>sess_dbus := bt_dbus b, system_bus := bt_system_bus b\<rparr>;
          s = init_session_command_service b (init_screensaver_service b s);
          s = (if bt_x b then
                 let s = slog SPublishTheme (s\<lparr>server_context := True\<rparr>);
                     s = (if screen_off_sec s > 0
                          then isde_dpms_set_timeouts (screen_off_sec s) (screen_off_sec s) (screen_off_sec s) s
                          else s) in
                 slog SBackground s
               else s) in
      s\<lparr>sess_running := True\<rparr>)"

fun spawn_autostart :: "senv \<Rightarrow> (cstr \<times> bool) list \<Rightarrow> session \<Rightarrow> session" where
  "spawn_autostart env [] s = s"
| "spawn_autostart env ((cmd, respawn) # rest) s =
     spawn_autostart env rest (snd (child_spawn env cmd respawn False s))"

text \<open>\<open>session_run\<close> before its loop; \<open>False\<close> when the window manager could not be started.\<close>

definition session_start :: "senv \<Rightarrow> session \<Rightarrow> bool \<times> session" where
  "session_start env s =
     (let (ok, s) = child_spawn env (wm_command s) True True s in
      if \<not> ok then (False, s)
      else
        let s = slog SSleep s;
            s = with_new (\<lambda>c. c\<lparr>c_is_panel := True\<rparr>) (child_spawn env (panel_command s) True False s);
            s = spawn_autostart env (autostart s) s;
            (t, s) = now_ms env s;
            s = s\<lparr>check_deadline_ms := t + 500\<rparr> in
        if idle_lock_sec s > 0 \<or> idle_suspend_sec s > 0 then
          let (t, s) = now_ms env s in (True, s\<lparr>idle_deadline_ms := t + 10000\<rparr>)
        else (True, s))"

subsection \<open>The loop\<close>

definition next_deadline :: "session \<Rightarrow> int" where
  "next_deadline s =
     (let deadline = (if check_deadline_ms s > 0 then check_deadline_ms s else -1);
          deadline = (if idle_deadline_ms s > 0 \<and> (deadline < 0 \<or> idle_deadline_ms s < deadline)
                      then idle_deadline_ms s else deadline);
          respawn_dl = child_next_respawn_deadline s in
      if respawn_dl \<ge> 0 \<and> (deadline < 0 \<or> respawn_dl < deadline) then respawn_dl else deadline)"

definition poll_timeout :: "int \<Rightarrow> bool \<Rightarrow> session \<Rightarrow> int" where
  "poll_timeout now data_remains s =
     (if data_remains then 0
      else
        let deadline = next_deadline s in
        if deadline \<ge> 0 then (let timeout = c_int (deadline - now) in if timeout < 0 then 0 else timeout)
        else -1)"

datatype poll_result = PollReady | PollInterrupted | PollFailed

record turn_input =
  i_poll :: poll_result
  i_data_remains :: bool
  i_sigchld :: "(exit_status option \<times> (int \<times> exit_status) list) option"
  i_settings :: "bus_msg list"
  i_system :: "bus_msg list"
  i_session :: "bus_msg list"

text \<open>The work of a turn after the poll.\<close>

definition handle_ready :: "senv \<Rightarrow> turn_input \<Rightarrow> session \<Rightarrow> session" where
  "handle_ready env i s =
     (let s = (case i_sigchld i of None \<Rightarrow> s | Some (status, exits) \<Rightarrow> sigchld_dispatch env status exits s);
          s = (if sess_dbus s then fold (\<lambda>m s. snd (filter_func m s)) (i_settings i) s else s);
          s = (if system_bus s then fold (\<lambda>m s. snd (system_bus_filter env m s)) (i_system i) s else s) in
      if session_bus s then fold (session_bus_message env) (i_session i) s else s)"

definition fire_timers :: "senv \<Rightarrow> session \<Rightarrow> session" where
  "fire_timers env s =
     (let (now, s) = now_ms env s;
          s = (if check_deadline_ms s > 0 \<and> now \<ge> check_deadline_ms s then check_timer_fire env s else s);
          s = (if idle_deadline_ms s > 0 \<and> now \<ge> idle_deadline_ms s then idle_timer_fire env s else s) in
      if pending_respawns s \<noteq> [] then child_process_pending_respawns env s else s)"

text \<open>One iteration; the flag says whether the loop goes on to test \<^verbatim>\<open>running\<close> again.\<close>

definition session_turn :: "senv \<Rightarrow> turn_input \<Rightarrow> session \<Rightarrow> bool \<times> session" where
  "session_turn env i s =
     (let (now, s) = now_ms env s;
          s = slog (SPoll (poll_timeout now (i_data_remains i) s)) s in
      case i_poll i of
        PollInterrupted \<Rightarrow> (True, s)
      | PollFailed \<Rightarrow> (False, s)
      | PollReady \<Rightarrow> (True, fire_timers env (handle_ready env i s)))"

definition on_signal :: "session \<Rightarrow> session" where
  "on_signal s = s\<lparr>sess_running := False\<rparr>"

inductive session_reach :: "senv \<Rightarrow> boot \<Rightarrow> fsys \<Rightarrow> session \<Rightarrow> bool" for env b fs where
  start: "session_start env (session_init env b fs) = (True, s) \<Longrightarrow> session_reach env b fs s"
| turn: "session_reach env b fs s \<Longrightarrow> sess_running s \<Longrightarrow> session_turn env i s = (True, s') \<Longrightarrow>
    session_reach env b fs s'"
| stop: "session_reach env b fs s \<Longrightarrow> session_reach env b fs (on_signal s)"

subsection \<open>The end\<close>

text \<open>The waits of \<open>child_kill_all\<close> remove the children that have ended without restarting them.\<close>

definition reap_quietly :: "(int \<times> exit_status) list \<Rightarrow> session \<Rightarrow> session" where
  "reap_quietly exits s =
     fold (\<lambda>e s. let s = slog (SExit (fst e) (snd e)) s in
             case child_find_pid s (fst e) of None \<Rightarrow> s | Some c \<Rightarrow> child_remove (c_pid c) s) exits s"

text \<open>\<open>exits k\<close> is what the waits of round \<open>k\<close> collect, counting rounds down.\<close>

fun close_rounds :: "nat \<Rightarrow> (nat \<Rightarrow> (int \<times> exit_status) list) \<Rightarrow> session \<Rightarrow> session" where
  "close_rounds 0 exits s = s"
| "close_rounds (Suc k) exits s = close_rounds k exits (slog SSleep (reap_quietly (exits k) s))"

fun term_rounds :: "nat \<Rightarrow> (nat \<Rightarrow> (int \<times> exit_status) list) \<Rightarrow> session \<Rightarrow> session" where
  "term_rounds 0 exits s = s"
| "term_rounds (Suc k) exits s =
     (if children s = [] then s
      else
        let s = reap_quietly (exits k) s in
        if children s = [] then s else term_rounds k exits (slog SSleep s))"

text \<open>
  \<open>windows\<close> lists the managed windows, \<open>None\<close> without a working X connection; \<^verbatim>\<open>kill(0, ...)\<close> is
  logged with pid 0, and the first of them also reaches the session's own handler. \<open>Inl\<close> is the
  end by its own SIGKILL.
\<close>

definition child_kill_all ::
  "int list option \<Rightarrow> (nat \<Rightarrow> (int \<times> exit_status) list) \<Rightarrow> (nat \<Rightarrow> (int \<times> exit_status) list) \<Rightarrow>
   session \<Rightarrow> session + session" where
  "child_kill_all windows exits0 exits2 s =
     (let s = s\<lparr>children := map (\<lambda>c. c\<lparr>c_respawn := False\<rparr>) (children s), pending_respawns := []\<rparr>;
          s = (case windows of
                 Some wins \<Rightarrow>
                   if server_context s then close_rounds 60 exits0 (fold (\<lambda>w. slog (SCloseWindow w)) wins s) else s
               | None \<Rightarrow> s);
          s = on_signal (slog (SKill 0 SIGTERM) s);
          s = term_rounds 40 exits2 s in
      if children s \<noteq> [] then Inl (slog (SKill 0 SIGKILL) s) else Inr s)"

definition session_shutdown ::
  "int list option \<Rightarrow> (nat \<Rightarrow> (int \<times> exit_status) list) \<Rightarrow> (nat \<Rightarrow> (int \<times> exit_status) list) \<Rightarrow>
   session \<Rightarrow> session + session" where
  "session_shutdown windows exits0 exits2 s = child_kill_all windows exits0 exits2 (s\<lparr>sess_running := False\<rparr>)"

definition session_cleanup ::
  "int list option \<Rightarrow> (nat \<Rightarrow> (int \<times> exit_status) list) \<Rightarrow> (nat \<Rightarrow> (int \<times> exit_status) list) \<Rightarrow>
   exit_status \<Rightarrow> session \<Rightarrow> session + session" where
  "session_cleanup windows exits0 exits2 status s =
     (let s = (if confirm_pid s > 0
               then (slog (SExit (confirm_pid s) status) (slog (SKill (confirm_pid s) SIGTERM) s))\<lparr>confirm_pid := 0\<rparr>
               else s) in
      case child_kill_all windows exits0 exits2 s of
        Inl s \<Rightarrow> Inl s
      | Inr s \<Rightarrow> Inr (s\<lparr>autostart := [], sess_dbus := False, server_context := False, system_bus := False,
                   session_bus := False, sess_objects := []\<rparr>))"

end
