(* ===== verification/Sess_Inv.thy ===== *)
theory Sess_Inv
  imports Sess_Run
begin

section \<open>isde-session: what each operation keeps\<close>

text \<open>
  A calm step extends the trace by calls that neither shut down nor reboot nor start a
  confirmation, and leaves the confirmation, the running flag and the window manager's command
  alone; every operation but the two that deal with confirmations is calm (collection
  \<open>sess_calm\<close>). The process lists change only in the operations of \<^verbatim>\<open>child.c\<close> (collection
  \<open>sess_procs\<close>).
\<close>

named_theorems sess_calm "operations of the session that are calm steps"
named_theorems sess_procs "operations of the session that leave the process lists alone"

subsection \<open>Calm steps\<close>

definition quiet_call :: "scall \<Rightarrow> bool" where
  "quiet_call c \<longleftrightarrow> c \<noteq> SDmCall ''Shutdown'' \<and> c \<noteq> SDmCall ''Reboot'' \<and> (\<forall>a. c \<noteq> SForkConfirm a)"

definition conf :: "session \<Rightarrow> int \<times> cstr \<times> bool \<times> cstr" where
  "conf s = (confirm_pid s, confirm_action s, sess_running s, wm_command s)"

definition procs :: "session \<Rightarrow> sess_child list \<times> pending_respawn list" where
  "procs s = (children s, pending_respawns s)"

definition calm :: "session \<Rightarrow> session \<Rightarrow> bool" where
  "calm s s' \<longleftrightarrow> (\<exists>u. strace s' = strace s @ u \<and> list_all quiet_call u) \<and> conf s' = conf s"

lemma calm_refl [sess_calm]: "calm s s"
  by (simp add: calm_def)

lemma calm_trans: "calm a b \<Longrightarrow> calm b c \<Longrightarrow> calm a c"
  unfolding calm_def by fastforce

lemma calm_conf: "calm s s' \<Longrightarrow> conf s' = conf s"
  by (simp add: calm_def)

lemma calm_slog [sess_calm]: "quiet_call c \<Longrightarrow> calm s (slog c s)"
  by (simp add: calm_def slog_def conf_def)

lemma calm_ssys [sess_calm]: "quiet_call c \<Longrightarrow> ssys env c s = (r, s') \<Longrightarrow> calm s s'"
  by (auto simp: ssys_def Let_def intro: calm_slog)

lemma quiet_call_simps [simp]:
  "quiet_call SNow" "quiet_call (SFork c)" "quiet_call (SKill p g)" "quiet_call (SExit p st)" "quiet_call (SGiveUp c)"
  "quiet_call SSleep" "quiet_call (SPoll n)" "quiet_call SLoadConfig" "quiet_call SSystemBus" "quiet_call SDpmsEnable"
  "quiet_call SDpmsDisable" "quiet_call (SDpmsTimeouts i j k)" "quiet_call (SScreenSaver i)" "quiet_call SQueryIdle"
  "quiet_call SAppearance" "quiet_call SInput" "quiet_call SBackground" "quiet_call SThemeReload" "quiet_call SPublishTheme"
  "quiet_call (SReplyCookie w)" "quiet_call SReplyEmpty" "quiet_call (SReplyError e)"
  "\<not> quiet_call (SForkConfirm a)"
  "quiet_call (SDmCall m) \<longleftrightarrow> m \<noteq> ''Shutdown'' \<and> m \<noteq> ''Reboot''"
  by (auto simp: quiet_call_def)

lemma slog_fields [simp]:
  "children (slog c s) = children s" "pending_respawns (slog c s) = pending_respawns s" "conf (slog c s) = conf s"
  "procs (slog c s) = procs s" "inhibitors (slog c s) = inhibitors s" "server_context (slog c s) = server_context s"
  "strace (slog c s) = strace s @ [c]" "sess_running (slog c s) = sess_running s" "confirm_pid (slog c s) = confirm_pid s"
  "confirm_action (slog c s) = confirm_action s" "next_cookie (slog c s) = next_cookie s" "wm_command (slog c s) = wm_command s"
  "sess_objects (slog c s) = sess_objects s" "screen_off_sec (slog c s) = screen_off_sec s"
  by (simp_all add: slog_def conf_def procs_def)

text \<open>A change of other fields than those of \<open>conf\<close>, before or after a calm step, is calm.\<close>

lemma calm_eqI: "strace s' = strace s \<Longrightarrow> conf s' = conf s \<Longrightarrow> calm s s'"
  by (simp add: calm_def)

lemma calm_fields [simp]:
  "calm a (b\<lparr>children := x0\<rparr>) = calm a b" "calm a (b\<lparr>pending_respawns := x1\<rparr>) = calm a b"
  "calm a (b\<lparr>autostart := x2\<rparr>) = calm a b" "calm a (b\<lparr>server_context := x3\<rparr>) = calm a b"
  "calm a (b\<lparr>check_deadline_ms := x4\<rparr>) = calm a b" "calm a (b\<lparr>idle_deadline_ms := x5\<rparr>) = calm a b"
  "calm a (b\<lparr>idle_suspend_sec := x6\<rparr>) = calm a b" "calm a (b\<lparr>screen_off_sec := x7\<rparr>) = calm a b"
  "calm a (b\<lparr>lid_action := x8\<rparr>) = calm a b" "calm a (b\<lparr>idle_lock_sec := x9\<rparr>) = calm a b"
  "calm a (b\<lparr>inhibitors := x10\<rparr>) = calm a b" "calm a (b\<lparr>next_cookie := x11\<rparr>) = calm a b"
  "calm a (b\<lparr>reload_appearance := x12\<rparr>) = calm a b" "calm a (b\<lparr>reload_display := x13\<rparr>) = calm a b"
  "calm a (b\<lparr>reload_power := x14\<rparr>) = calm a b" "calm a (b\<lparr>reload_background := x15\<rparr>) = calm a b"
  by (simp_all add: calm_def conf_def)

lemma procs_fields [simp]:
  "procs (b\<lparr>autostart := x0\<rparr>) = procs b" "procs (b\<lparr>server_context := x1\<rparr>) = procs b"
  "procs (b\<lparr>check_deadline_ms := x2\<rparr>) = procs b" "procs (b\<lparr>idle_deadline_ms := x3\<rparr>) = procs b"
  "procs (b\<lparr>idle_suspend_sec := x4\<rparr>) = procs b" "procs (b\<lparr>screen_off_sec := x5\<rparr>) = procs b"
  "procs (b\<lparr>lid_action := x6\<rparr>) = procs b" "procs (b\<lparr>idle_lock_sec := x7\<rparr>) = procs b"
  "procs (b\<lparr>inhibitors := x8\<rparr>) = procs b" "procs (b\<lparr>next_cookie := x9\<rparr>) = procs b"
  "procs (b\<lparr>reload_appearance := x10\<rparr>) = procs b" "procs (b\<lparr>reload_display := x11\<rparr>) = procs b"
  "procs (b\<lparr>reload_power := x12\<rparr>) = procs b" "procs (b\<lparr>reload_background := x13\<rparr>) = procs b"
  "procs (b\<lparr>confirm_pid := x14\<rparr>) = procs b" "procs (b\<lparr>confirm_action := x15\<rparr>) = procs b"
  "procs (b\<lparr>sess_running := x16\<rparr>) = procs b"
  by (simp_all add: procs_def)

lemma now_ms_eq: "now_ms env s = (s_ret env (strace s @ [SNow]), slog SNow s)"
  by (simp add: now_ms_def ssys_def Let_def)

lemma ssys_eq: "ssys env c s = (s_ret env (strace s @ [c]), slog c s)"
  by (simp add: ssys_def Let_def)

lemma load_isde_toml_eq: "load_isde_toml env s = (s_cfg env (strace s @ [SLoadConfig]), slog SLoadConfig s)"
  by (simp add: load_isde_toml_def Let_def)

lemmas sess_call_eqs = now_ms_eq ssys_eq load_isde_toml_eq

lemma calm_then: "calm a b \<Longrightarrow> strace c = strace b \<Longrightarrow> conf c = conf b \<Longrightarrow> calm a c"
  by (metis calm_eqI calm_trans)

lemma calm_then_slog: "calm a b \<Longrightarrow> quiet_call c \<Longrightarrow> calm a (slog c b)"
  by (metis calm_slog calm_trans)

subsection \<open>Bus and timer operations\<close>

lemma calm_dpms [sess_calm]: "calm s (isde_dpms_set_timeouts a b c s)"
  unfolding isde_dpms_set_timeouts_def by (simp add: calm_then_slog calm_slog)

lemma procs_dpms [sess_procs]: "procs (isde_dpms_set_timeouts a b c s) = procs s"
  by (simp add: isde_dpms_set_timeouts_def)

lemma calm_update_blanking [sess_calm]: "calm s (update_blanking_inhibit s)"
  by (simp add: update_blanking_inhibit_def calm_refl calm_then_slog calm_dpms)

lemma procs_update_blanking [sess_procs]: "procs (update_blanking_inhibit s) = procs s"
  by (simp add: update_blanking_inhibit_def procs_dpms)

lemma calm_dm_call [sess_calm]: "m \<noteq> ''Shutdown'' \<Longrightarrow> m \<noteq> ''Reboot'' \<Longrightarrow> calm s (dm_dbus_call env m s)"
  by (simp add: dm_dbus_call_def ssys_eq calm_slog calm_then_slog)

lemma procs_dm_call [sess_procs]: "procs (dm_dbus_call env m s) = procs s"
  by (simp add: dm_dbus_call_def ssys_eq)

lemma calm_power [sess_calm]: "calm s (apply_power_settings env s)"
proof (cases "isde_config_table (s_cfg env (strace s @ [SLoadConfig])) ''power''")
  case None
  then show ?thesis by (simp add: apply_power_settings_def load_isde_toml_eq calm_slog)
next
  case (Some t)
  define s1 where "s1 = (slog SLoadConfig s)\<lparr>screen_off_sec := c_int (isde_config_int (Some t) ''screen_off_sec'' 600),
     idle_suspend_sec := c_int (isde_config_int (Some t) ''idle_suspend_sec'' 0),
     lid_action := parse_lid_action (the (isde_config_string (Some t) ''lid_action'' (Some ''suspend'')))\<rparr>"
  have "calm s s1" by (rule calm_then [OF calm_slog [of SLoadConfig]]) (simp_all add: s1_def conf_def)
  moreover have "calm s1 (apply_power_settings env s)"
    using Some by (simp add: apply_power_settings_def load_isde_toml_eq Let_def calm_refl calm_dpms flip: s1_def)
  ultimately show ?thesis by (rule calm_trans)
qed

lemma procs_power [sess_procs]: "procs (apply_power_settings env s) = procs s"
  by (simp add: apply_power_settings_def load_isde_toml_eq Let_def isde_dpms_set_timeouts_def procs_def slog_def split: option.split)

lemma calm_idle [sess_calm]: "calm s (idle_timer_fire env s)"
proof -
  define s1 where "s1 = (slog SNow s)\<lparr>idle_deadline_ms := s_ret env (strace s @ [SNow]) + 10000\<rparr>"
  define s2 where "s2 = slog SQueryIdle s1"
  define lock where "lock = (\<lambda>s. dm_dbus_call env ''Lock'' s)"
  have 1: "calm s s1" by (simp add: s1_def calm_slog)
  have 2: "calm s s2" using 1 by (simp add: s2_def calm_then_slog)
  have 3: "calm s (lock s2)" using 2 calm_dm_call [of "''Lock''"] by (auto simp: lock_def intro: calm_trans)
  have 4: "calm s x \<Longrightarrow> calm s (dm_dbus_call env ''Suspend'' x)" for x
    using calm_dm_call [of "''Suspend''"] by (auto intro: calm_trans)
  show ?thesis
    using 1 2 3 4
    by (simp add: idle_timer_fire_def now_ms_eq ssys_eq Let_def flip: s1_def s2_def lock_def)
qed

lemma procs_idle [sess_procs]: "procs (idle_timer_fire env s) = procs s"
  by (simp add: idle_timer_fire_def now_ms_eq ssys_eq Let_def procs_dm_call)

lemma calm_bus_filter [sess_calm]: "calm s (snd (session_bus_filter m s))"
  by (auto simp: session_bus_filter_def Let_def calm_refl split: list.split bus_arg.split
      intro: calm_trans [OF _ calm_update_blanking])

lemma procs_bus_filter [sess_procs]: "procs (snd (session_bus_filter m s)) = procs s"
  by (auto simp: session_bus_filter_def Let_def procs_update_blanking split: list.split bus_arg.split)

lemma calm_screensaver [sess_calm]: "calm s (snd (screensaver_message_handler m s))"
  by (auto simp: screensaver_message_handler_def Let_def calm_refl calm_slog split: list.split bus_arg.split option.split
      intro!: calm_then_slog intro: calm_trans [OF _ calm_update_blanking])

lemma procs_screensaver [sess_procs]: "procs (snd (screensaver_message_handler m s)) = procs s"
  by (auto simp: screensaver_message_handler_def Let_def procs_update_blanking split: list.split bus_arg.split option.split)

lemma calm_settings [sess_calm]: "calm s (snd (filter_func m s))"
  by (auto simp: filter_func_def on_settings_changed_def Let_def calm_refl split: list.split bus_arg.split)

lemma procs_settings [sess_procs]: "procs (snd (filter_func m s)) = procs s"
  by (auto simp: filter_func_def on_settings_changed_def Let_def split: list.split bus_arg.split)

text \<open>Folding a step that is calm, or leaves the lists alone, over any list of messages.\<close>

lemma calm_fold: "(\<And>x s. calm s (f x s)) \<Longrightarrow> calm s (fold f xs s)"
proof (induction xs arbitrary: s)
  case (Cons x xs)
  have "calm (f x s) (fold f xs (f x s))" using Cons by blast
  moreover have "calm s (f x s)" by (rule Cons.prems)
  ultimately show ?case by (auto intro: calm_trans)
qed (simp add: calm_refl)

lemma procs_fold: "(\<And>x s. procs (f x s) = procs s) \<Longrightarrow> procs (fold f xs s) = procs s"
  by (induction xs arbitrary: s) auto

lemma calm_restart_ui [sess_calm]: "calm s (restart_ui_children s)"
  unfolding restart_ui_children_def by (rule calm_fold) (simp add: calm_refl calm_slog)

lemma procs_restart_ui [sess_procs]: "procs (restart_ui_children s) = procs s"
  unfolding restart_ui_children_def by (rule procs_fold) simp

subsection \<open>Children\<close>

lemma calm_spawn [sess_calm]: "calm s (snd (child_spawn env c r w s))"
  by (simp add: child_spawn_def ssys_eq now_ms_eq calm_slog calm_then_slog)

lemma calm_with_new: "calm s (snd r) \<Longrightarrow> calm s (with_new f r)"
  by (simp add: with_new_def)

lemma calm_remove [sess_calm]: "calm s (child_remove p s)"
  by (simp add: child_remove_def calm_refl)

lemma calm_child_restart [sess_calm]: "calm s (child_restart env c s)"
proof -
  have 1: "calm s (child_remove p (slog SNow s))" for p
    by (simp add: child_remove_def calm_slog)
  have "calm s (with_new f (child_spawn env cmd r w (child_remove p (slog SNow s))))" for f cmd r w p
    using 1 calm_spawn by (intro calm_with_new) (rule calm_trans)
  then show ?thesis
    by (auto simp: child_restart_def now_ms_eq Let_def child_remove_def calm_slog calm_then_slog)
qed

lemma calm_reap_child [sess_calm]: "calm s (reap_child env e s)"
  by (auto simp: reap_child_def Let_def calm_slog split: option.split
      intro: calm_trans [OF calm_slog calm_child_restart] calm_trans [OF calm_slog calm_remove])

lemma calm_reap [sess_calm]: "calm s (child_reap env exits s)"
  unfolding child_reap_def by (rule calm_fold) (rule calm_reap_child)

lemma calm_respawn_due [sess_calm]: "calm s (snd (respawn_due env now prs s))"
proof (induction env now prs s rule: respawn_due.induct)
  case (2 env now pr prs s)
  then show ?case
    by (auto simp: Let_def split: prod.split intro: calm_trans [OF calm_with_new [OF calm_spawn]])
qed (simp add: calm_refl)

lemma calm_process_pending [sess_calm]: "calm s (child_process_pending_respawns env s)"
  using calm_trans [OF calm_slog [of SNow s] calm_respawn_due]
  by (simp add: child_process_pending_respawns_def now_ms_eq Let_def split: prod.split) (metis snd_conv)

subsection \<open>Timers and the turn\<close>

lemma calm_check_timer [sess_calm]: "calm s (check_timer_fire env s)"
proof -
  define s1 where "s1 = (slog SNow s)\<lparr>check_deadline_ms := s_ret env (strace s @ [SNow]) + 500\<rparr>"
  define s2 where "s2 = (if reload_display s1 then restart_ui_children (slog SAppearance (s1\<lparr>reload_display := False\<rparr>)) else s1)"
  define s3 where "s3 = (if reload_appearance s2 then
      let s = slog SThemeReload (s2\<lparr>reload_appearance := False\<rparr>) in if server_context s then slog SPublishTheme s else s
    else s2)"
  define s4 where "s4 = (if reload_power s3 then apply_power_settings env (s3\<lparr>reload_power := False\<rparr>) else s3)"
  have "calm s s1" by (simp add: s1_def calm_slog)
  then have "calm s s2" by (auto simp: s2_def intro!: calm_trans [OF _ calm_restart_ui] calm_then_slog)
  then have "calm s s3" by (auto simp: s3_def Let_def intro!: calm_then_slog)
  then have "calm s s4" by (auto simp: s4_def intro!: calm_trans [OF _ calm_power])
  moreover have "check_timer_fire env s = (if reload_background s4 then slog SBackground (s4\<lparr>reload_background := False\<rparr>) else s4)"
    by (simp only: check_timer_fire_def now_ms_eq Let_def prod.case s1_def s2_def s3_def s4_def)
  ultimately show ?thesis by (simp add: calm_then_slog)
qed

lemma procs_check_timer [sess_procs]: "procs (check_timer_fire env s) = procs s"
  by (simp add: check_timer_fire_def now_ms_eq Let_def procs_power procs_restart_ui)

lemma calm_fire_timers [sess_calm]: "calm s (fire_timers env s)"
proof -
  define s1 where "s1 = slog SNow s"
  define now where "now = s_ret env (strace s @ [SNow])"
  define s2 where "s2 = (if check_deadline_ms s1 > 0 \<and> now \<ge> check_deadline_ms s1 then check_timer_fire env s1 else s1)"
  define s3 where "s3 = (if idle_deadline_ms s2 > 0 \<and> now \<ge> idle_deadline_ms s2 then idle_timer_fire env s2 else s2)"
  have "calm s s1" by (simp add: s1_def calm_slog)
  then have "calm s s2" by (auto simp: s2_def intro: calm_trans [OF _ calm_check_timer])
  then have "calm s s3" by (auto simp: s3_def intro: calm_trans [OF _ calm_idle])
  moreover have "fire_timers env s = (if pending_respawns s3 \<noteq> [] then child_process_pending_respawns env s3 else s3)"
    by (simp only: fire_timers_def now_ms_eq Let_def prod.case s1_def now_def s2_def s3_def)
  ultimately show ?thesis by (auto intro: calm_trans [OF _ calm_process_pending])
qed

subsection \<open>Confirmations\<close>

text \<open>
  \<open>asked\<close>: the confirmation process with this pid was started for this action. \<open>confirmed\<close>: such
  a process then exited with status 0. \<open>shutdowns_ok\<close>: each shutdown and each reboot was confirmed
  before.
\<close>

definition asked :: "senv \<Rightarrow> scall list \<Rightarrow> cstr \<Rightarrow> int \<Rightarrow> bool" where
  "asked env t act p \<longleftrightarrow> (\<exists>k<length t. t ! k = SForkConfirm act \<and> s_ret env (take (Suc k) t) = p)"

definition confirmed :: "senv \<Rightarrow> scall list \<Rightarrow> cstr \<Rightarrow> bool" where
  "confirmed env t act \<longleftrightarrow> (\<exists>j<length t. \<exists>p. t ! j = SExit p (Exited 0) \<and> asked env (take j t) act p)"

definition shutdowns_ok :: "senv \<Rightarrow> scall list \<Rightarrow> bool" where
  "shutdowns_ok env t \<longleftrightarrow> (\<forall>i<length t.
     (t ! i = SDmCall ''Shutdown'' \<longrightarrow> confirmed env (take i t) ''shutdown'') \<and>
     (t ! i = SDmCall ''Reboot'' \<longrightarrow> confirmed env (take i t) ''reboot''))"

definition conf_inv :: "senv \<Rightarrow> session \<Rightarrow> bool" where
  "conf_inv env s \<longleftrightarrow> shutdowns_ok env (strace s) \<and>
     (confirm_pid s > 0 \<longrightarrow> asked env (strace s) (confirm_action s) (confirm_pid s))"

lemma asked_append: "asked env t act p \<Longrightarrow> asked env (t @ u) act p"
  by (auto simp: asked_def nth_append intro: trans_less_add1)

lemma confirmed_append:
  assumes "confirmed env t act"
  shows "confirmed env (t @ u) act"
proof -
  from assms obtain j p where "j < length t" "t ! j = SExit p (Exited 0)" "asked env (take j t) act p"
    by (auto simp: confirmed_def)
  then show ?thesis
    unfolding confirmed_def by (intro exI [of _ j] conjI exI [of _ p]) (simp_all add: nth_append)
qed

lemma confirmed_exit: "asked env t act p \<Longrightarrow> confirmed env (t @ [SExit p (Exited 0)]) act"
  unfolding confirmed_def by (intro exI [of _ "length t"] conjI exI [of _ p]) simp_all

lemma shutdowns_ok_snoc:
  "shutdowns_ok env (t @ [c]) \<longleftrightarrow> shutdowns_ok env t \<and>
    (c = SDmCall ''Shutdown'' \<longrightarrow> confirmed env t ''shutdown'') \<and> (c = SDmCall ''Reboot'' \<longrightarrow> confirmed env t ''reboot'')"
  unfolding shutdowns_ok_def by (auto simp: nth_append less_Suc_eq)

lemma shutdowns_ok_quiet: "list_all quiet_call u \<Longrightarrow> shutdowns_ok env t \<Longrightarrow> shutdowns_ok env (t @ u)"
proof (induction u rule: rev_induct)
  case (snoc c u)
  then show ?case
    using shutdowns_ok_snoc [of env "t @ u" c] by (auto simp: quiet_call_def)
qed simp

lemma conf_inv_calm:
  assumes "calm s s'" and "conf_inv env s"
  shows "conf_inv env s'"
proof -
  from assms(1) obtain u where u: "strace s' = strace s @ u" "list_all quiet_call u"
    and c: "conf s' = conf s" by (auto simp: calm_def)
  from c have "confirm_pid s' = confirm_pid s" "confirm_action s' = confirm_action s" by (simp_all add: conf_def)
  with assms(2) u show ?thesis by (simp add: conf_inv_def shutdowns_ok_quiet asked_append)
qed

end
