(* ===== verification/Sess_Wm.thy ===== *)
theory Sess_Wm
  imports Sess_Inv
begin

section \<open>isde-session: confirmations and the window manager over whole turns\<close>

text \<open>
  The invariants of the reachable states: what was confirmed before the machine is shut down or
  rebooted, the crash counters, and that the window manager is running or waiting to be started
  again unless the session gave it up.
\<close>

subsection \<open>Confirmations\<close>

lemma conf_inv_show:
  assumes "conf_inv env s"
  shows "conf_inv env (show_confirmation env act s)"
proof (cases "confirm_pid s > 0 \<or> act \<notin> {''shutdown'', ''reboot'', ''suspend'', ''logout''}")
  case True
  then show ?thesis using assms by (auto simp: show_confirmation_def)
next
  case False
  define s1 where "s1 = (slog (SForkConfirm act) s)\<lparr>confirm_action := act\<rparr>"
  define pid where "pid = s_ret env (strace s @ [SForkConfirm act])"
  from False have "length act \<le> 8" by auto
  then have "snprintf 16 act = act" by (simp add: snprintf_def)
  with False have "show_confirmation env act s = (if pid < 0 then s1 else s1\<lparr>confirm_pid := pid\<rparr>)"
    by (simp add: show_confirmation_def ssys_eq Let_def s1_def pid_def slog_def)
  moreover have "asked env (strace s1) act pid"
    unfolding asked_def by (intro exI [of _ "length (strace s)"]) (simp add: s1_def pid_def)
  moreover have "shutdowns_ok env (strace s1)" "\<not> confirm_pid s1 > 0" "confirm_action s1 = act"
    using assms False by (auto simp: s1_def conf_inv_def shutdowns_ok_snoc)
  ultimately show ?thesis by (simp add: conf_inv_def)
qed

lemma conf_inv_dm_call:
  assumes "shutdowns_ok env (strace s)" and "m = ''Shutdown'' \<Longrightarrow> confirmed env (strace s) ''shutdown''"
    and "m = ''Reboot'' \<Longrightarrow> confirmed env (strace s) ''reboot''"
  shows "shutdowns_ok env (strace (dm_dbus_call env m s))"
proof -
  have "shutdowns_ok env (strace s @ [SSystemBus])" using assms(1) by (simp add: shutdowns_ok_snoc)
  moreover have "shutdowns_ok env ((strace s @ [SSystemBus]) @ [SDmCall m])"
    unfolding shutdowns_ok_snoc [of env "strace s @ [SSystemBus]"]
    using calculation assms(2,3) confirmed_append by auto
  ultimately show ?thesis by (simp add: dm_dbus_call_def ssys_eq)
qed

lemma conf_inv_reap:
  assumes "conf_inv env s"
  shows "conf_inv env (confirm_reap env st s)"
proof (cases "confirm_pid s \<le> 0 \<or> st = None")
  case True
  then show ?thesis using assms by (auto simp: confirm_reap_def)
next
  case False
  then obtain e where e: "st = Some e" "confirm_pid s > 0" by auto
  define s1 where "s1 = (slog (SExit (confirm_pid s) e) s)\<lparr>confirm_pid := 0\<rparr>"
  have p1: "shutdowns_ok env (strace s1)"
    using assms by (simp add: s1_def conf_inv_def shutdowns_ok_snoc)
  have c1: "e = Exited 0 \<Longrightarrow> confirmed env (strace s1) (confirm_action s)"
    using assms e(2) confirmed_exit by (auto simp: s1_def conf_inv_def)
  have pid: "confirm_pid (dm_dbus_call env m s1) = 0" for m
    by (simp add: dm_dbus_call_def ssys_eq s1_def)
  have p2: "shutdowns_ok env (strace (dm_dbus_call env m s1))" if "e = Exited 0"
    "(m, confirm_action s) \<in> {(''Shutdown'', ''shutdown''), (''Reboot'', ''reboot''), (''Suspend'', ''suspend'')}" for m
    using that c1 p1 by (intro conf_inv_dm_call) auto
  have s1: "confirm_action s1 = confirm_action s" "confirm_pid s1 = 0" by (simp_all add: s1_def)
  show ?thesis
    using e p1 p2 pid s1 by (simp add: confirm_reap_def Let_def conf_inv_def flip: s1_def)
qed

lemma conf_inv_fold: "(\<And>x s. conf_inv env s \<Longrightarrow> conf_inv env (f x s)) \<Longrightarrow> conf_inv env s \<Longrightarrow> conf_inv env (fold f xs s)"
  by (induction xs arbitrary: s) auto

lemma conf_inv_command: "conf_inv env s \<Longrightarrow> conf_inv env (snd (session_command_handler env m s))"
  by (simp add: session_command_handler_def conf_inv_show conf_inv_calm [OF calm_dm_call])

lemma conf_inv_system: "conf_inv env s \<Longrightarrow> conf_inv env (snd (system_bus_filter env m s))"
  by (auto simp: system_bus_filter_def conf_inv_show conf_inv_calm [OF calm_dm_call]
      split: list.split bus_arg.split lid_action.split bool.split)

lemma conf_inv_session_msg: "conf_inv env s \<Longrightarrow> conf_inv env (session_bus_message env m s)"
  by (simp add: session_bus_message_def Let_def conf_inv_command conf_inv_calm [OF calm_bus_filter]
      conf_inv_calm [OF calm_screensaver])

lemma conf_inv_ready: "conf_inv env s \<Longrightarrow> conf_inv env (handle_ready env i s)"
proof -
  assume s: "conf_inv env s"
  define s1 where "s1 = (case i_sigchld i of None \<Rightarrow> s | Some (status, exits) \<Rightarrow> sigchld_dispatch env status exits s)"
  define s2 where "s2 = (if sess_dbus s1 then fold (\<lambda>m s. snd (filter_func m s)) (i_settings i) s1 else s1)"
  define s3 where "s3 = (if system_bus s2 then fold (\<lambda>m s. snd (system_bus_filter env m s)) (i_system i) s2 else s2)"
  have "conf_inv env s1"
    using s by (auto simp: s1_def sigchld_dispatch_def conf_inv_calm [OF calm_reap] conf_inv_reap split: option.split)
  then have "conf_inv env s2"
    using conf_inv_calm [OF calm_fold [where f = "\<lambda>m s. snd (filter_func m s)"]] calm_settings by (auto simp: s2_def)
  then have "conf_inv env s3" by (auto simp: s3_def intro!: conf_inv_fold conf_inv_system)
  moreover have "handle_ready env i s = (if session_bus s3 then fold (session_bus_message env) (i_session i) s3 else s3)"
    by (simp only: handle_ready_def Let_def s1_def s2_def s3_def)
  ultimately show ?thesis by (auto intro: conf_inv_fold conf_inv_session_msg)
qed

lemma conf_inv_turn: "conf_inv env s \<Longrightarrow> session_turn env i s = (b, s') \<Longrightarrow> conf_inv env s'"
proof -
  assume s: "conf_inv env s" and t: "session_turn env i s = (b, s')"
  define s1 where "s1 = slog (SPoll (poll_timeout (s_ret env (strace s @ [SNow])) (i_data_remains i) (slog SNow s))) (slog SNow s)"
  have "conf_inv env s1" unfolding s1_def by (rule conf_inv_calm [OF calm_then_slog [OF calm_slog] s]) simp_all
  moreover from this have "conf_inv env (fire_timers env (handle_ready env i s1))"
    by (rule conf_inv_calm [OF calm_fire_timers conf_inv_ready])
  ultimately show ?thesis
    using t by (cases "i_poll i") (auto simp: session_turn_def now_ms_eq Let_def simp flip: s1_def)
qed

subsection \<open>The process lists\<close>

text \<open>
  Every crash counter is below the limit, a delayed respawn has at least one crash, and what is
  marked as the window manager runs its command and is respawned.
\<close>

definition child_ok :: "cstr \<Rightarrow> sess_child \<Rightarrow> bool" where
  "child_ok wm c \<longleftrightarrow> 0 \<le> c_rapid_crashes c \<and> c_rapid_crashes c < MAX_RAPID_CRASHES \<and>
     (c_is_wm c \<longrightarrow> c_command c = wm \<and> c_respawn c)"

definition pending_ok :: "cstr \<Rightarrow> pending_respawn \<Rightarrow> bool" where
  "pending_ok wm p \<longleftrightarrow> 0 < p_rapid_crashes p \<and> p_rapid_crashes p < MAX_RAPID_CRASHES \<and> (p_is_wm p \<longrightarrow> p_command p = wm)"

definition procs_ok :: "session \<Rightarrow> bool" where
  "procs_ok s \<longleftrightarrow> list_all (child_ok (wm_command s)) (children s) \<and> list_all (pending_ok (wm_command s)) (pending_respawns s)"

definition wm_alive :: "session \<Rightarrow> bool" where
  "wm_alive s \<longleftrightarrow> list_ex c_is_wm (children s) \<or> list_ex p_is_wm (pending_respawns s)"

definition wm_kept :: "session \<Rightarrow> bool" where
  "wm_kept s \<longleftrightarrow> procs_ok s \<and> (sess_running s \<longrightarrow> wm_alive s \<or> SGiveUp (wm_command s) \<in> set (strace s))"

definition fork_ok :: "senv \<Rightarrow> bool" where
  "fork_ok env \<longleftrightarrow> (\<forall>t cmd. s_ret env (t @ [SFork cmd]) \<ge> 0)"

lemma wm_kept_calm:
  assumes "calm s s'" and "procs s' = procs s" and "wm_kept s"
  shows "wm_kept s'"
proof -
  from assms(2) have "children s' = children s" "pending_respawns s' = pending_respawns s" by (simp_all add: procs_def)
  moreover from assms(1) have "wm_command s' = wm_command s" "sess_running s' = sess_running s"
    "set (strace s) \<subseteq> set (strace s')"
    by (auto simp: calm_def conf_def)
  ultimately show ?thesis using assms(3) by (auto simp: wm_kept_def procs_ok_def wm_alive_def)
qed

text \<open>A successful spawn puts the new child at the head.\<close>

definition new_child :: "int \<Rightarrow> cstr \<Rightarrow> bool \<Rightarrow> bool \<Rightarrow> int \<Rightarrow> sess_child" where
  "new_child pid cmd r w t = \<lparr>c_pid = pid, c_command = cmd, c_respawn = r, c_is_wm = w, c_is_panel = False,
     c_start_ms = t, c_rapid_crashes = 0\<rparr>"

lemma spawn_eq:
  assumes "fork_ok env"
  shows "child_spawn env cmd r w s = (True, (slog SNow (slog (SFork cmd) s))\<lparr>children :=
    new_child (s_ret env (strace s @ [SFork cmd])) cmd r w (s_ret env (strace s @ [SFork cmd, SNow])) # children s\<rparr>)"
  using assms [unfolded fork_ok_def, rule_format, of "strace s" cmd]
  by (simp add: child_spawn_def ssys_eq now_ms_eq new_child_def)

lemma find_split:
  "find P xs = Some c \<Longrightarrow> \<exists>ys zs. xs = ys @ c # zs \<and> remove_first P xs = ys @ zs \<and> P c"
proof (induction xs)
  case (Cons x xs)
  then show ?case
  proof (cases "P x")
    case True
    with Cons.prems show ?thesis by (intro exI [of _ "[]"] exI [of _ xs]) auto
  next
    case False
    with Cons obtain ys zs where "xs = ys @ c # zs" "remove_first P xs = ys @ zs" "P c" by auto
    with False show ?thesis by (intro exI [of _ "x # ys"] exI [of _ zs]) auto
  qed
qed simp

text \<open>What the exit of a child that is to be respawned does, for each count of rapid crashes.\<close>

lemma child_restart_cases:
  assumes "fork_ok env" and "child_find_pid s (c_pid c) = Some c"
  obtains ys zs where "children s = ys @ c # zs"
    and "children (child_restart env c s) = ys @ zs \<and>
           pending_respawns (child_restart env c s) = pending_respawns s \<and>
           SGiveUp (c_command c) \<in> set (strace (child_restart env c s)) \<and> c_rapid_crashes c + 1 \<ge> MAX_RAPID_CRASHES \<or>
         (\<exists>t. children (child_restart env c s) = ys @ zs \<and>
           pending_respawns (child_restart env c s) = \<lparr>p_command = c_command c, p_is_wm = c_is_wm c,
             p_is_panel = c_is_panel c, p_rapid_crashes = c_rapid_crashes c + 1,
             p_deadline_ms = t + retry_delay (c_rapid_crashes c + 1)\<rparr> # pending_respawns s \<and>
           0 < c_rapid_crashes c + 1 \<and> c_rapid_crashes c + 1 < MAX_RAPID_CRASHES) \<or>
         (\<exists>pid t. children (child_restart env c s) =
             (new_child pid (c_command c) True (c_is_wm c) t)\<lparr>c_is_panel := c_is_panel c\<rparr> # ys @ zs \<and>
           pending_respawns (child_restart env c s) = pending_respawns s)"
proof -
  from find_split [OF assms(2) [unfolded child_find_pid_def]] obtain ys zs
    where split: "children s = ys @ c # zs" "remove_first (\<lambda>x. c_pid x = c_pid c) (children s) = ys @ zs" by auto
  show ?thesis
    by (rule that [OF split(1)])
      (auto simp: child_restart_def now_ms_eq Let_def child_remove_def split(2) with_new_def spawn_eq [OF assms(1)]
        MAX_RAPID_CRASHES_def)
qed

lemma wm_kept_restart:
  assumes "fork_ok env" and "wm_kept s" and "child_find_pid s (c_pid c) = Some c" and "c_respawn c"
  shows "wm_kept (child_restart env c s)"
proof -
  let ?s' = "child_restart env c s"
  have calm: "calm s ?s'" by (rule calm_child_restart)
  then have eq: "wm_command ?s' = wm_command s" "sess_running ?s' = sess_running s" "set (strace s) \<subseteq> set (strace ?s')"
    by (auto simp: calm_def conf_def)
  obtain ys zs where c: "children s = ys @ c # zs"
    and cases: "children ?s' = ys @ zs \<and> pending_respawns ?s' = pending_respawns s \<and>
           SGiveUp (c_command c) \<in> set (strace ?s') \<and> c_rapid_crashes c + 1 \<ge> MAX_RAPID_CRASHES \<or>
         (\<exists>t. children ?s' = ys @ zs \<and>
           pending_respawns ?s' = \<lparr>p_command = c_command c, p_is_wm = c_is_wm c,
             p_is_panel = c_is_panel c, p_rapid_crashes = c_rapid_crashes c + 1,
             p_deadline_ms = t + retry_delay (c_rapid_crashes c + 1)\<rparr> # pending_respawns s \<and>
           0 < c_rapid_crashes c + 1 \<and> c_rapid_crashes c + 1 < MAX_RAPID_CRASHES) \<or>
         (\<exists>pid t. children ?s' = (new_child pid (c_command c) True (c_is_wm c) t)\<lparr>c_is_panel := c_is_panel c\<rparr> # ys @ zs \<and>
           pending_respawns ?s' = pending_respawns s)"
    by (rule child_restart_cases [OF assms(1,3)])
  have "child_ok (wm_command s) c" using assms(2) c by (simp add: wm_kept_def procs_ok_def)
  then have cmd: "c_is_wm c \<Longrightarrow> c_command c = wm_command s" by (simp add: child_ok_def)
  have ok: "procs_ok s" and al: "sess_running s \<Longrightarrow> wm_alive s \<or> SGiveUp (wm_command s) \<in> set (strace s)"
    using assms(2) by (auto simp: wm_kept_def)
  from cases have "procs_ok ?s'"
    using ok c cmd by (auto simp: procs_ok_def eq(1) child_ok_def pending_ok_def new_child_def MAX_RAPID_CRASHES_def)
  moreover from cases have "wm_alive s \<Longrightarrow> wm_alive ?s' \<or> SGiveUp (wm_command s) \<in> set (strace ?s')"
    using c cmd by (auto simp: wm_alive_def new_child_def)
  ultimately show ?thesis using al eq by (auto simp: wm_kept_def)
qed

text \<open>Operations that leave the process lists alone and do not start the session again.\<close>

lemma wm_kept_frame:
  assumes "procs s' = procs s" and "wm_command s' = wm_command s" and "sess_running s' \<longrightarrow> sess_running s"
    and "set (strace s) \<subseteq> set (strace s')" and "wm_kept s"
  shows "wm_kept s'"
  using assms by (auto simp: wm_kept_def procs_ok_def wm_alive_def procs_def)

lemma wm_kept_reap_child:
  assumes "fork_ok env" and "wm_kept s"
  shows "wm_kept (reap_child env e s)"
proof -
  define s1 where "s1 = slog (SExit (fst e) (snd e)) s"
  have k1: "wm_kept s1" unfolding s1_def by (rule wm_kept_frame [OF _ _ _ _ assms(2)]) auto
  show ?thesis
  proof (cases "child_find_pid s1 (fst e)")
    case None
    with k1 show ?thesis by (simp add: reap_child_def flip: s1_def)
  next
    case (Some c)
    from find_split [OF Some [unfolded child_find_pid_def]] obtain ys zs where
      c: "children s1 = ys @ c # zs" "remove_first (\<lambda>x. c_pid x = c_pid c) (children s1) = ys @ zs" "c_pid c = fst e"
      by auto
    show ?thesis
    proof (cases "c_respawn c \<and> sess_running s1")
      case True
      with Some c(3) wm_kept_restart [OF assms(1) k1, of c] show ?thesis
        by (simp add: reap_child_def flip: s1_def)
    next
      case False
      have "procs_ok (child_remove (c_pid c) s1)"
        using k1 c by (simp add: wm_kept_def procs_ok_def child_remove_def)
      moreover have "wm_alive s1 \<Longrightarrow> sess_running s1 \<Longrightarrow> wm_alive (child_remove (c_pid c) s1)"
        using False k1 c by (auto simp: wm_kept_def procs_ok_def child_ok_def wm_alive_def child_remove_def)
      ultimately have "wm_kept (child_remove (c_pid c) s1)"
        using k1 by (auto simp: wm_kept_def child_remove_def)
      with Some False show ?thesis by (auto simp: reap_child_def simp flip: s1_def)
    qed
  qed
qed

lemma wm_kept_fold: "(\<And>x s. wm_kept s \<Longrightarrow> wm_kept (f x s)) \<Longrightarrow> wm_kept s \<Longrightarrow> wm_kept (fold f xs s)"
  by (induction xs arbitrary: s) auto

lemma wm_kept_reap: "fork_ok env \<Longrightarrow> wm_kept s \<Longrightarrow> wm_kept (child_reap env exits s)"
  unfolding child_reap_def by (rule wm_kept_fold) (rule wm_kept_reap_child)

lemma respawn_due_ok:
  assumes "fork_ok env" and "list_all (child_ok wm) (children s)" and "list_all (pending_ok wm) prs"
    and "respawn_due env now prs s = (rest, s')"
  shows "list_all (child_ok wm) (children s') \<and> list_all (pending_ok wm) rest \<and>
    (list_ex c_is_wm (children s) \<or> list_ex p_is_wm prs \<longrightarrow> list_ex c_is_wm (children s') \<or> list_ex p_is_wm rest)"
  using assms(2-)
proof (induction prs arbitrary: s rest)
  case (Cons pr prs)
  show ?case
  proof (cases "now < p_deadline_ms pr")
    case True
    with Cons.prems obtain r where "respawn_due env now prs s = (r, s')" "rest = pr # r"
      by (auto simp: Let_def split: prod.splits)
    with Cons.IH [of s r] Cons.prems show ?thesis by auto
  next
    case False
    define s1 where "s1 = with_new (\<lambda>n. n\<lparr>c_is_panel := p_is_panel pr, c_rapid_crashes := p_rapid_crashes pr\<rparr>)
      (child_spawn env (p_command pr) True (p_is_wm pr) s)"
    have "\<exists>c. children s1 = c # children s \<and> child_ok wm c \<and> c_is_wm c = p_is_wm pr"
      using Cons.prems(2) by (simp add: s1_def with_new_def spawn_eq [OF assms(1)] new_child_def child_ok_def pending_ok_def)
    then obtain c where "children s1 = c # children s" "child_ok wm c" "c_is_wm c = p_is_wm pr" by blast
    with Cons.IH [of s1 rest] Cons.prems False show ?thesis by (auto simp flip: s1_def)
  qed
qed simp

lemma wm_kept_process_pending:
  assumes "fork_ok env" and "wm_kept s"
  shows "wm_kept (child_process_pending_respawns env s)"
proof -
  define s1 where "s1 = slog SNow s"
  obtain rest s2 where r: "respawn_due env (s_ret env (strace s @ [SNow])) (pending_respawns s1) s1 = (rest, s2)"
    by (cases "respawn_due env (s_ret env (strace s @ [SNow])) (pending_respawns s1) s1")
  have eq: "child_process_pending_respawns env s = s2\<lparr>pending_respawns := rest\<rparr>"
    using r by (simp add: child_process_pending_respawns_def now_ms_eq flip: s1_def)
  from calm_process_pending [of s env] have "wm_command s2 = wm_command s" "sess_running s2 = sess_running s"
    "set (strace s) \<subseteq> set (strace s2)" by (auto simp: calm_def conf_def eq)
  moreover have "list_all (child_ok (wm_command s)) (children s2) \<and> list_all (pending_ok (wm_command s)) rest \<and>
    (list_ex c_is_wm (children s) \<or> list_ex p_is_wm (pending_respawns s) \<longrightarrow> list_ex c_is_wm (children s2) \<or> list_ex p_is_wm rest)"
    using respawn_due_ok [OF assms(1) _ _ r, of "wm_command s"] assms(2) by (simp add: s1_def wm_kept_def procs_ok_def)
  ultimately show ?thesis using assms(2) by (auto simp: eq wm_kept_def procs_ok_def wm_alive_def)
qed

subsection \<open>Over a turn\<close>

lemma dm_call_fields [simp]:
  "wm_command (dm_dbus_call env m s) = wm_command s" "sess_running (dm_dbus_call env m s) = sess_running s"
  "set (strace s) \<subseteq> set (strace (dm_dbus_call env m s))" "procs (dm_dbus_call env m s) = procs s"
  by (auto simp: dm_dbus_call_def ssys_eq)

lemma wm_kept_confirm_reap: "wm_kept s \<Longrightarrow> wm_kept (confirm_reap env st s)"
proof (rule wm_kept_frame)
  define s1 where "s1 e = (slog (SExit (confirm_pid s) e) s)\<lparr>confirm_pid := 0\<rparr>" for e
  have f: "procs (s1 e) = procs s" "wm_command (s1 e) = wm_command s" "sess_running (s1 e) = sess_running s"
    "set (strace s) \<subseteq> set (strace (s1 e))" for e
    by (auto simp: s1_def)
  have g: "set (strace s) \<subseteq> set (strace (dm_dbus_call env m (s1 e)))" for m e
    using f(4) dm_call_fields(3) by blast
  show "procs (confirm_reap env st s) = procs s" "wm_command (confirm_reap env st s) = wm_command s"
    "sess_running (confirm_reap env st s) \<longrightarrow> sess_running s" "set (strace s) \<subseteq> set (strace (confirm_reap env st s))"
    using f g by (auto simp: confirm_reap_def Let_def split: option.split simp flip: s1_def)
qed

lemma wm_kept_show: "wm_kept s \<Longrightarrow> wm_kept (show_confirmation env a s)"
  by (rule wm_kept_frame) (auto simp: show_confirmation_def ssys_eq Let_def slog_def procs_def)

lemma wm_kept_dm_call: "wm_kept s \<Longrightarrow> wm_kept (dm_dbus_call env m s)"
  by (rule wm_kept_frame) auto

lemma wm_kept_system: "wm_kept s \<Longrightarrow> wm_kept (snd (system_bus_filter env m s))"
  by (auto simp: system_bus_filter_def wm_kept_show wm_kept_dm_call
      split: list.split bus_arg.split lid_action.split bool.split)

lemma wm_kept_session_msg: "wm_kept s \<Longrightarrow> wm_kept (session_bus_message env m s)"
  by (simp add: session_bus_message_def Let_def session_command_handler_def wm_kept_show wm_kept_dm_call
      wm_kept_calm [OF calm_bus_filter procs_bus_filter] wm_kept_calm [OF calm_screensaver procs_screensaver])

lemma wm_kept_turn:
  assumes "fork_ok env" and "wm_kept s" and "session_turn env i s = (b, s')"
  shows "wm_kept s'"
proof -
  define s0 where "s0 = slog (SPoll (poll_timeout (s_ret env (strace s @ [SNow])) (i_data_remains i) (slog SNow s))) (slog SNow s)"
  define s1 where "s1 = (case i_sigchld i of None \<Rightarrow> s0 | Some (status, exits) \<Rightarrow> sigchld_dispatch env status exits s0)"
  define s2 where "s2 = (if sess_dbus s1 then fold (\<lambda>m s. snd (filter_func m s)) (i_settings i) s1 else s1)"
  define s3 where "s3 = (if system_bus s2 then fold (\<lambda>m s. snd (system_bus_filter env m s)) (i_system i) s2 else s2)"
  define s4 where "s4 = slog SNow (handle_ready env i s0)"
  define s5 where "s5 = (if check_deadline_ms s4 > 0 \<and> s_ret env (strace s4) \<ge> check_deadline_ms s4 then check_timer_fire env s4 else s4)"
  define s6 where "s6 = (if idle_deadline_ms s5 > 0 \<and> s_ret env (strace s4) \<ge> idle_deadline_ms s5 then idle_timer_fire env s5 else s5)"
  have k0: "wm_kept s0" unfolding s0_def by (rule wm_kept_frame [OF _ _ _ _ assms(2)]) auto
  then have "wm_kept s1"
    by (auto simp: s1_def sigchld_dispatch_def wm_kept_reap [OF assms(1)] wm_kept_confirm_reap split: option.split)
  then have "wm_kept s2" by (auto simp: s2_def intro!: wm_kept_fold wm_kept_calm [OF calm_settings procs_settings])
  then have "wm_kept s3" by (auto simp: s3_def intro!: wm_kept_fold wm_kept_system)
  moreover have "handle_ready env i s0 = (if session_bus s3 then fold (session_bus_message env) (i_session i) s3 else s3)"
    by (simp only: handle_ready_def Let_def s1_def s2_def s3_def)
  ultimately have "wm_kept (handle_ready env i s0)" by (auto intro: wm_kept_fold wm_kept_session_msg)
  then have "wm_kept s4" unfolding s4_def by (rule wm_kept_frame [rotated 4]) auto
  then have "wm_kept s5" by (auto simp: s5_def intro: wm_kept_calm [OF calm_check_timer procs_check_timer])
  then have k6: "wm_kept s6" by (auto simp: s6_def intro: wm_kept_calm [OF calm_idle procs_idle])
  have "fire_timers env (handle_ready env i s0) = (if pending_respawns s6 \<noteq> [] then child_process_pending_respawns env s6 else s6)"
    by (simp only: fire_timers_def now_ms_eq Let_def prod.case s4_def s5_def s6_def slog_fields)
  with k6 have "wm_kept (fire_timers env (handle_ready env i s0))"
    using wm_kept_process_pending [OF assms(1)] by simp
  with k0 assms(3) show ?thesis
    by (cases "i_poll i") (auto simp: session_turn_def now_ms_eq Let_def simp flip: s0_def)
qed

subsection \<open>At the start\<close>

lemma calm_autostart_line: "calm s (autostart_line l s) \<and> procs (autostart_line l s) = procs s"
  by (auto simp: autostart_line_def add_entry_def Let_def calm_refl)

lemma calm_desktop_entry: "calm s (add_desktop_entry e s) \<and> procs (add_desktop_entry e s) = procs s"
  by (auto simp: add_desktop_entry_def add_entry_def calm_refl split: option.split)

lemma calm_autostart_dir: "calm s (autostart_dir fs p s) \<and> procs (autostart_dir fs p s) = procs s"
  using calm_fold [of add_desktop_entry] procs_fold [of add_desktop_entry] calm_desktop_entry
  by (auto simp: autostart_dir_def calm_refl split: option.split)

lemma calm_autostart_load: "calm s (autostart_load fs p s) \<and> procs (autostart_load fs p s) = procs s"
  using calm_fold [of autostart_line] procs_fold [of autostart_line] calm_autostart_line
  by (auto simp: autostart_load_def calm_refl split: option.split)

lemma calm_autostart_xdg: "calm s (autostart_load_xdg fs s) \<and> procs (autostart_load_xdg fs s) = procs s"
proof -
  let ?f = "\<lambda>d s. if length d < 500 then autostart_dir fs (snprintf 512 (d @ ''/autostart'')) s else s"
  have f: "calm s (fold ?f ds s)" "procs (fold ?f ds s) = procs s" for ds s
    using calm_autostart_dir calm_refl by (auto intro!: calm_fold procs_fold)
  have d: "calm s (autostart_dir fs p s)" "procs (autostart_dir fs p s) = procs s" for p
    using calm_autostart_dir by blast+
  show ?thesis
    unfolding autostart_load_xdg_def Let_def using calm_trans [OF d(1) f(1)] f(2) d(2) by simp
qed

text \<open>Before the first process is started the lists are empty and nothing was confirmed.\<close>

lemma session_init_start:
  "conf_inv env (session_init env b fs) \<and> procs (session_init env b fs) = ([], [])"
proof -
  define P where "P s \<longleftrightarrow> conf_inv env s \<and> procs s = ([], [])" for s
  have Pc: "P s \<Longrightarrow> calm s s' \<and> procs s' = procs s \<Longrightarrow> P s'" for s s' by (auto simp: P_def intro: conf_inv_calm)
  have Pe: "P s \<Longrightarrow> strace s' = strace s \<Longrightarrow> confirm_pid s' = confirm_pid s \<Longrightarrow> confirm_action s' = confirm_action s \<Longrightarrow>
    procs s' = procs s \<Longrightarrow> P s'" for s s' by (simp add: P_def conf_inv_def)
  have Pl: "P s \<Longrightarrow> quiet_call c \<Longrightarrow> P (slog c s)" for s c by (erule Pc) (simp add: calm_slog)
  have Pd: "P s \<Longrightarrow> P (isde_dpms_set_timeouts i j k s)" for s i j k
    by (erule Pc) (simp add: calm_dpms procs_dpms)
  define cfg where "cfg = s_cfg env (strace session_zero @ [SLoadConfig])"
  define s1 where "s1 = session_config cfg (slog SLoadConfig session_zero)"
  define s2 where "s2 = (case isde_xdg_find_config fs ''autostart'' of None \<Rightarrow> s1 | Some path \<Rightarrow> autostart_load fs path s1)"
  define s3 where "s3 = autostart_load_xdg fs s2"
  define s4 where "s4 = apply_power_settings env (slog SInput (slog SAppearance s3))"
  define s5 where "s5 = s4\<lparr>sess_dbus := bt_dbus b, system_bus := bt_system_bus b\<rparr>"
  define s6 where "s6 = init_session_command_service b (init_screensaver_service b s5)"
  define s7 where "s7 = (if bt_x b then
       let s = slog SPublishTheme (s6\<lparr>server_context := True\<rparr>);
           s = (if screen_off_sec s > 0
                then isde_dpms_set_timeouts (screen_off_sec s) (screen_off_sec s) (screen_off_sec s) s else s) in
       slog SBackground s else s6)"
  have "P session_zero" by (simp add: P_def conf_inv_def shutdowns_ok_def session_zero_def procs_def)
  then have "P (slog SLoadConfig session_zero)" by (rule Pl) simp
  then have "P s1" unfolding s1_def by (rule Pe) (simp_all add: session_config_def Let_def procs_def)
  then have "P s2" using Pc calm_autostart_load by (auto simp: s2_def split: option.split)
  then have "P s3" unfolding s3_def using Pc calm_autostart_xdg by blast
  then have "P (slog SInput (slog SAppearance s3))" by (simp add: Pl)
  then have "P s4" unfolding s4_def by (rule Pc) (simp only: calm_power procs_power simp_thms)
  then have "P s5" unfolding s5_def by (rule Pe) (simp_all add: procs_def)
  then have "P s6" unfolding s6_def
    by (rule Pe) (simp_all add: init_session_command_service_def init_screensaver_service_def procs_def)
  then have "P (s6\<lparr>server_context := True\<rparr>)" by (rule Pe) simp_all
  with \<open>P s6\<close> have "P s7" by (simp add: s7_def Let_def Pl Pd)
  then have "P (s7\<lparr>sess_running := True\<rparr>)" by (rule Pe) simp_all
  moreover have "session_init env b fs = s7\<lparr>sess_running := True\<rparr>"
    by (simp only: session_init_def load_isde_toml_eq prod.case Let_def cfg_def s1_def s2_def s3_def s4_def s5_def s6_def s7_def)
  ultimately show ?thesis by (simp add: P_def)
qed

lemma spawn_autostart_keeps:
  assumes "fork_ok env" and "procs_ok s" and "wm_alive s"
  shows "calm s (spawn_autostart env es s) \<and> procs_ok (spawn_autostart env es s) \<and> wm_alive (spawn_autostart env es s)"
  using assms(2-)
proof (induction es arbitrary: s)
  case (Cons e es)
  obtain cmd r where e: "e = (cmd, r)" by (cases e)
  let ?s = "snd (child_spawn env cmd r False s)"
  have "procs_ok ?s \<and> wm_alive ?s"
    using Cons.prems
    by (simp add: spawn_eq [OF assms(1)] procs_ok_def wm_alive_def child_ok_def new_child_def MAX_RAPID_CRASHES_def)
  with Cons.IH [of ?s] e show ?case by (auto intro: calm_trans [OF calm_spawn])
qed (simp add: calm_refl)

lemma first_processes_ok:
  assumes "procs s = ([], [])" and "session_start env s = (True, s')"
  shows "calm s s'" and "fork_ok env \<Longrightarrow> procs_ok s' \<and> wm_alive s'"
proof -
  obtain ok s1 where sp: "child_spawn env (wm_command s) True True s = (ok, s1)"
    by (cases "child_spawn env (wm_command s) True True s")
  with assms(2) have ok: "ok" by (cases ok) (auto simp: session_start_def)
  define s2 where "s2 = slog SSleep s1"
  define s3 where "s3 = with_new (\<lambda>c. c\<lparr>c_is_panel := True\<rparr>) (child_spawn env (panel_command s2) True False s2)"
  define s4 where "s4 = spawn_autostart env (autostart s3) s3"
  have s': "calm s4 s' \<and> procs s' = procs s4"
    using assms(2) ok sp
    by (auto simp: session_start_def now_ms_eq Let_def calm_slog calm_then_slog split: if_splits
        simp flip: s2_def s3_def s4_def)
  have c1: "calm s s1" using calm_spawn [of s env "wm_command s" True True] sp by simp
  have c3: "calm s2 s3" unfolding s3_def by (rule calm_with_new) (rule calm_spawn)
  have sa: "calm x (spawn_autostart env es x)" for es x
    by (induction env es x rule: spawn_autostart.induct) (auto simp: calm_refl intro: calm_trans [OF calm_spawn])
  have "calm s s2" using c1 by (simp add: s2_def calm_then_slog)
  then have "calm s s4" using c3 sa [of s3] unfolding s4_def by (blast intro: calm_trans)
  then show "calm s s'" using s' by (blast intro: calm_trans)
  assume f: "fork_ok env"
  have e1: "children s = []" "pending_respawns s = []" using assms(1) by (simp_all add: procs_def)
  have "procs_ok s3 \<and> wm_alive s3"
    using sp e1 by (auto simp: s3_def s2_def with_new_def spawn_eq [OF f] procs_ok_def wm_alive_def child_ok_def
        new_child_def MAX_RAPID_CRASHES_def)
  then have "procs_ok s4 \<and> wm_alive s4" unfolding s4_def using spawn_autostart_keeps [OF f] by blast
  then show "procs_ok s' \<and> wm_alive s'"
    using s' calm_conf [of s4 s'] by (auto simp: procs_ok_def wm_alive_def procs_def conf_def)
qed

subsection \<open>Reachable states\<close>

lemma reach_conf_inv: "session_reach env b fs s \<Longrightarrow> conf_inv env s"
proof (induction rule: session_reach.induct)
  case (start s)
  show ?case
    using conf_inv_calm [OF first_processes_ok(1) [OF _ start]] session_init_start by blast
next
  case (turn s i s')
  then show ?case using conf_inv_turn by blast
next
  case (stop s)
  then show ?case by (simp add: conf_inv_def on_signal_def)
qed

lemma reach_wm_kept: "session_reach env b fs s \<Longrightarrow> fork_ok env \<Longrightarrow> wm_kept s"
proof (induction rule: session_reach.induct)
  case (start s)
  then show ?case
    using first_processes_ok(2) [OF _ start(1)] session_init_start by (auto simp: wm_kept_def)
next
  case (turn s i s')
  then show ?case using wm_kept_turn by blast
next
  case (stop s)
  then show ?case by (intro wm_kept_frame [OF _ _ _ _ stop(2)]) (auto simp: on_signal_def)
qed

end
