(* ===== verification/Sess_Inhibit.thy ===== *)
theory Sess_Inhibit
  imports Sess_Inv
begin

section \<open>isde-session: the inhibitors as a map from cookies to owners\<close>

text \<open>
  The contract of the screen saver service: who holds which cookie is a finite map; \<^verbatim>\<open>Inhibit\<close> adds
  a cookie nobody holds, \<^verbatim>\<open>UnInhibit\<close> removes one, and the end of a client removes all of its own.
  The two arrays with their counter, where removal moves the last place into the hole, implement
  it as long as the 32-bit counter of cookies has not run out.
\<close>

locale inhibitor_table =
  fixes held :: "'s \<Rightarrow> 'k \<Rightarrow> cstr option"
    and inhibit :: "cstr \<Rightarrow> 's \<Rightarrow> 's"
    and fresh :: "'s \<Rightarrow> 'k"
    and release :: "'k \<Rightarrow> 's \<Rightarrow> 's"
    and gone :: "cstr \<Rightarrow> 's \<Rightarrow> 's"
    and invar :: "'s \<Rightarrow> bool"
    and room :: "'s \<Rightarrow> bool"
  assumes held_inhibit: "invar s \<Longrightarrow> room s \<Longrightarrow> held (inhibit w s) = (held s)(fresh s \<mapsto> w)"
    and fresh_unheld: "invar s \<Longrightarrow> room s \<Longrightarrow> held s (fresh s) = None"
    and held_release: "invar s \<Longrightarrow> held (release k s) = (held s)(k := None)"
    and held_gone: "invar s \<Longrightarrow> held (gone w s) k = (if held s k = Some w then None else held s k)"
    and invar_inhibit: "invar s \<Longrightarrow> room s \<Longrightarrow> invar (inhibit w s)"
    and invar_release: "invar s \<Longrightarrow> invar (release k s)"
    and invar_gone: "invar s \<Longrightarrow> invar (gone w s)"
begin

text \<open>A client that inhibits and releases, or inhibits and crashes, leaves the others as they were.\<close>

lemma inhibit_release: "invar s \<Longrightarrow> room s \<Longrightarrow> held (release (fresh s) (inhibit w s)) = held s"
  by (simp add: held_release invar_inhibit held_inhibit fresh_unheld fun_upd_idem)

lemma inhibit_gone:
  "invar s \<Longrightarrow> room s \<Longrightarrow> w \<notin> ran (held s) \<Longrightarrow> held (gone w (inhibit w s)) = held s"
  by (rule ext) (auto simp: held_gone invar_inhibit held_inhibit fresh_unheld ran_def)

lemma gone_holds_nothing: "invar s \<Longrightarrow> w \<notin> ran (held (gone w s))"
  by (auto simp: held_gone ran_def split: if_splits)

lemma gone_keeps_others: "invar s \<Longrightarrow> held s k = Some v \<Longrightarrow> v \<noteq> w \<Longrightarrow> held (gone w s) k = Some v"
  by (simp add: held_gone)

end

subsection \<open>The arrays\<close>

type_synonym inhibit_state = "32 word \<times> (32 word \<times> cstr) list"

definition inhib :: "session \<Rightarrow> inhibit_state" where
  "inhib s = (next_cookie s, inhibitors s)"

definition cookies_ok :: "inhibit_state \<Rightarrow> bool" where
  "cookies_ok s \<longleftrightarrow> distinct (map fst (snd s)) \<and> list_all (\<lambda>x. fst x \<le> fst s) (snd s) \<and> length (snd s) \<le> 32"

definition cookies_room :: "inhibit_state \<Rightarrow> bool" where
  "cookies_room s \<longleftrightarrow> fst s \<noteq> - 1 \<and> length (snd s) < 32"

definition holder :: "inhibit_state \<Rightarrow> 32 word \<Rightarrow> cstr option" where
  "holder s = map_of (snd s)"

definition add_cookie :: "cstr \<Rightarrow> inhibit_state \<Rightarrow> inhibit_state" where
  "add_cookie w s = (fst s + 1, snd s @ [(fst s + 1, w)])"

definition drop_cookie :: "32 word \<Rightarrow> inhibit_state \<Rightarrow> inhibit_state" where
  "drop_cookie k s = (fst s, case cookie_index k (snd s) of None \<Rightarrow> snd s | Some i \<Rightarrow> swap_remove i (snd s))"

definition drop_cookies_of :: "cstr \<Rightarrow> inhibit_state \<Rightarrow> inhibit_state" where
  "drop_cookies_of w s = (fst s, drop_owner w 0 (snd s))"

lemma cookie_index_None: "cookie_index k xs = None \<longleftrightarrow> k \<notin> fst ` set xs"
  by (induction xs) auto

lemma cookie_index_Some: "cookie_index k xs = Some i \<Longrightarrow> i < length xs \<and> fst (xs ! i) = k"
  by (induction xs arbitrary: i) (auto split: if_splits)

lemma swap_remove_nth: "j < i \<Longrightarrow> i < length xs \<Longrightarrow> swap_remove i xs ! j = xs ! j"
  by (simp add: swap_remove_def Let_def)

lemma word_Suc_gt: "n \<noteq> - 1 \<Longrightarrow> n < n + 1" for n :: "32 word"
proof -
  assume "n \<noteq> - 1"
  then have "1 + n \<noteq> 0" by (simp add: add.commute eq_neg_iff_add_eq_0)
  then have "unat (n + 1) = Suc (unat n)" using unatSuc [of n] by (simp add: add.commute)
  then show "n < n + 1" by (simp add: word_less_nat_alt)
qed

text \<open>The loop over the owners removes exactly the places of that owner.\<close>

lemma drop_owner_set:
  "distinct (map fst xs) \<Longrightarrow> \<forall>j<i. j < length xs \<longrightarrow> snd (xs ! j) \<noteq> w \<Longrightarrow>
    set (drop_owner w i xs) = {x \<in> set xs. snd x \<noteq> w} \<and> distinct (map fst (drop_owner w i xs))"
proof (induction w i xs rule: drop_owner.induct)
  case (1 w i xs)
  consider "\<not> i < length xs" | "i < length xs" "snd (xs ! i) = w" | "i < length xs" "snd (xs ! i) \<noteq> w" by blast
  then show ?case
  proof cases
    case 1
    then have "drop_owner w i xs = xs" by (simp add: drop_owner.simps)
    moreover have "snd x \<noteq> w" if x: "x \<in> set xs" for x
    proof -
      from x obtain j where "j < length xs" "x = xs ! j" by (auto simp: in_set_conv_nth)
      with 1 \<open>\<forall>j<i. j < length xs \<longrightarrow> snd (xs ! j) \<noteq> w\<close> show ?thesis by simp
    qed
    ultimately show ?thesis using \<open>distinct (map fst xs)\<close> by auto
  next
    case 2
    note sr = set_swap_remove [OF 2(1) \<open>distinct (map fst xs)\<close>]
    have "\<forall>j<i. j < length (swap_remove i xs) \<longrightarrow> snd (swap_remove i xs ! j) \<noteq> w"
      using 2(1) \<open>\<forall>j<i. j < length xs \<longrightarrow> snd (xs ! j) \<noteq> w\<close> by (simp add: swap_remove_nth)
    then have IH: "set (drop_owner w i (swap_remove i xs)) = {x \<in> set (swap_remove i xs). snd x \<noteq> w} \<and>
        distinct (map fst (drop_owner w i (swap_remove i xs)))"
      using "1.IH"(1) [OF 2] sr(2) by blast
    have same: "x = xs ! i" if "x \<in> set xs" "fst x = fst (xs ! i)" for x
      using that 2(1) \<open>distinct (map fst xs)\<close> by (meson distinct_map inj_onD nth_mem)
    have "{x \<in> set (swap_remove i xs). snd x \<noteq> w} = {x \<in> set xs. snd x \<noteq> w}"
      unfolding sr(1) using same 2(2) by blast
    moreover have "drop_owner w i xs = drop_owner w i (swap_remove i xs)"
      using 2 by (subst drop_owner.simps) simp
    ultimately show ?thesis using IH by simp
  next
    case 3
    have "\<forall>j<i + 1. j < length xs \<longrightarrow> snd (xs ! j) \<noteq> w"
      using 3(2) \<open>\<forall>j<i. j < length xs \<longrightarrow> snd (xs ! j) \<noteq> w\<close> by (auto simp: less_Suc_eq)
    moreover have "drop_owner w i xs = drop_owner w (i + 1) xs" using 3 by (subst drop_owner.simps) simp
    ultimately show ?thesis using "1.IH"(2) [OF 3] \<open>distinct (map fst xs)\<close> by simp
  qed
qed

lemma length_drop_owner: "length (drop_owner w i xs) \<le> length xs"
proof (induction w i xs rule: drop_owner.induct)
  case (1 w i xs)
  then show ?case by (subst drop_owner.simps) (auto intro: le_trans)
qed

lemma holder_eqI:
  assumes "distinct (map fst xs)" and "distinct (map fst ys)" and "set ys = {x \<in> set xs. P x}"
  shows "map_of ys k = (case map_of xs k of None \<Rightarrow> None | Some v \<Rightarrow> if P (k, v) then Some v else None)"
proof -
  have eq: "map_of ys k = Some v \<longleftrightarrow> map_of xs k = Some v \<and> P (k, v)" for v
    using assms by (auto simp: map_of_eq_Some_iff)
  show ?thesis
  proof (cases "map_of ys k")
    case None
    with eq have "map_of xs k \<noteq> Some v \<or> \<not> P (k, v)" for v by auto
    with None show ?thesis by (cases "map_of xs k") auto
  next
    case (Some v)
    with eq [of v] show ?thesis by simp
  qed
qed

interpretation inhib: inhibitor_table holder add_cookie "\<lambda>s. fst s + 1" drop_cookie drop_cookies_of cookies_ok cookies_room
proof unfold_locales
  fix s :: inhibit_state and w k
  assume ok: "cookies_ok s"
  then have d: "distinct (map fst (snd s))" by (simp add: cookies_ok_def)
  have new: "fst s + 1 \<notin> fst ` set (snd s)" if "cookies_room s"
    using ok that word_Suc_gt [of "fst s"] by (fastforce simp: cookies_ok_def cookies_room_def list_all_iff)
  then show "cookies_room s \<Longrightarrow> holder s (fst s + 1) = None"
    by (simp add: holder_def map_of_eq_None_iff)
  show "cookies_room s \<Longrightarrow> holder (add_cookie w s) = (holder s)(fst s + 1 \<mapsto> w)"
    using new [THEN map_of_eq_None_iff [THEN iffD2]]
    by (auto simp: holder_def add_cookie_def map_add_def fun_eq_iff split: option.split)
  show "cookies_room s \<Longrightarrow> cookies_ok (add_cookie w s)"
    using ok new word_Suc_gt [of "fst s"]
    by (auto simp: cookies_ok_def cookies_room_def add_cookie_def list_all_iff intro: order.trans less_imp_le)
  have rel: "set (snd (drop_cookie k s)) = {x \<in> set (snd s). fst x \<noteq> k} \<and> distinct (map fst (snd (drop_cookie k s)))"
    using set_swap_remove [OF _ d] d
    by (auto simp: drop_cookie_def cookie_index_None dest!: cookie_index_Some split: option.splits)
  then show "holder (drop_cookie k s) = (holder s)(k := None)"
    using holder_eqI [OF d, of "snd (drop_cookie k s)" "\<lambda>x. fst x \<noteq> k"]
    by (auto simp: holder_def fun_eq_iff split: option.splits)
  have "length (snd (drop_cookie k s)) \<le> length (snd s)" by (simp add: drop_cookie_def split: option.split)
  with rel ok show "cookies_ok (drop_cookie k s)"
    by (auto simp: cookies_ok_def list_all_iff drop_cookie_def)
  have gone: "set (snd (drop_cookies_of w s)) = {x \<in> set (snd s). snd x \<noteq> w} \<and> distinct (map fst (snd (drop_cookies_of w s)))"
    using drop_owner_set [OF d, of 0 w] by (simp add: drop_cookies_of_def)
  then show "holder (drop_cookies_of w s) k = (if holder s k = Some w then None else holder s k)"
    using holder_eqI [OF d, of "snd (drop_cookies_of w s)" "\<lambda>x. snd x \<noteq> w" k]
    by (auto simp: holder_def split: option.splits)
  show "cookies_ok (drop_cookies_of w s)"
    using gone ok length_drop_owner [of w 0 "snd s"] by (auto simp: cookies_ok_def list_all_iff drop_cookies_of_def)
qed

end
