(* ===== verification/Sess_Props.thy ===== *)
theory Sess_Props
  imports Sess_Wm Sess_Inhibit
begin

section \<open>isde-session: properties\<close>

text \<open>
  What the session guarantees of power actions, of its window manager, of crashing children and
  of the screen saver's inhibitors, and one confirmation that gets lost. The concrete system at the
  start serves the witnesses.
\<close>

subsection \<open>While a confirmation is shown\<close>

lemma calm_pid: "calm s s' \<Longrightarrow> confirm_pid s' = confirm_pid s"
  by (simp add: calm_def conf_def)

lemma calm_fold_pid:
  "(\<And>x s. confirm_pid s > 0 \<Longrightarrow> calm s (f x s)) \<Longrightarrow> confirm_pid s > 0 \<Longrightarrow> calm s (fold f xs s)"
proof (induction xs arbitrary: s)
  case (Cons x xs)
  have c: "calm s (f x s)" by (rule Cons.prems)+
  with Cons.prems(2) have "confirm_pid (f x s) > 0" by (simp add: calm_pid)
  with Cons have "calm (f x s) (fold f xs (f x s))" by blast
  with c show ?case by (auto intro: calm_trans)
qed (simp add: calm_refl)

lemma show_confirmation_busy [simp]: "confirm_pid s > 0 \<Longrightarrow> show_confirmation env a s = s"
  by (simp add: show_confirmation_def)

lemma calm_system_busy: "confirm_pid s > 0 \<Longrightarrow> calm s (snd (system_bus_filter env m s))"
  by (auto simp: system_bus_filter_def calm_refl calm_dm_call split: list.split bus_arg.split lid_action.split bool.split)

lemma calm_session_msg_busy: "confirm_pid s > 0 \<Longrightarrow> calm s (session_bus_message env m s)"
proof -
  assume p: "confirm_pid s > 0"
  define s1 where "s1 = snd (session_bus_filter m s)"
  have c: "calm s s1" unfolding s1_def by (rule calm_bus_filter)
  with p have p1: "confirm_pid s1 > 0" by (simp add: calm_pid)
  then have "calm s1 (snd (session_command_handler env m s1))"
    by (simp add: session_command_handler_def calm_refl calm_dm_call)
  then show ?thesis
    using c calm_screensaver [of s1 m]
    by (auto simp: session_bus_message_def Let_def simp flip: s1_def intro: calm_trans)
qed

lemma calm_ready_busy:
  assumes "confirm_pid s > 0" and "\<forall>st exits. i_sigchld i = Some (st, exits) \<longrightarrow> st = None"
  shows "calm s (handle_ready env i s)"
proof -
  define s1 where "s1 = (case i_sigchld i of None \<Rightarrow> s | Some (status, exits) \<Rightarrow> sigchld_dispatch env status exits s)"
  define s2 where "s2 = (if sess_dbus s1 then fold (\<lambda>m s. snd (filter_func m s)) (i_settings i) s1 else s1)"
  define s3 where "s3 = (if system_bus s2 then fold (\<lambda>m s. snd (system_bus_filter env m s)) (i_system i) s2 else s2)"
  have c1: "calm s s1"
    using assms(2) by (auto simp: s1_def sigchld_dispatch_def confirm_reap_def calm_refl calm_reap split: option.split)
  have "calm s1 s2" by (auto simp: s2_def calm_refl intro: calm_fold calm_settings)
  with c1 have c2: "calm s s2" by (rule calm_trans)
  then have "calm s2 s3" using assms(1) calm_pid [OF c2]
    by (auto simp: s3_def calm_refl intro!: calm_fold_pid calm_system_busy)
  with c2 have c3: "calm s s3" by (rule calm_trans)
  then have "calm s3 (if session_bus s3 then fold (session_bus_message env) (i_session i) s3 else s3)"
    using assms(1) calm_pid [OF c3] by (auto simp: calm_refl intro!: calm_fold_pid calm_session_msg_busy)
  moreover have "handle_ready env i s = (if session_bus s3 then fold (session_bus_message env) (i_session i) s3 else s3)"
    by (simp only: handle_ready_def Let_def s1_def s2_def s3_def)
  ultimately show ?thesis using calm_trans [OF c3] by simp
qed

lemma calm_turn_busy:
  assumes "confirm_pid s > 0" and "\<forall>st exits. i_sigchld i = Some (st, exits) \<longrightarrow> st = None"
  shows "calm s (snd (session_turn env i s))"
proof -
  define s0 where "s0 = slog (SPoll (poll_timeout (s_ret env (strace s @ [SNow])) (i_data_remains i) (slog SNow s))) (slog SNow s)"
  have c0: "calm s s0" unfolding s0_def by (intro calm_then_slog calm_slog) simp_all
  then have "calm s (fire_timers env (handle_ready env i s0))"
    using calm_trans [OF calm_trans [OF c0 calm_ready_busy] calm_fire_timers] assms calm_pid [OF c0] by simp
  with c0 show ?thesis
    by (cases "i_poll i") (simp_all add: session_turn_def now_ms_eq Let_def flip: s0_def)
qed

text \<open>The loop over a sequence of inputs, until the session stops or the poll fails.\<close>

fun session_turns :: "senv \<Rightarrow> turn_input list \<Rightarrow> session \<Rightarrow> session" where
  "session_turns env [] s = s"
| "session_turns env (i # is) s =
     (if \<not> sess_running s then s
      else let (go, s') = session_turn env i s in if go then session_turns env is s' else s')"

lemma calm_turns_busy:
  "confirm_pid s > 0 \<Longrightarrow> list_all (\<lambda>i. \<forall>st exits. i_sigchld i = Some (st, exits) \<longrightarrow> st = None) is \<Longrightarrow>
    calm s (session_turns env is s)"
proof (induction "is" arbitrary: s)
  case (Cons i "is")
  obtain go s' where t: "session_turn env i s = (go, s')" by (cases "session_turn env i s")
  have c: "calm s s'" using calm_turn_busy [of s i env] Cons.prems t by simp
  with Cons.prems have "confirm_pid s' > 0" by (simp add: calm_pid)
  with Cons have "calm s' (session_turns env is s')" by simp
  with c t show ?case by (auto simp: calm_refl intro: calm_trans)
qed (simp add: calm_refl)

subsection \<open>A concrete system\<close>

definition demo_sret :: "scall list \<Rightarrow> int" where
  "demo_sret t = (case last t of
     SFork _ \<Rightarrow> 100 + int (length t)
   | SForkConfirm _ \<Rightarrow> 50
   | SNow \<Rightarrow> 100 * int (length t)
   | _ \<Rightarrow> 0)"

definition demo_senv :: senv where
  "demo_senv = \<lparr>s_ret = demo_sret, s_cfg = (\<lambda>_. None)\<rparr>"

definition demo_sboot :: boot where
  "demo_sboot = \<lparr>bt_dbus = True, bt_system_bus = True, bt_screensaver = True, bt_session_name = True, bt_x = False\<rparr>"

definition demo_fs :: fsys where
  "demo_fs = \<lparr>fs_getenv = (\<lambda>_. None), fs_file = (\<lambda>_. None), fs_dir = (\<lambda>_. None)\<rparr>"

definition quiet_input :: turn_input where
  "quiet_input = \<lparr>i_poll = PollReady, i_data_remains = False, i_sigchld = None, i_settings = [], i_system = [], i_session = []\<rparr>"

definition demo_command :: "cstr \<Rightarrow> bus_msg" where
  "demo_command m = \<lparr>b_signal = False, b_path = ISDE_SESSION_DBUS_PATH, b_iface = Some ISDE_SESSION_DBUS_INTERFACE,
     b_member = Some m, b_sender = Some '':1.5'', b_args = []\<rparr>"

text \<open>After start-up, after a request to shut down, and after the user accepted it.\<close>

definition demo_s0 :: session where
  "demo_s0 = \<lparr>wm_command = ''isde-wm'', panel_command = ''isde-panel-x11'', fm_command = None,
     children =
       [\<lparr>c_pid = 108, c_command = ''isde-panel-x11'', c_respawn = True, c_is_wm = False, c_is_panel = True,
          c_start_ms = 900, c_rapid_crashes = 0\<rparr>,
        \<lparr>c_pid = 105, c_command = ''isde-wm'', c_respawn = True, c_is_wm = True, c_is_panel = False,
          c_start_ms = 600, c_rapid_crashes = 0\<rparr>],
     pending_respawns = [], autostart = [], server_context = False, check_deadline_ms = 1500,
     idle_deadline_ms = 0, idle_suspend_sec = 0, screen_off_sec = 0, lid_action = LID_ACTION_SUSPEND,
     idle_lock_sec = 0, confirm_pid = 0, confirm_action = [], sess_dbus = True, system_bus = True,
     session_bus = True,
     sess_objects = [''/org/freedesktop/ScreenSaver'', ''/ScreenSaver'', ''/org/isde/Session''],
     inhibitors = [], next_cookie = 0, reload_appearance = False, reload_display = False,
     reload_power = False, reload_background = False, sess_running = True,
     strace = [SLoadConfig, SAppearance, SInput, SLoadConfig, SFork ''isde-wm'', SNow, SSleep,
       SFork ''isde-panel-x11'', SNow, SNow]\<rparr>"

definition demo_s1 :: session where
  "demo_s1 = demo_s0\<lparr>confirm_pid := 50, confirm_action := ''shutdown'',
     strace := strace demo_s0 @ [SNow, SPoll 400, SForkConfirm ''shutdown'', SNow]\<rparr>"

definition demo_s2 :: session where
  "demo_s2 = demo_s0\<lparr>check_deadline_ms := 2600, strace := strace demo_s1 @
     [SNow, SPoll 0, SExit 50 (Exited 0), SSystemBus, SDmCall ''Shutdown'', SNow, SNow]\<rparr>"

lemma demo_fork_ok: "fork_ok demo_senv"
  by (simp add: fork_ok_def demo_senv_def demo_sret_def)

lemma demo_s0_reach: "session_reach demo_senv demo_sboot demo_fs demo_s0"
proof (rule session_reach.start)
  show "session_start demo_senv (session_init demo_senv demo_sboot demo_fs) = (True, demo_s0)"
    by code_simp
qed

text \<open>A turn in its three stages, each evaluated by itself.\<close>

definition polled :: "senv \<Rightarrow> turn_input \<Rightarrow> session \<Rightarrow> session" where
  "polled env i s =
     slog (SPoll (poll_timeout (s_ret env (strace s @ [SNow])) (i_data_remains i) (slog SNow s))) (slog SNow s)"

lemma turn_stages:
  assumes "i_poll i = PollReady" and "polled env i s = s1" and "handle_ready env i s1 = s2" and "fire_timers env s2 = s3"
  shows "session_turn env i s = (True, s3)"
  using assms by (simp add: session_turn_def now_ms_eq Let_def polled_def)

lemma demo_s1_reach: "session_reach demo_senv demo_sboot demo_fs demo_s1"
proof (rule session_reach.turn [OF demo_s0_reach])
  let ?i = "quiet_input\<lparr>i_session := [demo_command ''Shutdown'']\<rparr>"
  let ?t = "strace demo_s0 @ [SNow, SPoll 400]"
  let ?r = "demo_s0\<lparr>confirm_pid := 50, confirm_action := ''shutdown'', strace := ?t @ [SForkConfirm ''shutdown'']\<rparr>"
  have "polled demo_senv ?i demo_s0 = demo_s0\<lparr>strace := ?t\<rparr>" by code_simp
  moreover have "handle_ready demo_senv ?i (demo_s0\<lparr>strace := ?t\<rparr>) = ?r" by code_simp
  moreover have "fire_timers demo_senv ?r = demo_s1" by code_simp
  ultimately show "session_turn demo_senv ?i demo_s0 = (True, demo_s1)"
    by (intro turn_stages) (simp_all add: quiet_input_def)
qed (simp add: demo_s0_def)

lemma demo_s2_reach: "session_reach demo_senv demo_sboot demo_fs demo_s2"
proof (rule session_reach.turn [OF demo_s1_reach])
  let ?i = "quiet_input\<lparr>i_sigchld := Some (Some (Exited 0), [])\<rparr>"
  let ?t = "strace demo_s1 @ [SNow, SPoll 0]"
  let ?r = "demo_s0\<lparr>strace := ?t @ [SExit 50 (Exited 0), SSystemBus, SDmCall ''Shutdown'']\<rparr>"
  have "polled demo_senv ?i demo_s1 = demo_s1\<lparr>strace := ?t\<rparr>" by code_simp
  moreover have "handle_ready demo_senv ?i (demo_s1\<lparr>strace := ?t\<rparr>) = ?r" by code_simp
  moreover have "fire_timers demo_senv ?r = demo_s2" by code_simp
  ultimately show "session_turn demo_senv ?i demo_s1 = (True, demo_s2)"
    by (intro turn_stages) (simp_all add: quiet_input_def)
qed (simp add: demo_s1_def demo_s0_def)

subsection \<open>Power\<close>

text \<open>
  C37: in every reachable state, each request to the display manager to shut down or to reboot was
  preceded by the exit with status 0 of a confirmation process that the session had started for
  exactly that action.
\<close>

theorem shutdown_needs_confirmation:
  assumes "session_reach env b fs s" and "i < length (strace s)" and "strace s ! i = SDmCall m"
    and "(m, act) \<in> {(''Shutdown'', ''shutdown''), (''Reboot'', ''reboot'')}"
  shows "\<exists>j<i. \<exists>k<j. \<exists>p. strace s ! k = SForkConfirm act \<and> s_ret env (take (Suc k) (strace s)) = p \<and>
    strace s ! j = SExit p (Exited 0)"
proof -
  have "shutdowns_ok env (strace s)" using reach_conf_inv [OF assms(1)] by (simp add: conf_inv_def)
  with assms(2-4) have "confirmed env (take i (strace s)) act" by (auto simp: shutdowns_ok_def)
  then obtain j p where j: "j < i" "strace s ! j = SExit p (Exited 0)" "asked env (take j (take i (strace s))) act p"
    using assms(2) by (auto simp: confirmed_def)
  then have "asked env (take j (strace s)) act p" by (simp add: min_def)
  then obtain k where "k < j" "strace s ! k = SForkConfirm act" "s_ret env (take (Suc k) (strace s)) = p"
    using j(1) assms(2) by (auto simp: asked_def min_def Suc_le_eq split: if_splits)
  with j show ?thesis by blast
qed

theorem shutdown_needs_confirmation_witness:
  "strace demo_s2 ! 18 = SDmCall ''Shutdown'' \<and>
   (\<exists>j<18. \<exists>k<j. \<exists>p. strace demo_s2 ! k = SForkConfirm ''shutdown'' \<and>
      s_ret demo_senv (take (Suc k) (strace demo_s2)) = p \<and> strace demo_s2 ! j = SExit p (Exited 0))"
proof
  show "strace demo_s2 ! 18 = SDmCall ''Shutdown''" by code_simp
  moreover have "18 < length (strace demo_s2)" by code_simp
  ultimately show "\<exists>j<18. \<exists>k<j. \<exists>p. strace demo_s2 ! k = SForkConfirm ''shutdown'' \<and>
      s_ret demo_senv (take (Suc k) (strace demo_s2)) = p \<and> strace demo_s2 ! j = SExit p (Exited 0)"
    by (intro shutdown_needs_confirmation [OF demo_s2_reach]) simp_all
qed

subsection \<open>The window manager\<close>

text \<open>
  C38: as long as the session runs and forks succeed, the window manager is among its children, as
  a child that will be restarted, or waits for its restart, or the session has given it up.
\<close>

theorem window_manager_kept:
  assumes "session_reach env b fs s" and "\<forall>t cmd. s_ret env (t @ [SFork cmd]) \<ge> 0" and "sess_running s"
  shows "(\<exists>c \<in> set (children s). c_is_wm c \<and> c_command c = wm_command s \<and> c_respawn c) \<or>
    (\<exists>p \<in> set (pending_respawns s). p_is_wm p \<and> p_command p = wm_command s) \<or>
    SGiveUp (wm_command s) \<in> set (strace s)"
proof -
  have "wm_kept s" using reach_wm_kept [OF assms(1)] assms(2) by (simp add: fork_ok_def)
  with assms(3) show ?thesis
    by (auto simp: wm_kept_def procs_ok_def wm_alive_def list_all_iff list_ex_iff child_ok_def pending_ok_def)
qed

theorem window_manager_kept_witness:
  "(\<exists>c \<in> set (children demo_s1). c_is_wm c \<and> c_command c = wm_command demo_s1 \<and> c_respawn c) \<or>
    (\<exists>p \<in> set (pending_respawns demo_s1). p_is_wm p \<and> p_command p = wm_command demo_s1) \<or>
    SGiveUp (wm_command demo_s1) \<in> set (strace demo_s1)"
proof (rule window_manager_kept [OF demo_s1_reach])
  show "\<forall>t cmd. s_ret demo_senv (t @ [SFork cmd]) \<ge> 0" using demo_fork_ok by (simp add: fork_ok_def)
qed (simp add: demo_s1_def demo_s0_def)

text \<open>The restart of a child with the two readings of the clock made explicit.\<close>

lemma reap_child_restart:
  assumes "sess_running s" and "child_find_pid s pid = Some c" and "c_respawn c"
    and "t1 = s_ret env (strace s @ [SExit pid st, SNow])" and "t2 = s_ret env (strace s @ [SExit pid st, SNow, SNow])"
  shows "reap_child env (pid, st) s =
    (let crashes = (if t1 - c_start_ms c < 5000 then c_rapid_crashes c + 1 else 0); s1 = slog SNow (slog (SExit pid st) s) in
     if crashes \<ge> 5 then child_remove pid (slog (SGiveUp (c_command c)) s1)
     else if crashes > 0 then child_remove pid ((slog SNow s1)\<lparr>pending_respawns := \<lparr>p_command = c_command c, p_is_wm = c_is_wm c,
       p_is_panel = c_is_panel c, p_rapid_crashes = crashes, p_deadline_ms = t2 + retry_delay crashes\<rparr> # pending_respawns s\<rparr>)
     else with_new (\<lambda>n. n\<lparr>c_is_panel := c_is_panel c\<rparr>) (child_spawn env (c_command c) True (c_is_wm c) (child_remove pid s1)))"
proof -
  have pid: "c_pid c = pid" using find_split [OF assms(2) [unfolded child_find_pid_def]] by auto
  have "reap_child env (pid, st) s = child_restart env c (slog (SExit pid st) s)"
    using assms(1-3) by (simp add: reap_child_def child_find_pid_def)
  then show ?thesis
    by (simp add: child_restart_def now_ms_eq Let_def pid assms(4,5) RAPID_CRASH_WINDOW_MS_def MAX_RAPID_CRASHES_def)
qed

lemma retry_delay_doubles: "k \<in> {0, 1, 2, 3} \<Longrightarrow> retry_delay (k + 1) = 1000 * 2 ^ nat k \<and> 1000 * 2 ^ nat k \<le> (8000 :: int)"
  by (auto simp: retry_delay_def BASE_RETRY_DELAY_MS_def MAX_RETRY_DELAY_MS_def numeral_3_eq_3)

text \<open>
  C39: what the exit of a child marked for respawn does in a reachable state. After five seconds
  or more it is started again at once with a clean record. Within five seconds it is put off for
  one second after the first rapid crash, then two, four and eight, and at the fifth in a row it
  is given up; the limit of a minute on the delay is never reached.
\<close>

theorem crash_backoff:
  assumes reach: "session_reach env b fs s" and fork: "\<forall>t cmd. s_ret env (t @ [SFork cmd]) \<ge> 0" and run: "sess_running s"
    and find: "child_find_pid s pid = Some c" and resp: "c_respawn c"
    and t1: "t1 = s_ret env (strace s @ [SExit pid st, SNow])"
    and t2: "t2 = s_ret env (strace s @ [SExit pid st, SNow, SNow])"
    and s': "s' = reap_child env (pid, st) s"
  shows "0 \<le> c_rapid_crashes c \<and> c_rapid_crashes c \<le> 4 \<and>
    (t1 - c_start_ms c \<ge> 5000 \<longrightarrow>
       c_command (hd (children s')) = c_command c \<and> c_rapid_crashes (hd (children s')) = 0 \<and>
       length (children s') = length (children s) \<and> pending_respawns s' = pending_respawns s) \<and>
    (t1 - c_start_ms c < 5000 \<and> c_rapid_crashes c < 4 \<longrightarrow>
       pending_respawns s' = \<lparr>p_command = c_command c, p_is_wm = c_is_wm c, p_is_panel = c_is_panel c,
         p_rapid_crashes = c_rapid_crashes c + 1, p_deadline_ms = t2 + 1000 * 2 ^ nat (c_rapid_crashes c)\<rparr> # pending_respawns s \<and>
       length (children s') + 1 = length (children s) \<and> 1000 * 2 ^ nat (c_rapid_crashes c) \<le> (8000 :: int)) \<and>
    (t1 - c_start_ms c < 5000 \<and> c_rapid_crashes c = 4 \<longrightarrow>
       pending_respawns s' = pending_respawns s \<and> length (children s') + 1 = length (children s) \<and>
       SGiveUp (c_command c) \<in> set (strace s'))"
proof -
  from fork have f: "fork_ok env" by (simp add: fork_ok_def)
  from find_split [OF find [unfolded child_find_pid_def]] obtain ys zs where
    c: "children s = ys @ c # zs" "remove_first (\<lambda>x. c_pid x = pid) (children s) = ys @ zs" by auto
  have "procs_ok s" using reach_wm_kept [OF reach f] by (simp add: wm_kept_def)
  then have "child_ok (wm_command s) c" using c by (simp add: procs_ok_def)
  then have k: "0 \<le> c_rapid_crashes c" "c_rapid_crashes c \<le> 4" by (simp_all add: child_ok_def MAX_RAPID_CRASHES_def)
  note r = reap_child_restart [OF run find resp t1 t2, folded s']
  show ?thesis
  proof (intro conjI impI k)
    assume "t1 - c_start_ms c \<ge> 5000"
    then have "s' = with_new (\<lambda>n. n\<lparr>c_is_panel := c_is_panel c\<rparr>)
        (child_spawn env (c_command c) True (c_is_wm c) (child_remove pid (slog SNow (slog (SExit pid st) s))))"
      by (simp add: r)
    with c show "c_command (hd (children s')) = c_command c" "c_rapid_crashes (hd (children s')) = 0"
      "length (children s') = length (children s)" "pending_respawns s' = pending_respawns s"
      by (simp_all add: with_new_def spawn_eq [OF f] new_child_def child_remove_def)
  next
    assume a: "t1 - c_start_ms c < 5000 \<and> c_rapid_crashes c < 4"
    with k have "c_rapid_crashes c \<in> {0, 1, 2, 3}" by auto
    from retry_delay_doubles [OF this] have d: "retry_delay (c_rapid_crashes c + 1) = 1000 * 2 ^ nat (c_rapid_crashes c)"
      and le: "1000 * 2 ^ nat (c_rapid_crashes c) \<le> (8000 :: int)" by simp_all
    show "1000 * 2 ^ nat (c_rapid_crashes c) \<le> (8000 :: int)" by (rule le)
    show "pending_respawns s' = \<lparr>p_command = c_command c, p_is_wm = c_is_wm c, p_is_panel = c_is_panel c,
         p_rapid_crashes = c_rapid_crashes c + 1, p_deadline_ms = t2 + 1000 * 2 ^ nat (c_rapid_crashes c)\<rparr> # pending_respawns s"
      "length (children s') + 1 = length (children s)"
      using a k c by (simp_all add: r Let_def child_remove_def d)
  next
    assume "t1 - c_start_ms c < 5000 \<and> c_rapid_crashes c = 4"
    with c show "pending_respawns s' = pending_respawns s" "length (children s') + 1 = length (children s)"
      "SGiveUp (c_command c) \<in> set (strace s')"
      by (simp_all add: r child_remove_def)
  qed
qed

text \<open>The window manager of the concrete system dies a second after its start: a restart in a second.\<close>

theorem crash_backoff_witness:
  "pending_respawns (reap_child demo_senv (105, Signaled 11) demo_s1) =
    [\<lparr>p_command = ''isde-wm'', p_is_wm = True, p_is_panel = False, p_rapid_crashes = 1, p_deadline_ms = 2700\<rparr>]"
proof -
  define c where "c = \<lparr>c_pid = 105, c_command = ''isde-wm'', c_respawn = True, c_is_wm = True, c_is_panel = False,
    c_start_ms = 600, c_rapid_crashes = 0\<rparr>"
  have fork: "\<forall>t cmd. s_ret demo_senv (t @ [SFork cmd]) \<ge> 0" using demo_fork_ok by (simp add: fork_ok_def)
  have run: "sess_running demo_s1" and find: "child_find_pid demo_s1 105 = Some c"
    by (simp_all add: demo_s1_def demo_s0_def child_find_pid_def c_def)
  have t: "s_ret demo_senv (strace demo_s1 @ [SExit 105 (Signaled 11), SNow]) = 1600"
    "s_ret demo_senv (strace demo_s1 @ [SExit 105 (Signaled 11), SNow, SNow]) = 1700"
    by (simp_all add: demo_senv_def demo_sret_def demo_s1_def demo_s0_def)
  show ?thesis
    using crash_backoff [OF demo_s1_reach fork run find _ refl refl refl, of "Signaled 11"]
    by (simp add: t c_def) (simp add: demo_s1_def demo_s0_def)
qed

subsection \<open>A confirmation that gets lost\<close>

lemma reap_logs_exits: "e \<in> set exits \<Longrightarrow> SExit (fst e) (snd e) \<in> set (strace (child_reap env exits s))"
proof (induction exits arbitrary: s)
  case (Cons x exits)
  have "strace (child_reap env exits s1) = strace s1 @ u \<Longrightarrow> set (strace s1) \<subseteq> set (strace (child_reap env exits s1))" for s1 u
    by simp
  then have sub: "set (strace s1) \<subseteq> set (strace (child_reap env exits s1))" for s1
    using calm_reap [of s1 env exits] by (auto simp: calm_def)
  have "SExit (fst x) (snd x) \<in> set (strace (reap_child env x s))"
    using calm_child_restart [of "slog (SExit (fst x) (snd x)) s" env]
    by (auto simp: reap_child_def Let_def child_remove_def calm_def split: option.split)
      (metis (no_types, lifting) in_set_conv_decomp append_assoc append_Cons)
  then show ?case using Cons sub by (auto simp: child_reap_def)
qed simp

text \<open>No operation of a turn takes anything from the trace.\<close>

lemma grows_calm: "calm s s' \<Longrightarrow> set (strace s) \<subseteq> set (strace s')"
  by (auto simp: calm_def)

lemma grows_fold: "(\<And>x s. set (strace s) \<subseteq> set (strace (f x s))) \<Longrightarrow> c \<in> set (strace s) \<Longrightarrow> c \<in> set (strace (fold f xs s))"
  by (induction xs arbitrary: s) auto

lemma grows_show: "set (strace s) \<subseteq> set (strace (show_confirmation env a s))"
  by (auto simp: show_confirmation_def ssys_eq Let_def slog_def)

lemma grows_system: "set (strace s) \<subseteq> set (strace (snd (system_bus_filter env m s)))"
  using grows_show by (auto simp: system_bus_filter_def split: list.split bus_arg.split lid_action.split bool.split
      intro: dm_call_fields(3) [THEN subsetD])

lemma grows_session_msg: "set (strace s) \<subseteq> set (strace (session_bus_message env m s))"
proof -
  define s1 where "s1 = snd (session_bus_filter m s)"
  have "set (strace s) \<subseteq> set (strace s1)" unfolding s1_def by (rule grows_calm [OF calm_bus_filter])
  moreover have "set (strace s1) \<subseteq> set (strace (snd (session_command_handler env m s1)))"
    using grows_show [of s1] by (simp add: session_command_handler_def)
  ultimately show ?thesis
    using grows_calm [OF calm_screensaver [of s1 m]] by (auto simp: session_bus_message_def Let_def simp flip: s1_def)
qed

lemma confirm_reap_None: "confirm_reap env None s = s"
  by (simp add: confirm_reap_def)

lemma turn_collects:
  assumes "i_poll i = PollReady" and "i_sigchld i = Some (None, exits)" and "(p, st) \<in> set exits"
  shows "\<exists>s1. session_turn env i s = (True, s1) \<and> SExit p st \<in> set (strace s1)"
proof -
  define s0 where "s0 = polled env i s"
  define r where "r = child_reap env exits s0"
  define s2 where "s2 = (if sess_dbus r then fold (\<lambda>m s. snd (filter_func m s)) (i_settings i) r else r)"
  define s3 where "s3 = (if system_bus s2 then fold (\<lambda>m s. snd (system_bus_filter env m s)) (i_system i) s2 else s2)"
  have "SExit p st \<in> set (strace r)" using reap_logs_exits [OF assms(3)] by (simp add: r_def)
  then have "SExit p st \<in> set (strace s2)" using grows_fold [OF grows_calm [OF calm_settings]] by (auto simp: s2_def)
  then have "SExit p st \<in> set (strace s3)" using grows_fold [OF grows_system] by (auto simp: s3_def)
  moreover have "handle_ready env i s0 = (if session_bus s3 then fold (session_bus_message env) (i_session i) s3 else s3)"
    by (simp only: handle_ready_def Let_def assms(2) option.case prod.case sigchld_dispatch_def confirm_reap_None s3_def s2_def r_def)
  ultimately have "SExit p st \<in> set (strace (handle_ready env i s0))" using grows_fold [OF grows_session_msg] by auto
  then have "SExit p st \<in> set (strace (fire_timers env (handle_ready env i s0)))"
    using grows_calm [OF calm_fire_timers] by blast
  moreover have "session_turn env i s = (True, fire_timers env (handle_ready env i s0))"
    using turn_stages [OF assms(1) s0_def [symmetric] refl refl] .
  ultimately show ?thesis by blast
qed

text \<open>
  The exit of the confirmation process can be collected by \<^verbatim>\<open>waitpid(-1)\<close> in \<open>child_reap\<close>, when
  it ends after \<^verbatim>\<open>confirm_reap\<close> has looked. Then the answer is lost: although the exit with status
  0 was received, the session neither shuts down nor reboots, it keeps the pid of the dead
  process, and it never shows a confirmation again, whatever it is asked, as long as
  \<^verbatim>\<open>waitpid\<close> of that pid reports nothing (there is no such child any more).
\<close>

theorem confirmation_lost:
  assumes "sess_running s" and "confirm_pid s > 0" and "i_poll i = PollReady"
    and "i_sigchld i = Some (None, exits)" and "(confirm_pid s, Exited 0) \<in> set exits"
    and "list_all (\<lambda>i. \<forall>st exits. i_sigchld i = Some (st, exits) \<longrightarrow> st = None) is"
  shows "SExit (confirm_pid s) (Exited 0) \<in> set (strace (session_turns env (i # is) s)) \<and>
    confirm_pid (session_turns env (i # is) s) = confirm_pid s \<and>
    (\<exists>u. strace (session_turns env (i # is) s) = strace s @ u \<and>
       SDmCall ''Shutdown'' \<notin> set u \<and> SDmCall ''Reboot'' \<notin> set u \<and> (\<forall>a. SForkConfirm a \<notin> set u))"
proof -
  obtain s1 where t: "session_turn env i s = (True, s1)" and in1: "SExit (confirm_pid s) (Exited 0) \<in> set (strace s1)"
    using turn_collects [OF assms(3-5)] by blast
  have c1: "calm s s1" using calm_turn_busy [OF assms(2), of i env] assms(4) t by simp
  then have "confirm_pid s1 > 0" using assms(2) by (simp add: calm_pid)
  with assms(6) have c2: "calm s1 (session_turns env is s1)" by (intro calm_turns_busy)
  have eq: "session_turns env (i # is) s = session_turns env is s1" using assms(1) t by simp
  have "calm s (session_turns env (i # is) s)" unfolding eq by (rule calm_trans [OF c1 c2])
  then obtain u where u: "strace (session_turns env (i # is) s) = strace s @ u" "list_all quiet_call u"
    and pid: "confirm_pid (session_turns env (i # is) s) = confirm_pid s"
    by (auto simp: calm_def conf_def)
  from c2 in1 have "SExit (confirm_pid s) (Exited 0) \<in> set (strace (session_turns env (i # is) s))"
    unfolding eq by (auto simp: calm_def)
  with u pid show ?thesis by (intro conjI exI [of _ u]) (auto simp: list_all_iff quiet_call_def)
qed

theorem confirmation_lost_witness:
  "confirm_pid (session_turns demo_senv
     [quiet_input\<lparr>i_sigchld := Some (None, [(50, Exited 0)])\<rparr>, quiet_input\<lparr>i_session := [demo_command ''Reboot'']\<rparr>] demo_s1) = 50"
proof -
  have "sess_running demo_s1" "confirm_pid demo_s1 = 50" by (simp_all add: demo_s1_def demo_s0_def)
  then show ?thesis
    using confirmation_lost [of demo_s1 "quiet_input\<lparr>i_sigchld := Some (None, [(50, Exited 0)])\<rparr>" "[(50, Exited 0)]"
      "[quiet_input\<lparr>i_session := [demo_command ''Reboot'']\<rparr>]" demo_senv]
    by (simp only: quiet_input_def) simp
qed

subsection \<open>Inhibitors\<close>

text \<open>
  C11: the screen saver service keeps a map from cookies to owners. \<^verbatim>\<open>Inhibit\<close> below the limit of
  32 adds a cookie nobody holds and answers with it; \<^verbatim>\<open>UnInhibit\<close> removes that cookie and nothing
  else; a client that leaves the bus loses all its cookies and nobody else loses any. Each keeps
  the table well formed. The hypotheses say that fewer than 2 to the 32 cookies were handed out.
\<close>

definition bus_call :: "cstr \<Rightarrow> cstr option \<Rightarrow> bus_arg list \<Rightarrow> bus_msg" where
  "bus_call member sender args = \<lparr>b_signal = False, b_path = SCREENSAVER_DBUS_PATH,
     b_iface = Some SCREENSAVER_DBUS_IFACE, b_member = Some member, b_sender = sender, b_args = args\<rparr>"

definition owner_lost :: "cstr \<Rightarrow> bus_msg" where
  "owner_lost name = \<lparr>b_signal = True, b_path = ''/org/freedesktop/DBus'', b_iface = Some DBUS_INTERFACE_DBUS,
     b_member = Some ''NameOwnerChanged'', b_sender = None, b_args = [AStr name, AStr name, AStr []]\<rparr>"

lemma inhib_update_blanking [simp]: "inhib (update_blanking_inhibit s) = inhib s"
  by (simp add: inhib_def update_blanking_inhibit_def isde_dpms_set_timeouts_def)

lemma inhib_slog [simp]: "inhib (slog c s) = inhib s"
  by (simp add: inhib_def)

lemma inhibit_adds:
  assumes "cookies_room (inhib s)" and "length owner < 64"
  shows "inhib (snd (screensaver_message_handler (bus_call ''Inhibit'' (Some owner) [AStr app, AStr why]) s)) = add_cookie owner (inhib s)"
    and "last (strace (snd (screensaver_message_handler (bus_call ''Inhibit'' (Some owner) [AStr app, AStr why]) s))) =
      SReplyCookie (next_cookie s + 1)"
proof -
  define s1 where "s1 = s\<lparr>next_cookie := next_cookie s + 1, inhibitors := inhibitors s @ [(next_cookie s + 1, owner)]\<rparr>"
  have "snd (screensaver_message_handler (bus_call ''Inhibit'' (Some owner) [AStr app, AStr why]) s) =
      slog (SReplyCookie (next_cookie s + 1)) (update_blanking_inhibit s1)"
    using assms by (simp add: screensaver_message_handler_def bus_call_def is_method_call_def cbuf cookies_room_def inhib_def
        Let_def s1_def)
  moreover have "inhib s1 = add_cookie owner (inhib s)" by (simp add: s1_def inhib_def add_cookie_def)
  ultimately show "inhib (snd (screensaver_message_handler (bus_call ''Inhibit'' (Some owner) [AStr app, AStr why]) s)) = add_cookie owner (inhib s)"
    "last (strace (snd (screensaver_message_handler (bus_call ''Inhibit'' (Some owner) [AStr app, AStr why]) s))) =
      SReplyCookie (next_cookie s + 1)"
    by simp_all
qed

lemma uninhibit_drops:
  "inhib (snd (screensaver_message_handler (bus_call ''UnInhibit'' sender [AU32 k]) s)) = drop_cookie k (inhib s)"
proof -
  have "inhib (s\<lparr>inhibitors := xs\<rparr>) = (next_cookie s, xs)" for xs by (simp add: inhib_def)
  then show ?thesis
    by (simp add: screensaver_message_handler_def bus_call_def is_method_call_def drop_cookie_def Let_def split: option.split)
      (simp add: inhib_def)
qed

lemma owner_lost_drops: "inhib (snd (session_bus_filter (owner_lost name) s)) = drop_cookies_of name (inhib s)"
proof -
  have "inhib (s\<lparr>inhibitors := xs\<rparr>) = (next_cookie s, xs)" for xs by (simp add: inhib_def)
  then show ?thesis
    by (simp add: session_bus_filter_def owner_lost_def is_signal_def drop_cookies_of_def Let_def) (simp add: inhib_def)
qed

theorem inhibitors_refine_map:
  assumes "cookies_ok (inhib s)" and "cookies_room (inhib s)" and "length owner < 64"
    and "s1 = snd (screensaver_message_handler (bus_call ''Inhibit'' (Some owner) [AStr app, AStr why]) s)"
    and "s2 = snd (screensaver_message_handler (bus_call ''UnInhibit'' sender [AU32 k]) s)"
    and "s3 = snd (session_bus_filter (owner_lost name) s)"
  shows "holder (inhib s) (next_cookie s + 1) = None \<and>
    holder (inhib s1) = (holder (inhib s))(next_cookie s + 1 \<mapsto> owner) \<and>
    last (strace s1) = SReplyCookie (next_cookie s + 1) \<and>
    holder (inhib s2) = (holder (inhib s))(k := None) \<and>
    (\<forall>c. holder (inhib s3) c = (if holder (inhib s) c = Some name then None else holder (inhib s) c)) \<and>
    cookies_ok (inhib s1) \<and> cookies_ok (inhib s2) \<and> cookies_ok (inhib s3)"
proof -
  have n: "fst (inhib s) + 1 = next_cookie s + 1" by (simp add: inhib_def)
  show ?thesis
    using inhib.fresh_unheld [OF assms(1,2)] inhib.held_inhibit [OF assms(1,2), of owner] inhib.invar_inhibit [OF assms(1,2), of owner]
      inhib.held_release [OF assms(1), of k] inhib.invar_release [OF assms(1), of k]
      inhib.held_gone [OF assms(1), of name] inhib.invar_gone [OF assms(1), of name] inhibit_adds [OF assms(2,3)]
    by (simp add: assms(4-6) uninhibit_drops owner_lost_drops n)
qed

theorem inhibitors_refine_map_witness:
  "holder (inhib (snd (screensaver_message_handler (bus_call ''Inhibit'' (Some '':1.9'') [AStr ''browser'', AStr ''video'']) demo_s0))) 1 = Some '':1.9''"
proof -
  have "cookies_ok (inhib demo_s0)" "cookies_room (inhib demo_s0)" "length '':1.9'' < 64"
    by (simp_all add: cookies_ok_def cookies_room_def inhib_def demo_s0_def)
  from inhibitors_refine_map [OF this refl refl refl] show ?thesis by (simp add: demo_s0_def)
qed

end
