(* ===== verification/Wm_State.thy ===== *)
theory Wm_State
  imports Config "HOL-Library.Product_Lexorder"
begin

section \<open>isde-wm: state, requests and timers\<close>

text \<open>
  The window manager's data (\<^verbatim>\<open>platform/X11/wm/src/wm.h\<close>), as the program \<^verbatim>\<open>isde-wm\<close> is
  built, without the compositor. The linked list of clients is a list of pairs of an address and a
  record, in the order of the list; a pointer to a client is an address, and a pointer is dangling
  when its address is not in the list any more. Addresses are never used twice, so a dangling
  pointer stays one; the flag \<open>m_ub\<close> says that the code has followed one. Windows and atoms
  are numbers, 0 is none. Each request to the X server and each property read is appended to the
  trace and the reads are answered by an environment that sees the whole trace. Positions and sizes
  are stored in the 16 bits of their fields by \<open>i16\<close> and \<open>u16\<close>; C's \<^verbatim>\<open>int\<close>
  arithmetic on them is exact. Drawing and flushing are not modelled.
\<close>

subsection \<open>Machine integers\<close>

definition i16 :: "int \<Rightarrow> int" where
  "i16 v = (v + 32768) mod 65536 - 32768"

definition u16 :: "int \<Rightarrow> int" where
  "u16 v = v mod 65536"

definition u32 :: "int \<Rightarrow> nat" where
  "u32 v = nat (v mod 4294967296)"

definition s32 :: "int \<Rightarrow> int" where
  "s32 v = (v + 2147483648) mod 4294967296 - 2147483648"

definition ALL_DESKTOPS :: nat where
  "ALL_DESKTOPS = 4294967295"

lemma i16_id: "- 32768 \<le> v \<Longrightarrow> v < 32768 \<Longrightarrow> i16 v = v"
  by (simp add: i16_def)

lemma u16_id: "0 \<le> v \<Longrightarrow> v < 65536 \<Longrightarrow> u16 v = v"
  by (simp add: u16_def)

lemma i16_bounds: "- 32768 \<le> i16 v" "i16 v < 32768"
  by (simp_all add: i16_def)

lemma u16_bounds: "0 \<le> u16 v" "u16 v < 65536"
  by (simp_all add: u16_def)

lemma s32_id: "- 2147483648 \<le> v \<Longrightarrow> v < 2147483648 \<Longrightarrow> s32 v = v"
  by (simp add: s32_def)

lemma u32_id: "0 \<le> v \<Longrightarrow> v < 4294967296 \<Longrightarrow> u32 v = nat v"
  by (simp add: u32_def)

subsection \<open>Requests\<close>

datatype stack_mode = Above | Below

datatype net_prop =
    PClientList | PClientListStacking | PActiveWindow | PNumberOfDesktops | PCurrentDesktop
  | PWorkarea | PWmDesktop | PWmState | PNetWmState | PFrameExtents | PAllowedActions
  | PVisibleName | PVisibleIconName

datatype net_atom =
    AMaximizedVert | AMaximizedHorz | AFullscreen | AAbove | ABelow | AModal | ASticky
  | ASkipTaskbar | ASkipPager | ADemandsAttention | AHidden | AFocused | AOther

datatype action_atom =
    ActMove | ActResize | ActMaximizeHorz | ActMaximizeVert | ActMinimize | ActFullscreen
  | ActChangeDesktop | ActClose | ActAbove | ActBelow

datatype protocol_atom = TakeFocus | DeleteWindow | SyncRequest

datatype read_what =
    RGeometry | RNormalHints | RWmHints | RTransientFor | RMotif | RWindowType | RNetWmName
  | RWmName | RNetIconName | RWmIconName | RNetWmState | RUserTimeWindow | RUserTime | RStartupId
  | RSyncCounter | RProtocols | RStrut | RQueryTree | RAttributes | RWmClass | RWmDesktop
  | RDesktopLayout | RCurrentDesktop | RMonitors | RPrimary | RClock | RConfig | RGrabKeyboard
  | RKeysym | RGenerateId

datatype xreq =
    XRead read_what nat
  | XMap nat
  | XUnmap nat
  | XCreate nat int int int int
  | XDestroy nat
  | XReparent nat nat int int
  | XMoveResize nat int int int int int
  | XMove nat int int
  | XResize nat int int
  | XStack nat stack_mode "nat option"
  | XConfigureOther nat
  | XSetInputFocus nat nat
  | XProtocol nat protocol_atom "nat list"
  | XConfigureNotify nat int int int int
  | XKillClient nat
  | XSet net_prop nat "nat list"
  | XSetState nat "net_atom list"
  | XSetActions nat "action_atom list"
  | XSetName net_prop nat cstr
  | XDeleteProp net_prop nat
  | XSelectInput nat
  | XSaveSet nat bool
  | XGrabButton nat
  | XGrabPointer nat
  | XUngrabPointer
  | XGrabKeyboard nat
  | XUngrabKeyboard
  | XAllowEvents nat
  | XAlarm nat nat nat
  | XDestroyAlarm nat
  | XStartupInfo bool cstr
  | XReloadCursors
  | XReloadTheme
  | XDBusCall cstr cstr

subsection \<open>What the server answers\<close>

record size_hints =
  h_us_position :: bool
  h_p_position :: bool
  h_min :: "(int \<times> int) option"
  h_max :: "(int \<times> int) option"
  h_base :: "(int \<times> int) option"
  h_inc :: "(int \<times> int) option"
  h_gravity :: "nat option"

record monitor =
  mo_x :: int
  mo_y :: int
  mo_width :: int
  mo_height :: int

datatype window_type =
  TDock | TDesktop | TSplash | TToolbar | TMenu | TNotification | TDialog | TNormal | TNone

record xenv =
  e_geometry :: "xreq list \<Rightarrow> (int \<times> int \<times> int \<times> int) option"
  e_normal_hints :: "xreq list \<Rightarrow> size_hints option"
  e_wm_hints :: "xreq list \<Rightarrow> (bool option \<times> nat option) option"
  e_transient_for :: "xreq list \<Rightarrow> nat option"
  e_motif :: "xreq list \<Rightarrow> nat list option"
  e_window_type :: "xreq list \<Rightarrow> window_type"
  e_string :: "xreq list \<Rightarrow> cstr option"
  e_net_wm_state :: "xreq list \<Rightarrow> net_atom list option"
  e_card :: "xreq list \<Rightarrow> nat option"
  e_protocols :: "xreq list \<Rightarrow> protocol_atom list option"
  e_strut :: "xreq list \<Rightarrow> (nat \<times> nat \<times> nat \<times> nat) option"
  e_tree :: "xreq list \<Rightarrow> nat list option"
  e_attributes :: "xreq list \<Rightarrow> (bool \<times> bool) option"
  e_wm_class :: "xreq list \<Rightarrow> (cstr \<times> cstr) option"
  e_layout :: "xreq list \<Rightarrow> (int \<times> int) option"
  e_monitors :: "xreq list \<Rightarrow> monitor list"
  e_primary :: "xreq list \<Rightarrow> monitor option"
  e_now :: "xreq list \<Rightarrow> nat"
  e_config :: "xreq list \<Rightarrow> toml_table option"
  e_grabbed :: "xreq list \<Rightarrow> bool"
  e_keysym :: "xreq list \<Rightarrow> nat"
  e_id :: "xreq list \<Rightarrow> nat"
  e_scale :: "int \<Rightarrow> int"
  e_border :: int
  e_font :: "cstr \<Rightarrow> int \<Rightarrow> int"

subsection \<open>Clients\<close>

record wclient_window =
  w_client :: nat
  w_frame :: nat
  w_x :: int
  w_y :: int
  w_width :: int
  w_height :: int
  w_focused :: bool
  w_maximized :: bool
  w_fullscreen :: bool
  w_minimized :: bool
  w_above :: bool
  w_below :: bool
  w_modal :: bool
  w_sticky :: bool
  w_skip_taskbar :: bool
  w_skip_pager :: bool
  w_demands_attention :: bool
  w_hidden :: bool
  w_ignore_unmap :: int
  w_decorated :: bool
  w_mapped :: bool
  w_desktop :: nat
  w_transient_for :: nat
  w_save :: "int \<times> int \<times> int \<times> int"

record wclient = wclient_window +
  w_title :: "cstr option"
  w_icon_name :: "cstr option"
  w_visible_name :: "cstr option"
  w_visible_icon_name :: "cstr option"
  w_focus_seq :: nat
  w_user_time :: nat
  w_user_time_window :: nat
  w_startup_id :: "cstr option"
  w_min :: "int \<times> int"
  w_max :: "int \<times> int"
  w_base :: "int \<times> int"
  w_inc :: "int \<times> int"
  w_fixed_size :: bool
  w_gravity :: nat
  w_input_hint :: bool
  w_initial_state :: nat
  w_sync_counter :: nat
  w_sync_alarm :: nat
  w_sync_value :: nat
  w_sync_waiting :: bool
  w_sync_pending :: bool
  w_sync_timer :: int
  w_grip :: "nat list"

definition zero_client :: wclient where
  "zero_client =
     \<lparr> w_client = 0, w_frame = 0, w_x = 0, w_y = 0, w_width = 0, w_height = 0, w_focused = False,
       w_maximized = False, w_fullscreen = False, w_minimized = False, w_above = False,
       w_below = False, w_modal = False, w_sticky = False, w_skip_taskbar = False,
       w_skip_pager = False, w_demands_attention = False, w_hidden = False, w_ignore_unmap = 0,
       w_decorated = False, w_mapped = False, w_desktop = 0, w_transient_for = 0,
       w_save = (0, 0, 0, 0), w_title = None, w_icon_name = None, w_visible_name = None,
       w_visible_icon_name = None, w_focus_seq = 0, w_user_time = 0, w_user_time_window = 0,
       w_startup_id = None, w_min = (0, 0), w_max = (0, 0), w_base = (0, 0), w_inc = (0, 0),
       w_fixed_size = False, w_gravity = 0, w_input_hint = False, w_initial_state = 0,
       w_sync_counter = 0, w_sync_alarm = 0, w_sync_value = 0, w_sync_waiting = False,
       w_sync_pending = False, w_sync_timer = 0, w_grip = replicate 8 0 \<rparr>"

subsection \<open>The window manager\<close>

datatype wm_callback = CbReloadPoll | CbOsdHide | CbSync | CbStartup cstr

record wm_timer =
  t_deadline :: nat
  t_callback :: wm_callback
  t_active :: bool

definition WM_MAX_TIMERS :: nat where "WM_MAX_TIMERS = 16"

record startup_seq =
  s_id :: cstr
  s_wmclass :: "cstr option"
  s_timestamp :: nat
  s_timer :: int

datatype drag_mode = DRAG_NONE | DRAG_MOVE | DRAG_RESIZE

datatype snap_zone = SNAP_NONE | SNAP_LEFT | SNAP_RIGHT | SNAP_TL | SNAP_TR | SNAP_BL | SNAP_BR

record wm_core =
  m_trace :: "xreq list"
  m_ub :: bool
  m_clients :: "(nat \<times> wclient) list"
  m_next :: nat
  m_focused :: "nat option"
  m_focus_seq :: nat
  m_last_user_time :: nat
  m_docks :: "nat list"
  m_root :: nat
  m_screen :: "int \<times> int"
  m_title_height :: int
  m_monitors :: "monitor list"
  m_cascade :: "(int \<times> int) option"
  m_desk_rows :: int
  m_desk_cols :: int
  m_num_desktops :: int
  m_current_desktop :: nat
  m_desk_osd :: nat
  m_desk_osd_timer :: int
  m_desk_reload_tries :: int
  m_timers :: "wm_timer list"
  m_running :: bool

record wmst = wm_core +
  m_startup_seqs :: "startup_seq list"
  m_sn_buf :: cstr
  m_switcher_shell :: nat
  m_switcher_order :: "nat list"
  m_switcher_visible :: int
  m_switcher_sel :: int
  m_switcher_active :: bool
  m_super_tap :: bool
  m_win_menu :: nat
  m_menu_client :: "nat option"
  m_menu_item_count :: int
  m_menu_item_height :: int
  m_drag_mode :: drag_mode
  m_resize_edge :: nat
  m_drag_client :: "nat option"
  m_drag_start :: "int \<times> int"
  m_drag_button :: nat
  m_drag_orig :: "int \<times> int"
  m_drag_orig_size :: "int \<times> int"
  m_btn_press_client :: "nat option"
  m_btn_press_btn :: int
  m_btn_press_hover :: bool
  m_btn_press_mouse :: nat
  m_snap_preview :: nat
  m_snap_pending :: snap_zone
  m_snap_monitor :: nat
  m_randr :: bool
  m_sync :: bool

subsection \<open>The trace and the client list\<close>

definition emits :: "xreq list \<Rightarrow> wmst \<Rightarrow> wmst" where
  "emits rs wm = wm\<lparr>m_trace := m_trace wm @ rs\<rparr>"

abbreviation emit :: "xreq \<Rightarrow> wmst \<Rightarrow> wmst" where
  "emit r wm \<equiv> emits [r] wm"

definition ask :: "(xreq list \<Rightarrow> 'a) \<Rightarrow> read_what \<Rightarrow> nat \<Rightarrow> wmst \<Rightarrow> 'a \<times> wmst" where
  "ask answer what win wm = (let wm' = emit (XRead what win) wm in (answer (m_trace wm'), wm'))"

definition generate_id :: "xenv \<Rightarrow> wmst \<Rightarrow> nat \<times> wmst" where
  "generate_id env wm = ask (e_id env) RGenerateId 0 wm"

definition crash :: "wmst \<Rightarrow> wmst" where
  "crash wm = wm\<lparr>m_ub := True\<rparr>"

definition ptrs :: "wmst \<Rightarrow> nat list" where
  "ptrs wm = map fst (m_clients wm)"

definition live :: "wmst \<Rightarrow> nat \<Rightarrow> bool" where
  "live wm p \<longleftrightarrow> p \<in> set (ptrs wm)"

definition cl :: "wmst \<Rightarrow> nat \<Rightarrow> wclient" where
  "cl wm p = (case map_of (m_clients wm) p of Some c \<Rightarrow> c | None \<Rightarrow> zero_client)"

definition upd :: "nat \<Rightarrow> (wclient \<Rightarrow> wclient) \<Rightarrow> wmst \<Rightarrow> wmst" where
  "upd p f wm = wm\<lparr>m_clients := map (\<lambda>(q, c). (q, if q = p then f c else c)) (m_clients wm)\<rparr>"

definition wm_find_client_by_frame :: "wmst \<Rightarrow> nat \<Rightarrow> nat option" where
  "wm_find_client_by_frame wm win = map_option fst (find (\<lambda>(p, c). w_frame c = win) (m_clients wm))"

definition wm_find_client_by_window :: "wmst \<Rightarrow> nat \<Rightarrow> nat option" where
  "wm_find_client_by_window wm win = map_option fst (find (\<lambda>(p, c). w_client c = win) (m_clients wm))"

subsection \<open>Timers\<close>

definition wm_timer_add :: "xenv \<Rightarrow> nat \<Rightarrow> wm_callback \<Rightarrow> wmst \<Rightarrow> int \<times> wmst" where
  "wm_timer_add env ms cb wm =
     (case find_index (\<lambda>t. \<not> t_active t) (m_timers wm) of
        None \<Rightarrow> (- 1, wm)
      | Some i \<Rightarrow>
          let (now, wm) = ask (e_now env) RClock 0 wm in
          (int i, wm\<lparr>m_timers := (m_timers wm)[i :=
             \<lparr>t_deadline = now + ms, t_callback = cb, t_active = True\<rparr>]\<rparr>))"

definition wm_timer_remove :: "int \<Rightarrow> wmst \<Rightarrow> wmst" where
  "wm_timer_remove i wm =
     (if 0 \<le> i \<and> i < int WM_MAX_TIMERS
      then wm\<lparr>m_timers := (m_timers wm)[nat i := (m_timers wm ! nat i)\<lparr>t_active := False\<rparr>]\<rparr>
      else wm)"

fun next_timeout :: "nat \<Rightarrow> wm_timer list \<Rightarrow> int \<Rightarrow> int" where
  "next_timeout now [] m = m"
| "next_timeout now (t # ts) m =
     (if t_active t
      then (let remain = int (t_deadline t) - int now in
            if remain \<le> 0 then 0 else next_timeout now ts (if s32 remain < m then s32 remain else m))
      else next_timeout now ts m)"

definition wm_timer_next_timeout :: "xenv \<Rightarrow> wmst \<Rightarrow> int \<times> wmst" where
  "wm_timer_next_timeout env wm =
     (let (now, wm) = ask (e_now env) RClock 0 wm in (next_timeout now (m_timers wm) 50, wm))"

subsection \<open>Laws of the client list\<close>

lemma emits_simps [simp]:
  "m_clients (emits rs wm) = m_clients wm"
  "ptrs (emits rs wm) = ptrs wm"
  "live (emits rs wm) p = live wm p"
  "cl (emits rs wm) p = cl wm p"
  by (simp_all add: emits_def ptrs_def live_def cl_def)

lemma ptrs_upd [simp]: "ptrs (upd p f wm) = ptrs wm"
  by (simp add: ptrs_def upd_def case_prod_beta comp_def)

lemma live_upd [simp]: "live (upd p f wm) q = live wm q"
  by (simp add: live_def)

lemma map_of_upd:
  "map_of (map (\<lambda>(q, c). (q, if q = p then f c else c)) cs) q =
     map_option (\<lambda>c. if q = p then f c else c) (map_of cs q)"
  by (induction cs) auto

lemma cl_upd: "cl (upd p f wm) q = (if q = p \<and> live wm p then f (cl wm q) else cl wm q)"
proof -
  have "map_of (m_clients wm) q = None \<longleftrightarrow> \<not> live wm q"
    by (simp add: live_def ptrs_def map_of_eq_None_iff)
  then show ?thesis
    by (auto simp: cl_def upd_def map_of_upd split: option.splits)
qed

lemma find_client_live:
  "wm_find_client_by_window wm win = Some p \<Longrightarrow> live wm p \<and> p \<in> set (ptrs wm)"
  "wm_find_client_by_frame wm win = Some p \<Longrightarrow> live wm p \<and> p \<in> set (ptrs wm)"
  by (force simp: wm_find_client_by_window_def wm_find_client_by_frame_def live_def ptrs_def
        find_Some_iff in_set_conv_nth)+

lemma cl_in: "distinct (ptrs wm) \<Longrightarrow> (p, c) \<in> set (m_clients wm) \<Longrightarrow> cl wm p = c"
  by (simp add: cl_def ptrs_def)

lemma live_cl: "live wm p \<Longrightarrow> (p, cl wm p) \<in> set (m_clients wm)"
  by (auto simp: live_def ptrs_def cl_def dest: map_of_SomeD split: option.splits)
    (metis map_of_eq_None_iff option.distinct(1) option.exhaust image_eqI fst_conv list.set_map
      map_of_SomeD weak_map_of_SomeI)


end
