(* ===== verification/Wm_Frame.thy ===== *)
theory Wm_Frame
  imports Wm_State
begin

section \<open>isde-wm: geometry, frames and placement\<close>

text \<open>
  Struts and monitors (\<^verbatim>\<open>wm.c\<close>), frames, titles, size hints and gravity (\<^verbatim>\<open>frame.c\<close>), the
  placement of new windows (\<^verbatim>\<open>placement.c\<close>) and the properties the manager keeps on the root
  window (\<^verbatim>\<open>ewmh.c\<close>). A function that works on a client which is not in the list yet
  takes and returns the record; one that works on a listed client takes its address.
\<close>

subsection \<open>Work area and monitors\<close>

type_synonym area = "int \<times> int \<times> int \<times> int"

definition check_strut :: "xenv \<Rightarrow> nat \<Rightarrow> area \<times> wmst \<Rightarrow> area \<times> wmst" where
  "check_strut env win s =
     (case s of ((tp, bt, lf, rt), wm) \<Rightarrow>
        (case ask (e_strut env) RStrut win wm of
           (None, wm) \<Rightarrow> ((tp, bt, lf, rt), wm)
         | (Some (sl, sr, st, sb), wm) \<Rightarrow>
             ((if s32 (int st) > tp then s32 (int st) else tp,
               if s32 (int sb) > bt then s32 (int sb) else bt,
               if s32 (int sl) > lf then s32 (int sl) else lf,
               if s32 (int sr) > rt then s32 (int sr) else rt), wm)))"

definition all_struts :: "xenv \<Rightarrow> wmst \<Rightarrow> area \<times> wmst" where
  "all_struts env wm =
     (let (struts, wm) = fold (check_strut env) (map (w_client \<circ> snd) (m_clients wm)) ((0, 0, 0, 0), wm);
          (tree, wm) = ask (e_tree env) RQueryTree (m_root wm) wm in
      case tree of None \<Rightarrow> (struts, wm) | Some wins \<Rightarrow> fold (check_strut env) wins (struts, wm))"

definition wm_get_work_area :: "xenv \<Rightarrow> wmst \<Rightarrow> area \<times> wmst" where
  "wm_get_work_area env wm =
     (case all_struts env wm of ((tp, bt, lf, rt), wm) \<Rightarrow>
        ((lf, tp, fst (m_screen wm) - lf - rt, snd (m_screen wm) - tp - bt), wm))"

definition wm_get_primary_monitor :: "xenv \<Rightarrow> wmst \<Rightarrow> monitor \<times> wmst" where
  "wm_get_primary_monitor env wm =
     (let (pm, wm) = ask (e_primary env) RPrimary 0 wm in
      (case pm of
         Some m \<Rightarrow> m
       | None \<Rightarrow> \<lparr>mo_x = 0, mo_y = 0, mo_width = fst (m_screen wm), mo_height = snd (m_screen wm)\<rparr>, wm))"

definition cut_to_monitor :: "monitor \<Rightarrow> area \<Rightarrow> area" where
  "cut_to_monitor m a =
     (case a of (gwx, gwy, gww, gwh) \<Rightarrow>
        let x0 = (if mo_x m > gwx then mo_x m else gwx);
            y0 = (if mo_y m > gwy then mo_y m else gwy);
            x1 = (if mo_x m + mo_width m < gwx + gww then mo_x m + mo_width m else gwx + gww);
            y1 = (if mo_y m + mo_height m < gwy + gwh then mo_y m + mo_height m else gwy + gwh) in
        (x0, y0, if x1 - x0 > 0 then x1 - x0 else 0, if y1 - y0 > 0 then y1 - y0 else 0))"

definition wm_get_monitor_work_area :: "xenv \<Rightarrow> nat \<Rightarrow> wmst \<Rightarrow> area \<times> wmst" where
  "wm_get_monitor_work_area env mon wm =
     (let (a, wm) = wm_get_work_area env wm in
      if mon < length (m_monitors wm) then (cut_to_monitor (m_monitors wm ! mon) a, wm)
      else ((0, 0, 0, 0), crash wm))"

definition on_monitor :: "int \<Rightarrow> int \<Rightarrow> monitor \<Rightarrow> bool" where
  "on_monitor rx ry m \<longleftrightarrow>
     rx \<ge> mo_x m \<and> rx < mo_x m + mo_width m \<and> ry \<ge> mo_y m \<and> ry < mo_y m + mo_height m"

definition monitor_at_point :: "wmst \<Rightarrow> int \<Rightarrow> int \<Rightarrow> nat" where
  "monitor_at_point wm rx ry =
     (case find_index (on_monitor rx ry) (m_monitors wm) of Some i \<Rightarrow> i | None \<Rightarrow> 0)"

definition client_center :: "wclient \<Rightarrow> int \<times> int" where
  "client_center c = (w_x c + w_width c div 2, w_y c + w_height c div 2)"

definition monitor_for_client :: "wmst \<Rightarrow> wclient \<Rightarrow> nat" where
  "monitor_for_client wm c = monitor_at_point wm (fst (client_center c)) (snd (client_center c))"

definition query_monitors :: "xenv \<Rightarrow> wmst \<Rightarrow> wmst" where
  "query_monitors env wm =
     (let (mons, wm) = ask (e_monitors env) RMonitors 0 wm in
      wm\<lparr>m_monitors := (if mons \<noteq> [] then mons
        else [\<lparr>mo_x = 0, mo_y = 0, mo_width = fst (m_screen wm), mo_height = snd (m_screen wm)\<rparr>])\<rparr>)"

subsection \<open>Properties on the root window\<close>

definition wm_ewmh_update_client_list :: "wmst \<Rightarrow> wmst" where
  "wm_ewmh_update_client_list wm =
     emit (XSet PClientList (m_root wm)
       (map (w_client \<circ> snd) (filter (\<lambda>(p, c). w_transient_for c = 0) (m_clients wm)))) wm"

definition stacking_key :: "wclient \<Rightarrow> nat \<times> nat \<times> nat" where
  "stacking_key c = (if w_below c then 0 else 1, if w_above c then 1 else 0, w_focus_seq c)"

definition wm_ewmh_update_client_list_stacking :: "wmst \<Rightarrow> wmst" where
  "wm_ewmh_update_client_list_stacking wm =
     emit (XSet PClientListStacking (m_root wm)
       (map w_client (sort_key stacking_key
         (map snd (filter (\<lambda>(p, c). w_transient_for c = 0) (m_clients wm)))))) wm"

definition wm_ewmh_update_active :: "wmst \<Rightarrow> wmst" where
  "wm_ewmh_update_active wm =
     emit (XSet PActiveWindow (m_root wm)
       [case m_focused wm of Some p \<Rightarrow> w_client (cl wm p) | None \<Rightarrow> 0]) wm"

definition wm_ewmh_update_workarea :: "xenv \<Rightarrow> wmst \<Rightarrow> wmst" where
  "wm_ewmh_update_workarea env wm =
     (case wm_get_work_area env wm of ((wx, wy, ww, wh), wm) \<Rightarrow>
        emit (XSet PWorkarea (m_root wm)
          (concat (replicate (nat (m_num_desktops wm)) [u32 wx, u32 wy, u32 ww, u32 wh]))) wm)"

definition wm_ewmh_set_allowed_actions :: "nat \<Rightarrow> wmst \<Rightarrow> wmst" where
  "wm_ewmh_set_allowed_actions p wm =
     (let c = cl wm p in
      emit (XSetActions (w_client c)
        ((if w_decorated c
          then ActMove # (if w_fixed_size c then [] else [ActResize, ActMaximizeHorz, ActMaximizeVert])
          else []) @
         [ActMinimize, ActFullscreen, ActChangeDesktop, ActClose, ActAbove, ActBelow])) wm)"

definition wm_set_wm_state :: "nat \<Rightarrow> nat \<Rightarrow> wmst \<Rightarrow> wmst" where
  "wm_set_wm_state p state wm = emit (XSet PWmState (w_client (cl wm p)) [state, 0]) wm"

definition net_wm_states :: "wclient \<Rightarrow> net_atom list" where
  "net_wm_states c =
     (if w_maximized c then [AMaximizedVert, AMaximizedHorz] else []) @
     (if w_fullscreen c then [AFullscreen] else []) @
     (if w_above c then [AAbove] else []) @
     (if w_below c then [ABelow] else []) @
     (if w_modal c then [AModal] else []) @
     (if w_sticky c then [ASticky] else []) @
     (if w_skip_taskbar c then [ASkipTaskbar] else []) @
     (if w_skip_pager c then [ASkipPager] else []) @
     (if w_demands_attention c then [ADemandsAttention] else []) @
     (if w_focused c then [AFocused] else [])"

definition wm_update_net_wm_state :: "nat \<Rightarrow> wmst \<Rightarrow> wmst" where
  "wm_update_net_wm_state p wm = emit (XSetState (w_client (cl wm p)) (net_wm_states (cl wm p))) wm"

subsection \<open>Size hints and gravity\<close>

definition frame_read_size_hints :: "size_hints option \<Rightarrow> wclient \<Rightarrow> wclient" where
  "frame_read_size_hints hints c =
     (let c = c\<lparr>w_min := (0, 0), w_max := (0, 0), w_base := (0, 0), w_inc := (1, 1),
                w_fixed_size := False, w_gravity := 1\<rparr> in
      case hints of
        None \<Rightarrow> c
      | Some h \<Rightarrow>
          let c = (case h_min h of Some v \<Rightarrow> c\<lparr>w_min := v\<rparr> | None \<Rightarrow> c);
              c = (case h_max h of Some v \<Rightarrow> c\<lparr>w_max := v\<rparr> | None \<Rightarrow> c);
              c = (case h_base h of Some v \<Rightarrow> c\<lparr>w_base := v\<rparr> | None \<Rightarrow> c);
              c = (case h_inc h of
                     Some (iw, ih) \<Rightarrow> c\<lparr>w_inc := (if iw < 1 then 1 else iw, if ih < 1 then 1 else ih)\<rparr>
                   | None \<Rightarrow> c);
              c = (case h_gravity h of Some g \<Rightarrow> c\<lparr>w_gravity := g\<rparr> | None \<Rightarrow> c) in
          c\<lparr>w_fixed_size :=
              (fst (w_min c) > 0 \<and> fst (w_max c) > 0 \<and> fst (w_min c) = fst (w_max c) \<and>
               snd (w_min c) > 0 \<and> snd (w_max c) > 0 \<and> snd (w_min c) = snd (w_max c))\<rparr>)"

definition constrain :: "int \<Rightarrow> int \<Rightarrow> int \<Rightarrow> int \<Rightarrow> int \<Rightarrow> int" where
  "constrain base mn mx inc v =
     (let b = (if base > 0 then base else if mn > 0 then mn else 0);
          v = (if mn > 0 \<and> v < mn then mn else v);
          v = (if mx > 0 \<and> v > mx then mx else v) in
      if inc > 1 then b + ((v - b) sdiv inc) * inc else v)"

definition frame_constrain_size :: "wclient \<Rightarrow> int \<times> int \<Rightarrow> int \<times> int" where
  "frame_constrain_size c wh =
     (constrain (fst (w_base c)) (fst (w_min c)) (fst (w_max c)) (fst (w_inc c)) (fst wh),
      constrain (snd (w_base c)) (snd (w_min c)) (snd (w_max c)) (snd (w_inc c)) (snd wh))"

definition title_of :: "wmst \<Rightarrow> wclient \<Rightarrow> int" where
  "title_of wm c = (if w_decorated c then m_title_height wm else 0)"

definition frame_gravity_to_frame :: "wmst \<Rightarrow> wclient \<Rightarrow> int \<Rightarrow> int \<Rightarrow> int \<times> int" where
  "frame_gravity_to_frame wm c client_x client_y =
     (let lf = 1; tp = 1 + title_of wm c; cw = w_width c; ch = w_height c; g = w_gravity c in
      if g = 2 then (client_x - lf - cw div 2, client_y - tp)
      else if g = 3 then (client_x - lf - cw, client_y - tp)
      else if g = 4 then (client_x - lf, client_y - tp - ch div 2)
      else if g = 5 then (client_x - lf - cw div 2, client_y - tp - ch div 2)
      else if g = 6 then (client_x - lf - cw, client_y - tp - ch div 2)
      else if g = 7 then (client_x - lf, client_y - tp - ch)
      else if g = 8 then (client_x - lf - cw div 2, client_y - tp - ch)
      else if g = 9 then (client_x - lf - cw, client_y - tp - ch)
      else (client_x - lf, client_y - tp))"

definition frame_frame_to_gravity :: "wmst \<Rightarrow> wclient \<Rightarrow> int \<times> int" where
  "frame_frame_to_gravity wm c =
     (let lf = 1; tp = 1 + title_of wm c; cw = w_width c; ch = w_height c; g = w_gravity c in
      if g = 2 then (w_x c + lf + cw div 2, w_y c + tp)
      else if g = 3 then (w_x c + lf + cw, w_y c + tp)
      else if g = 4 then (w_x c + lf, w_y c + tp + ch div 2)
      else if g = 5 then (w_x c + lf + cw div 2, w_y c + tp + ch div 2)
      else if g = 6 then (w_x c + lf + cw, w_y c + tp + ch div 2)
      else if g = 7 then (w_x c + lf, w_y c + tp + ch)
      else if g = 8 then (w_x c + lf + cw div 2, w_y c + tp + ch)
      else if g = 9 then (w_x c + lf + cw, w_y c + tp + ch)
      else (w_x c + lf, w_y c + tp))"

subsection \<open>Frames\<close>

definition frame_total_width :: "wclient \<Rightarrow> int" where
  "frame_total_width c = w_width c + 2"

definition frame_total_height :: "wmst \<Rightarrow> wclient \<Rightarrow> int" where
  "frame_total_height wm c = w_height c + title_of wm c + 2"

definition frame_button_at :: "wmst \<Rightarrow> wclient \<Rightarrow> int \<Rightarrow> int \<Rightarrow> int" where
  "frame_button_at wm c x y =
     (if \<not> w_decorated c \<or> y < 0 \<or> y \<ge> m_title_height wm then - 1
      else let th = m_title_height wm; fw = frame_total_width c in
        if x \<ge> 0 \<and> x < th then 0
        else if x \<ge> fw - 3 * th \<and> x < fw - 2 * th then 1
        else if x \<ge> fw - 2 * th \<and> x < fw - th then 2
        else if x \<ge> fw - th \<and> x < fw then 3
        else - 1)"

definition frame_set_extents :: "xenv \<Rightarrow> wclient \<Rightarrow> wmst \<Rightarrow> wmst" where
  "frame_set_extents env c wm =
     (if \<not> w_decorated c then emit (XSet PFrameExtents (w_client c) [0, 0, 0, 0]) wm
      else let bw = (if w_maximized c then 0 else e_border env) in
        emit (XSet PFrameExtents (w_client c)
          [u32 bw, u32 bw, u32 (m_title_height wm + bw), u32 bw]) wm)"

definition frame_send_configure_notify :: "xenv \<Rightarrow> wclient \<Rightarrow> wmst \<Rightarrow> wmst" where
  "frame_send_configure_notify env c wm =
     (let bw = (if w_maximized c then 0 else e_border env) in
      emit (XConfigureNotify (w_client c) (i16 (w_x c + bw)) (i16 (w_y c + title_of wm c + bw))
              (w_width c) (w_height c)) wm)"

definition grip_rects :: "xenv \<Rightarrow> wmst \<Rightarrow> wclient \<Rightarrow> area list" where
  "grip_rects env wm c =
     (let fw = frame_total_width c; fh = frame_total_height wm c; g = e_scale env 6;
          th = m_title_height wm; client_h = fh - th in
      [(0, 0, 0, 0), (g, fh - g, fw - 2 * g, g), (0, th, g, client_h - g),
       (fw - g, th, g, client_h - g), (0, 0, 0, 0), (0, 0, 0, 0), (0, fh - g, g, g),
       (fw - g, fh - g, g, g)])"

definition frame_update_grips :: "xenv \<Rightarrow> wclient \<Rightarrow> wmst \<Rightarrow> wmst" where
  "frame_update_grips env c wm =
     emits (concat (map2 (\<lambda>g (x, y, w, h).
       if w < 1 \<or> h < 1 then [XUnmap g]
       else [XMap g, XMoveResize g x y w h 0, XStack g Above None])
       (w_grip c) (grip_rects env wm c))) wm"

fun new_grips :: "xenv \<Rightarrow> nat \<Rightarrow> wmst \<Rightarrow> nat list \<times> wmst" where
  "new_grips env 0 wm = ([], wm)"
| "new_grips env (Suc n) wm =
     (let (g, wm) = generate_id env wm;
          (gs, wm) = new_grips env n (emits [XCreate g 0 0 1 1, XMap g] wm) in (g # gs, wm))"

definition frame_create_grips :: "xenv \<Rightarrow> wclient \<Rightarrow> wmst \<Rightarrow> wclient \<times> wmst" where
  "frame_create_grips env c wm =
     (let (gs, wm) = new_grips env 8 wm; c = c\<lparr>w_grip := gs\<rparr> in (c, frame_update_grips env c wm))"

definition frame_destroy_grips :: "wclient \<Rightarrow> wmst \<Rightarrow> wclient \<times> wmst" where
  "frame_destroy_grips c wm =
     (c\<lparr>w_grip := replicate (length (w_grip c)) 0\<rparr>,
      emits (map XDestroy (filter (\<lambda>g. g \<noteq> 0) (w_grip c))) wm)"

definition frame_configure :: "xenv \<Rightarrow> nat \<Rightarrow> wmst \<Rightarrow> wmst" where
  "frame_configure env p wm =
     (let c = cl wm p;
          bw = (if w_maximized c then 0 else e_border env);
          wm = emits [XMoveResize (w_frame c) (w_x c) (w_y c) (frame_total_width c)
                        (frame_total_height wm c) bw,
                      XMove (w_client c) 1 (1 + title_of wm c),
                      XResize (w_client c) (w_width c) (w_height c)] wm;
          wm = (if hd (w_grip c) \<noteq> 0 then frame_update_grips env c wm else wm) in
      frame_send_configure_notify env c (frame_set_extents env c wm))"

subsection \<open>Titles\<close>

definition fetch_string :: "xenv \<Rightarrow> read_what \<Rightarrow> nat \<Rightarrow> wmst \<Rightarrow> cstr option \<times> wmst" where
  "fetch_string env what win wm =
     (let (reply, wm) = ask (e_string env) what win wm in
      (case reply of
         Some v \<Rightarrow> if v \<noteq> [] then Some (takeWhile (\<lambda>ch. ch \<noteq> CHR 0x00) v) else None
       | None \<Rightarrow> None, wm))"

definition fetch_title :: "xenv \<Rightarrow> nat \<Rightarrow> wmst \<Rightarrow> cstr \<times> wmst" where
  "fetch_title env win wm =
     (case fetch_string env RNetWmName win wm of
        (Some t, wm) \<Rightarrow> (t, wm)
      | (None, wm) \<Rightarrow>
          (case fetch_string env RWmName win wm of
             (Some t, wm) \<Rightarrow> (t, wm)
           | (None, wm) \<Rightarrow> (''(untitled)'', wm)))"

definition fetch_icon_name :: "xenv \<Rightarrow> nat \<Rightarrow> wmst \<Rightarrow> cstr option \<times> wmst" where
  "fetch_icon_name env win wm =
     (case fetch_string env RNetIconName win wm of
        (Some t, wm) \<Rightarrow> (Some t, wm)
      | (None, wm) \<Rightarrow> fetch_string env RWmIconName win wm)"

definition name_of :: "bool \<Rightarrow> wclient \<Rightarrow> cstr option" where
  "name_of is_icon c = (if is_icon then w_icon_name c else w_title c)"

definition name_suffix :: "wmst \<Rightarrow> nat \<Rightarrow> cstr \<Rightarrow> bool \<Rightarrow> nat" where
  "name_suffix wm target raw is_icon =
     1 + length (filter (\<lambda>(p, c). name_of is_icon c = Some raw)
                        (takeWhile (\<lambda>(p, c). p \<noteq> target) (m_clients wm)))"

definition set_visible :: "bool \<Rightarrow> cstr option \<Rightarrow> wclient \<Rightarrow> wclient" where
  "set_visible is_icon v c =
     (if is_icon then c\<lparr>w_visible_icon_name := v\<rparr> else c\<lparr>w_visible_name := v\<rparr>)"

definition disambiguate_name :: "nat \<Rightarrow> cstr \<Rightarrow> bool \<Rightarrow> wmst \<Rightarrow> wmst" where
  "disambiguate_name target raw is_icon wm =
     (let suffix = name_suffix wm target raw is_icon;
          what = (if is_icon then PVisibleIconName else PVisibleName);
          win = w_client (cl wm target) in
      if suffix = 1 then
        emit (XDeleteProp what win) (upd target (set_visible is_icon None) wm)
      else
        let buf = snprintf 512 (raw @ '' ['' @ dec_of_nat suffix @ '']'') in
        emit (XSetName what win buf) (upd target (set_visible is_icon (Some buf)) wm))"

definition disambiguate_client :: "cstr option \<Rightarrow> cstr option \<Rightarrow> nat \<Rightarrow> wmst \<Rightarrow> wmst" where
  "disambiguate_client base_title base_icon p wm =
     (let wm = (if base_title \<noteq> None \<and> w_title (cl wm p) = base_title
                then disambiguate_name p (the base_title) False wm else wm) in
      if base_icon \<noteq> None \<and> w_icon_name (cl wm p) = base_icon
      then disambiguate_name p (the base_icon) True wm else wm)"

definition frame_disambiguate_all :: "cstr option \<Rightarrow> cstr option \<Rightarrow> wmst \<Rightarrow> wmst" where
  "frame_disambiguate_all base_title base_icon wm =
     fold (disambiguate_client base_title base_icon) (ptrs wm) wm"

definition frame_update_title :: "xenv \<Rightarrow> nat \<Rightarrow> wmst \<Rightarrow> wmst" where
  "frame_update_title env p wm =
     (let old_title = w_title (cl wm p); old_icon = w_icon_name (cl wm p);
          (title, wm) = fetch_title env (w_client (cl wm p)) wm;
          (icon, wm) = fetch_icon_name env (w_client (cl wm p)) wm;
          wm = upd p (\<lambda>c. c\<lparr>w_title := Some title, w_icon_name := icon\<rparr>) wm;
          wm = frame_disambiguate_all (Some title) icon wm;
          wm = (if old_title \<noteq> None \<and> old_title \<noteq> Some title
                then frame_disambiguate_all old_title None wm else wm) in
      if old_icon \<noteq> None \<and> old_icon \<noteq> icon then frame_disambiguate_all None old_icon wm else wm)"

end
