(* ===== verification/Wm_Place.thy ===== *)
theory Wm_Place
  imports Wm_Frame
begin

section \<open>isde-wm: placement, synchronised resizing, new and removed frames\<close>

text \<open>
  \<^verbatim>\<open>placement.c\<close>, the resize throttle of \<^verbatim>\<open>wm.c\<close> (\<^verbatim>\<open>_NET_WM_SYNC_REQUEST\<close>), and the creation and
  destruction of frames in \<^verbatim>\<open>frame.c\<close>. The static variables of \<^verbatim>\<open>place_cascade\<close> are the field
  \<open>m_cascade\<close>. The function \<^verbatim>\<open>place_dialog_type\<close>, whose only call is commented out, is left out.
\<close>

subsection \<open>Placement\<close>

definition clamp_to_area :: "wmst \<Rightarrow> area \<Rightarrow> wclient \<Rightarrow> wclient" where
  "clamp_to_area wm a c =
     (case a of (wx, wy, ww, wh) \<Rightarrow>
        let max_cw = (if ww - 2 < 1 then 1 else ww - 2);
            max_ch = (if wh - title_of wm c - 2 < 1 then 1 else wh - title_of wm c - 2);
            c = (if w_width c > max_cw then c\<lparr>w_width := u16 max_cw\<rparr> else c);
            c = (if w_height c > max_ch then c\<lparr>w_height := u16 max_ch\<rparr> else c);
            fw = frame_total_width c;
            fh = frame_total_height wm c;
            c = (if w_x c + fw > wx + ww then c\<lparr>w_x := i16 (wx + ww - fw)\<rparr> else c);
            c = (if w_y c + fh > wy + wh then c\<lparr>w_y := i16 (wy + wh - fh)\<rparr> else c);
            c = (if w_x c < wx then c\<lparr>w_x := i16 wx\<rparr> else c) in
        if w_y c < wy then c\<lparr>w_y := i16 wy\<rparr> else c)"

definition clamp_to_work_area :: "xenv \<Rightarrow> wclient \<Rightarrow> wmst \<Rightarrow> wclient \<times> wmst" where
  "clamp_to_work_area env c wm =
     (let (a, wm) = wm_get_work_area env wm in (clamp_to_area wm a c, wm))"

definition place_transient :: "xenv \<Rightarrow> wclient \<Rightarrow> wmst \<Rightarrow> (wclient \<times> wmst) option" where
  "place_transient env c wm =
     (if w_transient_for c = 0 then None
      else case wm_find_client_by_window wm (w_transient_for c) of
        None \<Rightarrow> None
      | Some q \<Rightarrow>
          let parent = cl wm q;
              parent_cx = w_x parent + frame_total_width parent div 2;
              parent_cy = w_y parent + frame_total_height wm parent div 2;
              c = c\<lparr>w_x := i16 (parent_cx - frame_total_width c div 2),
                    w_y := i16 (parent_cy - frame_total_height wm c div 2)\<rparr> in
          Some (clamp_to_work_area env c wm))"

definition CASCADE_STEP :: int where "CASCADE_STEP = 24"

definition place_cascade :: "xenv \<Rightarrow> wclient \<Rightarrow> wmst \<Rightarrow> wclient \<times> wmst" where
  "place_cascade env c wm =
     (case wm_get_work_area env wm of ((wx, wy, ww, wh), wm) \<Rightarrow>
        let (cx, cy) = (case m_cascade wm of None \<Rightarrow> (wx, wy) | Some v \<Rightarrow> v);
            c = c\<lparr>w_x := i16 cx, w_y := i16 cy\<rparr>;
            cx = cx + CASCADE_STEP;
            cy = cy + CASCADE_STEP;
            (cx, cy) = (if cx > wx + (ww * 2) sdiv 3 \<or> cy > wy + (wh * 2) sdiv 3
                        then (wx, wy) else (cx, cy)) in
        clamp_to_work_area env c (wm\<lparr>m_cascade := Some (cx, cy)\<rparr>))"

definition wm_place_client :: "xenv \<Rightarrow> wclient \<Rightarrow> wmst \<Rightarrow> wclient \<times> wmst" where
  "wm_place_client env c wm =
     (let (transient, wm) = ask (e_transient_for env) RTransientFor (w_client c) wm;
          c = c\<lparr>w_transient_for := (case transient of Some w \<Rightarrow> w | None \<Rightarrow> 0)\<rparr> in
      case place_transient env c wm of
        Some r \<Rightarrow> r
      | None \<Rightarrow>
          let (hints, wm) = ask (e_normal_hints env) RNormalHints (w_client c) wm in
          if (case hints of Some h \<Rightarrow> h_us_position h \<or> h_p_position h | None \<Rightarrow> False)
          then clamp_to_work_area env c wm
          else place_cascade env c wm)"

subsection \<open>Resize throttling\<close>

definition client_supports_protocol :: "xenv \<Rightarrow> nat \<Rightarrow> protocol_atom \<Rightarrow> wmst \<Rightarrow> bool \<times> wmst" where
  "client_supports_protocol env win proto wm =
     (let (reply, wm) = ask (e_protocols env) RProtocols win wm in
      (case reply of None \<Rightarrow> False | Some atoms \<Rightarrow> proto \<in> set atoms, wm))"

definition sync_arm_alarm :: "xenv \<Rightarrow> nat \<Rightarrow> wmst \<Rightarrow> wmst" where
  "sync_arm_alarm env p wm =
     (if w_sync_alarm (cl wm p) = 0 then
        let (alarm, wm) = generate_id env wm;
            wm = upd p (\<lambda>c. c\<lparr>w_sync_alarm := alarm\<rparr>) wm in
        emit (XAlarm alarm (w_sync_counter (cl wm p)) (w_sync_value (cl wm p))) wm
      else
        emit (XAlarm (w_sync_alarm (cl wm p)) (w_sync_counter (cl wm p)) (w_sync_value (cl wm p))) wm)"

definition wm_sync_client_init :: "xenv \<Rightarrow> wclient \<Rightarrow> wmst \<Rightarrow> wclient \<times> wmst" where
  "wm_sync_client_init env c wm =
     (let c = c\<lparr>w_sync_timer := - 1\<rparr> in
      if \<not> m_sync wm then (c, wm)
      else let (yes, wm) = client_supports_protocol env (w_client c) SyncRequest wm in
        if \<not> yes then (c, wm)
        else let (reply, wm) = ask (e_card env) RSyncCounter (w_client c) wm in
          (case reply of Some v \<Rightarrow> c\<lparr>w_sync_counter := v\<rparr> | None \<Rightarrow> c, wm))"

definition wm_sync_client_cleanup :: "wclient \<Rightarrow> wmst \<Rightarrow> wclient \<times> wmst" where
  "wm_sync_client_cleanup c wm =
     (let wm = (if w_sync_timer c \<noteq> - 1 then wm_timer_remove (w_sync_timer c) wm else wm);
          wm = (if w_sync_alarm c \<noteq> 0 then emit (XDestroyAlarm (w_sync_alarm c)) wm else wm) in
      (c\<lparr>w_sync_timer := - 1, w_sync_alarm := 0, w_sync_waiting := False, w_sync_pending := False\<rparr>, wm))"

definition SYNC_FALLBACK_TIMEOUT_MS :: nat where "SYNC_FALLBACK_TIMEOUT_MS = 1000"

definition wm_sync_throttle :: "xenv \<Rightarrow> nat \<Rightarrow> wmst \<Rightarrow> bool \<times> wmst" where
  "wm_sync_throttle env p wm =
     (if w_sync_counter (cl wm p) = 0 then (False, wm)
      else if w_sync_waiting (cl wm p) then (True, upd p (\<lambda>c. c\<lparr>w_sync_pending := True\<rparr>) wm)
      else
        let wm = upd p (\<lambda>c. c\<lparr>w_sync_value := (w_sync_value c + 1) mod 2 ^ 64\<rparr>) wm;
            v = w_sync_value (cl wm p);
            wm = emit (XProtocol (w_client (cl wm p)) SyncRequest
                         [m_last_user_time wm, v mod 2 ^ 32, v div 2 ^ 32]) wm;
            wm = sync_arm_alarm env p wm;
            wm = upd p (\<lambda>c. c\<lparr>w_sync_waiting := True\<rparr>) wm;
            (i, wm) = wm_timer_add env SYNC_FALLBACK_TIMEOUT_MS CbSync wm in
        (False, upd p (\<lambda>c. c\<lparr>w_sync_timer := i\<rparr>) wm))"

definition sync_settle :: "xenv \<Rightarrow> nat \<Rightarrow> wmst \<Rightarrow> wmst" where
  "sync_settle env p wm =
     (let wm = upd p (\<lambda>c. c\<lparr>w_sync_waiting := False\<rparr>) wm;
          wm = (if w_sync_timer (cl wm p) \<noteq> - 1
                then upd p (\<lambda>c. c\<lparr>w_sync_timer := - 1\<rparr>) (wm_timer_remove (w_sync_timer (cl wm p)) wm)
                else wm) in
      if w_sync_pending (cl wm p)
      then frame_configure env p (upd p (\<lambda>c. c\<lparr>w_sync_pending := False\<rparr>) wm) else wm)"

definition wm_sync_alarm_notify :: "xenv \<Rightarrow> nat \<Rightarrow> nat \<Rightarrow> wmst \<Rightarrow> wmst" where
  "wm_sync_alarm_notify env alarm val wm =
     (case find (\<lambda>(p, c). w_sync_alarm c \<noteq> 0 \<and> w_sync_alarm c = alarm) (m_clients wm) of
        None \<Rightarrow> wm
      | Some (p, c) \<Rightarrow>
          if \<not> w_sync_waiting c \<or> val < w_sync_value c then wm else sync_settle env p wm)"

definition sync_timeout_client :: "xenv \<Rightarrow> nat \<Rightarrow> wmst \<Rightarrow> wmst" where
  "sync_timeout_client env p wm =
     (if w_sync_waiting (cl wm p) then
        let wm = upd p (\<lambda>c. c\<lparr>w_sync_timer := - 1, w_sync_waiting := False\<rparr>) wm;
            wm = (if w_sync_alarm (cl wm p) \<noteq> 0
                  then upd p (\<lambda>c. c\<lparr>w_sync_alarm := 0\<rparr>)
                         (emit (XDestroyAlarm (w_sync_alarm (cl wm p))) wm)
                  else wm);
            wm = upd p (\<lambda>c. c\<lparr>w_sync_counter := 0\<rparr>) wm in
        if w_sync_pending (cl wm p)
        then frame_configure env p (upd p (\<lambda>c. c\<lparr>w_sync_pending := False\<rparr>) wm) else wm
      else wm)"

definition sync_timeout_cb :: "xenv \<Rightarrow> wmst \<Rightarrow> wmst" where
  "sync_timeout_cb env wm = fold (sync_timeout_client env) (ptrs wm) wm"

subsection \<open>New frames\<close>

definition motif_decorated :: "nat list option \<Rightarrow> bool" where
  "motif_decorated reply =
     (case reply of
        None \<Rightarrow> True
      | Some hints \<Rightarrow> \<not> (length hints \<ge> 3 \<and> odd (hints ! 0 div 2) \<and> hints ! 2 = 0))"

definition wm_client_wants_decorations :: "xenv \<Rightarrow> nat \<Rightarrow> wmst \<Rightarrow> bool \<times> wmst" where
  "wm_client_wants_decorations env win wm =
     (let (reply, wm) = ask (e_motif env) RMotif win wm in (motif_decorated reply, wm))"

definition wm_window_type_wants_decorations :: "xenv \<Rightarrow> nat \<Rightarrow> wmst \<Rightarrow> bool \<times> wmst" where
  "wm_window_type_wants_decorations env win wm =
     (let (type, wm) = ask (e_window_type env) RWindowType win wm in
      (type \<notin> {TDock, TDesktop, TSplash, TToolbar, TMenu, TNotification}, wm))"

definition set_state_flag :: "net_atom \<Rightarrow> wclient \<Rightarrow> wclient" where
  "set_state_flag a c =
     (case a of
        AFullscreen \<Rightarrow> c\<lparr>w_fullscreen := True\<rparr>
      | AAbove \<Rightarrow> c\<lparr>w_above := True\<rparr>
      | ABelow \<Rightarrow> c\<lparr>w_below := True\<rparr>
      | AModal \<Rightarrow> c\<lparr>w_modal := True\<rparr>
      | ASticky \<Rightarrow> c\<lparr>w_sticky := True\<rparr>
      | ASkipTaskbar \<Rightarrow> c\<lparr>w_skip_taskbar := True\<rparr>
      | ASkipPager \<Rightarrow> c\<lparr>w_skip_pager := True\<rparr>
      | ADemandsAttention \<Rightarrow> c\<lparr>w_demands_attention := True\<rparr>
      | _ \<Rightarrow> c)"

definition read_wm_hints :: "(bool option \<times> nat option) option \<Rightarrow> wclient \<Rightarrow> wclient" where
  "read_wm_hints reply c =
     (let c = c\<lparr>w_input_hint := True, w_initial_state := 1\<rparr> in
      case reply of
        None \<Rightarrow> c
      | Some (input, state) \<Rightarrow>
          c\<lparr>w_input_hint := (case input of Some b \<Rightarrow> b | None \<Rightarrow> True),
            w_initial_state := (case state of Some s \<Rightarrow> s | None \<Rightarrow> 1)\<rparr>)"

definition read_user_time :: "xenv \<Rightarrow> wclient \<Rightarrow> wmst \<Rightarrow> wclient \<times> wmst" where
  "read_user_time env c wm =
     (let (utw, wm) = ask (e_card env) RUserTimeWindow (w_client c) wm;
          (c, wm) = (case utw of
                       Some w \<Rightarrow> (c\<lparr>w_user_time_window := w\<rparr>, emit (XSelectInput w) wm)
                     | None \<Rightarrow> (c, wm));
          ut_win = (if w_user_time_window c \<noteq> 0 then w_user_time_window c else w_client c);
          (ut, wm) = ask (e_card env) RUserTime ut_win wm in
      (case ut of Some t \<Rightarrow> c\<lparr>w_user_time := t\<rparr> | None \<Rightarrow> c, wm))"

definition read_client :: "xenv \<Rightarrow> nat \<Rightarrow> int \<times> int \<times> int \<times> int \<Rightarrow> wmst \<Rightarrow> wclient \<times> wmst" where
  "read_client env win geo wm =
     (case geo of (gx, gy, gw, gh) \<Rightarrow>
        let c = zero_client\<lparr>w_client := win, w_x := gx, w_y := gy, w_width := gw, w_height := gh\<rparr>;
            (hints, wm) = ask (e_normal_hints env) RNormalHints win wm;
            c = frame_read_size_hints hints c;
            (wh, wm) = ask (e_wm_hints env) RWmHints win wm;
            c = read_wm_hints wh c;
            (deco, wm) = wm_client_wants_decorations env win wm;
            (deco, wm) = (if deco then wm_window_type_wants_decorations env win wm else (False, wm));
            c = c\<lparr>w_decorated := deco\<rparr>;
            (title, wm) = fetch_title env win wm;
            c = c\<lparr>w_title := Some title\<rparr>;
            (atoms, wm) = ask (e_net_wm_state env) RNetWmState win wm;
            c = (case atoms of Some as \<Rightarrow> fold set_state_flag as c | None \<Rightarrow> c);
            (c, wm) = read_user_time env c wm;
            (sid, wm) = fetch_string env RStartupId win wm;
            c = c\<lparr>w_startup_id := sid\<rparr> in
        wm_sync_client_init env c wm)"

definition position_client :: "xenv \<Rightarrow> bool \<Rightarrow> wclient \<Rightarrow> wmst \<Rightarrow> wclient \<times> wmst" where
  "position_client env adopt c wm =
     (if adopt then
        let (tr, wm) = ask (e_transient_for env) RTransientFor (w_client c) wm in
        (c\<lparr>w_x := i16 (w_x c - 1), w_y := i16 (w_y c - (1 + title_of wm c)),
           w_transient_for := (case tr of Some w \<Rightarrow> w | None \<Rightarrow> 0)\<rparr>, wm)
      else wm_place_client env c wm)"

definition wrap_client :: "xenv \<Rightarrow> wclient \<Rightarrow> wmst \<Rightarrow> wclient \<times> wmst" where
  "wrap_client env c wm =
     (let win = w_client c;
          (frame, wm) = generate_id env wm;
          c = c\<lparr>w_frame := frame\<rparr>;
          wm = emits [XCreate frame (w_x c) (w_y c) (frame_total_width c) (frame_total_height wm c),
                      XSaveSet win True,
                      XReparent win frame 1 (1 + title_of wm c)] wm;
          (c, wm) = (if w_decorated c \<and> \<not> w_fixed_size c
                     then frame_create_grips env c wm else (c, wm));
          wm = emits [XResize win (w_width c) (w_height c), XSelectInput win, XGrabButton win] wm in
      (c, frame_set_extents env c wm))"

definition add_client :: "wclient \<Rightarrow> wmst \<Rightarrow> wmst" where
  "add_client c wm = wm\<lparr>m_clients := m_clients wm @ [(m_next wm, c)], m_next := Suc (m_next wm)\<rparr>"

definition frame_create :: "xenv \<Rightarrow> nat \<Rightarrow> bool \<Rightarrow> wmst \<Rightarrow> nat option \<times> wmst" where
  "frame_create env win adopt wm =
     (case ask (e_geometry env) RGeometry win wm of
        (None, wm) \<Rightarrow> (None, wm)
      | (Some geo, wm) \<Rightarrow>
          let (c, wm) = read_client env win geo wm;
              (c, wm) = position_client env adopt c wm;
              (c, wm) = wrap_client env c wm in
          (Some (m_next wm), add_client c wm))"

definition frame_destroy :: "wclient \<Rightarrow> wmst \<Rightarrow> wmst" where
  "frame_destroy c wm =
     (let (c, wm) = wm_sync_client_cleanup c wm;
          (c, wm) = frame_destroy_grips c wm in
      emits ([XSaveSet (w_client c) False,
              XReparent (w_client c) (m_root wm) (w_x c + 1) (w_y c + 1)] @
             (if w_minimized c then [] else [XMap (w_client c)]) @
             (if w_frame c \<noteq> 0 then [XDestroy (w_frame c)] else [])) wm)"

end
