(* ===== verification/Wm_Ops.thy ===== *)
theory Wm_Ops
  imports Wm_Place
begin

section \<open>isde-wm: operations on managed windows\<close>

text \<open>
  Focus, removal, maximise, full screen, minimise, stacking, snapping and monitors of
  \<^verbatim>\<open>wm.c\<close>; the virtual desktops of \<^verbatim>\<open>desktops.c\<close>, the window switcher of \<^verbatim>\<open>switcher.c\<close> and
  the window menu of \<^verbatim>\<open>frame.c\<close>. A pointer the manager has kept from an earlier event is
  followed only when it is still in the list; otherwise the code's behaviour is undefined and the
  state is marked by \<open>crash\<close>.
\<close>

subsection \<open>Stacking and focus\<close>

definition restack_requests :: "wmst \<Rightarrow> xreq list" where
  "restack_requests wm =
     (let shown = filter (\<lambda>c. w_frame c \<noteq> 0 \<and> w_mapped c) (map snd (m_clients wm)) in
      map (\<lambda>c. XStack (w_frame c) Below None) (filter w_below shown) @
      map (\<lambda>c. XStack (w_frame c) Above None) (filter w_above shown) @
      concat (map (\<lambda>c.
        if \<not> w_modal c \<or> w_transient_for c = 0 then []
        else case wm_find_client_by_window wm (w_transient_for c) of
          None \<Rightarrow> []
        | Some q \<Rightarrow> if w_frame (cl wm q) = 0 \<or> \<not> w_mapped (cl wm q) then []
                    else [XStack (w_frame c) Above (Some (w_frame (cl wm q)))]) shown))"

definition wm_restack_above_below :: "wmst \<Rightarrow> wmst" where
  "wm_restack_above_below wm = emits (restack_requests wm) wm"

definition modal_child :: "wmst \<Rightarrow> nat \<Rightarrow> nat" where
  "modal_child wm p =
     (case find (\<lambda>(q, m). w_modal m \<and> w_transient_for m = w_client (cl wm p) \<and>
                          w_frame m \<noteq> 0 \<and> w_mapped m) (m_clients wm) of
        Some (q, m) \<Rightarrow> q
      | None \<Rightarrow> p)"

definition unfocus_prev :: "xenv \<Rightarrow> nat \<Rightarrow> wmst \<Rightarrow> wmst" where
  "unfocus_prev env p wm =
     (let wm = wm_update_net_wm_state p (upd p (\<lambda>c. c\<lparr>w_focused := False\<rparr>) wm);
          wm = (if w_fullscreen (cl wm p) then emit (XStack (w_frame (cl wm p)) Below None) wm else wm) in
      frame_update_title env p wm)"

definition focus_raise :: "xenv \<Rightarrow> nat \<Rightarrow> nat \<Rightarrow> wmst \<Rightarrow> wmst" where
  "focus_raise env p time wm =
     (let wm = wm\<lparr>m_focus_seq := Suc (m_focus_seq wm)\<rparr>;
          wm = upd p (\<lambda>c. c\<lparr>w_focused := True, w_focus_seq := m_focus_seq wm\<rparr>) wm;
          c = cl wm p;
          wm = (if w_input_hint c then emit (XSetInputFocus (w_client c) time) wm else wm);
          (yes, wm) = client_supports_protocol env (w_client c) TakeFocus wm;
          wm = (if yes then emit (XProtocol (w_client c) TakeFocus [time]) wm else wm);
          wm = (if m_docks wm \<noteq> [] \<and> \<not> w_above c \<and> \<not> w_fullscreen c
                then emit (XStack (w_frame c) Below (Some (hd (m_docks wm)))) wm
                else emit (XStack (w_frame c) Above None) wm);
          wm = upd p (\<lambda>c. c\<lparr>w_demands_attention := False\<rparr>) wm in
      frame_update_title env p (wm_update_net_wm_state p wm))"

definition wm_focus_client :: "xenv \<Rightarrow> nat option \<Rightarrow> nat \<Rightarrow> wmst \<Rightarrow> wmst" where
  "wm_focus_client env target time wm =
     (let target = map_option (modal_child wm) target;
          prev = m_focused wm;
          wm = wm\<lparr>m_focused := target\<rparr>;
          wm = (case prev of
                  None \<Rightarrow> wm
                | Some q \<Rightarrow> if prev = target then wm
                            else if live wm q then unfocus_prev env q wm else crash wm);
          wm = (case target of None \<Rightarrow> wm | Some p \<Rightarrow> focus_raise env p time wm) in
      wm_ewmh_update_client_list_stacking (wm_restack_above_below (wm_ewmh_update_active wm)))"

fun mru :: "(nat \<times> wclient) list \<Rightarrow> (nat \<times> wclient) option \<Rightarrow> nat option" where
  "mru [] best = map_option fst best"
| "mru ((p, c) # cs) best =
     mru cs (case best of
               None \<Rightarrow> Some (p, c)
             | Some (q, b) \<Rightarrow> if w_focus_seq c > w_focus_seq b then Some (p, c) else best)"

subsection \<open>Snapping\<close>

definition snap_preview_hide :: "wmst \<Rightarrow> wmst" where
  "snap_preview_hide wm =
     (let wm = (if m_snap_preview wm \<noteq> 0
                then (emit (XDestroy (m_snap_preview wm)) wm)\<lparr>m_snap_preview := 0\<rparr> else wm) in
      wm\<lparr>m_snap_pending := SNAP_NONE\<rparr>)"

definition detect_snap_zone :: "wmst \<Rightarrow> int \<Rightarrow> int \<Rightarrow> snap_zone" where
  "detect_snap_zone wm rx ry =
     (let m = m_monitors wm ! monitor_at_point wm rx ry; t = 8;
          at_left = rx \<le> mo_x m + t;
          at_right = rx \<ge> mo_x m + mo_width m - t - 1;
          at_top = ry \<le> mo_y m + t;
          at_bottom = ry \<ge> mo_y m + mo_height m - t - 1 in
      if at_left \<and> at_top then SNAP_TL
      else if at_right \<and> at_top then SNAP_TR
      else if at_left \<and> at_bottom then SNAP_BL
      else if at_right \<and> at_bottom then SNAP_BR
      else if at_left then SNAP_LEFT
      else if at_right then SNAP_RIGHT
      else SNAP_NONE)"

definition snap_area :: "snap_zone \<Rightarrow> area \<Rightarrow> area" where
  "snap_area zone a =
     (case a of (wx, wy, ww, wh) \<Rightarrow>
        if ww \<le> 0 \<or> wh \<le> 0 then (0, 0, 0, 0)
        else case zone of
          SNAP_LEFT \<Rightarrow> (wx, wy, ww div 2, wh)
        | SNAP_RIGHT \<Rightarrow> (wx + ww div 2, wy, ww - ww div 2, wh)
        | SNAP_TL \<Rightarrow> (wx, wy, ww div 2, wh div 2)
        | SNAP_TR \<Rightarrow> (wx + ww div 2, wy, ww - ww div 2, wh div 2)
        | SNAP_BL \<Rightarrow> (wx, wy + wh div 2, ww div 2, wh - wh div 2)
        | SNAP_BR \<Rightarrow> (wx + ww div 2, wy + wh div 2, ww - ww div 2, wh - wh div 2)
        | SNAP_NONE \<Rightarrow> (0, 0, 0, 0))"

definition snap_geometry :: "xenv \<Rightarrow> snap_zone \<Rightarrow> nat \<Rightarrow> wmst \<Rightarrow> area \<times> wmst" where
  "snap_geometry env zone mon wm =
     (let (a, wm) = wm_get_monitor_work_area env mon wm in (snap_area zone a, wm))"

definition snap_preview_show :: "xenv \<Rightarrow> snap_zone \<Rightarrow> nat \<Rightarrow> wmst \<Rightarrow> wmst" where
  "snap_preview_show env zone mon wm =
     (case snap_geometry env zone mon wm of ((lx, ly, lw, lh), wm) \<Rightarrow>
        if lw \<le> 0 \<or> lh \<le> 0 then wm
        else
          let lx = lx + 2; ly = ly + 2;
              lw = (if lw - 4 < 1 then 1 else lw - 4);
              lh = (if lh - 4 < 1 then 1 else lh - 4) in
          if m_snap_preview wm = 0 then
            let (w, wm) = generate_id env wm in
            emits [XCreate w lx ly lw lh, XMap w] (wm\<lparr>m_snap_preview := w\<rparr>)
          else emit (XMoveResize (m_snap_preview wm) lx ly lw lh 0) wm)"

definition save_geometry :: "wclient \<Rightarrow> wclient" where
  "save_geometry c = c\<lparr>w_save := (w_x c, w_y c, w_width c, w_height c)\<rparr>"

definition restore_geometry :: "wclient \<Rightarrow> wclient" where
  "restore_geometry c =
     (case w_save c of (sx, sy, sw, sh) \<Rightarrow>
        c\<lparr>w_x := sx, w_y := sy, w_width := sw, w_height := sh\<rparr>)"

definition set_geometry :: "int \<Rightarrow> int \<Rightarrow> int \<Rightarrow> int \<Rightarrow> wclient \<Rightarrow> wclient" where
  "set_geometry gx gy gw gh c =
     c\<lparr>w_x := i16 gx, w_y := i16 gy, w_width := u16 gw, w_height := u16 gh\<rparr>"

definition apply_snap :: "xenv \<Rightarrow> nat \<Rightarrow> snap_zone \<Rightarrow> nat \<Rightarrow> wmst \<Rightarrow> wmst" where
  "apply_snap env p zone mon wm =
     (case snap_geometry env zone mon wm of ((sx, sy, sw, sh), wm) \<Rightarrow>
        frame_configure env p
          (upd p (\<lambda>c. set_geometry sx sy sw (sh - m_title_height wm) (save_geometry c)) wm))"

subsection \<open>Maximise, full screen, minimise\<close>

definition wm_maximize_client :: "xenv \<Rightarrow> nat \<Rightarrow> wmst \<Rightarrow> wmst" where
  "wm_maximize_client env p wm =
     (let wm = (if w_maximized (cl wm p)
                then upd p (\<lambda>c. (restore_geometry c)\<lparr>w_maximized := False\<rparr>) wm
                else
                  let wm = upd p save_geometry wm in
                  case wm_get_monitor_work_area env (monitor_for_client wm (cl wm p)) wm of
                    ((wx, wy, ww, wh), wm) \<Rightarrow>
                      upd p (\<lambda>c. (set_geometry wx wy (ww - 2) (wh - title_of wm c - 2) c)
                                   \<lparr>w_maximized := True\<rparr>) wm) in
      wm_update_net_wm_state p (frame_configure env p wm))"

definition wm_fullscreen_client :: "xenv \<Rightarrow> nat \<Rightarrow> bool \<Rightarrow> wmst \<Rightarrow> wmst" where
  "wm_fullscreen_client env p enable wm =
     (let wm = (if enable \<and> \<not> w_fullscreen (cl wm p) then
                  let m = m_monitors wm ! monitor_for_client wm (cl wm p);
                      wm = upd p (\<lambda>c. (set_geometry (mo_x m) (mo_y m) (mo_width m) (mo_height m)
                                         (save_geometry c))\<lparr>w_fullscreen := True\<rparr>) wm;
                      c = cl wm p in
                  emits [XMoveResize (w_frame c) (w_x c) (w_y c) (w_width c) (w_height c) 0,
                         XMove (w_client c) 0 0,
                         XResize (w_client c) (w_width c) (w_height c),
                         XStack (w_frame c) Above None,
                         XSet PFrameExtents (w_client c) [0, 0, 0, 0]] wm
                else if \<not> enable \<and> w_fullscreen (cl wm p) then
                  frame_configure env p
                    (upd p (\<lambda>c. (restore_geometry c)\<lparr>w_fullscreen := False\<rparr>) wm)
                else wm) in
      wm_update_net_wm_state p wm)"

definition iconify :: "nat \<Rightarrow> wmst \<Rightarrow> wmst" where
  "iconify p wm =
     (let wm = wm_set_wm_state p 3 (upd p (\<lambda>c. c\<lparr>w_minimized := True\<rparr>) wm);
          wm = (if w_frame (cl wm p) \<noteq> 0
                then upd p (\<lambda>c. c\<lparr>w_mapped := False\<rparr>) (emit (XUnmap (w_frame (cl wm p))) wm) else wm);
          wm = upd p (\<lambda>c. c\<lparr>w_ignore_unmap := w_ignore_unmap c + 1\<rparr>) wm in
      emit (XUnmap (w_client (cl wm p))) wm)"

definition focus_other :: "xenv \<Rightarrow> nat \<Rightarrow> wmst \<Rightarrow> wmst" where
  "focus_other env p wm =
     (let wm = wm\<lparr>m_focused := None\<rparr> in
      wm_ewmh_update_active
        (case find (\<lambda>q. q \<noteq> p) (ptrs wm) of
           None \<Rightarrow> wm
         | Some q \<Rightarrow> wm_focus_client env (Some q) 0 wm))"

definition wm_minimize_client :: "xenv \<Rightarrow> nat \<Rightarrow> wmst \<Rightarrow> wmst" where
  "wm_minimize_client env p wm =
     (let wm = iconify p wm in if m_focused wm = Some p then focus_other env p wm else wm)"

definition map_client :: "nat \<Rightarrow> wmst \<Rightarrow> wmst" where
  "map_client p wm =
     (let wm = emit (XMap (w_client (cl wm p))) wm in
      if w_frame (cl wm p) \<noteq> 0
      then upd p (\<lambda>c. c\<lparr>w_mapped := True\<rparr>) (emit (XMap (w_frame (cl wm p))) wm) else wm)"

definition wm_restore_client :: "nat \<Rightarrow> wmst \<Rightarrow> wmst" where
  "wm_restore_client p wm =
     (if \<not> w_minimized (cl wm p) then wm
      else map_client p (wm_set_wm_state p 1 (upd p (\<lambda>c. c\<lparr>w_minimized := False\<rparr>) wm)))"

definition wm_set_above :: "nat \<Rightarrow> bool \<Rightarrow> wmst \<Rightarrow> wmst" where
  "wm_set_above p enable wm =
     (let wm = upd p (\<lambda>c. c\<lparr>w_below := (w_below c \<and> \<not> enable), w_above := enable\<rparr>) wm in
      wm_ewmh_update_client_list_stacking (wm_restack_above_below (wm_update_net_wm_state p wm)))"

definition wm_set_below :: "nat \<Rightarrow> bool \<Rightarrow> wmst \<Rightarrow> wmst" where
  "wm_set_below p enable wm =
     (let wm = upd p (\<lambda>c. c\<lparr>w_above := (w_above c \<and> \<not> enable), w_below := enable\<rparr>) wm in
      wm_ewmh_update_client_list_stacking (wm_restack_above_below (wm_update_net_wm_state p wm)))"

subsection \<open>Hiding and showing for a desktop\<close>

definition visible_on :: "nat \<Rightarrow> nat \<Rightarrow> bool" where
  "visible_on current desk \<longleftrightarrow> desk = current \<or> desk = ALL_DESKTOPS"

definition hide_client :: "nat \<Rightarrow> wmst \<Rightarrow> wmst" where
  "hide_client p wm =
     (let wm = upd p (\<lambda>c. c\<lparr>w_hidden := True, w_ignore_unmap := w_ignore_unmap c + 1\<rparr>) wm;
          wm = emit (XUnmap (w_client (cl wm p))) wm in
      if w_frame (cl wm p) \<noteq> 0 \<and> w_mapped (cl wm p)
      then upd p (\<lambda>c. c\<lparr>w_mapped := False\<rparr>) (emit (XUnmap (w_frame (cl wm p))) wm) else wm)"

definition show_client :: "nat \<Rightarrow> wmst \<Rightarrow> wmst" where
  "show_client p wm = map_client p (upd p (\<lambda>c. c\<lparr>w_hidden := False\<rparr>) wm)"

definition desktop_changed :: "nat \<Rightarrow> nat \<Rightarrow> nat \<Rightarrow> wmst \<Rightarrow> wmst" where
  "desktop_changed p old new wm =
     (let before = visible_on (m_current_desktop wm) old;
          now = visible_on (m_current_desktop wm) new in
      if before \<and> \<not> now then
        let wm = hide_client p wm in
        if m_focused wm = Some p then wm_ewmh_update_active (wm\<lparr>m_focused := None\<rparr>) else wm
      else if \<not> before \<and> now then show_client p wm
      else wm)"

definition wm_move_to_desktop :: "nat \<Rightarrow> nat \<Rightarrow> wmst \<Rightarrow> wmst" where
  "wm_move_to_desktop p desk wm =
     (let old = w_desktop (cl wm p) in
      if desk = old then wm
      else desktop_changed p old desk
             (emit (XSet PWmDesktop (w_client (cl wm p)) [desk])
               (upd p (\<lambda>c. c\<lparr>w_desktop := desk\<rparr>) wm)))"

subsection \<open>Virtual desktops\<close>

definition wm_desktops_read_config :: "xenv \<Rightarrow> wmst \<Rightarrow> (int \<times> int) \<times> wmst" where
  "wm_desktops_read_config env wm =
     (let (cfg, wm) = ask (e_config env) RConfig 0 wm in
      (case cfg of
         None \<Rightarrow> (1, 2)
       | Some root \<Rightarrow>
           (case isde_config_table (isde_config_table (Some root) ''wm'') ''desktops'' of
              None \<Rightarrow> (1, 2)
            | Some desk \<Rightarrow>
                let r = s32 (isde_config_int (Some desk) ''rows'' 0);
                    c = s32 (isde_config_int (Some desk) ''columns'' 0) in
                (if r > 0 then r else 1, if c > 0 then c else 2)), wm))"

definition initial_grid :: "xenv \<Rightarrow> wmst \<Rightarrow> (int \<times> int) \<times> wmst" where
  "initial_grid env wm =
     (let (layout, wm) = ask (e_layout env) RDesktopLayout 0 wm in
      case layout of
        Some (lc, lr) \<Rightarrow> if lc > 0 \<and> lr > 0 then ((lr, lc), wm) else wm_desktops_read_config env wm
      | None \<Rightarrow> wm_desktops_read_config env wm)"

definition wm_desktops_init :: "xenv \<Rightarrow> wmst \<Rightarrow> wmst" where
  "wm_desktops_init env wm =
     (let ((rows, cols), wm) = initial_grid env wm;
          wm = wm\<lparr>m_desk_rows := rows, m_desk_cols := cols, m_num_desktops := s32 (rows * cols)\<rparr>;
          (reply, wm) = ask (e_card env) RCurrentDesktop (m_root wm) wm;
          prev = (case reply of Some d \<Rightarrow> d | None \<Rightarrow> 0);
          wm = wm\<lparr>m_current_desktop := (if prev < u32 (m_num_desktops wm) then prev else 0)\<rparr>;
          wm = emits [XSet PNumberOfDesktops (m_root wm) [u32 (m_num_desktops wm)],
                      XSet PCurrentDesktop (m_root wm) [m_current_desktop wm]] wm in
      wm\<lparr>m_desk_osd_timer := - 1, m_desk_reload_tries := 0\<rparr>)"

definition sync_visibility_client :: "nat \<Rightarrow> wmst \<Rightarrow> wmst" where
  "sync_visibility_client p wm =
     (let visible = visible_on (m_current_desktop wm) (w_desktop (cl wm p)) in
      if visible \<and> w_hidden (cl wm p) then show_client p wm
      else if \<not> visible \<and> \<not> w_hidden (cl wm p) then hide_client p wm
      else wm)"

definition wm_desktops_sync_visibility :: "wmst \<Rightarrow> wmst" where
  "wm_desktops_sync_visibility wm = fold sync_visibility_client (ptrs wm) wm"

definition pull_client :: "nat \<Rightarrow> nat \<Rightarrow> wmst \<Rightarrow> wmst" where
  "pull_client lst p wm =
     (if w_desktop (cl wm p) \<noteq> ALL_DESKTOPS \<and> w_desktop (cl wm p) > lst
      then emit (XSet PWmDesktop (w_client (cl wm p)) [lst]) (upd p (\<lambda>c. c\<lparr>w_desktop := lst\<rparr>) wm)
      else wm)"

definition wm_desktops_apply :: "int \<Rightarrow> int \<Rightarrow> wmst \<Rightarrow> wmst" where
  "wm_desktops_apply rows cols wm =
     (let rows = (if rows < 1 then 1 else rows);
          cols = (if cols < 1 then 1 else cols);
          wm = wm\<lparr>m_desk_rows := rows, m_desk_cols := cols, m_num_desktops := s32 (rows * cols)\<rparr>;
          lst = u32 (m_num_desktops wm - 1);
          wm = fold (pull_client lst) (ptrs wm) wm;
          wm = (if m_current_desktop wm > lst then wm\<lparr>m_current_desktop := lst\<rparr> else wm);
          wm = wm_desktops_sync_visibility wm in
      emits [XSet PNumberOfDesktops (m_root wm) [u32 (m_num_desktops wm)],
             XSet PCurrentDesktop (m_root wm) [m_current_desktop wm]] wm)"

definition wm_desktops_reload_poll :: "xenv \<Rightarrow> wmst \<Rightarrow> wmst" where
  "wm_desktops_reload_poll env wm =
     (let (layout, wm) = ask (e_layout env) RDesktopLayout 0 wm in
      if (case layout of
            Some (lc, lr) \<Rightarrow> lc > 0 \<and> lr > 0 \<and> (lc \<noteq> m_desk_cols wm \<or> lr \<noteq> m_desk_rows wm)
          | None \<Rightarrow> False)
      then wm_desktops_apply (snd (the layout)) (fst (the layout)) wm
      else
        let wm = wm\<lparr>m_desk_reload_tries := m_desk_reload_tries wm + 1\<rparr> in
        if m_desk_reload_tries wm \<ge> 40 then
          case wm_desktops_read_config env wm of
            ((rows, cols), wm) \<Rightarrow> wm_desktops_apply rows cols wm
        else snd (wm_timer_add env 50 CbReloadPoll wm))"

definition wm_desktops_settings_changed :: "xenv \<Rightarrow> wmst \<Rightarrow> wmst" where
  "wm_desktops_settings_changed env wm =
     snd (wm_timer_add env 50 CbReloadPoll (wm\<lparr>m_desk_reload_tries := 0\<rparr>))"

definition osd_hide_cb :: "wmst \<Rightarrow> wmst" where
  "osd_hide_cb wm =
     (let wm = (if m_desk_osd wm \<noteq> 0 then emit (XUnmap (m_desk_osd wm)) wm else wm) in
      wm\<lparr>m_desk_osd_timer := - 1\<rparr>)"

definition wm_desktops_show_osd :: "xenv \<Rightarrow> wmst \<Rightarrow> wmst" where
  "wm_desktops_show_osd env wm =
     (let cols = m_desk_cols wm; rows = m_desk_rows wm;
          cell = e_scale env 30; gap = e_scale env 4; pad = e_scale env 8;
          w = 2 * pad + cols * cell + (cols - 1) * gap;
          h = 2 * pad + rows * cell + (rows - 1) * gap;
          (pm, wm) = wm_get_primary_monitor env wm;
          sx = mo_x pm + (mo_width pm - w) sdiv 2;
          sy = mo_y pm + (mo_height pm - h) sdiv 2;
          wm = (if m_desk_osd_timer wm \<ge> 0
                then (wm_timer_remove (m_desk_osd_timer wm) wm)\<lparr>m_desk_osd_timer := - 1\<rparr> else wm);
          wm = (if m_desk_osd wm \<noteq> 0
                then emits [XMoveResize (m_desk_osd wm) sx sy w h 0, XMap (m_desk_osd wm)] wm
                else let (osd, wm) = generate_id env wm in
                  emits [XCreate osd sx sy w h, XMap osd] (wm\<lparr>m_desk_osd := osd\<rparr>));
          (i, wm) = wm_timer_add env 800 CbOsdHide wm in
      wm\<lparr>m_desk_osd_timer := i\<rparr>)"

definition switch_client :: "nat \<Rightarrow> nat \<Rightarrow> nat \<Rightarrow> wmst \<Rightarrow> wmst" where
  "switch_client old new p wm =
     (let d = w_desktop (cl wm p) in
      if d = ALL_DESKTOPS then wm
      else if d = old \<and> d \<noteq> new then hide_client p wm
      else if d = new \<and> d \<noteq> old then show_client p wm
      else wm)"

definition drop_focus :: "nat \<Rightarrow> wmst \<Rightarrow> wmst" where
  "drop_focus desk wm =
     (case m_focused wm of
        None \<Rightarrow> wm
      | Some q \<Rightarrow>
          if \<not> live wm q then crash wm
          else if w_desktop (cl wm q) \<noteq> desk \<and> w_desktop (cl wm q) \<noteq> ALL_DESKTOPS
          then (upd q (\<lambda>c. c\<lparr>w_focused := False\<rparr>) wm)\<lparr>m_focused := None\<rparr>
          else wm)"

definition focus_mru_on :: "xenv \<Rightarrow> nat \<Rightarrow> wmst \<Rightarrow> wmst" where
  "focus_mru_on env desk wm =
     (if m_focused wm = None
      then wm_focus_client env
             (mru (filter (\<lambda>(p, c). visible_on desk (w_desktop c)) (m_clients wm)) None) 0 wm
      else wm)"

definition wm_desktops_switch :: "xenv \<Rightarrow> nat \<Rightarrow> wmst \<Rightarrow> wmst" where
  "wm_desktops_switch env desk wm =
     (if desk \<ge> u32 (m_num_desktops wm) \<or> desk = m_current_desktop wm then wm
      else
        let old = m_current_desktop wm;
            wm = wm\<lparr>m_current_desktop := desk\<rparr>;
            wm = fold (switch_client old desk) (ptrs wm) wm;
            wm = emit (XSet PCurrentDesktop (m_root wm) [desk]) wm in
        wm_desktops_show_osd env (focus_mru_on env desk (drop_focus desk wm)))"

definition wm_desktops_move :: "xenv \<Rightarrow> int \<Rightarrow> int \<Rightarrow> wmst \<Rightarrow> wmst" where
  "wm_desktops_move env dx dy wm =
     (let col = int (m_current_desktop wm) mod m_desk_cols wm + dx;
          row = int (m_current_desktop wm) div m_desk_cols wm + dy;
          col = (if col < 0 then 0 else col);
          col = (if col \<ge> m_desk_cols wm then m_desk_cols wm - 1 else col);
          row = (if row < 0 then 0 else row);
          row = (if row \<ge> m_desk_rows wm then m_desk_rows wm - 1 else row) in
      wm_desktops_switch env (u32 (row * m_desk_cols wm + col)) wm)"

subsection \<open>Window switcher\<close>

definition build_order :: "wmst \<Rightarrow> wmst" where
  "build_order wm =
     wm\<lparr>m_switcher_order := map fst (sort_key (\<lambda>(p, c). - int (w_focus_seq c))
        (filter (\<lambda>(p, c). w_transient_for c = 0 \<and> visible_on (m_current_desktop wm) (w_desktop c))
                (m_clients wm)))\<rparr>"

definition create_osd :: "xenv \<Rightarrow> wmst \<Rightarrow> wmst" where
  "create_osd env wm =
     (let (pm, wm) = wm_get_primary_monitor env wm;
          max_height = mo_height pm sdiv 3;
          pad = e_scale env 8;
          row_h = e_scale env (e_font env ''general'' 4);
          max_rows = (max_height - 2 * pad) sdiv row_h;
          max_rows = (if max_rows < 1 then 1 else max_rows);
          count = int (length (m_switcher_order wm));
          vis = (if count > max_rows then max_rows else count);
          osd_h = vis * row_h + 2 * pad;
          osd_w = e_scale env 300;
          sx = mo_x pm + (mo_width pm - osd_w) sdiv 2;
          sy = mo_y pm + (mo_height pm - osd_h) sdiv 2;
          (shell, wm) = generate_id env wm in
      emits [XCreate shell sx sy osd_w osd_h, XMap shell]
        (wm\<lparr>m_switcher_visible := vis, m_switcher_shell := shell\<rparr>))"

definition destroy_osd :: "wmst \<Rightarrow> wmst" where
  "destroy_osd wm =
     (let wm = (if m_switcher_shell wm \<noteq> 0
                then (emit (XDestroy (m_switcher_shell wm)) wm)\<lparr>m_switcher_shell := 0\<rparr> else wm) in
      wm\<lparr>m_switcher_order := [], m_switcher_visible := 0\<rparr>)"

definition wm_switcher_next :: "wmst \<Rightarrow> wmst" where
  "wm_switcher_next wm =
     (if \<not> m_switcher_active wm \<or> m_switcher_order wm = [] then wm
      else wm\<lparr>m_switcher_sel :=
        (if m_switcher_sel wm + 1 \<ge> int (length (m_switcher_order wm)) then 0
         else m_switcher_sel wm + 1)\<rparr>)"

definition wm_switcher_prev :: "wmst \<Rightarrow> wmst" where
  "wm_switcher_prev wm =
     (if \<not> m_switcher_active wm \<or> m_switcher_order wm = [] then wm
      else wm\<lparr>m_switcher_sel :=
        (if m_switcher_sel wm - 1 < 0 then int (length (m_switcher_order wm)) - 1
         else m_switcher_sel wm - 1)\<rparr>)"

definition wm_switcher_show :: "xenv \<Rightarrow> wmst \<Rightarrow> wmst" where
  "wm_switcher_show env wm =
     (if m_switcher_active wm then wm_switcher_next wm
      else
        let wm = build_order wm in
        if length (m_switcher_order wm) < 2 then wm\<lparr>m_switcher_order := []\<rparr>
        else
          let wm = emit (XGrabKeyboard (m_root wm)) wm;
              (ok, wm) = ask (e_grabbed env) RGrabKeyboard (m_root wm) wm in
          if \<not> ok then wm\<lparr>m_switcher_order := []\<rparr>
          else create_osd env (wm\<lparr>m_switcher_active := True, m_switcher_sel := 1\<rparr>))"

definition wm_switcher_cancel :: "wmst \<Rightarrow> wmst" where
  "wm_switcher_cancel wm =
     (if \<not> m_switcher_active wm then wm
      else (destroy_osd (emit XUngrabKeyboard wm))\<lparr>m_switcher_active := False\<rparr>)"

definition wm_switcher_commit :: "xenv \<Rightarrow> wmst \<Rightarrow> wmst" where
  "wm_switcher_commit env wm =
     (if \<not> m_switcher_active wm then wm
      else
        let target = (if m_switcher_sel wm \<ge> 0 \<and>
                         m_switcher_sel wm < int (length (m_switcher_order wm))
                      then Some (m_switcher_order wm ! nat (m_switcher_sel wm)) else None);
            wm = (destroy_osd (emit XUngrabKeyboard wm))\<lparr>m_switcher_active := False\<rparr> in
        case target of
          None \<Rightarrow> wm
        | Some p \<Rightarrow>
            if \<not> live wm p then crash wm
            else wm_focus_client env (Some p) 0
                   (if w_minimized (cl wm p) then wm_restore_client p wm else wm))"

subsection \<open>Removal and closing\<close>

definition unlink_client :: "nat \<Rightarrow> wmst \<Rightarrow> wmst" where
  "unlink_client p wm =
     (let wm = wm\<lparr>m_clients := filter (\<lambda>(q, _). q \<noteq> p) (m_clients wm)\<rparr>;
          wm = (if m_focused wm = Some p then wm\<lparr>m_focused := None\<rparr> else wm);
          wm = (if m_drag_client wm = Some p
                then (snap_preview_hide wm)\<lparr>m_drag_client := None, m_drag_mode := DRAG_NONE\<rparr> else wm);
          wm = (if m_btn_press_client wm = Some p
                then (emit XUngrabPointer wm)\<lparr>m_btn_press_client := None, m_btn_press_btn := - 1,
                        m_btn_press_hover := False\<rparr> else wm) in
      wm_switcher_cancel wm)"

definition wm_remove_client :: "xenv \<Rightarrow> nat \<Rightarrow> wmst \<Rightarrow> wmst" where
  "wm_remove_client env p wm =
     (let c = cl wm p;
          wm = frame_destroy c (unlink_client p wm);
          wm = (if w_title c \<noteq> None \<or> w_icon_name c \<noteq> None
                then frame_disambiguate_all (w_title c) (w_icon_name c) wm else wm);
          wm = wm_ewmh_update_active
                 (wm_ewmh_update_client_list_stacking (wm_ewmh_update_client_list wm)) in
      if m_focused wm = None \<and> m_clients wm \<noteq> []
      then wm_focus_client env (mru (m_clients wm) None) 0 wm else wm)"

definition wm_close_client :: "xenv \<Rightarrow> nat \<Rightarrow> wmst \<Rightarrow> wmst" where
  "wm_close_client env p wm =
     (let win = w_client (cl wm p);
          (yes, wm) = client_supports_protocol env win DeleteWindow wm in
      if yes then emit (XProtocol win DeleteWindow [0]) wm else emit (XKillClient win) wm)"

subsection \<open>Docks and lost monitors\<close>

definition wm_add_dock :: "xenv \<Rightarrow> nat \<Rightarrow> wmst \<Rightarrow> wmst" where
  "wm_add_dock env win wm =
     (if win \<in> set (m_docks wm) then wm
      else wm_ewmh_update_workarea env
             (emit (XStack win Above None) (wm\<lparr>m_docks := m_docks wm @ [win]\<rparr>)))"

definition wm_remove_dock :: "xenv \<Rightarrow> nat \<Rightarrow> wmst \<Rightarrow> wmst" where
  "wm_remove_dock env win wm =
     (case find_index (\<lambda>d. d = win) (m_docks wm) of
        None \<Rightarrow> wm
      | Some i \<Rightarrow> wm_ewmh_update_workarea env (wm\<lparr>m_docks := swap_remove i (m_docks wm)\<rparr>))"

fun nearest_monitor :: "int \<times> int \<Rightarrow> monitor list \<Rightarrow> nat \<Rightarrow> nat \<Rightarrow> int \<Rightarrow> nat" where
  "nearest_monitor cc [] i best dist = best"
| "nearest_monitor cc (m # ms) i best dist =
     (let mx = mo_x m + mo_width m div 2; my = mo_y m + mo_height m div 2;
          d = (fst cc - mx) * (fst cc - mx) + (snd cc - my) * (snd cc - my) in
      if d < dist then nearest_monitor cc ms (Suc i) i d
      else nearest_monitor cc ms (Suc i) best dist)"

definition fit_to_monitor :: "wmst \<Rightarrow> monitor \<Rightarrow> wclient \<Rightarrow> wclient" where
  "fit_to_monitor wm m c =
     (let fw = frame_total_width c; fh = frame_total_height wm c;
          c = (if w_x c + fw > mo_x m + mo_width m then c\<lparr>w_x := i16 (mo_x m + mo_width m - fw)\<rparr> else c);
          c = (if w_y c + fh > mo_y m + mo_height m then c\<lparr>w_y := i16 (mo_y m + mo_height m - fh)\<rparr> else c);
          c = (if w_x c < mo_x m then c\<lparr>w_x := i16 (mo_x m)\<rparr> else c) in
      if w_y c < mo_y m then c\<lparr>w_y := i16 (mo_y m)\<rparr> else c)"

definition rescue_client :: "xenv \<Rightarrow> nat \<Rightarrow> wmst \<Rightarrow> wmst" where
  "rescue_client env p wm =
     (let c = cl wm p; (cx, cy) = client_center c in
      if list_ex (on_monitor cx cy) (m_monitors wm) then wm
      else
        let mon = nearest_monitor (cx, cy) (m_monitors wm) 0 0 2147483647;
            wm = (if w_maximized c then
                    case wm_get_monitor_work_area env mon wm of
                      ((wx, wy, ww, wh), wm) \<Rightarrow>
                        upd p (\<lambda>c. set_geometry wx wy (ww - 2) (wh - title_of wm c - 2) c) wm
                  else upd p (fit_to_monitor wm (m_monitors wm ! mon)) wm) in
        frame_configure env p wm)"

definition rescue_orphaned_clients :: "xenv \<Rightarrow> wmst \<Rightarrow> wmst" where
  "rescue_orphaned_clients env wm = fold (rescue_client env) (ptrs wm) wm"

subsection \<open>Window menu\<close>

definition wm_dismiss_menu :: "wmst \<Rightarrow> wmst" where
  "wm_dismiss_menu wm =
     (if m_win_menu wm \<noteq> 0
      then (emits [XUngrabKeyboard, XUngrabPointer, XDestroy (m_win_menu wm)] wm)
             \<lparr>m_win_menu := 0, m_menu_client := None, m_menu_item_count := 0\<rparr>
      else wm)"

definition win_menu_show :: "xenv \<Rightarrow> nat \<Rightarrow> wmst \<Rightarrow> wmst" where
  "win_menu_show env p wm =
     (let wm = wm_dismiss_menu wm;
          item_h = e_scale env (e_font env ''menu'' 6);
          total_items = 2 + 1 + m_num_desktops wm + 1;
          menu_w = e_scale env 180;
          menu_h = total_items * item_h;
          (menu, wm) = generate_id env wm;
          wm = emits [XCreate menu (w_x (cl wm p) + 1) (w_y (cl wm p) + m_title_height wm + 1)
                        menu_w menu_h,
                      XMap menu, XGrabKeyboard menu, XGrabPointer menu] wm in
      wm\<lparr>m_win_menu := menu, m_menu_client := Some p, m_menu_item_count := total_items,
         m_menu_item_height := item_h\<rparr>)"

definition win_menu_click :: "int \<Rightarrow> wmst \<Rightarrow> wmst" where
  "win_menu_click y wm =
     (case m_menu_client wm of
        None \<Rightarrow> wm
      | Some p \<Rightarrow>
          if \<not> live wm p then crash wm
          else
            let idx = y sdiv m_menu_item_height wm;
                wm = (if idx = 0 then wm_set_above p (\<not> w_above (cl wm p)) wm
                      else if idx = 1 then wm_set_below p (\<not> w_below (cl wm p)) wm
                      else if idx = 2 then wm
                      else if idx \<ge> 3 \<and> idx < 3 + m_num_desktops wm
                        then wm_move_to_desktop p (u32 (idx - 3)) wm
                      else if idx = 3 + m_num_desktops wm then wm_move_to_desktop p ALL_DESKTOPS wm
                      else wm) in
            wm_dismiss_menu wm)"

end
