(* ===== verification/Wm_Events.thy ===== *)
theory Wm_Events
  imports Wm_Ops Text_Lines
begin

section \<open>isde-wm: events, timers and the main loop\<close>

text \<open>
  The handlers of \<^verbatim>\<open>wm.c\<close> and \<^verbatim>\<open>keys.c\<close>: startup notification, map, configure, unmap and destroy
  events, client messages, the pointer, the keyboard, timers, start and end of the program, and the
  states it reaches. An event is a value of \<open>xevent\<close>; the decoding of the X protocol is not
  modelled. A state marked by \<open>crash\<close> handles no event.
\<close>

subsection \<open>Startup notification\<close>

fun strstr_after :: "cstr \<Rightarrow> cstr \<Rightarrow> cstr option" where
  "strstr_after key [] = (if key = [] then Some [] else None)"
| "strstr_after key (c # cs) =
     (if take (length key) (c # cs) = key then Some (drop (length key) (c # cs))
      else strstr_after key cs)"

fun sn_unquote :: "cstr \<Rightarrow> cstr" where
  "sn_unquote [] = []"
| "sn_unquote [c] = (if c = CHR 0x22 then [] else [c])"
| "sn_unquote (c # d # cs) =
     (if c = CHR 0x22 then []
      else if c = CHR 0x5C then d # sn_unquote cs
      else c # sn_unquote (d # cs))"

definition sn_parse_value :: "cstr \<Rightarrow> cstr \<Rightarrow> cstr option" where
  "sn_parse_value msg key =
     (case strstr_after key msg of
        None \<Rightarrow> None
      | Some p \<Rightarrow>
          Some (if p \<noteq> [] \<and> hd p = CHR 0x22 then sn_unquote (tl p)
                else takeWhile (\<lambda>c. c \<noteq> CHR '' '' \<and> c \<noteq> CHR 0x09) p))"

definition strtoul_dec :: "cstr \<Rightarrow> nat" where
  "strtoul_dec s =
     (let s = dropWhile isspace s;
          neg = (s \<noteq> [] \<and> hd s = CHR ''-'');
          s = (if s \<noteq> [] \<and> hd s \<in> {CHR ''-'', CHR ''+''} then tl s else s);
          n = foldl (\<lambda>a c. 10 * a + (of_char c - 48)) 0
                (takeWhile (\<lambda>c. 48 \<le> (of_char c :: nat) \<and> of_char c \<le> (57 :: nat)) s) in
      if n \<ge> 2 ^ 64 then 2 ^ 64 - 1 else if neg then nat ((- int n) mod 2 ^ 64) else n)"

definition to_lower :: "char \<Rightarrow> char" where
  "to_lower c =
     (if 65 \<le> (of_char c :: nat) \<and> of_char c \<le> (90 :: nat) then char_of (of_char c + 32 :: nat) else c)"

definition wm_find_startup_seq :: "wmst \<Rightarrow> cstr \<Rightarrow> startup_seq option" where
  "wm_find_startup_seq wm i = find (\<lambda>s. s_id s = i) (m_startup_seqs wm)"

definition wm_find_startup_seq_by_wmclass :: "wmst \<Rightarrow> cstr \<Rightarrow> cstr \<Rightarrow> startup_seq option" where
  "wm_find_startup_seq_by_wmclass wm inst cls =
     find (\<lambda>s. case s_wmclass s of
                 None \<Rightarrow> False
               | Some w \<Rightarrow> map to_lower w = map to_lower cls \<or> map to_lower w = map to_lower inst)
       (m_startup_seqs wm)"

definition startup_requests :: "cstr \<Rightarrow> xreq list" where
  "startup_requests msg =
     (let cs = data_pieces msg in map2 XStartupInfo (True # replicate (length cs - 1) False) cs)"

definition wm_remove_startup_seq :: "startup_seq \<Rightarrow> wmst \<Rightarrow> wmst" where
  "wm_remove_startup_seq s wm =
     (let wm = wm\<lparr>m_startup_seqs := filter (\<lambda>t. s_id t \<noteq> s_id s) (m_startup_seqs wm)\<rparr>;
          wm = (if s_timer s \<ge> 0 then wm_timer_remove (s_timer s) wm else wm) in
      emits (startup_requests (snprintf 256 (''remove: ID='' @ s_id s))) wm)"

definition startup_timeout_cb :: "cstr \<Rightarrow> wmst \<Rightarrow> wmst" where
  "startup_timeout_cb i wm =
     (case wm_find_startup_seq wm i of
        None \<Rightarrow> wm
      | Some s \<Rightarrow> wm_remove_startup_seq (s\<lparr>s_timer := - 1\<rparr>) wm)"

definition STARTUP_TIMEOUT_MS :: nat where "STARTUP_TIMEOUT_MS = 30000"

definition sn_handle_message :: "xenv \<Rightarrow> cstr \<Rightarrow> wmst \<Rightarrow> wmst" where
  "sn_handle_message env msg wm =
     (if take 4 msg = ''new:'' then
        case sn_parse_value msg ''ID='' of
          None \<Rightarrow> wm
        | Some i \<Rightarrow>
            if wm_find_startup_seq wm i \<noteq> None then wm
            else
              let ts = (case sn_parse_value msg ''TIMESTAMP='' of
                          Some t \<Rightarrow> strtoul_dec t mod 2 ^ 32 | None \<Rightarrow> 0);
                  (timer, wm) = wm_timer_add env STARTUP_TIMEOUT_MS (CbStartup i) wm in
              wm\<lparr>m_startup_seqs := \<lparr>s_id = i, s_wmclass = sn_parse_value msg ''WMCLASS='',
                                     s_timestamp = ts, s_timer = timer\<rparr> # m_startup_seqs wm\<rparr>
      else if take 7 msg = ''remove:'' then
        case sn_parse_value msg ''ID='' of
          None \<Rightarrow> wm
        | Some i \<Rightarrow>
            (case wm_find_startup_seq wm i of
               None \<Rightarrow> wm
             | Some s \<Rightarrow> wm_remove_startup_seq s wm)
      else wm)"

definition on_startup_info :: "xenv \<Rightarrow> bool \<Rightarrow> cstr \<Rightarrow> wmst \<Rightarrow> wmst" where
  "on_startup_info env is_begin data wm =
     (let buf = (if is_begin then [] else m_sn_buf wm);
          space = 2048 - length buf - 1 in
      if space = 0 then wm\<lparr>m_sn_buf := []\<rparr>
      else
        let buf = buf @ take (min 20 space) data in
        if CHR 0x00 \<in> set data
        then (sn_handle_message env (takeWhile (\<lambda>c. c \<noteq> CHR 0x00) buf) (wm\<lparr>m_sn_buf := buf\<rparr>))
               \<lparr>m_sn_buf := []\<rparr>
        else wm\<lparr>m_sn_buf := buf\<rparr>)"

subsection \<open>Events\<close>

record configure_values =
  v_x :: "int option"
  v_y :: "int option"
  v_width :: "int option"
  v_height :: "int option"

datatype client_msg =
    NetActiveWindow nat nat nat
  | NetCloseWindow nat
  | NetWmState nat nat net_atom net_atom
  | NetWmMoveresize nat int int nat nat
  | WmChangeState nat nat
  | NetCurrentDesktop nat
  | NetWmDesktop nat nat
  | StartupInfo bool cstr
  | NetRequestFrameExtents nat
  | OtherMessage

datatype prop_atom = PropName | PropNormalHints | PropMotif | PropUserTime | PropResources | PropOther

record key_event =
  k_detail :: nat
  k_alt :: bool
  k_shift :: bool
  k_ctrl :: bool
  k_super :: bool
  k_time :: nat

record button_event =
  b_event :: nat
  b_detail :: nat
  b_time :: nat
  b_x :: int
  b_y :: int
  b_root_x :: int
  b_root_y :: int

datatype xevent =
    MapRequest nat
  | ConfigureRequest nat configure_values
  | UnmapNotify nat nat
  | DestroyNotify nat
  | ClientMessage client_msg
  | MotionNotify int int
  | ButtonPress button_event
  | ButtonRelease button_event
  | PropertyNotify nat prop_atom
  | KeyPress key_event
  | KeyRelease key_event
  | SelectionClear bool
  | RandrNotify
  | SyncAlarmNotify nat nat
  | OtherEvent

definition earlier :: "nat \<Rightarrow> nat \<Rightarrow> bool" where
  "earlier a b \<longleftrightarrow> s32 (int a - int b) < 0"

subsection \<open>Map, configure, unmap, destroy\<close>

definition match_startup :: "xenv \<Rightarrow> nat \<Rightarrow> wmst \<Rightarrow> startup_seq option \<times> wmst" where
  "match_startup env p wm =
     (case (case w_startup_id (cl wm p) of Some i \<Rightarrow> wm_find_startup_seq wm i | None \<Rightarrow> None) of
        Some s \<Rightarrow> (Some s, wm)
      | None \<Rightarrow>
          (case ask (e_wm_class env) RWmClass (w_client (cl wm p)) wm of
             (None, wm) \<Rightarrow> (None, wm)
           | (Some (inst, cls), wm) \<Rightarrow> (wm_find_startup_seq_by_wmclass wm inst cls, wm)))"

definition focus_new :: "xenv \<Rightarrow> nat \<Rightarrow> wmst \<Rightarrow> wmst" where
  "focus_new env p wm =
     (case match_startup env p wm of
        (Some s, wm) \<Rightarrow>
          let wm = (if s_timestamp s \<noteq> 0 then upd p (\<lambda>c. c\<lparr>w_user_time := s_timestamp s\<rparr>) wm else wm);
              wm = wm_remove_startup_seq s wm in
          wm_focus_client env (Some p) (w_user_time (cl wm p)) wm
      | (None, wm) \<Rightarrow>
          if m_focused wm \<noteq> None \<and> w_user_time (cl wm p) \<noteq> 0 \<and> m_last_user_time wm \<noteq> 0 \<and>
             earlier (w_user_time (cl wm p)) (m_last_user_time wm)
          then wm
          else wm_focus_client env (Some p) (w_user_time (cl wm p)) wm)"

definition map_dock :: "xenv \<Rightarrow> nat \<Rightarrow> wmst \<Rightarrow> wmst" where
  "map_dock env win wm =
     wm_restack_above_below (emits [XSelectInput win, XMap win] (wm_add_dock env win wm))"

definition start_client :: "xenv \<Rightarrow> nat \<Rightarrow> wmst \<Rightarrow> wmst" where
  "start_client env p wm =
     (let wm = emits [XMap (w_client (cl wm p)), XMap (w_frame (cl wm p))] wm;
          wm = wm_set_wm_state p 1 (upd p (\<lambda>c. c\<lparr>w_mapped := True\<rparr>) wm);
          wm = frame_send_configure_notify env (cl wm p) wm;
          wm = (if w_fullscreen (cl wm p)
                then wm_fullscreen_client env p True (upd p (\<lambda>c. c\<lparr>w_fullscreen := False\<rparr>) wm) else wm);
          wm = focus_new env p wm in
      if w_above (cl wm p) \<or> w_below (cl wm p) then wm_restack_above_below wm else wm)"

definition on_map_request :: "xenv \<Rightarrow> nat \<Rightarrow> wmst \<Rightarrow> wmst" where
  "on_map_request env win wm =
     (if wm_find_client_by_window wm win \<noteq> None then wm
      else
        let (attr, wm) = ask (e_attributes env) RAttributes win wm in
        if (case attr of Some (override, _) \<Rightarrow> override | None \<Rightarrow> False) then wm
        else
          let (type, wm) = ask (e_window_type env) RWindowType win wm in
          if type = TDock then map_dock env win wm
          else
            case frame_create env win False wm of
              (None, wm) \<Rightarrow> wm
            | (Some p, wm) \<Rightarrow>
                let wm = upd p (\<lambda>c. c\<lparr>w_desktop := m_current_desktop wm\<rparr>) wm;
                    wm = emit (XSet PWmDesktop win [m_current_desktop wm]) wm;
                    wm = wm_ewmh_set_allowed_actions p wm;
                    wm = (if w_initial_state (cl wm p) = 3
                          then wm_minimize_client env p (wm_set_wm_state p 3 wm)
                          else start_client env p wm) in
                wm_ewmh_update_client_list_stacking (wm_ewmh_update_client_list wm))"

definition on_configure_request :: "xenv \<Rightarrow> nat \<Rightarrow> configure_values \<Rightarrow> wmst \<Rightarrow> wmst" where
  "on_configure_request env win v wm =
     (case wm_find_client_by_window wm win of
        None \<Rightarrow> emit (XConfigureOther win) wm
      | Some p \<Rightarrow>
          let wm = (case v_width v of Some w \<Rightarrow> upd p (\<lambda>c. c\<lparr>w_width := u16 w\<rparr>) wm | None \<Rightarrow> wm);
              wm = (case v_height v of Some h \<Rightarrow> upd p (\<lambda>c. c\<lparr>w_height := u16 h\<rparr>) wm | None \<Rightarrow> wm);
              wm = (if v_x v \<noteq> None \<or> v_y v \<noteq> None then
                      let (cur_gx, cur_gy) = frame_frame_to_gravity wm (cl wm p);
                          gx = (case v_x v of Some x \<Rightarrow> x | None \<Rightarrow> cur_gx);
                          gy = (case v_y v of Some y \<Rightarrow> y | None \<Rightarrow> cur_gy);
                          (fx, fy) = frame_gravity_to_frame wm (cl wm p) gx gy in
                      upd p (\<lambda>c. c\<lparr>w_x := i16 fx, w_y := i16 fy\<rparr>) wm
                    else wm) in
          frame_configure env p wm)"

definition on_unmap_notify :: "xenv \<Rightarrow> nat \<Rightarrow> nat \<Rightarrow> wmst \<Rightarrow> wmst" where
  "on_unmap_notify env event win wm =
     (case wm_find_client_by_window wm win of
        None \<Rightarrow> wm
      | Some p \<Rightarrow>
          if w_frame (cl wm p) \<noteq> 0 \<and> event = w_frame (cl wm p) then
            if w_ignore_unmap (cl wm p) > 0
            then upd p (\<lambda>c. c\<lparr>w_ignore_unmap := w_ignore_unmap c - 1\<rparr>) wm
            else wm_remove_client env p wm
          else wm)"

definition on_destroy_notify :: "xenv \<Rightarrow> nat \<Rightarrow> wmst \<Rightarrow> wmst" where
  "on_destroy_notify env win wm =
     (let wm = wm_remove_dock env win wm in
      case wm_find_client_by_window wm win of
        None \<Rightarrow> wm
      | Some p \<Rightarrow> wm_remove_client env p wm)"

subsection \<open>The pointer\<close>

definition find_grip_client :: "wmst \<Rightarrow> nat \<Rightarrow> (nat \<times> nat) option" where
  "find_grip_client wm win =
     (case find (\<lambda>(p, c). win \<in> set (w_grip c)) (m_clients wm) of
        None \<Rightarrow> None
      | Some (p, c) \<Rightarrow> map_option (\<lambda>i. (p, i)) (find_index (\<lambda>g. g = win) (w_grip c)))"

definition begin_drag :: "drag_mode \<Rightarrow> nat \<Rightarrow> int \<Rightarrow> int \<Rightarrow> nat \<Rightarrow> wmst \<Rightarrow> wmst" where
  "begin_drag mode p rx ry button wm =
     wm\<lparr>m_drag_mode := mode, m_drag_client := Some p, m_drag_start := (i16 rx, i16 ry),
        m_drag_button := button, m_drag_orig := (w_x (cl wm p), w_y (cl wm p)),
        m_drag_orig_size := (w_width (cl wm p), w_height (cl wm p))\<rparr>"

definition on_grip_press :: "xenv \<Rightarrow> button_event \<Rightarrow> wmst \<Rightarrow> wmst" where
  "on_grip_press env ev wm =
     (case find_grip_client wm (b_event ev) of
        None \<Rightarrow> wm
      | Some (p, edge) \<Rightarrow>
          if w_fixed_size (cl wm p) \<or> b_detail ev \<noteq> 1 \<and> b_detail ev \<noteq> 3 then wm
          else
            let wm = wm_focus_client env (Some p) (b_time ev) wm in
            emit (XGrabPointer (m_root wm))
              ((begin_drag DRAG_RESIZE p (b_root_x ev) (b_root_y ev) (b_detail ev) wm)
                 \<lparr>m_resize_edge := edge\<rparr>))"

definition resize_axis ::
  "bool \<Rightarrow> bool \<Rightarrow> int \<Rightarrow> int \<Rightarrow> int \<Rightarrow> int \<times> int" where
  "resize_axis low high orig len delta =
     (let n = (if low then len - delta else len);
          pos = (if low then orig + delta else orig);
          n = (if high then len + delta else n) in (pos, n))"

definition resize_geometry :: "wmst \<Rightarrow> wclient \<Rightarrow> int \<Rightarrow> int \<Rightarrow> area" where
  "resize_geometry wm c dx dy =
     (let e = m_resize_edge wm;
          (ox, oy) = m_drag_orig wm; (ow, oh) = m_drag_orig_size wm;
          (ny, nh) = resize_axis (e \<in> {0, 4, 5}) (e \<in> {1, 6, 7}) oy oh dy;
          (nx, nw) = resize_axis (e \<in> {2, 4, 6}) (e \<in> {3, 5, 7}) ox ow dx;
          min_w = (if fst (w_min c) > 0 then fst (w_min c) else 50);
          min_h = (if snd (w_min c) > 0 then snd (w_min c) else 50);
          bw = (if fst (w_base c) > 0 then fst (w_base c) else min_w);
          bh = (if snd (w_base c) > 0 then snd (w_base c) else min_h);
          stepped = (fst (w_inc c) > 1 \<or> snd (w_inc c) > 1);
          nw = (if stepped then bw + ((nw - bw) sdiv fst (w_inc c)) * fst (w_inc c) else nw);
          nh = (if stepped then bh + ((nh - bh) sdiv snd (w_inc c)) * snd (w_inc c) else nh);
          (nx, nw) = (if nw < min_w then (ox + ow - min_w, min_w) else (nx, nw));
          (ny, nh) = (if nh < min_h then (oy + oh - min_h, min_h) else (ny, nh));
          nw = (if fst (w_max c) > 0 \<and> nw > fst (w_max c) then fst (w_max c) else nw);
          nh = (if snd (w_max c) > 0 \<and> nh > snd (w_max c) then snd (w_max c) else nh) in
      (nx, ny, nw, nh))"

definition unmaximize_drag :: "xenv \<Rightarrow> nat \<Rightarrow> int \<Rightarrow> int \<Rightarrow> wmst \<Rightarrow> wmst" where
  "unmaximize_drag env p rx ry wm =
     (let max_w = w_width (cl wm p);
          off_x = fst (m_drag_start wm) - fst (m_drag_orig wm);
          off_y = snd (m_drag_start wm) - snd (m_drag_orig wm);
          wm = wm_maximize_client env p wm;
          off_x = (if max_w > 0 then (off_x * w_width (cl wm p)) sdiv max_w else off_x) in
      wm\<lparr>m_drag_orig := (i16 (rx - off_x), i16 (ry - off_y)), m_drag_start := (i16 rx, i16 ry)\<rparr>)"

definition drag_move :: "xenv \<Rightarrow> nat \<Rightarrow> int \<Rightarrow> int \<Rightarrow> wmst \<Rightarrow> wmst" where
  "drag_move env p rx ry wm =
     (let dx = rx - fst (m_drag_start wm); dy = ry - snd (m_drag_start wm);
          restore = (w_maximized (cl wm p) \<and> (dx \<noteq> 0 \<or> dy \<noteq> 0));
          wm = (if restore then unmaximize_drag env p rx ry wm else wm);
          (dx, dy) = (if restore then (0, 0) else (dx, dy));
          wm = upd p (\<lambda>c. c\<lparr>w_x := i16 (fst (m_drag_orig wm) + dx),
                             w_y := i16 (snd (m_drag_orig wm) + dy)\<rparr>) wm;
          wm = emit (XMove (w_frame (cl wm p)) (w_x (cl wm p)) (w_y (cl wm p))) wm;
          zone = detect_snap_zone wm rx ry;
          mon = monitor_at_point wm rx ry in
      if zone \<noteq> SNAP_NONE then
        if m_snap_pending wm \<noteq> zone \<or> m_snap_monitor wm \<noteq> mon
        then (snap_preview_show env zone mon wm)\<lparr>m_snap_pending := zone, m_snap_monitor := mon\<rparr>
        else wm
      else if m_snap_pending wm \<noteq> SNAP_NONE then snap_preview_hide wm
      else wm)"

definition drag_resize :: "xenv \<Rightarrow> nat \<Rightarrow> int \<Rightarrow> int \<Rightarrow> wmst \<Rightarrow> wmst" where
  "drag_resize env p rx ry wm =
     (case resize_geometry wm (cl wm p) (rx - fst (m_drag_start wm)) (ry - snd (m_drag_start wm)) of
        (nx, ny, nw, nh) \<Rightarrow>
          case wm_sync_throttle env p (upd p (set_geometry nx ny nw nh) wm) of
            (deferred, wm) \<Rightarrow> if deferred then wm else frame_configure env p wm)"

definition on_motion_notify :: "xenv \<Rightarrow> int \<Rightarrow> int \<Rightarrow> wmst \<Rightarrow> wmst" where
  "on_motion_notify env rx ry wm =
     (case m_drag_client wm of
        None \<Rightarrow> wm
      | Some p \<Rightarrow>
          (case m_drag_mode wm of
             DRAG_NONE \<Rightarrow> wm
           | DRAG_MOVE \<Rightarrow> if live wm p then drag_move env p rx ry wm else crash wm
           | DRAG_RESIZE \<Rightarrow> if live wm p then drag_resize env p rx ry wm else crash wm))"

definition end_drag :: "wmst \<Rightarrow> wmst" where
  "end_drag wm =
     (emit XUngrabPointer (snap_preview_hide wm))\<lparr>m_drag_mode := DRAG_NONE, m_drag_client := None\<rparr>"

definition on_button_release :: "xenv \<Rightarrow> nat \<Rightarrow> wmst \<Rightarrow> wmst" where
  "on_button_release env detail wm =
     (if m_drag_button wm \<noteq> 0 \<and> detail \<noteq> m_drag_button wm \<or> m_drag_mode wm = DRAG_NONE then wm
      else
        case m_drag_client wm of
          None \<Rightarrow> end_drag wm
        | Some p \<Rightarrow>
            if \<not> live wm p then crash wm
            else
              let wm = (if m_drag_mode wm = DRAG_MOVE \<and> m_snap_pending wm \<noteq> SNAP_NONE
                        then apply_snap env p (m_snap_pending wm) (m_snap_monitor wm) wm else wm);
                  wm = (if m_drag_mode wm = DRAG_RESIZE \<and> w_sync_waiting (cl wm p)
                        then sync_settle env p wm else wm) in
              end_drag wm)"

definition on_frame_button_press :: "xenv \<Rightarrow> nat \<Rightarrow> button_event \<Rightarrow> wmst \<Rightarrow> wmst" where
  "on_frame_button_press env p ev wm =
     (if \<not> w_decorated (cl wm p) \<or> b_y ev \<ge> m_title_height wm \<or>
         b_detail ev \<noteq> 1 \<and> b_detail ev \<noteq> 3 then wm
      else
        let wm = wm_focus_client env (Some p) (b_time ev) wm;
            btn = frame_button_at wm (cl wm p) (b_x ev) (b_y ev) in
        if btn \<ge> 0 then
          emit (XGrabPointer (m_root wm))
            (wm\<lparr>m_btn_press_client := Some p, m_btn_press_btn := btn, m_btn_press_hover := True,
                m_btn_press_mouse := b_detail ev\<rparr>)
        else
          emit (XGrabPointer (m_root wm))
            ((begin_drag DRAG_MOVE p (b_root_x ev) (b_root_y ev) (b_detail ev) wm)
               \<lparr>m_drag_orig_size := m_drag_orig_size wm\<rparr>))"

definition on_button_press_motion :: "int \<Rightarrow> int \<Rightarrow> wmst \<Rightarrow> wmst" where
  "on_button_press_motion rx ry wm =
     (case m_btn_press_client wm of
        None \<Rightarrow> wm
      | Some p \<Rightarrow>
          if \<not> live wm p then crash wm
          else wm\<lparr>m_btn_press_hover :=
            (frame_button_at wm (cl wm p) (rx - w_x (cl wm p)) (ry - w_y (cl wm p)) = m_btn_press_btn wm)\<rparr>)"

definition on_button_press_release :: "xenv \<Rightarrow> button_event \<Rightarrow> wmst \<Rightarrow> wmst" where
  "on_button_press_release env ev wm =
     (case m_btn_press_client wm of
        None \<Rightarrow> wm
      | Some p \<Rightarrow>
          if b_detail ev \<noteq> m_btn_press_mouse wm then wm
          else if \<not> live wm p then crash wm
          else
            let btn = m_btn_press_btn wm;
                wm = (emit XUngrabPointer wm)\<lparr>m_btn_press_client := None, m_btn_press_btn := - 1,
                        m_btn_press_hover := False\<rparr>;
                c = cl wm p in
            if frame_button_at wm c (b_root_x ev - w_x c) (b_root_y ev - w_y c) \<noteq> btn then wm
            else if btn = 0 then win_menu_show env p wm
            else if btn = 1 then wm_minimize_client env p wm
            else if btn = 2 then wm_maximize_client env p wm
            else if btn = 3 then wm_close_client env p wm
            else wm)"

definition on_button_press :: "xenv \<Rightarrow> button_event \<Rightarrow> wmst \<Rightarrow> wmst" where
  "on_button_press env ev wm =
     (let wm = wm\<lparr>m_last_user_time := b_time ev\<rparr> in
      if find_grip_client wm (b_event ev) \<noteq> None then on_grip_press env ev wm
      else case wm_find_client_by_frame wm (b_event ev) of
        Some p \<Rightarrow> on_frame_button_press env p ev wm
      | None \<Rightarrow>
          (case wm_find_client_by_window wm (b_event ev) of
             Some p \<Rightarrow> emit (XAllowEvents (b_time ev)) (wm_focus_client env (Some p) (b_time ev) wm)
           | None \<Rightarrow> wm))"

subsection \<open>Properties\<close>

definition on_property_notify :: "xenv \<Rightarrow> nat \<Rightarrow> prop_atom \<Rightarrow> wmst \<Rightarrow> wmst" where
  "on_property_notify env p atom wm =
     (case atom of
        PropName \<Rightarrow> frame_update_title env p wm
      | PropNormalHints \<Rightarrow>
          let was_fixed = w_fixed_size (cl wm p);
              (hints, wm) = ask (e_normal_hints env) RNormalHints (w_client (cl wm p)) wm;
              wm = upd p (frame_read_size_hints hints) wm;
              c = cl wm p in
          if w_fixed_size c \<and> \<not> was_fixed \<and> hd (w_grip c) \<noteq> 0 then
            let (c', wm) = frame_destroy_grips c wm in upd p (\<lambda>c. c\<lparr>w_grip := w_grip c'\<rparr>) wm
          else if \<not> w_fixed_size c \<and> was_fixed \<and> w_decorated c \<and> hd (w_grip c) = 0 then
            let (c', wm) = frame_create_grips env c wm in upd p (\<lambda>c. c\<lparr>w_grip := w_grip c'\<rparr>) wm
          else wm
      | PropMotif \<Rightarrow>
          let (deco, wm) = wm_client_wants_decorations env (w_client (cl wm p)) wm in
          if deco \<noteq> w_decorated (cl wm p)
          then frame_configure env p (upd p (\<lambda>c. c\<lparr>w_decorated := deco\<rparr>) wm) else wm
      | PropUserTime \<Rightarrow>
          let (t, wm) = ask (e_card env) RUserTime (w_client (cl wm p)) wm in
          (case t of Some v \<Rightarrow> upd p (\<lambda>c. c\<lparr>w_user_time := v\<rparr>) wm | None \<Rightarrow> wm)
      | _ \<Rightarrow> wm)"

definition on_user_time_window_notify :: "xenv \<Rightarrow> nat \<Rightarrow> prop_atom \<Rightarrow> wmst \<Rightarrow> wmst" where
  "on_user_time_window_notify env win atom wm =
     (if atom \<noteq> PropUserTime then wm
      else case find (\<lambda>(p, c). w_user_time_window c = win) (m_clients wm) of
        None \<Rightarrow> wm
      | Some (p, c) \<Rightarrow>
          let (t, wm) = ask (e_card env) RUserTime win wm in
          (case t of Some v \<Rightarrow> upd p (\<lambda>c. c\<lparr>w_user_time := v\<rparr>) wm | None \<Rightarrow> wm))"

subsection \<open>Client messages\<close>

definition wanted :: "nat \<Rightarrow> bool \<Rightarrow> bool" where
  "wanted action now \<longleftrightarrow> action = 1 \<or> action = 2 \<and> \<not> now"

definition on_net_active_window :: "xenv \<Rightarrow> nat \<Rightarrow> nat \<Rightarrow> nat \<Rightarrow> wmst \<Rightarrow> wmst" where
  "on_net_active_window env p source time wm =
     (if source \<noteq> 2 \<and> m_focused wm \<noteq> None \<and> m_focused wm \<noteq> Some p \<and>
         (time = 0 \<or> m_last_user_time wm \<noteq> 0 \<and> earlier time (m_last_user_time wm)) then wm
      else
        let wm = emits [XMap (w_frame (cl wm p)), XMap (w_client (cl wm p))] wm in
        wm_focus_client env (Some p) time (upd p (\<lambda>c. c\<lparr>w_mapped := True\<rparr>) wm))"

definition set_sticky :: "nat \<Rightarrow> nat \<Rightarrow> wmst \<Rightarrow> wmst" where
  "set_sticky p action wm =
     (let now = w_sticky (cl wm p); want = wanted action now;
          wm = (if want \<and> \<not> now
                then wm_move_to_desktop p ALL_DESKTOPS (upd p (\<lambda>c. c\<lparr>w_sticky := True\<rparr>) wm)
                else if \<not> want \<and> now
                then wm_move_to_desktop p (m_current_desktop wm) (upd p (\<lambda>c. c\<lparr>w_sticky := False\<rparr>) wm)
                else wm) in
      wm_update_net_wm_state p wm)"

definition state_atom :: "xenv \<Rightarrow> nat \<Rightarrow> nat \<Rightarrow> net_atom \<Rightarrow> wmst \<Rightarrow> wmst" where
  "state_atom env p action a wm =
     (case a of
        AFullscreen \<Rightarrow>
          if wanted action (w_fullscreen (cl wm p)) \<noteq> w_fullscreen (cl wm p)
          then wm_fullscreen_client env p (wanted action (w_fullscreen (cl wm p))) wm else wm
      | AMaximizedVert \<Rightarrow>
          if wanted action (w_maximized (cl wm p)) \<noteq> w_maximized (cl wm p)
          then wm_maximize_client env p wm else wm
      | AHidden \<Rightarrow>
          if wanted action (w_minimized (cl wm p)) \<and> \<not> w_minimized (cl wm p)
          then wm_minimize_client env p wm
          else if \<not> wanted action (w_minimized (cl wm p)) \<and> w_minimized (cl wm p)
          then wm_restore_client p wm else wm
      | AAbove \<Rightarrow> wm_set_above p (wanted action (w_above (cl wm p))) wm
      | ABelow \<Rightarrow> wm_set_below p (wanted action (w_below (cl wm p))) wm
      | AModal \<Rightarrow> wm_update_net_wm_state p (upd p (\<lambda>c. c\<lparr>w_modal := wanted action (w_modal c)\<rparr>) wm)
      | ASticky \<Rightarrow> set_sticky p action wm
      | ASkipTaskbar \<Rightarrow>
          wm_update_net_wm_state p (upd p (\<lambda>c. c\<lparr>w_skip_taskbar := wanted action (w_skip_taskbar c)\<rparr>) wm)
      | ASkipPager \<Rightarrow>
          wm_update_net_wm_state p (upd p (\<lambda>c. c\<lparr>w_skip_pager := wanted action (w_skip_pager c)\<rparr>) wm)
      | ADemandsAttention \<Rightarrow>
          wm_update_net_wm_state p
            (upd p (\<lambda>c. c\<lparr>w_demands_attention := wanted action (w_demands_attention c)\<rparr>) wm)
      | _ \<Rightarrow> wm)"

definition on_net_wm_state :: "xenv \<Rightarrow> nat \<Rightarrow> nat \<Rightarrow> net_atom \<Rightarrow> net_atom \<Rightarrow> wmst \<Rightarrow> wmst" where
  "on_net_wm_state env p action a1 a2 wm =
     (let vert = (\<lambda>a. if a = AMaximizedHorz then AMaximizedVert else a);
          named = (\<lambda>a. a = vert a1 \<or> a = vert a2) in
      fold (state_atom env p action)
        (filter named [AFullscreen, AMaximizedVert, AHidden, AAbove, ABelow, AModal, ASticky,
                       ASkipTaskbar, ASkipPager, ADemandsAttention]) wm)"

definition on_moveresize :: "nat \<Rightarrow> int \<Rightarrow> int \<Rightarrow> nat \<Rightarrow> nat \<Rightarrow> wmst \<Rightarrow> wmst" where
  "on_moveresize p rx ry dir button wm =
     (if dir = 11 then (if m_drag_mode wm \<noteq> DRAG_NONE then end_drag wm else wm)
      else
        let wm = begin_drag (m_drag_mode wm) p rx ry (button mod 256) wm;
            grab = emit (XGrabPointer (m_root wm)) in
        if dir = 8 \<or> dir = 10 then grab (wm\<lparr>m_drag_mode := DRAG_MOVE\<rparr>)
        else if dir \<le> 7 then
          if w_fixed_size (cl wm p) then wm
          else grab (wm\<lparr>m_drag_mode := DRAG_RESIZE, m_resize_edge := [4, 0, 5, 3, 7, 1, 6, 2] ! dir\<rparr>)
        else wm)"

definition on_net_wm_desktop :: "nat \<Rightarrow> nat \<Rightarrow> wmst \<Rightarrow> wmst" where
  "on_net_wm_desktop p desk wm =
     (if desk < u32 (m_num_desktops wm) \<or> desk = ALL_DESKTOPS then
        let old = w_desktop (cl wm p);
            wm = emit (XSet PWmDesktop (w_client (cl wm p)) [desk]) (upd p (\<lambda>c. c\<lparr>w_desktop := desk\<rparr>) wm) in
        desktop_changed p old desk wm
      else wm)"

definition on_frame_extents :: "xenv \<Rightarrow> nat \<Rightarrow> wmst \<Rightarrow> wmst" where
  "on_frame_extents env win wm =
     (let (deco, wm) = wm_window_type_wants_decorations env win wm;
          (deco, wm) = (if deco then wm_client_wants_decorations env win wm else (False, wm)) in
      emit (XSet PFrameExtents win
        (if deco then [2, 2, u32 (1 + m_title_height wm + 1), 2] else [0, 0, 0, 0])) wm)"

definition with_client :: "(nat \<Rightarrow> wmst \<Rightarrow> wmst) \<Rightarrow> nat \<Rightarrow> wmst \<Rightarrow> wmst" where
  "with_client f win wm = (case wm_find_client_by_window wm win of Some p \<Rightarrow> f p wm | None \<Rightarrow> wm)"

definition handle_client_message :: "xenv \<Rightarrow> client_msg \<Rightarrow> wmst \<Rightarrow> wmst" where
  "handle_client_message env msg wm =
     (case msg of
        NetActiveWindow win source time \<Rightarrow> with_client (\<lambda>p. on_net_active_window env p source time) win wm
      | NetCloseWindow win \<Rightarrow> with_client (wm_close_client env) win wm
      | NetWmState win action a1 a2 \<Rightarrow> with_client (\<lambda>p. on_net_wm_state env p action a1 a2) win wm
      | NetWmMoveresize win x y dir button \<Rightarrow> with_client (\<lambda>p. on_moveresize p x y dir button) win wm
      | WmChangeState win st \<Rightarrow>
          with_client (\<lambda>p wm. if st = 3 then wm_minimize_client env p wm else wm) win wm
      | NetCurrentDesktop d \<Rightarrow> wm_desktops_switch env d wm
      | NetWmDesktop win d \<Rightarrow> with_client (\<lambda>p. on_net_wm_desktop p d) win wm
      | StartupInfo is_begin data \<Rightarrow> on_startup_info env is_begin data wm
      | NetRequestFrameExtents win \<Rightarrow> on_frame_extents env win wm
      | OtherMessage \<Rightarrow> wm)"

subsection \<open>Keys\<close>

definition wm_keys_handle :: "xenv \<Rightarrow> key_event \<Rightarrow> wmst \<Rightarrow> wmst" where
  "wm_keys_handle env ev wm =
     (let (sym, wm) = ask (e_keysym env) RKeysym (k_detail ev) wm;
          lone = (\<not> k_alt ev \<and> \<not> k_shift ev \<and> \<not> k_ctrl ev \<and> \<not> k_super ev);
          wm = wm\<lparr>m_super_tap := (sym = 0xffeb \<and> lone)\<rparr> in
      if sym = 0xff1b \<and> m_switcher_active wm then wm_switcher_cancel wm
      else if sym = 0xffc1 \<and> k_alt ev then
        (case m_focused wm of
           None \<Rightarrow> wm
         | Some p \<Rightarrow> if live wm p then wm_close_client env p wm else crash wm)
      else if sym = 0xff09 \<and> k_alt ev then
        (if m_switcher_active wm
         then (if k_shift ev then wm_switcher_prev wm else wm_switcher_next wm)
         else wm_switcher_show env wm)
      else if sym = 0x6c \<and> k_super ev then emit (XDBusCall ''session'' ''Lock'') wm
      else if k_ctrl ev \<and> k_super ev then
        (if sym = 0xff51 then wm_desktops_move env (- 1) 0 wm
         else if sym = 0xff53 then wm_desktops_move env 1 0 wm
         else if sym = 0xff52 then wm_desktops_move env 0 (- 1) wm
         else if sym = 0xff54 then wm_desktops_move env 0 1 wm
         else wm)
      else wm)"

definition wm_keys_handle_release :: "xenv \<Rightarrow> key_event \<Rightarrow> wmst \<Rightarrow> wmst" where
  "wm_keys_handle_release env ev wm =
     (let (sym, wm) = ask (e_keysym env) RKeysym (k_detail ev) wm in
      if sym = 0xffeb \<and> m_super_tap wm
      then emit (XDBusCall ''panel'' ''ToggleStartMenu'') (wm\<lparr>m_super_tap := False\<rparr>)
      else if \<not> m_switcher_active wm then wm
      else if sym = 0xffe9 \<or> sym = 0xffea then wm_switcher_commit env wm
      else wm)"

subsection \<open>Dispatch\<close>

definition menu_open :: "wmst \<Rightarrow> bool" where
  "menu_open wm \<longleftrightarrow> m_win_menu wm \<noteq> 0 \<and> m_menu_client wm \<noteq> None"

definition dispatch_event :: "xenv \<Rightarrow> xevent \<Rightarrow> wmst \<Rightarrow> wmst" where
  "dispatch_event env ev wm =
     (case ev of
        MapRequest win \<Rightarrow> on_map_request env win wm
      | ConfigureRequest win v \<Rightarrow> on_configure_request env win v wm
      | UnmapNotify event win \<Rightarrow> on_unmap_notify env event win wm
      | DestroyNotify win \<Rightarrow> on_destroy_notify env win wm
      | ClientMessage msg \<Rightarrow> handle_client_message env msg wm
      | MotionNotify rx ry \<Rightarrow>
          if m_drag_mode wm \<noteq> DRAG_NONE then on_motion_notify env rx ry wm
          else on_button_press_motion rx ry wm
      | ButtonRelease b \<Rightarrow>
          if m_drag_mode wm \<noteq> DRAG_NONE then on_button_release env (b_detail b) wm
          else on_button_press_release env b wm
      | ButtonPress b \<Rightarrow> on_button_press env b wm
      | PropertyNotify win atom \<Rightarrow>
          if win = m_root wm \<and> atom = PropResources then emit XReloadCursors wm
          else (case wm_find_client_by_window wm win of
                  None \<Rightarrow> on_user_time_window_notify env win atom wm
                | Some p \<Rightarrow> on_property_notify env p atom wm)
      | KeyPress k \<Rightarrow> wm_keys_handle env k (wm\<lparr>m_last_user_time := k_time k\<rparr>)
      | KeyRelease k \<Rightarrow> wm_keys_handle_release env k wm
      | SelectionClear is_wm_sn \<Rightarrow> if is_wm_sn then wm\<lparr>m_running := False\<rparr> else wm
      | RandrNotify \<Rightarrow> if m_randr wm then rescue_orphaned_clients env (query_monitors env wm) else wm
      | SyncAlarmNotify alarm val \<Rightarrow> if m_sync wm then wm_sync_alarm_notify env alarm val wm else wm
      | OtherEvent \<Rightarrow> wm)"

definition dispatch_wm_event :: "xenv \<Rightarrow> xevent \<Rightarrow> wmst \<Rightarrow> wmst" where
  "dispatch_wm_event env ev wm =
     (if m_ub wm then wm
      else if menu_open wm then
        (case ev of
           ButtonPress b \<Rightarrow> if b_event b = m_win_menu wm then win_menu_click (b_y b) wm else wm_dismiss_menu wm
         | KeyPress k \<Rightarrow> wm_dismiss_menu wm
         | KeyRelease k \<Rightarrow> wm_dismiss_menu wm
         | _ \<Rightarrow> dispatch_event env ev wm)
      else dispatch_event env ev wm)"

subsection \<open>Timers, settings and the loop\<close>

definition run_callback :: "xenv \<Rightarrow> wm_callback \<Rightarrow> wmst \<Rightarrow> wmst" where
  "run_callback env cb wm =
     (case cb of
        CbReloadPoll \<Rightarrow> wm_desktops_reload_poll env wm
      | CbOsdHide \<Rightarrow> osd_hide_cb wm
      | CbSync \<Rightarrow> sync_timeout_cb env wm
      | CbStartup i \<Rightarrow> startup_timeout_cb i wm)"

definition fire_timer :: "xenv \<Rightarrow> nat \<Rightarrow> nat \<Rightarrow> wmst \<Rightarrow> wmst" where
  "fire_timer env now i wm =
     (if i < length (m_timers wm) \<and> t_active (m_timers wm ! i) \<and> now \<ge> t_deadline (m_timers wm ! i)
      then run_callback env (t_callback (m_timers wm ! i))
             (wm\<lparr>m_timers := (m_timers wm)[i := (m_timers wm ! i)\<lparr>t_active := False\<rparr>]\<rparr>)
      else wm)"

definition wm_timers_fire :: "xenv \<Rightarrow> wmst \<Rightarrow> wmst" where
  "wm_timers_fire env wm =
     (if m_ub wm then wm
      else let (now, wm) = ask (e_now env) RClock 0 wm in fold (fire_timer env now) [0..<WM_MAX_TIMERS] wm)"

definition wm_on_settings_changed :: "xenv \<Rightarrow> cstr \<Rightarrow> wmst \<Rightarrow> wmst" where
  "wm_on_settings_changed env sect wm =
     (if m_ub wm then wm
      else if sect = ''wm.desktops'' then wm_desktops_settings_changed env wm
      else if sect \<in> {''appearance'', ''fonts'', ''*''} then emit XReloadTheme wm
      else wm)"

fun drain :: "xenv \<Rightarrow> xevent option \<Rightarrow> xevent list \<Rightarrow> wmst \<Rightarrow> wmst" where
  "drain env held [] wm = (case held of Some m \<Rightarrow> dispatch_wm_event env m wm | None \<Rightarrow> wm)"
| "drain env held (ev # evs) wm =
     (if (case ev of MotionNotify _ _ \<Rightarrow> True | _ \<Rightarrow> False) \<and> m_drag_mode wm \<noteq> DRAG_NONE
      then drain env (Some ev) evs wm
      else drain env None evs
             (dispatch_wm_event env ev
               (case held of Some m \<Rightarrow> dispatch_wm_event env m wm | None \<Rightarrow> wm)))"

definition wm_run_turn :: "xenv \<Rightarrow> cstr list \<Rightarrow> xevent list \<Rightarrow> wmst \<Rightarrow> wmst" where
  "wm_run_turn env sections evs wm =
     (let wm = fold (wm_on_settings_changed env) sections (wm_timers_fire env wm);
          (timeout, wm) = wm_timer_next_timeout env wm in
      drain env None evs wm)"

subsection \<open>Start and end\<close>

definition wm_zero :: "nat \<Rightarrow> int \<times> int \<Rightarrow> int \<Rightarrow> bool \<Rightarrow> bool \<Rightarrow> wmst" where
  "wm_zero root screen title_height randr sync =
     \<lparr> m_trace = [], m_ub = False, m_clients = [], m_next = 1, m_focused = None, m_focus_seq = 0,
       m_last_user_time = 0, m_docks = [], m_root = root, m_screen = screen,
       m_title_height = title_height, m_monitors = [], m_cascade = None, m_desk_rows = 0,
       m_desk_cols = 0, m_num_desktops = 0, m_current_desktop = 0, m_desk_osd = 0,
       m_desk_osd_timer = 0, m_desk_reload_tries = 0,
       m_timers = replicate WM_MAX_TIMERS \<lparr>t_deadline = 0, t_callback = CbOsdHide, t_active = False\<rparr>,
       m_running = False, m_startup_seqs = [], m_sn_buf = [], m_switcher_shell = 0,
       m_switcher_order = [], m_switcher_visible = 0, m_switcher_sel = 0, m_switcher_active = False,
       m_super_tap = False, m_win_menu = 0, m_menu_client = None, m_menu_item_count = 0,
       m_menu_item_height = 0, m_drag_mode = DRAG_NONE, m_resize_edge = 0, m_drag_client = None,
       m_drag_start = (0, 0), m_drag_button = 0, m_drag_orig = (0, 0), m_drag_orig_size = (0, 0),
       m_btn_press_client = None, m_btn_press_btn = 0, m_btn_press_hover = False,
       m_btn_press_mouse = 0, m_snap_preview = 0, m_snap_pending = SNAP_NONE, m_snap_monitor = 0,
       m_randr = randr, m_sync = sync \<rparr>"

definition adopt_maximized :: "xenv \<Rightarrow> nat \<Rightarrow> wmst \<Rightarrow> wmst" where
  "adopt_maximized env p wm =
     (case wm_get_monitor_work_area env (monitor_for_client wm (cl wm p)) wm of
        ((wx, wy, ww, wh), wm) \<Rightarrow>
          wm_maximize_client env p
            (upd p (\<lambda>c. c\<lparr>w_save := (i16 (wx + ww sdiv 4), i16 (wy + wh sdiv 4), u16 (ww sdiv 2),
                                     u16 (wh sdiv 2)), w_maximized := False\<rparr>) wm))"

definition adopt_desktop :: "xenv \<Rightarrow> nat \<Rightarrow> wmst \<Rightarrow> wmst" where
  "adopt_desktop env p wm =
     (let win = w_client (cl wm p);
          wm = wm\<lparr>m_focus_seq := Suc (m_focus_seq wm)\<rparr>;
          wm = upd p (\<lambda>c. c\<lparr>w_focus_seq := m_focus_seq wm\<rparr>) wm;
          (reply, wm) = ask (e_card env) RWmDesktop win wm;
          desk = (case reply of Some d \<Rightarrow> d | None \<Rightarrow> ALL_DESKTOPS);
          desk = (if desk \<noteq> ALL_DESKTOPS \<and> desk \<ge> u32 (m_num_desktops wm)
                  then m_current_desktop wm else desk) in
      emit (XSet PWmDesktop win [desk]) (upd p (\<lambda>c. c\<lparr>w_desktop := desk\<rparr>) wm))"

definition adopt_state :: "xenv \<Rightarrow> nat \<Rightarrow> wmst \<Rightarrow> wmst" where
  "adopt_state env p wm =
     (let (state, wm) = ask (e_net_wm_state env) RNetWmState (w_client (cl wm p)) wm in
      case state of
        None \<Rightarrow> wm
      | Some atoms \<Rightarrow>
          let wm = upd p (fold set_state_flag (filter (\<lambda>a. a \<noteq> AFullscreen) atoms)) wm in
          if AMaximizedVert \<in> set atoms \<or> AMaximizedHorz \<in> set atoms
          then adopt_maximized env p wm else wm)"

definition adopt_show :: "xenv \<Rightarrow> nat \<Rightarrow> wmst \<Rightarrow> wmst" where
  "adopt_show env p wm =
     (let wm = wm_ewmh_set_allowed_actions p wm;
          wm = (if w_fullscreen (cl wm p)
                then wm_fullscreen_client env p True (upd p (\<lambda>c. c\<lparr>w_fullscreen := False\<rparr>) wm) else wm) in
      if visible_on (m_current_desktop wm) (w_desktop (cl wm p)) then
        let wm = emits [XMap (w_frame (cl wm p)), XMap (w_client (cl wm p))] wm;
            wm = wm_set_wm_state p 1 (upd p (\<lambda>c. c\<lparr>w_mapped := True\<rparr>) wm) in
        frame_send_configure_notify env (cl wm p) wm
      else emit (XUnmap (w_frame (cl wm p))) wm)"

definition adopt_client :: "xenv \<Rightarrow> nat \<Rightarrow> wmst \<Rightarrow> wmst" where
  "adopt_client env p wm = adopt_show env p (adopt_state env p (adopt_desktop env p wm))"

definition adopt_window :: "xenv \<Rightarrow> nat \<Rightarrow> wmst \<Rightarrow> wmst" where
  "adopt_window env win wm =
     (let (attr, wm) = ask (e_attributes env) RAttributes win wm in
      if (case attr of Some (override, viewable) \<Rightarrow> \<not> override \<and> viewable | None \<Rightarrow> False) then
        let (type, wm) = ask (e_window_type env) RWindowType win wm in
        if type = TDock then emit (XSelectInput win) (wm_add_dock env win wm)
        else case frame_create env win True wm of
          (None, wm) \<Rightarrow> wm
        | (Some p, wm) \<Rightarrow> adopt_client env p wm
      else wm)"

fun restore_stacking :: "nat \<Rightarrow> wclient list \<Rightarrow> xreq list" where
  "restore_stacking prev [] = []"
| "restore_stacking prev (c # cs) =
     (if prev \<noteq> 0 then [XStack (w_frame c) Above (Some prev)] else []) @ restore_stacking (w_frame c) cs"

definition wm_init :: "xenv \<Rightarrow> wmst \<Rightarrow> wmst" where
  "wm_init env wm =
     (let wm = wm_desktops_init env (query_monitors env wm);
          (tree, wm) = ask (e_tree env) RQueryTree (m_root wm) wm;
          wm = (case tree of Some wins \<Rightarrow> fold (adopt_window env) wins wm | None \<Rightarrow> wm);
          wm = emits (restore_stacking 0 (map snd (m_clients wm))) wm;
          wm = emits (map (\<lambda>d. XStack d Above None) (m_docks wm)) wm;
          wm = wm_ewmh_update_client_list_stacking
                 (wm_ewmh_update_client_list (wm_restack_above_below wm)) in
      wm\<lparr>m_running := True\<rparr>)"

fun remove_clients :: "xenv \<Rightarrow> nat \<Rightarrow> wmst \<Rightarrow> wmst" where
  "remove_clients env 0 wm = wm"
| "remove_clients env (Suc n) wm =
     (case m_clients wm of
        [] \<Rightarrow> wm
      | (p, c) # _ \<Rightarrow> remove_clients env n (wm_remove_client env p wm))"

definition wm_cleanup :: "xenv \<Rightarrow> wmst \<Rightarrow> wmst" where
  "wm_cleanup env wm =
     (let wm = remove_clients env (length (m_clients wm)) wm;
          wm = fold (\<lambda>s wm. if s_timer s \<ge> 0 then wm_timer_remove (s_timer s) wm else wm)
                 (m_startup_seqs wm) wm in
      wm\<lparr>m_startup_seqs := [], m_docks := [], m_monitors := []\<rparr>)"

datatype wm_step = SEvent xevent | STimers | SSettings cstr

fun wm_do :: "xenv \<Rightarrow> wm_step \<Rightarrow> wmst \<Rightarrow> wmst" where
  "wm_do env (SEvent ev) wm = dispatch_wm_event env ev wm"
| "wm_do env STimers wm = wm_timers_fire env wm"
| "wm_do env (SSettings sect) wm = wm_on_settings_changed env sect wm"

inductive wm_reach :: "xenv \<Rightarrow> wmst \<Rightarrow> wmst \<Rightarrow> bool" for env wm0 where
  wm_start: "wm_reach env wm0 (wm_init env wm0)"
| wm_more: "wm_reach env wm0 wm \<Longrightarrow> wm_reach env wm0 (wm_do env s wm)"

end
