(* ===== verification/Wm_Inv.thy ===== *)
theory Wm_Inv
  imports Wm_Events
begin

section \<open>isde-wm: what the operations leave alone\<close>

text \<open>
  Most operations change geometry, names, stacking, timers and the trace, and nothing else.
  \<open>kept\<close> is the rest of the state: which clients there are, on which desktop and whether they
  are hidden, the pointers the manager keeps, the desktops, the monitors and the mark of undefined
  behaviour. One lemma per operation says that it keeps all this (collection \<open>calm\<close>), and
  \<open>kept_sel\<close> turns it into rewrite rules for the fields.
\<close>

named_theorems calm "operations that leave the pointers, desktops and monitors alone"

definition slots :: "wmst \<Rightarrow> (nat \<times> nat \<times> nat \<times> bool) list" where
  "slots wm = map (\<lambda>(p, c). (p, w_client c, w_desktop c, w_hidden c)) (m_clients wm)"

definition kept :: "wmst \<Rightarrow> _" where
  "kept wm =
     (slots wm, m_next wm, m_focused wm, m_drag_client wm, m_drag_mode wm, m_btn_press_client wm,
      m_menu_client wm, m_win_menu wm, m_switcher_order wm, m_switcher_active wm,
      m_switcher_sel wm, m_current_desktop wm, m_num_desktops wm, m_desk_rows wm, m_desk_cols wm,
      m_monitors wm, m_root wm, m_screen wm, m_title_height wm, m_snap_pending wm,
      m_snap_monitor wm, m_ub wm)"

lemma ptrs_slots: "ptrs wm = map fst (slots wm)"
  by (simp add: ptrs_def slots_def comp_def case_prod_beta)

lemma kept_sel:
  assumes "kept a = kept b"
  shows "slots a = slots b" "m_next a = m_next b" "m_focused a = m_focused b"
    "m_drag_client a = m_drag_client b" "m_drag_mode a = m_drag_mode b"
    "m_btn_press_client a = m_btn_press_client b" "m_menu_client a = m_menu_client b"
    "m_win_menu a = m_win_menu b" "m_switcher_order a = m_switcher_order b"
    "m_switcher_active a = m_switcher_active b" "m_switcher_sel a = m_switcher_sel b"
    "m_current_desktop a = m_current_desktop b" "m_num_desktops a = m_num_desktops b"
    "m_desk_rows a = m_desk_rows b" "m_desk_cols a = m_desk_cols b"
    "m_monitors a = m_monitors b" "m_ub a = m_ub b" "m_title_height a = m_title_height b"
    "m_snap_pending a = m_snap_pending b" "m_snap_monitor a = m_snap_monitor b"
    "ptrs a = ptrs b" "live a p = live b p"
  using assms by (simp_all add: kept_def ptrs_slots live_def)

lemma kept_emits [calm, simp]: "kept (emits rs wm) = kept wm"
  by (simp add: kept_def slots_def emits_def)

lemma kept_ask [calm, simp]: "kept (snd (ask f r w wm)) = kept wm"
  by (simp add: ask_def Let_def)

lemma kept_generate_id [calm, simp]: "kept (snd (generate_id env wm)) = kept wm"
  by (simp add: generate_id_def)

lemma kept_upd [simp]:
  assumes "\<And>c. w_client (f c) = w_client c" "\<And>c. w_desktop (f c) = w_desktop c"
    "\<And>c. w_hidden (f c) = w_hidden c"
  shows "kept (upd p f wm) = kept wm"
  using assms by (auto simp: kept_def slots_def upd_def split: if_splits)

lemma kept_setters [simp]:
  "kept (wm\<lparr>m_trace := a1\<rparr>) = kept wm" "kept (wm\<lparr>m_timers := a2\<rparr>) = kept wm"
  "kept (wm\<lparr>m_focus_seq := a3\<rparr>) = kept wm" "kept (wm\<lparr>m_cascade := a4\<rparr>) = kept wm"
  "kept (wm\<lparr>m_desk_osd := a5\<rparr>) = kept wm" "kept (wm\<lparr>m_desk_osd_timer := a6\<rparr>) = kept wm"
  "kept (wm\<lparr>m_desk_reload_tries := a7\<rparr>) = kept wm" "kept (wm\<lparr>m_startup_seqs := a8\<rparr>) = kept wm"
  "kept (wm\<lparr>m_sn_buf := a9\<rparr>) = kept wm" "kept (wm\<lparr>m_last_user_time := a10\<rparr>) = kept wm"
  "kept (wm\<lparr>m_docks := a11\<rparr>) = kept wm" "kept (wm\<lparr>m_snap_preview := a12\<rparr>) = kept wm"
  "kept (wm\<lparr>m_super_tap := a13\<rparr>) = kept wm" "kept (wm\<lparr>m_running := a14\<rparr>) = kept wm"
  "kept (wm\<lparr>m_drag_start := a15\<rparr>) = kept wm" "kept (wm\<lparr>m_drag_orig := a16\<rparr>) = kept wm"
  "kept (wm\<lparr>m_drag_orig_size := a17\<rparr>) = kept wm" "kept (wm\<lparr>m_btn_press_hover := a18\<rparr>) = kept wm"
  "kept (wm\<lparr>m_switcher_visible := a19\<rparr>) = kept wm" "kept (wm\<lparr>m_switcher_shell := a20\<rparr>) = kept wm"
  by (simp_all add: kept_def slots_def)

lemma kept_fold: "(\<And>x wm. kept (f x wm) = kept wm) \<Longrightarrow> kept (fold f xs wm) = kept wm"
  by (induction xs arbitrary: wm) auto

subsection \<open>Timers\<close>

lemma kept_timer_add [calm, simp]: "kept (snd (wm_timer_add env ms cb wm)) = kept wm"
  by (simp add: wm_timer_add_def ask_def Let_def split: option.split)

lemma kept_timer_remove [calm, simp]: "kept (wm_timer_remove i wm) = kept wm"
  by (simp add: wm_timer_remove_def)

subsection \<open>Struts, monitors and root properties\<close>

lemma kept_check_strut: "kept (snd (check_strut env win s)) = kept (snd s)"
  by (cases s; cases "fst s")
    (auto simp: check_strut_def ask_def Let_def split: option.split prod.split)

lemma kept_fold_strut: "kept (snd (fold (check_strut env) ws s)) = kept (snd s)"
  by (induction ws arbitrary: s) (simp_all add: kept_check_strut)

lemma kept_all_struts: "kept (snd (all_struts env wm)) = kept wm"
proof -
  obtain s wm1 where 1: "fold (check_strut env) (map (w_client \<circ> snd) (m_clients wm)) ((0, 0, 0, 0), wm) = (s, wm1)"
    by fastforce
  then have "kept wm1 = kept wm"
    using kept_fold_strut [of env "map (w_client \<circ> snd) (m_clients wm)" "((0, 0, 0, 0), wm)"] by simp
  then show ?thesis
    by (simp add: all_struts_def 1 ask_def Let_def kept_fold_strut split: option.split)
qed

lemma kept_work_area [calm, simp]: "kept (snd (wm_get_work_area env wm)) = kept wm"
  using kept_all_struts [of env wm] by (simp add: wm_get_work_area_def case_prod_beta)

lemma kept_primary [calm, simp]: "kept (snd (wm_get_primary_monitor env wm)) = kept wm"
  by (simp add: wm_get_primary_monitor_def ask_def Let_def)

lemmas work_area_sel [simp] = kept_sel [OF kept_work_area]

lemma kept_monitor_work_area [simp]:
  "mon < length (m_monitors wm) \<Longrightarrow> kept (snd (wm_get_monitor_work_area env mon wm)) = kept wm"
  by (simp add: wm_get_monitor_work_area_def Let_def case_prod_beta)

lemma monitor_at_point_bound: "m_monitors wm \<noteq> [] \<Longrightarrow> monitor_at_point wm rx ry < length (m_monitors wm)"
  by (auto simp: monitor_at_point_def dest: find_index_SomeD split: option.split)

lemma monitor_for_client_bound:
  "m_monitors wm \<noteq> [] \<Longrightarrow> monitor_for_client wm c < length (m_monitors wm)"
  by (simp add: monitor_for_client_def monitor_at_point_bound)

lemma kept_root_props [calm, simp]:
  "kept (wm_ewmh_update_client_list wm) = kept wm"
  "kept (wm_ewmh_update_client_list_stacking wm) = kept wm"
  "kept (wm_ewmh_update_active wm) = kept wm"
  "kept (wm_ewmh_set_allowed_actions p wm) = kept wm"
  "kept (wm_set_wm_state p st wm) = kept wm"
  "kept (wm_update_net_wm_state p wm) = kept wm"
  "kept (wm_restack_above_below wm) = kept wm"
  by (simp_all add: wm_ewmh_update_client_list_def wm_ewmh_update_client_list_stacking_def
      wm_ewmh_update_active_def wm_ewmh_set_allowed_actions_def wm_set_wm_state_def
      wm_update_net_wm_state_def wm_restack_above_below_def Let_def)

lemma kept_update_workarea [calm, simp]: "kept (wm_ewmh_update_workarea env wm) = kept wm"
  by (simp add: wm_ewmh_update_workarea_def case_prod_beta)

lemma kept_read_config [calm, simp]: "kept (snd (wm_desktops_read_config env wm)) = kept wm"
  by (simp add: wm_desktops_read_config_def Let_def case_prod_beta)

lemma kept_initial_grid [calm, simp]: "kept (snd (initial_grid env wm)) = kept wm"
  by (simp add: initial_grid_def Let_def case_prod_beta split: option.split)

subsection \<open>Frames and titles\<close>

lemma kept_frame_parts [calm, simp]:
  "kept (frame_set_extents env c wm) = kept wm"
  "kept (frame_send_configure_notify env c wm) = kept wm"
  "kept (frame_update_grips env c wm) = kept wm"
  by (simp_all add: frame_set_extents_def frame_send_configure_notify_def frame_update_grips_def Let_def)

lemma kept_new_grips: "kept (snd (new_grips env n wm)) = kept wm"
  by (induction n arbitrary: wm) (simp_all add: Let_def case_prod_beta)

lemma kept_create_grips [calm, simp]: "kept (snd (frame_create_grips env c wm)) = kept wm"
  by (simp add: frame_create_grips_def Let_def case_prod_beta kept_new_grips)

lemma kept_destroy_grips [calm, simp]: "kept (snd (frame_destroy_grips c wm)) = kept wm"
  by (simp add: frame_destroy_grips_def)

lemma kept_frame_configure [calm, simp]: "kept (frame_configure env p wm) = kept wm"
  by (simp add: frame_configure_def Let_def)

lemma kept_fetch [calm, simp]:
  "kept (snd (fetch_string env what win wm)) = kept wm"
  "kept (snd (fetch_title env win wm)) = kept wm"
  "kept (snd (fetch_icon_name env win wm)) = kept wm"
  by (auto simp: fetch_string_def fetch_title_def fetch_icon_name_def ask_def Let_def
      split: option.split prod.split)

lemma kept_disambiguate_name [simp]: "kept (disambiguate_name p raw icon wm) = kept wm"
  by (simp add: disambiguate_name_def Let_def set_visible_def)

lemma kept_disambiguate_all [calm, simp]: "kept (frame_disambiguate_all t i wm) = kept wm"
  unfolding frame_disambiguate_all_def
  by (rule kept_fold) (simp add: disambiguate_client_def Let_def)

lemma kept_update_title [calm, simp]: "kept (frame_update_title env p wm) = kept wm"
  by (simp add: frame_update_title_def Let_def case_prod_beta)

subsection \<open>Placement, throttle, snapping\<close>

lemma kept_clamp [calm, simp]: "kept (snd (clamp_to_work_area env c wm)) = kept wm"
  by (simp add: clamp_to_work_area_def Let_def case_prod_beta)

lemma kept_place_cascade [simp]: "kept (snd (place_cascade env c wm)) = kept wm"
  by (simp add: place_cascade_def Let_def case_prod_beta)

lemma kept_place_transient: "place_transient env c wm = Some r \<Longrightarrow> kept (snd r) = kept wm"
  by (auto simp: place_transient_def Let_def simp del: surjective_pairing split: if_splits option.splits)

lemma kept_place_client [calm, simp]: "kept (snd (wm_place_client env c wm)) = kept wm"
  by (simp add: wm_place_client_def Let_def case_prod_beta kept_place_transient split: option.split)

lemma kept_supports [calm, simp]: "kept (snd (client_supports_protocol env win a wm)) = kept wm"
  by (simp add: client_supports_protocol_def Let_def case_prod_beta)

lemma kept_arm_alarm [simp]: "kept (sync_arm_alarm env p wm) = kept wm"
  by (simp add: sync_arm_alarm_def Let_def case_prod_beta)

lemma kept_sync [calm, simp]:
  "kept (snd (wm_sync_client_init env c wm)) = kept wm"
  "kept (snd (wm_sync_client_cleanup c wm)) = kept wm"
  "kept (snd (wm_sync_throttle env p wm)) = kept wm"
  "kept (sync_settle env p wm) = kept wm"
  "kept (wm_sync_alarm_notify env alarm val wm) = kept wm"
  "kept (sync_timeout_client env p wm) = kept wm"
  by (simp_all add: wm_sync_client_init_def wm_sync_client_cleanup_def wm_sync_throttle_def
      sync_settle_def wm_sync_alarm_notify_def sync_timeout_client_def Let_def case_prod_beta
      split: option.split)

lemma kept_sync_timeout [calm, simp]: "kept (sync_timeout_cb env wm) = kept wm"
  unfolding sync_timeout_cb_def by (rule kept_fold) simp

lemma geometry_keeps [simp]:
  "w_client (save_geometry c) = w_client c" "w_desktop (save_geometry c) = w_desktop c"
  "w_hidden (save_geometry c) = w_hidden c" "w_client (set_geometry x y w h c) = w_client c"
  "w_desktop (set_geometry x y w h c) = w_desktop c" "w_hidden (set_geometry x y w h c) = w_hidden c"
  "w_client (restore_geometry c) = w_client c" "w_desktop (restore_geometry c) = w_desktop c"
  "w_hidden (restore_geometry c) = w_hidden c"
  by (simp_all add: save_geometry_def set_geometry_def restore_geometry_def split: prod.split)

lemma kept_snap_show [simp]:
  "mon < length (m_monitors wm) \<Longrightarrow> kept (snap_preview_show env zone mon wm) = kept wm"
  by (simp add: snap_preview_show_def snap_geometry_def Let_def case_prod_beta)

lemma kept_apply_snap [simp]:
  "mon < length (m_monitors wm) \<Longrightarrow> kept (apply_snap env p zone mon wm) = kept wm"
  by (simp add: apply_snap_def snap_geometry_def Let_def case_prod_beta)

lemma kept_maximize [simp]:
  "m_monitors wm \<noteq> [] \<Longrightarrow> kept (wm_maximize_client env p wm) = kept wm"
proof -
  assume *: "m_monitors wm \<noteq> []"
  let ?wm = "upd p save_geometry wm"
  have k: "kept ?wm = kept wm" by simp
  then have "monitor_for_client ?wm (cl ?wm p) < length (m_monitors ?wm)"
    using * monitor_for_client_bound [of ?wm] kept_sel(16) [OF k] by metis
  with k show ?thesis
    by (simp add: wm_maximize_client_def Let_def case_prod_beta)
qed

lemma kept_fullscreen [calm, simp]: "kept (wm_fullscreen_client env p e wm) = kept wm"
  by (simp add: wm_fullscreen_client_def Let_def)

lemma kept_states [calm, simp]:
  "kept (map_client p wm) = kept wm"
  "kept (iconify p wm) = kept wm"
  "kept (wm_restore_client p wm) = kept wm"
  "kept (wm_set_above p e wm) = kept wm"
  "kept (wm_set_below p e wm) = kept wm"
  by (simp_all add: map_client_def iconify_def wm_restore_client_def wm_set_above_def wm_set_below_def Let_def)

lemma kept_close [calm, simp]: "kept (wm_close_client env p wm) = kept wm"
  by (simp add: wm_close_client_def Let_def case_prod_beta)

lemma kept_show_osd [calm, simp]: "kept (wm_desktops_show_osd env wm) = kept wm"
  by (simp add: wm_desktops_show_osd_def Let_def case_prod_beta)

lemma kept_osd [calm, simp]:
  "kept (osd_hide_cb wm) = kept wm" "kept (create_osd env wm) = kept wm"
  by (simp_all add: osd_hide_cb_def create_osd_def Let_def case_prod_beta)

lemma kept_docks [calm, simp]:
  "kept (wm_add_dock env win wm) = kept wm" "kept (wm_remove_dock env win wm) = kept wm"
  by (simp_all add: wm_add_dock_def wm_remove_dock_def split: option.split)

lemma kept_frame_destroy [calm, simp]: "kept (frame_destroy c wm) = kept wm"
  by (simp add: frame_destroy_def Let_def case_prod_beta)

lemma kept_startup [calm, simp]:
  "kept (wm_remove_startup_seq s wm) = kept wm"
  "kept (startup_timeout_cb i wm) = kept wm"
  "kept (sn_handle_message env msg wm) = kept wm"
  "kept (on_startup_info env b data wm) = kept wm"
proof -
  show 1: "kept (wm_remove_startup_seq s wm) = kept wm" for s wm
    by (simp add: wm_remove_startup_seq_def Let_def)
  then show "kept (startup_timeout_cb i wm) = kept wm"
    by (simp add: startup_timeout_cb_def split: option.split)
  from 1 have 2: "kept (sn_handle_message env msg wm) = kept wm" for msg wm
    by (simp add: sn_handle_message_def Let_def case_prod_beta split: option.split)
  then show "kept (sn_handle_message env msg wm) = kept wm" .
  from 2 show "kept (on_startup_info env b data wm) = kept wm"
    by (simp add: on_startup_info_def Let_def)
qed

subsection \<open>Focus\<close>

lemma kept_focus_parts [calm, simp]:
  "kept (unfocus_prev env p wm) = kept wm"
  "kept (focus_raise env p time wm) = kept wm"
  by (simp_all add: unfocus_prev_def focus_raise_def Let_def case_prod_beta)

lemma live_setter [simp]:
  "live (wm\<lparr>m_focused := f\<rparr>) p = live wm p" "ptrs (wm\<lparr>m_focused := f\<rparr>) = ptrs wm"
  by (simp_all add: live_def ptrs_def)

lemma kept_focus:
  assumes "pred_option (live wm) (m_focused wm)"
  shows "kept (wm_focus_client env t time wm) = kept (wm\<lparr>m_focused := map_option (modal_child wm) t\<rparr>)"
  using assms by (cases "m_focused wm") (auto simp: wm_focus_client_def Let_def split: option.split)

lemma find_in_set: "find P xs = Some x \<Longrightarrow> x \<in> set xs \<and> P x"
  by (metis find_Some_iff nth_mem)

lemma modal_child_live: "live wm p \<Longrightarrow> live wm (modal_child wm p)"
  by (auto simp: modal_child_def live_def ptrs_def dest: find_in_set split: option.split
      intro: rev_image_eqI)

lemma mru_in: "mru cs best = Some p \<Longrightarrow> p \<in> fst ` (set cs \<union> set_option best)"
proof (induction cs best rule: mru.induct)
  case (2 p c cs best)
  then show ?case by (fastforce split: option.splits if_splits)
qed auto

lemma mru_Some: "cs \<noteq> [] \<or> best \<noteq> None \<Longrightarrow> mru cs best \<noteq> None"
  by (induction cs best rule: mru.induct) (auto split: option.splits)

subsection \<open>New clients\<close>

lemma clamp_keeps [simp]:
  "w_client (clamp_to_area wm a c) = w_client c" "w_hidden (clamp_to_area wm a c) = w_hidden c"
  by (simp_all add: clamp_to_area_def Let_def split: prod.split)

lemma place_keeps [simp]:
  "w_client (fst (wm_place_client env c wm)) = w_client c"
  "w_hidden (fst (wm_place_client env c wm)) = w_hidden c"
  by (auto simp: wm_place_client_def place_transient_def place_cascade_def clamp_to_work_area_def
      Let_def case_prod_beta split: option.split)

lemma hints_keep [simp]:
  "w_client (frame_read_size_hints h c) = w_client c" "w_hidden (frame_read_size_hints h c) = w_hidden c"
  "w_desktop (frame_read_size_hints h c) = w_desktop c"
  "w_client (read_wm_hints r c) = w_client c" "w_hidden (read_wm_hints r c) = w_hidden c"
  by (simp_all add: frame_read_size_hints_def read_wm_hints_def Let_def split: option.split prod.split)

lemma flags_keep [simp]:
  "w_client (fold set_state_flag as c) = w_client c" "w_hidden (fold set_state_flag as c) = w_hidden c"
  "w_desktop (fold set_state_flag as c) = w_desktop c"
  by (induction as arbitrary: c) (simp_all add: set_state_flag_def split: net_atom.split)

lemma user_time_keeps [simp]:
  "w_client (fst (read_user_time env c wm)) = w_client c"
  "w_hidden (fst (read_user_time env c wm)) = w_hidden c"
  "kept (snd (read_user_time env c wm)) = kept wm"
  by (simp_all add: read_user_time_def Let_def case_prod_beta split: option.split)

lemma sync_init_keeps [simp]:
  "w_client (fst (wm_sync_client_init env c wm)) = w_client c"
  "w_hidden (fst (wm_sync_client_init env c wm)) = w_hidden c"
  by (simp_all add: wm_sync_client_init_def Let_def case_prod_beta split: option.split)

lemma decorations_keep [simp]:
  "kept (snd (wm_client_wants_decorations env win wm)) = kept wm"
  "kept (snd (wm_window_type_wants_decorations env win wm)) = kept wm"
  by (simp_all add: wm_client_wants_decorations_def wm_window_type_wants_decorations_def Let_def
      case_prod_beta)

lemma read_client_keeps [simp]:
  "w_client (fst (read_client env win geo wm)) = win"
  "\<not> w_hidden (fst (read_client env win geo wm))"
  "kept (snd (read_client env win geo wm)) = kept wm"
  by (auto simp: read_client_def zero_client_def Let_def case_prod_beta split: option.split)

lemma grips_keep [simp]:
  "w_client (fst (frame_create_grips env c wm)) = w_client c"
  "w_hidden (fst (frame_create_grips env c wm)) = w_hidden c"
  by (simp_all add: frame_create_grips_def Let_def case_prod_beta)

lemma position_keeps [simp]:
  "w_client (fst (position_client env a c wm)) = w_client c"
  "w_hidden (fst (position_client env a c wm)) = w_hidden c"
  "kept (snd (position_client env a c wm)) = kept wm"
  by (simp_all add: position_client_def Let_def case_prod_beta)

lemma wrap_keeps [simp]:
  "w_client (fst (wrap_client env c wm)) = w_client c"
  "w_hidden (fst (wrap_client env c wm)) = w_hidden c"
  "kept (snd (wrap_client env c wm)) = kept wm"
  by (simp_all add: wrap_client_def Let_def case_prod_beta)

lemma frame_create_cases:
  assumes "frame_create env win adopt wm = (r, wm')"
  obtains (none) "r = None" "kept wm' = kept wm"
    | (some) c wm1 where "r = Some (m_next wm1)" "kept wm1 = kept wm" "wm' = add_client c wm1"
        "w_client c = win" "\<not> w_hidden c"
proof (cases "fst (ask (e_geometry env) RGeometry win wm)")
  case None
  then have "r = None" "wm' = snd (ask (e_geometry env) RGeometry win wm)"
    using assms by (auto simp: frame_create_def split: prod.splits)
  then show ?thesis by (simp add: none)
next
  case (Some geo)
  define s1 where "s1 = read_client env win geo (snd (ask (e_geometry env) RGeometry win wm))"
  define s2 where "s2 = position_client env adopt (fst s1) (snd s1)"
  define s3 where "s3 = wrap_client env (fst s2) (snd s2)"
  from Some assms have "r = Some (m_next (snd s3))" "wm' = add_client (fst s3) (snd s3)"
    by (auto simp: frame_create_def Let_def case_prod_beta s1_def s2_def s3_def split: prod.splits)
  moreover have "kept (snd s3) = kept wm" "w_client (fst s3) = win" "\<not> w_hidden (fst s3)"
    by (simp_all add: s1_def s2_def s3_def)
  ultimately show ?thesis using some by blast
qed

end
