(* ===== verification/Wm_Live.thy ===== *)
theory Wm_Live
  imports Wm_Inv
begin

section \<open>isde-wm: the pointers the manager keeps\<close>

text \<open>
  The invariant \<open>ptr_ok\<close>: no client is listed twice, and the focused client, the client being
  dragged, the one whose title button is held and those in the window switcher are in the list. The
  primitive operations that are not covered by \<open>kept\<close> are shown here to keep the pointers as they
  are (\<open>psteady\<close>) or sound (\<open>psound\<close>). Two pointers are not part of the invariant, that of the
  window menu and the monitor index of a pending snap: \<open>hazard\<close> is where following them is
  undefined.
\<close>

definition ptr_view :: "wmst \<Rightarrow> _" where
  "ptr_view wm =
     (ptrs wm, m_next wm, m_focused wm, m_drag_client wm, m_btn_press_client wm,
      m_switcher_order wm, m_switcher_active wm, m_monitors wm)"

definition ptr_ok :: "wmst \<Rightarrow> bool" where
  "ptr_ok wm \<longleftrightarrow>
     distinct (ptrs wm) \<and> list_all (\<lambda>p. p < m_next wm) (ptrs wm) \<and>
     pred_option (live wm) (m_focused wm) \<and> pred_option (live wm) (m_drag_client wm) \<and>
     pred_option (live wm) (m_btn_press_client wm) \<and>
     list_all (live wm) (m_switcher_order wm) \<and>
     (m_switcher_order wm = [] \<or> m_switcher_active wm) \<and> m_monitors wm \<noteq> []"

definition psteady :: "wmst \<Rightarrow> wmst \<Rightarrow> bool" where
  "psteady wm wm' \<longleftrightarrow> ptr_view wm' = ptr_view wm \<and> m_ub wm' = m_ub wm"

definition psound :: "wmst \<Rightarrow> wmst \<Rightarrow> bool" where
  "psound wm wm' \<longleftrightarrow> (ptr_ok wm \<longrightarrow> ptr_ok wm' \<and> m_ub wm' = m_ub wm)"

lemma psteady_ptr_ok: "psteady wm wm' \<Longrightarrow> ptr_ok wm' = ptr_ok wm"
  by (simp add: psteady_def ptr_view_def ptr_ok_def live_def [abs_def])

lemma psteady_kept:
  assumes k: "kept wm' = kept wm"
  shows "psteady wm wm'"
  by (simp add: psteady_def ptr_view_def kept_sel [OF k])

lemma psteady_sound: "psteady wm wm' \<Longrightarrow> psound wm wm'"
  using psteady_ptr_ok [of wm wm'] by (simp add: psound_def psteady_def)

lemma psteady_refl [simp]: "psteady wm wm"
  by (simp add: psteady_def)

lemma psteady_trans: "psteady a b \<Longrightarrow> psteady b c \<Longrightarrow> psteady a c"
  by (simp add: psteady_def)

lemma psound_refl [simp]: "psound wm wm"
  by (simp add: psound_def)

lemma psound_trans: "psound a b \<Longrightarrow> psound b c \<Longrightarrow> psound a c"
  by (simp add: psound_def)

lemma psteady_fold: "(\<And>x wm. psteady wm (f x wm)) \<Longrightarrow> psteady wm (fold f xs wm)"
  by (induction xs arbitrary: wm) (auto intro: psteady_trans)

lemma ptr_okD:
  assumes "ptr_ok wm"
  shows "distinct (ptrs wm)" "pred_option (live wm) (m_focused wm)" "m_monitors wm \<noteq> []"
    "m_focused wm = Some p \<Longrightarrow> live wm p" "m_drag_client wm = Some p \<Longrightarrow> live wm p"
    "m_btn_press_client wm = Some p \<Longrightarrow> live wm p"
    "p \<in> set (m_switcher_order wm) \<Longrightarrow> live wm p"
    "m_switcher_order wm = [] \<or> m_switcher_active wm"
  using assms by (auto simp: ptr_ok_def list_all_iff)

lemma psound_calm: "psound a b \<Longrightarrow> kept c = kept b \<Longrightarrow> psound a c"
  by (metis psound_trans psteady_kept psteady_sound)

lemma live_kept: "kept a = kept b \<Longrightarrow> live a = live b"
  by (rule ext) (rule kept_sel)

lemma live_setters [simp]:
  "live (wm\<lparr>m_switcher_order := a1\<rparr>) = live wm" "live (wm\<lparr>m_switcher_active := a2\<rparr>) = live wm"
  "live (wm\<lparr>m_drag_client := a3\<rparr>) = live wm" "live (wm\<lparr>m_drag_mode := a4\<rparr>) = live wm"
  "live (wm\<lparr>m_btn_press_client := a5\<rparr>) = live wm" "live (wm\<lparr>m_switcher_sel := a6\<rparr>) = live wm"
  "live (wm\<lparr>m_current_desktop := a7\<rparr>) = live wm"
  by (simp_all add: live_def [abs_def] ptrs_def)

subsection \<open>Desktops\<close>

lemma psound_unfocus: "psound wm (wm\<lparr>m_focused := None\<rparr>)"
  by (auto simp: psound_def ptr_ok_def live_def [abs_def] ptrs_def)

lemma psteady_hide: "psteady wm (hide_client p wm)"
  by (simp add: hide_client_def Let_def psteady_def ptr_view_def emits_def upd_def ptrs_def
      case_prod_beta comp_def)

lemma psteady_show: "psteady wm (show_client p wm)"
  by (simp add: show_client_def map_client_def Let_def psteady_def ptr_view_def emits_def upd_def
      ptrs_def case_prod_beta comp_def)

lemma psound_desktop_changed: "psound wm (desktop_changed p old new wm)"
  using psteady_sound [OF psteady_hide, of wm p] psteady_sound [OF psteady_show, of wm p]
  by (auto simp: desktop_changed_def Let_def
      intro: psound_calm [OF psound_trans [OF _ psound_unfocus]])

lemma psound_steady: "psteady a b \<Longrightarrow> psound b c \<Longrightarrow> psound a c"
  by (metis psound_trans psteady_sound)

lemma psteady_upd: "psteady wm (upd p f wm)"
  by (simp add: psteady_def ptr_view_def upd_def ptrs_def case_prod_beta comp_def)

lemma psteady_emits: "psteady wm (emits rs wm)"
  by (simp add: psteady_def ptr_view_def emits_def ptrs_def)

lemma psteady_setters:
  "psteady wm (wm\<lparr>m_current_desktop := d\<rparr>)"
  "psteady wm (wm\<lparr>m_desk_rows := r, m_desk_cols := k, m_num_desktops := n\<rparr>)"
  by (simp_all add: psteady_def ptr_view_def ptrs_def)

lemma psound_move_to_desktop: "psound wm (wm_move_to_desktop p d wm)"
  by (auto simp: wm_move_to_desktop_def Let_def
      intro: psound_steady [OF psteady_upd psound_steady [OF psteady_emits psound_desktop_changed]])

lemma psound_net_wm_desktop: "psound wm (on_net_wm_desktop p d wm)"
  by (auto simp: on_net_wm_desktop_def Let_def
      intro: psound_steady [OF psteady_upd psound_steady [OF psteady_emits psound_desktop_changed]])

lemma psteady_sync_visibility: "psteady wm (wm_desktops_sync_visibility wm)"
  unfolding wm_desktops_sync_visibility_def
  by (rule psteady_fold) (simp add: sync_visibility_client_def Let_def psteady_hide psteady_show)

lemma psteady_pull: "psteady wm (pull_client l p wm)"
  by (auto simp: pull_client_def intro: psteady_trans [OF psteady_upd psteady_emits])

lemma psteady_desktops_apply: "psteady wm (wm_desktops_apply rows cols wm)"
proof -
  let ?wm1 = "wm\<lparr>m_desk_rows := if rows < 1 then 1 else rows, m_desk_cols := if cols < 1 then 1 else cols,
     m_num_desktops := s32 ((if rows < 1 then 1 else rows) * (if cols < 1 then 1 else cols))\<rparr>"
  have "psteady wm (fold (pull_client l) ps ?wm1)" for l ps
    by (rule psteady_trans [OF psteady_setters(2) psteady_fold]) (rule psteady_pull)
  then show ?thesis
    by (auto simp: wm_desktops_apply_def Let_def
        intro!: psteady_trans [OF psteady_trans [OF _ psteady_sync_visibility] psteady_emits]
        intro: psteady_trans [OF _ psteady_setters(1)])
qed

lemma psteady_reload_poll: "psteady wm (wm_desktops_reload_poll env wm)"
proof -
  have ask: "psteady wm (snd (ask f r w wm))" for f :: "_ \<Rightarrow> 'z" and r w wm
    by (rule psteady_kept) simp
  have cfg: "psteady wm (snd (wm_desktops_read_config env wm))" for wm
    by (simp add: wm_desktops_read_config_def Let_def case_prod_beta ask)
  have add: "psteady wm (snd (wm_timer_add env ms cb wm))" for ms cb wm
    by (rule psteady_kept) simp
  have tries: "psteady wm (wm\<lparr>m_desk_reload_tries := n\<rparr>)" for n wm
    by (rule psteady_kept) simp
  have apply_cfg: "psteady wm (case wm_desktops_read_config env wm of
      ((rows, cols), wm) \<Rightarrow> wm_desktops_apply rows cols wm)" for wm
    using psteady_trans [OF cfg psteady_desktops_apply] by (simp add: case_prod_beta)
  show ?thesis
    unfolding wm_desktops_reload_poll_def Let_def case_prod_beta
    by (simp only: if_split)
      (use ask in \<open>auto intro: psteady_trans [OF ask psteady_desktops_apply]
        psteady_trans [OF ask psteady_trans [OF tries apply_cfg [unfolded case_prod_beta]]]
        psteady_trans [OF ask psteady_trans [OF tries add]]\<close>)
qed

lemma psteady_switch_client: "psteady wm (switch_client old new p wm)"
  by (simp add: switch_client_def Let_def psteady_hide psteady_show)

subsection \<open>Switcher\<close>

lemma psteady_switcher_step: "psteady wm (wm_switcher_next wm)" "psteady wm (wm_switcher_prev wm)"
  by (simp_all add: wm_switcher_next_def wm_switcher_prev_def psteady_def ptr_view_def ptrs_def)

definition no_switcher :: "wmst \<Rightarrow> wmst" where
  "no_switcher wm = wm\<lparr>m_switcher_order := [], m_switcher_active := False\<rparr>"

lemma psound_no_switcher: "psound wm (no_switcher wm)"
  by (auto simp: no_switcher_def psound_def ptr_ok_def live_def [abs_def] ptrs_def)

lemma kept_switcher_off:
  "kept ((destroy_osd (emits rs wm))\<lparr>m_switcher_active := False\<rparr>) = kept (no_switcher wm)"
  by (simp add: destroy_osd_def no_switcher_def emits_def kept_def slots_def Let_def)

subsection \<open>Removed and new clients\<close>

lemma pred_without:
  "pred_option P x \<Longrightarrow> pred_option (\<lambda>q. P q \<and> q \<noteq> p) (if x = Some p then None else x)"
  by (cases x) auto

lemma psound_unlink: "psound wm (unlink_client p wm)"
proof -
  define w1 where "w1 = wm\<lparr>m_clients := filter (\<lambda>(q, _). q \<noteq> p) (m_clients wm)\<rparr>"
  define w2 where "w2 = (if m_focused w1 = Some p then w1\<lparr>m_focused := None\<rparr> else w1)"
  define w3 where "w3 = (if m_drag_client w2 = Some p
    then (snap_preview_hide w2)\<lparr>m_drag_client := None, m_drag_mode := DRAG_NONE\<rparr> else w2)"
  define w4 where "w4 = (if m_btn_press_client w3 = Some p
    then (emit XUngrabPointer w3)\<lparr>m_btn_press_client := None, m_btn_press_btn := - 1,
      m_btn_press_hover := False\<rparr> else w3)"
  note defs = w1_def w2_def w3_def w4_def
  have view: "ptrs w4 = filter (\<lambda>q. q \<noteq> p) (ptrs wm)" "m_next w4 = m_next wm"
    "m_focused w4 = (if m_focused wm = Some p then None else m_focused wm)"
    "m_drag_client w4 = (if m_drag_client wm = Some p then None else m_drag_client wm)"
    "m_btn_press_client w4 = (if m_btn_press_client wm = Some p then None else m_btn_press_client wm)"
    "m_switcher_order w4 = m_switcher_order wm" "m_switcher_active w4 = m_switcher_active wm"
    "m_monitors w4 = m_monitors wm" "m_ub w4 = m_ub wm"
    by (simp_all add: defs snap_preview_hide_def emits_def ptrs_def Let_def filter_map comp_def
        case_prod_unfold)
  have live4: "live w4 = (\<lambda>q. live wm q \<and> q \<noteq> p)" by (rule ext) (auto simp: live_def view(1))
  have base: "distinct (ptrs w4) \<and> list_all (\<lambda>q. q < m_next w4) (ptrs w4) \<and>
      pred_option (live w4) (m_focused w4) \<and> pred_option (live w4) (m_drag_client w4) \<and>
      pred_option (live w4) (m_btn_press_client w4) \<and> m_monitors w4 \<noteq> []" if "ptr_ok wm"
    using that by (simp only: ptr_ok_def view live4) (simp add: list_all_iff pred_without)
  have "psound wm (wm_switcher_cancel w4)"
  proof (cases "m_switcher_active wm")
    case True
    have "psound wm (no_switcher w4)"
      using base view(9) by (simp add: psound_def no_switcher_def ptr_ok_def live_def [abs_def] ptrs_def)
    with True view(7) kept_switcher_off [of "[XUngrabKeyboard]" w4] show ?thesis
      by (simp add: wm_switcher_cancel_def psound_calm)
  next
    case False
    have "psound wm w4"
      unfolding psound_def
    proof (intro impI)
      assume ok: "ptr_ok wm"
      with False have "m_switcher_order w4 = []" using ptr_okD(8) [OF ok] view(6) by simp
      with base [OF ok] view(9) show "ptr_ok w4 \<and> m_ub w4 = m_ub wm" by (simp add: ptr_ok_def)
    qed
    with False view(7) show ?thesis by (simp add: wm_switcher_cancel_def)
  qed
  moreover have "unlink_client p wm = wm_switcher_cancel w4"
    unfolding unlink_client_def Let_def defs by (rule refl)
  ultimately show ?thesis by simp
qed

lemma psound_add_client: "psound wm (add_client c wm)"
  by (auto simp: psound_def add_client_def ptr_ok_def live_def [abs_def] ptrs_def list_all_iff
      pred_option_def)

lemma live_add_client: "live (add_client c wm) (m_next wm)"
  by (simp add: add_client_def live_def ptrs_def)

lemma live_focus: "ptr_ok wm \<Longrightarrow> live (wm_focus_client env t time wm) p = live wm p"
  using kept_sel(22) [OF kept_focus, of wm] by (simp add: ptr_okD)

lemma kept_match_startup [simp]: "kept (snd (match_startup env p wm)) = kept wm"
proof -
  have "kept wm' = kept wm" if "ask (e_wm_class env) RWmClass w wm = (r, wm')" for w r wm'
    using kept_ask [of "e_wm_class env" RWmClass w wm] that by simp
  then show ?thesis
    by (auto simp: match_startup_def split: option.split prod.split)
qed

lemma grip_client_live: "find_grip_client wm win = Some (p, e) \<Longrightarrow> live wm p"
  using find_in_set [of "\<lambda>(p, c). win \<in> set (w_grip c)" "m_clients wm"]
  by (auto simp: find_grip_client_def live_def ptrs_def intro: rev_image_eqI split: option.splits)

definition snap_hazard :: "wmst \<Rightarrow> bool" where
  "snap_hazard wm \<longleftrightarrow> m_drag_mode wm = DRAG_MOVE \<and> m_snap_pending wm \<noteq> SNAP_NONE \<and>
     length (m_monitors wm) \<le> m_snap_monitor wm"

lemma ptr_ok_crash: "ptr_ok (crash wm) = ptr_ok wm"
  by (simp add: crash_def ptr_ok_def live_def [abs_def] ptrs_def)

lemma ptr_ok_monitor_work_area: "ptr_ok (snd (wm_get_monitor_work_area env mon wm)) = ptr_ok wm"
  using psteady_ptr_ok [OF psteady_kept [OF kept_work_area [of env wm]]]
  by (simp add: wm_get_monitor_work_area_def Let_def case_prod_beta ptr_ok_crash)

lemma ptr_ok_apply_snap: "ptr_ok (apply_snap env p zone mon wm) = ptr_ok wm"
proof -
  have "ptr_ok (frame_configure env p (upd p f w)) = ptr_ok w" for f w
    using psteady_ptr_ok [OF psteady_upd [of w p f]]
      psteady_ptr_ok [OF psteady_kept [OF kept_frame_configure [of env p "upd p f w"]]] by simp
  then show ?thesis
    by (simp add: apply_snap_def snap_geometry_def Let_def case_prod_beta ptr_ok_monitor_work_area)
qed

lemma kept_rescue: "m_monitors wm \<noteq> [] \<Longrightarrow> kept (rescue_client env p wm) = kept wm"
proof -
  assume m: "m_monitors wm \<noteq> []"
  have n: "nearest_monitor cc ms i best d < i + length ms \<or> nearest_monitor cc ms i best d = best"
    for cc ms i best d
  proof (induction cc ms i best d rule: nearest_monitor.induct)
    case (2 cc m ms i best dist)
    then show ?case by (simp add: Let_def) (fastforce split: if_splits)
  qed simp
  then have "nearest_monitor cc (m_monitors wm) 0 0 d < length (m_monitors wm)" for cc d
    using m n [of cc "m_monitors wm" 0 0 d] by (metis add_0 length_greater_0_conv)
  then show ?thesis
    by (auto simp: rescue_client_def Let_def case_prod_beta fit_to_monitor_def)
qed

definition menu_hazard :: "wmst \<Rightarrow> bool" where
  "menu_hazard wm \<longleftrightarrow> menu_open wm \<and> \<not> pred_option (live wm) (m_menu_client wm)"

fun hazard :: "wm_step \<Rightarrow> wmst \<Rightarrow> bool" where
  "hazard (SEvent (ButtonPress b)) wm = (menu_hazard wm \<and> b_event b = m_win_menu wm)"
| "hazard (SEvent (ButtonRelease b)) wm = snap_hazard wm"
| "hazard _ wm = False"

lemma kept_adopt_show: "kept (adopt_show env p wm) = kept wm"
  by (simp add: adopt_show_def Let_def)

end
