(* ===== verification/Wm_Steps.thy ===== *)
theory Wm_Steps
  imports Wm_Live
begin

section \<open>isde-wm: invariants of the event loop\<close>

text \<open>
  What every step of the window manager keeps, proved once for any property \<open>D\<close> of the desktops
  that the primitive desktop operations keep (the locale \<open>wm_invariant\<close>): each handler keeps
  \<open>ptr_ok\<close> and \<open>D\<close>, and follows no dangling pointer unless \<open>hazard\<close>. The locale is interpreted
  in \<open>Wm_Desk\<close>, with the invariant of the virtual desktops.
\<close>

definition desk_view :: "wmst \<Rightarrow> _" where
  "desk_view wm =
     (slots wm, m_current_desktop wm, m_num_desktops wm, m_desk_rows wm, m_desk_cols wm)"

lemma desk_view_kept: "kept a = kept b \<Longrightarrow> desk_view a = desk_view b"
  by (simp add: kept_def desk_view_def)

definition sound :: "(wmst \<Rightarrow> bool) \<Rightarrow> wmst \<Rightarrow> wmst \<Rightarrow> bool" where
  "sound D wm wm' \<longleftrightarrow> (ptr_ok wm \<and> D wm \<longrightarrow> ptr_ok wm' \<and> D wm' \<and> m_ub wm' = m_ub wm)"

definition steady :: "(wmst \<Rightarrow> bool) \<Rightarrow> wmst \<Rightarrow> wmst \<Rightarrow> bool" where
  "steady D wm wm' \<longleftrightarrow> psteady wm wm' \<and> (D wm \<longrightarrow> D wm')"

lemma steady_sound: "steady D wm wm' \<Longrightarrow> sound D wm wm'"
  using psteady_sound [of wm wm'] by (simp add: sound_def steady_def psound_def)

lemma steady_refl [simp]: "steady D wm wm"
  by (simp add: steady_def)

lemma steady_trans: "steady D a b \<Longrightarrow> steady D b c \<Longrightarrow> steady D a c"
  by (auto simp: steady_def intro: psteady_trans)

lemma sound_refl [simp]: "sound D wm wm"
  by (simp add: sound_def)

lemma sound_trans: "sound D a b \<Longrightarrow> sound D b c \<Longrightarrow> sound D a c"
  by (simp add: sound_def)

lemma sound_fold: "(\<And>x wm. sound D wm (f x wm)) \<Longrightarrow> sound D wm (fold f xs wm)"
  by (induction xs arbitrary: wm) (auto intro: sound_trans)

lemma sound_then:
  "sound D a b \<Longrightarrow> (ptr_ok a \<Longrightarrow> ptr_ok b \<Longrightarrow> D b \<Longrightarrow> sound D b c) \<Longrightarrow> sound D a c"
  by (simp add: sound_def)

lemma sound_ends: "sound D a b \<Longrightarrow> steady D b c \<Longrightarrow> sound D a c"
  by (metis sound_trans steady_sound)

lemma sound_steady: "steady D a b \<Longrightarrow> sound D b c \<Longrightarrow> sound D a c"
  by (metis sound_trans steady_sound)

lemma sound_psound: "psound a b \<Longrightarrow> (ptr_ok a \<Longrightarrow> D a \<Longrightarrow> D b) \<Longrightarrow> sound D a b"
  by (auto simp: sound_def psound_def)

lemma steady_psteady: "psteady a b \<Longrightarrow> (D a \<Longrightarrow> D b) \<Longrightarrow> steady D a b"
  by (simp add: steady_def)

locale wm_invariant =
  fixes env :: xenv
    and D :: "wmst \<Rightarrow> bool"
  assumes D_view: "desk_view a = desk_view b \<Longrightarrow> D a \<longleftrightarrow> D b"
    and D_unlink: "D wm \<Longrightarrow> D (unlink_client p wm)"
    and D_new: "ptr_ok wm \<Longrightarrow> D wm \<Longrightarrow> \<not> w_hidden c \<Longrightarrow>
      D (upd (m_next wm) (\<lambda>c. c\<lparr>w_desktop := m_current_desktop wm\<rparr>) (add_client c wm))"
    and D_adopt: "ptr_ok wm \<Longrightarrow> D wm \<Longrightarrow> \<not> w_hidden c \<Longrightarrow>
      D (adopt_desktop env (m_next wm) (add_client c wm))"
    and D_move: "ptr_ok wm \<Longrightarrow> D wm \<Longrightarrow> 0 \<le> k \<and> k < m_num_desktops wm \<and> d = u32 k \<or>
      d = ALL_DESKTOPS \<or> d = m_current_desktop wm \<Longrightarrow> D (wm_move_to_desktop p d wm)"
    and D_net: "ptr_ok wm \<Longrightarrow> D wm \<Longrightarrow> D (on_net_wm_desktop p d wm)"
    and D_switch: "ptr_ok wm \<Longrightarrow> D wm \<Longrightarrow> d < u32 (m_num_desktops wm) \<Longrightarrow> d \<noteq> m_current_desktop wm \<Longrightarrow>
      D (fold (switch_client (m_current_desktop wm) d) (ptrs wm) (wm\<lparr>m_current_desktop := d\<rparr>))"
    and D_poll: "ptr_ok wm \<Longrightarrow> D wm \<Longrightarrow> D (wm_desktops_reload_poll env wm)"
    and D_init: "m_clients wm = [] \<Longrightarrow> D (wm_desktops_init env wm)"
begin

lemma D_kept: "kept a = kept b \<Longrightarrow> D a \<longleftrightarrow> D b"
  by (rule D_view) (rule desk_view_kept)

lemma D_setters [simp]:
  "D (wm\<lparr>m_focused := a1\<rparr>) = D wm" "D (wm\<lparr>m_switcher_order := a2\<rparr>) = D wm"
  "D (wm\<lparr>m_switcher_active := a3\<rparr>) = D wm" "D (wm\<lparr>m_switcher_sel := a4\<rparr>) = D wm"
  "D (wm\<lparr>m_drag_client := a5\<rparr>) = D wm" "D (wm\<lparr>m_drag_mode := a6\<rparr>) = D wm"
  "D (wm\<lparr>m_drag_start := a7\<rparr>) = D wm" "D (wm\<lparr>m_drag_button := a8\<rparr>) = D wm"
  "D (wm\<lparr>m_drag_orig := a9\<rparr>) = D wm" "D (wm\<lparr>m_drag_orig_size := a10\<rparr>) = D wm"
  "D (wm\<lparr>m_resize_edge := a11\<rparr>) = D wm" "D (wm\<lparr>m_snap_pending := a12\<rparr>) = D wm"
  "D (wm\<lparr>m_snap_monitor := a13\<rparr>) = D wm" "D (wm\<lparr>m_btn_press_client := a14\<rparr>) = D wm"
  "D (wm\<lparr>m_btn_press_btn := a15\<rparr>) = D wm" "D (wm\<lparr>m_btn_press_hover := a16\<rparr>) = D wm"
  "D (wm\<lparr>m_btn_press_mouse := a17\<rparr>) = D wm" "D (wm\<lparr>m_last_user_time := a18\<rparr>) = D wm"
  "D (wm\<lparr>m_super_tap := a19\<rparr>) = D wm" "D (wm\<lparr>m_running := a20\<rparr>) = D wm"
  "D (wm\<lparr>m_win_menu := a21\<rparr>) = D wm" "D (wm\<lparr>m_menu_client := a22\<rparr>) = D wm"
  "D (wm\<lparr>m_menu_item_count := a23\<rparr>) = D wm" "D (wm\<lparr>m_menu_item_height := a24\<rparr>) = D wm"
  "D (wm\<lparr>m_monitors := a25\<rparr>) = D wm" "D (wm\<lparr>m_snap_preview := a26\<rparr>) = D wm"
  "D (wm\<lparr>m_trace := a27\<rparr>) = D wm"
  by (rule D_view, simp add: desk_view_def slots_def)+

lemma D_crash [simp]: "D (crash wm) = D wm"
  by (rule D_view) (simp add: crash_def desk_view_def slots_def)

lemma D_emits [simp]: "D (emits rs wm) = D wm"
  by (rule D_kept) simp

lemma steady_kept: "kept wm' = kept wm \<Longrightarrow> steady D wm wm'"
  using D_kept [of wm' wm] by (simp add: steady_def psteady_kept)

lemma sound_kept: "(ptr_ok wm \<Longrightarrow> kept wm' = kept wm) \<Longrightarrow> sound D wm wm'"
  by (metis sound_def steady_kept steady_sound)

lemma sound_calm: "sound D a b \<Longrightarrow> kept c = kept b \<Longrightarrow> sound D a c"
  by (metis sound_trans steady_kept steady_sound)

lemma sound_calm_first: "kept b = kept a \<Longrightarrow> sound D b c \<Longrightarrow> sound D a c"
  by (metis sound_trans steady_kept steady_sound)

lemma steady_emits: "steady D wm (emits rs wm)"
  by (rule steady_kept) simp

lemma sound_unfocus: "sound D wm (wm\<lparr>m_focused := None\<rparr>)"
  by (rule sound_psound [OF psound_unfocus]) simp

lemma sound_no_switcher: "sound D wm (no_switcher wm)"
  by (rule sound_psound [OF psound_no_switcher]) (simp add: no_switcher_def)

lemma sound_unlink: "sound D wm (unlink_client p wm)"
  by (rule sound_psound [OF psound_unlink]) (rule D_unlink)

lemma sound_move_to_desktop:
  "0 \<le> k \<and> k < m_num_desktops wm \<and> d = u32 k \<or> d = ALL_DESKTOPS \<or> d = m_current_desktop wm \<Longrightarrow>
     sound D wm (wm_move_to_desktop p d wm)"
  by (rule sound_psound [OF psound_move_to_desktop]) (rule D_move)

lemma sound_net_wm_desktop: "sound D wm (on_net_wm_desktop p d wm)"
  by (rule sound_psound [OF psound_net_wm_desktop]) (rule D_net)

lemma steady_switcher_step: "steady D wm (wm_switcher_next wm)" "steady D wm (wm_switcher_prev wm)"
  by (rule steady_psteady [OF psteady_switcher_step(1)], simp add: wm_switcher_next_def)
    (rule steady_psteady [OF psteady_switcher_step(2)], simp add: wm_switcher_prev_def)

lemma sound_poll: "sound D wm (wm_desktops_reload_poll env wm)"
  by (rule sound_psound [OF psteady_sound [OF psteady_reload_poll]]) (rule D_poll)

subsection \<open>Operations\<close>

lemma sound_focus: "pred_option (live wm) t \<Longrightarrow> sound D wm (wm_focus_client env t time wm)"
proof -
  assume t: "pred_option (live wm) t"
  have "sound D wm (wm\<lparr>m_focused := map_option (modal_child wm) t\<rparr>)"
    using t modal_child_live [of wm]
    by (auto simp: sound_def ptr_ok_def live_def [abs_def] ptrs_def option.pred_map pred_option_def)
  then show ?thesis
    using steady_sound [OF steady_kept [OF kept_focus]] by (auto simp: sound_def ptr_okD)
qed

lemma sound_focus_other: "sound D wm (focus_other env p wm)"
proof -
  let ?wm = "wm\<lparr>m_focused := None\<rparr>"
  have "sound D ?wm (case find (\<lambda>q. q \<noteq> p) (ptrs ?wm) of
      None \<Rightarrow> ?wm | Some q \<Rightarrow> wm_focus_client env (Some q) 0 ?wm)"
    using find_in_set [of "\<lambda>q. q \<noteq> p" "ptrs wm"] sound_focus [of ?wm]
    by (auto simp: live_def split: option.split)
  then show ?thesis
    unfolding focus_other_def Let_def
    by (rule sound_calm [OF sound_trans [OF sound_unfocus]]) simp
qed

lemma sound_minimize: "sound D wm (wm_minimize_client env p wm)"
  by (auto simp: wm_minimize_client_def Let_def
      intro: sound_calm [OF sound_refl] sound_trans [OF sound_calm [OF sound_refl] sound_focus_other])

lemma sound_drop_focus: "sound D wm (drop_focus d wm)"
proof -
  have "sound D wm ((upd q (\<lambda>c. c\<lparr>w_focused := False\<rparr>) wm)\<lparr>m_focused := None\<rparr>)" for q
    by (rule sound_calm_first [OF _ sound_unfocus]) simp
  then show ?thesis
    by (auto simp: drop_focus_def sound_def ptr_okD split: option.split)
qed

lemma sound_focus_mru_on: "sound D wm (focus_mru_on env d wm)"
proof (cases "mru (filter (\<lambda>(p, c). visible_on d (w_desktop c)) (m_clients wm)) None")
  case (Some p)
  then have "live wm p" 
    using mru_in [of "filter (\<lambda>(p, c). visible_on d (w_desktop c)) (m_clients wm)" None p]
    by (auto simp: live_def ptrs_def)
  with Some show ?thesis by (simp add: focus_mru_on_def sound_focus)
qed (simp add: focus_mru_on_def sound_focus)

lemma sound_desktops_switch: "sound D wm (wm_desktops_switch env d wm)"
proof (cases "d < u32 (m_num_desktops wm) \<and> d \<noteq> m_current_desktop wm")
  case True
  let ?w = "fold (switch_client (m_current_desktop wm) d) (ptrs wm) (wm\<lparr>m_current_desktop := d\<rparr>)"
  have "psteady wm ?w"
    by (rule psteady_trans [OF psteady_setters(1) psteady_fold]) (rule psteady_switch_client)
  then have "sound D wm ?w"
    using True by (auto intro: sound_psound psteady_sound D_switch)
  then have "sound D wm (focus_mru_on env d (drop_focus d (emits rs ?w)))" for rs
    using sound_trans [OF sound_ends [OF _ steady_emits] sound_trans [OF sound_drop_focus sound_focus_mru_on]]
    by blast
  with True show ?thesis
    by (auto simp: wm_desktops_switch_def Let_def ptrs_def intro!: sound_calm [OF _ kept_show_osd])
qed (auto simp: wm_desktops_switch_def)

lemma sound_desktops_move: "sound D wm (wm_desktops_move env dx dy wm)"
  by (simp add: wm_desktops_move_def Let_def sound_desktops_switch)

lemma sound_switcher_cancel: "sound D wm (wm_switcher_cancel wm)"
  by (simp add: wm_switcher_cancel_def sound_calm [OF sound_no_switcher kept_switcher_off])

lemma sound_switcher_commit: "sound D wm (wm_switcher_commit env wm)"
proof (cases "m_switcher_active wm \<and> m_switcher_sel wm \<ge> 0 \<and>
    m_switcher_sel wm < int (length (m_switcher_order wm)) \<and> ptr_ok wm")
  case True
  let ?p = "m_switcher_order wm ! nat (m_switcher_sel wm)"
  let ?wm = "(destroy_osd (emit XUngrabKeyboard wm))\<lparr>m_switcher_active := False\<rparr>"
  let ?wm' = "if w_minimized (cl ?wm ?p) then wm_restore_client ?p ?wm else ?wm"
  have k: "kept ?wm' = kept (no_switcher wm)" using kept_switcher_off [of "[XUngrabKeyboard]" wm] by simp
  have "live wm ?p" using True ptr_okD(7) [of wm ?p] by (simp add: nat_less_iff)
  then have l: "live ?wm ?p" "live ?wm' ?p"
    using kept_sel(22) [OF kept_switcher_off [of "[XUngrabKeyboard]" wm], of ?p] kept_sel(22) [OF k, of ?p]
    by (simp_all add: no_switcher_def)
  have "sound D wm (wm_focus_client env (Some ?p) 0 ?wm')"
    using sound_trans [OF sound_calm [OF sound_no_switcher k] sound_focus] l by simp
  with True l show ?thesis by (simp add: wm_switcher_commit_def Let_def)
next
  case False
  then show ?thesis
    using sound_calm [OF sound_no_switcher kept_switcher_off [of "[XUngrabKeyboard]" wm]]
    by (auto simp: wm_switcher_commit_def Let_def sound_def split: option.split)
qed

lemma sound_switcher_show: "sound D wm (wm_switcher_show env wm)"
proof (cases "m_switcher_active wm")
  case False
  let ?wm = "build_order wm"
  have o: "list_all (live wm) (m_switcher_order ?wm)"
    by (auto simp: build_order_def list_all_iff live_def ptrs_def)
  let ?grab = "emit (XGrabKeyboard (m_root ?wm)) ?wm"
  let ?ask = "ask (e_grabbed env) RGrabKeyboard (m_root ?grab) ?grab"
  have kask: "kept (snd ?ask) = kept ?wm" by simp
  have off: "sound D wm (w\<lparr>m_switcher_order := []\<rparr>)" if "kept w = kept ?wm" for w
  proof -
    have "kept (w\<lparr>m_switcher_order := []\<rparr>) = kept (wm\<lparr>m_switcher_order := []\<rparr>)"
      using that by (simp add: kept_def slots_def build_order_def)
    moreover have "sound D wm (wm\<lparr>m_switcher_order := []\<rparr>)"
      by (auto simp: sound_def ptr_ok_def live_def [abs_def] ptrs_def)
    ultimately show ?thesis by (rule sound_calm [rotated])
  qed
  have on: "sound D wm (create_osd env ((snd ?ask)\<lparr>m_switcher_active := True, m_switcher_sel := 1\<rparr>))"
  proof -
    have "kept ((snd ?ask)\<lparr>m_switcher_active := True, m_switcher_sel := 1\<rparr>) =
        kept (?wm\<lparr>m_switcher_active := True, m_switcher_sel := 1\<rparr>)"
      using kask by (simp add: kept_def slots_def)
    moreover have "sound D wm (?wm\<lparr>m_switcher_active := True, m_switcher_sel := 1\<rparr>)"
      using o by (auto simp: sound_def ptr_ok_def live_def [abs_def] ptrs_def build_order_def)
    ultimately show ?thesis by (auto intro: sound_calm)
  qed
  from False off [of ?wm] off [OF kask] on show ?thesis
    by (simp add: wm_switcher_show_def Let_def case_prod_beta)
qed (simp add: wm_switcher_show_def steady_sound steady_switcher_step)

lemma sound_remove: "sound D wm (wm_remove_client env p wm)"
proof -
  define c where "c = cl wm p"
  define w1 where "w1 = (if w_title c \<noteq> None \<or> w_icon_name c \<noteq> None
    then frame_disambiguate_all (w_title c) (w_icon_name c) (frame_destroy c (unlink_client p wm))
    else frame_destroy c (unlink_client p wm))"
  define w2 where "w2 = wm_ewmh_update_active
    (wm_ewmh_update_client_list_stacking (wm_ewmh_update_client_list w1))"
  have "kept w2 = kept (unlink_client p wm)" by (simp add: w2_def w1_def)
  then have 2: "sound D wm w2" using sound_calm [OF sound_unlink] by blast
  have "pred_option (live w2) (mru (m_clients w2) None)"
    using mru_in [of "m_clients w2" None] by (auto simp: pred_option_def live_def ptrs_def)
  then have "sound D wm (wm_focus_client env (mru (m_clients w2) None) 0 w2)"
    using sound_trans [OF 2 sound_focus] by blast
  moreover have "wm_remove_client env p wm = (if m_focused w2 = None \<and> m_clients w2 \<noteq> []
      then wm_focus_client env (mru (m_clients w2) None) 0 w2 else w2)"
    unfolding wm_remove_client_def Let_def c_def w1_def w2_def by (rule refl)
  ultimately show ?thesis using 2 by simp
qed

lemma sound_new_client:
  assumes "frame_create env win False wm = (r, wm')"
  shows "case r of
      None \<Rightarrow> sound D wm wm'
    | Some p \<Rightarrow> live wm' p \<and> sound D wm (upd p (\<lambda>c. c\<lparr>w_desktop := m_current_desktop wm'\<rparr>) wm')"
  using assms
proof (cases rule: frame_create_cases)
  case none
  then show ?thesis by (simp add: sound_calm [OF sound_refl])
next
  case (some c wm1)
  let ?f = "\<lambda>c. c\<lparr>w_desktop := m_current_desktop wm1\<rparr>"
  have "psound wm1 (upd (m_next wm1) ?f wm')"
    unfolding some(3) by (rule psound_trans [OF psound_add_client psteady_sound [OF psteady_upd]])
  then have "sound D wm1 (upd (m_next wm1) ?f wm')"
    using D_new [of wm1 c] some by (auto intro: sound_psound)
  then have "sound D wm (upd (m_next wm1) ?f wm')" by (rule sound_calm_first [OF some(2)])
  with some show ?thesis by (simp add: live_add_client) (simp add: add_client_def)
qed

subsection \<open>Handlers\<close>

lemma sound_focus_new: "live wm p \<Longrightarrow> sound D wm (focus_new env p wm)"
proof -
  assume l: "live wm p"
  obtain r wm1 where m: "match_startup env p wm = (r, wm1)" by fastforce
  with kept_match_startup [of env p wm] have k: "kept wm1 = kept wm" by simp
  have foc: "sound D wm (wm_focus_client env (Some p) t w)" if "kept w = kept wm" for w t
    using sound_calm_first [OF that sound_focus] l kept_sel(22) [OF that, of p] by simp
  have "sound D wm wm1" using k by (simp add: sound_calm [OF sound_refl])
  with m k foc show ?thesis by (auto simp: focus_new_def Let_def split: option.split)
qed

lemma sound_start_client: "live wm p \<Longrightarrow> sound D wm (start_client env p wm)"
proof -
  assume l: "live wm p"
  define w1 where "w1 = wm_set_wm_state p 1 (upd p (\<lambda>c. c\<lparr>w_mapped := True\<rparr>)
    (emits [XMap (w_client (cl wm p)), XMap (w_frame (cl wm p))] wm))"
  define w2 where "w2 = frame_send_configure_notify env (cl w1 p) w1"
  define w3 where "w3 = (if w_fullscreen (cl w2 p)
    then wm_fullscreen_client env p True (upd p (\<lambda>c. c\<lparr>w_fullscreen := False\<rparr>) w2) else w2)"
  have k: "kept w3 = kept wm" by (simp add: w1_def w2_def w3_def)
  have "sound D wm (focus_new env p w3)"
    using sound_calm_first [OF k sound_focus_new] l kept_sel(22) [OF k, of p] by simp
  moreover have "start_client env p wm =
      (if w_above (cl (focus_new env p w3) p) \<or> w_below (cl (focus_new env p w3) p)
       then wm_restack_above_below (focus_new env p w3) else focus_new env p w3)"
    unfolding start_client_def Let_def w1_def w2_def w3_def emits_simps by (rule refl)
  ultimately show ?thesis by (simp add: sound_calm)
qed

lemma sound_map_request: "sound D wm (on_map_request env win wm)"
proof -
  define w1 where "w1 = snd (ask (e_attributes env) RAttributes win wm)"
  define w2 where "w2 = snd (ask (e_window_type env) RWindowType win w1)"
  have k1: "kept w1 = kept wm" "kept w2 = kept wm" by (simp_all add: w1_def w2_def)
  have dock: "sound D wm (map_dock env win w2)"
    by (rule sound_calm [OF sound_refl]) (simp add: map_dock_def k1)
  obtain r w3 where f: "frame_create env win False w2 = (r, w3)" by fastforce
  have new: "sound D wm (wm_ewmh_update_client_list_stacking (wm_ewmh_update_client_list
      (if w_initial_state (cl w4 p) = 3 then wm_minimize_client env p (wm_set_wm_state p 3 w4)
       else start_client env p w4)))"
    if "r = Some p" "w4 = wm_ewmh_set_allowed_actions p (emits rs
      (upd p (\<lambda>c. c\<lparr>w_desktop := m_current_desktop w3\<rparr>) w3))" for p w4 rs
  proof -
    let ?w = "upd p (\<lambda>c. c\<lparr>w_desktop := m_current_desktop w3\<rparr>) w3"
    from sound_new_client [OF f] that(1) have l: "live ?w p" and s: "sound D w2 ?w" by simp_all
    have k: "kept w4 = kept ?w" unfolding that(2) by simp
    from l have "live w4 p" using kept_sel(22) [OF k, of p] by simp
    moreover have "sound D w4 (wm_minimize_client env p (wm_set_wm_state p 3 w4))"
      by (rule sound_calm_first [OF _ sound_minimize]) simp
    ultimately have "sound D w4 (if w_initial_state (cl w4 p) = 3
        then wm_minimize_client env p (wm_set_wm_state p 3 w4) else start_client env p w4)"
      by (simp add: sound_start_client)
    with sound_calm_first [OF k1(2) sound_calm [OF s k]]
    have "sound D wm (if w_initial_state (cl w4 p) = 3
        then wm_minimize_client env p (wm_set_wm_state p 3 w4) else start_client env p w4)"
      by (rule sound_trans)
    then show ?thesis by (rule sound_calm) simp
  qed
  have "sound D wm w1" "sound D wm w2" using k1 by (simp_all add: sound_calm [OF sound_refl])
  moreover have "sound D wm w3" if "r = None"
    using sound_new_client [OF f] that sound_calm_first [OF k1(2)] by simp
  ultimately show ?thesis
    using dock new
    by (auto simp: on_map_request_def Let_def case_prod_beta w1_def [symmetric] w2_def [symmetric] f
        simp del: kept_root_props split: option.split)
qed

lemma sound_configure_request: "sound D wm (on_configure_request env win v wm)"
proof -
  have "kept (on_configure_request env win v wm) = kept wm"
    by (auto simp: on_configure_request_def Let_def split: option.split prod.split)
  then show ?thesis by (simp add: sound_calm [OF sound_refl])
qed

lemma sound_unmap_notify: "sound D wm (on_unmap_notify env e win wm)"
  by (auto simp: on_unmap_notify_def sound_remove sound_calm [OF sound_refl] split: option.split)

lemma sound_destroy_notify: "sound D wm (on_destroy_notify env win wm)"
  using sound_calm_first [OF _ sound_remove, of "wm_remove_dock env win wm" wm]
  by (auto simp: on_destroy_notify_def Let_def sound_calm [OF sound_refl] split: option.split)

lemma sound_begin_drag: "live wm p \<Longrightarrow> sound D wm (begin_drag mode p rx ry b wm)"
  by (auto simp: begin_drag_def sound_def ptr_ok_def live_def [abs_def] ptrs_def)

lemma steady_drag_setters [simp]:
  "steady D wm (wm\<lparr>m_resize_edge := a1\<rparr>)" "steady D wm (wm\<lparr>m_drag_mode := a2\<rparr>)"
  "steady D wm (wm\<lparr>m_drag_mode := a3, m_resize_edge := a4\<rparr>)"
  "steady D wm (wm\<lparr>m_drag_orig_size := a5\<rparr>)"
  "steady D wm (wm\<lparr>m_snap_pending := a6\<rparr>)" "steady D wm (wm\<lparr>m_snap_pending := a6, m_snap_monitor := a7\<rparr>)"
  "steady D wm (wm\<lparr>m_btn_press_hover := a8\<rparr>)" "steady D wm (wm\<lparr>m_last_user_time := a9\<rparr>)"
  "steady D wm (wm\<lparr>m_super_tap := a10\<rparr>)" "steady D wm (wm\<lparr>m_running := a11\<rparr>)"
  by (simp_all add: steady_def psteady_def ptr_view_def ptrs_def)

lemma sound_grip_press: "sound D wm (on_grip_press env ev wm)"
proof -
  have "sound D wm (emit r ((begin_drag m p rx ry b w)\<lparr>m_resize_edge := e\<rparr>))"
    if "live wm p" "w = wm_focus_client env (Some p) t wm" for r m p rx ry b e w t
  proof -
    have w: "sound D wm w" using that by (simp add: sound_focus)
    have "sound D wm (begin_drag m p rx ry b w)"
      using that by (auto intro: sound_then [OF w] simp: sound_begin_drag live_focus)
    then show ?thesis by (blast intro: sound_ends steady_drag_setters steady_emits)
  qed
  then show ?thesis
    by (auto simp: on_grip_press_def Let_def dest: grip_client_live split: option.split)
qed

lemma sound_frame_button_press: "live wm p \<Longrightarrow> sound D wm (on_frame_button_press env p ev wm)"
proof -
  assume l: "live wm p"
  define w where "w = wm_focus_client env (Some p) (b_time ev) wm"
  have w: "sound D wm w" using l by (simp add: w_def sound_focus)
  have drag: "sound D wm (emit r ((begin_drag m p rx ry b w)\<lparr>m_drag_orig_size := z\<rparr>))" for r m rx ry b z
  proof -
    have "sound D wm (begin_drag m p rx ry b w)"
      using l by (auto intro: sound_then [OF w] simp: sound_begin_drag live_focus w_def)
    then show ?thesis by (blast intro: sound_ends steady_drag_setters steady_emits)
  qed
  have press: "sound D wm (emit r (w\<lparr>m_btn_press_client := Some p, m_btn_press_btn := b,
      m_btn_press_hover := True, m_btn_press_mouse := d\<rparr>))" for r b d
  proof -
    have "sound D w (w\<lparr>m_btn_press_client := Some p, m_btn_press_btn := b,
        m_btn_press_hover := True, m_btn_press_mouse := d\<rparr>)" if "live w p"
      using that by (auto simp: sound_def ptr_ok_def live_def [abs_def] ptrs_def)
    then have "sound D wm (w\<lparr>m_btn_press_client := Some p, m_btn_press_btn := b,
        m_btn_press_hover := True, m_btn_press_mouse := d\<rparr>)"
      using l by (auto intro: sound_then [OF w] simp: live_focus w_def)
    then show ?thesis by (blast intro: sound_ends steady_emits)
  qed
  from drag press show ?thesis
    by (auto simp: on_frame_button_press_def Let_def w_def)
qed

lemma sound_button_press: "sound D wm (on_button_press env ev wm)"
proof -
  let ?wm = "wm\<lparr>m_last_user_time := b_time ev\<rparr>"
  have "sound D ?wm (on_button_press env ev wm)"
    by (auto simp: on_button_press_def Let_def sound_grip_press sound_focus
        intro!: sound_frame_button_press sound_ends [OF _ steady_emits]
        dest: find_client_live split: option.split)
  then show ?thesis by (blast intro: sound_steady steady_drag_setters)
qed

lemma sound_maximize: "sound D wm (wm_maximize_client env p wm)"
  by (rule sound_kept) (simp add: ptr_okD)

lemma steady_snap_hide: "steady D wm (snap_preview_hide wm)"
  by (simp add: snap_preview_hide_def steady_def psteady_def ptr_view_def emits_def ptrs_def Let_def)

lemma sound_snap_show:
  "(m_monitors wm \<noteq> [] \<Longrightarrow> mon < length (m_monitors wm)) \<Longrightarrow> sound D wm (snap_preview_show env zone mon wm)"
  by (rule sound_kept) (simp add: ptr_okD)

lemma sound_unmaximize_drag: "sound D wm (unmaximize_drag env p rx ry wm)"
  by (rule sound_kept) (simp add: unmaximize_drag_def Let_def ptr_okD)

lemma sound_drag_move: "sound D wm (drag_move env p rx ry wm)"
proof -
  define restore where "restore = (w_maximized (cl wm p) \<and>
    (rx - fst (m_drag_start wm) \<noteq> 0 \<or> ry - snd (m_drag_start wm) \<noteq> 0))"
  define w1 where "w1 = (if restore then unmaximize_drag env p rx ry wm else wm)"
  have w1: "sound D wm w1" by (simp add: w1_def sound_unmaximize_drag)
  have w2: "sound D wm (emits rs (upd p (\<lambda>c. c\<lparr>w_x := x, w_y := y\<rparr>) w1))" for rs x y
    by (rule sound_calm [OF w1]) simp
  have snap: "sound D wm ((snap_preview_show env zone (monitor_at_point w2 rx ry) w2)
      \<lparr>m_snap_pending := z, m_snap_monitor := m\<rparr>)" if "sound D wm w2" for w2 zone z m
  proof -
    have "sound D w2 (snap_preview_show env zone (monitor_at_point w2 rx ry) w2)"
      by (rule sound_snap_show) (rule monitor_at_point_bound)
    from sound_ends [OF sound_trans [OF that this] steady_drag_setters(6)] show ?thesis .
  qed
  have hide: "sound D wm (snap_preview_hide w2)" if "sound D wm w2" for w2
    using that by (blast intro: sound_ends steady_snap_hide)
  show ?thesis
    unfolding drag_move_def Let_def restore_def [symmetric] w1_def [symmetric]
    by (auto simp: case_prod_beta intro: snap hide w2)
qed

lemma sound_drag_resize: "sound D wm (drag_resize env p rx ry wm)"
proof (rule sound_kept)
  obtain nx ny nw nh where g: "resize_geometry wm (cl wm p) (rx - fst (m_drag_start wm))
      (ry - snd (m_drag_start wm)) = (nx, ny, nw, nh)" by (metis prod_cases4)
  show "kept (drag_resize env p rx ry wm) = kept wm"
    by (simp add: drag_resize_def g case_prod_beta)
qed

lemma sound_motion: "sound D wm (on_motion_notify env rx ry wm)"
  using sound_drag_move [of wm] sound_drag_resize [of wm]
  by (auto simp: on_motion_notify_def sound_def dest: ptr_okD(5) split: option.split drag_mode.split)

lemma sound_end_drag: "sound D wm (end_drag wm)"
proof -
  have "sound D w (w\<lparr>m_drag_mode := DRAG_NONE, m_drag_client := None\<rparr>)" for w
    by (auto simp: sound_def ptr_ok_def live_def [abs_def] ptrs_def)
  from sound_steady [OF steady_trans [OF steady_snap_hide steady_emits] this]
  show ?thesis unfolding end_drag_def .
qed

lemma D_apply_snap [simp]: "D (apply_snap env p zone mon wm) = D wm"
proof -
  have "D (snd (wm_get_monitor_work_area env mon wm)) = D wm"
    using D_kept [OF kept_work_area [of env wm]]
    by (simp add: wm_get_monitor_work_area_def Let_def case_prod_beta)
  moreover have "D (frame_configure env p (upd p (\<lambda>c. set_geometry x y w h (save_geometry c)) wm)) = D wm"
    for x y w h wm by (rule D_kept) simp
  ultimately show ?thesis
    by (simp add: apply_snap_def snap_geometry_def Let_def case_prod_beta)
qed

lemma button_release_ok:
  assumes "ptr_ok wm" "D wm"
  shows "ptr_ok (on_button_release env d wm) \<and> D (on_button_release env d wm)"
    and "\<not> snap_hazard wm \<Longrightarrow> m_ub (on_button_release env d wm) = m_ub wm"
proof -
  define w1 where "w1 p = (if m_drag_mode wm = DRAG_MOVE \<and> m_snap_pending wm \<noteq> SNAP_NONE
    then apply_snap env p (m_snap_pending wm) (m_snap_monitor wm) wm else wm)" for p
  define w2 where "w2 p = (if m_drag_mode (w1 p) = DRAG_RESIZE \<and> w_sync_waiting (cl (w1 p) p)
    then sync_settle env p (w1 p) else w1 p)" for p
  have k2: "kept (w2 p) = kept (w1 p)" for p by (simp add: w2_def)
  have 1: "ptr_ok (w1 p)" "D (w1 p)" for p using assms by (simp_all add: w1_def ptr_ok_apply_snap)
  have 2: "ptr_ok (w2 p)" "D (w2 p)" for p
    using psteady_ptr_ok [OF psteady_kept [OF k2]] D_kept [OF k2] 1 by blast+
  have u: "m_ub (w2 p) = m_ub wm" if "\<not> snap_hazard wm" for p
    using that kept_sel(17) [OF k2, of p]
      kept_sel(17) [OF kept_apply_snap, of "m_snap_monitor wm" wm env p "m_snap_pending wm"]
    by (auto simp: w1_def snap_hazard_def)
  have e: "on_button_release env d wm =
      (if m_drag_button wm \<noteq> 0 \<and> d \<noteq> m_drag_button wm \<or> m_drag_mode wm = DRAG_NONE then wm
       else case m_drag_client wm of None \<Rightarrow> end_drag wm
         | Some p \<Rightarrow> if \<not> live wm p then crash wm else end_drag (w2 p))"
    unfolding on_button_release_def Let_def w1_def w2_def by (rule refl)
  from assms 2 ptr_okD(5) [OF assms(1)] sound_end_drag
  show "ptr_ok (on_button_release env d wm) \<and> D (on_button_release env d wm)"
    by (auto simp: e sound_def split: option.split)
  from assms 2 u ptr_okD(5) [OF assms(1)] sound_end_drag
  show "m_ub (on_button_release env d wm) = m_ub wm" if "\<not> snap_hazard wm"
    using that by (auto simp: e sound_def split: option.split)
qed

lemma sound_button_motion: "sound D wm (on_button_press_motion rx ry wm)"
  using steady_sound [OF steady_drag_setters(7)]
  by (auto simp: on_button_press_motion_def sound_def dest: ptr_okD(6) split: option.split)

lemma steady_menu:
  "steady D wm (wm_dismiss_menu wm)" "steady D wm (win_menu_show env p wm)"
proof -
  show d: "steady D wm (wm_dismiss_menu wm)" for wm
    by (simp add: wm_dismiss_menu_def steady_def psteady_def ptr_view_def emits_def ptrs_def)
  have g: "steady D wm (snd (generate_id env wm))" for wm by (simp add: steady_kept)
  have "steady D wm (wm\<lparr>m_win_menu := a, m_menu_client := b, m_menu_item_count := k,
      m_menu_item_height := h\<rparr>)" for wm :: wmst and a b k h
    by (simp add: steady_def psteady_def ptr_view_def ptrs_def)
  from steady_trans [OF d steady_trans [OF g steady_trans [OF steady_emits this]]]
  show "steady D wm (win_menu_show env p wm)"
    by (simp add: win_menu_show_def Let_def case_prod_beta)
qed

lemma sound_button_press_release: "sound D wm (on_button_press_release env ev wm)"
proof -
  have off: "sound D w (w\<lparr>m_btn_press_client := None, m_btn_press_btn := b, m_btn_press_hover := h\<rparr>)" for w b h
    by (auto simp: sound_def ptr_ok_def live_def [abs_def] ptrs_def)
  let ?w = "(emit XUngrabPointer wm)\<lparr>m_btn_press_client := None, m_btn_press_btn := - 1,
    m_btn_press_hover := False\<rparr>"
  have w: "sound D wm ?w" by (rule sound_steady [OF steady_emits off])
  have "sound D wm (win_menu_show env p ?w)" "sound D wm (wm_minimize_client env p ?w)"
    "sound D wm (wm_maximize_client env p ?w)" "sound D wm (wm_close_client env p ?w)" for p
    by (rule sound_ends [OF w steady_menu(2)] sound_trans [OF w sound_minimize]
        sound_trans [OF w sound_maximize] sound_calm [OF w kept_close])+
  with w show ?thesis
    by (auto simp: on_button_press_release_def Let_def sound_def dest: ptr_okD(6) split: option.split)
qed

lemma sound_property: "sound D wm (on_property_notify env p a wm)"
proof (rule sound_kept)
  show "kept (on_property_notify env p a wm) = kept wm"
    by (cases a) (simp_all add: on_property_notify_def Let_def case_prod_beta split: option.split)
qed

lemma sound_user_time_window: "sound D wm (on_user_time_window_notify env win a wm)"
proof (rule sound_kept)
  show "kept (on_user_time_window_notify env win a wm) = kept wm"
    by (auto simp: on_user_time_window_notify_def Let_def case_prod_beta split: option.split)
qed

lemma sound_active_window: "live wm p \<Longrightarrow> sound D wm (on_net_active_window env p src t wm)"
proof -
  assume l: "live wm p"
  let ?w = "upd p (\<lambda>c. c\<lparr>w_mapped := True\<rparr>) (emits [XMap (w_frame (cl wm p)), XMap (w_client (cl wm p))] wm)"
  have "sound D ?w (wm_focus_client env (Some p) t ?w)" using l by (simp add: sound_focus)
  then have "sound D wm (wm_focus_client env (Some p) t ?w)" by (rule sound_calm_first [rotated]) simp
  then show ?thesis by (simp add: on_net_active_window_def Let_def)
qed

lemma sound_sticky: "sound D wm (set_sticky p action wm)"
proof -
  let ?u = "\<lambda>b. upd p (\<lambda>c. c\<lparr>w_sticky := b\<rparr>) wm"
  have "sound D wm (wm_update_net_wm_state p (wm_move_to_desktop p d (?u b)))"
    if "d = ALL_DESKTOPS \<or> d = m_current_desktop wm" for d b
  proof -
    have "sound D (?u b) (wm_move_to_desktop p d (?u b))"
      using that by (intro sound_move_to_desktop) (auto simp: upd_def)
    then have "sound D wm (wm_move_to_desktop p d (?u b))" by (rule sound_calm_first [rotated]) simp
    then show ?thesis by (rule sound_calm) simp
  qed
  then show ?thesis by (auto simp: set_sticky_def Let_def sound_calm [OF sound_refl])
qed

lemma sound_state_atom: "sound D wm (state_atom env p action a wm)"
  by (cases a) (simp_all add: state_atom_def sound_maximize sound_minimize sound_sticky
      sound_calm [OF sound_refl])

lemma sound_net_wm_state: "sound D wm (on_net_wm_state env p action a1 a2 wm)"
  unfolding on_net_wm_state_def Let_def by (rule sound_fold) (rule sound_state_atom)

lemma sound_moveresize: "live wm p \<Longrightarrow> sound D wm (on_moveresize p x y dir b wm)"
proof -
  assume "live wm p"
  then have "sound D wm (begin_drag (m_drag_mode wm) p x y (b mod 256) wm)" (is "sound D wm ?w")
    by (rule sound_begin_drag)
  then have "sound D wm (emits rs (?w\<lparr>m_drag_mode := m\<rparr>))" "sound D wm ?w"
    "sound D wm (emits rs (?w\<lparr>m_drag_mode := m, m_resize_edge := e\<rparr>))" for rs m e
    by (blast intro: sound_ends steady_trans [OF steady_drag_setters(2) steady_emits]
        steady_trans [OF steady_drag_setters(3) steady_emits])+
  then show ?thesis by (auto simp: on_moveresize_def Let_def sound_end_drag)
qed

lemma sound_frame_extents: "sound D wm (on_frame_extents env win wm)"
  by (rule sound_kept) (simp add: on_frame_extents_def Let_def case_prod_beta)

lemma sound_with_client:
  "(\<And>p. live wm p \<Longrightarrow> sound D wm (f p wm)) \<Longrightarrow> sound D wm (with_client f win wm)"
  by (auto simp: with_client_def dest: find_client_live split: option.split)

lemma sound_client_message: "sound D wm (handle_client_message env msg wm)"
  by (cases msg) (auto simp: handle_client_message_def sound_active_window sound_net_wm_state
      sound_moveresize sound_net_wm_desktop sound_minimize sound_desktops_switch sound_frame_extents
      sound_calm [OF sound_refl] intro!: sound_with_client)

subsection \<open>Keys, dispatch, timers\<close>

lemma sound_keys: "sound D wm (wm_keys_handle env k wm)"
proof -
  obtain sym w where a: "ask (e_keysym env) RKeysym (k_detail k) wm = (sym, w)" by fastforce
  then have kw: "kept w = kept wm" using kept_ask [of "e_keysym env" RKeysym "k_detail k" wm] by simp
  let ?w = "w\<lparr>m_super_tap := (sym = 0xffeb \<and> (\<not> k_alt k \<and> \<not> k_shift k \<and> \<not> k_ctrl k \<and> \<not> k_super k))\<rparr>"
  have "kept ?w = kept wm" using kw by simp
  moreover have "sound D ?w (wm_keys_handle env k wm)"
    by (auto simp: wm_keys_handle_def a Let_def sound_switcher_cancel sound_switcher_show
        steady_sound [OF steady_switcher_step(1)] steady_sound [OF steady_switcher_step(2)]
        sound_desktops_move sound_def [of _ _ "crash _"] sound_calm [OF sound_refl]
        dest: ptr_okD(4) split: option.split)
  ultimately show ?thesis by (rule sound_calm_first)
qed

lemma sound_key_release: "sound D wm (wm_keys_handle_release env k wm)"
proof -
  obtain sym w where a: "ask (e_keysym env) RKeysym (k_detail k) wm = (sym, w)" by fastforce
  then have kw: "kept w = kept wm" using kept_ask [of "e_keysym env" RKeysym "k_detail k" wm] by simp
  moreover have "sound D w (wm_keys_handle_release env k wm)"
    by (simp add: wm_keys_handle_release_def a sound_switcher_commit sound_calm [OF sound_refl])
  ultimately show ?thesis by (rule sound_calm_first)
qed

lemma sound_rescue: "sound D wm (rescue_orphaned_clients env wm)"
  unfolding rescue_orphaned_clients_def
  by (rule sound_fold) (rule sound_kept, simp add: kept_rescue ptr_okD)

lemma sound_query_monitors: "sound D wm (query_monitors env wm)"
proof -
  have "sound D w (w\<lparr>m_monitors := ms\<rparr>)" if "ms \<noteq> []" for w ms
    using that by (auto simp: sound_def ptr_ok_def live_def [abs_def] ptrs_def)
  then have "sound D (snd (ask (e_monitors env) RMonitors 0 wm)) (query_monitors env wm)"
    by (auto simp: query_monitors_def Let_def case_prod_beta)
  then show ?thesis using kept_ask by (metis sound_calm_first)
qed

lemma sound_dispatch:
  assumes "\<And>b. ev \<noteq> ButtonRelease b \<or> \<not> snap_hazard wm"
  shows "sound D wm (dispatch_event env ev wm)"
proof (cases ev)
  case (KeyPress k)
  then show ?thesis
    by (simp add: dispatch_event_def) (blast intro: sound_steady steady_drag_setters sound_keys)
next
  case (ButtonRelease b)
  with assms have "\<not> snap_hazard wm" by blast
  with ButtonRelease show ?thesis
    using button_release_ok by (simp add: dispatch_event_def sound_def [of _ wm "on_button_release _ _ _"]
        sound_button_press_release)
qed (auto simp: dispatch_event_def sound_map_request sound_configure_request sound_unmap_notify
    sound_destroy_notify sound_client_message sound_motion sound_button_motion sound_button_press
    sound_property sound_user_time_window sound_key_release steady_sound sound_calm [OF sound_refl]
    sound_trans [OF sound_query_monitors sound_rescue] split: option.split)

lemma dispatch_ok:
  "ptr_ok wm \<Longrightarrow> D wm \<Longrightarrow> ptr_ok (dispatch_event env ev wm) \<and> D (dispatch_event env ev wm)"
  using sound_dispatch [of ev wm] button_release_ok(1) [of wm] sound_button_press_release [of wm]
  by (cases ev) (auto simp: sound_def dispatch_event_def)

lemma menu_click_ok:
  assumes "ptr_ok wm" "D wm"
  shows "ptr_ok (win_menu_click y wm) \<and> D (win_menu_click y wm)"
    and "pred_option (live wm) (m_menu_client wm) \<Longrightarrow> m_ub (win_menu_click y wm) = m_ub wm"
proof -
  have op: "sound D wm (wm_dismiss_menu w)" if "sound D wm w" for w
    using that by (blast intro: sound_ends steady_menu)
  have mv: "sound D wm (wm_move_to_desktop p (u32 (i - 3)) wm)" if "3 \<le> i" "i < 3 + m_num_desktops wm" for p i
    using that by (intro sound_move_to_desktop [of "i - 3"]) auto
  have "sound D wm (win_menu_click y wm)" if "pred_option (live wm) (m_menu_client wm)"
    using that sound_calm [OF sound_refl] sound_move_to_desktop [of _ wm ALL_DESKTOPS] mv
    by (auto simp: win_menu_click_def Let_def intro!: op split: option.split)
  moreover have "ptr_ok (win_menu_click y wm) \<and> D (win_menu_click y wm)"
    if "\<not> pred_option (live wm) (m_menu_client wm)"
    using that assms by (auto simp: win_menu_click_def ptr_ok_crash split: option.split)
  ultimately show "ptr_ok (win_menu_click y wm) \<and> D (win_menu_click y wm)"
    "pred_option (live wm) (m_menu_client wm) \<Longrightarrow> m_ub (win_menu_click y wm) = m_ub wm"
    using assms by (auto simp: sound_def)
qed

lemma wm_event_ok:
  assumes "ptr_ok wm" "D wm"
  shows "ptr_ok (dispatch_wm_event env ev wm) \<and> D (dispatch_wm_event env ev wm)"
    and "\<not> hazard (SEvent ev) wm \<Longrightarrow> m_ub (dispatch_wm_event env ev wm) = m_ub wm"
proof -
  have d: "ptr_ok (wm_dismiss_menu wm)" "D (wm_dismiss_menu wm)" "m_ub (wm_dismiss_menu wm) = m_ub wm"
    using steady_sound [OF steady_menu(1)] assms by (auto simp: sound_def)
  show "ptr_ok (dispatch_wm_event env ev wm) \<and> D (dispatch_wm_event env ev wm)"
    using assms d by (simp add: dispatch_wm_event_def dispatch_ok menu_click_ok split: xevent.split)
  assume h: "\<not> hazard (SEvent ev) wm"
  have s: "m_ub (dispatch_event env ev wm) = m_ub wm"
    using sound_dispatch [of ev wm] assms h by (cases ev) (auto simp: sound_def)
  show "m_ub (dispatch_wm_event env ev wm) = m_ub wm"
    using d s h menu_click_ok(2) [OF assms]
    by (cases ev) (auto simp: dispatch_wm_event_def menu_hazard_def)
qed

lemma sound_callback: "sound D wm (run_callback env cb wm)"
  by (cases cb) (simp_all add: run_callback_def sound_poll
      sound_calm [OF sound_refl])

lemma sound_timers: "sound D wm (wm_timers_fire env wm)"
proof -
  have "sound D w (fire_timer env now i w)" for now i w
    by (auto simp: fire_timer_def intro: sound_calm_first [OF _ sound_callback])
  then have "sound D w (fold (fire_timer env now) is w)" for now "is" w by (rule sound_fold)
  from sound_calm_first [OF kept_ask [of "e_now env" RClock 0 wm] this] show ?thesis
    by (simp add: wm_timers_fire_def case_prod_beta)
qed

lemma sound_settings: "sound D wm (wm_on_settings_changed env sect wm)"
  by (rule sound_kept) (simp add: wm_on_settings_changed_def wm_desktops_settings_changed_def)

lemma wm_do_ok:
  assumes "ptr_ok wm" "D wm"
  shows "ptr_ok (wm_do env s wm) \<and> D (wm_do env s wm)"
    and "\<not> hazard s wm \<Longrightarrow> m_ub (wm_do env s wm) = m_ub wm"
  using assms wm_event_ok [OF assms] sound_timers [of wm] sound_settings [of wm]
  by (cases s; simp add: sound_def)+

subsection \<open>Start\<close>

lemma sound_adopt_maximized: "sound D wm (adopt_maximized env p wm)"
proof (rule sound_kept)
  assume "ptr_ok wm"
  then have m: "m_monitors wm \<noteq> []" by (simp add: ptr_okD)
  define r where "r = wm_get_monitor_work_area env (monitor_for_client wm (cl wm p)) wm"
  have "kept (snd r) = kept wm" using m by (simp add: r_def monitor_for_client_bound)
  then have k: "kept (upd p (\<lambda>c. c\<lparr>w_save := v, w_maximized := False\<rparr>) (snd r)) = kept wm" for v
    by simp
  have "kept (wm_maximize_client env p (upd p (\<lambda>c. c\<lparr>w_save := v, w_maximized := False\<rparr>) (snd r))) = kept wm" for v
    using kept_maximize kept_sel(16) [OF k] k m by metis
  then show "kept (adopt_maximized env p wm) = kept wm"
    by (simp add: adopt_maximized_def r_def [symmetric] case_prod_beta)
qed

lemma sound_adopt_rest: "sound D wm (adopt_show env p (adopt_state env p wm))"
proof -
  have "sound D wm (adopt_state env p wm)"
    by (auto simp: adopt_state_def Let_def case_prod_beta sound_calm [OF sound_refl]
        intro: sound_calm_first [OF _ sound_adopt_maximized] split: option.split)
  then show ?thesis by (rule sound_calm) (rule kept_adopt_show)
qed

lemma sound_adopt_window: "sound D wm (adopt_window env win wm)"
proof -
  define w1 where "w1 = snd (ask (e_attributes env) RAttributes win wm)"
  define w2 where "w2 = snd (ask (e_window_type env) RWindowType win w1)"
  have k1: "kept w1 = kept wm" "kept w2 = kept wm" by (simp_all add: w1_def w2_def)
  obtain r w3 where f: "frame_create env win True w2 = (r, w3)" by fastforce
  then have 3: "case r of None \<Rightarrow> sound D w2 w3 | Some p \<Rightarrow> sound D w2 (adopt_client env p w3)"
  proof (cases rule: frame_create_cases)
    case none
    then show ?thesis by (simp add: sound_calm [OF sound_refl])
  next
    case (some c wm1)
    have "psteady w3 (adopt_desktop env p w3)" for p
      by (simp add: adopt_desktop_def Let_def case_prod_beta ask_def emits_def upd_def psteady_def
          ptr_view_def ptrs_def comp_def)
    then have "psound wm1 (adopt_desktop env (m_next wm1) w3)"
      unfolding some(3) by (blast intro: psound_trans psound_add_client psteady_sound)
    then have "sound D wm1 (adopt_desktop env (m_next wm1) w3)"
      using D_adopt [of wm1 c] some by (auto intro: sound_psound)
    then have "sound D wm1 (adopt_client env (m_next wm1) w3)"
      unfolding adopt_client_def by (rule sound_trans [OF _ sound_adopt_rest])
    with some show ?thesis by (simp add: sound_calm_first [OF some(2)])
  qed
  have s: "sound D wm x" if "sound D w2 x" for x using sound_calm_first [OF k1(2) that] .
  have "sound D wm w1" "sound D wm (emits rs (wm_add_dock env win w2))" for rs
    using k1 by (simp_all add: sound_calm [OF sound_refl])
  with 3 show ?thesis
    by (auto simp: adopt_window_def Let_def case_prod_beta w1_def [symmetric] w2_def [symmetric] f
        intro: s split: option.splits)
qed

lemma wm_init_ok:
  assumes "wm0 = wm_zero root screen th randr sync"
  shows "ptr_ok (wm_init env wm0) \<and> D (wm_init env wm0) \<and> \<not> m_ub (wm_init env wm0)"
proof -
  let ?q = "query_monitors env wm0"
  have z: "ptr_ok ?q" "\<not> m_ub ?q" "m_clients ?q = []"
    using assms by (simp_all add: wm_zero_def query_monitors_def ask_def emits_def Let_def ptr_ok_def ptrs_def)
  define w1 where "w1 = wm_desktops_init env ?q"
  define a where "a = ask (e_tree env) RQueryTree (m_root w1) w1"
  define w2 where "w2 = (case fst a of Some wins \<Rightarrow> fold (adopt_window env) wins (snd a) | None \<Rightarrow> snd a)"
  have "psteady w w1" if "w = snd (initial_grid env ?q)" for w
    unfolding w1_def wm_desktops_init_def that
    by (simp add: Let_def case_prod_beta ask_def emits_def psteady_def psteady_def ptr_view_def ptrs_def)
  moreover have "psteady ?q (snd (initial_grid env ?q))" by (simp add: psteady_kept)
  ultimately have "psteady ?q w1" by (blast intro: psteady_trans)
  with z have 1: "ptr_ok w1" "\<not> m_ub w1"
    using psteady_sound [of ?q w1] by (auto simp: psound_def)
  have "D w1" unfolding w1_def by (rule D_init) (rule z(3))
  moreover have "sound D w1 (snd a)" by (rule sound_calm [OF sound_refl]) (simp add: a_def)
  then have "sound D w1 w2"
    by (auto simp: w2_def intro: sound_trans sound_fold sound_adopt_window split: option.split)
  moreover have "kept (wm_init env wm0) = kept w2"
    unfolding w2_def a_def w1_def by (simp add: wm_init_def Let_def case_prod_beta)
  ultimately have "sound D w1 (wm_init env wm0)" "D w1" by (auto intro: sound_calm)
  with 1 show ?thesis by (auto simp: sound_def)
qed

lemma reach_ok:
  "wm_reach env wm0 wm \<Longrightarrow> wm0 = wm_zero root screen th randr sync \<Longrightarrow> ptr_ok wm \<and> D wm"
  by (induction rule: wm_reach.induct) (simp_all add: wm_init_ok wm_do_ok)

end

end
