(* ===== verification/Wm_Desk.thy ===== *)
theory Wm_Desk
  imports Wm_Steps
begin

section \<open>isde-wm: the virtual desktops\<close>

text \<open>
  The invariant of the desktops: the grid, the current desktop, the desktop of every client and
  which clients are hidden. Each primitive desktop operation is described by what it does to
  the list of slots (pointer, window, desktop, hidden flag), and the loops over the clients by one
  function applied to every slot; \<open>wm_invariant\<close> then carries the invariant through every handler.
\<close>

definition grid :: "wmst \<Rightarrow> nat \<times> int \<times> int \<times> int" where
  "grid wm = (m_current_desktop wm, m_num_desktops wm, m_desk_rows wm, m_desk_cols wm)"

definition slot_ok :: "nat \<Rightarrow> int \<Rightarrow> nat \<times> nat \<times> bool \<Rightarrow> bool" where
  "slot_ok cur num = (\<lambda>(w, d, h). (int d < num \<or> d = ALL_DESKTOPS) \<and> (h \<longrightarrow> \<not> visible_on cur d))"

lemma slot_ok_conv:
  "slot_ok cur num (w, d, h) \<longleftrightarrow> (int d < num \<or> d = ALL_DESKTOPS) \<and> (h \<longrightarrow> \<not> visible_on cur d)"
  by (simp add: slot_ok_def)

definition desk_ok :: "wmst \<Rightarrow> bool" where
  "desk_ok wm \<longleftrightarrow>
     1 \<le> m_desk_rows wm \<and> 1 \<le> m_desk_cols wm \<and>
     m_num_desktops wm = m_desk_rows wm * m_desk_cols wm \<and> m_num_desktops wm < 2 ^ 31 \<and>
     int (m_current_desktop wm) < m_num_desktops wm \<and>
     list_all (\<lambda>(p, s). slot_ok (m_current_desktop wm) (m_num_desktops wm) s) (slots wm)"

definition grid_ok :: "xenv \<Rightarrow> bool" where
  "grid_ok env \<longleftrightarrow>
     (\<forall>tr lc lr. e_layout env tr = Some (lc, lr) \<longrightarrow> lr * lc < 2 ^ 31) \<and>
     (\<forall>wm rows cols. fst (wm_desktops_read_config env wm) = (rows, cols) \<longrightarrow> rows * cols < 2 ^ 31)"

lemma desk_okI:
  assumes "desk_ok wm" "grid wm' = grid wm"
    and "list_all (\<lambda>(p, s). slot_ok (m_current_desktop wm) (m_num_desktops wm) s) (slots wm')"
  shows "desk_ok wm'"
  using assms by (simp add: desk_ok_def grid_def)

lemma desk_ok_view: "desk_view a = desk_view b \<Longrightarrow> desk_ok a \<longleftrightarrow> desk_ok b"
  by (simp add: desk_view_def desk_ok_def)

lemma desk_ok_current: "desk_ok wm \<Longrightarrow> int (m_current_desktop wm) < m_num_desktops wm"
  by (simp add: desk_ok_def)

lemma u32_num: "desk_ok wm \<Longrightarrow> d < u32 (m_num_desktops wm) \<longleftrightarrow> int d < m_num_desktops wm"
  by (auto simp: desk_ok_def u32_id)

subsection \<open>One slot\<close>

lemma grid_simps [simp]: "grid (upd p f wm) = grid wm" "grid (emits rs wm) = grid wm"
  by (simp_all add: grid_def upd_def emits_def)

lemma slots_emits [simp]: "slots (emits rs wm) = slots wm"
  by (simp add: slots_def emits_def)

definition on_slot :: "nat \<Rightarrow> (nat \<times> nat \<times> bool \<Rightarrow> nat \<times> nat \<times> bool) \<Rightarrow> _" where
  "on_slot p g = map (\<lambda>(q, s). (q, if q = p then g s else s))"

lemma slots_upd:
  "(\<And>c. (w_client (f c), w_desktop (f c), w_hidden (f c)) = g (w_client c, w_desktop c, w_hidden c)) \<Longrightarrow>
     slots (upd p f wm) = on_slot p g (slots wm)"
  by (auto simp: slots_def upd_def on_slot_def)

lemma on_slot_id [simp]: "on_slot p (\<lambda>s. s) xs = xs" "on_slot p id xs = xs"
  by (induction xs) (auto simp: on_slot_def)

lemma on_slot_twice [simp]: "on_slot p f (on_slot p g xs) = on_slot p (f \<circ> g) xs"
  by (auto simp: on_slot_def)

lemma slots_kept_upd [simp]:
  assumes "\<And>c. w_client (f c) = w_client c" "\<And>c. w_desktop (f c) = w_desktop c"
    "\<And>c. w_hidden (f c) = w_hidden c"
  shows "slots (upd p f wm) = slots wm"
  using assms by (simp add: slots_upd [where g = "\<lambda>s. s"])

lemma slot_cl:
  assumes "distinct (ptrs wm)" "(p, w, d, h) \<in> set (slots wm)"
  shows "w_desktop (cl wm p) = d" "w_hidden (cl wm p) = h"
  using assms cl_in [of wm p] by (auto simp: slots_def)

lemma on_slot_cong:
  assumes "\<And>s. (p, s) \<in> set xs \<Longrightarrow> f s = g s"
  shows "on_slot p f xs = on_slot p g xs"
  using assms by (auto simp: on_slot_def)

lemma slots_hide: "slots (hide_client p wm) = on_slot p (\<lambda>(w, d, h). (w, d, True)) (slots wm)"
proof -
  have "slots (upd p (\<lambda>c. c\<lparr>w_hidden := True, w_ignore_unmap := w_ignore_unmap c + 1\<rparr>) wm) =
      on_slot p (\<lambda>(w, d, h). (w, d, True)) (slots wm)" by (rule slots_upd) simp
  then show ?thesis by (simp add: hide_client_def Let_def)
qed

lemma slots_show: "slots (show_client p wm) = on_slot p (\<lambda>(w, d, h). (w, d, False)) (slots wm)"
proof -
  have "slots (upd p (\<lambda>c. c\<lparr>w_hidden := False\<rparr>) wm) =
      on_slot p (\<lambda>(w, d, h). (w, d, False)) (slots wm)" by (rule slots_upd) simp
  then show ?thesis by (simp add: show_client_def map_client_def Let_def)
qed

lemma slots_move:
  "slots (upd p (\<lambda>c. c\<lparr>w_desktop := d'\<rparr>) wm) = on_slot p (\<lambda>(w, d, h). (w, d', h)) (slots wm)"
  by (rule slots_upd) simp

lemma grid_hide [simp]: "grid (hide_client p wm) = grid wm" "grid (show_client p wm) = grid wm"
  by (simp_all add: hide_client_def show_client_def map_client_def Let_def)

lemma ptrs_on_slot: "slots wm' = on_slot p g (slots wm) \<Longrightarrow> ptrs wm' = ptrs wm"
  by (simp add: ptrs_slots on_slot_def comp_def case_prod_beta)

subsection \<open>All slots\<close>

definition acts :: "(nat \<Rightarrow> wmst \<Rightarrow> wmst) \<Rightarrow> nat \<times> int \<times> int \<times> int \<Rightarrow>
    (nat \<times> nat \<times> bool \<Rightarrow> nat \<times> nat \<times> bool) \<Rightarrow> bool" where
  "acts f gr g \<longleftrightarrow> (\<forall>p wm. distinct (ptrs wm) \<longrightarrow> grid wm = gr \<longrightarrow>
     slots (f p wm) = on_slot p g (slots wm) \<and> grid (f p wm) = gr)"

lemma actsI:
  "(\<And>p wm. distinct (ptrs wm) \<Longrightarrow> grid wm = gr \<Longrightarrow>
     slots (f p wm) = on_slot p g (slots wm) \<and> grid (f p wm) = gr) \<Longrightarrow> acts f gr g"
  by (simp add: acts_def)

lemma acts_fold:
  assumes "acts f (grid wm) g" "distinct (ptrs wm)" "distinct ps"
  shows "slots (fold f ps wm) = map (\<lambda>(q, s). (q, if q \<in> set ps then g s else s)) (slots wm) \<and>
     grid (fold f ps wm) = grid wm"
  using assms
proof (induction ps arbitrary: wm)
  case (Cons p ps)
  then have s: "slots (f p wm) = on_slot p g (slots wm)" "grid (f p wm) = grid wm"
    by (simp_all add: acts_def)
  with Cons.prems have "distinct (ptrs (f p wm))" "acts f (grid (f p wm)) g"
    by (simp_all add: ptrs_on_slot [OF s(1)])
  with Cons s show ?case by (auto simp: on_slot_def)
qed simp

lemma acts_all:
  assumes "acts f (grid wm) g" "distinct (ptrs wm)"
  shows "slots (fold f (ptrs wm) wm) = map (\<lambda>(q, s). (q, g s)) (slots wm)"
    and "grid (fold f (ptrs wm) wm) = grid wm"
proof -
  have "q \<in> set (ptrs wm)" if "(q, s) \<in> set (slots wm)" for q s
    using that by (force simp: ptrs_slots)
  then have "map (\<lambda>(q, s). (q, if q \<in> set (ptrs wm) then g s else s)) (slots wm) =
      map (\<lambda>(q, s). (q, g s)) (slots wm)" by auto
  then show "slots (fold f (ptrs wm) wm) = map (\<lambda>(q, s). (q, g s)) (slots wm)"
    "grid (fold f (ptrs wm) wm) = grid wm"
    using acts_fold [OF assms(1) assms(2) assms(2)] by simp_all
qed

lemma slot_case:
  assumes "distinct (ptrs wm)" "P (w_desktop (cl wm p)) (w_hidden (cl wm p))"
    and "\<And>w d h. (p, w, d, h) \<in> set (slots wm) \<Longrightarrow> P d h \<Longrightarrow> f (w, d, h) = g (w, d, h)"
  shows "on_slot p f (slots wm) = on_slot p g (slots wm)"
proof (rule on_slot_cong)
  fix s
  assume "(p, s) \<in> set (slots wm)"
  with assms slot_cl [OF assms(1), of p] show "f s = g s" by (cases s) auto
qed

definition switch_slot :: "nat \<Rightarrow> nat \<Rightarrow> nat \<times> nat \<times> bool \<Rightarrow> nat \<times> nat \<times> bool" where
  "switch_slot old new = (\<lambda>(w, d, h). (w, d,
     if d = ALL_DESKTOPS then h else if d = old \<and> d \<noteq> new then True
     else if d = new \<and> d \<noteq> old then False else h))"

lemma acts_switch: "acts (switch_client old new) gr (switch_slot old new)"
proof (rule actsI)
  fix p wm
  assume "distinct (ptrs wm)" "grid wm = gr"
  note * = slot_case [OF this(1), where p = p and P = "\<lambda>d h. d = w_desktop (cl wm p)"]
  have id: "slots wm = on_slot p (\<lambda>s. s) (slots wm)" by simp
  show "slots (switch_client old new p wm) = on_slot p (switch_slot old new) (slots wm) \<and>
      grid (switch_client old new p wm) = gr"
    unfolding switch_client_def Let_def
    using \<open>grid wm = gr\<close> by (auto simp: slots_hide slots_show switch_slot_def intro!: * trans [OF id *] split: if_splits)
qed

definition sync_slot :: "nat \<Rightarrow> nat \<times> nat \<times> bool \<Rightarrow> nat \<times> nat \<times> bool" where
  "sync_slot cur = (\<lambda>(w, d, h). (w, d, \<not> visible_on cur d))"

lemma acts_sync: "acts sync_visibility_client gr (sync_slot (fst gr))"
proof (rule actsI)
  fix p wm
  assume "distinct (ptrs wm)" "grid wm = gr"
  note * = slot_case [OF this(1), where p = p and
      P = "\<lambda>d h. d = w_desktop (cl wm p) \<and> h = w_hidden (cl wm p)"]
  have id: "slots wm = on_slot p (\<lambda>s. s) (slots wm)" by simp
  show "slots (sync_visibility_client p wm) = on_slot p (sync_slot (fst gr)) (slots wm) \<and>
      grid (sync_visibility_client p wm) = gr"
    unfolding sync_visibility_client_def Let_def \<open>grid wm = gr\<close> [symmetric]
    by (auto simp: slots_hide slots_show sync_slot_def grid_def [of wm] intro!: * trans [OF id *])
qed

definition pull_slot :: "nat \<Rightarrow> nat \<times> nat \<times> bool \<Rightarrow> nat \<times> nat \<times> bool" where
  "pull_slot lst = (\<lambda>(w, d, h). (w, if d \<noteq> ALL_DESKTOPS \<and> d > lst then lst else d, h))"

lemma acts_pull: "acts (pull_client lst) gr (pull_slot lst)"
proof (rule actsI)
  fix p wm
  assume "distinct (ptrs wm)" "grid wm = gr"
  note * = slot_case [OF this(1), where p = p and P = "\<lambda>d h. d = w_desktop (cl wm p)"]
  have id: "slots wm = on_slot p (\<lambda>s. s) (slots wm)" by simp
  show "slots (pull_client lst p wm) = on_slot p (pull_slot lst) (slots wm) \<and>
      grid (pull_client lst p wm) = gr"
    unfolding pull_client_def
    using \<open>grid wm = gr\<close> by (auto simp: slots_move pull_slot_def intro!: * trans [OF id *])
qed

subsection \<open>The primitive operations keep the invariant\<close>

lemma list_all_on_slot:
  assumes "list_all (\<lambda>(q, s). P s) xs" "\<And>s. (p, s) \<in> set xs \<Longrightarrow> P s \<Longrightarrow> P (g s)"
  shows "list_all (\<lambda>(q, s). P s) (on_slot p g xs)"
  using assms by (fastforce simp: on_slot_def list_all_iff)

lemma desk_ok_unlink: "desk_ok wm \<Longrightarrow> desk_ok (unlink_client p wm)"
proof -
  assume ok: "desk_ok wm"
  have [simp]: "desk_view (snap_preview_hide w) = desk_view w" "desk_view (wm_switcher_cancel w) = desk_view w"
    for w
    by (simp_all add: snap_preview_hide_def wm_switcher_cancel_def destroy_osd_def desk_view_def
        slots_def emits_def Let_def)
  let ?w = "wm\<lparr>m_clients := filter (\<lambda>(q, _). q \<noteq> p) (m_clients wm)\<rparr>"
  have "desk_view (snap_preview_hide w\<lparr>m_drag_client := a, m_drag_mode := b\<rparr>) = desk_view w" for w a b
    using \<open>desk_view (snap_preview_hide w) = desk_view w\<close> by (simp add: desk_view_def slots_def)
  then have "desk_view (unlink_client p wm) = desk_view ?w"
    by (simp add: unlink_client_def Let_def) (simp add: desk_view_def slots_def emits_def)
  moreover have "desk_ok ?w"
    using ok by (auto simp: desk_ok_def slots_def list_all_iff)
  ultimately show ?thesis using desk_ok_view by blast
qed

lemma slots_desktop_changed:
  "slots (desktop_changed p old new wm) = on_slot p (\<lambda>(w, d, h). (w, d,
     if visible_on (m_current_desktop wm) old \<and> \<not> visible_on (m_current_desktop wm) new then True
     else if \<not> visible_on (m_current_desktop wm) old \<and> visible_on (m_current_desktop wm) new then False
     else h)) (slots wm)"
  and grid_desktop_changed: "grid (desktop_changed p old new wm) = grid wm"
proof -
  have "slots (wm_ewmh_update_active (w\<lparr>m_focused := None\<rparr>)) = slots w"
    "grid (wm_ewmh_update_active (w\<lparr>m_focused := None\<rparr>)) = grid w" for w
    by (simp_all add: wm_ewmh_update_active_def slots_def grid_def emits_def split: option.split)
  then show "slots (desktop_changed p old new wm) = on_slot p (\<lambda>(w, d, h). (w, d,
     if visible_on (m_current_desktop wm) old \<and> \<not> visible_on (m_current_desktop wm) new then True
     else if \<not> visible_on (m_current_desktop wm) old \<and> visible_on (m_current_desktop wm) new then False
     else h)) (slots wm)" "grid (desktop_changed p old new wm) = grid wm"
    by (auto simp: desktop_changed_def Let_def slots_hide slots_show)
qed

lemma desk_ok_move:
  assumes "desk_ok wm" "distinct (ptrs wm)" "int d < m_num_desktops wm \<or> d = ALL_DESKTOPS"
  shows "desk_ok (desktop_changed p (w_desktop (cl wm p)) d
    (emits rs (upd p (\<lambda>c. c\<lparr>w_desktop := d\<rparr>) wm)))"
proof (rule desk_okI [OF assms(1)])
  have "m_current_desktop (emits rs (upd p f wm)) = m_current_desktop wm" for f
    by (simp add: emits_def upd_def)
  with assms show "list_all (\<lambda>(p, s). slot_ok (m_current_desktop wm) (m_num_desktops wm) s)
      (slots (desktop_changed p (w_desktop (cl wm p)) d (emits rs (upd p (\<lambda>c. c\<lparr>w_desktop := d\<rparr>) wm))))"
    by (auto simp: slots_desktop_changed slots_move slot_ok_def desk_ok_def slot_cl
        intro!: list_all_on_slot)
qed (simp add: grid_desktop_changed)

lemma desk_ok_move_to:
  assumes "desk_ok wm" "distinct (ptrs wm)"
    "0 \<le> k \<and> k < m_num_desktops wm \<and> d = u32 k \<or> d = ALL_DESKTOPS \<or> d = m_current_desktop wm"
  shows "desk_ok (wm_move_to_desktop p d wm)"
proof -
  have "int d < m_num_desktops wm \<or> d = ALL_DESKTOPS"
    using assms(1,3) by (auto simp: desk_ok_def u32_id)
  with desk_ok_move [OF assms(1,2)] assms(1) show ?thesis
    by (simp add: wm_move_to_desktop_def Let_def)
qed

lemma desk_ok_net: "desk_ok wm \<Longrightarrow> distinct (ptrs wm) \<Longrightarrow> desk_ok (on_net_wm_desktop p d wm)"
  by (auto simp: on_net_wm_desktop_def Let_def u32_num intro: desk_ok_move)

lemma desk_ok_add:
  assumes "ptr_ok wm" "desk_ok wm" "\<not> w_hidden c" "int d < m_num_desktops wm \<or> d = ALL_DESKTOPS"
    and "slots wm' = on_slot (m_next wm) (\<lambda>(w, _, h). (w, d, h)) (slots (add_client c wm))"
    and "grid wm' = grid wm"
  shows "desk_ok wm'"
proof (rule desk_okI [OF assms(2,6)])
  have "m_next wm \<notin> fst ` set (slots wm)"
    using assms(1) by (auto simp: ptr_ok_def ptrs_slots list_all_iff)
  then have "on_slot (m_next wm) g (slots wm) = slots wm" for g
    by (force simp: on_slot_def intro!: map_idI)
  moreover have "slots (add_client c wm) = slots wm @ [(m_next wm, w_client c, w_desktop c, w_hidden c)]"
    by (simp add: slots_def add_client_def)
  moreover have "on_slot p g (xs @ [(p, y)]) = on_slot p g xs @ [(p, g y)]" for p g xs y
    by (simp add: on_slot_def)
  ultimately have "slots wm' = slots wm @ [(m_next wm, w_client c, d, w_hidden c)]"
    using assms(5) by simp
  with assms(2,3,4) show "list_all (\<lambda>(p, s). slot_ok (m_current_desktop wm) (m_num_desktops wm) s) (slots wm')"
    by (auto simp: desk_ok_def slot_ok_conv)
qed

lemma desk_ok_switch:
  assumes "desk_ok wm" "distinct (ptrs wm)" "d < u32 (m_num_desktops wm)" "d \<noteq> m_current_desktop wm"
  shows "desk_ok (fold (switch_client (m_current_desktop wm) d) (ptrs wm) (wm\<lparr>m_current_desktop := d\<rparr>))"
    (is "desk_ok ?w")
proof -
  let ?v = "wm\<lparr>m_current_desktop := d\<rparr>"
  have v: "ptrs ?v = ptrs wm" "slots ?v = slots wm" by (simp_all add: ptrs_def slots_def)
  note all = acts_all [of "switch_client (m_current_desktop wm) d" ?v, OF acts_switch, unfolded v, OF assms(2)]
  have "slot_ok (m_current_desktop wm) n s \<Longrightarrow> slot_ok d n (switch_slot (m_current_desktop wm) d s)" for n s
    using assms(4) by (auto simp: slot_ok_def switch_slot_def visible_on_def split: if_splits)
  with assms show ?thesis
    using all(2) by (auto simp: desk_ok_def all(1) grid_def u32_id list_all_iff)
qed

lemma desk_ok_apply:
  assumes "distinct (ptrs wm)" "1 \<le> rows" "1 \<le> cols" "rows * cols < 2 ^ 31"
  shows "desk_ok (wm_desktops_apply rows cols wm)"
proof -
  have pos: "1 \<le> rows * cols" using mult_mono [of 1 rows 1 cols] assms(2,3) by simp
  then have num: "s32 (rows * cols) = rows * cols" using assms(4) by (intro s32_id) simp_all
  define lst where "lst = u32 (rows * cols - 1)"
  have lst: "int lst = rows * cols - 1" using pos assms(4) by (simp add: lst_def u32_id)
  define w0 where "w0 = wm\<lparr>m_desk_rows := rows, m_desk_cols := cols, m_num_desktops := rows * cols\<rparr>"
  define w1 where "w1 = fold (pull_client lst) (ptrs w0) w0"
  define w2 where "w2 = (if m_current_desktop w1 > lst then w1\<lparr>m_current_desktop := lst\<rparr> else w1)"
  have w0: "ptrs w0 = ptrs wm" "slots w0 = slots wm" by (simp_all add: w0_def ptrs_def slots_def)
  have 1: "slots w1 = map (\<lambda>(q, s). (q, pull_slot lst s)) (slots wm)" "grid w1 = grid w0"
    using acts_all [of "pull_client lst" w0, OF acts_pull] assms(1) w0 by (simp_all add: w1_def)
  have s2: "slots w2 = slots w1" by (simp add: w2_def slots_def)
  have p2: "ptrs w2 = ptrs wm" by (simp add: ptrs_slots s2 1 comp_def case_prod_beta)
  have g2: "grid w2 = (min (m_current_desktop wm) lst, rows * cols, rows, cols)"
    using 1(2) by (auto simp: w2_def w0_def grid_def)
  have 3: "slots (wm_desktops_sync_visibility w2) =
      map (\<lambda>(q, s). (q, sync_slot (fst (grid w2)) (pull_slot lst s))) (slots wm)"
    "grid (wm_desktops_sync_visibility w2) = grid w2"
    using acts_all [of sync_visibility_client w2, OF acts_sync] assms(1) p2
    by (simp_all add: wm_desktops_sync_visibility_def s2 1 comp_def case_prod_beta)
  have "desk_ok (wm_desktops_sync_visibility w2)"
  proof -
    have g: "m_desk_rows w = rows" "m_desk_cols w = cols" "m_num_desktops w = rows * cols"
      "m_current_desktop w = min (m_current_desktop wm) lst" if "w = wm_desktops_sync_visibility w2" for w
      using 3(2) g2 that by (simp_all add: grid_def)
    have "slot_ok cur (rows * cols) (sync_slot cur (pull_slot lst s))" for cur s
      using lst by (cases s) (auto simp: slot_ok_conv sync_slot_def pull_slot_def)
    with g2 have "list_all (\<lambda>(p, s). slot_ok (min (m_current_desktop wm) lst) (rows * cols) s)
        (slots (wm_desktops_sync_visibility w2))"
      by (auto simp: 3(1) list_all_iff)
    with assms lst show ?thesis by (simp add: desk_ok_def g)
  qed
  moreover have "desk_view (wm_desktops_apply rows cols wm) = desk_view (wm_desktops_sync_visibility w2)"
    by (rule desk_view_kept)
      (use assms(2,3) num in \<open>simp add: wm_desktops_apply_def Let_def w2_def w1_def w0_def lst_def\<close>)
  ultimately show ?thesis using desk_ok_view by blast
qed

lemma read_config_pos: "fst (wm_desktops_read_config env wm) = (rows, cols) \<Longrightarrow> 1 \<le> rows \<and> 1 \<le> cols"
  by (auto simp: wm_desktops_read_config_def Let_def case_prod_beta split: option.splits if_splits)

lemma initial_grid_ok:
  assumes "grid_ok env" "initial_grid env wm = ((rows, cols), wm')"
  shows "1 \<le> rows \<and> 1 \<le> cols \<and> rows * cols < 2 ^ 31"
proof -
  let ?a = "ask (e_layout env) RDesktopLayout 0 wm"
  have cfg: ?thesis if "wm_desktops_read_config env w = ((rows, cols), wm')" for w
    using read_config_pos [of env w rows cols] assms(1) that by (simp add: grid_ok_def) (metis fst_conv)
  have "fst ?a = Some (lc, lr) \<Longrightarrow> lr * lc < 2 ^ 31" for lc lr
    using assms(1) by (auto simp: grid_ok_def ask_def Let_def)
  with assms(2) cfg show ?thesis
    by (auto simp: initial_grid_def case_prod_beta Let_def split: option.splits if_splits)
qed

lemma desk_ok_init:
  assumes "grid_ok env" "m_clients wm = []"
  shows "desk_ok (wm_desktops_init env wm)"
proof -
  obtain rows cols wm1 where g: "initial_grid env wm = ((rows, cols), wm1)" by (metis prod.exhaust)
  with initial_grid_ok [OF assms(1)] have gr: "1 \<le> rows" "1 \<le> cols" "rows * cols < 2 ^ 31" by blast+
  have pos: "1 \<le> rows * cols" using mult_mono [of 1 rows 1 cols] gr by simp
  then have num: "s32 (rows * cols) = rows * cols" using gr by (intro s32_id) simp_all
  have "slots wm1 = []"
    using kept_sel(1) [OF kept_initial_grid [of env wm]] g assms(2) by (simp add: slots_def)
  with gr pos num show ?thesis
    by (auto simp: wm_desktops_init_def g Let_def ask_def emits_def desk_ok_def slots_def u32_id
        split: option.split)
qed

lemma desk_ok_poll:
  assumes "grid_ok env" "desk_ok wm" "distinct (ptrs wm)"
  shows "desk_ok (wm_desktops_reload_poll env wm)"
proof -
  have ptrs_eq: "distinct (ptrs w)" if "kept w = kept wm" for w
    using kept_sel(21) [OF that] assms(3) by simp
  have k: "desk_ok w" if "kept w = kept wm" for w
    using desk_ok_view [OF desk_view_kept [OF that]] assms(2) by simp
  let ?a = "ask (e_layout env) RDesktopLayout 0 wm"
  let ?t = "(snd ?a)\<lparr>m_desk_reload_tries := m_desk_reload_tries (snd ?a) + 1\<rparr>"
  let ?c = "wm_desktops_read_config env ?t"
  have ka: "kept (snd ?a) = kept wm" "kept ?t = kept wm" "kept (snd ?c) = kept wm" by simp_all
  have "desk_ok (wm_desktops_apply lr lc (snd ?a))" if "fst ?a = Some (lc, lr)" "0 < lc" "0 < lr" for lc lr
    using that assms(1) ptrs_eq [OF ka(1)]
    by (intro desk_ok_apply) (auto simp: grid_ok_def ask_def Let_def)
  moreover have "desk_ok (wm_desktops_apply (fst (fst ?c)) (snd (fst ?c)) (snd ?c))"
    using read_config_pos [of env ?t "fst (fst ?c)" "snd (fst ?c)"] assms(1) ptrs_eq [OF ka(3)]
    by (intro desk_ok_apply) (auto simp: grid_ok_def)
  moreover have "desk_ok (snd (wm_timer_add env 50 CbReloadPoll ?t))" by (rule k) simp
  ultimately show ?thesis
    by (auto simp: wm_desktops_reload_poll_def Let_def case_prod_beta split: option.splits)
qed

lemma adopt_desktop_slots:
  "\<exists>d. (int (m_current_desktop wm) < m_num_desktops wm \<and> m_num_desktops wm < 2 ^ 31 \<longrightarrow>
       int d < m_num_desktops wm \<or> d = ALL_DESKTOPS) \<and>
     slots (adopt_desktop env p wm) = on_slot p (\<lambda>(w, _, h). (w, d, h)) (slots wm) \<and>
     grid (adopt_desktop env p wm) = grid wm"
proof -
  define w1 where "w1 = upd p (\<lambda>c. c\<lparr>w_focus_seq := Suc (m_focus_seq wm)\<rparr>)
    (wm\<lparr>m_focus_seq := Suc (m_focus_seq wm)\<rparr>)"
  define a where "a = ask (e_card env) RWmDesktop (w_client (cl wm p)) w1"
  define d where "d = (case fst a of Some d \<Rightarrow> d | None \<Rightarrow> ALL_DESKTOPS)"
  define d' where "d' = (if d \<noteq> ALL_DESKTOPS \<and> d \<ge> u32 (m_num_desktops wm) then m_current_desktop wm else d)"
  have v: "slots (snd a) = slots wm" "grid (snd a) = grid wm"
  proof -
    have "kept (snd a) = kept wm" by (simp add: a_def w1_def)
    then show "slots (snd a) = slots wm" "grid (snd a) = grid wm"
      using desk_view_kept [of "snd a" wm] by (simp_all add: desk_view_def grid_def)
  qed
  then have "adopt_desktop env p wm = emit (XSet PWmDesktop (w_client (cl wm p)) [d'])
      (upd p (\<lambda>c. c\<lparr>w_desktop := d'\<rparr>) (snd a))"
    by (simp add: adopt_desktop_def Let_def case_prod_beta w1_def [symmetric] a_def [symmetric]
        d_def [symmetric] d'_def grid_def)
  then have "slots (adopt_desktop env p wm) = on_slot p (\<lambda>(w, _, h). (w, d', h)) (slots wm)"
    "grid (adopt_desktop env p wm) = grid wm"
    using v by (simp_all add: slots_move)
  moreover have "int d' < m_num_desktops wm \<or> d' = ALL_DESKTOPS"
    if "int (m_current_desktop wm) < m_num_desktops wm" "m_num_desktops wm < 2 ^ 31"
    using that by (auto simp: d'_def u32_id)
  ultimately show ?thesis by blast
qed

interpretation desk: wm_invariant env "\<lambda>wm. grid_ok env \<longrightarrow> desk_ok wm" for env
proof unfold_locales
  fix wm and c :: wclient
  assume ok: "ptr_ok wm" "grid_ok env \<longrightarrow> desk_ok wm" "\<not> w_hidden c"
  have cur: "int (m_current_desktop wm) < m_num_desktops wm" if "grid_ok env"
    using that ok(2) by (simp add: desk_ok_def)
  let ?f = "\<lambda>d c. c\<lparr>w_desktop := d\<rparr>"
  have "desk_ok (upd (m_next wm) (?f (m_current_desktop wm)) (add_client c wm))" if "grid_ok env"
    using desk_ok_add [OF ok(1) _ ok(3) disjI1 [OF cur [OF that]] slots_upd] ok(2) that
    by (auto simp: add_client_def grid_def upd_def)
  then show "grid_ok env \<longrightarrow> desk_ok (upd (m_next wm) (?f (m_current_desktop wm)) (add_client c wm))"
    by blast
  have "m_current_desktop (add_client c wm) = m_current_desktop wm"
    "m_num_desktops (add_client c wm) = m_num_desktops wm" by (simp_all add: add_client_def)
  then obtain d where "int d < m_num_desktops wm \<or> d = ALL_DESKTOPS \<or> \<not> grid_ok env"
    "slots (adopt_desktop env (m_next wm) (add_client c wm)) =
      on_slot (m_next wm) (\<lambda>(w, _, h). (w, d, h)) (slots (add_client c wm))"
    "grid (adopt_desktop env (m_next wm) (add_client c wm)) = grid (add_client c wm)"
    using adopt_desktop_slots [of "add_client c wm" env "m_next wm"] ok(2) desk_ok_def [of wm]
    by metis
  moreover have "grid (add_client c wm) = grid wm" by (simp add: grid_def add_client_def)
  ultimately
  show "grid_ok env \<longrightarrow> desk_ok (adopt_desktop env (m_next wm) (add_client c wm))" 
    using desk_ok_add [OF ok(1) _ ok(3)] ok(2) by auto
qed (auto simp: desk_ok_unlink desk_ok_init dest: desk_ok_view intro: desk_ok_move_to desk_ok_net
    desk_ok_switch desk_ok_poll ptr_okD)

end
