(* ===== verification/Wm_Geom.thy ===== *)
theory Wm_Geom
  imports Wm_Desk
begin

section \<open>isde-wm: geometry of windows\<close>

text \<open>
  Placement inside the work area, maximised and full-screen windows and their saved geometry, and
  the rectangle a drag of a border gives. Reading the work area and configuring a frame change
  nothing but the trace (\<open>untraced\<close>).
\<close>

subsection \<open>Only the trace\<close>

definition untraced :: "wmst \<Rightarrow> wmst" where
  "untraced wm = wm\<lparr>m_trace := []\<rparr>"

lemma untraced_emits [simp]: "untraced (emits rs wm) = untraced wm"
  by (simp add: untraced_def emits_def)

lemma untraced_ask [simp]: "untraced (snd (ask f what win wm)) = untraced wm"
  by (simp add: ask_def Let_def)

lemma untraced_check_strut: "untraced (snd (check_strut env win s)) = untraced (snd s)"
  by (cases s; cases "fst s") (auto simp: check_strut_def ask_def Let_def split: option.split prod.split)

lemma untraced_fold_strut: "untraced (snd (fold (check_strut env) ws s)) = untraced (snd s)"
  by (induction ws arbitrary: s) (simp_all add: untraced_check_strut)

lemma untraced_work_area [simp]: "untraced (snd (wm_get_work_area env wm)) = untraced wm"
proof -
  obtain s wm1 where 1: "fold (check_strut env) (map (w_client \<circ> snd) (m_clients wm)) ((0, 0, 0, 0), wm) = (s, wm1)"
    by fastforce
  then have "untraced wm1 = untraced wm"
    using untraced_fold_strut [of env "map (w_client \<circ> snd) (m_clients wm)" "((0, 0, 0, 0), wm)"] by simp
  then have "untraced (snd (all_struts env wm)) = untraced wm"
    by (simp add: all_struts_def 1 ask_def Let_def untraced_fold_strut split: option.split)
  then show ?thesis by (simp add: wm_get_work_area_def case_prod_beta)
qed

lemma untraced_monitor_work_area [simp]:
  "mon < length (m_monitors wm) \<Longrightarrow> untraced (snd (wm_get_monitor_work_area env mon wm)) = untraced wm"
  by (simp add: wm_get_monitor_work_area_def Let_def case_prod_beta)

lemma untraced_frame_configure [simp]: "untraced (frame_configure env p wm) = untraced wm"
  by (simp add: frame_configure_def frame_update_grips_def frame_set_extents_def
      frame_send_configure_notify_def Let_def)

lemma untraced_net_wm_state [simp]: "untraced (wm_update_net_wm_state p wm) = untraced wm"
  by (simp add: wm_update_net_wm_state_def)

lemma untraced_cl: "untraced a = untraced b \<Longrightarrow> cl a p = cl b p"
  and untraced_live: "untraced a = untraced b \<Longrightarrow> live a p = live b p"
  and untraced_monitors: "untraced a = untraced b \<Longrightarrow> m_monitors a = m_monitors b"
  and untraced_title: "untraced a = untraced b \<Longrightarrow> title_of a c = title_of b c"
proof -
  have sel: "m_clients (untraced w) = m_clients w" "m_monitors (untraced w) = m_monitors w"
    "m_title_height (untraced w) = m_title_height w" for w by (simp_all add: untraced_def)
  assume "untraced a = untraced b"
  then have "m_clients a = m_clients b" "m_monitors a = m_monitors b" "m_title_height a = m_title_height b"
    using sel [of a] sel [of b] by simp_all
  then show "cl a p = cl b p" "live a p = live b p" "m_monitors a = m_monitors b" "title_of a c = title_of b c"
    by (simp_all add: cl_def live_def ptrs_def title_of_def)
qed

lemma title_of_geometry [simp]:
  "title_of wm (c\<lparr>w_width := a\<rparr>) = title_of wm c" "title_of wm (c\<lparr>w_height := a\<rparr>) = title_of wm c"
  "title_of wm (c\<lparr>w_x := a\<rparr>) = title_of wm c" "title_of wm (c\<lparr>w_y := a\<rparr>) = title_of wm c"
  "title_of wm (c\<lparr>w_save := v\<rparr>) = title_of wm c" "title_of wm (c\<lparr>w_transient_for := t\<rparr>) = title_of wm c"
  "title_of wm (c\<lparr>w_maximized := b\<rparr>) = title_of wm c" "title_of wm (c\<lparr>w_fullscreen := b\<rparr>) = title_of wm c"
  by (simp_all add: title_of_def)

subsection \<open>Placement\<close>

definition area_ok :: "int \<Rightarrow> area \<Rightarrow> bool" where
  "area_ok th = (\<lambda>(wx, wy, ww, wh). - 32768 \<le> wx \<and> - 32768 \<le> wy \<and> wx + ww < 32768 \<and> wy + wh < 32768 \<and>
     3 \<le> ww \<and> th + 3 \<le> wh \<and> 0 \<le> th)"

definition frame_inside :: "wmst \<Rightarrow> area \<Rightarrow> wclient \<Rightarrow> bool" where
  "frame_inside wm = (\<lambda>(wx, wy, ww, wh) c.
     wx \<le> w_x c \<and> w_x c + frame_total_width c \<le> wx + ww \<and>
     wy \<le> w_y c \<and> w_y c + frame_total_height wm c \<le> wy + wh)"

lemma clamp_axis:
  fixes x len lo span :: int
  assumes "- 32768 \<le> lo" "lo + span < 32768" "0 \<le> len" "len \<le> span"
  defines "y \<equiv> if x + len > lo + span then i16 (lo + span - len) else x"
  defines "z \<equiv> if y < lo then i16 lo else y"
  shows "lo \<le> z \<and> z + len \<le> lo + span"
  using assms by (auto simp: i16_id)

lemma clamp_inside:
  assumes "area_ok (title_of wm c) a" "0 \<le> w_width c" "0 \<le> w_height c"
  shows "frame_inside wm a (clamp_to_area wm a c)"
proof -
  obtain wx wy ww wh where a: "a = (wx, wy, ww, wh)" by (metis prod_cases4)
  define c1 where "c1 = (if w_width c > ww - 2 then c\<lparr>w_width := u16 (ww - 2)\<rparr> else c)"
  define c2 where "c2 = (if w_height c1 > wh - title_of wm c - 2
    then c1\<lparr>w_height := u16 (wh - title_of wm c - 2)\<rparr> else c1)"
  note ok = assms(1) [unfolded a area_ok_def prod.case]
  have d: "w_decorated c2 = w_decorated c" "w_x c2 = w_x c" "w_y c2 = w_y c" by (simp_all add: c2_def c1_def)
  then have t: "title_of wm c2 = title_of wm c" by (simp add: title_of_def)
  have w: "0 \<le> frame_total_width c2" "frame_total_width c2 \<le> ww"
    "0 \<le> frame_total_height wm c2" "frame_total_height wm c2 \<le> wh"
    using ok assms(2,3) by (auto simp: frame_total_width_def frame_total_height_def t c2_def c1_def u16_id)
  have cong: "frame_total_width (c2\<lparr>w_x := x, w_y := y\<rparr>) = frame_total_width c2"
    "frame_total_height wm (c2\<lparr>w_x := x, w_y := y\<rparr>) = frame_total_height wm c2" for x y
    by (simp_all add: frame_total_width_def frame_total_height_def title_of_def)
  define y1 where "y1 = (if w_x c + frame_total_width c2 > wx + ww then i16 (wx + ww - frame_total_width c2) else w_x c)"
  define y2 where "y2 = (if w_y c + frame_total_height wm c2 > wy + wh
    then i16 (wy + wh - frame_total_height wm c2) else w_y c)"
  have "clamp_to_area wm a c = c2\<lparr>w_x := if y1 < wx then i16 wx else y1, w_y := if y2 < wy then i16 wy else y2\<rparr>"
  proof -
    have m: "(if ww - 2 < 1 then 1 else ww - 2) = ww - 2"
      "(if wh - title_of wm c - 2 < 1 then 1 else wh - title_of wm c - 2) = wh - title_of wm c - 2"
      using ok by auto
    have 3: "(if w_x c2 + frame_total_width c2 > wx + ww then c2\<lparr>w_x := i16 (wx + ww - frame_total_width c2)\<rparr>
        else c2) = c2\<lparr>w_x := y1\<rparr>" by (simp add: y1_def d)
    have 4: "(if w_y (c2\<lparr>w_x := y1\<rparr>) + frame_total_height wm c2 > wy + wh
        then c2\<lparr>w_x := y1\<rparr>\<lparr>w_y := i16 (wy + wh - frame_total_height wm c2)\<rparr> else c2\<lparr>w_x := y1\<rparr>) =
        c2\<lparr>w_x := y1, w_y := y2\<rparr>" by (simp add: y2_def d)
    show ?thesis
      unfolding clamp_to_area_def a prod.case Let_def m c1_def [symmetric] c2_def [symmetric] 3 4
      by simp
  qed
  moreover have "wx \<le> (if y1 < wx then i16 wx else y1) \<and> (if y1 < wx then i16 wx else y1) + frame_total_width c2 \<le> wx + ww"
    unfolding y1_def using ok w by (intro clamp_axis) auto
  moreover have "wy \<le> (if y2 < wy then i16 wy else y2) \<and> (if y2 < wy then i16 wy else y2) + frame_total_height wm c2 \<le> wy + wh"
    unfolding y2_def using ok w by (intro clamp_axis) auto
  ultimately show ?thesis by (simp add: frame_inside_def a cong)
qed

lemma clamp_to_work_area_inside:
  assumes "clamp_to_work_area env c wm = (c', wm')"
    and "0 \<le> w_width c" "0 \<le> w_height c"
    and "\<And>wm1 a. wm_get_work_area env wm1 = (a, wm') \<Longrightarrow> area_ok (title_of wm' c) a"
  shows "\<exists>wm1 a. wm_get_work_area env wm1 = (a, wm') \<and> frame_inside wm' a c'"
proof -
  obtain a where a: "wm_get_work_area env wm = (a, wm')" "c' = clamp_to_area wm' a c"
    using assms(1) by (auto simp: clamp_to_work_area_def case_prod_beta) (metis prod.collapse)
  with clamp_inside [OF assms(4) [OF a(1)] assms(2,3)] show ?thesis by blast
qed

lemma place_client_inside:
  assumes place: "wm_place_client env c wm = (c', wm')"
    and size: "0 \<le> w_width c" "0 \<le> w_height c"
    and area: "\<And>wm1 a. wm_get_work_area env wm1 = (a, wm') \<Longrightarrow> area_ok (title_of wm' c) a"
  shows "\<exists>wm1 a. wm_get_work_area env wm1 = (a, wm') \<and> frame_inside wm' a c'"
proof -
  note inside = clamp_to_work_area_inside [where wm' = wm']
  have "\<exists>c1 w. clamp_to_work_area env c1 w = (c', wm') \<and> w_width c1 = w_width c \<and>
      w_height c1 = w_height c \<and> w_decorated c1 = w_decorated c"
    using place
    by (auto simp: wm_place_client_def place_transient_def place_cascade_def Let_def case_prod_beta
        split: option.splits if_splits)
  then obtain c1 w where c1: "clamp_to_work_area env c1 w = (c', wm')" "w_width c1 = w_width c"
    "w_height c1 = w_height c" "w_decorated c1 = w_decorated c" by blast
  then have "title_of wm' c1 = title_of wm' c" by (simp add: title_of_def)
  with inside [OF c1(1)] c1 size area show ?thesis by metis
qed

subsection \<open>Maximised and full-screen windows\<close>

definition geometry :: "wclient \<Rightarrow> area" where
  "geometry c = (w_x c, w_y c, w_width c, w_height c)"

lemma cl_maximize:
  assumes "live wm p" "m_monitors wm \<noteq> []"
  shows "live (wm_maximize_client env p wm) p" "m_monitors (wm_maximize_client env p wm) = m_monitors wm"
    and "w_maximized (cl wm p) \<Longrightarrow>
      cl (wm_maximize_client env p wm) p = (restore_geometry (cl wm p))\<lparr>w_maximized := False\<rparr>"
    and "\<not> w_maximized (cl wm p) \<Longrightarrow> \<exists>wx wy ww wh.
      fst (wm_get_monitor_work_area env (monitor_for_client wm (cl wm p)) (upd p save_geometry wm)) = (wx, wy, ww, wh) \<and>
      cl (wm_maximize_client env p wm) p =
        (set_geometry wx wy (ww - 2) (wh - title_of wm (cl wm p) - 2) (save_geometry (cl wm p)))\<lparr>w_maximized := True\<rparr>"
proof -
  let ?on = "upd p (\<lambda>c. (restore_geometry c)\<lparr>w_maximized := False\<rparr>) wm"
  define s where "s = upd p save_geometry wm"
  have mon: "monitor_for_client s (cl s p) = monitor_for_client wm (cl wm p)" "m_monitors s = m_monitors wm"
    "title_of s c = title_of wm c" "cl s p = save_geometry (cl wm p)" "live s p" for c
    using assms by (simp_all add: s_def monitor_for_client_def monitor_at_point_def client_center_def
        cl_upd save_geometry_def) (simp_all add: upd_def title_of_def)
  obtain wx wy ww wh s' where
    s': "wm_get_monitor_work_area env (monitor_for_client wm (cl wm p)) s = ((wx, wy, ww, wh), s')"
    by (metis prod_cases4 surj_pair)
  have bound: "monitor_for_client wm (cl wm p) < length (m_monitors s)"
    using assms mon(2) by (simp add: monitor_for_client_def monitor_at_point_bound)
  have u: "untraced s' = untraced s"
    using untraced_monitor_work_area [OF bound, of env] s' by simp
  note same = untraced_cl [OF u] untraced_live [OF u] untraced_monitors [OF u] untraced_title [OF u]
  let ?off = "upd p (\<lambda>c. (set_geometry wx wy (ww - 2) (wh - title_of s' c - 2) c)\<lparr>w_maximized := True\<rparr>) s'"
  have e: "untraced (wm_maximize_client env p wm) = untraced (if w_maximized (cl wm p) then ?on else ?off)"
    by (simp add: wm_maximize_client_def Let_def s_def [symmetric] mon(1) s' del: cl_upd)
  note res = untraced_cl [OF e] untraced_live [OF e] untraced_monitors [OF e]
  have upd_mon: "m_monitors (upd q f w) = m_monitors w" for q f w by (simp add: upd_def)
  show "live (wm_maximize_client env p wm) p" "m_monitors (wm_maximize_client env p wm) = m_monitors wm"
    using assms mon by (simp_all add: res same upd_mon)
  show "w_maximized (cl wm p) \<Longrightarrow>
      cl (wm_maximize_client env p wm) p = (restore_geometry (cl wm p))\<lparr>w_maximized := False\<rparr>"
    using assms by (simp add: res cl_upd)
  show "\<exists>wx wy ww wh.
      fst (wm_get_monitor_work_area env (monitor_for_client wm (cl wm p)) (upd p save_geometry wm)) = (wx, wy, ww, wh) \<and>
      cl (wm_maximize_client env p wm) p =
        (set_geometry wx wy (ww - 2) (wh - title_of wm (cl wm p) - 2) (save_geometry (cl wm p)))\<lparr>w_maximized := True\<rparr>"
    if "\<not> w_maximized (cl wm p)"
    using that mon s' by (simp add: res same cl_upd s_def [symmetric] save_geometry_def)
qed

lemma geometry_simps [simp]:
  "geometry (restore_geometry c) = w_save c" "w_save (save_geometry c) = geometry c"
  "geometry (c\<lparr>w_maximized := b\<rparr>) = geometry c" "geometry (c\<lparr>w_fullscreen := b\<rparr>) = geometry c"
  "w_save (set_geometry x y w h c) = w_save c"
  "geometry (set_geometry x y w h c) = (i16 x, i16 y, u16 w, u16 h)"
  by (simp_all add: geometry_def restore_geometry_def save_geometry_def set_geometry_def split: prod.split)

lemma cl_fullscreen:
  assumes "live wm p"
  shows "live (wm_fullscreen_client env p b wm) p" "m_monitors (wm_fullscreen_client env p b wm) = m_monitors wm"
    and "\<not> w_fullscreen (cl wm p) \<Longrightarrow> \<exists>x y w h. cl (wm_fullscreen_client env p True wm) p =
      (set_geometry x y w h (save_geometry (cl wm p)))\<lparr>w_fullscreen := True\<rparr>"
    and "w_fullscreen (cl wm p) \<Longrightarrow> cl (wm_fullscreen_client env p False wm) p =
      (restore_geometry (cl wm p))\<lparr>w_fullscreen := False\<rparr>"
proof -
  define m where "m = m_monitors wm ! monitor_for_client wm (cl wm p)"
  have e: "untraced (wm_fullscreen_client env p b wm) = untraced
      (if b \<and> \<not> w_fullscreen (cl wm p)
       then upd p (\<lambda>c. (set_geometry (mo_x m) (mo_y m) (mo_width m) (mo_height m) (save_geometry c))\<lparr>w_fullscreen := True\<rparr>) wm
       else if \<not> b \<and> w_fullscreen (cl wm p)
       then upd p (\<lambda>c. (restore_geometry c)\<lparr>w_fullscreen := False\<rparr>) wm else wm)" for b
    by (simp add: wm_fullscreen_client_def Let_def m_def)
  note res = untraced_cl [OF e] untraced_live [OF e] untraced_monitors [OF e]
  have upd_mon: "m_monitors (upd q f w) = m_monitors w" for q f w by (simp add: upd_def)
  show "live (wm_fullscreen_client env p b wm) p" "m_monitors (wm_fullscreen_client env p b wm) = m_monitors wm"
    using assms by (simp_all add: res upd_mon)
  show "\<not> w_fullscreen (cl wm p) \<Longrightarrow> \<exists>x y w h. cl (wm_fullscreen_client env p True wm) p =
      (set_geometry x y w h (save_geometry (cl wm p)))\<lparr>w_fullscreen := True\<rparr>"
    "w_fullscreen (cl wm p) \<Longrightarrow> cl (wm_fullscreen_client env p False wm) p =
      (restore_geometry (cl wm p))\<lparr>w_fullscreen := False\<rparr>"
    using assms by (auto simp: res cl_upd)
qed

lemma flag_simps [simp]:
  "w_maximized (save_geometry c) = w_maximized c" "w_maximized (set_geometry x y w h c) = w_maximized c"
  "w_maximized (restore_geometry c) = w_maximized c" "w_fullscreen (save_geometry c) = w_fullscreen c"
  "w_fullscreen (set_geometry x y w h c) = w_fullscreen c" "w_fullscreen (restore_geometry c) = w_fullscreen c"
  by (simp_all add: save_geometry_def set_geometry_def restore_geometry_def split: prod.split)

subsection \<open>Dragging a border\<close>

lemma resize_parts:
  assumes "resize_geometry wm c dx dy = (nx, ny, nw, nh)" "m_drag_orig wm = (ox, oy)"
    "m_drag_orig_size wm = (ow, oh)" "fst (w_inc c) \<le> 1" "snd (w_inc c) \<le> 1" "w_max c = (0, 0)"
    "mw = (if fst (w_min c) > 0 then fst (w_min c) else 50)"
    "mh = (if snd (w_min c) > 0 then snd (w_min c) else 50)" "e = m_resize_edge wm"
  shows "(nx, nw) = (let (x, w) = resize_axis (e \<in> {2, 4, 6}) (e \<in> {3, 5, 7}) ox ow dx in
      if w < mw then (ox + ow - mw, mw) else (x, w))"
    and "(ny, nh) = (let (y, h) = resize_axis (e \<in> {0, 4, 5}) (e \<in> {1, 6, 7}) oy oh dy in
      if h < mh then (oy + oh - mh, mh) else (y, h))"
proof -
  obtain x w y h where
    ax: "resize_axis (e \<in> {2, 4, 6}) (e \<in> {3, 5, 7}) ox ow dx = (x, w)" and
    ay: "resize_axis (e \<in> {0, 4, 5}) (e \<in> {1, 6, 7}) oy oh dy = (y, h)" by fastforce
  have "\<not> fst (w_inc c) > 1" "\<not> snd (w_inc c) > 1" using assms(4,5) by simp_all
  with assms(1) have g: "(nx, ny, nw, nh) = (let (nx, nw) = (if w < mw then (ox + ow - mw, mw) else (x, w));
      (ny, nh) = (if h < mh then (oy + oh - mh, mh) else (y, h)) in (nx, ny, nw, nh))"
    unfolding resize_geometry_def assms(2,3,6) assms(7-9) [symmetric] Let_def prod.case ax ay
    by (simp only: fst_conv snd_conv simp_thms if_False less_irrefl)
  from g show "(nx, nw) = (let (x, w) = resize_axis (e \<in> {2, 4, 6}) (e \<in> {3, 5, 7}) ox ow dx in
      if w < mw then (ox + ow - mw, mw) else (x, w))"
    "(ny, nh) = (let (y, h) = resize_axis (e \<in> {0, 4, 5}) (e \<in> {1, 6, 7}) oy oh dy in
      if h < mh then (oy + oh - mh, mh) else (y, h))"
    unfolding ax ay by (auto simp: Let_def split: if_splits)
qed

lemma axis_limits:
  fixes mn :: int
  assumes "(n, len) = (let (x, w) = resize_axis low high orig olen d in
      if w < mn then (orig + olen - mn, mn) else (x, w))" "\<not> (low \<and> high)"
  shows "mn \<le> len" "low \<Longrightarrow> n + len = orig + olen"
    and "high \<Longrightarrow> n = (if olen + d < mn then orig + olen - mn else orig)"
    and "\<not> low \<Longrightarrow> \<not> high \<Longrightarrow> mn \<le> olen \<Longrightarrow> n = orig \<and> len = olen"
  using assms by (auto simp: resize_axis_def Let_def split: if_splits)

subsection \<open>Switching desktops\<close>

lemma desk_view_focus:
  "ptr_ok wm \<Longrightarrow> desk_view (wm_focus_client env t time wm) = desk_view wm"
  using desk_view_kept [OF kept_focus, of wm env t time] by (simp add: ptr_okD desk_view_def slots_def)

lemma desk_view_focus_desktop:
  assumes "ptr_ok wm"
  shows "desk_view (focus_mru_on env d (drop_focus d wm)) = desk_view wm"
proof -
  have "ptr_ok (drop_focus d wm)"
  proof -
    have "psound wm ((upd q f wm)\<lparr>m_focused := None\<rparr>)" for q f
      by (rule psound_trans [OF psteady_sound [OF psteady_upd] psound_unfocus])
    then show ?thesis
      using assms by (auto simp: drop_focus_def psound_def ptr_ok_crash split: option.split)
  qed
  moreover have "desk_view (drop_focus d wm) = desk_view wm"
    using assms by (auto simp: drop_focus_def desk_view_def slots_def upd_def ptr_okD
        split: option.split if_splits)
  ultimately show ?thesis by (simp add: focus_mru_on_def desk_view_focus)
qed

lemma switch_view:
  assumes "ptr_ok wm" "desk_ok wm" "int d < m_num_desktops wm" "d \<noteq> m_current_desktop wm"
  shows "m_current_desktop (wm_desktops_switch env d wm) = d"
    and "slots (wm_desktops_switch env d wm) =
      map (\<lambda>(p, s). (p, switch_slot (m_current_desktop wm) d s)) (slots wm)"
proof -
  let ?v = "wm\<lparr>m_current_desktop := d\<rparr>"
  define w where "w = fold (switch_client (m_current_desktop wm) d) (ptrs wm) ?v"
  have v: "ptrs ?v = ptrs wm" "slots ?v = slots wm" by (simp_all add: ptrs_def slots_def)
  note all = acts_all [of "switch_client (m_current_desktop wm) d" ?v, OF acts_switch,
      unfolded v, OF ptr_okD(1) [OF assms(1)], folded w_def]
  have "psteady wm w"
    unfolding w_def by (rule psteady_trans [OF psteady_setters(1) psteady_fold]) (rule psteady_switch_client)
  then have ok: "ptr_ok (emits rs w)" for rs
    using assms(1) psteady_ptr_ok psteady_ptr_ok [OF psteady_kept [of "emits rs w" w]] by simp
  have "wm_desktops_switch env d wm = wm_desktops_show_osd env (focus_mru_on env d (drop_focus d
      (emit (XSet PCurrentDesktop (m_root w) [d]) w)))"
  proof -
    have "\<not> u32 (m_num_desktops wm) \<le> d" using u32_num [OF assms(2), of d] assms(3) by simp
    with assms(4) show ?thesis by (simp add: wm_desktops_switch_def Let_def v w_def)
  qed
  then have "desk_view (wm_desktops_switch env d wm) = desk_view w"
    using desk_view_kept [OF kept_show_osd] desk_view_focus_desktop [OF ok]
      desk_view_kept [OF kept_emits] by metis
  with all show "m_current_desktop (wm_desktops_switch env d wm) = d"
    "slots (wm_desktops_switch env d wm) =
      map (\<lambda>(p, s). (p, switch_slot (m_current_desktop wm) d s)) (slots wm)"
    by (simp_all add: desk_view_def grid_def)
qed

lemma slots_of_client:
  "live wm p \<Longrightarrow> (p, w_client (cl wm p), w_desktop (cl wm p), w_hidden (cl wm p)) \<in> set (slots wm)"
  by (force simp: slots_def dest: live_cl)

subsection \<open>Removing a client\<close>

lemma unlink_view:
  "ptrs (unlink_client p wm) = filter (\<lambda>q. q \<noteq> p) (ptrs wm)"
  "m_menu_client (unlink_client p wm) = m_menu_client wm" "m_win_menu (unlink_client p wm) = m_win_menu wm"
  by (simp_all add: unlink_client_def snap_preview_hide_def wm_switcher_cancel_def destroy_osd_def emits_def
      ptrs_def Let_def filter_map comp_def case_prod_unfold)

lemma remove_view:
  assumes "ptr_ok wm"
  shows "ptrs (wm_remove_client env p wm) = filter (\<lambda>q. q \<noteq> p) (ptrs wm)"
    "m_menu_client (wm_remove_client env p wm) = m_menu_client wm"
    "m_win_menu (wm_remove_client env p wm) = m_win_menu wm"
proof -
  define c where "c = cl wm p"
  define w2 where "w2 = wm_ewmh_update_active (wm_ewmh_update_client_list_stacking (wm_ewmh_update_client_list
    (if w_title c \<noteq> None \<or> w_icon_name c \<noteq> None
     then frame_disambiguate_all (w_title c) (w_icon_name c) (frame_destroy c (unlink_client p wm))
     else frame_destroy c (unlink_client p wm))))"
  have k: "kept w2 = kept (unlink_client p wm)" by (simp add: w2_def)
  have e: "wm_remove_client env p wm = (if m_focused w2 = None \<and> m_clients w2 \<noteq> []
      then wm_focus_client env (mru (m_clients w2) None) 0 w2 else w2)"
    unfolding wm_remove_client_def Let_def c_def w2_def by (rule refl)
  have "kept (wm_focus_client env (mru (m_clients w2) None) 0 w2) =
      kept (w2\<lparr>m_focused := map_option (modal_child w2) (mru (m_clients w2) None)\<rparr>)" if "m_focused w2 = None"
    using that by (intro kept_focus) simp
  note foc = kept_sel [OF this]
  show "ptrs (wm_remove_client env p wm) = filter (\<lambda>q. q \<noteq> p) (ptrs wm)"
    "m_menu_client (wm_remove_client env p wm) = m_menu_client wm"
    "m_win_menu (wm_remove_client env p wm) = m_win_menu wm"
    using kept_sel [OF k] by (simp_all add: e foc unlink_view)
qed

lemma remove_dock_view: "kept (wm_remove_dock env win wm) = kept wm"
  "m_clients (wm_remove_dock env win wm) = m_clients wm"
proof -
  show "kept (wm_remove_dock env win wm) = kept wm" by simp
  have sel: "m_clients (untraced w) = m_clients w" for w by (simp add: untraced_def)
  have "untraced (wm_ewmh_update_workarea env w) = untraced w" for w
    by (simp add: wm_ewmh_update_workarea_def case_prod_beta)
  then have "m_clients (wm_ewmh_update_workarea env w) = m_clients w" for w
    using sel by metis
  then show "m_clients (wm_remove_dock env win wm) = m_clients wm"
    by (simp add: wm_remove_dock_def split: option.split)
qed

end
