(* ===== verification/Wm_Notify.thy ===== *)
theory Wm_Notify
  imports Wm_Desk Desktop
begin

section \<open>Startup notification from the launcher to the window manager\<close>

text \<open>
  The launcher of \<open>Desktop\<close> and the window manager of \<open>Wm_Events\<close> meet in the messages of
  startup notification. The lemmas follow one message: cut into pieces and put together again,
  written into a buffer and read back key by key.
\<close>

subsection \<open>Pieces\<close>

lemma on_startup_begin: "on_startup_info env True d wm = on_startup_info env False d (wm\<lparr>m_sn_buf := []\<rparr>)"
  by (simp add: on_startup_info_def Let_def)

lemma pieces_received:
  assumes "CHR 0x00 \<notin> set msg" "length (m_sn_buf wm) + length msg < 2000" "CHR 0x00 \<notin> set (m_sn_buf wm)"
  shows "\<exists>buf. fold (on_startup_info env False) (data_pieces msg) wm =
    (sn_handle_message env (m_sn_buf wm @ msg) (wm\<lparr>m_sn_buf := buf\<rparr>))\<lparr>m_sn_buf := []\<rparr>"
  using assms
proof (induction "length msg" arbitrary: msg wm rule: less_induct)
  case less
  show ?case
  proof (cases "length msg < 20")
    case True
    let ?d = "msg @ replicate (20 - length msg) (CHR 0x00)"
    have t: "takeWhile (\<lambda>c. c \<noteq> CHR 0x00) (m_sn_buf wm @ ?d) = m_sn_buf wm @ msg"
    proof -
      have "replicate (20 - length msg) (CHR 0x00) = CHR 0x00 # replicate (19 - length msg) (CHR 0x00)"
        using True by (cases "20 - length msg") (simp_all add: Suc_diff_Suc)
      moreover have "takeWhile (\<lambda>c. c \<noteq> CHR 0x00) (m_sn_buf wm @ msg) = m_sn_buf wm @ msg"
        using less.prems by (auto simp: takeWhile_eq_all_conv)
      ultimately show ?thesis
        using takeWhile_tail [of "\<lambda>c. c \<noteq> CHR 0x00" "CHR 0x00" "m_sn_buf wm @ msg"] by simp
    qed
    have "CHR 0x00 \<in> set ?d" "length ?d = 20" using True by simp_all
    moreover have "min 20 (2048 - length (m_sn_buf wm) - 1) = 20" using less.prems by simp
    ultimately show ?thesis
      using less.prems t by (auto simp: data_pieces_short [OF True] on_startup_info_def Let_def)
  next
    case False
    let ?w = "wm\<lparr>m_sn_buf := m_sn_buf wm @ take 20 msg\<rparr>"
    have n: "CHR 0x00 \<notin> set (take 20 msg)" "CHR 0x00 \<notin> set (drop 20 msg)"
      using less.prems(1) by (meson in_set_takeD in_set_dropD)+
    have "min 20 (2048 - length (m_sn_buf wm) - 1) = 20" using less.prems by simp
    with n less.prems have "on_startup_info env False (take 20 msg) wm = ?w"
      by (simp add: on_startup_info_def Let_def)
    moreover have "\<exists>buf. fold (on_startup_info env False) (data_pieces (drop 20 msg)) ?w =
        (sn_handle_message env (m_sn_buf ?w @ drop 20 msg) (?w\<lparr>m_sn_buf := buf\<rparr>))\<lparr>m_sn_buf := []\<rparr>"
      using False n less.prems by (intro less.hyps) auto
    ultimately show ?thesis using False by (auto simp: data_pieces_long)
  qed
qed

subsection \<open>Keys\<close>

lemma strstr_skip:
  assumes "key \<noteq> []" "c \<notin> set key" "strstr_after key pre = None"
  shows "strstr_after key (pre @ c # s) = strstr_after key s"
  using assms
proof (induction pre)
  case Nil
  then show ?case by (cases key) auto
next
  case (Cons x pre)
  have "take (length key) (x # pre @ c # s) \<noteq> key"
  proof (cases "length key \<le> length (x # pre)")
    case True
    then have "take (length key) (x # pre @ c # s) = take (length key) (x # pre)"
      by (metis append_Cons append_eq_conv_conj diff_is_0_eq' take_0 take_append append_Nil2)
    with Cons.prems show ?thesis by (auto split: if_splits)
  next
    case False
    then have "c \<in> set (take (length key) (x # pre @ c # s))"
      by (cases "length key - length (x # pre)") (auto simp: take_Cons' split: if_splits)
    with Cons.prems show ?thesis by metis
  qed
  moreover have "strstr_after key pre = None" using Cons.prems(3) by (simp split: if_splits)
  ultimately show ?case using Cons by simp
qed

lemma strstr_none_append:
  "key \<noteq> [] \<Longrightarrow> c \<notin> set key \<Longrightarrow> strstr_after key pre = None \<Longrightarrow> strstr_after key s = None \<Longrightarrow>
     strstr_after key (pre @ c # s) = None"
  by (simp add: strstr_skip)

lemma strstr_here: "key \<noteq> [] \<Longrightarrow> strstr_after key (key @ s) = Some s"
  by (cases key) simp_all

subsection \<open>Values\<close>

lemma unquote_escape: "sn_unquote (escape_quotes v @ CHR 0x22 # s) = v"
proof (induction v rule: escape_quotes.induct)
  case 1
  then show ?case by (cases s) simp_all
next
  case (2 c cs)
  then show ?case
    by (cases "escape_quotes cs @ CHR 0x22 # s") auto
qed

lemma value_read_back:
  assumes "CHR 0x09 \<notin> set v" "p = quote_value (Some v) @ CHR '' '' # s"
  shows "(if p \<noteq> [] \<and> hd p = CHR 0x22 then sn_unquote (tl p)
          else takeWhile (\<lambda>c. c \<noteq> CHR '' '' \<and> c \<noteq> CHR 0x09) p) = v"
proof (cases "list_ex (\<lambda>c. c = CHR '' '' \<or> c = CHR 0x22 \<or> c = CHR 0x5C) v")
  case True
  then show ?thesis by (simp add: assms(2) quote_value_def unquote_escape)
next
  case False
  then have "hd p \<noteq> CHR 0x22" by (cases v) (auto simp: assms(2) quote_value_def)
  moreover have "takeWhile (\<lambda>c. c \<noteq> CHR '' '' \<and> c \<noteq> CHR 0x09) (v @ CHR '' '' # s) = v"
    using False assms by (subst takeWhile_append2) (auto simp: list_ex_iff)
  ultimately show ?thesis using False by (auto simp: assms(2) quote_value_def)
qed

lemma dec_digits: "c \<in> set (dec_of_nat n) \<Longrightarrow> \<exists>d < 10. c = digit_char d"
proof (induction n rule: dec_of_nat.induct)
  case (1 n)
  then show ?case using dec_of_nat.simps [of n] by (cases "n < 10") (auto intro: exI [of _ "n mod 10"])
qed

lemma digit_char_facts:
  assumes "d < 10"
  shows "of_char (digit_char d) = 48 + d" "\<not> isspace (digit_char d)"
    "digit_char d \<notin> {CHR ''-'', CHR ''+'', CHR 0x22, CHR '' '', CHR 0x09, CHR ''W'', CHR 0x00}"
proof -
  show v: "of_char (digit_char d) = 48 + d" using assms by (simp add: digit_char_def)
  have ne: "digit_char d \<noteq> c" if "of_char c < (48 :: nat) \<or> 57 < (of_char c :: nat)" for c
    using that v assms by auto
  show "\<not> isspace (digit_char d)"
    "digit_char d \<notin> {CHR ''-'', CHR ''+'', CHR 0x22, CHR '' '', CHR 0x09, CHR ''W'', CHR 0x00}"
    by (simp_all add: isspace_def ne)
qed

lemma dec_code: "c \<in> set (dec_of_nat n) \<Longrightarrow> 48 \<le> (of_char c :: nat) \<and> of_char c \<le> (57 :: nat)"
  by (auto dest!: dec_digits simp: digit_char_facts(1))

lemma dec_not: "of_char c < (48 :: nat) \<or> 57 < (of_char c :: nat) \<Longrightarrow> c \<notin> set (dec_of_nat n)"
  using dec_code by fastforce

lemma foldl_dec: "foldl (\<lambda>a c. 10 * a + (of_char c - 48)) 0 (dec_of_nat n) = n"
proof (induction n rule: dec_of_nat.induct)
  case (1 n)
  then show ?case by (subst dec_of_nat.simps) (auto simp: digit_char_facts)
qed

lemma strtoul_dec_of_nat: "n < 2 ^ 64 \<Longrightarrow> strtoul_dec (dec_of_nat n) = n"
proof -
  assume n: "n < 2 ^ 64"
  obtain c cs where c: "dec_of_nat n = c # cs" by (cases "dec_of_nat n") auto
  then obtain d where d: "d < 10" "c = digit_char d" using dec_digits [of c n] by auto
  have tw: "takeWhile (\<lambda>c. 48 \<le> (of_char c :: nat) \<and> of_char c \<le> (57 :: nat)) (dec_of_nat n) = dec_of_nat n"
    by (auto simp: takeWhile_eq_all_conv dest: dec_code)
  moreover have "dropWhile isspace (dec_of_nat n) = dec_of_nat n" "hd (dec_of_nat n) \<notin> {CHR ''-'', CHR ''+''}"
    using c d digit_char_facts [OF d(1)] by simp_all
  ultimately show ?thesis
    using n by (simp add: strtoul_dec_def Let_def foldl_dec del: takeWhile_eq_all_conv)
qed

subsection \<open>The whole message\<close>

definition startup_text :: "cstr \<Rightarrow> desktop_entry \<Rightarrow> nat \<Rightarrow> cstr" where
  "startup_text i e t =
     ''new: ID='' @ i @ '' NAME='' @ quote_value (de_name e) @ '' SCREEN=0'' @
     (if de_exec e = None then [] else '' BIN='' @ quote_value (de_exec e)) @
     (if startup_wm_class e = None then [] else '' WMCLASS='' @ quote_value (startup_wm_class e)) @
     '' TIMESTAMP='' @ dec_of_nat t"

lemma out_printf_at:
  "length out + length t < cap \<Longrightarrow> n = length out \<Longrightarrow>
     out_printf cap t (Out n out) = Out (length (out @ t)) (out @ t)"
  by simp

lemma send_startup_new_fits:
  "length (startup_text i e (l_time env)) < 1024 \<Longrightarrow>
     send_startup_new env i e = Inr (send_startup_message (startup_text i e (l_time env)))"
  unfolding send_startup_new_def startup_text_def
  by (cases "de_exec e"; cases "startup_wm_class e")
    (simp_all add: Let_def out_printf_at del: out_printf.simps)

text \<open>
  A message whose first part alone is longer than the buffer makes the launcher write behind it:
  the next part is written at \<^verbatim>\<open>pos\<close>, which \<^verbatim>\<open>snprintf\<close> has moved beyond the end.
\<close>

lemma long_message_overruns:
  assumes "1024 < length (''new: ID='' @ i @ '' NAME='' @ quote_value (de_name e) @ '' SCREEN=0'')"
  shows "send_startup_new env i e = Inl WriteOutsideBuffer"
  using assms by (simp add: send_startup_new_def Let_def split: option.split)

definition clean :: "cstr \<Rightarrow> bool" where
  "clean s \<longleftrightarrow> strstr_after ''WMCLASS='' s = None \<and> strstr_after ''TIMESTAMP='' s = None"

lemma cleanI: "strstr_after ''WMCLASS='' s = None \<Longrightarrow> strstr_after ''TIMESTAMP='' s = None \<Longrightarrow> clean s"
  by (simp add: clean_def)

lemma clean_join: "clean a \<Longrightarrow> clean b \<Longrightarrow> clean (a @ CHR '' '' # b)"
  by (simp add: clean_def strstr_none_append)

lemma clean_labels: 
  "clean i \<Longrightarrow> clean (''ID='' @ i)" "clean v \<Longrightarrow> clean (''NAME='' @ v)" "clean v \<Longrightarrow> clean (''BIN='' @ v)"
  "clean ''new:''" "clean ''SCREEN=0''"
  by (simp_all add: clean_def)

definition head_text :: "cstr \<Rightarrow> desktop_entry \<Rightarrow> cstr" where
  "head_text i e = ''new:'' @ CHR '' '' # (''ID='' @ i) @ CHR '' '' # (''NAME='' @ quote_value (de_name e)) @
     CHR '' '' # ''SCREEN=0'' @ (if de_exec e = None then [] else CHR '' '' # ''BIN='' @ quote_value (de_exec e))"

lemma clean_head:
  assumes "clean i" "clean (quote_value (de_name e))" "clean (quote_value (de_exec e))"
  shows "clean (head_text i e)"
  unfolding head_text_def
  by (cases "de_exec e"; simp only: option.simps if_True if_False append_Nil2;
      intro clean_join clean_labels assms) (use assms in \<open>simp_all add: clean_labels\<close>)

lemma startup_text_head:
  "startup_text i e t = head_text i e @
     (if startup_wm_class e = None then [] else CHR '' '' # ''WMCLASS='' @ quote_value (startup_wm_class e)) @
     CHR '' '' # ''TIMESTAMP='' @ dec_of_nat t"
  by (simp add: startup_text_def head_text_def)

lemma clean_dec: "clean (dec_of_nat t)"
proof -
  have "strstr_after (k # ks) s = None" if "k \<notin> set s" for k ks s
    using that by (induction s) auto
  moreover have "CHR ''W'' \<notin> set (dec_of_nat t)" "CHR ''T'' \<notin> set (dec_of_nat t)"
    by (rule dec_not, simp)+
  ultimately show ?thesis by (simp add: clean_def)
qed

lemma parse_id:
  assumes "set i \<inter> {CHR '' '', CHR 0x09, CHR 0x22} = {}"
  shows "sn_parse_value (startup_text i e t) ''ID='' = Some i"
proof -
  obtain r where r: "startup_text i e t = ''new: ID='' @ i @ CHR '' '' # r"
    by (simp add: startup_text_def)
  have "takeWhile (\<lambda>c. c \<noteq> CHR '' '' \<and> c \<noteq> CHR 0x09) (i @ CHR '' '' # r) = i"
    using assms by (subst takeWhile_append2) auto
  moreover have "hd (i @ CHR '' '' # r) \<noteq> CHR 0x22" using assms by (cases i) auto
  ultimately show ?thesis by (simp add: sn_parse_value_def r)
qed

lemma parse_wmclass:
  assumes "clean (head_text i e)" "\<And>v. startup_wm_class e = Some v \<Longrightarrow> CHR 0x09 \<notin> set v"
  shows "sn_parse_value (startup_text i e t) ''WMCLASS='' = startup_wm_class e"
proof (cases "startup_wm_class e")
  case None
  have "strstr_after ''WMCLASS='' (head_text i e @ CHR '' '' # ''TIMESTAMP='' @ dec_of_nat t) = None"
    using assms(1) clean_dec [of t] by (subst strstr_skip) (simp_all add: clean_def)
  then show ?thesis using None by (simp add: sn_parse_value_def startup_text_head)
next
  case (Some v)
  define p where "p = quote_value (Some v) @ CHR '' '' # ''TIMESTAMP='' @ dec_of_nat t"
  have "strstr_after ''WMCLASS='' (head_text i e @ CHR '' '' # ''WMCLASS='' @ p) = Some p"
    using assms(1) by (subst strstr_skip) (simp_all add: clean_def)
  moreover have "startup_text i e t = head_text i e @ CHR '' '' # ''WMCLASS='' @ p"
    using Some by (simp add: startup_text_head p_def)
  ultimately show ?thesis
    using Some value_read_back [OF assms(2) [OF Some] p_def] by (simp add: sn_parse_value_def)
qed

lemma parse_timestamp:
  assumes "clean (head_text i e)" "clean (quote_value (startup_wm_class e))" "t < 2 ^ 64"
  shows "\<exists>v. sn_parse_value (startup_text i e t) ''TIMESTAMP='' = Some v \<and> strtoul_dec v = t"
proof -
  define pre where "pre = head_text i e @ (if startup_wm_class e = None then []
    else CHR '' '' # ''WMCLASS='' @ quote_value (startup_wm_class e))"
  have "strstr_after ''TIMESTAMP='' (head_text i e @ CHR '' '' # ''WMCLASS='' @ quote_value (startup_wm_class e)) = None"
    using assms by (subst strstr_skip) (simp_all add: clean_def)
  then have "strstr_after ''TIMESTAMP='' pre = None" using assms(1) by (simp add: pre_def clean_def)
  then have "strstr_after ''TIMESTAMP='' (pre @ CHR '' '' # ''TIMESTAMP='' @ dec_of_nat t) = Some (dec_of_nat t)"
    by (subst strstr_skip) simp_all
  moreover have "startup_text i e t = pre @ CHR '' '' # ''TIMESTAMP='' @ dec_of_nat t"
    by (simp add: startup_text_head pre_def)
  moreover have "takeWhile (\<lambda>c. c \<noteq> CHR '' '' \<and> c \<noteq> CHR 0x09) (dec_of_nat t) = dec_of_nat t"
    "hd (dec_of_nat t) \<noteq> CHR 0x22"
  proof -
    show "takeWhile (\<lambda>c. c \<noteq> CHR '' '' \<and> c \<noteq> CHR 0x09) (dec_of_nat t) = dec_of_nat t"
      using dec_not [of "CHR '' ''" t] dec_not [of "CHR 0x09" t] by (auto simp: takeWhile_eq_all_conv)
    have "hd (dec_of_nat t) \<in> set (dec_of_nat t)" by (rule hd_in_set) simp
    moreover have "CHR 0x22 \<notin> set (dec_of_nat t)" by (rule dec_not) simp
    ultimately show "hd (dec_of_nat t) \<noteq> CHR 0x22" by metis
  qed
  ultimately show ?thesis using strtoul_dec_of_nat [OF assms(3)]
    by (simp add: sn_parse_value_def del: takeWhile_eq_all_conv)
qed

subsection \<open>Delivery\<close>

fun deliver :: "xenv \<Rightarrow> launch_call \<Rightarrow> wmst \<Rightarrow> wmst" where
  "deliver env (LSend b d) wm = wm_do env (SEvent (ClientMessage (StartupInfo b d))) wm"
| "deliver env (LExec _ _) wm = wm"

lemma kept_on_startup_info: "kept (on_startup_info env b d wm) = kept wm"
  by simp

lemma deliver_startup: "\<not> m_ub wm \<Longrightarrow> deliver env (LSend b d) wm = on_startup_info env b d wm"
  by (simp add: dispatch_wm_event_def dispatch_event_def handle_client_message_def)

lemma fold_deliver:
  "\<not> m_ub wm \<Longrightarrow> fold (deliver env) (map (LSend False) ds) wm = fold (on_startup_info env False) ds wm"
proof (induction ds arbitrary: wm)
  case (Cons d ds)
  have "\<not> m_ub (on_startup_info env False d wm)"
    using Cons.prems kept_sel(17) [OF kept_on_startup_info [of env False d wm]] by simp
  with Cons show ?case by (simp add: deliver_startup del: deliver.simps)
qed simp

lemma data_pieces_nonempty: "data_pieces msg \<noteq> []"
  by (simp add: data_pieces_def cut_list.simps [of 20 "msg @ _"])

lemma message_delivered:
  assumes "\<not> m_ub wm" "CHR 0x00 \<notin> set msg" "length msg < 2000"
  shows "\<exists>buf. fold (deliver env) (send_startup_message msg) wm =
    (sn_handle_message env msg (wm\<lparr>m_sn_buf := buf\<rparr>))\<lparr>m_sn_buf := []\<rparr>"
proof -
  obtain d ds where d: "data_pieces msg = d # ds" using data_pieces_nonempty by (cases "data_pieces msg") auto
  have z: "zip (replicate (length ds) False) ds = map (Pair False) ds" by (induction ds) simp_all
  have "send_startup_message msg = LSend True d # map (LSend False) ds"
    by (simp add: send_startup_message_def d z comp_def)
  moreover have "\<not> m_ub (on_startup_info env True d wm)"
    using assms kept_sel(17) [OF kept_on_startup_info [of env True d wm]] by simp
  ultimately have "fold (deliver env) (send_startup_message msg) wm =
      fold (on_startup_info env False) (data_pieces msg) (wm\<lparr>m_sn_buf := []\<rparr>)"
    using assms(1) fold_deliver by (simp add: d deliver_startup on_startup_begin del: deliver.simps)
  with pieces_received [of msg "wm\<lparr>m_sn_buf := []\<rparr>" env] assms(2,3) show ?thesis by simp
qed

lemma quote_value_nul:
  assumes "\<And>v. q = Some v \<Longrightarrow> CHR 0x00 \<notin> set v"
  shows "CHR 0x00 \<notin> set (quote_value q)"
proof -
  have "set (escape_quotes v) \<subseteq> insert (CHR 0x5C) (set v)" for v by (induction v) auto
  with assms show ?thesis by (cases q) (auto simp: quote_value_def)
qed

lemma new_sequence:
  assumes "wm_find_startup_seq wm i = None" "set i \<inter> {CHR '' '', CHR 0x09, CHR 0x22} = {}"
    "clean (head_text i e)" "clean (quote_value (startup_wm_class e))" "t < 2 ^ 64"
    "\<And>v. startup_wm_class e = Some v \<Longrightarrow> CHR 0x09 \<notin> set v"
  shows "\<exists>tm. m_startup_seqs (sn_handle_message env (startup_text i e t) wm) =
    \<lparr>s_id = i, s_wmclass = startup_wm_class e, s_timestamp = t mod 2 ^ 32, s_timer = tm\<rparr> # m_startup_seqs wm"
proof -
  have new: "take 4 (startup_text i e t) = ''new:''" by (simp add: startup_text_def)
  have seqs: "m_startup_seqs (snd (wm_timer_add env ms cb w)) = m_startup_seqs w" for ms cb w
    by (simp add: wm_timer_add_def Let_def ask_def emits_def case_prod_beta split: option.split)
  from parse_timestamp [OF assms(3,4,5)] show ?thesis
    using assms(1) parse_id [OF assms(2)] parse_wmclass [OF assms(3,6)]
    by (auto simp: sn_handle_message_def new Let_def case_prod_beta seqs)
qed

end
