(* ===== verification/Wm_Props.thy ===== *)
theory Wm_Props
  imports Wm_Geom Wm_Notify
begin

section \<open>Properties of isde-wm\<close>

text \<open>
  The properties of the window manager, from the lemmas of \<open>Wm_Steps\<close>, \<open>Wm_Desk\<close>, \<open>Wm_Geom\<close>
  and \<open>Wm_Notify\<close>. The witnesses run it on a server that answers every request with nothing
  (\<open>quiet_env\<close>), and where windows are needed on a state with one or two clients.
\<close>

subsection \<open>Witness data\<close>

definition quiet_env :: xenv where
  "quiet_env = \<lparr> e_geometry = (\<lambda>_. None), e_normal_hints = (\<lambda>_. None), e_wm_hints = (\<lambda>_. None),
     e_transient_for = (\<lambda>_. None), e_motif = (\<lambda>_. None), e_window_type = (\<lambda>_. TNormal),
     e_string = (\<lambda>_. None), e_net_wm_state = (\<lambda>_. None), e_card = (\<lambda>_. None),
     e_protocols = (\<lambda>_. None), e_strut = (\<lambda>_. None), e_tree = (\<lambda>_. None),
     e_attributes = (\<lambda>_. None), e_wm_class = (\<lambda>_. None), e_layout = (\<lambda>_. None),
     e_monitors = (\<lambda>_. []), e_primary = (\<lambda>_. None), e_now = (\<lambda>_. 0), e_config = (\<lambda>_. None),
     e_grabbed = (\<lambda>_. True), e_keysym = (\<lambda>_. 0), e_id = (\<lambda>_. 77), e_scale = (\<lambda>v. v),
     e_border = 1, e_font = (\<lambda>_ v. v) \<rparr>"

definition quiet_start :: wmst where
  "quiet_start = wm_zero 1 (1920, 1080) 24 True False"

definition one_client :: wmst where
  "one_client = quiet_start
     \<lparr>m_clients := [(1, zero_client\<lparr>w_client := 10, w_frame := 20, w_x := 100, w_y := 100, w_width := 300,
        w_height := 200, w_decorated := True, w_grip := replicate 8 0\<rparr>)], m_next := 2,
      m_monitors := [\<lparr>mo_x = 0, mo_y = 0, mo_width = 1920, mo_height = 1080\<rparr>],
      m_desk_rows := 1, m_desk_cols := 2, m_num_desktops := 2\<rparr>"

lemma quiet_grid: "grid_ok quiet_env"
  by (simp add: grid_ok_def quiet_env_def wm_desktops_read_config_def ask_def Let_def)

lemma one_client_ok: "ptr_ok one_client" "desk_ok one_client" "live one_client 1" "\<not> m_ub one_client"
  by (simp_all add: one_client_def quiet_start_def wm_zero_def ptr_ok_def ptrs_def live_def desk_ok_def
      slots_def slot_ok_def zero_client_def)

subsection \<open>Invariants\<close>







subsection \<open>Desktops\<close>



subsection \<open>Startup notification\<close>


definition editor_entry :: desktop_entry where
  "editor_entry = (empty_entry ''x'')\<lparr>de_name := Some ''My Editor'', de_exec := Some ''ed'',
     startup_wm_class := Some ''Ed it'' \<rparr>"

definition editor_launch :: launch_env where
  "editor_launch = \<lparr>l_host = None, l_pid = 3, l_seq = 1, l_ms = 5, l_time = 1234, l_terminal = None, l_fork = 4\<rparr>"


subsection \<open>Geometry\<close>


lemma quiet_work_area:
  assumes "wm_get_work_area quiet_env wm1 = (a, wm2)"
  shows "a = (0, 0, fst (m_screen wm2), snd (m_screen wm2))"
proof -
  have q: "e_strut quiet_env = (\<lambda>_. None)" "e_tree quiet_env = (\<lambda>_. None)" by (simp_all add: quiet_env_def)
  have one: "fst (check_strut quiet_env x (s, w)) = s" for x s w
    by (cases s) (simp add: check_strut_def ask_def Let_def q)
  have strut: "fst (fold (check_strut quiet_env) ws (s, w)) = s" for ws s w
  proof (induction ws arbitrary: w)
    case (Cons x ws)
    then show ?case using one [of x s w] by (metis fold_simps(2) prod.collapse)
  qed simp
  have "fst (all_struts quiet_env w) = (0, 0, 0, 0)" for w
    using strut [of "map (w_client \<circ> snd) (m_clients w)" "(0, 0, 0, 0)" w]
    by (simp add: all_struts_def ask_def Let_def q case_prod_beta)
  with assms show ?thesis by (auto simp: wm_get_work_area_def case_prod_beta)
qed


text \<open>
  C40: Maximising a window and restoring it gives back its rectangle. With full screen in
  between it does not: entering full screen overwrites the rectangle that was saved, and the restored
  window keeps the maximised one.
\<close>

theorem maximize_restores:
  fixes env :: xenv
  assumes "ptr_ok wm" "live wm p" "\<not> w_maximized (cl wm p)" "\<not> w_fullscreen (cl wm p)"
  defines "wm1 \<equiv> wm_maximize_client env p wm"
  defines "wm2 \<equiv> wm_fullscreen_client env p False (wm_fullscreen_client env p True wm1)"
  shows "w_maximized (cl wm1 p) \<and>
    geometry (cl (wm_maximize_client env p wm1) p) = geometry (cl wm p) \<and>
    \<not> w_maximized (cl (wm_maximize_client env p wm1) p) \<and>
    geometry (cl (wm_maximize_client env p wm2) p) = geometry (cl wm1 p)"
proof -
  have m: "m_monitors wm \<noteq> []" using assms(1) by (simp add: ptr_okD)
  note max = cl_maximize [OF assms(2) m, of env, folded wm1_def]
  obtain x y w h where c1: "cl wm1 p = (set_geometry x y w h (save_geometry (cl wm p)))\<lparr>w_maximized := True\<rparr>"
    using max(4) [OF assms(3)] by blast
  have l1: "live wm1 p" "m_monitors wm1 \<noteq> []" using max(1,2) m by simp_all
  let ?f = "wm_fullscreen_client env p True wm1"
  obtain x' y' w' h' where f: "cl ?f p = (set_geometry x' y' w' h' (save_geometry (cl wm1 p)))\<lparr>w_fullscreen := True\<rparr>"
    using cl_fullscreen(3) [OF l1(1), of env] c1 assms(4) by auto
  have lf: "live ?f p" "m_monitors ?f \<noteq> []" using cl_fullscreen(1,2) [OF l1(1)] l1(2) by simp_all
  have c2: "cl wm2 p = (restore_geometry (cl ?f p))\<lparr>w_fullscreen := False\<rparr>"
    unfolding wm2_def using cl_fullscreen(4) [OF lf(1), of env] f by simp
  have l2: "live wm2 p" "m_monitors wm2 \<noteq> []"
    unfolding wm2_def using cl_fullscreen(1,2) [OF lf(1)] lf(2) by simp_all
  have s2: "w_save (cl wm2 p) = geometry (cl wm1 p)" "w_maximized (cl wm2 p)"
    by (simp_all add: c2 f c1 restore_geometry_def split: prod.split)
  show ?thesis
    using cl_maximize(3) [OF l1, of env] cl_maximize(3) [OF l2, of env] s2 by (simp add: c1)
qed

theorem maximize_restores_witness:
  "geometry (cl (wm_maximize_client quiet_env 1 (wm_maximize_client quiet_env 1 one_client)) 1) = (100, 100, 300, 200)"
  using maximize_restores [OF one_client_ok(1,3), of quiet_env]
  by (simp add: one_client_def quiet_start_def wm_zero_def cl_def zero_client_def geometry_def)



end
