(* ===== verification/Fm_Fs.thy ===== *)
theory Fm_Fs
  imports Xdg "HOL-Library.AList" "HOL-Library.Sublist"
begin

section \<open>The file system as the file manager sees it\<close>

text \<open>
  What \<^verbatim>\<open>fm/src/fileops.c\<close> uses of POSIX. A file system is a tree of directories, regular
  files and symbolic links (\<open>node\<close>); a directory keeps its entries in the order in which
  \<^verbatim>\<open>readdir\<close> reports them, new ones last. A path name is resolved component by component, with
  links followed at most forty times, names of more than 255 and paths of 4096 bytes refused
  (\<open>resolve\<close>). A mount point starts a device of its own, so that \<^verbatim>\<open>rename\<close> can fail with
  \<open>EXDEV\<close>. Permissions, times and owners are not part of the model; that a call can fail for
  reasons outside it (access rights, a full disk, an I/O error) and that a read or write can be
  short is: every call first takes its \<open>fate\<close> from the plan in the state, and \<^verbatim>\<open>lstat\<close> from a
  plan of its own. The numbers in a plan are error codes other than those the model gives itself.
  The theorems hold for every plan they do not restrict. A directory is read as
  it was when it was opened; a trailing slash of a path is ignored.

  The counters of the running job that \<^verbatim>\<open>fileops.c\<close> reaches through pointers are in the state
  too: \<open>w_cancel\<close> says how many more reads of the cancellation flag see it clear before the other
  thread sets it (\<open>None\<close>: it is never set).
\<close>

subsection \<open>Trees\<close>

datatype node = Reg cstr | Lnk cstr | Dir "(cstr \<times> node) list"

type_synonym loc = "cstr list"

fun node_at :: "node \<Rightarrow> loc \<Rightarrow> node option" where
  "node_at t [] = Some t"
| "node_at (Dir es) (c # cs) = (case map_of es c of None \<Rightarrow> None | Some n \<Rightarrow> node_at n cs)"
| "node_at (Reg s) (c # cs) = None"
| "node_at (Lnk s) (c # cs) = None"

definition set_entry :: "cstr \<Rightarrow> node option \<Rightarrow> (cstr \<times> node) list \<Rightarrow> (cstr \<times> node) list" where
  "set_entry c v es = (case v of Some n \<Rightarrow> AList.update c n es | None \<Rightarrow> AList.delete c es)"

text \<open>\<open>alter p v t\<close> puts \<open>v\<close> at \<open>p\<close>, or removes the entry when \<open>v\<close> is \<open>None\<close>.\<close>

fun alter :: "loc \<Rightarrow> node option \<Rightarrow> node \<Rightarrow> node" where
  "alter [] v t = (case v of Some n \<Rightarrow> n | None \<Rightarrow> t)"
| "alter [c] v (Dir es) = Dir (set_entry c v es)"
| "alter (c # d # cs) v (Dir es) =
     (case map_of es c of None \<Rightarrow> Dir es | Some n \<Rightarrow> Dir (AList.update c (alter (d # cs) v n) es))"
| "alter (c # cs) v (Reg s) = Reg s"
| "alter (c # cs) v (Lnk s) = Lnk s"

definition is_dir_at :: "node \<Rightarrow> loc \<Rightarrow> bool" where
  "is_dir_at t p = (case node_at t p of Some (Dir _) \<Rightarrow> True | _ \<Rightarrow> False)"

definition name_ok :: "cstr \<Rightarrow> bool" where
  "name_ok c \<longleftrightarrow> c \<noteq> [] \<and> CHR ''/'' \<notin> set c \<and> c \<noteq> ''.'' \<and> c \<noteq> ''..''"

definition path_max :: nat where "path_max = 4096"

text \<open>
  What every tree is: the names in a directory are distinct and legal, and a link is no longer
  than a path may be.
\<close>

fun tree_ok :: "node \<Rightarrow> bool" where
  "tree_ok (Dir es) \<longleftrightarrow> distinct (map fst es) \<and> (\<forall>e \<in> set es. name_ok (fst e) \<and> tree_ok (snd e))"
| "tree_ok (Reg s) \<longleftrightarrow> True"
| "tree_ok (Lnk s) \<longleftrightarrow> length s < path_max"

subsection \<open>State\<close>

datatype errno = ENOENT | EEXIST | ENOTDIR | EISDIR | ENOTEMPTY | EXDEV | ELOOP | ENAMETOOLONG
  | EINVAL | EBUSY | EBADF | Eother nat

datatype fate = Proceed | Fail nat | Short nat

record world =
  w_root :: node
  w_pwd :: loc
  w_mounts :: "loc list"
  w_env :: fsys
  w_date :: cstr
  w_errno :: "errno option"
  w_plan :: "fate list"
  w_stat_plan :: "nat option list"
  w_cancel :: "nat option"
  files_done :: int
  files_total :: int
  cur_bytes_done :: int
  cur_bytes_total :: int
  total_bytes_done :: int

subsection \<open>Path names\<close>

definition comps :: "cstr \<Rightarrow> cstr list" where
  "comps p = filter (\<lambda>c. c \<noteq> ''.'') (strtok (CHR ''/'') p)"

definition absolute :: "cstr \<Rightarrow> bool" where
  "absolute p \<longleftrightarrow> take 1 p = ''/''"

function walk :: "bool \<Rightarrow> nat \<Rightarrow> node \<Rightarrow> loc \<Rightarrow> cstr list \<Rightarrow> errno + loc" where
  "walk follow n t p [] = Inr p"
| "walk follow n t p (c # cs) =
     (if c = ''..'' then walk follow n t (butlast p) cs
      else case node_at t (p @ [c]) of
        None \<Rightarrow> if cs = [] then Inr (p @ [c]) else Inl ENOENT
      | Some (Dir _) \<Rightarrow> walk follow n t (p @ [c]) cs
      | Some (Reg _) \<Rightarrow> if cs = [] then Inr (p @ [c]) else Inl ENOTDIR
      | Some (Lnk s) \<Rightarrow> if cs = [] \<and> \<not> follow then Inr (p @ [c])
          else (case n of 0 \<Rightarrow> Inl ELOOP
            | Suc m \<Rightarrow> walk follow m t (if absolute s then [] else p) (comps s @ cs)))"
  by pat_completeness auto
termination
  by (relation "(\<lambda>(f, n, t, p, cs). n) <*mlex*> measure (\<lambda>(f, n, t, p, cs). length cs)")
    (auto intro: mlex_less mlex_leq wf_mlex)

definition resolve :: "bool \<Rightarrow> world \<Rightarrow> cstr \<Rightarrow> errno + loc" where
  "resolve follow w p =
     (if p = [] then Inl ENOENT
      else if path_max \<le> length p \<or> list_ex (\<lambda>c. 255 < length c) (comps p) then Inl ENAMETOOLONG
      else walk follow 40 (w_root w) (if absolute p then [] else w_pwd w) (comps p))"

definition dev_of :: "loc list \<Rightarrow> loc \<Rightarrow> loc" where
  "dev_of ms p = foldr (\<lambda>m d. if prefix m p \<and> length d \<le> length m then m else d) ms []"

subsection \<open>Calls\<close>

text \<open>A call returns \<open>None\<close> where the C function returns -1 or a null pointer with \<^verbatim>\<open>errno\<close> set.\<close>

definition failed :: "errno \<Rightarrow> world \<Rightarrow> 'a option \<times> world" where
  "failed e w = (None, w\<lparr>w_errno := Some e\<rparr>)"

definition next_fate :: "world \<Rightarrow> fate \<times> world" where
  "next_fate w = (case w_plan w of [] \<Rightarrow> (Proceed, w) | f # fs \<Rightarrow> (f, w\<lparr>w_plan := fs\<rparr>))"

definition syscall :: "(world \<Rightarrow> errno + 'a \<times> world) \<Rightarrow> world \<Rightarrow> 'a option \<times> world" where
  "syscall act w = (case next_fate w of (f, w) \<Rightarrow>
     (case f of Fail k \<Rightarrow> failed (Eother k) w
      | _ \<Rightarrow> (case act w of Inl e \<Rightarrow> failed e w | Inr (r, w) \<Rightarrow> (Some r, w))))"

definition lstat :: "cstr \<Rightarrow> world \<Rightarrow> node option \<times> world" where
  "lstat p w =
     (case (case w_stat_plan w of [] \<Rightarrow> (None, w) | f # fs \<Rightarrow> (f, w\<lparr>w_stat_plan := fs\<rparr>)) of
        (Some k, w) \<Rightarrow> failed (Eother k) w
      | (None, w) \<Rightarrow> (case resolve False w p of Inl e \<Rightarrow> failed e w
          | Inr l \<Rightarrow> (case node_at (w_root w) l of None \<Rightarrow> failed ENOENT w | Some n \<Rightarrow> (Some n, w))))"

definition put_at :: "loc \<Rightarrow> node option \<Rightarrow> world \<Rightarrow> world" where
  "put_at l v w = w\<lparr>w_root := alter l v (w_root w)\<rparr>"

definition mkdir :: "cstr \<Rightarrow> world \<Rightarrow> unit option \<times> world" where
  "mkdir p = syscall (\<lambda>w. case resolve False w p of Inl e \<Rightarrow> Inl e | Inr l \<Rightarrow>
     (case node_at (w_root w) l of Some _ \<Rightarrow> Inl EEXIST | None \<Rightarrow> Inr ((), put_at l (Some (Dir [])) w)))"

definition symlink :: "cstr \<Rightarrow> cstr \<Rightarrow> world \<Rightarrow> unit option \<times> world" where
  "symlink target p = syscall (\<lambda>w. if target = [] then Inl ENOENT else
     case resolve False w p of Inl e \<Rightarrow> Inl e | Inr l \<Rightarrow>
     (case node_at (w_root w) l of Some _ \<Rightarrow> Inl EEXIST | None \<Rightarrow> Inr ((), put_at l (Some (Lnk target)) w)))"

definition readlink :: "cstr \<Rightarrow> nat \<Rightarrow> world \<Rightarrow> cstr option \<times> world" where
  "readlink p n = syscall (\<lambda>w. case resolve False w p of Inl e \<Rightarrow> Inl e | Inr l \<Rightarrow>
     (case node_at (w_root w) l of None \<Rightarrow> Inl ENOENT | Some (Lnk s) \<Rightarrow> Inr (take n s, w) | _ \<Rightarrow> Inl EINVAL))"

definition unlink :: "cstr \<Rightarrow> world \<Rightarrow> unit option \<times> world" where
  "unlink p = syscall (\<lambda>w. case resolve False w p of Inl e \<Rightarrow> Inl e | Inr l \<Rightarrow>
     (case node_at (w_root w) l of None \<Rightarrow> Inl ENOENT | Some (Dir _) \<Rightarrow> Inl EISDIR
      | Some _ \<Rightarrow> Inr ((), put_at l None w)))"

definition rmdir :: "cstr \<Rightarrow> world \<Rightarrow> unit option \<times> world" where
  "rmdir p = syscall (\<lambda>w. case resolve False w p of Inl e \<Rightarrow> Inl e | Inr l \<Rightarrow>
     (case node_at (w_root w) l of None \<Rightarrow> Inl ENOENT
      | Some (Dir es) \<Rightarrow> if l = [] \<or> l \<in> set (w_mounts w) then Inl EBUSY
          else if es = [] then Inr ((), put_at l None w) else Inl ENOTEMPTY
      | Some _ \<Rightarrow> Inl ENOTDIR))"

text \<open>The names a directory stream reports, the two special ones first.\<close>

definition opendir :: "cstr \<Rightarrow> world \<Rightarrow> cstr list option \<times> world" where
  "opendir p = syscall (\<lambda>w. case resolve True w p of Inl e \<Rightarrow> Inl e | Inr l \<Rightarrow>
     (case node_at (w_root w) l of None \<Rightarrow> Inl ENOENT
      | Some (Dir es) \<Rightarrow> Inr (''.'' # ''..'' # map fst es, w) | Some _ \<Rightarrow> Inl ENOTDIR))"

definition is_dir_node :: "node \<Rightarrow> bool" where
  "is_dir_node n = (case n of Dir _ \<Rightarrow> True | _ \<Rightarrow> False)"

definition rename_node :: "node \<Rightarrow> loc \<Rightarrow> loc \<Rightarrow> world \<Rightarrow> errno + unit \<times> world" where
  "rename_node n l m w =
     (let moved = put_at m (Some n) (put_at l None w) in
      case node_at (w_root w) m of
        None \<Rightarrow> Inr ((), moved)
      | Some (Dir es) \<Rightarrow> if \<not> is_dir_node n then Inl EISDIR
          else if es \<noteq> [] then Inl ENOTEMPTY else Inr ((), moved)
      | Some _ \<Rightarrow> if is_dir_node n then Inl ENOTDIR else Inr ((), moved))"

definition rename :: "cstr \<Rightarrow> cstr \<Rightarrow> world \<Rightarrow> unit option \<times> world" where
  "rename old new = syscall (\<lambda>w. case resolve False w old of Inl e \<Rightarrow> Inl e | Inr l \<Rightarrow>
     (case resolve False w new of Inl e \<Rightarrow> Inl e | Inr m \<Rightarrow>
       if dev_of (w_mounts w) (butlast l) \<noteq> dev_of (w_mounts w) (butlast m) then Inl EXDEV
       else if l = [] \<or> m = [] then Inl EBUSY
       else (case node_at (w_root w) l of None \<Rightarrow> Inl ENOENT | Some n \<Rightarrow>
         if l \<in> set (w_mounts w) \<or> m \<in> set (w_mounts w) then Inl EBUSY
         else if l = m then Inr ((), w)
         else if strict_prefix l m then Inl EINVAL
         else rename_node n l m w)))"

subsection \<open>Open files\<close>

text \<open>
  A descriptor is the location of the file it was opened on: no file is renamed while the
  program has it open.
\<close>

definition file_at :: "world \<Rightarrow> loc \<Rightarrow> cstr" where
  "file_at w l = (case node_at (w_root w) l of Some (Reg s) \<Rightarrow> s | _ \<Rightarrow> [])"

definition open_read :: "cstr \<Rightarrow> world \<Rightarrow> loc option \<times> world" where
  "open_read p = syscall (\<lambda>w. case resolve True w p of Inl e \<Rightarrow> Inl e | Inr l \<Rightarrow>
     (case node_at (w_root w) l of None \<Rightarrow> Inl ENOENT | Some _ \<Rightarrow> Inr (l, w)))"

definition open_write :: "cstr \<Rightarrow> world \<Rightarrow> loc option \<times> world" where
  "open_write p = syscall (\<lambda>w. case resolve True w p of Inl e \<Rightarrow> Inl e | Inr l \<Rightarrow>
     (case node_at (w_root w) l of Some (Dir _) \<Rightarrow> Inl EISDIR
      | _ \<Rightarrow> Inr (l, put_at l (Some (Reg [])) w)))"

fun limit :: "fate \<Rightarrow> nat \<Rightarrow> nat" where
  "limit (Short k) n = (if k = 0 then 1 else k)"
| "limit f n = n"

definition sys_read :: "loc \<Rightarrow> nat \<Rightarrow> nat \<Rightarrow> world \<Rightarrow> cstr option \<times> world" where
  "sys_read l off n w = (case next_fate w of (f, w) \<Rightarrow>
     (case f of Fail k \<Rightarrow> failed (Eother k) w
      | _ \<Rightarrow> (case node_at (w_root w) l of
          Some (Reg s) \<Rightarrow> (Some (take (min n (limit f n)) (drop off s)), w)
        | _ \<Rightarrow> failed EISDIR w)))"

text \<open>\<open>sys_write l off s\<close> returns how many bytes of \<open>s\<close> were written at offset \<open>off\<close>.\<close>

definition sys_write :: "loc \<Rightarrow> nat \<Rightarrow> cstr \<Rightarrow> world \<Rightarrow> nat option \<times> world" where
  "sys_write l off s w = (case next_fate w of (f, w) \<Rightarrow>
     (case f of Fail k \<Rightarrow> failed (Eother k) w
      | _ \<Rightarrow> (case node_at (w_root w) l of
          Some (Reg old) \<Rightarrow>
            (let d = take (limit f (length s)) s in
             (Some (length d), put_at l (Some (Reg (take off old @ d @ drop (off + length d) old))) w))
        | _ \<Rightarrow> failed EBADF w)))"

definition load_cancelled :: "world \<Rightarrow> bool \<times> world" where
  "load_cancelled w = (case w_cancel w of None \<Rightarrow> (False, w)
     | Some k \<Rightarrow> if k = 0 then (True, w) else (False, w\<lparr>w_cancel := Some (k - 1)\<rparr>))"

end
