(* ===== verification/Fm_Tree.thy ===== *)
theory Fm_Tree
  imports Fm_Fs
begin

section \<open>Laws of the file tree\<close>

text \<open>
  How \<open>node_at\<close> and \<open>alter\<close> go together, that trees stay trees, what resolves to what, and what
  each call leaves alone. The collection \<open>tree\<close> holds the rewrite rules of trees, \<open>frame\<close> what a
  call keeps of the state.
\<close>

named_theorems tree "looking up and altering file trees"
named_theorems frame "what a call keeps of the state"

subsection \<open>Entries\<close>

lemma map_of_set_entry: "map_of (set_entry c v es) = (map_of es)(c := v)"
  by (cases v) (simp_all add: set_entry_def AList.update_conv' AList.delete_conv')

lemma update_same: "map_of es c = Some n \<Longrightarrow> AList.update c n es = es"
  by (induction es) auto

lemma update_update: "AList.update c n (AList.update c m es) = AList.update c n es"
  by (induction es) auto

lemma delete_update: "AList.delete c (AList.update c m es) = AList.delete c es"
  by (induction es) (auto simp: AList.delete_eq)

lemma set_entry_twice: "set_entry c v (set_entry c (Some m) es) = set_entry c v es"
  by (cases v) (simp_all add: set_entry_def update_update delete_update)

lemma update_absent: "c \<notin> fst ` set es \<Longrightarrow> AList.update c n es = es @ [(c, n)]"
  by (induction es) auto

lemma delete_absent: "c \<notin> fst ` set es \<Longrightarrow> AList.delete c es = es"
  by (induction es) (auto simp: AList.delete_eq)

subsection \<open>Looking up\<close>

lemma node_at_append [tree]:
  "node_at t (p @ q) = (case node_at t p of None \<Rightarrow> None | Some n \<Rightarrow> node_at n q)"
  by (induction t p rule: node_at.induct) (auto split: option.split)

lemma node_at_prefix: "node_at t (p @ q) = Some n \<Longrightarrow> \<exists>m. node_at t p = Some m"
  by (auto simp: node_at_append split: option.splits)

lemma node_at_none_append: "node_at t p = None \<Longrightarrow> node_at t (p @ q) = None"
  by (simp add: node_at_append)

lemma absent_not_prefix: "node_at t m = None \<Longrightarrow> node_at t s = Some n \<Longrightarrow> \<not> prefix m s"
  using node_at_none_append [of t m] by (auto simp: prefix_def simp del: append.simps)

lemma node_at_parent:
  "node_at t (p @ [c]) = Some n \<Longrightarrow> \<exists>es. node_at t p = Some (Dir es) \<and> map_of es c = Some n"
  by (auto simp: node_at_append split: option.splits elim!: node_at.elims)

lemma is_dir_at_iff: "is_dir_at t p \<longleftrightarrow> (\<exists>es. node_at t p = Some (Dir es))"
  by (auto simp: is_dir_at_def split: option.splits node.splits)

lemma dir_above:
  assumes "node_at t (p @ q) = Some n" and "q \<noteq> []"
  shows "is_dir_at t p"
proof -
  from assms(2) obtain c r where "q = c # r" by (cases q) auto
  with assms(1) obtain m where "node_at t (p @ [c]) = Some m"
    using node_at_prefix [of t "p @ [c]" r n] by auto
  then show ?thesis using node_at_parent is_dir_at_iff by blast
qed

lemma is_dir_at_prefix: "is_dir_at t (p @ q) \<Longrightarrow> is_dir_at t p"
  using dir_above [of t p q] by (cases "q = []") (auto simp: is_dir_at_iff)

subsection \<open>Altering\<close>

lemma alter_parent [tree]:
  "is_dir_at t p \<Longrightarrow> q \<noteq> [] \<Longrightarrow>
   alter (p @ q) v t = alter p (map_option (alter q v) (node_at t p)) t"
proof (induction p arbitrary: t)
  case Nil
  then show ?case by simp
next
  case (Cons c p)
  from Cons.prems(1) obtain es n where t: "t = Dir es" "map_of es c = Some n" and d: "is_dir_at n p"
    by (cases t) (auto simp: is_dir_at_def split: option.splits)
  show ?case
  proof (cases p)
    case Nil
    with t Cons.prems(2) show ?thesis
      by (cases q) (auto simp: set_entry_def d)
  next
    case (Cons e r)
    with t d Cons.IH [of n] Cons.prems(2) show ?thesis by simp
  qed
qed

lemma node_at_alter [tree]:
  "p \<noteq> [] \<Longrightarrow> is_dir_at t (butlast p) \<Longrightarrow> node_at (alter p v t) p = v"
proof (induction p v t rule: alter.induct)
  case (3 c d cs v es)
  then show ?case by (auto simp: is_dir_at_def AList.update_conv' split: option.splits)
qed (auto simp: map_of_set_entry is_dir_at_def split: option.splits if_splits)

lemma node_at_alter_below [tree]:
  "p \<noteq> [] \<Longrightarrow> is_dir_at t (butlast p) \<Longrightarrow>
   node_at (alter p v t) (p @ q) = (case v of None \<Rightarrow> None | Some n \<Rightarrow> node_at n q)"
  by (simp add: node_at_append node_at_alter)

lemma node_at_alter_other:
  "\<not> prefix p q \<Longrightarrow> \<not> prefix q p \<Longrightarrow> node_at (alter p v t) q = node_at t q"
proof (induction p v t arbitrary: q rule: alter.induct)
  case (2 c v es)
  then show ?case by (cases q) (auto simp: map_of_set_entry)
next
  case (3 c d cs v es)
  then show ?case
    by (cases q) (auto simp: AList.update_conv' split: option.splits)
qed auto

text \<open>Above the altered place every directory stays one.\<close>

lemma node_at_alter_above [tree]:
  "is_dir_at t p \<Longrightarrow> q \<noteq> [] \<Longrightarrow> node_at (alter (p @ q) v t) p = map_option (alter q v) (node_at t p)"
proof (induction p arbitrary: t)
  case (Cons c p)
  from Cons.prems(1) obtain es n where t: "t = Dir es" "map_of es c = Some n" and d: "is_dir_at n p"
    by (cases t) (auto simp: is_dir_at_def split: option.splits)
  with Cons.IH [OF d] Cons.prems(2) show ?case
    by (cases "p @ q") (auto simp: AList.update_conv' set_entry_def)
qed simp

lemma alter_dir: "q \<noteq> [] \<Longrightarrow> \<exists>fs. alter q v (Dir es) = Dir fs"
  by (cases "(q, v, Dir es)" rule: alter.cases) (auto split: option.split)

lemma is_dir_at_alter_above:
  "is_dir_at t p \<Longrightarrow> q \<noteq> [] \<Longrightarrow> is_dir_at (alter (p @ q) v t) p"
  using alter_dir [of q v] by (auto simp: node_at_alter_above is_dir_at_iff)

lemma alter_same: "node_at t p = Some n \<Longrightarrow> alter p (Some n) t = t"
proof (induction p "Some n" t rule: alter.induct)
  case (3 c d cs es)
  then show ?case by (auto simp: update_same split: option.splits)
qed (auto simp: set_entry_def update_same split: option.splits)

lemma alter_twice [tree]: "p \<noteq> [] \<Longrightarrow> alter p v (alter p (Some m) t) = alter p v t"
proof (induction p v t rule: alter.induct)
  case (3 c d cs v es)
  then show ?case by (auto simp: update_update AList.update_conv' split: option.splits)
qed (auto simp: set_entry_twice)

lemma alter_absent: "node_at t p = None \<Longrightarrow> alter p None t = t"
proof (induction p "None :: node option" t rule: alter.induct)
  case (2 c es)
  then show ?case by (auto simp: set_entry_def delete_absent image_iff weak_map_of_SomeI map_of_eq_None_iff split: option.splits)
next
  case (3 c d cs es)
  then show ?case by (auto simp: update_same split: option.splits)
qed auto

subsection \<open>Contents of files\<close>

lemma node_at_self: "node_at t p = Some n \<Longrightarrow> p \<noteq> [] \<Longrightarrow> is_dir_at t (butlast p)"
  using dir_above [of t "butlast p" "[last p]"] by simp

lemma node_at_alter_self:
  "node_at t p = Some m \<Longrightarrow> node_at (alter p (Some n) t) p = Some n"
  by (cases "p = []") (auto intro: node_at_alter node_at_self)

text \<open>Changing a regular file changes no other node, but for the directories above it.\<close>

lemma node_at_alter_reg:
  assumes "node_at t p = Some (Reg s)" and "q \<noteq> p"
  shows "node_at (alter p (Some (Reg s')) t) q = node_at t q \<or>
    is_dir_at t q \<and> is_dir_at (alter p (Some (Reg s')) t) q"
proof (cases "prefix p q")
  case True
  then obtain c r where "q = p @ c # r" using assms(2) by (metis prefix_def append_Nil2 neq_Nil_conv)
  then show ?thesis using assms(1) node_at_alter_self [OF assms(1)] by (simp add: node_at_append)
next
  case False
  show ?thesis
  proof (cases "prefix q p")
    case True
    then obtain r where "p = q @ r" "r \<noteq> []" using assms(2) by (auto simp: prefix_def)
    then show ?thesis using assms(1) dir_above [of t q r] is_dir_at_alter_above by blast
  qed (use False node_at_alter_other in auto)
qed

lemma file_at_alter_reg:
  "node_at (w_root w) p = Some (Reg s) \<Longrightarrow> q \<noteq> p \<Longrightarrow> file_at (put_at p (Some (Reg s')) w) q = file_at w q"
  using node_at_alter_reg [of "w_root w" p s q s']
  by (auto simp: file_at_def put_at_def is_dir_at_iff)

lemma next_fate_root [frame]: "next_fate w = (f, w') \<Longrightarrow> w_root w' = w_root w"
  by (auto simp: next_fate_def split: list.splits)

lemma sys_write_size:
  assumes "sys_write l off s w = (r, w')" and "off + length s \<le> length (file_at w i)"
  shows "length (file_at w' i) = length (file_at w i)"
proof -
  obtain f v where f: "next_fate w = (f, v)" by fastforce
  then have v: "w_root v = w_root w" by (rule next_fate_root)
  show ?thesis
  proof (cases "\<exists>old. node_at (w_root v) l = Some (Reg old) \<and> (\<forall>e. f \<noteq> Fail e)")
    case False
    then have "w_root w' = w_root v" using assms(1) f
      by (auto simp: sys_write_def failed_def split: fate.splits option.splits node.splits)
    then show ?thesis using v by (simp add: file_at_def)
  next
    case True
    then obtain old where old: "node_at (w_root v) l = Some (Reg old)" and nf: "\<forall>e. f \<noteq> Fail e" by blast
    define d where "d = take (limit f (length s)) s"
    have w': "w' = put_at l (Some (Reg (take off old @ d @ drop (off + length d) old))) v"
      using assms(1) f old nf by (auto simp: sys_write_def d_def Let_def split: fate.splits)
    have fv: "file_at v i = file_at w i" using v by (simp add: file_at_def)
    show ?thesis
    proof (cases "i = l")
      case True
      have "length d \<le> length s" by (simp add: d_def)
      moreover from True old fv have "off + length s \<le> length old" "file_at w i = old"
        using assms(2) by (auto simp: file_at_def)
      ultimately show ?thesis using True w' node_at_alter_self [OF old]
        by (simp add: file_at_def put_at_def)
    next
      case False
      then show ?thesis using file_at_alter_reg [OF old, of i] w' fv by simp
    qed
  qed
qed

end
