(* ===== verification/Fm_Ops.thy ===== *)
theory Fm_Ops
  imports Fm_Tree
begin

section \<open>File operations\<close>

text \<open>
  \<^verbatim>\<open>fm/src/fileops.c\<close>, function by function over the state of \<open>Fm_Fs\<close>: unused names, copying,
  counting and deleting of trees with and without progress, the trash and the operations the
  dialogs call. An \<open>int\<close> result is the C result, 0 or -1. The recursive functions end because a
  path of 4096 bytes is refused by \<^verbatim>\<open>lstat\<close> and each level makes the path longer; the copying
  loops end because each read moves towards the end of the file. Where a pointer to a counter or
  to the cancellation flag may be null in C there is a \<open>bool\<close> argument saying whether it is given.
\<close>

subsection \<open>Unused names\<close>

text \<open>The last component of a path and what stands before it.\<close>

definition base_of :: "cstr \<Rightarrow> cstr" where
  "base_of p = (case strrchr_after (CHR ''/'') p of Some b \<Rightarrow> b | None \<Rightarrow> p)"

definition dir_part :: "cstr \<Rightarrow> cstr" where
  "dir_part p = take (length p - length (base_of p)) p"

text \<open>The name up to its first dot and the extension from it on.\<close>

definition split_ext :: "cstr \<Rightarrow> cstr \<times> cstr" where
  "split_ext b = (case strchr_split (CHR ''.'') b of Some (n, e) \<Rightarrow> (n, CHR ''.'' # e) | None \<Rightarrow> (b, []))"

definition conflict_name :: "cstr \<Rightarrow> nat \<Rightarrow> cstr" where
  "conflict_name dst i = (case split_ext (base_of dst) of (name, ext) \<Rightarrow>
     snprintf (length (dir_part dst) + length name + 8 + length ext + 1)
       (dir_part dst @ name @ '' ('' @ dec_of_nat i @ '')'' @ ext))"

function first_unused :: "(nat \<Rightarrow> cstr) \<Rightarrow> (nat \<Rightarrow> cstr) \<Rightarrow> nat \<Rightarrow> nat \<Rightarrow> world \<Rightarrow> cstr option \<times> world" where
  "first_unused name path i n w =
     (if n \<le> i then (None, w)
      else case lstat (path i) w of
        (None, w) \<Rightarrow> (Some (name i), w)
      | (Some _, w) \<Rightarrow> first_unused name path (Suc i) n w)"
  by pat_completeness auto
termination
  by (relation "measure (\<lambda>(name, path, i, n, w). n - i)") auto

declare first_unused.simps [simp del]

definition resolve_conflict :: "cstr \<Rightarrow> world \<Rightarrow> cstr \<times> world" where
  "resolve_conflict dst w = (case lstat dst w of
     (None, w) \<Rightarrow> (dst, w)
   | (Some _, w) \<Rightarrow> (case first_unused (conflict_name dst) (conflict_name dst) 2 1000 w of
       (Some c, w) \<Rightarrow> (c, w) | (None, w) \<Rightarrow> (dst, w)))"

subsection \<open>Copying one file\<close>

lemma sys_write_pos: "sys_write l off s w = (Some k, w') \<Longrightarrow> s \<noteq> [] \<Longrightarrow> 0 < k"
proof -
  assume "sys_write l off s w = (Some k, w')" "s \<noteq> []"
  moreover have "s \<noteq> [] \<Longrightarrow> 0 < limit f (length s)" for f by (cases f) auto
  ultimately show ?thesis
    by (auto simp: sys_write_def failed_def Let_def split: prod.splits fate.splits option.splits node.splits)
qed

function write_all :: "loc \<Rightarrow> nat \<Rightarrow> cstr \<Rightarrow> world \<Rightarrow> bool \<times> world" where
  "write_all l off s w =
     (if s = [] then (True, w)
      else case sys_write l off s w of
        (None, w) \<Rightarrow> (False, w)
      | (Some k, w) \<Rightarrow> write_all l (off + k) (drop k s) w)"
  by pat_completeness auto
termination
  by (relation "measure (\<lambda>(l, off, s, w). length s)") (auto dest: sys_write_pos [OF sym])

declare write_all.simps [simp del]

definition add_bytes :: "bool \<Rightarrow> nat \<Rightarrow> world \<Rightarrow> world" where
  "add_bytes ptrs n w = (if ptrs
     then w\<lparr>cur_bytes_done := cur_bytes_done w + int n, total_bytes_done := total_bytes_done w + int n\<rparr>
     else w)"

definition test_cancel :: "bool \<Rightarrow> world \<Rightarrow> bool \<times> world" where
  "test_cancel ptrs w = (if ptrs then load_cancelled w else (False, w))"

lemma write_all_step:
  "write_all l off [] w = (True, w)"
  "s \<noteq> [] \<Longrightarrow> sys_write l off s w = (None, v) \<Longrightarrow> write_all l off s w = (False, v)"
  "s \<noteq> [] \<Longrightarrow> sys_write l off s w = (Some k, v) \<Longrightarrow> write_all l off s w = write_all l (off + k) (drop k s) v"
  by (simp_all add: write_all.simps [of l off])

lemma sys_write_le: "sys_write l off s w = (Some k, w') \<Longrightarrow> k \<le> length s"
  by (auto simp: sys_write_def failed_def Let_def split: prod.splits fate.splits option.splits node.splits)

lemma write_all_size:
  "off + length s \<le> length (file_at w i) \<Longrightarrow> write_all l off s w = (r, w') \<Longrightarrow>
   length (file_at w' i) = length (file_at w i)"
proof (induction l off s w rule: write_all.induct)
  case (1 l off s w)
  show ?case
  proof (cases "s = []")
    case False
    obtain k v where k: "sys_write l off s w = (k, v)" by fastforce
    with 1 have sz: "length (file_at v i) = length (file_at w i)" by (blast intro: sys_write_size)
    show ?thesis
    proof (cases k)
      case (Some n)
      with k have "n \<le> length s" by (auto dest: sys_write_le)
      then have "off + n + length (drop n s) \<le> length (file_at v i)" using 1(2) sz by simp
      then show ?thesis
        using 1(1) [OF False k [symmetric] Some] 1(3) False k Some sz by (simp add: write_all_step)
    qed (use 1 False k sz in \<open>simp add: write_all_step\<close>)
  qed (use 1 in \<open>simp add: write_all_step\<close>)
qed

lemma sys_read_Some:
  "sys_read l off n w = (Some c, w') \<Longrightarrow>
   w_root w' = w_root w \<and> length c \<le> n \<and> c = take (length c) (drop off (file_at w l)) \<and>
   (c = [] \<longrightarrow> 0 < n \<longrightarrow> length (file_at w l) \<le> off)"
proof -
  assume r: "sys_read l off n w = (Some c, w')"
  obtain f v where f: "next_fate w = (f, v)" by fastforce
  then have v: "w_root v = w_root w" by (rule next_fate_root)
  have "0 < n \<Longrightarrow> 0 < limit f n" by (cases f) auto
  with r f v obtain k where "c = take k (drop off (file_at w l))" "k \<le> n" "0 < n \<longrightarrow> 0 < k" "w_root w' = w_root w"
    by (fastforce simp: sys_read_def failed_def file_at_def split: fate.splits option.splits node.splits)
  then show ?thesis by (auto simp: min_def)
qed

function copy_bytes :: "bool \<Rightarrow> loc \<Rightarrow> loc \<Rightarrow> nat \<Rightarrow> world \<Rightarrow> int \<times> world" where
  "copy_bytes ptrs i out off w =
     (case sys_read i off 65536 w of
        (None, w) \<Rightarrow> (-1, w)
      | (Some buf, w) \<Rightarrow>
          if buf = [] then (0, w)
          else (case test_cancel ptrs w of (stop, w) \<Rightarrow>
            if stop then (-1, w)
            else (case write_all out off buf w of (ok, w) \<Rightarrow>
              if \<not> ok then (-1, w)
              else copy_bytes ptrs i out (off + length buf) (add_bytes ptrs (length buf) w))))"
  by pat_completeness auto
termination
proof (relation "measure (\<lambda>(ptrs, i, out, off, w). length (file_at w i) - off)", simp)
  fix ptrs i out off and w v v' v'' :: world and x buf stop ok
  assume x: "(x, v) = sys_read i off 65536 w" "x = Some buf" and ne: "buf \<noteq> []"
    and c: "(stop, v') = test_cancel ptrs v" and wr: "(ok, v'') = write_all out off buf v'"
  from sys_read_Some [of i off _ w buf v] x have b: "buf = take (length buf) (drop off (file_at w i))"
    and root: "w_root v = w_root w" by auto
  from b have "length buf \<le> length (file_at w i) - off" by (metis length_drop length_take min.cobounded1)
  with ne have le: "off + length buf \<le> length (file_at w i)" by (cases buf) auto
  have "w_root v' = w_root w" using c root
    by (auto simp: test_cancel_def load_cancelled_def split: if_splits option.splits)
  then have "file_at v' i = file_at w i" by (simp add: file_at_def)
  with le write_all_size [OF _ wr [symmetric], of i] have "length (file_at v'' i) = length (file_at w i)" by simp
  moreover have "file_at (add_bytes ptrs (length buf) v'') i = file_at v'' i"
    by (simp add: add_bytes_def file_at_def)
  ultimately show "((ptrs, i, out, off + length buf, add_bytes ptrs (length buf) v''), ptrs, i, out, off, w)
    \<in> measure (\<lambda>(ptrs, i, out, off, w). length (file_at w i) - off)"
    using le ne by (cases buf) auto
qed

declare copy_bytes.simps [simp del]

text \<open>
  The partial copy is removed only when the copy was cancelled, and the flag is read once more
  for that.
\<close>

definition start_file :: "bool \<Rightarrow> nat \<Rightarrow> world \<Rightarrow> world" where
  "start_file ptrs n w = (if ptrs then w\<lparr>cur_bytes_total := int n, cur_bytes_done := 0\<rparr> else w)"

definition copy_file_cancellable :: "bool \<Rightarrow> cstr \<Rightarrow> cstr \<Rightarrow> world \<Rightarrow> int \<times> world" where
  "copy_file_cancellable ptrs src dst w =
     (case open_read src w of
        (None, w) \<Rightarrow> (-1, w)
      | (Some i, w) \<Rightarrow>
          (case open_write dst (start_file ptrs (length (file_at w i)) w) of
             (None, w) \<Rightarrow> (-1, w)
           | (Some out, w) \<Rightarrow>
               (case copy_bytes ptrs i out 0 w of (ret, w) \<Rightarrow>
                  if ret \<noteq> 0 then
                    (case test_cancel ptrs w of (stop, w) \<Rightarrow>
                       if stop then (ret, snd (unlink dst w)) else (ret, w))
                  else (ret, w))))"

definition copy_file :: "cstr \<Rightarrow> cstr \<Rightarrow> world \<Rightarrow> int \<times> world" where
  "copy_file src dst = copy_file_cancellable False src dst"

subsection \<open>Directory loops\<close>

definition path_join :: "cstr \<Rightarrow> cstr \<Rightarrow> cstr" where
  "path_join dir name = dir @ ''/'' @ name"

text \<open>
  The loop over a directory that the recursive functions share: the two special names are
  skipped, a set flag ends it with -1, and one failed child makes the result -1.
\<close>

fun each_entry ::
  "(cstr \<Rightarrow> world \<Rightarrow> int \<times> world) \<Rightarrow> bool \<Rightarrow> cstr list \<Rightarrow> int \<Rightarrow> world \<Rightarrow> int \<times> world" where
  "each_entry f ptrs [] ret w = (ret, w)"
| "each_entry f ptrs (n # ns) ret w =
     (if n = ''.'' \<or> n = ''..'' then each_entry f ptrs ns ret w
      else (case test_cancel ptrs w of (stop, w) \<Rightarrow>
        if stop then (-1, w)
        else (case f n w of (r, w) \<Rightarrow> each_entry f ptrs ns (if r \<noteq> 0 then -1 else ret) w)))"

fun sum_entries :: "(cstr \<Rightarrow> world \<Rightarrow> int \<times> world) \<Rightarrow> cstr list \<Rightarrow> int \<Rightarrow> world \<Rightarrow> int \<times> world" where
  "sum_entries f [] c w = (c, w)"
| "sum_entries f (n # ns) c w =
     (if n = ''.'' \<or> n = ''..'' then sum_entries f ns c w
      else (case f n w of (r, w) \<Rightarrow> sum_entries f ns (c + r) w))"

lemma each_entry_cong [fundef_cong]:
  "\<lbrakk>ns = ns'; ptrs = ptrs'; ret = ret'; w = w'; \<And>n v. n \<in> set ns' \<Longrightarrow> f n v = g n v\<rbrakk>
   \<Longrightarrow> each_entry f ptrs ns ret w = each_entry g ptrs' ns' ret' w'"
proof (induction ns arbitrary: ns' ret ret' w w')
  case (Cons n ns)
  then show ?case by (auto split: prod.split)
qed simp

lemma sum_entries_cong [fundef_cong]:
  "\<lbrakk>ns = ns'; c = c'; w = w'; \<And>n v. n \<in> set ns' \<Longrightarrow> f n v = g n v\<rbrakk>
   \<Longrightarrow> sum_entries f ns c w = sum_entries g ns' c' w'"
proof (induction ns arbitrary: ns' c c' w w')
  case (Cons n ns)
  then show ?case by (auto split: prod.split)
qed simp

lemma lstat_short: "lstat p w = (Some n, w') \<Longrightarrow> length p < path_max"
  by (auto simp: lstat_def resolve_def failed_def split: list.splits option.splits sum.splits if_splits)

lemma length_path_join [simp]: "length (path_join d n) = Suc (length d + length n)"
  by (simp add: path_join_def)

subsection \<open>Trees: counting, copying, deleting\<close>

function count_recursive :: "cstr \<Rightarrow> world \<Rightarrow> int \<times> world" where
  "count_recursive path w =
     (case lstat path w of
        (None, w) \<Rightarrow> (0, w)
      | (Some n, w) \<Rightarrow>
          if \<not> is_dir_node n then (1, w)
          else (case opendir path w of
            (None, w) \<Rightarrow> (0, w)
          | (Some ns, w) \<Rightarrow> sum_entries (\<lambda>c. count_recursive (path_join path c)) ns 0 w))"
  by pat_completeness auto
termination
  by (relation "measure (\<lambda>(path, w). path_max - length path)") (auto dest!: lstat_short [OF sym])

definition bump_done :: "world \<Rightarrow> world" where
  "bump_done w = w\<lparr>files_done := files_done w + 1\<rparr>"

definition c_ret :: "unit option \<Rightarrow> int" where
  "c_ret r = (if r = None then -1 else 0)"

definition errno_is :: "errno \<Rightarrow> world \<Rightarrow> bool" where
  "errno_is e w \<longleftrightarrow> w_errno w = Some e"

function copy_recursive_cb :: "cstr \<Rightarrow> cstr \<Rightarrow> world \<Rightarrow> int \<times> world" where
  "copy_recursive_cb src dst w =
     (case load_cancelled w of (stop, w) \<Rightarrow> if stop then (-1, w) else
      case lstat src w of
        (None, w) \<Rightarrow> (-1, w)
      | (Some (Dir _), w) \<Rightarrow>
          (case mkdir dst w of (made, w) \<Rightarrow>
             if made = None \<and> \<not> errno_is EEXIST w then (-1, w)
             else (case opendir src w of
               (None, w) \<Rightarrow> (-1, w)
             | (Some ns, w) \<Rightarrow>
                 each_entry (\<lambda>c w. case resolve_conflict (path_join dst c) w of
                     (d, w) \<Rightarrow> copy_recursive_cb (path_join src c) d w) True ns 0 w))
      | (Some (Lnk _), w) \<Rightarrow>
          (case readlink src (path_max - 1) w of
             (None, w) \<Rightarrow> (-1, w)
           | (Some target, w) \<Rightarrow>
               (case resolve_conflict dst w of (d, w) \<Rightarrow>
                 (case symlink target d w of (r, w) \<Rightarrow> (c_ret r, bump_done w))))
      | (Some (Reg _), w) \<Rightarrow>
          (case copy_file_cancellable True src dst w of (r, w) \<Rightarrow> (r, bump_done w)))"
  by pat_completeness auto
termination
  by (relation "measure (\<lambda>(src, dst, w). path_max - length src)") (auto dest!: lstat_short [OF sym])

function delete_recursive_cb :: "cstr \<Rightarrow> world \<Rightarrow> int \<times> world" where
  "delete_recursive_cb path w =
     (case load_cancelled w of (stop, w) \<Rightarrow> if stop then (-1, w) else
      case lstat path w of
        (None, w) \<Rightarrow> (-1, w)
      | (Some n, w) \<Rightarrow>
          if is_dir_node n then
            (case opendir path w of
               (None, w) \<Rightarrow> (-1, w)
             | (Some ns, w) \<Rightarrow>
                 (case each_entry (\<lambda>c. delete_recursive_cb (path_join path c)) True ns 0 w of (ret, w) \<Rightarrow>
                   (case rmdir path w of (r, w) \<Rightarrow> (if r = None then -1 else ret, w))))
          else (case unlink path w of (r, w) \<Rightarrow> (c_ret r, bump_done w)))"
  by pat_completeness auto
termination
  by (relation "measure (\<lambda>(path, w). path_max - length path)") (auto dest!: lstat_short [OF sym])

function copy_recursive :: "cstr \<Rightarrow> cstr \<Rightarrow> world \<Rightarrow> int \<times> world" where
  "copy_recursive src dst w =
     (case lstat src w of
        (None, w) \<Rightarrow> (-1, w)
      | (Some (Dir _), w) \<Rightarrow>
          (case mkdir dst w of (made, w) \<Rightarrow>
             if made = None \<and> \<not> errno_is EEXIST w then (-1, w)
             else (case opendir src w of
               (None, w) \<Rightarrow> (-1, w)
             | (Some ns, w) \<Rightarrow>
                 each_entry (\<lambda>c w. case resolve_conflict (path_join dst c) w of
                     (d, w) \<Rightarrow> copy_recursive (path_join src c) d w) False ns 0 w))
      | (Some (Lnk _), w) \<Rightarrow>
          (case readlink src (path_max - 1) w of
             (None, w) \<Rightarrow> (-1, w)
           | (Some target, w) \<Rightarrow>
               (case resolve_conflict dst w of (d, w) \<Rightarrow>
                 (case symlink target d w of (r, w) \<Rightarrow> (c_ret r, w))))
      | (Some (Reg _), w) \<Rightarrow> copy_file src dst w)"
  by pat_completeness auto
termination
  by (relation "measure (\<lambda>(src, dst, w). path_max - length src)") (auto dest!: lstat_short [OF sym])

function delete_recursive :: "cstr \<Rightarrow> world \<Rightarrow> int \<times> world" where
  "delete_recursive path w =
     (case lstat path w of
        (None, w) \<Rightarrow> (-1, w)
      | (Some n, w) \<Rightarrow>
          if is_dir_node n then
            (case opendir path w of
               (None, w) \<Rightarrow> (-1, w)
             | (Some ns, w) \<Rightarrow>
                 (case each_entry (\<lambda>c. delete_recursive (path_join path c)) False ns 0 w of (ret, w) \<Rightarrow>
                   (case rmdir path w of (r, w) \<Rightarrow> (if r = None then -1 else ret, w))))
          else (case unlink path w of (r, w) \<Rightarrow> (c_ret r, w)))"
  by pat_completeness auto
termination
  by (relation "measure (\<lambda>(path, w). path_max - length path)") (auto dest!: lstat_short [OF sym])

declare count_recursive.simps [simp del] copy_recursive_cb.simps [simp del]
  delete_recursive_cb.simps [simp del] copy_recursive.simps [simp del] delete_recursive.simps [simp del]

subsection \<open>The trash\<close>

definition get_trash_dir :: "world \<Rightarrow> cstr" where
  "get_trash_dir w = isde_xdg_data_home (w_env w) @ ''/Trash''"

fun make_dirs :: "cstr list \<Rightarrow> world \<Rightarrow> int \<times> world" where
  "make_dirs [] w = (0, w)"
| "make_dirs (d # ds) w =
     (case mkdir d w of (r, w) \<Rightarrow> if r = None \<and> \<not> errno_is EEXIST w then (-1, w) else make_dirs ds w)"

definition ensure_trash_dirs :: "cstr \<Rightarrow> world \<Rightarrow> int \<times> world" where
  "ensure_trash_dirs trash =
     make_dirs [trash, snprintf path_max (trash @ ''/files''), snprintf path_max (trash @ ''/info'')]"

definition plain_byte :: "char \<Rightarrow> bool" where
  "plain_byte c = (let b = of_char c :: nat in
     c = CHR ''/'' \<or> 65 \<le> b \<and> b \<le> 90 \<or> 97 \<le> b \<and> b \<le> 122 \<or> 48 \<le> b \<and> b \<le> 57 \<or>
     c = CHR ''-'' \<or> c = CHR ''_'' \<or> c = CHR ''.'' \<or> c = CHR ''~'')"

definition hex_digit :: "nat \<Rightarrow> char" where
  "hex_digit d = (if d < 10 then char_of (48 + d) else char_of (55 + d))"

definition url_encode_path :: "cstr \<Rightarrow> cstr" where
  "url_encode_path p = concat (map (\<lambda>c. if plain_byte c then [c]
     else [CHR ''%'', hex_digit (of_char c div 16), hex_digit (of_char c mod 16)]) p)"

definition trash_candidate :: "cstr \<Rightarrow> nat \<Rightarrow> cstr" where
  "trash_candidate b i = (case split_ext b of (name, ext) \<Rightarrow>
     snprintf path_max (name @ ''.'' @ dec_of_nat i @ ext))"

definition trash_file :: "cstr \<Rightarrow> cstr \<Rightarrow> cstr" where
  "trash_file trash name = snprintf path_max (trash @ ''/files/'' @ name)"

definition trash_info :: "cstr \<Rightarrow> cstr \<Rightarrow> cstr" where
  "trash_info trash name = snprintf path_max (trash @ ''/info/'' @ name @ ''.trashinfo'')"

definition unique_trash_name :: "cstr \<Rightarrow> cstr \<Rightarrow> world \<Rightarrow> cstr \<times> world" where
  "unique_trash_name trash b w = (case lstat (trash_file trash b) w of
     (None, w) \<Rightarrow> (b, w)
   | (Some _, w) \<Rightarrow>
       (case first_unused (trash_candidate b) (\<lambda>i. trash_file trash (trash_candidate b i)) 2 10000 w of
          (Some c, w) \<Rightarrow> (c, w) | (None, w) \<Rightarrow> (b, w)))"

definition trashinfo_text :: "cstr \<Rightarrow> cstr \<Rightarrow> cstr" where
  "trashinfo_text path date =
     ''[Trash Info]'' @ newline # ''Path='' @ url_encode_path path @ newline #
     ''DeletionDate='' @ date @ [newline]"

definition write_trashinfo :: "cstr \<Rightarrow> cstr \<Rightarrow> world \<Rightarrow> world" where
  "write_trashinfo info path w = (case open_write info w of
     (None, w) \<Rightarrow> w
   | (Some l, w) \<Rightarrow> snd (write_all l 0 (trashinfo_text path (w_date w)) w))"

text \<open>Rename, or copy and delete where the two places are on different devices.\<close>

definition rename_or_copy :: "cstr \<Rightarrow> cstr \<Rightarrow> world \<Rightarrow> int \<times> world" where
  "rename_or_copy src dst w = (case rename src dst w of
     (Some _, w) \<Rightarrow> (0, w)
   | (None, w) \<Rightarrow>
       if errno_is EXDEV w then
         (case copy_recursive src dst w of (ret, w) \<Rightarrow>
            if ret = 0 then (ret, snd (delete_recursive src w)) else (ret, w))
       else (-1, w))"

definition fileops_trash :: "cstr \<Rightarrow> world \<Rightarrow> int \<times> world" where
  "fileops_trash path w =
     (let trash = get_trash_dir w in
      case ensure_trash_dirs trash w of (r, w) \<Rightarrow>
        if r \<noteq> 0 then (-1, w)
        else (case unique_trash_name trash (base_of path) w of (name, w) \<Rightarrow>
          (case rename_or_copy path (trash_file trash name) w of (ret, w) \<Rightarrow>
             if ret = 0 then (ret, write_trashinfo (trash_info trash name) path w) else (ret, w))))"

text \<open>
  \<^verbatim>\<open>strtol\<close> to base 16 of a string of two characters: white space and a sign may stand first,
  and a digit 0 followed by x is a prefix with no digits after it.
\<close>

definition hex_val :: "char \<Rightarrow> int option" where
  "hex_val c = (let b = of_char c :: nat in
     if 48 \<le> b \<and> b \<le> 57 then Some (int b - 48)
     else if 65 \<le> b \<and> b \<le> 70 then Some (int b - 55)
     else if 97 \<le> b \<and> b \<le> 102 then Some (int b - 87) else None)"

definition strtol16 :: "char \<Rightarrow> char \<Rightarrow> int" where
  "strtol16 a b =
     (let one = (case hex_val b of Some v \<Rightarrow> v | None \<Rightarrow> 0) in
      if isspace a \<or> a = CHR ''+'' then one
      else if a = CHR ''-'' then - one
      else case hex_val a of None \<Rightarrow> 0 | Some v \<Rightarrow>
        (case hex_val b of None \<Rightarrow> v | Some u \<Rightarrow> 16 * v + u))"

fun url_decode :: "cstr \<Rightarrow> cstr" where
  "url_decode [] = []"
| "url_decode (c # cs) =
     (if c = CHR ''%'' then
        (case cs of a # b # rest \<Rightarrow> char_of (nat (strtol16 a b mod 256)) # url_decode rest
         | _ \<Rightarrow> c # url_decode cs)
      else c # url_decode cs)"

definition path_line :: "cstr \<Rightarrow> cstr option" where
  "path_line l = (if take 5 l = ''Path='' then
     Some (c_string (url_decode (takeWhile (\<lambda>c. c \<noteq> newline) (drop 5 l)))) else None)"

definition read_trashinfo_path :: "cstr \<Rightarrow> world \<Rightarrow> cstr option \<times> world" where
  "read_trashinfo_path info w = (case open_read info w of
     (None, w) \<Rightarrow> (None, w)
   | (Some l, w) \<Rightarrow> (first_some path_line (read_lines path_max (file_at w l)), w))"

definition parent_prefixes :: "cstr \<Rightarrow> cstr list" where
  "parent_prefixes p =
     map (\<lambda>i. take i p) (filter (\<lambda>i. p ! i = CHR ''/'') [1..<length p]) @ [p]"

definition make_parents :: "cstr \<Rightarrow> world \<Rightarrow> world" where
  "make_parents path w =
     (let parent = butlast (dir_part path) in
      if parent = [] then w else fold (\<lambda>d w. snd (mkdir d w)) (parent_prefixes parent) w)"

definition fileops_restore :: "cstr \<Rightarrow> world \<Rightarrow> int \<times> world" where
  "fileops_restore name w =
     (let trash = get_trash_dir w; info = trash_info trash name in
      case read_trashinfo_path info w of
        (None, w) \<Rightarrow> (-1, w)
      | (Some orig, w) \<Rightarrow>
          (case resolve_conflict orig (make_parents orig w) of (dst, w) \<Rightarrow>
            (case rename_or_copy (trash_file trash name) dst w of (ret, w) \<Rightarrow>
               if ret = 0 then (ret, snd (unlink info w)) else (ret, w))))"

definition fileops_empty_trash :: "world \<Rightarrow> int \<times> world" where
  "fileops_empty_trash w =
     (let trash = get_trash_dir w;
          files = snprintf path_max (trash @ ''/files'');
          info = snprintf path_max (trash @ ''/info'') in
      case (case opendir files w of (None, w) \<Rightarrow> (0, w)
            | (Some ns, w) \<Rightarrow>
                each_entry (\<lambda>c. delete_recursive (snprintf path_max (path_join files c))) False ns 0 w) of
        (ret, w) \<Rightarrow>
          (case opendir info w of (None, w) \<Rightarrow> (ret, w)
           | (Some ns, w) \<Rightarrow>
               each_entry (\<lambda>c w. (0, snd (unlink (snprintf path_max (path_join info c)) w))) False ns ret w))"

definition fileops_trash_path :: "world \<Rightarrow> cstr \<times> world" where
  "fileops_trash_path w =
     (get_trash_dir w @ ''/files'', snd (ensure_trash_dirs (get_trash_dir w) w))"

subsection \<open>Public functions\<close>

definition fileops_copy :: "cstr \<Rightarrow> cstr \<Rightarrow> world \<Rightarrow> int \<times> world" where
  "fileops_copy src dst w = (case resolve_conflict dst w of (d, w) \<Rightarrow> copy_recursive src d w)"

function mkdir_numbered :: "cstr \<Rightarrow> cstr \<Rightarrow> nat \<Rightarrow> world \<Rightarrow> unit option \<times> world" where
  "mkdir_numbered cwd name i w =
     (if 100 \<le> i then (None, w)
      else case mkdir (snprintf 512 (cwd @ ''/'' @ name @ '' ('' @ dec_of_nat i @ '')'')) w of
        (Some u, w) \<Rightarrow> (Some u, w)
      | (None, w) \<Rightarrow> mkdir_numbered cwd name (Suc i) w)"
  by pat_completeness auto
termination
  by (relation "measure (\<lambda>(cwd, name, i, w). 100 - i)") auto

declare mkdir_numbered.simps [simp del]

definition fileops_mkdir :: "cstr \<Rightarrow> cstr \<Rightarrow> world \<Rightarrow> int \<times> world" where
  "fileops_mkdir cwd name w = (case mkdir (path_join cwd name) w of
     (Some _, w) \<Rightarrow> (0, w)
   | (None, w) \<Rightarrow> if errno_is EEXIST w
       then (case mkdir_numbered cwd name 2 w of (r, w) \<Rightarrow> (c_ret r, w)) else (-1, w))"

definition fileops_delete :: "cstr \<Rightarrow> world \<Rightarrow> int \<times> world" where
  "fileops_delete path = delete_recursive path"

definition fileops_rename :: "cstr \<Rightarrow> cstr \<Rightarrow> cstr \<Rightarrow> world \<Rightarrow> int \<times> world" where
  "fileops_rename cwd oldpath newname w =
     (let dir = (if CHR ''/'' \<in> set oldpath then dir_part oldpath else cwd) in
      case rename oldpath (path_join dir newname) w of (r, w) \<Rightarrow> (c_ret r, w))"

definition fileops_count_files :: "cstr \<Rightarrow> world \<Rightarrow> int \<times> world" where
  "fileops_count_files path = count_recursive path"

definition fileops_copy_progress :: "cstr \<Rightarrow> cstr \<Rightarrow> world \<Rightarrow> int \<times> world" where
  "fileops_copy_progress src dst w = (case resolve_conflict dst w of (d, w) \<Rightarrow> copy_recursive_cb src d w)"

definition fileops_delete_progress :: "cstr \<Rightarrow> world \<Rightarrow> int \<times> world" where
  "fileops_delete_progress path = delete_recursive_cb path"

end
