(* ===== verification/Fm_Calls.thy ===== *)
theory Fm_Calls
  imports Fm_Ops
begin

section \<open>Paths that name what they spell, and the laws of the calls on them\<close>

text \<open>
  \<open>spells p l\<close>: the absolute path \<open>p\<close> consists of the names \<open>l\<close>. When the directories on the way
  are directories and no links, a call on \<open>p\<close> acts on the location \<open>l\<close> or fails because the path
  or one of its names is too long. For each call there is a rule that says what it can have done.
\<close>

definition spells :: "cstr \<Rightarrow> loc \<Rightarrow> bool" where
  "spells p l \<longleftrightarrow> absolute p \<and> comps p = l \<and> ''..'' \<notin> set l"

definition too_long :: "cstr \<Rightarrow> bool" where
  "too_long p \<longleftrightarrow> path_max \<le> length p \<or> list_ex (\<lambda>c. 255 < length c) (comps p)"

text \<open>What the calls leave alone, besides the tree.\<close>

definition keeps :: "world \<Rightarrow> world \<Rightarrow> bool" where
  "keeps w w' \<longleftrightarrow> w_pwd w' = w_pwd w \<and> w_mounts w' = w_mounts w \<and> w_env w' = w_env w \<and>
     w_date w' = w_date w \<and> (w_stat_plan w = [] \<longrightarrow> w_stat_plan w' = []) \<and>
     (w_plan w = [] \<longrightarrow> w_plan w' = []) \<and> (w_cancel w = None \<longrightarrow> w_cancel w' = None)"

lemma keeps_refl [simp, intro]: "keeps w w"
  by (simp add: keeps_def)

lemma keeps_trans [trans]: "keeps w v \<Longrightarrow> keeps v u \<Longrightarrow> keeps w u"
  by (auto simp: keeps_def)

subsection \<open>Spelling\<close>

lemma split_on_append: "split_on sep (a @ sep # s) = split_on sep a @ split_on sep s"
proof (induction a)
  case (Cons x a)
  then show ?case by (auto split: list.splits)
qed simp

lemma comps_join: "name_ok c \<Longrightarrow> comps (path_join p c) = comps p @ [c]"
  by (simp add: path_join_def comps_def strtok_def split_on_append split_on_none name_ok_def)

lemma spells_join [intro]: "spells p l \<Longrightarrow> name_ok c \<Longrightarrow> spells (path_join p c) (l @ [c])"
proof -
  assume a: "spells p l" "name_ok c"
  then have "p \<noteq> []" by (auto simp: spells_def absolute_def)
  then have "absolute (path_join p c)" using a by (cases p) (auto simp: spells_def absolute_def path_join_def)
  with a show ?thesis by (auto simp: spells_def comps_join name_ok_def)
qed

lemma spells_ne: "spells p l \<Longrightarrow> p \<noteq> []"
  by (auto simp: spells_def absolute_def)

lemma walk_dirs:
  "is_dir_at t (p @ butlast cs) \<Longrightarrow> ''..'' \<notin> set cs \<Longrightarrow>
   (follow \<longrightarrow> (\<forall>s. node_at t (p @ cs) \<noteq> Some (Lnk s))) \<Longrightarrow> walk follow n t p cs = Inr (p @ cs)"
proof (induction cs arbitrary: p)
  case (Cons c cs)
  show ?case
  proof (cases "cs = []")
    case True
    with Cons.prems show ?thesis by (auto split: option.splits node.splits)
  next
    case False
    then have "is_dir_at t (p @ [c])" using Cons.prems(1) is_dir_at_prefix [of t "p @ [c]" "butlast cs"] by simp
    with False Cons.IH [of "p @ [c]"] Cons.prems show ?thesis by (auto simp: is_dir_at_iff)
  qed
qed simp

lemma resolve_spelled:
  assumes "spells p l" and "is_dir_at (w_root w) (butlast l)"
    and "follow \<longrightarrow> (\<forall>s. node_at (w_root w) l \<noteq> Some (Lnk s))"
  shows "resolve follow w p = (if too_long p then Inl ENAMETOOLONG else Inr l)"
proof -
  have "walk follow 40 (w_root w) [] l = Inr l"
    using walk_dirs [of "w_root w" "[]" l follow] assms by (auto simp: spells_def)
  then show ?thesis using assms spells_ne [OF assms(1)]
    by (auto simp: resolve_def too_long_def spells_def)
qed

subsection \<open>Rules of the calls\<close>

lemma keeps_fate [frame]: "next_fate w = (f, w') \<Longrightarrow> keeps w w'"
  by (auto simp: next_fate_def keeps_def split: list.splits)

lemma keeps_failed [frame]: "failed e w = (r, w') \<Longrightarrow> keeps w w' \<and> w_root w' = w_root w \<and> r = None"
  by (auto simp: failed_def keeps_def)

lemma keeps_put [simp]: "keeps w (put_at l v w)" "w_root (put_at l v w) = alter l v (w_root w)"
  by (simp_all add: put_at_def keeps_def)

text \<open>A call fails for a reason of the plan, fails for its own reason, or does what it is for.\<close>

lemma syscallE:
  assumes "syscall act w = (r, w')"
  obtains
    (plan) k v where "keeps w v" "w_root v = w_root w" "r = None" "w' = v\<lparr>w_errno := Some (Eother k)\<rparr>" "w_plan w \<noteq> []"
  | (refused) e v where "keeps w v" "w_root v = w_root w" "act v = Inl e" "r = None" "w' = v\<lparr>w_errno := Some e\<rparr>"
  | (ok) v x where "keeps w v" "w_root v = w_root w" "act v = Inr (x, w')" "r = Some x"
proof -
  obtain f v where f: "next_fate w = (f, v)" by fastforce
  then have "keeps w v" "w_root v = w_root w" by (auto simp: keeps_fate next_fate_root)
  moreover have "w_plan w = [] \<Longrightarrow> f = Proceed" using f by (simp add: next_fate_def)
  ultimately show ?thesis using assms f that
    by (auto simp: syscall_def failed_def split: fate.splits sum.splits)
qed

lemma keeps_errno [simp]: "keeps w (v\<lparr>w_errno := e\<rparr>) = keeps w v"
  by (simp add: keeps_def)

lemma lstat_law:
  assumes "lstat p w = (r, w')"
  shows "keeps w w' \<and> w_root w' = w_root w"
  using assms
  by (auto simp: lstat_def failed_def keeps_def split: list.splits option.splits sum.splits)

lemma lstat_spelled:
  assumes "lstat p w = (r, w')" and "spells p l" and "is_dir_at (w_root w) (butlast l)" and "w_stat_plan w = []"
  shows "r = (if too_long p then None else node_at (w_root w) l)"
  using assms resolve_spelled [OF assms(2,3), of False]
  by (auto simp: lstat_def failed_def split: option.splits sum.splits if_splits)

lemma mkdir_spelled:
  assumes "mkdir p w = (r, w')" and "spells p l" and "is_dir_at (w_root w) (butlast l)"
  shows "keeps w w'"
    and "r = Some () \<Longrightarrow> node_at (w_root w) l = None \<and> w_root w' = alter l (Some (Dir [])) (w_root w)"
    and "r = None \<Longrightarrow> w_root w' = w_root w \<and> (errno_is EEXIST w' \<longrightarrow> node_at (w_root w) l \<noteq> None)"
    and "r = None \<Longrightarrow> w_plan w = [] \<Longrightarrow> \<not> too_long p \<Longrightarrow> errno_is EEXIST w'"
proof -
  have *: "keeps w w' \<and>
    (r = Some () \<longrightarrow> node_at (w_root w) l = None \<and> w_root w' = alter l (Some (Dir [])) (w_root w)) \<and>
    (r = None \<longrightarrow> w_root w' = w_root w \<and> (errno_is EEXIST w' \<longrightarrow> node_at (w_root w) l \<noteq> None)) \<and>
    (r = None \<longrightarrow> w_plan w = [] \<longrightarrow> \<not> too_long p \<longrightarrow> errno_is EEXIST w')"
    using assms(1) unfolding mkdir_def
  proof (cases rule: syscallE)
    case (refused e v)
    with resolve_spelled [OF assms(2), of v False] assms(3) show ?thesis
      by (auto simp: errno_is_def split: sum.splits option.splits if_splits)
  next
    case (ok v x)
    with resolve_spelled [OF assms(2), of v False] assms(3) show ?thesis
      by (auto intro: keeps_trans split: sum.splits option.splits if_splits)
  qed (auto simp: errno_is_def)
  from * show "keeps w w'"
    "r = Some () \<Longrightarrow> node_at (w_root w) l = None \<and> w_root w' = alter l (Some (Dir [])) (w_root w)"
    "r = None \<Longrightarrow> w_root w' = w_root w \<and> (errno_is EEXIST w' \<longrightarrow> node_at (w_root w) l \<noteq> None)"
    "r = None \<Longrightarrow> w_plan w = [] \<Longrightarrow> \<not> too_long p \<Longrightarrow> errno_is EEXIST w'" by simp_all
qed

lemma symlink_spelled:
  assumes "symlink target p w = (r, w')" and "spells p l" and "is_dir_at (w_root w) (butlast l)"
  shows "keeps w w' \<and>
    (r = Some () \<longrightarrow> node_at (w_root w) l = None \<and> w_root w' = alter l (Some (Lnk target)) (w_root w)) \<and>
    (r = None \<longrightarrow> w_root w' = w_root w)"
  using assms(1) unfolding symlink_def
proof (cases rule: syscallE)
  case (ok v x)
  with resolve_spelled [OF assms(2), of v False] assms(3) show ?thesis
    by (auto intro: keeps_trans split: sum.splits option.splits if_splits)
qed auto

lemma readlink_spelled:
  assumes "readlink p n w = (r, w')" and "spells p l" and "is_dir_at (w_root w) (butlast l)"
  shows "keeps w w' \<and> w_root w' = w_root w \<and>
    (\<forall>s. r = Some s \<longrightarrow> (\<exists>t. node_at (w_root w) l = Some (Lnk t) \<and> s = take n t))"
  using assms(1) unfolding readlink_def
proof (cases rule: syscallE)
  case (ok v x)
  with resolve_spelled [OF assms(2), of v False] assms(3) show ?thesis
    by (auto intro: keeps_trans split: sum.splits option.splits if_splits node.splits)
qed auto

lemma unlink_spelled:
  assumes "unlink p w = (r, w')" and "spells p l" and "is_dir_at (w_root w) (butlast l)"
  shows "keeps w w' \<and>
    (r = Some () \<longrightarrow> w_root w' = alter l None (w_root w) \<and>
      (\<exists>n. node_at (w_root w) l = Some n \<and> \<not> is_dir_node n)) \<and>
    (r = None \<longrightarrow> w_root w' = w_root w)"
  using assms(1) unfolding unlink_def
proof (cases rule: syscallE)
  case (ok v x)
  with resolve_spelled [OF assms(2), of v False] assms(3) show ?thesis
    by (auto simp: is_dir_node_def intro: keeps_trans split: sum.splits option.splits if_splits node.splits)
qed auto

lemma rmdir_spelled:
  assumes "rmdir p w = (r, w')" and "spells p l" and "is_dir_at (w_root w) (butlast l)"
  shows "keeps w w' \<and>
    (r = Some () \<longrightarrow> l \<noteq> [] \<and> node_at (w_root w) l = Some (Dir []) \<and> w_root w' = alter l None (w_root w)) \<and>
    (r = None \<longrightarrow> w_root w' = w_root w)"
  using assms(1) unfolding rmdir_def
proof (cases rule: syscallE)
  case (ok v x)
  with resolve_spelled [OF assms(2), of v False] assms(3) show ?thesis
    by (auto intro: keeps_trans split: sum.splits option.splits if_splits node.splits)
qed auto

lemma opendir_spelled:
  assumes "opendir p w = (r, w')" and "spells p l" and "node_at (w_root w) l = Some (Dir es)"
  shows "keeps w w' \<and> w_root w' = w_root w \<and> (\<forall>ns. r = Some ns \<longrightarrow> ns = ''.'' # ''..'' # map fst es)"
proof -
  have d: "is_dir_at (w_root w) (butlast l)"
    using assms(3) node_at_self by (cases "l = []") (auto simp: is_dir_at_iff)
  from assms(1) show ?thesis unfolding opendir_def
  proof (cases rule: syscallE)
    case (ok v x)
    with resolve_spelled [OF assms(2), of v True] d assms(3) show ?thesis
      by (auto intro: keeps_trans split: sum.splits option.splits if_splits node.splits)
  qed auto
qed

lemma open_read_spelled:
  assumes "open_read p w = (r, w')" and "spells p l" and "is_dir_at (w_root w) (butlast l)"
    and "node_at (w_root w) l = Some (Reg s)"
  shows "keeps w w' \<and> w_root w' = w_root w \<and> (\<forall>i. r = Some i \<longrightarrow> i = l)"
  using assms(1) unfolding open_read_def
proof (cases rule: syscallE)
  case (ok v x)
  with resolve_spelled [OF assms(2), of v True] assms(3,4) show ?thesis
    by (auto intro: keeps_trans split: sum.splits option.splits if_splits)
qed auto

lemma open_write_spelled:
  assumes "open_write p w = (r, w')" and "spells p l" and "is_dir_at (w_root w) (butlast l)"
    and "\<forall>s. node_at (w_root w) l \<noteq> Some (Lnk s)"
  shows "keeps w w' \<and>
    (\<forall>i. r = Some i \<longrightarrow> i = l \<and> w_root w' = alter l (Some (Reg [])) (w_root w) \<and> \<not> is_dir_at (w_root w) l) \<and>
    (r = None \<longrightarrow> w_root w' = w_root w)"
  using assms(1) unfolding open_write_def
proof (cases rule: syscallE)
  case (ok v x)
  with resolve_spelled [OF assms(2), of v True] assms(3,4) show ?thesis
    by (auto simp: is_dir_at_def intro: keeps_trans split: sum.splits option.splits if_splits node.splits)
qed auto

lemma sys_write_law:
  assumes "sys_write l off s w = (r, w')" and "node_at (w_root w) l = Some (Reg old)"
  shows "keeps w w' \<and> (r = None \<longrightarrow> w_root w' = w_root w) \<and>
    (\<forall>k. r = Some k \<longrightarrow> k \<le> length s \<and>
      w_root w' = alter l (Some (Reg (take off old @ take k s @ drop (off + k) old))) (w_root w))"
proof -
  obtain f v where f: "next_fate w = (f, v)" by fastforce
  then have "keeps w v" "w_root v = w_root w" by (auto simp: keeps_fate next_fate_root)
  with assms f show ?thesis
    by (auto simp: sys_write_def failed_def Let_def min_def intro: keeps_trans split: fate.splits)
qed

lemma test_cancel_law: "test_cancel ptrs w = (b, w') \<Longrightarrow> keeps w w' \<and> w_root w' = w_root w"
  by (auto simp: test_cancel_def load_cancelled_def keeps_def split: if_splits option.splits)

lemma load_cancelled_law: "load_cancelled w = (b, w') \<Longrightarrow> keeps w w' \<and> w_root w' = w_root w"
  by (auto simp: load_cancelled_def keeps_def split: if_splits option.splits)

lemma keeps_counters [simp]:
  "keeps w (bump_done v) = keeps w v" "w_root (bump_done v) = w_root v"
  "keeps w (add_bytes p k v) = keeps w v" "w_root (add_bytes p k v) = w_root v"
  "keeps (bump_done w) v = keeps w v" "keeps (add_bytes p k w) v = keeps w v"
  "keeps w (start_file p k v) = keeps w v" "w_root (start_file p k v) = w_root v"
  by (simp_all add: bump_done_def add_bytes_def start_file_def keeps_def)

end
