(* ===== verification/Fm_Copy.thy ===== *)
theory Fm_Copy
  imports Fm_Calls
begin

section \<open>Copying a tree\<close>

text \<open>
  A copy to an unused place makes at most the tree at that place and, when it reports success, a
  tree equal to the one copied: for files over short reads and writes, for links, and for
  directories by induction along the recursion, with \<open>each_entry_rule\<close> for the loop.
\<close>

subsection \<open>Files\<close>

lemma write_all_law:
  "write_all l off s w = (ok, w') \<Longrightarrow> node_at (w_root w) l = Some (Reg old) \<Longrightarrow> off \<le> length old \<Longrightarrow> l \<noteq> [] \<Longrightarrow>
   keeps w w' \<and> (\<exists>new. w_root w' = alter l (Some (Reg new)) (w_root w) \<and>
     (ok \<longrightarrow> new = take off old @ s @ drop (off + length s) old))"
proof (induction l off s w arbitrary: old rule: write_all.induct)
  case (1 l off s w)
  show ?case
  proof (cases "s = []")
    case True
    with 1(2-) show ?thesis by (auto simp: write_all_step alter_same intro!: exI [of _ old])
  next
    case False
    obtain r v where r: "sys_write l off s w = (r, v)" by fastforce
    show ?thesis
    proof (cases r)
      case None
      with r False 1(2-) sys_write_law [OF r 1(3)] show ?thesis
        by (auto simp: write_all_step alter_same intro!: exI [of _ old])
    next
      case (Some k)
      define mid where "mid = take off old @ take k s @ drop (off + k) old"
      from sys_write_law [OF r 1(3)] Some have k: "keeps w v" "k \<le> length s"
        and v: "w_root v = alter l (Some (Reg mid)) (w_root w)" by (auto simp: mid_def)
      have n: "node_at (w_root v) l = Some (Reg mid)" using v node_at_alter_self [OF 1(3)] by simp
      have "off + k \<le> length mid" using 1(4) k by (simp add: mid_def)
      with 1(1) [OF False r [symmetric] Some _ n] 1(2,5) False r Some
      obtain new where kv: "keeps v w'" and new: "w_root w' = alter l (Some (Reg new)) (w_root v)"
        "ok \<Longrightarrow> new = take (off + k) mid @ drop k s @ drop (off + k + length (drop k s)) mid"
        by (auto simp: write_all_step)
      have "take (off + k) mid @ drop k s @ drop (off + k + length (drop k s)) mid
        = take off old @ s @ drop (off + length s) old"
        using 1(4) k(2) by (simp add: mid_def min_absorb2 add.commute)
      with new v kv k(1) 1(5) show ?thesis by (auto simp: alter_twice intro: keeps_trans)
    qed
  qed
qed

lemma copy_bytes_law:
  "copy_bytes ptrs i out off w = (ret, w') \<Longrightarrow>
   node_at (w_root w) i = Some (Reg s) \<Longrightarrow> node_at (w_root w) out = Some (Reg (take off s)) \<Longrightarrow>
   i \<noteq> out \<Longrightarrow> out \<noteq> [] \<Longrightarrow> off \<le> length s \<Longrightarrow>
   keeps w w' \<and> (\<exists>new. w_root w' = alter out (Some (Reg new)) (w_root w) \<and> (ret = 0 \<longrightarrow> new = s))"
proof (induction ptrs i out off w rule: copy_bytes.induct)
  case (1 ptrs i out off w)
  obtain r v where r: "sys_read i off 65536 w = (r, v)" by fastforce
  have kv: "keeps w v" and rv: "w_root v = w_root w"
    using r by (auto simp: sys_read_def failed_def split: prod.splits fate.splits option.splits node.splits
        dest: keeps_fate next_fate_root)
  have f: "file_at w i = s" using 1(3) by (simp add: file_at_def)
  have same: "alter out (Some (Reg (take off s))) (w_root w) = w_root w" using 1(4) by (rule alter_same)
  show ?case
  proof (cases r)
    case None
    with 1(2) r kv rv same show ?thesis by (auto simp: copy_bytes.simps intro!: exI [of _ "take off s"])
  next
    case (Some buf)
    from sys_read_Some r Some f have b: "buf = take (length buf) (drop off s)" "buf = [] \<longrightarrow> length s \<le> off" by fastforce+
    show ?thesis
    proof (cases "buf = []")
      case True
      with 1(2,7) r Some kv rv same b(2) show ?thesis by (auto simp: copy_bytes.simps intro!: exI [of _ s])
    next
      case False
      obtain stop x where c: "test_cancel ptrs v = (stop, x)" by fastforce
      then have kx: "keeps v x" "w_root x = w_root w" using test_cancel_law rv by fastforce+
      show ?thesis
      proof (cases stop)
        case True
        with 1(2) r Some False c kv kx same show ?thesis
          by (auto simp: copy_bytes.simps [of ptrs i out off w] intro!: exI [of _ "take off s"] intro: keeps_trans)
      next
        case go: False
        obtain ok y where y: "write_all out off buf x = (ok, y)" by fastforce
        have "length (take off s) = off" using 1(7) by simp
        with write_all_law [OF y, of "take off s"] 1(4,6,7) kx(2)
        obtain new where ky: "keeps x y" and ny: "w_root y = alter out (Some (Reg new)) (w_root w)"
          "ok \<Longrightarrow> new = take off s @ buf" by auto
        show ?thesis
        proof (cases ok)
          case False
          with 1(2) r Some \<open>buf \<noteq> []\<close> c go y kv kx ky ny show ?thesis
            by (auto simp: copy_bytes.simps [of ptrs i out off w] intro: keeps_trans)
        next
          case True
          let ?z = "add_bytes ptrs (length buf) y"
          have tk: "take off s @ buf = take (off + length buf) s" using b(1) by (simp add: take_add)
          have le: "off + length buf \<le> length s" using b(1) False
            by (metis add_le_mono1 le_add_diff_inverse length_drop length_take min.cobounded1 1(7) nat_add_left_cancel_le)
          have i: "node_at (w_root ?z) i = Some (Reg s)"
            using ny 1(3,5) node_at_alter_reg [OF 1(4), of i new] by (auto simp: is_dir_at_iff)
          have o: "node_at (w_root ?z) out = Some (Reg (take (off + length buf) s))"
            using ny True tk node_at_alter_self [OF 1(4)] by simp
          have "copy_bytes ptrs i out (off + length buf) ?z = (ret, w')"
            using 1(2) r Some False c go y True by (simp add: copy_bytes.simps [of ptrs i out off w])
          from 1(1) [OF r [symmetric] Some False c [symmetric] go y [symmetric] _ this i o 1(5,6) le] True
          obtain n' where "keeps ?z w'" "w_root w' = alter out (Some (Reg n')) (w_root y)" "ret = 0 \<longrightarrow> n' = s" by auto
          moreover have "keeps w y" using kv kx ky by (meson keeps_trans)
          moreover have "keeps w ?z" using \<open>keeps w y\<close> by simp
          ultimately show ?thesis using ny 1(6) by (auto simp: alter_twice intro: keeps_trans)
        qed
      qed
    qed
  qed
qed

text \<open>
  What is asked of a copy of \<open>n\<close> from \<open>src\<close> to the unused place \<open>dst\<close>, and what it promises.
\<close>

definition copy_ready :: "cstr \<Rightarrow> loc \<Rightarrow> cstr \<Rightarrow> loc \<Rightarrow> node \<Rightarrow> world \<Rightarrow> bool" where
  "copy_ready src s dst d n w \<longleftrightarrow>
     spells src s \<and> spells dst d \<and> d \<noteq> [] \<and> node_at (w_root w) s = Some n \<and> tree_ok n \<and>
     node_at (w_root w) d = None \<and> is_dir_at (w_root w) (butlast d) \<and> \<not> prefix s d \<and>
     w_stat_plan w = []"

definition copy_done :: "loc \<Rightarrow> node \<Rightarrow> world \<Rightarrow> int \<Rightarrow> world \<Rightarrow> bool" where
  "copy_done d n w ret w' \<longleftrightarrow> keeps w w' \<and>
     (\<exists>v. w_root w' = alter d v (w_root w) \<and> (ret = 0 \<longrightarrow> v = Some n))"

lemma copy_done_bump [simp]: "copy_done d n w ret (bump_done v) = copy_done d n w ret v"
  by (simp add: copy_done_def)

lemma copy_readyD:
  assumes "copy_ready src s dst d n w"
  shows "s \<noteq> []" "is_dir_at (w_root w) (butlast s)" "\<not> prefix d s" "s \<noteq> d"
    "alter d None (w_root w) = w_root w"
proof -
  show "s \<noteq> []" using assms by (auto simp: copy_ready_def)
  then show "is_dir_at (w_root w) (butlast s)" using assms node_at_self by (auto simp: copy_ready_def)
  show "\<not> prefix d s" using assms by (auto simp: copy_ready_def prefix_def node_at_append)
  then show "s \<noteq> d" by auto
  show "alter d None (w_root w) = w_root w" using assms by (auto simp: copy_ready_def alter_absent)
qed

lemma copy_done_unchanged:
  "copy_ready src s dst d n w \<Longrightarrow> keeps w w' \<Longrightarrow> w_root w' = w_root w \<Longrightarrow> ret \<noteq> 0 \<Longrightarrow> copy_done d n w ret w'"
  by (auto simp: copy_done_def copy_readyD(5) intro!: exI [of _ None])

lemma copy_file_law:
  assumes "copy_file_cancellable ptrs src dst w = (ret, w')" and rd: "copy_ready src s dst d (Reg c) w"
  shows "copy_done d (Reg c) w ret w'"
proof -
  note D = copy_readyD [OF rd] and R = rd [unfolded copy_ready_def]
  obtain i w1 where o: "open_read src w = (i, w1)" by fastforce
  with R D(2) have 1: "keeps w w1" "w_root w1 = w_root w" "\<forall>j. i = Some j \<longrightarrow> j = s"
    using open_read_spelled [OF o, of s c] by auto
  show ?thesis
  proof (cases i)
    case None
    with assms(1) o 1 show ?thesis by (auto simp: copy_file_cancellable_def intro!: copy_done_unchanged [OF rd])
  next
    case (Some j)
    define w2 where "w2 = start_file ptrs (length (file_at w1 s)) w1"
    have 2: "keeps w w2" "w_root w2 = w_root w" using 1 by (simp_all add: w2_def)
    obtain out w3 where wr: "open_write dst w2 = (out, w3)" by fastforce
    with R 2 have 3: "keeps w2 w3" "out = None \<Longrightarrow> w_root w3 = w_root w"
      "\<And>l. out = Some l \<Longrightarrow> l = d \<and> w_root w3 = alter d (Some (Reg [])) (w_root w)"
      using open_write_spelled [OF wr, of d] by auto
    show ?thesis
    proof (cases out)
      case None
      with assms(1) o Some 1(3) wr 3 2 show ?thesis
        by (auto simp: copy_file_cancellable_def w2_def [symmetric]
            intro!: copy_done_unchanged [OF rd] intro: keeps_trans)
    next
      case out: (Some l)
      with 3 have l: "l = d" and root3: "w_root w3 = alter d (Some (Reg [])) (w_root w)" by auto
      obtain r w4 where cb: "copy_bytes ptrs s d 0 w3 = (r, w4)" by fastforce
      have "node_at (w_root w3) s = Some (Reg c)" using root3 R D node_at_alter_other [of d s] by simp
      moreover have "node_at (w_root w3) d = Some (Reg (take 0 c))" using root3 R by (simp add: node_at_alter)
      ultimately obtain new where 4: "keeps w3 w4" "w_root w4 = alter d (Some (Reg new)) (w_root w)" "r = 0 \<longrightarrow> new = c"
        using copy_bytes_law [OF cb] D(4) R root3 by (auto simp: alter_twice)
      have k4: "keeps w w4" using 2 3 4 by (meson keeps_trans)
      obtain stop w5 where tc: "test_cancel ptrs w4 = (stop, w5)" by fastforce
      with k4 4 have 5: "keeps w w5" "w_root w5 = w_root w4" using test_cancel_law by (blast intro: keeps_trans)+
      obtain u w6 where un: "unlink dst w5 = (u, w6)" by fastforce
      have "is_dir_at (w_root w5) (butlast d)"
        using 4 5 R is_dir_at_alter_above [of "w_root w" "butlast d" "[last d]"] by simp
      with unlink_spelled [OF un] R 5 4(2) have 6: "keeps w5 w6"
        "w_root w6 = alter d None (w_root w) \<or> w_root w6 = alter d (Some (Reg new)) (w_root w)"
        by (cases u; auto simp: alter_twice)+
      from assms(1) o Some 1(3) wr out l cb tc un have
        "r \<noteq> 0 \<and> stop \<and> ret = r \<and> w' = w6 \<or> r \<noteq> 0 \<and> \<not> stop \<and> ret = r \<and> w' = w5 \<or> r = 0 \<and> ret = 0 \<and> w' = w4"
        by (auto simp: copy_file_cancellable_def w2_def [symmetric] split: if_splits)
      then show ?thesis
      proof (elim disjE conjE)
        assume "r \<noteq> 0" "ret = r" "w' = w6"
        then show ?thesis using 6 5 by (auto simp: copy_done_def intro: keeps_trans)
      qed (use 4 k4 5 in \<open>auto simp: copy_done_def\<close>)
    qed
  qed
qed

subsection \<open>Directories\<close>

lemma each_entry_rule:
  assumes run: "each_entry f ptrs ns ret w = (ret', w')" and start: "I [] ret w"
    and names: "''.'' \<notin> set ns" "''..'' \<notin> set ns"
    and step: "\<And>xs n ys ret w v r u. \<lbrakk>ns = xs @ n # ys; I xs ret w; test_cancel ptrs w = (False, v); f n v = (r, u)\<rbrakk>
      \<Longrightarrow> I (xs @ [n]) (if r \<noteq> 0 then -1 else ret) u"
    and stop: "\<And>xs ret w v. \<lbrakk>prefix xs ns; I xs ret w; test_cancel ptrs w = (True, v)\<rbrakk> \<Longrightarrow> Q (-1) v"
    and fin: "\<And>ret w. I ns ret w \<Longrightarrow> Q ret w"
  shows "Q ret' w'"
proof -
  have "each_entry f ptrs ys ret w = (ret', w') \<Longrightarrow> ns = xs @ ys \<Longrightarrow> I xs ret w \<Longrightarrow> Q ret' w'" for xs ys ret w
  proof (induction ys arbitrary: xs ret w)
    case Nil
    then show ?case using fin by simp
  next
    case (Cons n ys)
    obtain b v where b: "test_cancel ptrs w = (b, v)" by fastforce
    obtain r u where r: "f n v = (r, u)" by fastforce
    have n: "n \<noteq> ''.''" "n \<noteq> ''..''" using Cons.prems(2) names by auto
    show ?case
    proof (cases b)
      case True
      with Cons.prems b n show ?thesis using stop [of xs ret w v] by (auto simp: prefix_def)
    next
      case False
      with b r Cons.prems step [of xs n ys ret w v r u] have i: "I (xs @ [n]) (if r \<noteq> 0 then -1 else ret) u" by simp
      show ?thesis using Cons.IH [OF _ _ i] Cons.prems b r False n by simp
    qed
  qed
  from this [of ns ret w "[]"] run start show ?thesis by simp
qed

lemma resolve_conflict_free:
  assumes "resolve_conflict dst w = (r, w')" and "spells dst d" and "is_dir_at (w_root w) (butlast d)"
    and "node_at (w_root w) d = None" and "w_stat_plan w = []"
  shows "r = dst \<and> keeps w w' \<and> w_root w' = w_root w"
proof -
  obtain x v where x: "lstat dst w = (x, v)" by fastforce
  with assms lstat_spelled [OF x] have "x = None" by simp
  with x assms(1) lstat_law [OF x] show ?thesis by (simp add: resolve_conflict_def)
qed

text \<open>The directory loop of a copy: after the names \<open>xs\<close> the new directory has at most those.\<close>

definition dir_copied :: "loc \<Rightarrow> (cstr \<times> node) list \<Rightarrow> world \<Rightarrow> cstr list \<Rightarrow> int \<Rightarrow> world \<Rightarrow> bool" where
  "dir_copied d es w xs ret v \<longleftrightarrow> keeps w v \<and>
     (\<exists>fs. w_root v = alter d (Some (Dir fs)) (w_root w) \<and> fst ` set fs \<subseteq> set xs \<and>
       (ret = 0 \<longrightarrow> fs = take (length xs) es))"

lemma dir_copied_ready:
  assumes rd: "copy_ready src s dst d (Dir es) w" and dc: "dir_copied d es w xs ret v"
    and es: "map fst es = xs @ c # ys"
  obtains m where "es ! length xs = (c, m)" "tree_ok m" "w_stat_plan v = []"
    "copy_ready (path_join src c) (s @ [c]) (path_join dst c) (d @ [c]) m v"
proof -
  note D = copy_readyD [OF rd] and R = rd [unfolded copy_ready_def]
  obtain fs where fs: "w_root v = alter d (Some (Dir fs)) (w_root w)" "fst ` set fs \<subseteq> set xs"
    and k: "keeps w v" using dc by (auto simp: dir_copied_def)
  have len: "length xs < length es" using arg_cong [OF es, of length] by simp
  have "map fst es ! length xs = c" using es by (simp add: nth_append)
  then obtain m where m: "es ! length xs = (c, m)" using len by (cases "es ! length xs") auto
  then have in_es: "(c, m) \<in> set es" using len by (metis nth_mem)
  with R have ok: "name_ok c" "tree_ok m" "distinct (map fst es)" by force+
  with in_es have "map_of es c = Some m" by simp
  with R have sc: "node_at (w_root w) (s @ [c]) = Some m" by (simp add: node_at_append)
  have np: "\<not> prefix (s @ [c]) d" using R by (auto simp: prefix_def)
  have nd: "\<not> prefix d (s @ [c])" using R sc node_at_none_append [of "w_root w" d] by (auto simp: prefix_def)
  have "node_at (w_root v) (s @ [c]) = Some m" using fs(1) sc node_at_alter_other [OF nd np] by simp
  moreover have dv: "node_at (w_root v) d = Some (Dir fs)" using fs(1) R by (simp add: node_at_alter)
  moreover have "c \<notin> set xs" using ok(3) es by (metis distinct_append not_distinct_conv_prefix distinct.simps(2) disjoint_iff list.set_intros(1))
  then have "map_of fs c = None" using fs(2) by (auto simp: map_of_eq_None_iff)
  moreover have "\<not> prefix (s @ [c]) (d @ [c])" using np D(4) by (auto simp: prefix_snoc)
  moreover have "w_stat_plan v = []" using k R by (simp add: keeps_def)
  ultimately have "copy_ready (path_join src c) (s @ [c]) (path_join dst c) (d @ [c]) m v"
    using R ok by (auto simp: copy_ready_def node_at_append is_dir_at_def intro!: spells_join)
  with m ok(2) \<open>w_stat_plan v = []\<close> show ?thesis using that by blast
qed

lemma dir_copied_step:
  assumes rd: "copy_ready src s dst d (Dir es) w" and dc: "dir_copied d es w xs ret v"
    and es: "map fst es = xs @ c # ys" and m: "es ! length xs = (c, m)"
    and cd: "copy_done (d @ [c]) m v r u"
  shows "dir_copied d es w (xs @ [c]) (if r \<noteq> 0 then -1 else ret) u"
proof -
  note R = rd [unfolded copy_ready_def]
  obtain fs where fs: "w_root v = alter d (Some (Dir fs)) (w_root w)" "fst ` set fs \<subseteq> set xs"
    "ret = 0 \<longrightarrow> fs = take (length xs) es" and k: "keeps w v" using dc by (auto simp: dir_copied_def)
  obtain x where x: "keeps v u" "w_root u = alter (d @ [c]) x (w_root v)" "r = 0 \<longrightarrow> x = Some m"
    using cd by (auto simp: copy_done_def)
  have dv: "node_at (w_root v) d = Some (Dir fs)" using fs(1) R by (simp add: node_at_alter)
  then have u: "w_root u = alter d (Some (Dir (set_entry c x fs))) (w_root w)"
    using x(2) fs(1) R alter_parent [of "w_root v" d "[c]" x] by (simp add: is_dir_at_def alter_twice)
  have "distinct (xs @ c # ys)" using R es by (metis tree_ok.simps(1))
  then have "c \<notin> fst ` set fs" using fs(2) by auto
  then have new: "set_entry c x fs = (case x of None \<Rightarrow> fs | Some y \<Rightarrow> fs @ [(c, y)])"
    by (simp add: set_entry_def update_absent delete_absent split: option.split)
  have "length xs < length es" using arg_cong [OF es, of length] by simp
  then have "take (Suc (length xs)) es = take (length xs) es @ [(c, m)]" using m by (simp add: take_Suc_conv_app_nth)
  with new x(3) fs(2,3) have "fst ` set (set_entry c x fs) \<subseteq> set (xs @ [c])"
    "(if r \<noteq> 0 then -1 else ret) = 0 \<longrightarrow> set_entry c x fs = take (length (xs @ [c])) es"
    by (auto split: option.splits)
  with u x(1) k show ?thesis unfolding dir_copied_def by (blast intro: keeps_trans)
qed

lemma copy_link_law:
  assumes rl: "readlink src (path_max - 1) w = (Some target, v)"
    and rc: "resolve_conflict dst v = (dst', u)" and sl: "symlink target dst' u = (r, w')"
    and rd: "copy_ready src s dst d (Lnk t) w"
  shows "copy_done d (Lnk t) w (c_ret r) w'"
proof -
  note D = copy_readyD [OF rd] and R = rd [unfolded copy_ready_def]
  from readlink_spelled [OF rl, of s] R D(2) have v: "keeps w v" "w_root v = w_root w" "target = t"
    by (auto simp: path_max_def)
  from resolve_conflict_free [OF rc] v R have u: "dst' = dst" "keeps v u" "w_root u = w_root w"
    by (auto simp: keeps_def)
  from symlink_spelled [OF sl [unfolded u(1)]] u(3) R have
    "keeps u w'" "r = Some () \<Longrightarrow> w_root w' = alter d (Some (Lnk target)) (w_root w)"
    "r = None \<Longrightarrow> w_root w' = w_root w" by auto
  with v u D(5) show ?thesis
    by (cases r) (auto simp: copy_done_def c_ret_def intro: keeps_trans intro!: exI [of _ None])
qed

lemma opened_names:
  assumes "copy_ready src s dst d (Dir es) w" and "keeps w v" and "w_root v = alter d x (w_root w)"
    and "opendir src v = (Some ns, u)"
  shows "ns = ''.'' # ''..'' # map fst es" "keeps w u" "w_root u = w_root v"
proof -
  note D = copy_readyD [OF assms(1)] and R = assms(1) [unfolded copy_ready_def]
  have "node_at (w_root v) s = Some (Dir es)" using assms(3) R D node_at_alter_other [of d s] by simp
  with opendir_spelled [OF assms(4)] R assms(2)
  show "ns = ''.'' # ''..'' # map fst es" "keeps w u" "w_root u = w_root v" by (auto intro: keeps_trans)
qed

lemma special_names: "tree_ok (Dir es) \<Longrightarrow> ''.'' \<notin> fst ` set es \<and> ''..'' \<notin> fst ` set es"
  by (auto simp: name_ok_def)

text \<open>The loop, for either of the two recursive copies \<open>f\<close>.\<close>

lemma copy_loop_law:
  assumes rd: "copy_ready src s dst d (Dir es) w" and k: "keeps w v" and v: "w_root v = alter d (Some (Dir [])) (w_root w)"
    and op: "opendir src v = (Some ns, u)"
    and run: "each_entry (\<lambda>c w. case resolve_conflict (path_join dst c) w of (d, w) \<Rightarrow> f (path_join src c) d w)
      ptrs ns 0 u = (ret, w')"
    and ih: "\<And>c d' x y s d n ret w'. \<lbrakk>c \<in> set ns; resolve_conflict (path_join dst c) x = (d', y);
      f (path_join src c) d' y = (ret, w'); copy_ready (path_join src c) s d' d n y\<rbrakk> \<Longrightarrow> copy_done d n y ret w'"
  shows "copy_done d (Dir es) w ret w'"
proof -
  note R = rd [unfolded copy_ready_def]
  note ns = opened_names [OF rd k v op]
  have sp: "''.'' \<notin> set (map fst es)" "''..'' \<notin> set (map fst es)" using special_names [of es] R by auto
  let ?f = "\<lambda>c w. case resolve_conflict (path_join dst c) w of (d, w) \<Rightarrow> f (path_join src c) d w"
  from run ns(1) have "each_entry ?f ptrs (map fst es) 0 u = (ret, w')" by simp
  then show ?thesis
  proof (rule each_entry_rule [where I = "dir_copied d es w", OF _ _ sp])
    show "dir_copied d es w [] 0 u" using ns v by (auto simp: dir_copied_def)
  next
    fix xs c ys ret x x1 r y
    assume es: "map fst es = xs @ c # ys" and dc: "dir_copied d es w xs ret x"
      and tc: "test_cancel ptrs x = (False, x1)" and fc: "?f c x1 = (r, y)"
    have dc: "dir_copied d es w xs ret x1" using dc test_cancel_law [OF tc] by (auto simp: dir_copied_def intro: keeps_trans)
    from dir_copied_ready [OF rd dc es] obtain m where m: "es ! length xs = (c, m)"
      and crd: "copy_ready (path_join src c) (s @ [c]) (path_join dst c) (d @ [c]) m x1" by blast
    obtain d' x2 where rc: "resolve_conflict (path_join dst c) x1 = (d', x2)" by fastforce
    with crd have "d' = path_join dst c" "keeps x1 x2" "w_root x2 = w_root x1"
      using resolve_conflict_free [OF rc, of "d @ [c]"] by (auto simp: copy_ready_def)
    moreover from this crd have "copy_ready (path_join src c) (s @ [c]) (path_join dst c) (d @ [c]) m x2"
      by (auto simp: copy_ready_def keeps_def)
    moreover have "c \<in> set ns" using es ns(1) by (metis in_set_conv_decomp list.set_intros(2))
    ultimately have "copy_done (d @ [c]) m x2 r y" using ih [OF _ rc, of r y] fc rc by simp
    then have "copy_done (d @ [c]) m x1 r y" using \<open>keeps x1 x2\<close> \<open>w_root x2 = w_root x1\<close>
      by (auto simp: copy_done_def intro: keeps_trans)
    with dir_copied_step [OF rd dc es m] show "dir_copied d es w (xs @ [c]) (if r \<noteq> 0 then -1 else ret) y" by blast
  next
    fix xs ret x x1
    assume "dir_copied d es w xs ret x" "test_cancel ptrs x = (True, x1)"
    then show "copy_done d (Dir es) w (-1) x1"
      using test_cancel_law [of ptrs x True x1] by (auto simp: dir_copied_def copy_done_def intro: keeps_trans)
  next
    fix ret x
    assume "dir_copied d es w (map fst es) ret x"
    then show "copy_done d (Dir es) w ret x" by (auto simp: dir_copied_def copy_done_def)
  qed
qed

lemma copy_recursive_cb_law:
  "copy_recursive_cb src dst w = (ret, w') \<Longrightarrow> copy_ready src s dst d n w \<Longrightarrow> copy_done d n w ret w'"
proof (induction src dst w arbitrary: s d n ret w' rule: copy_recursive_cb.induct)
  case (1 src dst w)
  note rd = 1(3) and D = copy_readyD [OF 1(3)] and R = 1(3) [unfolded copy_ready_def]
  note unch = copy_done_unchanged [OF rd]
  obtain stop w1 where lc: "load_cancelled w = (stop, w1)" by fastforce
  note k1 = load_cancelled_law [OF lc]
  obtain x w2 where ls: "lstat src w1 = (x, w2)" by fastforce
  have k2: "keeps w w2" "w_root w2 = w_root w" using k1 lstat_law [OF ls] by (auto intro: keeps_trans)
  have x: "x = None \<or> x = Some n" using lstat_spelled [OF ls, of s] k1 D R by (auto simp: keeps_def)
  have rd2: "copy_ready src s dst d n w2" using R k2 by (auto simp: copy_ready_def keeps_def)
  have from2: "copy_done d n w2 r v \<Longrightarrow> copy_done d n w r v" for r v
    using k2 by (auto simp: copy_done_def intro: keeps_trans)
  show ?case
  proof (cases "stop \<or> x = None")
    case True
    with 1(2) lc ls k1 k2 show ?thesis
      by (auto simp: copy_recursive_cb.simps [of src] intro: unch split: if_splits)
  next
    case False
    with x have go: "\<not> stop" "x = Some n" by auto
    show ?thesis
    proof (cases n)
      case (Reg c)
      obtain r w3 where "copy_file_cancellable True src dst w2 = (r, w3)" by fastforce
      with 1(2) lc ls go Reg copy_file_law [of True src dst w2 r w3 s d c] rd2 from2 show ?thesis
        by (auto simp: copy_recursive_cb.simps [of src])
    next
      case (Lnk t)
      obtain y w3 where rl: "readlink src (path_max - 1) w2 = (y, w3)" by fastforce
      show ?thesis
      proof (cases y)
        case None
        have "keeps w w3" "w_root w3 = w_root w"
          using readlink_spelled [OF rl, of s] R D(2) k2 by (auto intro: keeps_trans)
        with 1(2) lc ls go Lnk rl None show ?thesis
          by (auto simp: copy_recursive_cb.simps [of src] intro!: unch [unfolded Lnk])
      next
        case (Some target)
        obtain d' w4 where rc: "resolve_conflict dst w3 = (d', w4)" by fastforce
        obtain r w5 where sl: "symlink target d' w4 = (r, w5)" by fastforce
        from 1(2) lc ls go Lnk rl Some rc sl have "ret = c_ret r" "w' = bump_done w5"
          by (auto simp: copy_recursive_cb.simps [of src])
        with copy_link_law [OF rl [unfolded Some] rc sl] rd2 Lnk from2 show ?thesis by auto
      qed
    next
      case (Dir es)
      obtain made w3 where mk: "mkdir dst w2 = (made, w3)" by fastforce
      note M = mkdir_spelled [OF mk, of d]
      show ?thesis
      proof (cases made)
        case None
        with M R k2 have "keeps w w3" "w_root w3 = w_root w" "\<not> errno_is EEXIST w3"
          by (auto intro: keeps_trans)
        with 1(2) lc ls go Dir mk None show ?thesis
          by (auto simp: copy_recursive_cb.simps [of src] intro: unch [unfolded Dir])
      next
        case (Some u)
        with M R k2 have k3: "keeps w w3" "w_root w3 = alter d (Some (Dir [])) (w_root w)"
          by (auto intro: keeps_trans)
        obtain od w4 where op: "opendir src w3 = (od, w4)" by fastforce
        show ?thesis
        proof (cases od)
          case None
          have "node_at (w_root w3) s = Some (Dir es)" using k3 R Dir D node_at_alter_other [of d s] by simp
          with opendir_spelled [OF op] R k3 have "keeps w w4" "w_root w4 = w_root w3" by (auto intro: keeps_trans)
          with 1(2) lc ls go Dir mk Some op None k3 show ?thesis
            by (auto simp: copy_recursive_cb.simps [of src] copy_done_def)
        next
          case ns: (Some ns)
          let ?run = "each_entry (\<lambda>c w. case resolve_conflict (path_join dst c) w of (d, w) \<Rightarrow>
            copy_recursive_cb (path_join src c) d w) True ns 0 w4"
          have run: "?run = (ret, w')" using 1(2) lc ls go Dir mk Some op ns
            by (simp add: copy_recursive_cb.simps [of src])
          show ?thesis unfolding Dir
          proof (rule copy_loop_law [OF rd [unfolded Dir] k3 op [unfolded ns] run])
            fix c d' x y s d n ret w'
            assume "c \<in> set ns" "resolve_conflict (path_join dst c) x = (d', y)"
              "copy_recursive_cb (path_join src c) d' y = (ret, w')" "copy_ready (path_join src c) s d' d n y"
            then show "copy_done d n y ret w'"
              using 1(1) [OF lc [symmetric] go(1) ls [symmetric] go(2) Dir mk [symmetric] _ op [symmetric] ns]
                Some by (metis option.distinct(1))
          qed
        qed
      qed
    qed
  qed
qed

end
