(* ===== verification/Fm_Delete.thy ===== *)
theory Fm_Delete
  imports Fm_Copy
begin

section \<open>Deleting a tree\<close>

text \<open>
  A recursive deletion changes nothing outside the tree it is given, whatever fails on the way,
  and the tree is gone when it reports success. Both versions of the function share the lemma on
  the loop.
\<close>

definition delete_done :: "loc \<Rightarrow> world \<Rightarrow> int \<Rightarrow> world \<Rightarrow> bool" where
  "delete_done s w ret w' \<longleftrightarrow> keeps w w' \<and> (\<exists>v. w_root w' = alter s v (w_root w)) \<and>
     (ret = 0 \<longrightarrow> w_root w' = alter s None (w_root w))"

definition delete_ready :: "cstr \<Rightarrow> loc \<Rightarrow> node \<Rightarrow> world \<Rightarrow> bool" where
  "delete_ready path s n w \<longleftrightarrow> spells path s \<and> s \<noteq> [] \<and> node_at (w_root w) s = Some n \<and> tree_ok n"

lemma delete_unchanged:
  "delete_ready path s n w \<Longrightarrow> keeps w w' \<Longrightarrow> w_root w' = w_root w \<Longrightarrow> ret \<noteq> 0 \<Longrightarrow> delete_done s w ret w'"
  by (auto simp: delete_done_def delete_ready_def alter_same intro!: exI [of _ "Some n"])

lemma delete_done_bump [simp]: "delete_done s w ret (bump_done v) = delete_done s w ret v"
  by (simp add: delete_done_def)

lemma lstat_Some:
  assumes "lstat p w = (Some x, w')" and "spells p l" and "is_dir_at (w_root w) (butlast l)"
  shows "node_at (w_root w) l = Some x"
  using assms resolve_spelled [OF assms(2), of _ False]
  by (auto simp: lstat_def failed_def split: option.splits sum.splits if_splits list.splits)

lemma delete_file_law:
  assumes rd: "delete_ready path s n w" and un: "unlink path w = (r, w')"
  shows "delete_done s w (c_ret r) w'"
proof -
  note R = rd [unfolded delete_ready_def]
  have "is_dir_at (w_root w) (butlast s)" using R node_at_self by blast
  note U = unlink_spelled [OF un _ this]
  show ?thesis
  proof (cases r)
    case None
    with U R show ?thesis by (auto simp: c_ret_def intro: delete_unchanged [OF rd])
  next
    case (Some u)
    with U R show ?thesis by (auto simp: delete_done_def)
  qed
qed

text \<open>After the names \<open>xs\<close> the other entries of the directory are as they were.\<close>

definition dir_emptied :: "loc \<Rightarrow> (cstr \<times> node) list \<Rightarrow> world \<Rightarrow> cstr list \<Rightarrow> int \<Rightarrow> world \<Rightarrow> bool" where
  "dir_emptied s es w xs ret v \<longleftrightarrow> keeps w v \<and>
     (\<exists>fs. w_root v = alter s (Some (Dir fs)) (w_root w) \<and>
       (\<forall>c. c \<notin> set xs \<longrightarrow> map_of fs c = map_of es c) \<and> (ret = 0 \<longrightarrow> fs = drop (length xs) es))"

lemma dir_emptied_step:
  assumes rd: "delete_ready path s (Dir es) w" and de: "dir_emptied s es w xs ret v"
    and es: "map fst es = xs @ c # ys"
    and ih: "\<And>m. delete_ready (path_join path c) (s @ [c]) m v \<Longrightarrow> delete_done (s @ [c]) v r u"
  shows "dir_emptied s es w (xs @ [c]) (if r \<noteq> 0 then -1 else ret) u"
proof -
  note R = rd [unfolded delete_ready_def]
  obtain fs where fs: "w_root v = alter s (Some (Dir fs)) (w_root w)"
    "\<And>c. c \<notin> set xs \<Longrightarrow> map_of fs c = map_of es c" "ret = 0 \<longrightarrow> fs = drop (length xs) es"
    and k: "keeps w v" using de by (auto simp: dir_emptied_def)
  have dis: "distinct (xs @ c # ys)" using R es by (metis tree_ok.simps(1))
  have len: "length xs < length es" using arg_cong [OF es, of length] by simp
  have "map fst es ! length xs = c" using es by (simp add: nth_append)
  then obtain m where m: "es ! length xs = (c, m)" using len by (cases "es ! length xs") auto
  then have in_es: "(c, m) \<in> set es" using len by (metis nth_mem)
  with R have ok: "name_ok c" "tree_ok m" "map_of es c = Some m" by force+
  have "is_dir_at (w_root w) (butlast s)" using R node_at_self by blast
  with fs(1) R have sv: "node_at (w_root v) s = Some (Dir fs)" by (simp add: node_at_alter)
  with fs(2) [of c] dis ok have "node_at (w_root v) (s @ [c]) = Some m" by (simp add: node_at_append)
  with R ok have "delete_ready (path_join path c) (s @ [c]) m v" by (auto simp: delete_ready_def)
  from ih [OF this] obtain x where x: "keeps v u" "w_root u = alter (s @ [c]) x (w_root v)"
    "r = 0 \<longrightarrow> w_root u = alter (s @ [c]) None (w_root v)" by (auto simp: delete_done_def)
  define y where "y = (if r = 0 then None else x)"
  with x have y: "w_root u = alter (s @ [c]) y (w_root v)" "r = 0 \<longrightarrow> y = None" by auto
  from y(1) sv fs(1) R have u: "w_root u = alter s (Some (Dir (set_entry c y fs))) (w_root w)"
    using alter_parent [of "w_root v" s "[c]" y] by (simp add: is_dir_at_def alter_twice)
  have "drop (length xs) es = (c, m) # drop (Suc (length xs)) es" using m len by (metis Cons_nth_drop_Suc)
  moreover have "map fst (drop (Suc (length xs)) es) = ys"
    using es by (simp add: drop_map [symmetric])
  then have "c \<notin> fst ` set (drop (Suc (length xs)) es)" using dis
    by (metis distinct.simps(2) distinct_append image_set)
  ultimately have "set_entry c None (drop (length xs) es) = drop (Suc (length xs)) es"
    by (simp add: set_entry_def delete_absent)
  moreover have "(if r \<noteq> 0 then -1 else ret) = 0 \<Longrightarrow> y = None \<and> fs = drop (length xs) es"
    using y(2) fs(3) by (auto split: if_splits)
  ultimately have "(if r \<noteq> 0 then -1 else ret) = 0 \<longrightarrow> set_entry c y fs = drop (length (xs @ [c])) es" by auto
  moreover have "\<forall>b. b \<notin> set (xs @ [c]) \<longrightarrow> map_of (set_entry c y fs) b = map_of es b"
    using fs(2) by (simp add: map_of_set_entry)
  moreover have "keeps w u" using k x(1) by (rule keeps_trans)
  ultimately show ?thesis using u unfolding dir_emptied_def by blast
qed

lemma delete_loop_law:
  assumes rd: "delete_ready path s (Dir es) w" and op: "opendir path w = (Some ns, u)"
    and run: "each_entry (\<lambda>c. f (path_join path c)) ptrs ns 0 u = (ret, v)"
    and rm: "rmdir path v = (r, w')"
    and ih: "\<And>c y s n ret w'. \<lbrakk>c \<in> set ns; f (path_join path c) y = (ret, w');
      delete_ready (path_join path c) s n y\<rbrakk> \<Longrightarrow> delete_done s y ret w'"
  shows "delete_done s w (if r = None then -1 else ret) w'"
proof -
  note R = rd [unfolded delete_ready_def]
  have ns: "ns = ''.'' # ''..'' # map fst es" "keeps w u" "w_root u = w_root w"
    using opendir_spelled [OF op, of s es] R by auto
  have sp: "''.'' \<notin> set (map fst es)" "''..'' \<notin> set (map fst es)" using special_names [of es] R by auto
  define Q where "Q ret x \<longleftrightarrow> keeps w x \<and> (\<exists>fs. w_root x = alter s (Some (Dir fs)) (w_root w) \<and> (ret = 0 \<longrightarrow> fs = []))"
    for ret :: int and x
  from run ns(1) have "each_entry (\<lambda>c. f (path_join path c)) ptrs (map fst es) 0 u = (ret, v)" by simp
  then have q: "Q ret v"
  proof (rule each_entry_rule [where I = "dir_emptied s es w", OF _ _ sp])
    show "dir_emptied s es w [] 0 u" using ns R alter_same [of "w_root w" s]
      by (auto simp: dir_emptied_def intro!: exI [of _ es])
  next
    fix xs c ys ret x x1 r y
    assume es: "map fst es = xs @ c # ys" and de: "dir_emptied s es w xs ret x"
      and tc: "test_cancel ptrs x = (False, x1)" and fc: "f (path_join path c) x1 = (r, y)"
    have de: "dir_emptied s es w xs ret x1" using de test_cancel_law [OF tc] by (auto simp: dir_emptied_def intro: keeps_trans)
    have "c \<in> set ns" using es ns(1) by (metis in_set_conv_decomp list.set_intros(2))
    with dir_emptied_step [OF rd de es] ih fc
    show "dir_emptied s es w (xs @ [c]) (if r \<noteq> 0 then -1 else ret) y" by blast
  next
    fix xs ret x x1
    assume "dir_emptied s es w xs ret x" "test_cancel ptrs x = (True, x1)"
    then show "Q (-1) x1"
      using test_cancel_law [of ptrs x True x1] by (auto simp: dir_emptied_def Q_def intro: keeps_trans)
  next
    fix ret x
    assume "dir_emptied s es w (map fst es) ret x"
    then show "Q ret x" by (auto simp: dir_emptied_def Q_def)
  qed
  have d: "is_dir_at (w_root w) (butlast s)" using R node_at_self by blast
  from q obtain fs where fs: "keeps w v" "w_root v = alter s (Some (Dir fs)) (w_root w)" by (auto simp: Q_def)
  have "is_dir_at (w_root v) (butlast s)"
    using fs R d is_dir_at_alter_above [of "w_root w" "butlast s" "[last s]"] by simp
  from rmdir_spelled [OF rm _ this] R fs show ?thesis
    by (cases r) (auto simp: delete_done_def alter_twice intro: keeps_trans)
qed

lemma delete_recursive_cb_law:
  "delete_recursive_cb path w = (ret, w') \<Longrightarrow> delete_ready path s n w \<Longrightarrow> delete_done s w ret w'"
proof (induction path w arbitrary: s n ret w' rule: delete_recursive_cb.induct)
  case (1 path w)
  note rd = 1(3) and R = 1(3) [unfolded delete_ready_def] and unch = delete_unchanged [OF 1(3)]
  have d: "is_dir_at (w_root w) (butlast s)" using R node_at_self by blast
  obtain stop w1 where lc: "load_cancelled w = (stop, w1)" by fastforce
  note k1 = load_cancelled_law [OF lc]
  obtain x w2 where ls: "lstat path w1 = (x, w2)" by fastforce
  have k2: "keeps w w2" "w_root w2 = w_root w" using k1 lstat_law [OF ls] by (auto intro: keeps_trans)
  have x: "x = None \<or> x = Some n" using lstat_Some [of path w1 _ w2 s] ls k1 d R by (cases x) auto
  have rd2: "delete_ready path s n w2" using R k2 by (auto simp: delete_ready_def)
  have from2: "delete_done s w2 r v \<Longrightarrow> delete_done s w r v" for r v
    using k2 by (auto simp: delete_done_def intro: keeps_trans)
  show ?case
  proof (cases "stop \<or> x = None")
    case True
    with 1(2) lc ls k1 k2 show ?thesis
      by (auto simp: delete_recursive_cb.simps [of path] intro: unch split: if_splits)
  next
    case False
    with x have go: "\<not> stop" "x = Some n" by auto
    show ?thesis
    proof (cases "is_dir_node n")
      case False
      obtain r w3 where un: "unlink path w2 = (r, w3)" by fastforce
      from 1(2) lc ls go False un have "ret = c_ret r" "w' = bump_done w3"
        by (auto simp: delete_recursive_cb.simps [of path])
      with delete_file_law [OF rd2 un] from2 show ?thesis by simp
    next
      case True
      then obtain es where n: "n = Dir es" by (cases n) (auto simp: is_dir_node_def)
      obtain od w3 where op: "opendir path w2 = (od, w3)" by fastforce
      show ?thesis
      proof (cases od)
        case None
        have "keeps w w3" "w_root w3 = w_root w"
          using opendir_spelled [OF op, of s es] R n k2 by (auto intro: keeps_trans)
        with 1(2) lc ls go True op None show ?thesis
          by (auto simp: delete_recursive_cb.simps [of path] intro: unch)
      next
        case (Some ns)
        obtain r1 w4 where run: "each_entry (\<lambda>c. delete_recursive_cb (path_join path c)) True ns 0 w3 = (r1, w4)" by fastforce
        obtain r2 w5 where rm: "rmdir path w4 = (r2, w5)" by fastforce
        from 1(2) lc ls go True op Some run rm have "ret = (if r2 = None then -1 else r1)" "w' = w5"
          by (auto simp: delete_recursive_cb.simps [of path])
        with from2 delete_loop_law [OF rd2 [unfolded n] op [unfolded Some] run rm]
          1(1) [OF lc [symmetric] go(1) ls [symmetric] go(2) True op [symmetric] Some] show ?thesis by blast
      qed
    qed
  qed
qed

lemma delete_recursive_law:
  "delete_recursive path w = (ret, w') \<Longrightarrow> delete_ready path s n w \<Longrightarrow> delete_done s w ret w'"
proof (induction path w arbitrary: s n ret w' rule: delete_recursive.induct)
  case (1 path w)
  note rd = 1(3) and R = 1(3) [unfolded delete_ready_def] and unch = delete_unchanged [OF 1(3)]
  have d: "is_dir_at (w_root w) (butlast s)" using R node_at_self by blast
  obtain x w2 where ls: "lstat path w = (x, w2)" by fastforce
  note k2 = lstat_law [OF ls]
  have x: "x = None \<or> x = Some n" using lstat_Some [of path w _ w2 s] ls d R by (cases x) auto
  have rd2: "delete_ready path s n w2" using R k2 by (auto simp: delete_ready_def)
  have from2: "delete_done s w2 r v \<Longrightarrow> delete_done s w r v" for r v
    using k2 by (auto simp: delete_done_def intro: keeps_trans)
  show ?case
  proof (cases x)
    case None
    with 1(2) ls k2 show ?thesis by (auto simp: delete_recursive.simps [of path] intro: unch)
  next
    case (Some y)
    with x have go: "x = Some n" by auto
    show ?thesis
    proof (cases "is_dir_node n")
      case False
      obtain r w3 where un: "unlink path w2 = (r, w3)" by fastforce
      from 1(2) ls go False un have "ret = c_ret r" "w' = w3" by (auto simp: delete_recursive.simps [of path])
      with delete_file_law [OF rd2 un] from2 show ?thesis by simp
    next
      case True
      then obtain es where n: "n = Dir es" by (cases n) (auto simp: is_dir_node_def)
      obtain od w3 where op: "opendir path w2 = (od, w3)" by fastforce
      show ?thesis
      proof (cases od)
        case None
        have "keeps w w3" "w_root w3 = w_root w"
          using opendir_spelled [OF op, of s es] R n k2 by (auto intro: keeps_trans)
        with 1(2) ls go True op None show ?thesis by (auto simp: delete_recursive.simps [of path] intro: unch)
      next
        case (Some ns)
        obtain r1 w4 where run: "each_entry (\<lambda>c. delete_recursive (path_join path c)) False ns 0 w3 = (r1, w4)" by fastforce
        obtain r2 w5 where rm: "rmdir path w4 = (r2, w5)" by fastforce
        from 1(2) ls go True op Some run rm have "ret = (if r2 = None then -1 else r1)" "w' = w5"
          by (auto simp: delete_recursive.simps [of path])
        with from2 delete_loop_law [OF rd2 [unfolded n] op [unfolded Some] run rm]
          1(1) [OF ls [symmetric] go True op [symmetric] Some] show ?thesis by blast
      qed
    qed
  qed
qed

end
