(* ===== verification/Fm_Same.thy ===== *)
theory Fm_Same
  imports Fm_Delete
begin

section \<open>The copy with progress and the copy without it\<close>

text \<open>
  \<open>copy_recursive_cb\<close> and \<open>copy_recursive\<close> are two texts of one algorithm. \<open>plain\<close> forgets the
  counters and the cancellation of a state; on a job nobody cancels the two functions return the
  same and leave states that differ in nothing else. What is proved of the one so holds of the
  other.
\<close>

named_theorems same "calls do not depend on the counters"

definition plain :: "world \<Rightarrow> world" where
  "plain w = w\<lparr>w_cancel := None, files_done := 0, files_total := 0, cur_bytes_done := 0,
     cur_bytes_total := 0, total_bytes_done := 0\<rparr>"

lemma plain_fields [simp]:
  "w_root (plain w) = w_root w" "w_pwd (plain w) = w_pwd w" "w_mounts (plain w) = w_mounts w"
  "w_env (plain w) = w_env w" "w_date (plain w) = w_date w" "w_errno (plain w) = w_errno w"
  "w_plan (plain w) = w_plan w" "w_stat_plan (plain w) = w_stat_plan w" "w_cancel (plain w) = None"
  "plain (w\<lparr>w_root := t\<rparr>) = (plain w)\<lparr>w_root := t\<rparr>"
  "plain (w\<lparr>w_errno := e\<rparr>) = (plain w)\<lparr>w_errno := e\<rparr>"
  "plain (w\<lparr>w_plan := p\<rparr>) = (plain w)\<lparr>w_plan := p\<rparr>"
  "plain (w\<lparr>w_stat_plan := q\<rparr>) = (plain w)\<lparr>w_stat_plan := q\<rparr>"
  "plain (bump_done w) = plain w" "plain (add_bytes b n w) = plain w" "plain (start_file b n w) = plain w"
  by (simp_all add: plain_def bump_done_def add_bytes_def start_file_def)

lemma errno_is_plain [simp]: "errno_is e (plain w) = errno_is e w"
  by (simp add: errno_is_def)

lemma file_at_plain [simp]: "file_at (plain w) l = file_at w l"
  by (simp add: file_at_def)

lemma put_at_plain [same]: "put_at l v (plain w) = plain (put_at l v w)"
  by (simp add: put_at_def)

lemma resolve_plain [same]: "resolve f (plain w) p = resolve f w p"
  by (simp add: resolve_def)

lemma failed_plain [same]: "failed e (plain w) = apsnd plain (failed e w)"
  by (simp add: failed_def)

lemma next_fate_plain [same]: "next_fate (plain w) = apsnd plain (next_fate w)"
  by (simp add: next_fate_def split: list.split)

lemma case_apsnd [same]: "(case apsnd f x of (a, b) \<Rightarrow> g a b) = (case x of (a, b) \<Rightarrow> g a (f b))"
  by (cases x) simp

lemma syscall_plain:
  assumes "\<And>w. act (plain w) = map_sum id (apsnd plain) (act w)"
  shows "syscall act (plain w) = apsnd plain (syscall act w)"
  by (auto simp: syscall_def same assms split: prod.split fate.split sum.split)

lemma lstat_plain [same]: "lstat p (plain w) = apsnd plain (lstat p w)"
proof -
  have "failed e (v\<lparr>w_stat_plan := fs\<rparr>) = apsnd plain (failed e (u\<lparr>w_stat_plan := fs\<rparr>)) \<longleftrightarrow> True"
    if "v = plain u" for e v u fs using that by (simp add: failed_def)
  moreover have "resolve False (plain w\<lparr>w_stat_plan := fs\<rparr>) p = resolve False (w\<lparr>w_stat_plan := fs\<rparr>) p" for fs
    using resolve_plain [of False "w\<lparr>w_stat_plan := fs\<rparr>" p] by simp
  ultimately show ?thesis
    by (auto simp: lstat_def same split: list.split option.split sum.split)
qed

lemma calls_plain [same]:
  "mkdir p (plain w) = apsnd plain (mkdir p w)"
  "symlink t p (plain w) = apsnd plain (symlink t p w)"
  "readlink p n (plain w) = apsnd plain (readlink p n w)"
  "unlink p (plain w) = apsnd plain (unlink p w)"
  "rmdir p (plain w) = apsnd plain (rmdir p w)"
  "opendir p (plain w) = apsnd plain (opendir p w)"
  "open_read p (plain w) = apsnd plain (open_read p w)"
  "open_write p (plain w) = apsnd plain (open_write p w)"
  unfolding mkdir_def symlink_def readlink_def unlink_def rmdir_def opendir_def open_read_def open_write_def
  by (rule syscall_plain; auto simp: same split: sum.split option.split node.split)+

lemma rw_plain [same]:
  "sys_read l off n (plain w) = apsnd plain (sys_read l off n w)"
  "sys_write l off s (plain w) = apsnd plain (sys_write l off s w)"
  by (auto simp: sys_read_def sys_write_def same Let_def split: prod.split fate.split option.split node.split
      dest!: next_fate_root)

lemma write_all_plain [same]: "write_all l off s (plain w) = apsnd plain (write_all l off s w)"
proof (induction l off s w rule: write_all.induct)
  case (1 l off s w)
  then show ?case
    by (subst (1 2) write_all.simps) (auto simp: same split: prod.split option.split)
qed

lemma first_unused_plain [same]:
  "first_unused name path i n (plain w) = apsnd plain (first_unused name path i n w)"
proof (induction name path i n w rule: first_unused.induct)
  case (1 name path i n w)
  then show ?case
    by (subst (1 2) first_unused.simps) (auto simp: same split: prod.split option.split)
qed

lemma resolve_conflict_plain [same]: "resolve_conflict dst (plain w) = apsnd plain (resolve_conflict dst w)"
  by (auto simp: resolve_conflict_def same split: prod.split option.split)

subsection \<open>The copies\<close>

text \<open>Without pointers nothing is counted; with them and no cancellation only that is different.\<close>

definition quiet :: "bool \<Rightarrow> world \<Rightarrow> bool" where
  "quiet ptrs w \<longleftrightarrow> ptrs \<longrightarrow> w_cancel w = None"

lemma test_cancel_quiet [same]: "quiet ptrs w \<Longrightarrow> test_cancel ptrs w = (False, w)"
  by (auto simp: quiet_def test_cancel_def load_cancelled_def)

lemma quiet_keeps: "quiet ptrs w \<Longrightarrow> keeps w w' \<Longrightarrow> quiet ptrs w'"
  by (auto simp: quiet_def keeps_def)

lemma quiet_plain [simp]: "quiet False w" "quiet b (plain w)"
  by (simp_all add: quiet_def)

lemma keeps_rw:
  "sys_read l off n w = (r, w') \<Longrightarrow> keeps w w'" "sys_write l off s w = (k, w') \<Longrightarrow> keeps w w'"
proof -
  obtain f v where f: "next_fate w = (f, v)" by fastforce
  then have "keeps w v" by (rule keeps_fate)
  with f show "sys_read l off n w = (r, w') \<Longrightarrow> keeps w w'" "sys_write l off s w = (k, w') \<Longrightarrow> keeps w w'"
    by (auto simp: sys_read_def sys_write_def failed_def Let_def intro: keeps_trans split: fate.splits option.splits node.splits)
qed

lemma keeps_write_all: "write_all l off s w = (ok, w') \<Longrightarrow> keeps w w'"
proof (induction l off s w rule: write_all.induct)
  case (1 l off s w)
  show ?case
  proof (cases "s = []")
    case False
    obtain k v where k: "sys_write l off s w = (k, v)" by fastforce
    with 1 False show ?thesis
      by (cases k) (auto simp: write_all_step dest: keeps_rw(2) intro: keeps_trans)
  qed (use 1 in \<open>simp add: write_all_step\<close>)
qed

lemma copy_bytes_plain:
  "quiet ptrs w \<Longrightarrow> copy_bytes False i out off (plain w) = apsnd plain (copy_bytes ptrs i out off w)"
proof (induction ptrs i out off w rule: copy_bytes.induct)
  case (1 ptrs i out off w)
  obtain r v where r: "sys_read i off 65536 w = (r, v)" by fastforce
  then have qv: "quiet ptrs v" using 1(2) keeps_rw(1) quiet_keeps by blast
  show ?case
  proof (cases "r = None \<or> r = Some []")
    case True
    with r show ?thesis
      by (subst (1 2) copy_bytes.simps) (auto simp: same)
  next
    case False
    then obtain buf where buf: "r = Some buf" "buf \<noteq> []" by auto
    obtain ok u where u: "write_all out off buf v = (ok, u)" by fastforce
    then have "quiet ptrs (add_bytes ptrs (length buf) u)"
      using qv keeps_write_all quiet_keeps by (metis keeps_counters(3))
    moreover have "copy_bytes False i out (off + length buf) (add_bytes False (length buf) (plain u))
      = copy_bytes False i out (off + length buf) (plain (add_bytes ptrs (length buf) u))"
      by (simp add: add_bytes_def [of False])
    ultimately show ?thesis using 1(1) [OF r [symmetric] buf _ _ u [symmetric]] r buf u qv
      by (subst (1 2) copy_bytes.simps) (auto simp: same)
  qed
qed

lemma keeps_copy_bytes: "copy_bytes ptrs i out off w = (r, w') \<Longrightarrow> keeps w w'"
proof (induction ptrs i out off w rule: copy_bytes.induct)
  case (1 ptrs i out off w)
  obtain r1 v where r: "sys_read i off 65536 w = (r1, v)" by fastforce
  note kv = keeps_rw(1) [OF r]
  show ?case
  proof (cases "r1 = None \<or> r1 = Some []")
    case True
    with r kv 1(2) show ?thesis by (auto simp: copy_bytes.simps [of ptrs i out off w])
  next
    case False
    then obtain buf where buf: "r1 = Some buf" "buf \<noteq> []" by auto
    obtain stop x where x: "test_cancel ptrs v = (stop, x)" by fastforce
    obtain ok u where u: "write_all out off buf x = (ok, u)" by fastforce
    have k: "keeps w x" "keeps x u" using kv test_cancel_law [OF x] keeps_write_all [OF u] by (auto intro: keeps_trans)
    then show ?thesis using 1(1) [OF r [symmetric] buf x [symmetric] _ u [symmetric]] 1(2) r buf x u
      by (cases stop; cases ok) (auto simp: copy_bytes.simps [of ptrs i out off w] intro: keeps_trans)
  qed
qed

lemma keeps_syscall:
  assumes "syscall act w = (r, w')" and "\<And>v x v'. act v = Inr (x, v') \<Longrightarrow> keeps v v'"
  shows "keeps w w'"
  using assms(1) by (cases rule: syscallE) (auto dest: assms(2) intro: keeps_trans)

lemma keeps_calls:
  "mkdir p w = (a, w') \<Longrightarrow> keeps w w'" "symlink t p w = (a, w') \<Longrightarrow> keeps w w'"
  "readlink p n w = (b, w') \<Longrightarrow> keeps w w'" "unlink p w = (a, w') \<Longrightarrow> keeps w w'"
  "rmdir p w = (a, w') \<Longrightarrow> keeps w w'" "opendir p w = (ns, w') \<Longrightarrow> keeps w w'"
  "open_read p w = (l, w') \<Longrightarrow> keeps w w'" "open_write p w = (l, w') \<Longrightarrow> keeps w w'"
  unfolding mkdir_def symlink_def readlink_def unlink_def rmdir_def opendir_def open_read_def open_write_def
  by (erule keeps_syscall; auto split: sum.splits option.splits node.splits if_splits)+

lemma keeps_rename: "rename p q w = (a, w') \<Longrightarrow> keeps w w'"
proof -
  have "rename_node n l m v = Inr (x, v') \<Longrightarrow> keeps v v'" for n l m v x v'
    by (auto simp: rename_node_def Let_def keeps_def put_at_def split: option.splits node.splits if_splits)
  then show "rename p q w = (a, w') \<Longrightarrow> keeps w w'" unfolding rename_def
    by (erule_tac keeps_syscall) (auto split: sum.splits option.splits if_splits)
qed

lemma keeps_copy_file: "copy_file_cancellable ptrs src dst w = (r, w') \<Longrightarrow> keeps w w'"
proof -
  assume a: "copy_file_cancellable ptrs src dst w = (r, w')"
  obtain i w1 where 1: "open_read src w = (i, w1)" by fastforce
  note k1 = keeps_calls(7) [OF 1]
  show ?thesis
  proof (cases i)
    case (Some i)
    obtain out w3 where 3: "open_write dst (start_file ptrs (length (file_at w1 i)) w1) = (out, w3)" by fastforce
    have k3: "keeps w w3" using k1 keeps_calls(8) [OF 3] by (metis keeps_counters(7) keeps_trans)
    show ?thesis
    proof (cases out)
      case out: (Some l)
      obtain r4 w4 where 4: "copy_bytes ptrs i l 0 w3 = (r4, w4)" by fastforce
      obtain stop w5 where 5: "test_cancel ptrs w4 = (stop, w5)" by fastforce
      obtain u w6 where 6: "unlink dst w5 = (u, w6)" by fastforce
      have "keeps w w4" "keeps w w5" "keeps w w6" using k3 keeps_copy_bytes [OF 4] test_cancel_law [OF 5] keeps_calls(4) [OF 6]
        by (meson keeps_trans)+
      with a 1 Some 3 out 4 5 6 show ?thesis by (auto simp: copy_file_cancellable_def split: if_splits)
    qed (use a 1 Some 3 k3 in \<open>auto simp: copy_file_cancellable_def\<close>)
  qed (use a 1 k1 in \<open>auto simp: copy_file_cancellable_def\<close>)
qed

lemma copy_file_plain:
  assumes q: "quiet ptrs w"
  shows "copy_file_cancellable False src dst (plain w) = apsnd plain (copy_file_cancellable ptrs src dst w)"
proof -
  obtain i w1 where 1: "open_read src w = (i, w1)" by fastforce
  show ?thesis
  proof (cases i)
    case (Some i)
    define w2 where "w2 = start_file ptrs (length (file_at w1 i)) w1"
    obtain out w3 where 3: "open_write dst w2 = (out, w3)" by fastforce
    have "keeps w w2" using keeps_calls(7) [OF 1] by (simp add: w2_def)
    then have q3: "quiet ptrs w3" using q quiet_keeps keeps_calls(8) [OF 3] by blast
    have p2: "start_file False n (plain w1) = plain w2" for n by (simp add: start_file_def [of False] w2_def)
    show ?thesis
    proof (cases out)
      case out: (Some l)
      obtain r4 w4 where 4: "copy_bytes ptrs i l 0 w3 = (r4, w4)" by fastforce
      have q4: "quiet ptrs w4" using q3 keeps_copy_bytes [OF 4] quiet_keeps by blast
      have "test_cancel False (plain w4) = (False, plain w4)" by (simp add: test_cancel_def)
      with 1 Some 3 out 4 p2 q4 copy_bytes_plain [OF q3, of i l 0] show ?thesis
        by (simp add: copy_file_cancellable_def same w2_def [symmetric])
    qed (use 1 Some 3 p2 in \<open>simp add: copy_file_cancellable_def same w2_def [symmetric]\<close>)
  qed (use 1 in \<open>simp add: copy_file_cancellable_def same\<close>)
qed

lemma keeps_first_unused: "first_unused name path i n w = (r, w') \<Longrightarrow> keeps w w'"
proof (induction name path i n w rule: first_unused.induct)
  case (1 name path i n w)
  obtain x v where x: "lstat (path i) w = (x, v)" by fastforce
  with 1 lstat_law [OF x] show ?case
    by (cases x) (auto simp: first_unused.simps [of name path i n w] split: if_splits intro: keeps_trans)
qed

lemma keeps_resolve_conflict: "resolve_conflict dst w = (r, w') \<Longrightarrow> keeps w w'"
proof -
  assume a: "resolve_conflict dst w = (r, w')"
  obtain x v where x: "lstat dst w = (x, v)" by fastforce
  obtain y u where y: "first_unused (conflict_name dst) (conflict_name dst) 2 1000 v = (y, u)" by fastforce
  from a x y lstat_law [OF x] keeps_first_unused [OF y] show ?thesis
    by (cases x; cases y) (auto simp: resolve_conflict_def intro: keeps_trans)
qed

lemma keeps_each_entry:
  assumes "\<And>c v r v'. c \<in> set ns \<Longrightarrow> f c v = (r, v') \<Longrightarrow> keeps v v'"
  shows "each_entry f ptrs ns ret w = (ret', w') \<Longrightarrow> keeps w w'"
  using assms
proof (induction ns arbitrary: ret w)
  case (Cons c ns)
  obtain b v where b: "test_cancel ptrs w = (b, v)" by fastforce
  obtain r u where r: "f c v = (r, u)" by fastforce
  have k: "keeps w v" "keeps w u" using test_cancel_law [OF b] Cons.prems(2) [of c v r u] r by (auto intro: keeps_trans)
  have ih: "each_entry f ptrs ns ret v = (ret', w') \<Longrightarrow> keeps v w'" for ret v
    by (rule Cons.IH) (auto intro: Cons.prems(2))
  from Cons.prems(1) b r k ih show ?case by (auto split: if_splits intro: keeps_trans)
qed simp

lemma each_entry_plain:
  assumes "\<And>c v. c \<in> set ns \<Longrightarrow> quiet ptrs v \<Longrightarrow> f c (plain v) = apsnd plain (g c v)"
    and "\<And>c v r v'. c \<in> set ns \<Longrightarrow> g c v = (r, v') \<Longrightarrow> keeps v v'" and "quiet ptrs w"
  shows "each_entry f False ns ret (plain w) = apsnd plain (each_entry g ptrs ns ret w)"
  using assms
proof (induction ns arbitrary: ret w)
  case (Cons c ns)
  obtain r u where r: "g c w = (r, u)" by fastforce
  then have "quiet ptrs u" using Cons.prems(2) [of c w r u] Cons.prems(3) quiet_keeps by auto
  moreover have "f c (plain w) = (r, plain u)" using Cons.prems(1) [of c w] Cons.prems(3) r by simp
  moreover have "test_cancel False (plain w) = (False, plain w)" by (simp add: test_cancel_def)
  moreover have "each_entry f False ns ret (plain v) = apsnd plain (each_entry g ptrs ns ret v)" if "quiet ptrs v" for ret v
    using that by (intro Cons.IH) (auto intro: Cons.prems(1,2))
  ultimately show ?case using Cons.prems(3) r by (simp add: same)
qed simp

lemma keeps_copy_recursive_cb: "copy_recursive_cb src dst w = (r, w') \<Longrightarrow> keeps w w'"
proof (induction src dst w arbitrary: r w' rule: copy_recursive_cb.induct)
  case (1 src dst w)
  obtain b w1 where b: "load_cancelled w = (b, w1)" by fastforce
  obtain x w2 where x: "lstat src w1 = (x, w2)" by fastforce
  have k1: "keeps w w1" and k2: "keeps w w2"
    using load_cancelled_law [OF b] lstat_law [OF x] by (auto intro: keeps_trans)
  show ?case
  proof (cases "b \<or> x = None")
    case True
    with 1(2) b x k1 k2 show ?thesis by (auto simp: copy_recursive_cb.simps [of src dst w] split: if_splits)
  next
    case False
    then obtain n where n: "\<not> b" "x = Some n" by auto
    show ?thesis
    proof (cases n)
      case (Reg c)
      obtain q w3 where "copy_file_cancellable True src dst w2 = (q, w3)" by fastforce
      with 1(2) b x n Reg k2 keeps_copy_file show ?thesis
        by (auto simp: copy_recursive_cb.simps [of src dst w] intro: keeps_trans)
    next
      case (Lnk t)
      obtain y w3 where y: "readlink src (path_max - 1) w2 = (y, w3)" by fastforce
      obtain d w4 where d: "resolve_conflict dst w3 = (d, w4)" by fastforce
      obtain q w5 where q: "symlink (the y) d w4 = (q, w5)" by fastforce
      have "keeps w w3" "keeps w w5"
        using k2 keeps_calls(3) [OF y] keeps_resolve_conflict [OF d] keeps_calls(2) [OF q] by (meson keeps_trans)+
      with 1(2) b x n Lnk y d q show ?thesis
        by (cases y) (auto simp: copy_recursive_cb.simps [of src dst w])
    next
      case (Dir es)
      obtain m w3 where m: "mkdir dst w2 = (m, w3)" by fastforce
      obtain od w4 where od: "opendir src w3 = (od, w4)" by fastforce
      have k: "keeps w w3" "keeps w w4" using k2 keeps_calls(1) [OF m] keeps_calls(6) [OF od] by (meson keeps_trans)+
      show ?thesis
      proof (cases "m = None \<and> \<not> errno_is EEXIST w3 \<or> od = None")
        case True
        with 1(2) b x n Dir m od k show ?thesis
          by (auto simp: copy_recursive_cb.simps [of src dst w] split: if_splits)
      next
        case False
        then obtain ns where ns: "\<not> (m = None \<and> \<not> errno_is EEXIST w3)" "od = Some ns" by auto
        let ?f = "\<lambda>c w. case resolve_conflict (path_join dst c) w of (d, w) \<Rightarrow> copy_recursive_cb (path_join src c) d w"
        from 1(2) b x n Dir m od ns have run: "each_entry ?f True ns 0 w4 = (r, w')"
          by (auto simp: copy_recursive_cb.simps [of src dst w])
        have "keeps w4 w'"
        proof (rule keeps_each_entry [OF _ run])
          fix c v q v'
          assume c: "c \<in> set ns" "?f c v = (q, v')"
          obtain d u where d: "resolve_conflict (path_join dst c) v = (d, u)" by fastforce
          have "keeps u v'"
            using 1(1) [OF b [symmetric] n(1) x [symmetric] n(2) Dir m [symmetric] ns(1) od [symmetric] ns(2) c(1) d [symmetric]]
              c(2) d by simp
          then show "keeps v v'" using keeps_resolve_conflict [OF d] by (blast intro: keeps_trans)
        qed
        with k show ?thesis by (blast intro: keeps_trans)
      qed
    qed
  qed
qed

lemma load_cancelled_none [same]: "w_cancel w = None \<Longrightarrow> load_cancelled w = (False, w)"
  by (simp add: load_cancelled_def)

lemma child_plain:
  assumes "\<And>d y. resolve_conflict dst v = (d, y) \<Longrightarrow> f d (plain y) = apsnd plain (g d y)"
  shows "(case resolve_conflict dst (plain v) of (d, w) \<Rightarrow> f d w)
    = apsnd plain (case resolve_conflict dst v of (d, w) \<Rightarrow> g d w)"
  using assms by (cases "resolve_conflict dst v") (simp add: same)

lemma copy_recursive_cb_plain:
  "w_cancel w = None \<Longrightarrow> copy_recursive src dst (plain w) = apsnd plain (copy_recursive_cb src dst w)"
proof (induction src dst w rule: copy_recursive_cb.induct)
  case (1 src dst w)
  have lc: "load_cancelled w = (False, w)" using 1(2) by (rule load_cancelled_none)
  obtain x w2 where x: "lstat src w = (x, w2)" by fastforce
  have q2: "w_cancel w2 = None" using lstat_law [OF x] 1(2) by (simp add: keeps_def)
  show ?case
  proof (cases x)
    case None
    with lc x show ?thesis by (simp add: copy_recursive.simps [of src] copy_recursive_cb.simps [of src] same)
  next
    case n: (Some n)
    show ?thesis
    proof (cases n)
      case (Reg c)
      then show ?thesis using lc x n q2 copy_file_plain [of True w2 src dst]
        by (simp add: copy_recursive.simps [of src] copy_recursive_cb.simps [of src] copy_file_def quiet_def same
            split: prod.split)
    next
      case (Lnk t)
      then show ?thesis using lc x n
        by (simp add: copy_recursive.simps [of src] copy_recursive_cb.simps [of src] same split: prod.split option.split)
    next
      case (Dir es)
      obtain m w3 where m: "mkdir dst w2 = (m, w3)" by fastforce
      obtain od w4 where od: "opendir src w3 = (od, w4)" by fastforce
      have q4: "quiet True w4" using q2 keeps_calls(1) [OF m] keeps_calls(6) [OF od] by (simp add: quiet_def keeps_def)
      show ?thesis
      proof (cases "m = None \<and> \<not> errno_is EEXIST w3 \<or> od = None")
        case True
        then show ?thesis using lc x n Dir m od
          by (auto simp: copy_recursive.simps [of src] copy_recursive_cb.simps [of src] same)
      next
        case False
        then obtain ns where ns: "\<not> (m = None \<and> \<not> errno_is EEXIST w3)" "od = Some ns" by auto
        let ?f = "\<lambda>c w. case resolve_conflict (path_join dst c) w of (d, w) \<Rightarrow> copy_recursive (path_join src c) d w"
        let ?g = "\<lambda>c w. case resolve_conflict (path_join dst c) w of (d, w) \<Rightarrow> copy_recursive_cb (path_join src c) d w"
        have "each_entry ?f False ns 0 (plain w4) = apsnd plain (each_entry ?g True ns 0 w4)"
        proof (rule each_entry_plain [OF _ _ q4])
          fix c v
          assume c: "c \<in> set ns" and q: "quiet True v"
          show "?f c (plain v) = apsnd plain (?g c v)"
          proof (rule child_plain)
            fix d y
            assume d: "resolve_conflict (path_join dst c) v = (d, y)"
            then have "w_cancel y = None" using q keeps_resolve_conflict [OF d] by (simp add: quiet_def keeps_def)
            then show "copy_recursive (path_join src c) d (plain y) = apsnd plain (copy_recursive_cb (path_join src c) d y)"
              using 1(1) [OF lc [symmetric] _ x [symmetric] n Dir m [symmetric] ns(1) od [symmetric] ns(2) c d [symmetric]] by simp
          qed
        next
          fix c v r v'
          assume "?g c v = (r, v')"
          then show "keeps v v'" by (auto split: prod.splits dest!: keeps_resolve_conflict keeps_copy_recursive_cb intro: keeps_trans)
        qed
        then show ?thesis using lc x n Dir m od ns
          by (auto simp: copy_recursive.simps [of src] copy_recursive_cb.simps [of src] same)
      qed
    qed
  qed
qed

lemma copy_recursive_plain: "copy_recursive src dst (plain w) = apsnd plain (copy_recursive src dst w)"
proof (induction src dst w rule: copy_recursive.induct)
  case (1 src dst w)
  obtain x w2 where x: "lstat src w = (x, w2)" by fastforce
  show ?case
  proof (cases x)
    case None
    with x show ?thesis by (simp add: copy_recursive.simps [of src] same)
  next
    case n: (Some n)
    show ?thesis
    proof (cases n)
      case (Reg c)
      then show ?thesis using x n copy_file_plain [of False w2 src dst]
        by (simp add: copy_recursive.simps [of src] copy_file_def same)
    next
      case (Lnk t)
      then show ?thesis using x n by (simp add: copy_recursive.simps [of src] same split: prod.split option.split)
    next
      case (Dir es)
      obtain m w3 where m: "mkdir dst w2 = (m, w3)" by fastforce
      obtain od w4 where od: "opendir src w3 = (od, w4)" by fastforce
      show ?thesis
      proof (cases "m = None \<and> \<not> errno_is EEXIST w3 \<or> od = None")
        case True
        then show ?thesis using x n Dir m od by (auto simp: copy_recursive.simps [of src] same)
      next
        case False
        then obtain ns where ns: "\<not> (m = None \<and> \<not> errno_is EEXIST w3)" "od = Some ns" by auto
        let ?f = "\<lambda>c w. case resolve_conflict (path_join dst c) w of (d, w) \<Rightarrow> copy_recursive (path_join src c) d w"
        have "each_entry ?f False ns ret (plain v) = apsnd plain (each_entry ?f False ns ret v)" for ret v
        proof -
          have "c \<in> set ns \<Longrightarrow> ?f c (plain v) = apsnd plain (?f c v)" for c v
            by (rule child_plain)
              (rule 1 [OF x [symmetric] n Dir m [symmetric] ns(1) od [symmetric] ns(2) _ sym])
          then have "set ks \<subseteq> set ns \<Longrightarrow> each_entry ?f False ks ret (plain v) = apsnd plain (each_entry ?f False ks ret v)" for ks
            by (induction ks arbitrary: ret v) (auto simp: test_cancel_def same split: prod.split)
          then show ?thesis by simp
        qed
        then show ?thesis using x n Dir m od ns by (auto simp: copy_recursive.simps [of src] same)
      qed
    qed
  qed
qed

lemma copy_recursive_law:
  assumes run: "copy_recursive src dst w = (ret, w')" and rd: "copy_ready src s dst d n w"
  shows "\<exists>v. w_root w' = alter d v (w_root w) \<and> (ret = 0 \<longrightarrow> v = Some n)"
proof -
  obtain r v where cb: "copy_recursive_cb src dst (plain w) = (r, v)" by fastforce
  have pp: "plain (plain w) = plain w" by (simp add: plain_def)
  have "copy_recursive src dst (plain w) = (r, plain v)"
    using copy_recursive_cb_plain [of "plain w" src dst] cb pp by simp
  then have "r = ret" and pv: "plain v = plain w'" using copy_recursive_plain [of src dst w] run by simp_all
  moreover have "w_root v = w_root w'" using arg_cong [OF pv, of w_root] by simp
  moreover have "copy_ready src s dst d n (plain w)" using rd by (simp add: copy_ready_def)
  with copy_recursive_cb_law [OF cb] have "copy_done d n (plain w) r v" .
  ultimately show ?thesis by (auto simp: copy_done_def)
qed

end
