(* ===== verification/Fm_Names.thy ===== *)
theory Fm_Names
  imports Fm_Same
begin

section \<open>Unused names and moving\<close>

text \<open>
  What \<open>resolve_conflict\<close> returns is a name in the same directory that no entry has, unless all
  998 numbered names are taken or the path is too long for any call. With it the laws of the
  copies give those of the public functions, and with the law of \<^verbatim>\<open>rename\<close> that of moving.
\<close>

definition numbered :: "cstr \<Rightarrow> nat \<Rightarrow> cstr" where
  "numbered b i = (case split_ext b of (name, ext) \<Rightarrow> name @ '' ('' @ dec_of_nat i @ '')'' @ ext)"

lemma base_of_join: "CHR ''/'' \<notin> set b \<Longrightarrow> base_of (path_join d b) = b"
proof -
  assume b: "CHR ''/'' \<notin> set b"
  then have "takeWhile (\<lambda>x. x \<noteq> CHR ''/'') (rev b @ CHR ''/'' # rev d) = rev b"
    by (subst takeWhile_append2) auto
  then show ?thesis by (simp add: base_of_def strrchr_after_def path_join_def)
qed

lemma dir_part_join: "CHR ''/'' \<notin> set b \<Longrightarrow> dir_part (path_join d b) = d @ ''/''"
  by (simp add: dir_part_def base_of_join) (simp add: path_join_def)

lemma split_ext_join: "split_ext b = (n, e) \<Longrightarrow> b = n @ e"
  by (auto simp: split_ext_def strchr_split_Some split: option.splits)

lemma conflict_name_join:
  assumes "CHR ''/'' \<notin> set b" and "i < 1000"
  shows "conflict_name (path_join d b) i = path_join d (numbered b i)"
proof -
  obtain n e where ne: "split_ext b = (n, e)" by fastforce
  have "length (dec_of_nat i) \<le> 3" using assms(2) by (intro length_dec_of_nat) auto
  moreover have "conflict_name (path_join d b) i =
    snprintf (length (d @ ''/'') + length n + 8 + length e + 1) ((d @ ''/'') @ n @ '' ('' @ dec_of_nat i @ '')'' @ e)"
    using assms ne by (simp add: conflict_name_def base_of_join dir_part_join)
  ultimately have "conflict_name (path_join d b) i = (d @ ''/'') @ n @ '' ('' @ dec_of_nat i @ '')'' @ e"
    by (simp add: snprintf_fits)
  then show ?thesis using ne by (simp add: numbered_def path_join_def)
qed

lemma dec_chars: "c \<in> set (dec_of_nat n) \<Longrightarrow> 48 \<le> (of_char c :: nat) \<and> (of_char c :: nat) \<le> 57"
proof (induction n rule: dec_of_nat.induct)
  case (1 n)
  then show ?case
    by (subst (asm) (2) dec_of_nat.simps)
      (auto simp: digit_char_def of_char_of split: if_splits)
qed

lemma name_ok_numbered: "name_ok b \<Longrightarrow> name_ok (numbered b i)"
proof -
  assume b: "name_ok b"
  obtain n e where ne: "split_ext b = (n, e)" by fastforce
  have "CHR ''/'' \<notin> set (dec_of_nat i)" using dec_chars [of "CHR ''/''" i] by auto
  moreover have "CHR ''/'' \<notin> set n" "CHR ''/'' \<notin> set e" using b split_ext_join [OF ne] by (auto simp: name_ok_def)
  moreover have "CHR '' '' \<in> set (numbered b i)" using ne by (simp add: numbered_def)
  ultimately show ?thesis using ne by (auto simp: name_ok_def numbered_def)
qed

lemma first_unused_law:
  assumes "first_unused name path i n w = (r, w')"
  shows "w_root w' = w_root w \<and> (\<forall>c. r = Some c \<longrightarrow> (\<exists>j v x. i \<le> j \<and> j < n \<and> c = name j \<and>
      w_root v = w_root w \<and> keeps w v \<and> lstat (path j) v = (None, x))) \<and>
    (r = None \<longrightarrow> (\<forall>j. i \<le> j \<and> j < n \<longrightarrow> (\<exists>v x y. w_root v = w_root w \<and> keeps w v \<and> lstat (path j) v = (Some x, y))))"
  using assms
proof (induction name path i n w arbitrary: r w' rule: first_unused.induct)
  case (1 name path i n w)
  show ?case
  proof (cases "n \<le> i")
    case True
    with 1(2) show ?thesis by (auto simp: first_unused.simps [of name path i n w])
  next
    case False
    obtain x v where x: "lstat (path i) w = (x, v)" by fastforce
    note k = lstat_law [OF x]
    show ?thesis
    proof (cases x)
      case None
      with 1(2) x False have "r = Some (name i)" "w' = v" by (auto simp: first_unused.simps [of name path i n w])
      moreover have "\<exists>j u y. i \<le> j \<and> j < n \<and> name i = name j \<and> w_root u = w_root w \<and> keeps w u \<and> lstat (path j) u = (None, y)"
        using x None False by (intro exI [of _ i] exI [of _ w] exI [of _ v]) auto
      ultimately show ?thesis using k by auto
    next
      case (Some m)
      with 1(2) x False have "first_unused name path (Suc i) n v = (r, w')"
        by (simp add: first_unused.simps [of name path i n w])
      note ih = 1(1) [OF False x [symmetric] Some this]
      show ?thesis
      proof (intro conjI allI impI)
        show "w_root w' = w_root w" using ih k by simp
      next
        fix c
        assume "r = Some c"
        with ih k show "\<exists>j v x. i \<le> j \<and> j < n \<and> c = name j \<and> w_root v = w_root w \<and> keeps w v \<and> lstat (path j) v = (None, x)"
          by (metis Suc_leD keeps_trans)
      next
        fix j
        assume r: "r = None" and j: "i \<le> j \<and> j < n"
        show "\<exists>v x y. w_root v = w_root w \<and> keeps w v \<and> lstat (path j) v = (Some x, y)"
        proof (cases "j = i")
          case True
          then show ?thesis using x Some keeps_refl by blast
        next
          case False
          with ih r j k show ?thesis by (metis Suc_leI le_neq_implies_less keeps_trans)
        qed
      qed
    qed
  qed
qed

text \<open>\<open>free_name\<close>: one of the numbered names of \<open>b\<close> is not in use.\<close>

definition free_name :: "node \<Rightarrow> loc \<Rightarrow> cstr \<Rightarrow> bool" where
  "free_name t d b \<longleftrightarrow> node_at t (d @ [b]) = None \<or> (\<exists>i. 2 \<le> i \<and> i < 1000 \<and> node_at t (d @ [numbered b i]) = None)"

lemma resolve_conflict_law:
  assumes run: "resolve_conflict (path_join dir b) w = (c, w')" and "spells dir d" and "name_ok b"
    and "is_dir_at (w_root w) d" and st: "w_stat_plan w = []" and fr: "free_name (w_root w) d b"
  obtains b' where "c = path_join dir b'" "name_ok b'" "spells c (d @ [b'])" "w_root w' = w_root w" "keeps w w'"
    "too_long c \<or> node_at (w_root w) (d @ [b']) = None"
proof -
  have sp: "spells (path_join dir k) (d @ [k])" if "name_ok k" for k using that assms(2) by blast
  have look: "r = (if too_long (path_join dir k) then None else node_at (w_root w) (d @ [k]))"
    if "lstat (path_join dir k) v = (r, u)" "name_ok k" "keeps w v" "w_root v = w_root w" for k v r u
    using lstat_spelled [OF that(1) sp [OF that(2)]] that assms(4) st by (auto simp: keeps_def)
  obtain x v where x: "lstat (path_join dir b) w = (x, v)" by fastforce
  note k = lstat_law [OF x] and lb = look [OF x assms(3) keeps_refl refl]
  show ?thesis
  proof (cases x)
    case None
    with run x have "c = path_join dir b" "w' = v" by (auto simp: resolve_conflict_def)
    with k lb None assms(3) sp that [of b] show ?thesis by (auto split: if_splits)
  next
    case (Some m)
    have cn: "conflict_name (path_join dir b) i = path_join dir (numbered b i)" if "i < 1000" for i
      using conflict_name_join [OF _ that] assms(3) by (simp add: name_ok_def)
    let ?cn = "conflict_name (path_join dir b)"
    obtain y u where y: "first_unused ?cn ?cn 2 1000 v = (y, u)" by fastforce
    note f = first_unused_law [OF y] and ku = keeps_first_unused [OF y]
    show ?thesis
    proof (cases y)
      case None
      from fr lb Some obtain i where i: "2 \<le> i" "i < 1000" "node_at (w_root w) (d @ [numbered b i]) = None"
        by (auto simp: free_name_def split: if_splits)
      with f None obtain v' x' y' where "w_root v' = w_root v" "keeps v v'" "lstat (?cn i) v' = (Some x', y')" by blast
      moreover from this(2) k have "keeps w v'" by (auto intro: keeps_trans)
      ultimately have False using look [of "numbered b i" v' "Some x'" y'] cn [OF i(2)] i k name_ok_numbered [OF assms(3)]
        by (auto split: if_splits)
      then show ?thesis ..
    next
      case cc: (Some c')
      with f obtain j v' x' where j: "j < 1000" "c' = ?cn j" "w_root v' = w_root v" "keeps v v'" "lstat (?cn j) v' = (None, x')" by blast
      moreover from j(4) k have "keeps w v'" by (auto intro: keeps_trans)
      ultimately have "too_long c' \<or> node_at (w_root w) (d @ [numbered b j]) = None" using look [of "numbered b j" v' None x'] cn [OF j(1)] k name_ok_numbered [OF assms(3)]
        by (auto split: if_splits)
      moreover have "c = c'" "w' = u" using run x Some y cc by (auto simp: resolve_conflict_def)
      ultimately show ?thesis using j cn f k ku name_ok_numbered [OF assms(3)] sp that [of "numbered b j"]
        by (auto intro: keeps_trans)
    qed
  qed
qed

subsection \<open>Copying to an unused name\<close>

lemma resolve_too_long: "too_long p \<Longrightarrow> p \<noteq> [] \<Longrightarrow> resolve f w p = Inl ENAMETOOLONG"
  by (auto simp: too_long_def resolve_def)

lemma too_long_calls:
  assumes "too_long p" and "p \<noteq> []"
  shows "mkdir p w = (r, w') \<Longrightarrow> r = None \<and> \<not> errno_is EEXIST w' \<and> w_root w' = w_root w"
    and "symlink t p w = (r, w') \<Longrightarrow> r = None \<and> w_root w' = w_root w"
    and "open_write p w = (l, w') \<Longrightarrow> l = None \<and> w_root w' = w_root w"
    and "lstat p w = (x, w') \<Longrightarrow> x = None"
  unfolding mkdir_def symlink_def open_write_def
  by ((erule syscallE; force simp: resolve_too_long [OF assms] errno_is_def split: if_splits),
      (erule syscallE; force simp: resolve_too_long [OF assms] split: if_splits),
      (erule syscallE; force simp: resolve_too_long [OF assms] split: if_splits),
      auto simp: lstat_def failed_def resolve_too_long [OF assms] split: list.splits option.splits)

lemma copy_too_long:
  assumes run: "copy_recursive_cb src dst w = (ret, w')" and tl: "too_long dst" "dst \<noteq> []"
    and "spells src s" and "node_at (w_root w) s = Some n" and "s \<noteq> []"
  shows "ret \<noteq> 0 \<and> w_root w' = w_root w"
proof -
  have d: "is_dir_at (w_root w) (butlast s)" using assms node_at_self by blast
  obtain b w1 where b: "load_cancelled w = (b, w1)" by fastforce
  obtain x w2 where x: "lstat src w1 = (x, w2)" by fastforce
  have r: "w_root w1 = w_root w" "w_root w2 = w_root w" using load_cancelled_law [OF b] lstat_law [OF x] by auto
  show ?thesis
  proof (cases "b \<or> x = None")
    case True
    with run b x r show ?thesis by (auto simp: copy_recursive_cb.simps [of src dst w] split: if_splits)
  next
    case False
    then obtain m where m: "\<not> b" "x = Some m" by auto
    then have m': "m = n" using lstat_Some [of src w1 m w2 s] x r d assms by simp
    show ?thesis
    proof (cases m)
      case (Reg c)
      obtain i w3 where i: "open_read src w2 = (i, w3)" by fastforce
      obtain out w4 where o: "open_write dst (start_file True (length (file_at w3 (the i))) w3) = (out, w4)" by fastforce
      have "w_root w3 = w_root w" using open_read_spelled [OF i, of s c] assms(4,5) m' Reg r d by simp
      with too_long_calls(3) [OF tl o] show ?thesis using run b x m Reg i o
        by (cases i) (auto simp: copy_recursive_cb.simps [of src dst w] copy_file_cancellable_def)
    next
      case (Lnk t)
      obtain y w3 where y: "readlink src (path_max - 1) w2 = (y, w3)" by fastforce
      obtain z w4 where z: "lstat dst w3 = (z, w4)" by fastforce
      obtain q w5 where q: "symlink (the y) dst w4 = (q, w5)" by fastforce
      have "resolve_conflict dst w3 = (dst, w4)" using too_long_calls(4) [OF tl z] z by (simp add: resolve_conflict_def)
      moreover have "w_root w3 = w_root w" using readlink_spelled [OF y, of s] assms(4) r d by simp
      moreover have "w_root w4 = w_root w3" using lstat_law [OF z] by simp
      ultimately show ?thesis using run b x m Lnk y too_long_calls(2) [OF tl q] q
        by (cases y) (auto simp: copy_recursive_cb.simps [of src dst w] c_ret_def)
    next
      case (Dir es)
      obtain q w3 where q: "mkdir dst w2 = (q, w3)" by fastforce
      with run b x m Dir too_long_calls(1) [OF tl q] r show ?thesis
        by (auto simp: copy_recursive_cb.simps [of src dst w])
    qed
  qed
qed

text \<open>
  A copy into the directory \<open>d\<close>: nothing but one new entry of \<open>d\<close> changes, and on success that
  entry is the tree that was copied.
\<close>

lemma copy_progress_law:
  assumes run: "fileops_copy_progress src (path_join dir b) w = (ret, w')"
    and src: "spells src s" "s \<noteq> []" "node_at (w_root w) s = Some n" "tree_ok n"
    and dst: "spells dir d" "is_dir_at (w_root w) d" "name_ok b" "\<not> prefix s d"
    and st: "w_stat_plan w = []" and fr: "free_name (w_root w) d b"
  shows "ret \<noteq> 0 \<and> w_root w' = w_root w \<or> keeps w w' \<and>
    (\<exists>b' v. name_ok b' \<and> node_at (w_root w) (d @ [b']) = None \<and> w_root w' = alter (d @ [b']) v (w_root w) \<and>
      (ret = 0 \<longrightarrow> v = Some n))"
proof -
  obtain c w1 where rc: "resolve_conflict (path_join dir b) w = (c, w1)" by fastforce
  with run have cb: "copy_recursive_cb src c w1 = (ret, w')" by (simp add: fileops_copy_progress_def)
  obtain b' where b': "name_ok b'" "spells c (d @ [b'])" and w1: "w_root w1 = w_root w" "keeps w w1"
    and f: "too_long c \<or> node_at (w_root w) (d @ [b']) = None"
    using resolve_conflict_law [OF rc dst(1,3,2) st fr] by metis
  show ?thesis
  proof (cases "too_long c")
    case True
    then show ?thesis using copy_too_long [OF cb _ _ src(1)] src w1 spells_ne [OF b'(2)] by simp
  next
    case False
    with f have new: "node_at (w_root w) (d @ [b']) = None" by simp
    have "\<not> prefix s (d @ [b'])" using dst(4) src(3) new by (auto simp: prefix_snoc)
    then have "copy_ready src s c (d @ [b']) n w1"
      using src dst b' w1 new st by (auto simp: copy_ready_def keeps_def)
    from copy_recursive_cb_law [OF cb this] w1 new b'(1) show ?thesis
      by (auto simp: copy_done_def intro: keeps_trans)
  qed
qed

subsection \<open>Renaming\<close>

lemma rename_spelled:
  assumes run: "rename old new w = (r, w')" and old: "spells old l" "l \<noteq> []" "node_at (w_root w) l = Some n"
    and new: "spells new m" "m \<noteq> []" "is_dir_at (w_root w) (butlast m)"
  shows "keeps w w'" and "r = None \<Longrightarrow> w_root w' = w_root w"
    and "r = Some () \<Longrightarrow> l = m \<and> w_root w' = w_root w \<or>
      \<not> prefix l m \<and> w_root w' = alter m (Some n) (alter l None (w_root w)) \<and>
      (\<forall>k. node_at (w_root w) m = Some k \<longrightarrow> k = Dir [] \<or> \<not> is_dir_node k)"
    and "errno_is EXDEV w' \<Longrightarrow> r = None \<Longrightarrow> dev_of (w_mounts w) (butlast l) \<noteq> dev_of (w_mounts w) (butlast m)"
proof -
  have d: "is_dir_at (w_root w) (butlast l)" using old node_at_self by blast
  have R: "resolve False v old = (if too_long old then Inl ENAMETOOLONG else Inr l)"
    "resolve False v new = (if too_long new then Inl ENAMETOOLONG else Inr m)" if "w_root v = w_root w" for v
    using resolve_spelled [OF old(1), of v False] resolve_spelled [OF new(1), of v False] that d new by auto
  show "keeps w w'" using run by (rule keeps_rename)
  have *: "(r = None \<longrightarrow> w_root w' = w_root w) \<and>
    (r = Some () \<longrightarrow> l = m \<and> w_root w' = w_root w \<or>
      \<not> prefix l m \<and> w_root w' = alter m (Some n) (alter l None (w_root w)) \<and>
      (\<forall>k. node_at (w_root w) m = Some k \<longrightarrow> k = Dir [] \<or> \<not> is_dir_node k)) \<and>
    (errno_is EXDEV w' \<longrightarrow> r = None \<longrightarrow> dev_of (w_mounts w) (butlast l) \<noteq> dev_of (w_mounts w) (butlast m))"
    using run unfolding rename_def
  proof (cases rule: syscallE)
    case (plan k v)
    then show ?thesis by (auto simp: errno_is_def)
  next
    case (refused e v)
    then have "w_mounts v = w_mounts w" by (simp add: keeps_def)
    with refused R [of v] old show ?thesis
      by (auto simp: errno_is_def rename_node_def Let_def split: if_splits option.splits node.splits)
  next
    case (ok v x)
    with R [of v] old show ?thesis
      by (auto simp: rename_node_def Let_def put_at_def is_dir_node_def strict_prefix_def
          split: if_splits option.splits node.splits)
  qed
  from * show "r = None \<Longrightarrow> w_root w' = w_root w"
    "r = Some () \<Longrightarrow> l = m \<and> w_root w' = w_root w \<or>
      \<not> prefix l m \<and> w_root w' = alter m (Some n) (alter l None (w_root w)) \<and>
      (\<forall>k. node_at (w_root w) m = Some k \<longrightarrow> k = Dir [] \<or> \<not> is_dir_node k)"
    "errno_is EXDEV w' \<Longrightarrow> r = None \<Longrightarrow> dev_of (w_mounts w) (butlast l) \<noteq> dev_of (w_mounts w) (butlast m)"
    by auto
qed

end
