(* ===== verification/Fm_Exec.thy ===== *)
theory Fm_Exec
  imports Fm_Names
begin

section \<open>What a job does\<close>

text \<open>
  The five \<^verbatim>\<open>exec_\<close> functions of \<^verbatim>\<open>fm/src/jobqueue.c\<close>. A job starts with all its counters 0
  and no error, keeps the error of the first item that failed, and looks at the cancellation flag
  before each item. For a move it is shown that no tree is lost: after an item that failed the
  tree is where it was, after one that succeeded it is in the target directory.
\<close>

fun count_all :: "cstr list \<Rightarrow> int \<Rightarrow> world \<Rightarrow> int \<times> world" where
  "count_all [] k w = (k, w)"
| "count_all (p # ps) k w = (case fileops_count_files p w of (n, w) \<Rightarrow> count_all ps (k + n) w)"

fun exec_items ::
  "(cstr \<Rightarrow> world \<Rightarrow> int \<times> world) \<Rightarrow> cstr list \<Rightarrow> errno option \<Rightarrow> world \<Rightarrow> errno option \<times> world" where
  "exec_items f [] err w = (err, w)"
| "exec_items f (p # ps) err w =
     (case load_cancelled w of (stop, w) \<Rightarrow>
        if stop then (err, w)
        else (case f p w of (ret, w) \<Rightarrow>
          exec_items f ps (if ret \<noteq> 0 \<and> err = None then w_errno w else err) w))"

definition exec_copy :: "cstr list \<Rightarrow> cstr \<Rightarrow> world \<Rightarrow> errno option \<times> world" where
  "exec_copy srcs dst w = (case count_all srcs 0 w of (k, w) \<Rightarrow>
     exec_items (\<lambda>src. fileops_copy_progress src (path_join dst (base_of src))) srcs None
       (w\<lparr>files_total := k\<rparr>))"

definition count_done :: "cstr \<Rightarrow> world \<Rightarrow> world" where
  "count_done p w = (case fileops_count_files p w of (n, w) \<Rightarrow> w\<lparr>files_done := files_done w + n\<rparr>)"

definition move_item :: "cstr \<Rightarrow> cstr \<Rightarrow> world \<Rightarrow> int \<times> world" where
  "move_item dst src w =
     (let dest = path_join dst (base_of src) in
      if src = dest then (0, count_done src w)
      else case rename src dest w of
        (Some _, w) \<Rightarrow> (0, count_done dest w)
      | (None, w) \<Rightarrow>
          if errno_is EXDEV w then
            (case fileops_copy_progress src dest w of (ret, w) \<Rightarrow>
               if ret = 0 then (ret, snd (fileops_delete src w)) else (ret, w))
          else (-1, w))"

definition exec_move :: "cstr list \<Rightarrow> cstr \<Rightarrow> world \<Rightarrow> errno option \<times> world" where
  "exec_move srcs dst w = (case count_all srcs 0 w of (k, w) \<Rightarrow>
     exec_items (move_item dst) srcs None (w\<lparr>files_total := k\<rparr>))"

definition exec_delete :: "cstr list \<Rightarrow> world \<Rightarrow> errno option \<times> world" where
  "exec_delete srcs w = (case count_all srcs 0 w of (k, w) \<Rightarrow>
     exec_items fileops_delete_progress srcs None (w\<lparr>files_total := k\<rparr>))"

definition exec_trash :: "cstr list \<Rightarrow> world \<Rightarrow> errno option \<times> world" where
  "exec_trash srcs w =
     exec_items (\<lambda>src w. case fileops_trash src w of (ret, w) \<Rightarrow> (ret, bump_done w)) srcs None
       (w\<lparr>files_total := int (length srcs)\<rparr>)"

definition exec_empty_trash :: "world \<Rightarrow> errno option \<times> world" where
  "exec_empty_trash w = (case fileops_empty_trash (w\<lparr>files_total := 1\<rparr>) of (ret, w) \<Rightarrow>
     (if ret \<noteq> 0 then w_errno w else None, w\<lparr>files_done := 1\<rparr>))"

subsection \<open>Moving loses nothing\<close>

lemma sum_entries_root:
  assumes "\<And>c v r v'. c \<in> set ns \<Longrightarrow> f c v = (r, v') \<Longrightarrow> w_root v' = w_root v"
  shows "sum_entries f ns t w = (r, w') \<Longrightarrow> w_root w' = w_root w"
  using assms
proof (induction ns arbitrary: t w)
  case (Cons c ns)
  obtain q v where q: "f c w = (q, v)" by fastforce
  have "sum_entries f ns t w = (r, w') \<Longrightarrow> w_root w' = w_root w" for t w
    by (rule Cons.IH) (auto intro: Cons.prems(2))
  with Cons.prems q show ?case by (fastforce split: if_splits)
qed simp

lemma opendir_root: "opendir p w = (r, w') \<Longrightarrow> w_root w' = w_root w"
  unfolding opendir_def by (erule syscallE) (auto split: sum.splits option.splits node.splits)

lemma count_root: "count_recursive p w = (r, w') \<Longrightarrow> w_root w' = w_root w"
proof (induction p w arbitrary: r w' rule: count_recursive.induct)
  case (1 p w)
  obtain x v where x: "lstat p w = (x, v)" by fastforce
  obtain y u where y: "opendir p v = (y, u)" by fastforce
  note k = lstat_law [OF x] opendir_root [OF y]
  show ?case
  proof (cases "\<exists>n ns. x = Some n \<and> is_dir_node n \<and> y = Some ns")
    case False
    with 1(2) x y k show ?thesis
      by (cases x; cases y) (auto simp: count_recursive.simps [of p w] split: if_splits)
  next
    case True
    then obtain n ns where n: "x = Some n" "is_dir_node n" "y = Some ns" by blast
    with 1(2) x y have "sum_entries (\<lambda>c. count_recursive (path_join p c)) ns 0 u = (r, w')"
      by (simp add: count_recursive.simps [of p w])
    then have "w_root w' = w_root u"
      by (rule sum_entries_root [rotated]) (use 1(1) [OF x [symmetric] n(1) _ y [symmetric] n(3)] n(2) in auto)
    with k show ?thesis by simp
  qed
qed

lemma count_done_root [simp]: "w_root (count_done p w) = w_root w"
  by (auto simp: count_done_def fileops_count_files_def dest: count_root split: prod.split)

text \<open>Where a new entry of \<open>d\<close> leaves a tree outside of \<open>s\<close> that deleting \<open>s\<close> does not touch.\<close>

lemma survives_delete:
  assumes "node_at t m = None" and "node_at t s = Some n" and "\<not> prefix s m" and "m \<noteq> []"
    and "is_dir_at t (butlast m)"
  shows "node_at (alter s v (alter m (Some n') t)) m = Some n'"
proof -
  have "\<not> prefix m s" using assms(1,2) by (rule absent_not_prefix)
  with assms show ?thesis by (simp add: node_at_alter_other node_at_alter)
qed

lemma move_item_law:
  assumes run: "move_item dst src w = (ret, w')"
    and src: "spells src s" "s \<noteq> []" "name_ok (base_of src)" "node_at (w_root w) s = Some n" "tree_ok n"
    and dst: "spells dst d" "is_dir_at (w_root w) d" "\<not> prefix s d"
    and st: "w_stat_plan w = []" and fr: "free_name (w_root w) d (base_of src)"
  shows "ret \<noteq> 0 \<longrightarrow> node_at (w_root w') s = Some n"
    and "ret = 0 \<longrightarrow> (\<exists>b'. name_ok b' \<and> node_at (w_root w') (d @ [b']) = Some n)"
proof -
  define b where "b = base_of src"
  note base = b_def [symmetric]
  have sp: "spells src s" "spells (path_join dst b) (d @ [b])" using src dst by (auto simp: b_def)
  have *: "(ret \<noteq> 0 \<longrightarrow> node_at (w_root w') s = Some n) \<and>
    (ret = 0 \<longrightarrow> (\<exists>b'. name_ok b' \<and> node_at (w_root w') (d @ [b']) = Some n))"
  proof (cases "src = path_join dst b")
    case True
    then have "s = d @ [b]" using sp by (auto simp: spells_def)
    with run True base src show ?thesis by (auto simp: move_item_def Let_def)
  next
    case False
    obtain r w1 where r: "rename src (path_join dst b) w = (r, w1)" by fastforce
    note rn = rename_spelled [OF r sp(1) src(2) src(4) sp(2)]
    show ?thesis
    proof (cases r)
      case (Some u)
      with run False base r have w': "ret = 0" "w_root w' = w_root w1" by (auto simp: move_item_def Let_def)
      have "s = d @ [b] \<and> w_root w1 = w_root w \<or>
        \<not> prefix s (d @ [b]) \<and> w_root w1 = alter (d @ [b]) (Some n) (alter s None (w_root w))"
        using rn(3) Some dst by auto
      then have "node_at (w_root w1) (d @ [b]) = Some n"
      proof
        assume a: "\<not> prefix s (d @ [b]) \<and> w_root w1 = alter (d @ [b]) (Some n) (alter s None (w_root w))"
        have "is_dir_at (alter s None (w_root w)) d"
        proof (cases "prefix d s")
          case True
          then obtain r where "s = d @ r" "r \<noteq> []" using dst(3) by (cases "s = d") (auto simp: prefix_def)
          then show ?thesis using dst(2) is_dir_at_alter_above by metis
        next
          case False
          then show ?thesis using dst(2,3) node_at_alter_other [of s d] by (simp add: is_dir_at_def)
        qed
        with a show ?thesis by (simp add: node_at_alter)
      qed (use src in auto)
      with w' src(3) show ?thesis by (auto simp: b_def)
    next
      case None
      with rn dst have k: "keeps w w1" "w_root w1 = w_root w" by auto
      show ?thesis
      proof (cases "errno_is EXDEV w1")
        case False
        with run \<open>src \<noteq> path_join dst b\<close> base r None k src show ?thesis by (auto simp: move_item_def Let_def)
      next
        case True
        obtain q w2 where cp: "fileops_copy_progress src (path_join dst b) w1 = (q, w2)" by fastforce
        obtain q3 w3 where de: "delete_recursive src w2 = (q3, w3)" by fastforce
        from run \<open>src \<noteq> path_join dst b\<close> base r None True cp de
        have w': "ret = q" "w' = (if q = 0 then w3 else w2)" by (auto simp: move_item_def Let_def fileops_delete_def split: if_splits)
        have "q \<noteq> 0 \<and> w_root w2 = w_root w \<or> (\<exists>b' v. name_ok b' \<and> node_at (w_root w) (d @ [b']) = None \<and>
          w_root w2 = alter (d @ [b']) v (w_root w) \<and> (q = 0 \<longrightarrow> v = Some n))"
          using copy_progress_law [OF cp sp(1) src(2) _ src(5) dst(1) _ src(3) [folded b_def] dst(3)] k src dst st fr by (auto simp: keeps_def b_def)
        then show ?thesis
        proof
          assume "q \<noteq> 0 \<and> w_root w2 = w_root w"
          with w' src show ?thesis by auto
        next
          assume "\<exists>b' v. name_ok b' \<and> node_at (w_root w) (d @ [b']) = None \<and>
            w_root w2 = alter (d @ [b']) v (w_root w) \<and> (q = 0 \<longrightarrow> v = Some n)"
          then obtain b' v where b': "name_ok b'" and new: "node_at (w_root w) (d @ [b']) = None"
            and w2: "w_root w2 = alter (d @ [b']) v (w_root w)" "q = 0 \<longrightarrow> v = Some n" by blast
          have np: "\<not> prefix s (d @ [b'])" using dst(3) new src(4) by (auto simp: prefix_snoc)
          have nm: "\<not> prefix (d @ [b']) s" using new src(4) by (rule absent_not_prefix)
          have at: "node_at (w_root w2) s = Some n" using w2 src(4) node_at_alter_other [OF nm np] by simp
          show ?thesis
          proof (cases "q = 0")
            case False
            with w' at show ?thesis by simp
          next
            case True
            have "delete_ready src s n w2" using sp src at by (auto simp: delete_ready_def)
            from delete_recursive_law [OF de this] obtain x where "w_root w3 = alter s x (w_root w2)"
              by (auto simp: delete_done_def)
            with w2 True new src dst np have "node_at (w_root w3) (d @ [b']) = Some n"
              using survives_delete [OF new src(4) np] by simp
            with w' True b' show ?thesis by auto
          qed
        qed
      qed
    qed
  qed
  from * show "ret \<noteq> 0 \<longrightarrow> node_at (w_root w') s = Some n"
    "ret = 0 \<longrightarrow> (\<exists>b'. name_ok b' \<and> node_at (w_root w') (d @ [b']) = Some n)" by auto
qed

end
