(* ===== verification/Fm_Trash.thy ===== *)
theory Fm_Trash
  imports Fm_Exec
begin

section \<open>The trash\<close>

text \<open>
  Percent encoding is undone by the reader of \<^verbatim>\<open>.trashinfo\<close> files, a file that was written names
  the path it was written for, and trashing followed by restoring brings a tree back to where it
  was and leaves nothing of it in the trash.
\<close>

subsection \<open>Percent encoding\<close>

lemma hex_digit_code: "d < 16 \<Longrightarrow> of_char (hex_digit d) = (if d < 10 then 48 + d else 55 + d)"
  by (simp add: hex_digit_def of_char_of)

lemma hex_digit_neq: "d < 16 \<Longrightarrow> of_char c < (48 :: nat) \<Longrightarrow> hex_digit d \<noteq> c"
  using hex_digit_code [of d] by (auto split: if_splits)

lemma hex_digit_facts:
  assumes "d < 16"
  shows "hex_val (hex_digit d) = Some (int d)" "\<not> isspace (hex_digit d)"
    "hex_digit d \<notin> {CHR ''+'', CHR ''-'', CHR ''%'', newline, CHR 0x00}"
proof -
  show "hex_val (hex_digit d) = Some (int d)" using assms hex_digit_code [OF assms] by (auto simp: hex_val_def Let_def)
  show "\<not> isspace (hex_digit d)" using hex_digit_neq [OF assms] by (simp add: isspace_def)
  show "hex_digit d \<notin> {CHR ''+'', CHR ''-'', CHR ''%'', newline, CHR 0x00}"
    using hex_digit_neq [OF assms] by (simp add: newline_def)
qed

lemma strtol16_byte:
  "n < 256 \<Longrightarrow> strtol16 (hex_digit (n div 16)) (hex_digit (n mod 16)) = int n"
  using hex_digit_facts [of "n div 16"] hex_digit_facts [of "n mod 16"]
  by (auto simp: strtol16_def zmod_int zdiv_int)

lemma plain_byte_facts: "plain_byte c \<Longrightarrow> c \<noteq> CHR ''%'' \<and> c \<noteq> newline \<and> c \<noteq> CHR 0x00"
  by (auto simp: plain_byte_def newline_def Let_def)

lemma url_decode_encode: "url_decode (url_encode_path p) = p"
proof (induction p)
  case (Cons c p)
  have "of_char c < (256 :: nat)" by simp
  with Cons plain_byte_facts [of c] show ?case
    by (auto simp: url_encode_path_def strtol16_byte nat_mod_distrib)
qed (simp add: url_encode_path_def)

lemma url_encode_clean: "x \<in> set (url_encode_path p) \<Longrightarrow> x \<noteq> newline \<and> x \<noteq> CHR 0x00"
proof -
  assume "x \<in> set (url_encode_path p)"
  then obtain c where "plain_byte c \<and> x = c \<or>
    x \<in> {CHR ''%'', hex_digit (of_char c div 16), hex_digit (of_char c mod 16)}"
    by (auto simp: url_encode_path_def split: if_splits)
  moreover have "of_char c div 16 < (16 :: nat)" "of_char c mod 16 < (16 :: nat)" by (simp_all add: less_mult_imp_div_less)
  then have "hex_digit (of_char c div 16) \<notin> {newline, CHR 0x00}" "hex_digit (of_char c mod 16) \<notin> {newline, CHR 0x00}"
    using hex_digit_facts(3) by blast+
  ultimately show ?thesis using plain_byte_facts [of c] by (auto simp: newline_def)
qed

lemma trashinfo_read_back:
  assumes "length (url_encode_path path) \<le> 4089" and "CHR 0x00 \<notin> set path"
  shows "first_some path_line (read_lines path_max (trashinfo_text path date)) = Some path"
proof -
  let ?l = "''Path='' @ url_encode_path path" and ?r = "''DeletionDate='' @ date @ [newline]"
  have clean: "newline \<notin> set (url_encode_path path)" "CHR 0x00 \<notin> set (url_encode_path path)"
    using url_encode_clean by blast+
  have "trashinfo_text path date = ''[Trash Info]'' @ newline # (?l @ newline # ?r)" by (simp add: trashinfo_text_def)
  moreover have "read_lines path_max (''[Trash Info]'' @ newline # (?l @ newline # ?r))
    = (''[Trash Info]'' @ [newline]) # read_lines path_max (?l @ newline # ?r)"
    by (rule read_lines_whole) (simp_all add: newline_def path_max_def)
  moreover have "read_lines path_max (?l @ newline # ?r) = (?l @ [newline]) # read_lines path_max ?r"
    by (rule read_lines_whole) (use clean assms(1) in \<open>simp_all add: newline_def path_max_def\<close>)
  moreover have "path_line (''[Trash Info]'' @ [newline]) = None" by (simp add: path_line_def)
  moreover have "takeWhile (\<lambda>c. c \<noteq> newline) (url_encode_path path @ [newline]) = url_encode_path path"
    using clean(1) by (subst takeWhile_append2) auto
  then have "path_line (?l @ [newline]) = Some (c_string path)"
    by (simp add: path_line_def url_decode_encode)
  moreover have "c_string path = path" using assms(2) by (auto simp: c_string_def intro: takeWhile_eq_all_conv [THEN iffD2])
  ultimately show ?thesis by simp
qed

subsection \<open>Calls without faults\<close>

definition faultless :: "world \<Rightarrow> bool" where
  "faultless w \<longleftrightarrow> w_plan w = [] \<and> w_stat_plan w = []"

lemma faultless_keeps: "faultless w \<Longrightarrow> keeps w w' \<Longrightarrow> faultless w'"
  by (simp add: faultless_def keeps_def)

lemma syscall_faultless:
  "faultless w \<Longrightarrow> syscall act w = (case act w of Inl e \<Rightarrow> failed e w | Inr (r, w) \<Rightarrow> (Some r, w))"
  by (simp add: faultless_def syscall_def next_fate_def split: sum.split)

text \<open>A path that a call finds at \<open>l\<close>.\<close>

definition reaches :: "cstr \<Rightarrow> loc \<Rightarrow> world \<Rightarrow> bool" where
  "reaches p l w \<longleftrightarrow> spells p l \<and> \<not> too_long p \<and> l \<noteq> [] \<and> is_dir_at (w_root w) (butlast l)"

lemma reaches_resolve:
  "reaches p l w \<Longrightarrow> f \<longrightarrow> (\<forall>s. node_at (w_root w) l \<noteq> Some (Lnk s)) \<Longrightarrow> resolve f w p = Inr l"
  using resolve_spelled [of p l w f] by (auto simp: reaches_def)

lemma mkdir_exists:
  "faultless w \<Longrightarrow> reaches p l w \<Longrightarrow> node_at (w_root w) l = Some n \<Longrightarrow> mkdir p w = (None, w\<lparr>w_errno := Some EEXIST\<rparr>)"
  by (simp add: mkdir_def syscall_faultless reaches_resolve failed_def)

lemma lstat_faultless:
  "faultless w \<Longrightarrow> reaches p l w \<Longrightarrow> lstat p w =
    (case node_at (w_root w) l of Some n \<Rightarrow> (Some n, w) | None \<Rightarrow> (None, w\<lparr>w_errno := Some ENOENT\<rparr>))"
  by (simp add: lstat_def faultless_def reaches_resolve failed_def split: option.split)

lemma open_write_faultless:
  "faultless w \<Longrightarrow> reaches p l w \<Longrightarrow> node_at (w_root w) l = None \<or> (\<exists>s. node_at (w_root w) l = Some (Reg s)) \<Longrightarrow>
   open_write p w = (Some l, put_at l (Some (Reg [])) w)"
  by (auto simp: open_write_def syscall_faultless reaches_resolve)

lemma open_read_faultless:
  "faultless w \<Longrightarrow> reaches p l w \<Longrightarrow> node_at (w_root w) l = Some (Reg s) \<Longrightarrow> open_read p w = (Some l, w)"
  by (simp add: open_read_def syscall_faultless reaches_resolve)

lemma write_all_faultless:
  assumes "faultless w" and "node_at (w_root w) l = Some (Reg [])"
  shows "write_all l 0 s w = (True, put_at l (Some (Reg s)) w)"
proof (cases "s = []")
  case True
  then show ?thesis using assms by (simp add: write_all_step put_at_def alter_same)
next
  case False
  have "sys_write l 0 s w = (Some (length s), put_at l (Some (Reg s)) w)"
    using assms by (simp add: sys_write_def next_fate_def faultless_def)
  then show ?thesis using False by (simp add: write_all_step)
qed

lemma unlink_faultless:
  "faultless w \<Longrightarrow> reaches p l w \<Longrightarrow> node_at (w_root w) l = Some (Reg s) \<Longrightarrow> unlink p w = (Some (), put_at l None w)"
  by (simp add: unlink_def syscall_faultless reaches_resolve)

lemma rename_faultless:
  assumes "faultless w" and "reaches old l w" and "reaches new m w" and "node_at (w_root w) l = Some n"
    and "node_at (w_root w) m = None" and "dev_of (w_mounts w) (butlast l) = dev_of (w_mounts w) (butlast m)"
    and "l \<notin> set (w_mounts w)" and "m \<notin> set (w_mounts w)" and "\<not> prefix l m"
  shows "rename old new w = (Some (), put_at m (Some n) (put_at l None w))"
proof -
  have "l \<noteq> m" "\<not> strict_prefix l m" using assms(9) by auto
  moreover have "resolve False w old = Inr l" "resolve False w new = Inr m" "l \<noteq> []" "m \<noteq> []"
    using assms(2,3) reaches_resolve by (auto simp: reaches_def [of _ _ w])
  ultimately show ?thesis using assms by (simp add: rename_def syscall_faultless rename_node_def Let_def)
qed

lemma faultless_simps [simp]:
  "faultless (w\<lparr>w_errno := e\<rparr>) = faultless w" "faultless (put_at l v w) = faultless w"
  "reaches p l (w\<lparr>w_errno := e\<rparr>) = reaches p l w"
  "get_trash_dir (w\<lparr>w_errno := e\<rparr>) = get_trash_dir w" "get_trash_dir (put_at l v w) = get_trash_dir w"
  "w_mounts (put_at l v w) = w_mounts w" "w_date (put_at l v w) = w_date w"
  by (simp_all add: faultless_def reaches_def get_trash_dir_def put_at_def)

lemma is_dir_at_alter:
  assumes "is_dir_at t q" and "\<not> prefix p q"
  shows "is_dir_at (alter p v t) q"
proof (cases "prefix q p")
  case True
  then obtain r where "p = q @ r" by (auto simp: prefix_def)
  with assms show ?thesis using is_dir_at_alter_above [of t q r] by (cases "r = []") auto
next
  case False
  with assms show ?thesis using node_at_alter_other [of p q] by (simp add: is_dir_at_def)
qed

lemma reaches_put: "reaches p l w \<Longrightarrow> \<not> prefix m (butlast l) \<Longrightarrow> reaches p l (put_at m v w)"
  by (simp add: reaches_def is_dir_at_alter)

lemma too_long_join: "name_ok c \<Longrightarrow> \<not> too_long (path_join q c) \<Longrightarrow> \<not> too_long q"
  by (simp add: too_long_def comps_join)

lemma not_too_long: "\<not> too_long p \<Longrightarrow> length p < path_max"
  by (simp add: too_long_def)

lemma reaches_join:
  "spells q l \<Longrightarrow> name_ok c \<Longrightarrow> \<not> too_long (path_join q c) \<Longrightarrow> is_dir_at (w_root w) l \<Longrightarrow>
   reaches (path_join q c) (l @ [c]) w"
  by (auto simp: reaches_def)

subsection \<open>Parents\<close>

lemma comps_take_slash: "i < length p \<Longrightarrow> p ! i = CHR ''/'' \<Longrightarrow> prefix (comps (take i p)) (comps p)"
proof -
  assume "i < length p" "p ! i = CHR ''/''"
  then have "p = take i p @ CHR ''/'' # drop (Suc i) p" by (metis id_take_nth_drop)
  then have "comps p = comps (take i p) @ comps (drop (Suc i) p)"
    by (metis (no_types, lifting) comps_def filter_append split_on_append strtok_def)
  then show ?thesis by simp
qed

text \<open>Creating the parents of a path whose directory exists changes nothing.\<close>

lemma mkdir_dirs_exist:
  assumes "faultless w" and "\<And>d. d \<in> set ds \<Longrightarrow> \<exists>l. spells d l \<and> \<not> too_long d \<and> is_dir_at (w_root w) l"
  shows "\<exists>e. fold (\<lambda>d w. snd (mkdir d w)) ds w = w\<lparr>w_errno := e\<rparr>"
  using assms
proof (induction ds arbitrary: w)
  case Nil
  then show ?case by (auto intro!: exI [of _ "w_errno w"])
next
  case (Cons d ds)
  then obtain l where l: "spells d l" "\<not> too_long d" "is_dir_at (w_root w) l" by auto
  then obtain n where n: "node_at (w_root w) l = Some n" by (auto simp: is_dir_at_iff)
  have "is_dir_at (w_root w) (butlast l)" using n l(3) node_at_self by (cases "l = []") auto
  with l n have "mkdir d w = (None, w\<lparr>w_errno := Some EEXIST\<rparr>)"
    using resolve_spelled [of d l w False] Cons.prems(1) by (simp add: mkdir_def syscall_faultless failed_def)
  with Cons.IH [of "w\<lparr>w_errno := Some EEXIST\<rparr>"] Cons.prems show ?case by auto
qed

lemma dir_part_base: "p = dir_part p @ base_of p"
proof (cases "CHR ''/'' \<in> set p")
  case True
  then have "suffix (base_of p) p"
    by (simp add: base_of_def strrchr_after_def) (metis rev_rev_ident suffix_to_prefix takeWhile_is_prefix)
  then obtain q where "p = q @ base_of p" by (auto simp: suffix_def)
  then have "q = dir_part p" unfolding dir_part_def by (metis append_eq_conv_conj length_append diff_add_inverse2)
  with \<open>p = q @ base_of p\<close> show ?thesis by simp
qed (simp add: dir_part_def base_of_def strrchr_after_def)

lemma dir_part_slash: "CHR ''/'' \<in> set p \<Longrightarrow> \<exists>q. dir_part p = q @ ''/''"
proof -
  assume "CHR ''/'' \<in> set p"
  then obtain q b where p: "p = q @ CHR ''/'' # b" and b: "CHR ''/'' \<notin> set b" by (metis split_list_last)
  then have "dir_part p = q @ ''/''" using dir_part_join [OF b, of q] by (simp add: path_join_def)
  then show ?thesis by blast
qed

lemma make_parents_exist:
  assumes "faultless w" and "spells path s" and "\<not> too_long path" and "is_dir_at (w_root w) (butlast s)"
    and "base_of path = last s" and "s \<noteq> []" and "name_ok (last s)"
  shows "\<exists>e. make_parents path w = w\<lparr>w_errno := e\<rparr>"
proof (cases "butlast (dir_part path) = []")
  case True
  then show ?thesis by (auto simp: make_parents_def intro!: exI [of _ "w_errno w"])
next
  case False
  have "CHR ''/'' \<in> set path" using assms(2) by (cases path) (auto simp: spells_def absolute_def)
  then obtain q where q: "dir_part path = q @ ''/''" using dir_part_slash by blast
  then have path: "path = path_join q (last s)" using dir_part_base [of path] assms(5) by (simp add: path_join_def)
  have "comps q @ [last s] = s" using assms(2,7) path comps_join by (simp add: spells_def)
  then have comps_q: "comps q = butlast s" by (metis butlast_snoc)
  have ne: "q \<noteq> []" using False q by simp
  then have abs: "absolute q" using assms(2) path by (cases q) (auto simp: spells_def absolute_def path_join_def)
  have "\<exists>l. spells d l \<and> \<not> too_long d \<and> is_dir_at (w_root w) l" if d: "d \<in> set (parent_prefixes q)" for d
  proof -
    have pre: "prefix (comps d) (butlast s)" and len: "length d \<le> length q" and a: "absolute d"
      using d comps_q comps_take_slash [of _ q] abs
      by (auto simp: parent_prefixes_def absolute_def min_def split: if_splits)
    from pre obtain r where r: "butlast s = comps d @ r" by (auto simp: prefix_def)
    have "\<not> too_long q" using assms(3,7) path too_long_join by metis
    then have "\<not> too_long d" using r comps_q len by (auto simp: too_long_def)
    moreover have "''..'' \<notin> set (butlast s)" using assms(2) in_set_butlastD [of "''..''" s] by (auto simp: spells_def)
    then have "spells d (comps d)" using a r by (simp add: spells_def)
    moreover have "is_dir_at (w_root w) (comps d)" using assms(4) r is_dir_at_prefix by metis
    ultimately show ?thesis by blast
  qed
  with mkdir_dirs_exist [OF assms(1)] False q show ?thesis by (simp add: make_parents_def Let_def)
qed

subsection \<open>There and back\<close>

text \<open>
  \<open>trashable\<close>: what is needed for the way through the trash by \<^verbatim>\<open>rename\<close> alone. The trash
  directories exist, the name is unused in them, the tree is neither in the trash nor around it,
  both are on one device, and no path is too long.
\<close>

definition trashable :: "cstr \<Rightarrow> loc \<Rightarrow> loc \<Rightarrow> node \<Rightarrow> world \<Rightarrow> bool" where
  "trashable path s td n w \<longleftrightarrow>
     (let trash = get_trash_dir w; b = last s; i = b @ ''.trashinfo'' in
      faultless w \<and> reaches path s w \<and> base_of path = b \<and> name_ok b \<and> node_at (w_root w) s = Some n \<and>
      spells trash td \<and> is_dir_at (w_root w) (td @ [''files'']) \<and> is_dir_at (w_root w) (td @ [''info'']) \<and>
      node_at (w_root w) (td @ [''files'', b]) = None \<and> node_at (w_root w) (td @ [''info'', i]) = None \<and>
      \<not> too_long (path_join (path_join trash ''files'') b) \<and> \<not> too_long (path_join (path_join trash ''info'') i) \<and>
      \<not> prefix s td \<and> \<not> prefix td s \<and>
      dev_of (w_mounts w) (butlast s) = dev_of (w_mounts w) (td @ [''files'']) \<and>
      s \<notin> set (w_mounts w) \<and> td @ [''files'', b] \<notin> set (w_mounts w) \<and>
      length (url_encode_path path) \<le> 4089 \<and> CHR 0x00 \<notin> set path)"

lemma name_ok_special: "name_ok ''files''" "name_ok ''info''" "name_ok b \<Longrightarrow> name_ok (b @ ''.trashinfo'')"
  by (auto simp: name_ok_def append_eq_Cons_conv)

lemma parallel_below: "\<not> prefix s td \<Longrightarrow> \<not> prefix td s \<Longrightarrow> \<not> prefix s (td @ r) \<and> \<not> prefix (td @ r) s"
  by (metis append_prefixD prefix_append prefix_def prefix_same_cases prefix_order.trans)

lemma not_prefix_butlast: "s \<noteq> [] \<Longrightarrow> \<not> prefix s (butlast s)"
  using prefix_length_le [of s "butlast s"] by (cases s) auto

lemma trashableD:
  assumes "trashable path s td n w"
  defines "F \<equiv> td @ [''files'', last s]" and "I \<equiv> td @ [''info'', last s @ ''.trashinfo'']"
    and "trash \<equiv> get_trash_dir w"
  shows "trash_file trash (last s) = path_join (path_join trash ''files'') (last s)"
    "trash_info trash (last s) = path_join (path_join trash ''info'') (last s @ ''.trashinfo'')"
    "reaches (trash_file trash (last s)) F w" "reaches (trash_info trash (last s)) I w"
    "ensure_trash_dirs trash w = (0, w\<lparr>w_errno := Some EEXIST\<rparr>)"
proof -
  note T = assms(1) [unfolded trashable_def Let_def, folded trash_def]
  have ti: "name_ok (last s @ ''.trashinfo'')" using T name_ok_special by blast
  have shf: "\<not> too_long (path_join trash ''files'')" and shi: "\<not> too_long (path_join trash ''info'')"
    using T ti too_long_join by metis+
  have sht: "\<not> too_long trash" using shf name_ok_special too_long_join by metis
  have lens: "length (path_join (path_join trash ''files'') (last s)) < path_max"
    "length (path_join (path_join trash ''info'') (last s @ ''.trashinfo'')) < path_max"
    using T not_too_long by metis+
  then show f: "trash_file trash (last s) = path_join (path_join trash ''files'') (last s)"
    and i: "trash_info trash (last s) = path_join (path_join trash ''info'') (last s @ ''.trashinfo'')"
    by (simp_all add: trash_file_def trash_info_def path_join_def snprintf_fits)
  have spf: "spells (path_join trash ''files'') (td @ [''files''])" "spells (path_join trash ''info'') (td @ [''info''])"
    using T name_ok_special by auto
  show "reaches (trash_file trash (last s)) F w" "reaches (trash_info trash (last s)) I w"
    using reaches_join [OF spf(1)] reaches_join [OF spf(2)] T ti f i by (auto simp: F_def I_def)
  have dt: "is_dir_at (w_root w) td" using T is_dir_at_prefix by blast
  have "td \<noteq> []" using T by auto
  then have r0: "reaches trash td w" using T sht dt is_dir_at_prefix [of "w_root w" "butlast td" "[last td]"] by (simp add: reaches_def)
  have r1: "reaches (path_join trash ''files'') (td @ [''files'']) w" "reaches (path_join trash ''info'') (td @ [''info'']) w"
    using T name_ok_special shf shi dt by (auto intro: reaches_join)
  have nodes: "\<exists>a. node_at (w_root w) td = Some a" "\<exists>a. node_at (w_root w) (td @ [''files'']) = Some a"
    "\<exists>a. node_at (w_root w) (td @ [''info'']) = Some a" using T dt by (auto simp: is_dir_at_iff)
  have fits: "snprintf path_max (trash @ ''/files'') = path_join trash ''files''"
    "snprintf path_max (trash @ ''/info'') = path_join trash ''info''"
    using not_too_long [OF shf] not_too_long [OF shi] by (simp_all add: path_join_def snprintf_fits)
  have "mkdir p v = (None, v\<lparr>w_errno := Some EEXIST\<rparr>)"
    if "v = w \<or> v = w\<lparr>w_errno := Some EEXIST\<rparr>" "reaches p l w" "\<exists>a. node_at (w_root w) l = Some a" for p l v
    using that T mkdir_exists [of v p l] by auto
  from this [OF _ r0 nodes(1), of w] this [OF _ r1(1) nodes(2), of "w\<lparr>w_errno := Some EEXIST\<rparr>"]
    this [OF _ r1(2) nodes(3), of "w\<lparr>w_errno := Some EEXIST\<rparr>"]
  show "ensure_trash_dirs trash w = (0, w\<lparr>w_errno := Some EEXIST\<rparr>)"
    by (simp add: ensure_trash_dirs_def fits errno_is_def)
qed

lemma fileops_trash_law:
  assumes tr: "trashable path s td n w"
  defines "F \<equiv> td @ [''files'', last s]" and "I \<equiv> td @ [''info'', last s @ ''.trashinfo'']"
  obtains w' where "fileops_trash path w = (0, w')" "faultless w'" "w_mounts w' = w_mounts w"
    "get_trash_dir w' = get_trash_dir w"
    "w_root w' = alter I (Some (Reg (trashinfo_text path (w_date w)))) (alter F (Some n) (alter s None (w_root w)))"
proof -
  note T = tr [unfolded trashable_def Let_def] and D = trashableD [OF tr]
  let ?t = "get_trash_dir w" and ?b = "last s" and ?w1 = "w\<lparr>w_errno := Some EEXIST\<rparr>" and ?w2 = "w\<lparr>w_errno := Some ENOENT\<rparr>"
  have par: "\<not> prefix s (td @ r)" "\<not> prefix (td @ r) s" for r using T parallel_below by auto
  have "lstat (trash_file ?t ?b) ?w1 = (None, ?w2)"
    using lstat_faultless [of ?w1 "trash_file ?t ?b" F] T D(3) by (simp add: F_def)
  then have un: "unique_trash_name ?t ?b ?w1 = (?b, ?w2)" by (simp add: unique_trash_name_def)
  have rn: "rename path (trash_file ?t ?b) ?w2 = (Some (), put_at F (Some n) (put_at s None ?w2))"
    by (rule rename_faultless) (use T D(3) par in \<open>auto simp: F_def butlast_append\<close>)
  define w3 where "w3 = put_at F (Some n) (put_at s None ?w2)"
  have nf: "\<not> prefix F (td @ [''info''])" "\<not> prefix F I" "\<not> prefix I F" by (simp_all add: F_def I_def)
  have ri: "reaches (trash_info ?t ?b) I w3" unfolding w3_def
    by (intro reaches_put) (use D(4) par nf in \<open>auto simp: I_def F_def butlast_append\<close>)
  have ni: "node_at (w_root w3) I = None"
    using T par [of "[''info'', ?b @ ''.trashinfo'']"] nf node_at_alter_other [of F I] node_at_alter_other [of s I]
    by (simp add: w3_def I_def [symmetric])
  have fw: "faultless w3" using T by (simp add: w3_def)
  have ow: "open_write (trash_info ?t ?b) w3 = (Some I, put_at I (Some (Reg [])) w3)"
    using open_write_faultless [OF fw ri] ni by simp
  have "I \<noteq> []" "is_dir_at (w_root w3) (butlast I)" using ri by (auto simp: reaches_def)
  then have wa: "write_all I 0 x (put_at I (Some (Reg [])) w3) = (True, put_at I (Some (Reg x)) (put_at I (Some (Reg [])) w3))" for x
    using write_all_faultless [of "put_at I (Some (Reg [])) w3" I x] fw by (simp add: node_at_alter)
  let ?w' = "put_at I (Some (Reg (trashinfo_text path (w_date w)))) (put_at I (Some (Reg [])) w3)"
  have wi: "write_trashinfo (trash_info ?t ?b) path w3 = ?w'"
    using ow wa by (simp add: write_trashinfo_def w3_def)
  have "rename_or_copy path (trash_file ?t ?b) ?w2 = (0, w3)" using rn by (simp add: rename_or_copy_def w3_def)
  with wi un D(5) T have "fileops_trash path w = (0, ?w')" by (simp add: fileops_trash_def Let_def)
  moreover have "w_root ?w' = alter I (Some (Reg (trashinfo_text path (w_date w)))) (alter F (Some n) (alter s None (w_root w)))"
    using \<open>I \<noteq> []\<close> by (simp add: alter_twice w3_def)
  ultimately show ?thesis using that [of ?w'] fw by (simp add: w3_def)
qed

text \<open>Restoring from a state in which the tree is in the trash and its place is free.\<close>

lemma fileops_restore_law:
  assumes tr: "trashable path s td n w" and w: "faultless w'" "w_mounts w' = w_mounts w" "get_trash_dir w' = get_trash_dir w"
  defines "F \<equiv> td @ [''files'', last s]" and "I \<equiv> td @ [''info'', last s @ ''.trashinfo'']"
  assumes root: "w_root w' = alter I (Some (Reg (trashinfo_text path date))) (alter F (Some n) (alter s None (w_root w)))"
  obtains w'' where "fileops_restore (last s) w' = (0, w'')"
    "w_root w'' = alter I None (alter s (Some n) (alter F None (w_root w')))"
proof -
  note T = tr [unfolded trashable_def Let_def] and D = trashableD [OF tr]
  let ?t = "get_trash_dir w" and ?b = "last s"
  have par: "\<not> prefix s (td @ r)" "\<not> prefix (td @ r) s" for r using T parallel_below by auto
  have bl: "butlast F = td @ [''files'']" "butlast I = td @ [''info'']" by (simp_all add: F_def I_def butlast_append)
  have nf: "\<not> prefix F I" "\<not> prefix I F" "\<not> prefix F (butlast I)" "\<not> prefix I (butlast F)"
    by (simp_all add: F_def I_def butlast_append)
  have ps: "\<not> prefix s F" "\<not> prefix F s" "\<not> prefix s I" "\<not> prefix I s" "\<not> prefix s (butlast F)" "\<not> prefix s (butlast I)"
    using par unfolding bl unfolding F_def I_def by auto
  have pb: "\<not> prefix F (butlast s)" "\<not> prefix I (butlast s)"
    using ps by (metis append_butlast_last_id butlast.simps(1) prefix_append prefix_order.trans prefixI)+
  have dirs: "is_dir_at (w_root w') (butlast F)" "is_dir_at (w_root w') (butlast I)" "is_dir_at (w_root w') (butlast s)"
    using T nf ps pb bl unfolding root
    by (auto intro!: is_dir_at_alter simp: reaches_def not_prefix_butlast)
  have reach: "reaches (trash_file ?t ?b) F w'" "reaches (trash_info ?t ?b) I w'" "reaches path s w'"
    using D(3,4) T dirs by (auto simp: reaches_def F_def I_def)
  have nI: "node_at (w_root w') I = Some (Reg (trashinfo_text path date))"
    using T ps nf bl D(4) unfolding root
    by (intro node_at_alter is_dir_at_alter) (auto simp: reaches_def I_def)
  have "node_at (alter F (Some n) (alter s None (w_root w))) F = Some n"
    using T ps D(3) by (intro node_at_alter is_dir_at_alter) (auto simp: reaches_def F_def)
  then have nF: "node_at (w_root w') F = Some n" unfolding root using nf node_at_alter_other [of I F] by simp
  have nS: "node_at (w_root w') s = None" unfolding root
    using T ps node_at_alter_other [of I s] node_at_alter_other [of F s] by (simp add: node_at_alter reaches_def)
  have rd: "read_trashinfo_path (trash_info ?t ?b) w' = (Some path, w')"
    using open_read_faultless [OF w(1) reach(2) nI] T nI
    by (simp add: read_trashinfo_path_def file_at_def trashinfo_read_back)
  obtain e where mp: "make_parents path w' = w'\<lparr>w_errno := e\<rparr>"
    using make_parents_exist [OF w(1), of path s] T dirs by (auto simp: reaches_def)
  let ?w2 = "w'\<lparr>w_errno := Some ENOENT\<rparr>"
  have rc: "resolve_conflict path (w'\<lparr>w_errno := e\<rparr>) = (path, ?w2)"
    using lstat_faultless [of "w'\<lparr>w_errno := e\<rparr>" path s] w(1) reach nS by (simp add: resolve_conflict_def)
  have rn: "rename (trash_file ?t ?b) path ?w2 = (Some (), put_at s (Some n) (put_at F None ?w2))"
    by (rule rename_faultless) (use T w reach nF nS ps bl in \<open>auto simp: F_def\<close>)
  let ?w3 = "put_at s (Some n) (put_at F None ?w2)"
  have r3: "reaches (trash_info ?t ?b) I ?w3" using reach(2) nf ps by (intro reaches_put) auto
  have "node_at (w_root ?w3) I = Some (Reg (trashinfo_text path date))"
    using nI nf ps node_at_alter_other [of s I] node_at_alter_other [of F I] by simp
  then have un: "unlink (trash_info ?t ?b) ?w3 = (Some (), put_at I None ?w3)"
    using unlink_faultless [OF _ r3] w(1) by simp
  have "fileops_restore ?b w' = (0, put_at I None ?w3)"
    using rd mp rc rn un w(3) by (simp add: fileops_restore_def Let_def rename_or_copy_def)
  then show ?thesis using that by simp
qed

lemma trash_and_back:
  assumes tr: "trashable path s td n w"
  obtains w' w'' where "fileops_trash path w = (0, w')" "fileops_restore (last s) w' = (0, w'')"
    "node_at (w_root w') s = None" "node_at (w_root w'') s = Some n"
    "node_at (w_root w'') (td @ [''files'', last s]) = None"
    "node_at (w_root w'') (td @ [''info'', last s @ ''.trashinfo'']) = None"
    "\<And>q. \<not> prefix s q \<Longrightarrow> \<not> prefix q s \<Longrightarrow> \<not> prefix td q \<Longrightarrow> \<not> prefix q td \<Longrightarrow>
      node_at (w_root w'') q = node_at (w_root w) q"
proof -
  note T = tr [unfolded trashable_def Let_def] and D = trashableD [OF tr]
  let ?F = "td @ [''files'', last s]" and ?I = "td @ [''info'', last s @ ''.trashinfo'']"
  obtain w' where w': "fileops_trash path w = (0, w')" "faultless w'" "w_mounts w' = w_mounts w"
    "get_trash_dir w' = get_trash_dir w"
    "w_root w' = alter ?I (Some (Reg (trashinfo_text path (w_date w)))) (alter ?F (Some n) (alter s None (w_root w)))"
    using fileops_trash_law [OF tr] by metis
  obtain w'' where w'': "fileops_restore (last s) w' = (0, w'')"
    "w_root w'' = alter ?I None (alter s (Some n) (alter ?F None (w_root w')))"
    using fileops_restore_law [OF tr w'(2-5)] by metis
  have par: "\<not> prefix s (td @ r)" "\<not> prefix (td @ r) s" for r using T parallel_below by auto
  have ds: "is_dir_at (w_root w) (butlast s)" "s \<noteq> []" using T by (auto simp: reaches_def)
  have df: "is_dir_at (w_root w) (td @ [''files''])" "is_dir_at (w_root w) (td @ [''info''])" using T by auto
  have pb: "\<not> prefix (td @ r) (butlast s)" for r
    using par(2) [of r] by (metis append_butlast_last_id butlast.simps(1) prefix_append)
  have dir': "is_dir_at (w_root w') q" if "is_dir_at (w_root w) q" "\<not> prefix s q" "\<not> prefix ?F q" "\<not> prefix ?I q" for q
    using that unfolding w'(5) by (intro is_dir_at_alter)
  have 1: "node_at (w_root w') s = None" unfolding w'(5) using par ds by (simp add: node_at_alter_other node_at_alter)
  have 2: "node_at (w_root w'') s = Some n"
  proof -
    have "is_dir_at (alter ?F None (w_root w')) (butlast s)"
      using dir' [OF ds(1)] pb ds(2) not_prefix_butlast by (intro is_dir_at_alter) auto
    then show ?thesis unfolding w''(2) using par ds by (simp add: node_at_alter_other node_at_alter)
  qed
  have 3: "node_at (w_root w'') ?F = None"
  proof -
    have "is_dir_at (w_root w') (butlast ?F)" using dir' [OF df(1)] par(1) [of "[''files'']"] by (simp add: butlast_append)
    then show ?thesis unfolding w''(2) using par by (simp add: node_at_alter_other node_at_alter)
  qed
  have 4: "node_at (w_root w'') ?I = None"
  proof -
    have "is_dir_at (w_root w') (butlast ?I)" using dir' [OF df(2)] par(1) [of "[''info'']"] by (simp add: butlast_append)
    then have "is_dir_at (alter s (Some n) (alter ?F None (w_root w'))) (butlast ?I)"
      using par(1) [of "[''info'']"] by (intro is_dir_at_alter) (auto simp: butlast_append)
    then show ?thesis unfolding w''(2) by (simp add: node_at_alter)
  qed
  have 5: "node_at (w_root w'') q = node_at (w_root w) q"
    if q: "\<not> prefix s q" "\<not> prefix q s" "\<not> prefix td q" "\<not> prefix q td" for q
  proof -
    have "\<not> prefix (td @ r) q" "\<not> prefix q (td @ r)" for r using parallel_below [of q td r] q by auto
    then show ?thesis unfolding w''(2) w'(5) using q by (simp add: node_at_alter_other)
  qed
  from that [OF w'(1) w''(1) 1 2 3 4 5] show ?thesis .
qed

end
