(* ===== verification/Fm_Jobs.thy ===== *)
theory Fm_Jobs
  imports Fm_Exec
begin

section \<open>The job queue\<close>

text \<open>
  \<^verbatim>\<open>fm/src/jobqueue.c\<close> with the progress part of \<^verbatim>\<open>dialogs.c\<close>: two threads and a heap. Jobs
  live in a store of cells that \<^verbatim>\<open>calloc\<close> may use again once they were freed; the pending queue
  is a linked list with head and tail pointers, the list of finished jobs a linked stack, both
  under one mutex, and the worker wakes the main loop by a byte in a pipe. An operation returns
  \<open>None\<close> when it follows a pointer to a cell or a window that is not allocated. What the two
  threads do between two accesses under the mutex is one event; a job runs in one event, with the
  moment at which the other thread cancels it, and the failures of its calls, as parameters.

  The fields \<open>submitted\<close>, \<open>executed\<close> and \<open>collected\<close> are not in the program: they number the jobs
  and log the order in which they are run and freed.
\<close>

datatype FmJobType = FM_JOB_COPY | FM_JOB_MOVE | FM_JOB_DELETE | FM_JOB_TRASH | FM_JOB_EMPTY_TRASH

record FmJob =
  job_type :: FmJobType
  src_paths :: "cstr list"
  dst_dir :: "cstr option"
  job_done :: int
  job_total :: int
  cancelled :: bool
  finished :: bool
  job_error :: "errno option"
  origin_win :: nat
  has_progress :: bool
  progress_timer :: bool
  job_next :: "nat option"
  serial :: nat

datatype worker_pc = Waiting | Running nat | Finished nat | Notifying | Exited
datatype main_pc = Looping | Submitted nat | Joining | Ended

record FmApp =
  cells :: "FmJob option list"
  job_head :: "nat option"
  job_tail :: "nat option"
  done_head :: "nat option"
  worker_running :: bool
  notify_pipe :: nat
  windows :: "nat list"
  disk :: world
  worker :: worker_pc
  main_thread :: main_pc
  submitted :: nat
  executed :: "nat list"
  collected :: "nat list"

subsection \<open>Memory\<close>

definition cell :: "nat \<Rightarrow> FmApp \<Rightarrow> FmJob option" where
  "cell j app = (if j < length (cells app) then cells app ! j else None)"

definition set_cell :: "nat \<Rightarrow> FmJob option \<Rightarrow> FmApp \<Rightarrow> FmApp" where
  "set_cell j v app = app\<lparr>cells := (if j < length (cells app) then (cells app)[j := v] else cells app @ [v])\<rparr>"

text \<open>Where \<^verbatim>\<open>calloc\<close> may put a job: a free cell or a new one.\<close>

definition can_alloc :: "nat \<Rightarrow> FmApp \<Rightarrow> bool" where
  "can_alloc j app \<longleftrightarrow> j \<le> length (cells app) \<and> cell j app = None"

definition live_cells :: "FmApp \<Rightarrow> nat" where
  "live_cells app = length (filter (\<lambda>c. c \<noteq> None) (cells app))"

definition job_alloc :: "nat \<Rightarrow> FmJobType \<Rightarrow> nat \<Rightarrow> cstr list \<Rightarrow> cstr option \<Rightarrow> FmApp \<Rightarrow> FmApp" where
  "job_alloc j type win srcs dst app =
     set_cell j (Some \<lparr>job_type = type, src_paths = srcs, dst_dir = dst, job_done = 0, job_total = 0,
       cancelled = False, finished = False, job_error = None, origin_win = win, has_progress = False,
       progress_timer = False, job_next = None, serial = submitted app\<rparr>)
       (app\<lparr>submitted := submitted app + 1\<rparr>)"

definition job_free :: "nat \<Rightarrow> FmApp \<Rightarrow> FmApp option" where
  "job_free j app = (case cell j app of None \<Rightarrow> None
     | Some job \<Rightarrow> Some ((set_cell j None app)\<lparr>collected := collected app @ [serial job]\<rparr>))"

subsection \<open>The two lists\<close>

definition enqueue_pending :: "nat \<Rightarrow> FmApp \<Rightarrow> FmApp option" where
  "enqueue_pending j app = (case job_tail app of
     None \<Rightarrow> Some (app\<lparr>job_head := Some j, job_tail := Some j\<rparr>)
   | Some t \<Rightarrow> (case cell t app of None \<Rightarrow> None
       | Some job \<Rightarrow> Some ((set_cell t (Some (job\<lparr>job_next := Some j\<rparr>)) app)\<lparr>job_tail := Some j\<rparr>)))"

text \<open>The wait for a job or for the end of the queue is the guard of the event.\<close>

definition dequeue_pending :: "FmApp \<Rightarrow> (nat option \<times> FmApp) option" where
  "dequeue_pending app = (case job_head app of
     None \<Rightarrow> Some (None, app)
   | Some j \<Rightarrow> (case cell j app of None \<Rightarrow> None
       | Some job \<Rightarrow> Some (Some j, (set_cell j (Some (job\<lparr>job_next := None\<rparr>)) app)
           \<lparr>job_head := job_next job, job_tail := (if job_next job = None then None else job_tail app)\<rparr>)))"

definition enqueue_done :: "nat \<Rightarrow> FmApp \<Rightarrow> FmApp option" where
  "enqueue_done j app = (case cell j app of None \<Rightarrow> None
     | Some job \<Rightarrow> Some ((set_cell j (Some (job\<lparr>job_next := done_head app\<rparr>)) app)\<lparr>done_head := Some j\<rparr>))"

definition drain_done :: "FmApp \<Rightarrow> nat option \<times> FmApp" where
  "drain_done app = (done_head app, app\<lparr>done_head := None\<rparr>)"

subsection \<open>Progress\<close>

definition progress_start :: "nat \<Rightarrow> FmApp \<Rightarrow> FmApp option" where
  "progress_start j app = (case cell j app of None \<Rightarrow> None
     | Some job \<Rightarrow> if origin_win job \<in> set (windows app)
         then Some (set_cell j (Some (job\<lparr>has_progress := True, progress_timer := True\<rparr>)) app) else None)"

definition progress_stop :: "nat \<Rightarrow> FmApp \<Rightarrow> FmApp option" where
  "progress_stop j app = (case cell j app of None \<Rightarrow> None
     | Some job \<Rightarrow> Some (set_cell j (Some (job\<lparr>has_progress := False, progress_timer := False\<rparr>)) app))"

text \<open>The timer asks the window of the job for its application before it is armed again.\<close>

definition poll_timer_cb :: "nat \<Rightarrow> FmApp \<Rightarrow> FmApp option" where
  "poll_timer_cb j app = (case cell j app of None \<Rightarrow> None
     | Some job \<Rightarrow> if finished job then Some (set_cell j (Some (job\<lparr>progress_timer := False\<rparr>)) app)
         else if origin_win job \<in> set (windows app) then Some app else None)"

definition cancel_cb :: "nat \<Rightarrow> FmApp \<Rightarrow> FmApp option" where
  "cancel_cb j app = (case cell j app of None \<Rightarrow> None
     | Some job \<Rightarrow> Some (set_cell j (Some (job\<lparr>cancelled := True\<rparr>)) app))"

subsection \<open>Running a job\<close>

definition exec_job :: "FmJob \<Rightarrow> world \<Rightarrow> errno option \<times> world" where
  "exec_job job w = (case job_type job of
     FM_JOB_COPY \<Rightarrow> exec_copy (src_paths job) (the (dst_dir job)) w
   | FM_JOB_MOVE \<Rightarrow> exec_move (src_paths job) (the (dst_dir job)) w
   | FM_JOB_DELETE \<Rightarrow> exec_delete (src_paths job) w
   | FM_JOB_TRASH \<Rightarrow> exec_trash (src_paths job) w
   | FM_JOB_EMPTY_TRASH \<Rightarrow> exec_empty_trash w)"

text \<open>The job finds its counters at 0, the flag set after \<open>c\<close> reads and calls that fail by \<open>fs\<close> and \<open>ls\<close>.\<close>

definition job_world :: "nat option \<Rightarrow> fate list \<Rightarrow> nat option list \<Rightarrow> world \<Rightarrow> world" where
  "job_world c fs ls w = w\<lparr>w_cancel := c, w_plan := fs, w_stat_plan := ls, files_done := 0, files_total := 0,
     cur_bytes_done := 0, cur_bytes_total := 0, total_bytes_done := 0\<rparr>"

definition run_job :: "nat option \<Rightarrow> fate list \<Rightarrow> nat option list \<Rightarrow> nat \<Rightarrow> FmApp \<Rightarrow> FmApp option" where
  "run_job c fs ls j app = (case cell j app of None \<Rightarrow> None
     | Some job \<Rightarrow>
         (case exec_job job (job_world (if cancelled job then Some 0 else c) fs ls (disk app)) of (err, w) \<Rightarrow>
            Some ((set_cell j (Some (job\<lparr>job_done := files_done w, job_total := files_total w, job_error := err,
                cancelled := (cancelled job \<or> c \<noteq> None), finished := True\<rparr>)) app)
              \<lparr>disk := w, executed := executed app @ [serial job]\<rparr>)))"

subsection \<open>Collecting finished jobs\<close>

text \<open>
  \<open>free_jobs\<close> follows the links from a cell, stops the progress of each job and frees it, as
  \<open>notify_cb\<close> and \<open>jobqueue_shutdown\<close> do; each step has one cell less in use.
\<close>

lemma live_cells_free:
  "progress_stop j app = Some app1 \<Longrightarrow> job_free j app1 = Some app2 \<Longrightarrow> live_cells app2 < live_cells app"
proof -
  assume 1: "progress_stop j app = Some app1" and 2: "job_free j app1 = Some app2"
  from 1 obtain job where j: "j < length (cells app)" "cells app ! j = Some job"
    by (auto simp: progress_stop_def cell_def split: option.splits if_splits)
  obtain job' where c1: "cells app1 = (cells app)[j := Some job']"
    using 1 j by (auto simp: progress_stop_def cell_def set_cell_def)
  have c2: "cells app2 = (cells app)[j := None]"
    using 2 c1 j by (auto simp: job_free_def cell_def set_cell_def)
  let ?P = "\<lambda>c :: FmJob option. c \<noteq> None"
  have "length (filter ?P (cells app)) =
    length (filter ?P (take j (cells app))) + 1 + length (filter ?P (drop (Suc j) (cells app)))"
    by (subst id_take_nth_drop [OF j(1)]) (simp add: j(2))
  moreover have "length (filter ?P ((cells app)[j := None])) =
    length (filter ?P (take j (cells app))) + length (filter ?P (drop (Suc j) (cells app)))"
    using j by (simp add: upd_conv_take_nth_drop)
  ultimately show ?thesis by (simp add: live_cells_def c2)
qed

function free_jobs :: "nat option \<Rightarrow> FmApp \<Rightarrow> FmApp option" where
  "free_jobs None app = Some app"
| "free_jobs (Some j) app = (case cell j app of None \<Rightarrow> None
     | Some job \<Rightarrow> (case progress_stop j app of None \<Rightarrow> None
       | Some app1 \<Rightarrow> (case job_free j app1 of None \<Rightarrow> None
         | Some app2 \<Rightarrow> free_jobs (job_next job) app2)))"
  by pat_completeness auto
termination
  by (relation "measure (\<lambda>(j, app). live_cells app)") (auto dest: live_cells_free)

definition notify_cb :: "FmApp \<Rightarrow> FmApp option" where
  "notify_cb app =
     (case drain_done (app\<lparr>notify_pipe := notify_pipe app - min 64 (notify_pipe app)\<rparr>) of (list, app) \<Rightarrow> free_jobs list app)"

subsection \<open>Start, submission, end\<close>

definition jobqueue_init :: "world \<Rightarrow> FmApp" where
  "jobqueue_init w = \<lparr>cells = [], job_head = None, job_tail = None, done_head = None, worker_running = True,
     notify_pipe = 0, windows = [], disk = w, worker = Waiting, main_thread = Looping,
     submitted = 0, executed = [], collected = []\<rparr>"

definition jobqueue_submit :: "nat \<Rightarrow> FmJobType \<Rightarrow> nat \<Rightarrow> cstr list \<Rightarrow> cstr option \<Rightarrow> FmApp \<Rightarrow> FmApp option" where
  "jobqueue_submit j type win srcs dst app =
     map_option (\<lambda>app. app\<lparr>main_thread := Submitted j\<rparr>) (enqueue_pending j (job_alloc j type win srcs dst app))"

definition jobqueue_shutdown :: "FmApp \<Rightarrow> FmApp option" where
  "jobqueue_shutdown app = (case free_jobs (job_head app) app of None \<Rightarrow> None
     | Some app \<Rightarrow> map_option (\<lambda>app. app\<lparr>done_head := None, main_thread := Ended\<rparr>)
         (free_jobs (done_head app) (app\<lparr>job_head := None, job_tail := None\<rparr>)))"

subsection \<open>The two threads\<close>

datatype fm_event =
    Submit nat FmJobType nat "cstr list" "cstr option"
  | ShowProgress
  | Poll nat
  | Cancel nat
  | Notify
  | OpenWindow nat
  | CloseWindow nat
  | Shutdown
  | Join
  | Dequeue
  | Execute "nat option" "fate list" "nat option list"
  | PutDone
  | WritePipe

definition app_remove_window :: "nat \<Rightarrow> FmApp \<Rightarrow> FmApp" where
  "app_remove_window win app = (case find_index (\<lambda>v. v = win) (windows app) of None \<Rightarrow> app
     | Some i \<Rightarrow> app\<lparr>windows := swap_remove i (windows app)\<rparr>)"

fun enabled :: "fm_event \<Rightarrow> FmApp \<Rightarrow> bool" where
  "enabled (Submit j type win srcs dst) app \<longleftrightarrow>
     main_thread app = Looping \<and> can_alloc j app \<and> win \<in> set (windows app) \<and>
     (type \<in> {FM_JOB_COPY, FM_JOB_MOVE} \<longrightarrow> dst \<noteq> None)"
| "enabled ShowProgress app \<longleftrightarrow> (\<exists>j. main_thread app = Submitted j)"
| "enabled (Poll j) app \<longleftrightarrow> main_thread app = Looping \<and> (\<exists>job. cell j app = Some job \<and> progress_timer job)"
| "enabled (Cancel j) app \<longleftrightarrow> main_thread app = Looping \<and> (\<exists>job. cell j app = Some job \<and> has_progress job)"
| "enabled Notify app \<longleftrightarrow> main_thread app = Looping \<and> 0 < notify_pipe app"
| "enabled (OpenWindow win) app \<longleftrightarrow> main_thread app = Looping \<and> win \<notin> set (windows app)"
| "enabled (CloseWindow win) app \<longleftrightarrow> main_thread app = Looping \<and> win \<in> set (windows app)"
| "enabled Shutdown app \<longleftrightarrow> main_thread app = Looping"
| "enabled Join app \<longleftrightarrow> main_thread app = Joining \<and> worker app = Exited"
| "enabled Dequeue app \<longleftrightarrow> worker app = Waiting \<and> (job_head app \<noteq> None \<or> \<not> worker_running app)"
| "enabled (Execute c fs ls) app \<longleftrightarrow> (\<exists>j. worker app = Running j)"
| "enabled PutDone app \<longleftrightarrow> (\<exists>j. worker app = Finished j)"
| "enabled WritePipe app \<longleftrightarrow> worker app = Notifying"

lemma enabled_code [code]:
  "enabled (Submit j type win srcs dst) app \<longleftrightarrow>
     main_thread app = Looping \<and> can_alloc j app \<and> win \<in> set (windows app) \<and>
     (type \<in> {FM_JOB_COPY, FM_JOB_MOVE} \<longrightarrow> dst \<noteq> None)"
  "enabled ShowProgress app \<longleftrightarrow> (case main_thread app of Submitted j \<Rightarrow> True | _ \<Rightarrow> False)"
  "enabled (Poll j) app \<longleftrightarrow> main_thread app = Looping \<and>
     (case cell j app of Some job \<Rightarrow> progress_timer job | None \<Rightarrow> False)"
  "enabled (Cancel j) app \<longleftrightarrow> main_thread app = Looping \<and>
     (case cell j app of Some job \<Rightarrow> has_progress job | None \<Rightarrow> False)"
  "enabled Notify app \<longleftrightarrow> main_thread app = Looping \<and> 0 < notify_pipe app"
  "enabled (OpenWindow win) app \<longleftrightarrow> main_thread app = Looping \<and> win \<notin> set (windows app)"
  "enabled (CloseWindow win) app \<longleftrightarrow> main_thread app = Looping \<and> win \<in> set (windows app)"
  "enabled Shutdown app \<longleftrightarrow> main_thread app = Looping"
  "enabled Join app \<longleftrightarrow> main_thread app = Joining \<and> worker app = Exited"
  "enabled Dequeue app \<longleftrightarrow> worker app = Waiting \<and> (job_head app \<noteq> None \<or> \<not> worker_running app)"
  "enabled (Execute c fs ls) app \<longleftrightarrow> (case worker app of Running j \<Rightarrow> True | _ \<Rightarrow> False)"
  "enabled PutDone app \<longleftrightarrow> (case worker app of Finished j \<Rightarrow> True | _ \<Rightarrow> False)"
  "enabled WritePipe app \<longleftrightarrow> worker app = Notifying"
  by (auto split: main_pc.split worker_pc.split option.split)

fun fm_do :: "fm_event \<Rightarrow> FmApp \<Rightarrow> FmApp option" where
  "fm_do (Submit j type win srcs dst) app = jobqueue_submit j type win srcs dst app"
| "fm_do ShowProgress app = (case main_thread app of
     Submitted j \<Rightarrow> map_option (\<lambda>app. app\<lparr>main_thread := Looping\<rparr>) (progress_start j app) | _ \<Rightarrow> Some app)"
| "fm_do (Poll j) app = poll_timer_cb j app"
| "fm_do (Cancel j) app = cancel_cb j app"
| "fm_do Notify app = notify_cb app"
| "fm_do (OpenWindow win) app = Some (app\<lparr>windows := windows app @ [win]\<rparr>)"
| "fm_do (CloseWindow win) app = Some (app_remove_window win app)"
| "fm_do Shutdown app = Some (app\<lparr>worker_running := False, main_thread := Joining\<rparr>)"
| "fm_do Join app = jobqueue_shutdown app"
| "fm_do Dequeue app = (case dequeue_pending app of None \<Rightarrow> None
     | Some (None, app) \<Rightarrow> Some (app\<lparr>worker := Exited\<rparr>)
     | Some (Some j, app) \<Rightarrow> Some (app\<lparr>worker := Running j\<rparr>))"
| "fm_do (Execute c fs ls) app = (case worker app of
     Running j \<Rightarrow> map_option (\<lambda>app. app\<lparr>worker := Finished j\<rparr>) (run_job c fs ls j app) | _ \<Rightarrow> Some app)"
| "fm_do PutDone app = (case worker app of
     Finished j \<Rightarrow> map_option (\<lambda>app. app\<lparr>worker := Notifying\<rparr>) (enqueue_done j app) | _ \<Rightarrow> Some app)"
| "fm_do WritePipe app = Some (app\<lparr>notify_pipe := notify_pipe app + 1, worker := Waiting\<rparr>)"

inductive fm_reach :: "world \<Rightarrow> FmApp \<Rightarrow> bool" for w where
  init: "fm_reach w (jobqueue_init w)"
| step: "fm_reach w app \<Longrightarrow> enabled e app \<Longrightarrow> fm_do e app = Some app' \<Longrightarrow> fm_reach w app'"

end
