(* ===== verification/Fm_Queue.thy ===== *)
theory Fm_Queue
  imports Fm_Jobs
begin

section \<open>The invariant of the job queue\<close>

text \<open>
  \<open>view app ps ds\<close>: following the links from the head of the queue gives the cells \<open>ps\<close>, from the
  head of the finished jobs the cells \<open>ds\<close>; with the job the worker holds these are all allocated
  cells, each once. The jobs are numbered in the order of their submission; the numbers of \<open>ps\<close>
  go up to the last, those run so far are the first ones, in order. Every event keeps it and none
  but one follows a stale pointer.
\<close>

named_theorems heap "cells, links and their updates"

fun links :: "(nat \<Rightarrow> FmJob option) \<Rightarrow> nat option \<Rightarrow> nat list \<Rightarrow> nat option \<Rightarrow> bool" where
  "links h p [] q \<longleftrightarrow> p = q"
| "links h p (j # js) q \<longleftrightarrow> p = Some j \<and> (\<exists>job. h j = Some job \<and> links h (job_next job) js q)"

definition heap_of :: "FmApp \<Rightarrow> nat \<Rightarrow> FmJob option" where
  "heap_of app j = cell j app"

definition ser :: "(nat \<Rightarrow> FmJob option) \<Rightarrow> nat \<Rightarrow> nat" where
  "ser h j = serial (the (h j))"

fun held :: "worker_pc \<Rightarrow> nat list" where
  "held (Running j) = [j]"
| "held (Finished j) = [j]"
| "held Waiting = []"
| "held Notifying = []"
| "held Exited = []"

fun running :: "worker_pc \<Rightarrow> nat list" where
  "running (Running j) = [j]"
| "running (Finished j) = []"
| "running Waiting = []"
| "running Notifying = []"
| "running Exited = []"

definition view :: "FmApp \<Rightarrow> nat list \<Rightarrow> nat list \<Rightarrow> bool" where
  "view app ps ds \<longleftrightarrow>
     links (heap_of app) (job_head app) ps None \<and> links (heap_of app) (done_head app) ds None \<and>
     job_tail app = (if ps = [] then None else Some (last ps)) \<and>
     distinct (ps @ held (worker app) @ ds) \<and>
     {j. heap_of app j \<noteq> None} = set (ps @ held (worker app) @ ds) \<and>
     executed app @ map (ser (heap_of app)) (running (worker app) @ ps) = [0..<submitted app] \<and>
     mset (collected app @ map (ser (heap_of app)) (ps @ held (worker app) @ ds)) = mset [0..<submitted app] \<and>
     (ds \<noteq> [] \<longrightarrow> 0 < notify_pipe app \<or> worker app = Notifying) \<and>
     (\<forall>j. main_thread app = Submitted j \<longrightarrow>
        (\<exists>job. heap_of app j = Some job \<and> origin_win job \<in> set (windows app))) \<and>
     (worker app = Exited \<longrightarrow> ps = [] \<and> \<not> worker_running app) \<and>
     (worker_running app \<longleftrightarrow> main_thread app \<notin> {Joining, Ended}) \<and>
     (main_thread app = Ended \<longrightarrow> worker app = Exited \<and> ds = [])"

subsection \<open>Cells\<close>

lemma heap_of_set_cell [heap]:
  "j \<le> length (cells app) \<Longrightarrow> heap_of (set_cell j v app) = (heap_of app)(j := v)"
  by (auto simp: heap_of_def cell_def set_cell_def nth_append fun_eq_iff)

lemma heap_of_bound [heap]: "heap_of app j = Some job \<Longrightarrow> j \<le> length (cells app)"
  by (simp add: heap_of_def cell_def split: if_splits)

lemma cell_heap: "cell j app = heap_of app j"
  by (simp add: heap_of_def)

lemma set_cell_fields [simp]:
  "job_head (set_cell j v app) = job_head app" "job_tail (set_cell j v app) = job_tail app"
  "done_head (set_cell j v app) = done_head app" "worker_running (set_cell j v app) = worker_running app"
  "notify_pipe (set_cell j v app) = notify_pipe app" "windows (set_cell j v app) = windows app"
  "disk (set_cell j v app) = disk app" "worker (set_cell j v app) = worker app"
  "main_thread (set_cell j v app) = main_thread app" "submitted (set_cell j v app) = submitted app"
  "executed (set_cell j v app) = executed app" "collected (set_cell j v app) = collected app"
  by (simp_all add: set_cell_def)

lemma heap_of_fields [simp]:
  "heap_of (app\<lparr>job_head := a\<rparr>) = heap_of app" "heap_of (app\<lparr>job_tail := a\<rparr>) = heap_of app"
  "heap_of (app\<lparr>done_head := a\<rparr>) = heap_of app" "heap_of (app\<lparr>worker_running := b\<rparr>) = heap_of app"
  "heap_of (app\<lparr>notify_pipe := n\<rparr>) = heap_of app" "heap_of (app\<lparr>windows := ws\<rparr>) = heap_of app"
  "heap_of (app\<lparr>disk := d\<rparr>) = heap_of app" "heap_of (app\<lparr>worker := pc\<rparr>) = heap_of app"
  "heap_of (app\<lparr>main_thread := mc\<rparr>) = heap_of app" "heap_of (app\<lparr>submitted := n\<rparr>) = heap_of app"
  "heap_of (app\<lparr>executed := l\<rparr>) = heap_of app" "heap_of (app\<lparr>collected := l\<rparr>) = heap_of app"
  by (simp_all add: heap_of_def cell_def fun_eq_iff)

subsection \<open>Links\<close>

lemma links_upd [heap]: "j \<notin> set js \<Longrightarrow> links (h(j := v)) p js q = links h p js q"
  by (induction js arbitrary: p) auto

lemma links_append [heap]: "links h p (xs @ ys) q \<longleftrightarrow> (\<exists>r. links h p xs r \<and> links h r ys q)"
  by (induction xs arbitrary: p) auto

lemma links_same:
  "(\<And>j. j \<in> set js \<Longrightarrow> map_option job_next (h' j) = map_option job_next (h j)) \<Longrightarrow> links h' p js q = links h p js q"
proof (induction js arbitrary: p)
  case (Cons j js)
  from Cons.prems [of j] show ?case using Cons.IH Cons.prems
    by (cases "h j"; cases "h' j") auto
qed simp

lemma ser_upd [heap]: "j \<notin> set js \<Longrightarrow> map (ser (h(j := v))) js = map (ser h) js"
  by (auto simp: ser_def)

text \<open>An update that leaves link, number and window of a job alone keeps the view.\<close>

lemma view_update:
  assumes v: "view app ps ds" and j: "heap_of app j = Some job"
    and s: "job_next job' = job_next job" "serial job' = serial job" "origin_win job' = origin_win job"
  shows "view (set_cell j (Some job') app) ps ds"
proof -
  let ?h = "heap_of app" and ?h' = "(heap_of app)(j := Some job')"
  have h: "heap_of (set_cell j (Some job') app) = ?h'" using heap_of_set_cell heap_of_bound [OF j] by blast
  have p: "links ?h' p js q = links ?h p js q" for p js q by (rule links_same) (use j s in auto)
  have m: "map (ser ?h') js = map (ser ?h) js" for js using j s by (auto simp: ser_def)
  have d: "{k. ?h' k \<noteq> None} = {k. ?h k \<noteq> None}" using j by auto
  have o: "(\<exists>x. ?h' k = Some x \<and> origin_win x \<in> W) \<longleftrightarrow> (\<exists>x. ?h k = Some x \<and> origin_win x \<in> W)" for k W
    using j s by auto
  show ?thesis using v unfolding view_def h p m d o set_cell_fields .
qed

subsection \<open>Freeing a list\<close>

lemma free_jobs_links:
  "links (heap_of app) p js None \<Longrightarrow> distinct js \<Longrightarrow>
   \<exists>app'. free_jobs p app = Some app' \<and> heap_of app' = (\<lambda>j. if j \<in> set js then None else heap_of app j) \<and>
     collected app' = collected app @ map (ser (heap_of app)) js \<and>
     job_head app' = job_head app \<and> job_tail app' = job_tail app \<and> done_head app' = done_head app \<and>
     worker_running app' = worker_running app \<and> notify_pipe app' = notify_pipe app \<and> windows app' = windows app \<and>
     disk app' = disk app \<and> worker app' = worker app \<and> main_thread app' = main_thread app \<and>
     submitted app' = submitted app \<and> executed app' = executed app"
proof (induction js arbitrary: p app)
  case (Cons j js)
  then obtain job where p: "p = Some j" and j: "heap_of app j = Some job"
    and rest: "links (heap_of app) (job_next job) js None" by auto
  let ?a1 = "set_cell j (Some (job\<lparr>has_progress := False, progress_timer := False\<rparr>)) app"
  let ?a2 = "(set_cell j None ?a1)\<lparr>collected := collected app @ [serial job]\<rparr>"
  have b: "j \<le> length (cells app)" using j by (rule heap_of_bound)
  have h1: "heap_of ?a1 = (heap_of app)(j := Some (job\<lparr>has_progress := False, progress_timer := False\<rparr>))"
    using b by (rule heap_of_set_cell)
  have b1: "j \<le> length (cells ?a1)" using h1 heap_of_bound [of ?a1 j] by simp
  have s1: "progress_stop j app = Some ?a1" using j by (simp add: progress_stop_def cell_heap)
  have s2: "job_free j ?a1 = Some ?a2" using h1 by (simp add: job_free_def cell_heap)
  have h2: "heap_of ?a2 = (heap_of app)(j := None)" using heap_of_set_cell [OF b1, of None] h1 by simp
  have "links (heap_of ?a2) (job_next job) js None" using rest Cons.prems(2) h2 by (simp add: links_upd)
  from Cons.IH [OF this] Cons.prems(2) obtain app' where ih: "free_jobs (job_next job) ?a2 = Some app'"
    "heap_of app' = (\<lambda>k. if k \<in> set js then None else heap_of ?a2 k)"
    "collected app' = collected ?a2 @ map (ser (heap_of ?a2)) js"
    "job_head app' = job_head ?a2 \<and> job_tail app' = job_tail ?a2 \<and> done_head app' = done_head ?a2 \<and>
     worker_running app' = worker_running ?a2 \<and> notify_pipe app' = notify_pipe ?a2 \<and> windows app' = windows ?a2 \<and>
     disk app' = disk ?a2 \<and> worker app' = worker ?a2 \<and> main_thread app' = main_thread ?a2 \<and>
     submitted app' = submitted ?a2 \<and> executed app' = executed ?a2" by auto
  have "free_jobs p app = Some app'" using p j s1 s2 ih(1) by (simp add: cell_heap)
  moreover have "heap_of app' = (\<lambda>k. if k \<in> set (j # js) then None else heap_of app k)" using ih(2) h2 by auto
  moreover have "collected app' = collected app @ map (ser (heap_of app)) (j # js)"
    using ih(3) h2 j Cons.prems(2) by (simp add: ser_upd) (simp add: ser_def)
  ultimately show ?case using ih(4) by simp
qed simp

subsection \<open>Events of the worker\<close>

lemma viewD:
  assumes "view app ps ds"
  shows "links (heap_of app) (job_head app) ps None" "links (heap_of app) (done_head app) ds None"
    "job_tail app = (if ps = [] then None else Some (last ps))"
    "distinct (ps @ held (worker app) @ ds)" "{j. heap_of app j \<noteq> None} = set (ps @ held (worker app) @ ds)"
    "executed app @ map (ser (heap_of app)) (running (worker app) @ ps) = [0..<submitted app]"
    "mset (collected app @ map (ser (heap_of app)) (ps @ held (worker app) @ ds)) = mset [0..<submitted app]"
    "ds \<noteq> [] \<longrightarrow> 0 < notify_pipe app \<or> worker app = Notifying"
    "\<And>j. main_thread app = Submitted j \<Longrightarrow> \<exists>job. heap_of app j = Some job \<and> origin_win job \<in> set (windows app)"
    "worker app = Exited \<longrightarrow> ps = [] \<and> \<not> worker_running app"
    "worker_running app \<longleftrightarrow> main_thread app \<notin> {Joining, Ended}"
    "main_thread app = Ended \<longrightarrow> worker app = Exited \<and> ds = []"
  using assms unfolding view_def by blast+

lemma view_live: "view app ps ds \<Longrightarrow> j \<in> set (ps @ held (worker app) @ ds) \<Longrightarrow> \<exists>job. heap_of app j = Some job"
  using viewD(5) by blast

lemma view_dequeue:
  assumes v: "view app ps ds" and e: "worker app = Waiting" "job_head app \<noteq> None \<or> \<not> worker_running app"
  obtains app' ps' where "fm_do Dequeue app = Some app'" "view app' ps' ds"
proof (cases ps)
  case Nil
  note V = viewD [OF v]
  from Nil V(1) have h: "job_head app = None" by simp
  then have "fm_do Dequeue app = Some (app\<lparr>worker := Exited\<rparr>)" by (simp add: dequeue_pending_def)
  moreover have "view (app\<lparr>worker := Exited\<rparr>) [] ds" using v Nil e h V(8,11,12) by (auto simp: view_def)
  ultimately show ?thesis using that by blast
next
  case (Cons j ps')
  note V = viewD [OF v]
  from Cons V(1) obtain job where head: "job_head app = Some j" and j: "heap_of app j = Some job"
    and rest: "links (heap_of app) (job_next job) ps' None" by auto
  let ?job = "job\<lparr>job_next := None\<rparr>"
  let ?app = "(set_cell j (Some ?job) app)\<lparr>job_head := job_next job,
    job_tail := (if job_next job = None then None else job_tail app), worker := Running j\<rparr>"
  have h: "heap_of ?app = (heap_of app)(j := Some ?job)" using heap_of_set_cell [OF heap_of_bound [OF j]] by simp
  have do: "fm_do Dequeue app = Some ?app" using head j by (simp add: dequeue_pending_def cell_heap)
  have ne: "j \<notin> set ps'" "j \<notin> set ds" using V(4) Cons by auto
  have nil: "job_next job = None \<longleftrightarrow> ps' = []" using rest by (cases ps') auto
  have serj: "ser ((heap_of app)(j := Some ?job)) j = ser (heap_of app) j" using j by (simp add: ser_def)
  have dom: "{k. ((heap_of app)(j := Some ?job)) k \<noteq> None} = {k. heap_of app k \<noteq> None}" using j by auto
  have "view ?app ps' ds" unfolding view_def h dom
    using V Cons e rest ne nil serj j
    by (auto simp: links_upd ser_upd split: if_splits)
  with do show ?thesis using that by blast
qed

lemma view_execute:
  assumes v: "view app ps ds" and e: "worker app = Running j"
  obtains app' where "fm_do (Execute c fs ls) app = Some app'" "view app' ps ds"
proof -
  note V = viewD [OF v]
  obtain job where j: "heap_of app j = Some job" using view_live [OF v, of j] e by auto
  obtain err w where x: "exec_job job (job_world (if cancelled job then Some 0 else c) fs ls (disk app)) = (err, w)" by fastforce
  let ?job = "job\<lparr>job_done := files_done w, job_total := files_total w, job_error := err,
    cancelled := (cancelled job \<or> c \<noteq> None), finished := True\<rparr>"
  let ?app = "(set_cell j (Some ?job) app)\<lparr>disk := w, executed := executed app @ [serial job], worker := Finished j\<rparr>"
  have do: "fm_do (Execute c fs ls) app = Some ?app" using e j x by (simp add: run_job_def cell_heap)
  have "view (set_cell j (Some ?job) app) ps ds" using view_update [OF v j] by simp
  then have "view ?app ps ds" using e j heap_of_set_cell [OF heap_of_bound [OF j], of "Some ?job"]
    by (auto simp: view_def ser_def)
  with do show ?thesis using that by blast
qed

lemma view_put_done:
  assumes v: "view app ps ds" and e: "worker app = Finished j"
  obtains app' where "fm_do PutDone app = Some app'" "view app' ps (j # ds)"
proof -
  note V = viewD [OF v]
  obtain job where j: "heap_of app j = Some job" using view_live [OF v, of j] e by auto
  let ?job = "job\<lparr>job_next := done_head app\<rparr>"
  let ?app = "(set_cell j (Some ?job) app)\<lparr>done_head := Some j, worker := Notifying\<rparr>"
  have h: "heap_of ?app = (heap_of app)(j := Some ?job)" using heap_of_set_cell [OF heap_of_bound [OF j]] by simp
  have do: "fm_do PutDone app = Some ?app" using e j by (simp add: enqueue_done_def cell_heap)
  have ne: "j \<notin> set ps" "j \<notin> set ds" using V(4) e by auto
  have serj: "ser ((heap_of app)(j := Some ?job)) j = ser (heap_of app) j" using j by (simp add: ser_def)
  have dom: "{k. ((heap_of app)(j := Some ?job)) k \<noteq> None} = {k. heap_of app k \<noteq> None}" using j by auto
  have "view ?app ps (j # ds)" unfolding view_def h dom
    using V e ne serj j by (auto simp: links_upd ser_upd)
  with do show ?thesis using that by blast
qed

lemma view_write_pipe:
  assumes v: "view app ps ds" and e: "worker app = Notifying"
  shows "view (app\<lparr>notify_pipe := notify_pipe app + 1, worker := Waiting\<rparr>) ps ds"
  using v e by (auto simp: view_def)

subsection \<open>Events of the main thread\<close>

lemma view_submit:
  assumes v: "view app ps ds" and e: "enabled (Submit j type win srcs dst) app"
  obtains app' where "fm_do (Submit j type win srcs dst) app = Some app'" "view app' (ps @ [j]) ds"
proof -
  note V = viewD [OF v]
  let ?a = "job_alloc j type win srcs dst app"
  from e have m: "main_thread app = Looping" and b: "j \<le> length (cells app)" and free: "heap_of app j = None"
    and win: "win \<in> set (windows app)" by (auto simp: can_alloc_def cell_heap)
  obtain new where h: "heap_of ?a = (heap_of app)(j := Some new)" and new: "job_next new = None"
    "serial new = submitted app" "origin_win new = win"
    using heap_of_set_cell [of j "app\<lparr>submitted := submitted app + 1\<rparr>"] b by (auto simp: job_alloc_def)
  have f: "job_tail ?a = job_tail app" "job_head ?a = job_head app" "done_head ?a = done_head app"
    "worker ?a = worker app" "windows ?a = windows app" "notify_pipe ?a = notify_pipe app" "executed ?a = executed app"
    "collected ?a = collected app" "worker_running ?a = worker_running app" "submitted ?a = submitted app + 1"
    by (simp_all add: job_alloc_def)
  have nin: "j \<notin> set (ps @ held (worker app) @ ds)" using view_live [OF v, of j] free by auto
  have nr: "j \<notin> set (running (worker app))" using nin by (cases "worker app") auto
  have ex: "worker app \<noteq> Exited" using V(10,11) m by auto
  show ?thesis
  proof (cases "ps = []")
    case True
    let ?app = "?a\<lparr>job_head := Some j, job_tail := Some j, main_thread := Submitted j\<rparr>"
    have do: "fm_do (Submit j type win srcs dst) app = Some ?app"
      using True V(3) f by (simp add: jobqueue_submit_def enqueue_pending_def)
    have "view ?app (ps @ [j]) ds" using V True h new f nin nr win ex m
      by (auto simp: view_def ser_upd links_upd) (auto simp: ser_def)
    with do show ?thesis using that by blast
  next
    case False
    let ?t = "last ps"
    have t_in: "?t \<in> set ps" using False by simp
    then obtain tj where tj: "heap_of app ?t = Some tj" using view_live [OF v, of ?t] by auto
    have tj_ne: "?t \<noteq> j" using t_in nin by auto
    have at: "heap_of ?a ?t = Some tj" using h tj tj_ne by simp
    let ?tj = "tj\<lparr>job_next := Some j\<rparr>"
    let ?app = "(set_cell ?t (Some ?tj) ?a)\<lparr>job_tail := Some j, main_thread := Submitted j\<rparr>"
    have do: "fm_do (Submit j type win srcs dst) app = Some ?app"
      using False V(3) f at by (simp add: jobqueue_submit_def enqueue_pending_def cell_heap)
    let ?h = "(heap_of app)(j := Some new, ?t := Some ?tj)"
    have hh: "heap_of ?app = ?h" using heap_of_set_cell [OF heap_of_bound [OF at]] h by simp
    have ps: "ps = butlast ps @ [?t]" using False by simp
    have dis: "?t \<notin> set (butlast ps)" using V(4) ps by (metis distinct_append not_distinct_conv_prefix)
    have p1: "links (heap_of app) (job_head app) (butlast ps) (Some ?t)"
      using V(1) ps by (metis links_append links.simps(2))
    have jb: "j \<notin> set (butlast ps)" using nin by (auto dest: in_set_butlastD)
    have "links ?h (job_head app) (butlast ps @ [?t, j]) None"
      using p1 dis jb tj_ne new(1) unfolding links_append by (auto simp: links_upd intro!: exI [of _ "Some ?t"])
    then have p: "links ?h (job_head app) (ps @ [j]) None" using ps by (metis append.assoc append_Cons append_Nil)
    have pd: "links ?h (done_head app) ds None" using V(2,4) nin t_in by (auto simp: links_upd)
    have ser: "map (ser ?h) xs = map (ser (heap_of app)) xs" if "j \<notin> set xs" for xs
      using that tj tj_ne by (auto simp: ser_def)
    have serj: "ser ?h j = submitted app" using new tj_ne by (simp add: ser_def)
    have dom: "{k. ?h k \<noteq> None} = insert j {k. heap_of app k \<noteq> None}" using tj by auto
    have o: "map (ser ?h) ps = map (ser (heap_of app)) ps" "map (ser ?h) (held (worker app)) = map (ser (heap_of app)) (held (worker app))"
      "map (ser ?h) ds = map (ser (heap_of app)) ds" "map (ser ?h) (running (worker app)) = map (ser (heap_of app)) (running (worker app))"
      using nin nr by (intro ser; simp)+
    have order: "executed app @ map (ser ?h) (running (worker app) @ ps @ [j]) = [0..<submitted app + 1]"
      using V(6) by (simp add: o serj del: map_eq_conv)
    have all: "mset (collected app @ map (ser ?h) ((ps @ [j]) @ held (worker app) @ ds)) = mset [0..<submitted app + 1]"
      using V(7) by (simp add: o serj del: map_eq_conv mset_map mset_upt)
    have "view ?app (ps @ [j]) ds" unfolding view_def hh dom
      using V(3-5,8-12) p pd f nin order all new win ex m tj_ne by auto
    with do show ?thesis using that by blast
  qed
qed

lemma view_show_progress:
  assumes v: "view app ps ds" and e: "main_thread app = Submitted j"
  obtains app' where "fm_do ShowProgress app = Some app'" "view app' ps ds"
proof -
  note V = viewD [OF v]
  from V(9) [OF e] obtain job where j: "heap_of app j = Some job" and w: "origin_win job \<in> set (windows app)" by blast
  let ?a = "set_cell j (Some (job\<lparr>has_progress := True, progress_timer := True\<rparr>)) app"
  have do: "fm_do ShowProgress app = Some (?a\<lparr>main_thread := Looping\<rparr>)"
    using e j w by (simp add: progress_start_def cell_heap)
  have "view ?a ps ds" using view_update [OF v j] by simp
  then have "view (?a\<lparr>main_thread := Looping\<rparr>) ps ds" using e by (auto simp: view_def)
  with do show ?thesis using that by blast
qed

lemma view_poll:
  assumes v: "view app ps ds" and j: "heap_of app j = Some job"
  shows "fm_do (Poll j) app = None \<longleftrightarrow> \<not> finished job \<and> origin_win job \<notin> set (windows app)"
    and "fm_do (Poll j) app = Some app' \<Longrightarrow> view app' ps ds"
  using j v view_update [OF v j] by (auto simp: poll_timer_cb_def cell_heap split: if_splits)

lemma view_cancel:
  assumes v: "view app ps ds" and j: "heap_of app j = Some job"
  obtains app' where "fm_do (Cancel j) app = Some app'" "view app' ps ds"
  using j view_update [OF v j, of "job\<lparr>cancelled := True\<rparr>"] by (auto simp: cancel_cb_def cell_heap)

text \<open>Freeing the finished jobs, from the state \<open>app1\<close> in which they were taken off the list.\<close>

lemma view_drained:
  assumes v: "view app ps ds" and a: "heap_of app1 = heap_of app" "collected app1 = collected app"
    and same: "job_head app1 = job_head app" "job_tail app1 = job_tail app"
      "worker_running app1 = worker_running app" "windows app1 = windows app" "worker app1 = worker app"
      "main_thread app1 = main_thread app" "submitted app1 = submitted app" "executed app1 = executed app"
    and m: "\<forall>j. main_thread app \<noteq> Submitted j"
  obtains app' where "free_jobs (done_head app) app1 = Some app'" "view (app'\<lparr>done_head := None\<rparr>) ps []"
    "done_head app' = done_head app1" "worker app' = worker app" "main_thread app' = main_thread app"
proof -
  note V = viewD [OF v]
  have "distinct ds" using V(4) by simp
  with free_jobs_links [of app1 "done_head app" ds, unfolded a] V(2)
  obtain app' where f: "free_jobs (done_head app) app1 = Some app'"
    "heap_of app' = (\<lambda>j. if j \<in> set ds then None else heap_of app j)"
    "collected app' = collected app @ map (ser (heap_of app)) ds" "done_head app' = done_head app1"
    and g: "job_head app' = job_head app" "job_tail app' = job_tail app"
    "worker_running app' = worker_running app" "windows app' = windows app" "worker app' = worker app"
    "main_thread app' = main_thread app" "submitted app' = submitted app" "executed app' = executed app"
    using same by auto
  have out: "set xs \<inter> set ds = {} \<Longrightarrow> map (ser (heap_of app')) xs = map (ser (heap_of app)) xs" for xs
    using f(2) by (auto simp: ser_def)
  have d: "set ps \<inter> set ds = {}" "set (held (worker app)) \<inter> set ds = {}" "set (running (worker app)) \<inter> set ds = {}"
    using V(4) by (cases "worker app"; auto)+
  note o = out [OF d(1)] out [OF d(2)] out [OF d(3)]
  have dom: "{k. heap_of app' k \<noteq> None} = {k. heap_of app k \<noteq> None} - set ds" using f(2) by auto
  have pth: "links (heap_of app') (job_head app) ps None"
    using V(1) by (subst links_same [of ps _ "heap_of app"]) (use f(2) d(1) in auto)
  have order: "executed app @ map (ser (heap_of app')) (running (worker app) @ ps) = [0..<submitted app]"
    using V(6) by (simp only: map_append o)
  have all: "mset ((collected app @ map (ser (heap_of app)) ds) @ map (ser (heap_of app')) (ps @ held (worker app) @ [])) =
      mset [0..<submitted app]"
    using V(7) by (simp only: map_append mset_append o append_Nil2 ac_simps)
  have "view (app'\<lparr>done_head := None\<rparr>) ps []" unfolding view_def
    using pth order all dom g f(3) V(3-5,8,10-12) d m by auto
  with f g that show ?thesis by blast
qed

lemma view_notify:
  assumes v: "view app ps ds" and m: "main_thread app = Looping"
  obtains app' where "fm_do Notify app = Some app'" "view app' ps []"
proof -
  let ?a = "app\<lparr>notify_pipe := notify_pipe app - min 64 (notify_pipe app), done_head := None\<rparr>"
  obtain app' where "free_jobs (done_head app) ?a = Some app'" "view (app'\<lparr>done_head := None\<rparr>) ps []"
    "done_head app' = done_head ?a"
    by (rule view_drained [OF v, of ?a]) (use m in auto)
  moreover from this(3) have "app'\<lparr>done_head := None\<rparr> = app'" by (cases app') simp
  ultimately show ?thesis using that by (simp add: notify_cb_def drain_done_def)
qed

lemma view_join:
  assumes v: "view app ps ds" and m: "main_thread app = Joining" and e: "worker app = Exited"
  obtains app' where "fm_do Join app = Some app'" "view app' [] []" "ps = []"
proof -
  note V = viewD [OF v]
  have ps: "ps = []" using V(10) e by simp
  then have head: "job_head app = None" "job_tail app = None" using V(1,3) by auto
  let ?a = "app\<lparr>job_head := None, job_tail := None\<rparr>"
  obtain app' where f: "free_jobs (done_head app) ?a = Some app'" "view (app'\<lparr>done_head := None\<rparr>) ps []"
    "worker app' = worker app" "main_thread app' = main_thread app"
    by (rule view_drained [OF v, of ?a]) (use m head in auto)
  let ?e = "app'\<lparr>done_head := None, main_thread := Ended\<rparr>"
  have "fm_do Join app = Some ?e" using f(1) head by (simp add: jobqueue_shutdown_def)
  moreover have "view ?e [] []" using f(2-4) ps m e by (auto simp: view_def)
  ultimately show ?thesis using that ps by blast
qed

subsection \<open>Every event\<close>

lemma fm_do_view:
  assumes v: "view app ps ds" and e: "enabled ev app"
  shows "(\<exists>app' ps' ds'. fm_do ev app = Some app' \<and> view app' ps' ds') \<or>
    (\<exists>j job. ev = Poll j \<and> heap_of app j = Some job \<and> \<not> finished job \<and> origin_win job \<notin> set (windows app))"
proof (cases ev)
  case (Submit j type win srcs dst)
  then show ?thesis using view_submit [OF v] e by metis
next
  case ShowProgress
  then show ?thesis using view_show_progress [OF v] e by (metis enabled.simps(2))
next
  case (Poll j)
  then obtain job where j: "heap_of app j = Some job" using e by (auto simp: cell_heap)
  show ?thesis
  proof (cases "fm_do (Poll j) app")
    case None
    then show ?thesis using view_poll(1) [OF v j] Poll j by auto
  next
    case (Some app')
    then show ?thesis using view_poll(2) [OF v j] Poll by blast
  qed
next
  case (Cancel j)
  then obtain job where "heap_of app j = Some job" using e by (auto simp: cell_heap)
  then show ?thesis using view_cancel [OF v] Cancel by metis
next
  case Notify
  then show ?thesis using view_notify [OF v] e by (metis enabled.simps(5))
next
  case (OpenWindow win)
  then have "view (app\<lparr>windows := windows app @ [win]\<rparr>) ps ds" using v e by (auto simp: view_def)
  then show ?thesis using OpenWindow by auto
next
  case (CloseWindow win)
  then have "view (app_remove_window win app) ps ds" using v e by (auto simp: view_def app_remove_window_def split: option.split)
  then show ?thesis using CloseWindow by auto
next
  case Shutdown
  have "view (app\<lparr>worker_running := False, main_thread := Joining\<rparr>) ps ds" using v e Shutdown by (auto simp: view_def)
  then show ?thesis using Shutdown by auto
next
  case Join
  then show ?thesis using view_join [OF v] e by (metis enabled.simps(9))
next
  case Dequeue
  then show ?thesis using view_dequeue [OF v] e by (metis enabled.simps(10))
next
  case (Execute c fs ls)
  then show ?thesis using view_execute [OF v] e by (metis enabled.simps(11))
next
  case PutDone
  then show ?thesis using view_put_done [OF v] e by (metis enabled.simps(12))
next
  case WritePipe
  then show ?thesis using view_write_pipe [OF v] e by auto
qed

lemma fm_reach_view: "fm_reach w app \<Longrightarrow> \<exists>ps ds. view app ps ds"
proof (induction rule: fm_reach.induct)
  case init
  have "view (jobqueue_init w) [] []" by (simp add: view_def jobqueue_init_def heap_of_def cell_def)
  then show ?case by blast
next
  case (step app e app')
  then obtain ps ds where "view app ps ds" by blast
  from fm_do_view [OF this step(2)] step(3) show ?case
    using view_poll(1) [OF \<open>view app ps ds\<close>] by (metis option.distinct(1) option.inject)
qed

end
