(* ===== verification/Fm_Win.thy ===== *)
theory Fm_Win
  imports Fm_Trash Fm_Queue
begin

section \<open>A window of the file manager\<close>

text \<open>
  The state a window keeps and the operations on it: reading a directory (\<^verbatim>\<open>browser.c\<close>),
  navigation and its history (\<^verbatim>\<open>navigate.c\<close>, \<^verbatim>\<open>navbar.c\<close>, \<^verbatim>\<open>shortcuts.c\<close>), the clipboard
  (\<^verbatim>\<open>clipboard.c\<close>) and drag and drop (\<^verbatim>\<open>dnd.c\<close>). The indices the view reports as selected are an
  argument. The history is the array of 64 pointers of the C structure; reading a slot that is
  outside of it, free or null gives \<open>None\<close>. \<^verbatim>\<open>qsort\<close> is modelled by a stable sort.
\<close>

record FmEntry =
  ent_name :: cstr
  full_path :: cstr
  is_dir :: bool
  is_hidden :: bool

datatype FmClipOp = FM_CLIP_NONE | FM_CLIP_COPY | FM_CLIP_CUT

record FmClipboard =
  clip_op :: FmClipOp
  clip_paths :: "cstr list"
  uri_data :: "cstr option"
  gnome_data :: "cstr option"

record Fm =
  cwd :: cstr
  entries :: "FmEntry list"
  show_hidden :: bool
  history :: "cstr option list"
  hist_pos :: nat
  hist_count :: nat
  clipboard :: FmClipboard
  ctx_target_index :: int
  dnd_drag_paths :: "cstr list"
  dnd_drop_was_noop :: bool
  dnd_drop_highlight :: int

definition fm_history_max :: nat where "fm_history_max = 64"

subsection \<open>Reading a directory\<close>

definition fold_case :: "char \<Rightarrow> nat" where
  "fold_case c = (let b = of_char c in if 65 \<le> b \<and> b \<le> 90 then b + 32 else b)"

fun lex_le :: "nat list \<Rightarrow> nat list \<Rightarrow> bool" where
  "lex_le [] ys \<longleftrightarrow> True"
| "lex_le (x # xs) [] \<longleftrightarrow> False"
| "lex_le (x # xs) (y # ys) \<longleftrightarrow> x < y \<or> x = y \<and> lex_le xs ys"

text \<open>\<^verbatim>\<open>entry_cmp\<close> is not positive: directories first, then by \<^verbatim>\<open>strcasecmp\<close>.\<close>

definition entry_le :: "FmEntry \<Rightarrow> FmEntry \<Rightarrow> bool" where
  "entry_le a b = (if is_dir a \<noteq> is_dir b then is_dir a
     else lex_le (map fold_case (ent_name a)) (map fold_case (ent_name b)))"

fun insert_entry :: "FmEntry \<Rightarrow> FmEntry list \<Rightarrow> FmEntry list" where
  "insert_entry e [] = [e]"
| "insert_entry e (f # fs) = (if entry_le e f then e # f # fs else f # insert_entry e fs)"

definition sort_entries :: "FmEntry list \<Rightarrow> FmEntry list" where
  "sort_entries es = foldr insert_entry es []"

definition stat_is_dir :: "world \<Rightarrow> cstr \<Rightarrow> bool" where
  "stat_is_dir w p = (case resolve True w p of Inl _ \<Rightarrow> False | Inr l \<Rightarrow> is_dir_at (w_root w) l)"

definition make_entry :: "world \<Rightarrow> cstr \<Rightarrow> cstr \<Rightarrow> FmEntry" where
  "make_entry w path name =
     (let full = (if 1 < length path then path @ ''/'' @ name else ''/'' @ name) in
      \<lparr>ent_name = name, full_path = full, is_dir = stat_is_dir w full, is_hidden = (take 1 name = ''.'')\<rparr>)"

definition browser_read_dir :: "Fm \<Rightarrow> cstr \<Rightarrow> world \<Rightarrow> int \<times> Fm \<times> world" where
  "browser_read_dir fm path w = (case opendir path w of
     (None, w) \<Rightarrow> (-1, fm, w)
   | (Some ns, w) \<Rightarrow> (0, fm\<lparr>entries := sort_entries (map (make_entry w path)
       (filter (\<lambda>n. n \<noteq> ''.'' \<and> n \<noteq> ''..'' \<and> (show_hidden fm \<or> take 1 n \<noteq> ''.'')) ns))\<rparr>, w))"

subsection \<open>Navigation\<close>

definition fm_refresh :: "Fm \<Rightarrow> world \<Rightarrow> Fm \<times> world" where
  "fm_refresh fm w = (case browser_read_dir fm (cwd fm) w of (_, fm, w) \<Rightarrow> (fm, w))"

definition free_slots :: "nat \<Rightarrow> nat \<Rightarrow> cstr option list \<Rightarrow> cstr option list" where
  "free_slots a b h = map (\<lambda>i. if a \<le> i \<and> i < b then None else h ! i) [0..<length h]"

definition push_history :: "cstr \<Rightarrow> Fm \<Rightarrow> Fm" where
  "push_history path fm =
     (let pos = hist_pos fm + 1 in
      if pos < fm_history_max
      then fm\<lparr>hist_pos := pos, history := (free_slots pos (hist_count fm) (history fm))[pos := Some path],
        hist_count := pos + 1\<rparr>
      else fm\<lparr>hist_pos := pos\<rparr>)"

definition fm_navigate :: "cstr \<Rightarrow> Fm \<Rightarrow> world \<Rightarrow> Fm \<times> world" where
  "fm_navigate path fm w = (case browser_read_dir fm path w of (r, fm', w) \<Rightarrow>
     if r \<noteq> 0 then (fm, w) else (push_history path (fm'\<lparr>cwd := path\<rparr>), w))"

definition hist_slot :: "Fm \<Rightarrow> nat \<Rightarrow> cstr option" where
  "hist_slot fm i = (if i < length (history fm) then history fm ! i else None)"

definition go_to :: "nat \<Rightarrow> Fm \<Rightarrow> world \<Rightarrow> (Fm \<times> world) option" where
  "go_to pos fm w = (case hist_slot fm pos of None \<Rightarrow> None
     | Some path \<Rightarrow> Some (fm_refresh (fm\<lparr>hist_pos := pos, cwd := path\<rparr>) w))"

definition navigate_history :: "nat \<Rightarrow> Fm \<Rightarrow> world \<Rightarrow> (Fm \<times> world) option" where
  "navigate_history pos fm w = (if hist_count fm \<le> pos then Some (fm, w) else go_to pos fm w)"

definition back_cb :: "Fm \<Rightarrow> world \<Rightarrow> (Fm \<times> world) option" where
  "back_cb fm w = (if 0 < hist_pos fm then navigate_history (hist_pos fm - 1) fm w else Some (fm, w))"

definition fwd_cb :: "Fm \<Rightarrow> world \<Rightarrow> (Fm \<times> world) option" where
  "fwd_cb fm w = (if int (hist_pos fm) < int (hist_count fm) - 1
     then navigate_history (hist_pos fm + 1) fm w else Some (fm, w))"

definition parent_dir :: "cstr \<Rightarrow> cstr" where
  "parent_dir p = (let d = butlast (dir_part p) in if d = [] then ''/'' else d)"

definition up_cb :: "Fm \<Rightarrow> world \<Rightarrow> Fm \<times> world" where
  "up_cb fm = fm_navigate (parent_dir (cwd fm)) fm"

definition act_go_up :: "Fm \<Rightarrow> world \<Rightarrow> Fm \<times> world" where
  "act_go_up fm w = fm_navigate (parent_dir (cwd fm)) fm w"

definition act_toggle_hidden :: "Fm \<Rightarrow> world \<Rightarrow> Fm \<times> world" where
  "act_toggle_hidden fm w = fm_refresh (fm\<lparr>show_hidden := \<not> show_hidden fm\<rparr>) w"

definition act_go_back :: "Fm \<Rightarrow> world \<Rightarrow> (Fm \<times> world) option" where
  "act_go_back fm w = (if hist_pos fm = 0 then Some (fm, w) else go_to (hist_pos fm - 1) fm w)"

definition act_go_fwd :: "Fm \<Rightarrow> world \<Rightarrow> (Fm \<times> world) option" where
  "act_go_fwd fm w = (if int (hist_count fm) - 1 \<le> int (hist_pos fm) then Some (fm, w)
     else go_to (hist_pos fm + 1) fm w)"

definition empty_clipboard :: FmClipboard where
  "empty_clipboard = \<lparr>clip_op = FM_CLIP_NONE, clip_paths = [], uri_data = None, gnome_data = None\<rparr>"

definition fm_window_new :: "bool \<Rightarrow> cstr option \<Rightarrow> cstr \<Rightarrow> world \<Rightarrow> Fm \<times> world" where
  "fm_window_new hidden home path w =
     (let fm = \<lparr>cwd = path, entries = [], show_hidden = hidden, history = replicate fm_history_max None,
        hist_pos = 0, hist_count = 1, clipboard = empty_clipboard, ctx_target_index = -1,
        dnd_drag_paths = [], dnd_drop_was_noop = False, dnd_drop_highlight = -1\<rparr>;
        opened = (\<lambda>start fm. fm\<lparr>cwd := start, history := (history fm)[0 := Some start]\<rparr>) in
      case browser_read_dir fm path w of (r, fm, w) \<Rightarrow>
        if r = 0 then (opened path fm, w)
        else (let start = (case home of Some h \<Rightarrow> if h \<noteq> [] then h else ''/'' | None \<Rightarrow> ''/'') in
          case browser_read_dir fm start w of (r, fm, w) \<Rightarrow>
            (let start = (if r \<noteq> 0 then ''/'' else start) in
             case browser_read_dir fm start w of (_, fm, w) \<Rightarrow> (opened start fm, w))))"

subsection \<open>Clipboard\<close>

definition fileview_get_selected_items :: "Fm \<Rightarrow> int list \<Rightarrow> int list" where
  "fileview_get_selected_items fm sel = (if 0 \<le> ctx_target_index fm then [ctx_target_index fm] else sel)"

definition selected_paths :: "Fm \<Rightarrow> int list \<Rightarrow> cstr list" where
  "selected_paths fm sel =
     map (\<lambda>i. full_path (entries fm ! nat i))
       (filter (\<lambda>i. 0 \<le> i \<and> i < int (length (entries fm))) (fileview_get_selected_items fm sel))"

definition file_uri :: "cstr \<Rightarrow> cstr" where
  "file_uri p = ''file://'' @ p"

definition crlf :: cstr where "crlf = [CHR 0x0D, newline]"

definition uri_list :: "cstr list \<Rightarrow> cstr" where
  "uri_list ps = concat (map (\<lambda>p. file_uri p @ crlf) ps)"

fun join_lines :: "cstr list \<Rightarrow> cstr" where
  "join_lines [] = []"
| "join_lines [p] = file_uri p"
| "join_lines (p # ps) = file_uri p @ newline # join_lines ps"

definition clip_set_from_selection :: "FmClipOp \<Rightarrow> int list \<Rightarrow> Fm \<Rightarrow> Fm" where
  "clip_set_from_selection op sel fm =
     (let ps = selected_paths fm sel in
      if ps = [] then fm\<lparr>clipboard := empty_clipboard\<rparr>
      else fm\<lparr>clipboard := \<lparr>clip_op = op, clip_paths = ps, uri_data = Some (uri_list ps),
        gnome_data = Some ((if op = FM_CLIP_CUT then ''cut'' else ''copy'') @ newline # join_lines ps)\<rparr>\<rparr>)"

datatype target = Targets | UriList | GnomeFiles | OtherTarget

definition convert_selection :: "Fm \<Rightarrow> target \<Rightarrow> cstr option" where
  "convert_selection fm t = (if clip_paths (clipboard fm) = [] then None
     else case t of UriList \<Rightarrow> uri_data (clipboard fm) | GnomeFiles \<Rightarrow> gnome_data (clipboard fm) | _ \<Rightarrow> None)"

text \<open>\<^verbatim>\<open>strtok_r\<close> with the two separators of lines.\<close>

fun tokens :: "(char \<Rightarrow> bool) \<Rightarrow> cstr \<Rightarrow> cstr \<Rightarrow> cstr list" where
  "tokens sep acc [] = (if acc = [] then [] else [rev acc])"
| "tokens sep acc (c # cs) =
     (if sep c then (if acc = [] then tokens sep [] cs else rev acc # tokens sep [] cs)
      else tokens sep (c # acc) cs)"

definition line_sep :: "char \<Rightarrow> bool" where
  "line_sep c \<longleftrightarrow> c = CHR 0x0D \<or> c = newline"

definition strip_scheme :: "cstr \<Rightarrow> cstr" where
  "strip_scheme p = (if take 7 p = ''file://'' then drop 7 p else p)"

definition receive_paste :: "target \<Rightarrow> cstr \<Rightarrow> FmClipOp \<times> cstr list" where
  "receive_paste type value =
     (let data = c_string value;
          (op, rest) = (if type = GnomeFiles then
            if take 4 data = ''cut'' @ [newline] then (FM_CLIP_CUT, drop 4 data)
            else if take 5 data = ''copy'' @ [newline] then (FM_CLIP_COPY, drop 5 data)
            else (FM_CLIP_COPY, data) else (FM_CLIP_COPY, data)) in
      (op, filter (\<lambda>p. take 1 p = ''/'') (map strip_scheme (tokens line_sep [] rest))))"

datatype paste_job = NoJob | CopyJob "cstr list" cstr | MoveJob "cstr list" cstr

definition submit_paste_job :: "Fm \<Rightarrow> FmClipOp \<Rightarrow> cstr list \<Rightarrow> paste_job" where
  "submit_paste_job fm op paths = (if paths = [] then NoJob
     else if op = FM_CLIP_CUT then MoveJob paths (cwd fm) else CopyJob paths (cwd fm))"

subsection \<open>Drag and drop\<close>

datatype IswDndAction = ISW_DND_ACTION_COPY | ISW_DND_ACTION_MOVE

definition start_drag :: "int list \<Rightarrow> Fm \<Rightarrow> Fm" where
  "start_drag sel fm = fm\<lparr>dnd_drop_was_noop := False, dnd_drag_paths := selected_paths fm sel\<rparr>"

definition drag_convert :: "Fm \<Rightarrow> cstr option" where
  "drag_convert fm = (if dnd_drag_paths fm = [] then None else Some (uri_list (dnd_drag_paths fm)))"

text \<open>The fall-back parser of a dropped URI list: lines, a carriage return at the end dropped.\<close>

definition extract_uris :: "cstr \<Rightarrow> cstr list" where
  "extract_uris data =
     map c_string (filter (\<lambda>l. l \<noteq> [] \<and> take 1 l \<noteq> ''#'')
       (map (\<lambda>l. if l \<noteq> [] \<and> last l = CHR 0x0D then butlast l else l) (split_on newline data)))"

definition collect_paths :: "cstr list \<Rightarrow> cstr \<Rightarrow> IswDndAction \<Rightarrow> cstr list" where
  "collect_paths uris target_dir action =
     filter (\<lambda>p. take 1 p = ''/'' \<and> \<not> (action = ISW_DND_ACTION_MOVE \<and> target_dir = butlast (dir_part p)))
       (map strip_scheme uris)"

definition drop_target :: "Fm \<Rightarrow> cstr" where
  "drop_target fm = (let hi = dnd_drop_highlight fm in
     if 0 \<le> hi \<and> hi < int (length (entries fm)) \<and> is_dir (entries fm ! nat hi)
     then full_path (entries fm ! nat hi) else cwd fm)"

definition drop_cb :: "cstr list \<Rightarrow> IswDndAction \<Rightarrow> Fm \<Rightarrow> Fm \<times> paste_job" where
  "drop_cb uris action fm = (if uris = [] then (fm, NoJob)
     else let dir = drop_target fm; ps = collect_paths uris dir action in
       (fm\<lparr>dnd_drop_highlight := -1, dnd_drop_was_noop := (ps = [])\<rparr>, if ps = [] then NoJob else CopyJob ps dir))"

fun delete_each :: "cstr list \<Rightarrow> world \<Rightarrow> world" where
  "delete_each [] w = w"
| "delete_each (p # ps) w = (case lstat p w of
     (None, w) \<Rightarrow> delete_each ps w
   | (Some _, w) \<Rightarrow> delete_each ps (snd (fileops_delete p w)))"

definition drag_finished :: "IswDndAction \<Rightarrow> bool \<Rightarrow> Fm \<Rightarrow> world \<Rightarrow> Fm \<times> world" where
  "drag_finished action accepted fm w =
     (case (if accepted \<and> action = ISW_DND_ACTION_MOVE \<and> \<not> dnd_drop_was_noop fm \<and> dnd_drag_paths fm \<noteq> []
            then fm_refresh fm (delete_each (dnd_drag_paths fm) w) else (fm, w)) of
        (fm, w) \<Rightarrow> (fm\<lparr>dnd_drag_paths := []\<rparr>, w))"

subsection \<open>Deleting with confirmation\<close>

text \<open>
  The dialog is built for the items selected when it opens; its answer is handled later, in the
  state of the window at that time. An action of the context menu runs with the item under the
  pointer as the selection and resets it when it returns, which is before any dialog is answered.
\<close>

definition in_trash :: "Fm \<Rightarrow> world \<Rightarrow> bool" where
  "in_trash fm w = (let t = get_trash_dir w @ ''/files'' in take (length t) (cwd fm) = t)"

record delete_dialog =
  dlg_message :: cstr
  dlg_permanent :: bool

definition dialog_message :: "Fm \<Rightarrow> int list \<Rightarrow> bool \<Rightarrow> cstr" where
  "dialog_message fm indices permanent = snprintf 256 (case indices of
     [i] \<Rightarrow> (let name = (if 0 \<le> i \<and> i < int (length (entries fm)) then ent_name (entries fm ! nat i) else ''selected item'')
             in if permanent then ''Permanently delete \"'' @ name @ ''\"?'' else ''Move \"'' @ name @ ''\" to Trash?'')
   | _ \<Rightarrow> (let n = dec_of_nat (length indices)
          in if permanent then ''Permanently delete '' @ n @ '' items?'' else ''Move '' @ n @ '' items to Trash?''))"

definition fm_delete_confirm :: "bool \<Rightarrow> int list \<Rightarrow> Fm \<Rightarrow> world \<Rightarrow> delete_dialog option \<times> world" where
  "fm_delete_confirm permanent sel fm w =
     (let indices = fileview_get_selected_items fm sel in
      if indices = [] then (None, w)
      else case fileops_trash_path w of (_, w) \<Rightarrow>
        (let p = permanent \<or> in_trash fm w in
         (Some \<lparr>dlg_message = dialog_message fm indices p, dlg_permanent = p\<rparr>, w)))"

datatype delete_job = NoDelete | DeleteJob "cstr list" | TrashJob "cstr list"

definition delete_result_cb :: "bool \<Rightarrow> delete_dialog \<Rightarrow> int list \<Rightarrow> Fm \<Rightarrow> delete_job" where
  "delete_result_cb ok d sel fm =
     (let ps = selected_paths fm sel in
      if \<not> ok \<or> ps = [] then NoDelete else if dlg_permanent d then DeleteJob ps else TrashJob ps)"

definition ctx_delete :: "int \<Rightarrow> int list \<Rightarrow> Fm \<Rightarrow> world \<Rightarrow> delete_dialog option \<times> Fm \<times> world" where
  "ctx_delete target sel fm w =
     (case fm_delete_confirm False sel (fm\<lparr>ctx_target_index := target\<rparr>) w of
        (d, w) \<Rightarrow> (d, fm\<lparr>ctx_target_index := -1\<rparr>, w))"

end
