(* ===== verification/Fm_View.thy ===== *)
theory Fm_View
  imports Fm_Win
begin

section \<open>Laws of a window\<close>

text \<open>
  A window over its whole life: \<open>win_do\<close> is one action of the user, or a change of the file
  system by others, and \<open>win_reach\<close> the states it leads to. The history of a window is the trail
  of a browser (folders behind, the current one, folders ahead) up to its bound of 64 folders
  (\<open>trail\<close>); the text the clipboard and a drag hand out is read back as the paths that went into
  it; a directory listing is sorted and complete.
\<close>

subsection \<open>Actions\<close>

datatype win_event = Navigate cstr | Up | KeyUp | Back | Forward | KeyBack | KeyForward | Refresh
  | ToggleHidden | Clip FmClipOp "int list" | StartDrag "int list" | Drop "cstr list" IswDndAction
  | DragFinished IswDndAction bool | MenuDelete int "int list" | Others world

fun win_do :: "win_event \<Rightarrow> Fm \<Rightarrow> world \<Rightarrow> (Fm \<times> world) option" where
  "win_do (Navigate p) fm w = Some (fm_navigate p fm w)"
| "win_do Up fm w = Some (up_cb fm w)"
| "win_do KeyUp fm w = Some (act_go_up fm w)"
| "win_do Back fm w = back_cb fm w"
| "win_do Forward fm w = fwd_cb fm w"
| "win_do KeyBack fm w = act_go_back fm w"
| "win_do KeyForward fm w = act_go_fwd fm w"
| "win_do Refresh fm w = Some (fm_refresh fm w)"
| "win_do ToggleHidden fm w = Some (act_toggle_hidden fm w)"
| "win_do (Clip op sel) fm w = Some (clip_set_from_selection op sel fm, w)"
| "win_do (StartDrag sel) fm w = Some (start_drag sel fm, w)"
| "win_do (Drop uris action) fm w = Some (fst (drop_cb uris action fm), w)"
| "win_do (DragFinished action accepted) fm w = Some (drag_finished action accepted fm w)"
| "win_do (MenuDelete i sel) fm w = Some (snd (ctx_delete i sel fm w))"
| "win_do (Others w') fm w = Some (fm, w')"

inductive win_reach :: "Fm \<Rightarrow> world \<Rightarrow> bool" where
  win_new: "fm_window_new hidden home p w = (fm, w') \<Longrightarrow> win_reach fm w'"
| win_step: "win_reach fm w \<Longrightarrow> win_do e fm w = Some (fm', w') \<Longrightarrow> win_reach fm' w'"

subsection \<open>History\<close>

definition hist_ok :: "Fm \<Rightarrow> bool" where
  "hist_ok fm \<longleftrightarrow> length (history fm) = fm_history_max \<and> 0 < hist_count fm \<and> hist_count fm \<le> fm_history_max \<and>
     (\<forall>i < hist_count fm. history fm ! i \<noteq> None) \<and>
     (if hist_pos fm < hist_count fm then history fm ! hist_pos fm = Some (cwd fm)
      else fm_history_max \<le> hist_pos fm \<and> hist_count fm = fm_history_max)"

definition same_history :: "Fm \<Rightarrow> Fm \<Rightarrow> bool" where
  "same_history fm fm' \<longleftrightarrow> cwd fm' = cwd fm \<and> history fm' = history fm \<and> hist_pos fm' = hist_pos fm \<and>
     hist_count fm' = hist_count fm"

lemma same_history_ok: "same_history fm fm' \<Longrightarrow> hist_ok fm' = hist_ok fm"
  by (simp add: same_history_def hist_ok_def)

lemma read_dir_history: "browser_read_dir fm p w = (r, fm', w') \<Longrightarrow> same_history fm fm'"
  by (auto simp: browser_read_dir_def same_history_def split: prod.splits option.splits)

lemma fm_refresh_history: "same_history fm (fst (fm_refresh fm w))"
  by (auto simp: fm_refresh_def split: prod.splits dest: read_dir_history)

lemma push_history_ok:
  assumes "hist_ok fm"
  shows "hist_ok (push_history p (fm\<lparr>cwd := p\<rparr>))"
proof (cases "hist_pos fm + 1 < fm_history_max")
  case True
  then have "hist_pos fm < hist_count fm" using assms by (auto simp: hist_ok_def split: if_splits)
  with assms True show ?thesis
    by (auto simp: hist_ok_def push_history_def free_slots_def Let_def nth_list_update)
next
  case False
  with assms show ?thesis by (auto simp: hist_ok_def push_history_def Let_def split: if_splits)
qed

lemma same_history_push: "same_history fm fm' \<Longrightarrow> same_history (push_history p fm) (push_history p fm')"
  by (simp add: same_history_def push_history_def Let_def)

lemma fm_navigate_cases:
  obtains "fst (fm_navigate p fm w) = fm"
  | "same_history (push_history p (fm\<lparr>cwd := p\<rparr>)) (fst (fm_navigate p fm w))"
proof -
  obtain r fm' w' where *: "browser_read_dir fm p w = (r, fm', w')" by (metis prod_cases3)
  from read_dir_history [OF *] have "same_history (fm\<lparr>cwd := p\<rparr>) (fm'\<lparr>cwd := p\<rparr>)"
    by (simp add: same_history_def)
  from same_history_push [OF this] * that show thesis by (cases "r = 0") (simp_all add: fm_navigate_def)
qed

lemma fm_navigate_ok: "hist_ok fm \<Longrightarrow> hist_ok (fst (fm_navigate p fm w))"
  by (rule fm_navigate_cases [of p fm w]) (auto simp: same_history_ok push_history_ok)

lemma hist_slot_some: "hist_ok fm \<Longrightarrow> i < hist_count fm \<Longrightarrow> \<exists>p. hist_slot fm i = Some p"
  by (auto simp: hist_ok_def hist_slot_def)

lemma go_to_some:
  assumes "hist_ok fm" and "i < hist_count fm"
  obtains fm' w' where "go_to i fm w = Some (fm', w')" "hist_ok fm'" "cwd fm' = the (history fm ! i)"
    "hist_pos fm' = i" "history fm' = history fm" "hist_count fm' = hist_count fm"
proof -
  obtain p where p: "hist_slot fm i = Some p" using hist_slot_some [OF assms] by blast
  then have h: "history fm ! i = Some p" by (simp add: hist_slot_def split: if_splits)
  let ?f = "fm\<lparr>hist_pos := i, cwd := p\<rparr>"
  have "hist_ok ?f" using assms h by (simp add: hist_ok_def)
  moreover obtain fm' w' where f: "fm_refresh ?f w = (fm', w')" by fastforce
  moreover from f fm_refresh_history [of ?f w] have s: "same_history ?f fm'" by simp
  ultimately have "hist_ok fm'" by (simp add: same_history_ok)
  with f s show thesis using that [of fm' w'] p h by (simp add: go_to_def same_history_def)
qed

lemma history_moves:
  assumes "hist_ok fm"
  shows "back_cb fm w \<noteq> None" "fwd_cb fm w \<noteq> None" "act_go_fwd fm w \<noteq> None"
    "act_go_back fm w = None \<longleftrightarrow> fm_history_max < hist_pos fm"
proof -
  have go: "i < hist_count fm \<Longrightarrow> go_to i fm w \<noteq> None" for i
    by (rule go_to_some [OF assms, of i w]) simp_all
  then have nav: "navigate_history i fm w \<noteq> None" for i by (simp add: navigate_history_def)
  show "back_cb fm w \<noteq> None" "fwd_cb fm w \<noteq> None" using nav by (simp_all add: back_cb_def fwd_cb_def)
  show "act_go_fwd fm w \<noteq> None" using go [of "hist_pos fm + 1"] by (auto simp: act_go_fwd_def)
  show "act_go_back fm w = None \<longleftrightarrow> fm_history_max < hist_pos fm"
  proof (cases "fm_history_max < hist_pos fm")
    case True
    then have "fm_history_max \<le> hist_pos fm - 1" by linarith
    then have "hist_slot fm (hist_pos fm - 1) = None" using assms by (simp add: hist_slot_def hist_ok_def)
    with True show ?thesis by (simp add: act_go_back_def go_to_def)
  next
    case False
    then have "hist_pos fm = 0 \<or> hist_pos fm - 1 < hist_count fm" using assms
      by (auto simp: hist_ok_def split: if_splits)
    with False show ?thesis using go [of "hist_pos fm - 1"] by (auto simp: act_go_back_def)
  qed
qed

lemma history_move_ok:
  assumes "hist_ok fm"
  shows "back_cb fm w = Some r \<Longrightarrow> hist_ok (fst r)" "fwd_cb fm w = Some r \<Longrightarrow> hist_ok (fst r)"
    "act_go_back fm w = Some r \<Longrightarrow> hist_ok (fst r)" "act_go_fwd fm w = Some r \<Longrightarrow> hist_ok (fst r)"
proof -
  have go: "go_to i fm w = Some r \<Longrightarrow> i < hist_count fm \<Longrightarrow> hist_ok (fst r)" for i
    using go_to_some [OF assms, of i w] by (metis option.inject fst_conv)
  then have nav: "navigate_history i fm w = Some r \<Longrightarrow> hist_ok (fst r)" for i
    using assms by (auto simp: navigate_history_def split: if_splits)
  show "back_cb fm w = Some r \<Longrightarrow> hist_ok (fst r)" "fwd_cb fm w = Some r \<Longrightarrow> hist_ok (fst r)"
    using assms nav by (auto simp: back_cb_def fwd_cb_def split: if_splits)
  show "act_go_fwd fm w = Some r \<Longrightarrow> hist_ok (fst r)"
    using assms go [of "hist_pos fm + 1"] by (auto simp: act_go_fwd_def split: if_splits)
  assume b: "act_go_back fm w = Some r"
  then have "\<not> fm_history_max < hist_pos fm" using history_moves(4) [OF assms, of w] by simp
  then have "hist_pos fm = 0 \<or> hist_pos fm - 1 < hist_count fm" using assms
    by (auto simp: hist_ok_def split: if_splits)
  with b show "hist_ok (fst r)" using assms go [of "hist_pos fm - 1"] by (auto simp: act_go_back_def split: if_splits)
qed

lemma other_actions_history:
  "same_history fm (clip_set_from_selection op sel fm)" "same_history fm (start_drag sel fm)"
  "same_history fm (fst (drop_cb uris action fm))" "same_history fm (fst (snd (ctx_delete i sel fm w)))"
  by (simp_all add: same_history_def clip_set_from_selection_def start_drag_def drop_cb_def
      ctx_delete_def Let_def split: prod.split)

lemma toggle_hidden_history: "same_history fm (fst (act_toggle_hidden fm w))"
  using fm_refresh_history [of "fm\<lparr>show_hidden := \<not> show_hidden fm\<rparr>" w]
  by (simp add: same_history_def act_toggle_hidden_def)

lemma drag_finished_history: "same_history fm (fst (drag_finished action accepted fm w))"
  using fm_refresh_history [of fm "delete_each (dnd_drag_paths fm) w"]
  by (cases "fm_refresh fm (delete_each (dnd_drag_paths fm) w)") (simp add: same_history_def drag_finished_def)

lemmas quiet_actions = other_actions_history toggle_hidden_history drag_finished_history fm_refresh_history

lemma win_do_hist_ok: "hist_ok fm \<Longrightarrow> win_do e fm w = Some r \<Longrightarrow> hist_ok (fst r)"
  by (cases e)
    (auto simp: up_cb_def act_go_up_def history_move_ok fm_navigate_ok quiet_actions [THEN same_history_ok])

lemma fm_window_new_ok: "fm_window_new hidden home p w = (fm, w') \<Longrightarrow> hist_ok fm"
  by (auto simp: fm_window_new_def hist_ok_def fm_history_max_def Let_def nth_Cons'
      split: prod.splits if_splits option.splits dest!: read_dir_history simp: same_history_def)

lemma win_reach_hist_ok: "win_reach fm w \<Longrightarrow> hist_ok fm"
  by (induction rule: win_reach.induct) (use fm_window_new_ok win_do_hist_ok in fastforce)+

subsection \<open>The history as a trail\<close>

text \<open>The contract: folders behind, the current one, folders ahead.\<close>

type_synonym history_trail = "cstr list \<times> cstr \<times> cstr list"

fun visit :: "cstr \<Rightarrow> history_trail \<Rightarrow> history_trail" where
  "visit p (b, c, f) = (b @ [c], p, [])"

fun go_back :: "history_trail \<Rightarrow> history_trail" where
  "go_back (b, c, f) = (if b = [] then (b, c, f) else (butlast b, last b, c # f))"

fun go_forward :: "history_trail \<Rightarrow> history_trail" where
  "go_forward (b, c, []) = (b, c, [])"
| "go_forward (b, c, x # f) = (b @ [c], x, f)"

definition trail :: "Fm \<Rightarrow> history_trail" where
  "trail fm = (map the (take (hist_pos fm) (history fm)), cwd fm,
     map the (drop (hist_pos fm + 1) (take (hist_count fm) (history fm))))"

definition on_trail :: "Fm \<Rightarrow> bool" where
  "on_trail fm \<longleftrightarrow> hist_ok fm \<and> hist_pos fm < fm_history_max"

lemma on_trail_pos: "on_trail fm \<Longrightarrow> hist_pos fm < hist_count fm"
  by (auto simp: on_trail_def hist_ok_def split: if_splits)

lemma go_to_trail:
  assumes "on_trail fm" and "i < hist_count fm"
  obtains fm' w' where "go_to i fm w = Some (fm', w')" "on_trail fm'"
    "trail fm' = (map the (take i (history fm)), the (history fm ! i),
       map the (drop (i + 1) (take (hist_count fm) (history fm))))"
proof -
  from assms(1) have ok: "hist_ok fm" by (simp add: on_trail_def)
  then have "i < fm_history_max" using assms(2) by (simp add: hist_ok_def)
  with go_to_some [OF ok assms(2), of w] that show thesis by (simp add: on_trail_def trail_def) metis
qed

lemma back_trail:
  assumes "on_trail fm" and "0 < hist_pos fm"
  shows "\<exists>fm' w'. go_to (hist_pos fm - 1) fm w = Some (fm', w') \<and> on_trail fm' \<and> trail fm' = go_back (trail fm)"
proof -
  have pos: "hist_pos fm < hist_count fm" using assms(1) by (rule on_trail_pos)
  have len: "length (history fm) = fm_history_max" "hist_count fm \<le> fm_history_max"
      "history fm ! hist_pos fm = Some (cwd fm)"
    using assms(1) pos by (simp_all add: on_trail_def hist_ok_def)
  have ahead: "drop (hist_pos fm) (take (hist_count fm) (history fm)) =
      Some (cwd fm) # drop (hist_pos fm + 1) (take (hist_count fm) (history fm))"
    using pos len by (simp add: Cons_nth_drop_Suc [symmetric])
  have behind: "take (hist_pos fm) (history fm) = take (hist_pos fm - 1) (history fm) @ [history fm ! (hist_pos fm - 1)]"
    using assms(2) pos len by (cases "hist_pos fm") (simp_all add: take_Suc_conv_app_nth)
  have "go_back (trail fm) = (map the (take (hist_pos fm - 1) (history fm)), the (history fm ! (hist_pos fm - 1)),
      map the (drop (hist_pos fm - 1 + 1) (take (hist_count fm) (history fm))))"
    using ahead behind assms(2) by (simp add: trail_def)
  with pos show ?thesis by (metis go_to_trail [OF assms(1)] less_imp_diff_less)
qed

lemma forward_trail:
  assumes "on_trail fm" and "hist_pos fm + 1 < hist_count fm"
  shows "\<exists>fm' w'. go_to (hist_pos fm + 1) fm w = Some (fm', w') \<and> on_trail fm' \<and> trail fm' = go_forward (trail fm)"
proof -
  have pos: "hist_pos fm < hist_count fm" using assms(1) by (rule on_trail_pos)
  have len: "length (history fm) = fm_history_max" "hist_count fm \<le> fm_history_max"
      "history fm ! hist_pos fm = Some (cwd fm)"
    using assms(1) pos by (simp_all add: on_trail_def hist_ok_def)
  have ahead: "drop (hist_pos fm + 1) (take (hist_count fm) (history fm)) =
      history fm ! (hist_pos fm + 1) # drop (hist_pos fm + 2) (take (hist_count fm) (history fm))"
    using assms(2) len by (simp add: Cons_nth_drop_Suc [symmetric])
  have behind: "take (hist_pos fm + 1) (history fm) = take (hist_pos fm) (history fm) @ [Some (cwd fm)]"
    using pos len by (simp add: take_Suc_conv_app_nth)
  have "go_forward (trail fm) = (map the (take (hist_pos fm + 1) (history fm)), the (history fm ! (hist_pos fm + 1)),
      map the (drop (hist_pos fm + 1 + 1) (take (hist_count fm) (history fm))))"
    using ahead behind by (simp add: trail_def)
  then show ?thesis by (metis go_to_trail [OF assms])
qed

lemma no_trail_move:
  assumes "on_trail fm"
  shows "hist_pos fm = 0 \<Longrightarrow> go_back (trail fm) = trail fm"
    "\<not> hist_pos fm + 1 < hist_count fm \<Longrightarrow> go_forward (trail fm) = trail fm"
  using assms by (simp_all add: trail_def)

lemma navigate_visits:
  assumes "on_trail fm" and "hist_pos fm + 1 < fm_history_max" and "fst (opendir p w) \<noteq> None"
  shows "on_trail (fst (fm_navigate p fm w)) \<and> trail (fst (fm_navigate p fm w)) = visit p (trail fm)"
proof -
  obtain ns w' where "opendir p w = (Some ns, w')" using assms(3) by (cases "opendir p w") auto
  then obtain fm' where fm': "browser_read_dir fm p w = (0, fm', w')" by (simp add: browser_read_dir_def)
  have pos: "hist_pos fm < hist_count fm" using assms(1) by (rule on_trail_pos)
  let ?n = "fst (fm_navigate p fm w)"
  from read_dir_history [OF fm'] have n: "cwd ?n = p" "hist_pos ?n = hist_pos fm + 1" "hist_count ?n = hist_pos fm + 2"
      "history ?n = (free_slots (hist_pos fm + 1) (hist_count fm) (history fm))[hist_pos fm + 1 := Some p]"
    using fm' assms(2) by (simp_all add: fm_navigate_def push_history_def same_history_def Let_def)
  have ok: "length (history fm) = fm_history_max" "history fm ! hist_pos fm = Some (cwd fm)"
    using assms(1) pos by (simp_all add: on_trail_def hist_ok_def)
  then have "take (hist_pos fm + 1) (history ?n) = take (hist_pos fm + 1) (history fm)" using assms(2) n(4)
    by (auto simp: free_slots_def nth_list_update intro!: nth_equalityI)
  then have "trail ?n = visit p (trail fm)" using n ok assms(2)
    by (simp add: trail_def take_Suc_conv_app_nth)
  moreover have "hist_ok ?n" using assms(1) by (simp add: on_trail_def fm_navigate_ok)
  ultimately show ?thesis using n(2) assms(2) by (simp add: on_trail_def)
qed

locale trail_moves =
  fixes mback mfwd :: "Fm \<Rightarrow> world \<Rightarrow> (Fm \<times> world) option"
  assumes mback: "on_trail fm \<Longrightarrow>
      \<exists>fm' w'. mback fm w = Some (fm', w') \<and> on_trail fm' \<and> trail fm' = go_back (trail fm)"
    and mfwd: "on_trail fm \<Longrightarrow>
      \<exists>fm' w'. mfwd fm w = Some (fm', w') \<and> on_trail fm' \<and> trail fm' = go_forward (trail fm)"
begin

lemma back_and_forward:
  assumes "on_trail fm" and "0 < hist_pos fm"
  shows "\<exists>fm' w' fm'' w''. mback fm w = Some (fm', w') \<and> mfwd fm' w' = Some (fm'', w'') \<and> trail fm'' = trail fm"
proof -
  obtain b x where "fst (trail fm) = b @ [x]"
    using assms on_trail_pos [OF assms(1)] by (cases "fst (trail fm)" rule: rev_cases)
      (auto simp: trail_def on_trail_def hist_ok_def)
  then have id: "go_forward (go_back (trail fm)) = trail fm" by (cases "trail fm") simp
  obtain fm' w' where "mback fm w = Some (fm', w')" "on_trail fm'" "trail fm' = go_back (trail fm)"
    using mback [OF assms(1)] by blast
  with mfwd [of fm' w'] id show ?thesis by auto
qed

end

interpretation buttons: trail_moves back_cb fwd_cb
proof
  fix fm w assume t: "on_trail fm"
  note pos = on_trail_pos [OF t]
  show "\<exists>fm' w'. back_cb fm w = Some (fm', w') \<and> on_trail fm' \<and> trail fm' = go_back (trail fm)"
    using back_trail [OF t] no_trail_move(1) [OF t] t pos by (auto simp: back_cb_def navigate_history_def)
  show "\<exists>fm' w'. fwd_cb fm w = Some (fm', w') \<and> on_trail fm' \<and> trail fm' = go_forward (trail fm)"
    using forward_trail [OF t] no_trail_move(2) [OF t] t by (auto simp: fwd_cb_def navigate_history_def)
qed

interpretation keys: trail_moves act_go_back act_go_fwd
proof
  fix fm w assume t: "on_trail fm"
  show "\<exists>fm' w'. act_go_back fm w = Some (fm', w') \<and> on_trail fm' \<and> trail fm' = go_back (trail fm)"
    using back_trail [OF t] no_trail_move(1) [OF t] t by (auto simp: act_go_back_def)
  show "\<exists>fm' w'. act_go_fwd fm w = Some (fm', w') \<and> on_trail fm' \<and> trail fm' = go_forward (trail fm)"
    using forward_trail [OF t] no_trail_move(2) [OF t] t by (auto simp: act_go_fwd_def)
qed

subsection \<open>Directory listings\<close>

lemma lex_le_total: "lex_le xs ys \<or> lex_le ys xs"
  by (induction xs ys rule: lex_le.induct) auto

lemma lex_le_trans: "lex_le xs ys \<Longrightarrow> lex_le ys zs \<Longrightarrow> lex_le xs zs"
proof (induction xs ys arbitrary: zs rule: lex_le.induct)
  case (3 x xs y ys)
  then show ?case by (cases zs) auto
qed auto

lemma entry_le_total: "entry_le a b \<or> entry_le b a"
  using lex_le_total by (auto simp: entry_le_def)

lemma entry_le_trans: "entry_le a b \<Longrightarrow> entry_le b c \<Longrightarrow> entry_le a c"
  using lex_le_trans by (auto simp: entry_le_def split: if_splits)

lemma insert_entry_mset [simp]: "mset (insert_entry e es) = add_mset e (mset es)"
  by (induction es) auto

lemma insert_entry_set [simp]: "set (insert_entry e es) = insert e (set es)"
  by (induction es) auto

lemma insert_entry_sorted: "sorted_wrt entry_le es \<Longrightarrow> sorted_wrt entry_le (insert_entry e es)"
proof (induction es)
  case (Cons f fs)
  then show ?case using entry_le_total [of e f] by (auto intro: entry_le_trans)
qed simp

lemma sort_entries_mset [simp]: "mset (sort_entries es) = mset es"
  unfolding sort_entries_def by (induction es) auto

lemma sort_entries_sorted: "sorted_wrt entry_le (sort_entries es)"
  unfolding sort_entries_def by (induction es) (auto intro: insert_entry_sorted)

definition listed :: "Fm \<Rightarrow> cstr \<Rightarrow> bool" where
  "listed fm n \<longleftrightarrow> show_hidden fm \<or> take 1 n \<noteq> ''.''"

lemma opendir_names:
  assumes "opendir p w = (Some ns, w')"
  obtains l es where "resolve True w p = Inr l" "node_at (w_root w) l = Some (Dir es)"
    "ns = ''.'' # ''..'' # map fst es" "w_root w' = w_root w" "\<And>q. resolve True w' q = resolve True w q"
proof -
  let ?w = "snd (next_fate w)"
  have w: "w_root ?w = w_root w" "resolve True ?w q = resolve True w q" for q
    by (simp_all add: next_fate_def resolve_def split: list.split)
  from assms have "opendir p w = (Some ns, ?w)" "\<exists>l es. resolve True ?w p = Inr l \<and>
      node_at (w_root ?w) l = Some (Dir es) \<and> ns = ''.'' # ''..'' # map fst es"
    by (auto simp: opendir_def syscall_def failed_def split: prod.splits fate.splits sum.splits option.splits node.splits)
  with assms w that show thesis by auto
qed

lemma node_at_tree_ok: "tree_ok t \<Longrightarrow> node_at t l = Some n \<Longrightarrow> tree_ok n"
  by (induction t l rule: node_at.induct) (auto split: option.splits dest!: map_of_SomeD)

lemma read_dir_lists:
  assumes "browser_read_dir fm p w = (0, fm', w')" and "tree_ok (w_root w)"
  obtains l es where "resolve True w p = Inr l" "node_at (w_root w) l = Some (Dir es)"
    "mset (entries fm') = mset (map (make_entry w p) (filter (listed fm) (map fst es)))"
    "sorted_wrt entry_le (entries fm')"
proof -
  from assms(1) obtain ns where ns: "opendir p w = (Some ns, w')"
    and e: "entries fm' = sort_entries (map (make_entry w' p)
       (filter (\<lambda>n. n \<noteq> ''.'' \<and> n \<noteq> ''..'' \<and> (show_hidden fm \<or> take 1 n \<noteq> ''.'')) ns))"
    by (auto simp: browser_read_dir_def split: prod.splits option.splits)
  from opendir_names [OF ns] obtain l es where l: "resolve True w p = Inr l"
      "node_at (w_root w) l = Some (Dir es)" "ns = ''.'' # ''..'' # map fst es" "w_root w' = w_root w"
      "\<And>q. resolve True w' q = resolve True w q" by metis
  have "''.'' \<notin> fst ` set es" "''..'' \<notin> fst ` set es"
    using special_names [OF node_at_tree_ok [OF assms(2) l(2)]] by simp_all
  then have "filter (\<lambda>n. n \<noteq> ''.'' \<and> n \<noteq> ''..'' \<and> (show_hidden fm \<or> take 1 n \<noteq> ''.'')) ns = filter (listed fm) (map fst es)"
    unfolding l(3) by simp (rule filter_cong, auto simp: listed_def image_iff Bex_def)
  moreover have "make_entry w' p = make_entry w p"
    unfolding fun_eq_iff make_entry_def stat_is_dir_def l(4) l(5) by simp
  ultimately show thesis using that [OF l(1,2)] e by (simp add: sort_entries_sorted)
qed

subsection \<open>Text of the clipboard and of a drag\<close>

definition uri_safe :: "cstr \<Rightarrow> bool" where
  "uri_safe p \<longleftrightarrow> take 1 p = ''/'' \<and> CHR 0x0D \<notin> set p \<and> newline \<notin> set p \<and> CHR 0x00 \<notin> set p"

lemma line_seps: "line_sep (CHR 0x0D)" "line_sep newline"
  by (simp_all add: line_sep_def)

lemma c_string_id: "CHR 0x00 \<notin> set s \<Longrightarrow> c_string s = s"
  by (auto simp: c_string_def)

lemma tokens_line:
  "list_all (\<lambda>c. \<not> sep c) xs \<Longrightarrow> sep c \<Longrightarrow> acc @ xs \<noteq> [] \<Longrightarrow>
     tokens sep acc (xs @ c # ys) = (rev acc @ xs) # tokens sep [] ys"
  by (induction xs arbitrary: acc) auto

lemma tokens_last:
  "list_all (\<lambda>c. \<not> sep c) xs \<Longrightarrow> acc @ xs \<noteq> [] \<Longrightarrow> tokens sep acc xs = [rev acc @ xs]"
  by (induction xs arbitrary: acc) auto

lemma uri_safe_line:
  assumes "uri_safe p"
  shows "list_all (\<lambda>c. \<not> line_sep c) (file_uri p)" "file_uri p \<noteq> []" "CHR 0x00 \<notin> set (file_uri p)"
    "strip_scheme (file_uri p) = p" "take 1 p = ''/''"
  using assms by (auto simp: uri_safe_def file_uri_def line_sep_def strip_scheme_def list_all_iff newline_def)

lemma tokens_uri_list: "list_all uri_safe ps \<Longrightarrow> tokens line_sep [] (uri_list ps) = map file_uri ps"
proof (induction ps)
  case (Cons p ps)
  then have "tokens line_sep [] (file_uri p @ CHR 0x0D # newline # uri_list ps) =
      file_uri p # tokens line_sep [] (newline # uri_list ps)"
    using uri_safe_line [of p] by (subst tokens_line) (auto simp: line_seps)
  with Cons show ?case by (simp add: uri_list_def crlf_def line_seps)
qed (simp add: uri_list_def)

lemma tokens_join_lines: "list_all uri_safe ps \<Longrightarrow> tokens line_sep [] (join_lines ps) = map file_uri ps"
proof (induction ps rule: join_lines.induct)
  case (2 p)
  then show ?case using uri_safe_line [of p] tokens_last [of line_sep "file_uri p" "[]"] by simp
next
  case (3 p q ps)
  then show ?case using uri_safe_line [of p]
      tokens_line [of line_sep "file_uri p" newline "[]" "join_lines (q # ps)"] by (simp add: line_seps)
qed simp

lemma text_no_nul:
  "list_all uri_safe ps \<Longrightarrow> CHR 0x00 \<notin> set (uri_list ps)"
  "list_all uri_safe ps \<Longrightarrow> CHR 0x00 \<notin> set (join_lines ps)"
proof -
  assume "list_all uri_safe ps"
  then show "CHR 0x00 \<notin> set (uri_list ps)" using uri_safe_line(3)
    by (auto simp: uri_list_def crlf_def newline_def list_all_iff)
next
  assume "list_all uri_safe ps"
  then show "CHR 0x00 \<notin> set (join_lines ps)"
    by (induction ps rule: join_lines.induct) (use uri_safe_line(3) in \<open>auto simp: newline_def\<close>)
qed

lemma stripped_uris:
  "list_all uri_safe ps \<Longrightarrow> filter (\<lambda>p. take 1 p = ''/'') (map strip_scheme (map file_uri ps)) = ps"
  by (induction ps) (use uri_safe_line(4,5) in auto)

lemma paste_gnome:
  assumes "list_all uri_safe ps"
  shows "receive_paste GnomeFiles ((if op = FM_CLIP_CUT then ''cut'' else ''copy'') @ newline # join_lines ps) =
    (if op = FM_CLIP_CUT then FM_CLIP_CUT else FM_CLIP_COPY, ps)"
proof -
  have "c_string ((if op = FM_CLIP_CUT then ''cut'' else ''copy'') @ newline # join_lines ps) =
      (if op = FM_CLIP_CUT then ''cut'' else ''copy'') @ newline # join_lines ps"
    by (rule c_string_id) (use text_no_nul(2) [OF assms] in \<open>auto simp: newline_def\<close>)
  then show ?thesis using tokens_join_lines [OF assms] stripped_uris [OF assms]
    by (auto simp: receive_paste_def Let_def)
qed

lemma paste_uri_list:
  assumes "list_all uri_safe ps"
  shows "receive_paste UriList (uri_list ps) = (FM_CLIP_COPY, ps)"
  using tokens_uri_list [OF assms] stripped_uris [OF assms] c_string_id [OF text_no_nul(1) [OF assms]]
  by (simp add: receive_paste_def)

subsection \<open>Drag and drop\<close>

lemma refresh_root: "w_root (snd (fm_refresh fm w)) = w_root w"
  by (auto simp: fm_refresh_def browser_read_dir_def split: prod.split option.split dest: opendir_root)

lemma opendir_keeps: "opendir p w = (r, w') \<Longrightarrow> keeps w w'"
  by (auto simp: opendir_def syscall_def next_fate_def failed_def keeps_def
      split: prod.splits fate.splits sum.splits option.splits node.splits list.splits)

lemma refresh_keeps: "keeps w (snd (fm_refresh fm w))"
  by (auto simp: fm_refresh_def browser_read_dir_def split: prod.split option.split dest: opendir_keeps)

text \<open>What the source of a drag does when the drop was a move and was accepted.\<close>

lemma drag_finished_deletes:
  assumes "faultless w" and "reaches p l w" and "node_at (w_root w) l = Some (Reg s)"
    and "dnd_drag_paths fm = [p]" and "\<not> dnd_drop_was_noop fm"
  shows "w_root (snd (drag_finished ISW_DND_ACTION_MOVE True fm w)) = alter l None (w_root w)"
    "keeps w (snd (drag_finished ISW_DND_ACTION_MOVE True fm w))"
proof -
  let ?d = "put_at l None w"
  have ls: "lstat p w = (Some (Reg s), w)" using lstat_faultless [OF assms(1,2)] assms(3) by simp
  then have "fileops_delete p w = (0, ?d)" using unlink_faultless [OF assms(1-3)]
    by (simp add: fileops_delete_def delete_recursive.simps is_dir_node_def c_ret_def)
  then have d: "snd (drag_finished ISW_DND_ACTION_MOVE True fm w) = snd (fm_refresh fm ?d)"
    using assms(4,5) ls by (simp add: drag_finished_def split: prod.split)
  have "keeps w ?d" by (simp add: keeps_def put_at_def)
  then show "keeps w (snd (drag_finished ISW_DND_ACTION_MOVE True fm w))"
    unfolding d by (rule keeps_trans [OF _ refresh_keeps])
  show "w_root (snd (drag_finished ISW_DND_ACTION_MOVE True fm w)) = alter l None (w_root w)"
    unfolding d refresh_root by (simp add: put_at_def)
qed

lemma first_unused_root: "first_unused name path i n w = (r, w') \<Longrightarrow> keeps w w' \<and> w_root w' = w_root w"
proof (induction name path i n w rule: first_unused.induct)
  case (1 name path i n w)
  obtain x v where x: "lstat (path i) w = (x, v)" by fastforce
  from lstat_law [OF x] 1 x show ?case
    by (cases x) (auto simp: first_unused.simps [of name path i n w] split: if_splits intro: keeps_trans)
qed

lemma resolve_conflict_root: "resolve_conflict p w = (r, w') \<Longrightarrow> keeps w w' \<and> w_root w' = w_root w"
  unfolding resolve_conflict_def
  by (auto split: prod.splits option.splits dest!: lstat_law first_unused_root intro: keeps_trans)

text \<open>A copy job whose source is gone changes nothing and reports an error.\<close>

lemma exec_copy_gone:
  assumes "faultless w" and "w_cancel w = None" and "reaches p l w" and "node_at (w_root w) l = None"
  shows "\<exists>w'. exec_copy [p] dst w = (Some ENOENT, w') \<and> w_root w' = w_root w"
proof -
  let ?c = "w\<lparr>w_errno := Some ENOENT, files_total := 0\<rparr>"
  have ls: "lstat p v = (None, v\<lparr>w_errno := Some ENOENT\<rparr>)" if "keeps w v" "w_root v = w_root w" for v
    using lstat_faultless [of v p l] that assms faultless_keeps [OF assms(1)] by (auto simp: reaches_def)
  have "count_all [p] 0 w = (0, w\<lparr>w_errno := Some ENOENT\<rparr>)"
    using ls [of w] by (simp add: fileops_count_files_def count_recursive.simps)
  moreover obtain d v where d: "resolve_conflict (path_join dst (base_of p)) ?c = (d, v)" by fastforce
  moreover from resolve_conflict_root [OF d] have v: "keeps ?c v" "w_root v = w_root ?c" by simp_all
  moreover from v have k: "keeps w v" by (simp add: keeps_def)
  moreover have "load_cancelled v = (False, v)" using k assms(2) by (simp add: keeps_def load_cancelled_def)
  ultimately show ?thesis using ls [of v] assms(2)
    by (simp add: exec_copy_def fileops_copy_progress_def copy_recursive_cb.simps load_cancelled_def)
qed

lemma split_on_uris: "list_all uri_safe ps \<Longrightarrow> extract_uris (uri_list ps) = map file_uri ps"
proof (induction ps)
  case Nil
  then show ?case by (simp add: uri_list_def extract_uris_def)
next
  case (Cons p ps)
  have nl: "newline \<notin> set (file_uri p @ [CHR 0x0D])"
    using Cons.prems by (simp add: uri_safe_def file_uri_def newline_def)
  have "uri_list (p # ps) = (file_uri p @ [CHR 0x0D]) @ newline # uri_list ps"
    by (simp add: uri_list_def crlf_def)
  then have "split_on newline (uri_list (p # ps)) = (file_uri p @ [CHR 0x0D]) # split_on newline (uri_list ps)"
    using split_on_first [OF nl] by simp
  moreover have "take 1 (file_uri p) = ''f''" by (simp add: file_uri_def)
  ultimately show ?case using Cons uri_safe_line(2,3) [of p] c_string_id [of "file_uri p"]
    by (simp add: extract_uris_def)
qed

lemma collect_stripped:
  "list_all uri_safe ps \<Longrightarrow> collect_paths (map file_uri ps) dir action =
     filter (\<lambda>p. \<not> (action = ISW_DND_ACTION_MOVE \<and> dir = butlast (dir_part p))) ps"
  by (induction ps) (auto simp: collect_paths_def uri_safe_line [simplified])

subsection \<open>Deleting with confirmation\<close>

lemma delete_confirm_shown:
  assumes "fm_delete_confirm permanent sel fm w = (Some d, w')"
  shows "dlg_message d = dialog_message fm (fileview_get_selected_items fm sel) (dlg_permanent d)"
  using assms by (auto simp: fm_delete_confirm_def Let_def split: if_splits prod.splits)

end
