(* ===== verification/Fm_Props.thy ===== *)
theory Fm_Props
  imports Fm_View
begin

section \<open>Properties of isde-fm\<close>

text \<open>
  The properties of the file manager, from the laws of \<open>Fm_Names\<close>, \<open>Fm_Exec\<close>, \<open>Fm_Same\<close>,
  \<open>Fm_Trash\<close>, \<open>Fm_Queue\<close> and \<open>Fm_View\<close>. The witnesses run it on a small disk with a folder, a
  link and an empty trash.
\<close>

subsection \<open>Witness data\<close>

definition home_env :: fsys where
  "home_env = \<lparr>fs_getenv = (\<lambda>v. if v = ''HOME'' then Some ''/h'' else if v = ''XDG_DATA_HOME'' then Some ''/d'' else None),
     fs_file = (\<lambda>_. None), fs_dir = (\<lambda>_. None)\<rparr>"

definition small_disk :: node where
  "small_disk = Dir [(''h'', Dir [(''a'', Dir [(''f'', Reg ''text''), (''l'', Lnk ''f'')]), (''g'', Reg ''more''), (''b'', Dir [])]),
     (''d'', Dir [(''Trash'', Dir [(''files'', Dir []), (''info'', Dir [])])]), (''m'', Dir [(''g'', Reg ''old'')])]"

definition small_world :: world where
  "small_world = \<lparr>w_root = small_disk, w_pwd = [], w_mounts = [[''m'']], w_env = home_env,
     w_date = ''2025-01-01T00:00:00'', w_errno = None, w_plan = [], w_stat_plan = [], w_cancel = None,
     files_done = 0, files_total = 0, cur_bytes_done = 0, cur_bytes_total = 0, total_bytes_done = 0\<rparr>"

lemma small_world_paths:
  "spells ''/h/g'' [''h'', ''g'']" "spells ''/m'' [''m'']" "spells ''/h'' [''h'']"
  "node_at (w_root small_world) [''h'', ''g''] = Some (Reg ''more'')" "tree_ok (Reg ''more'')"
  "is_dir_at (w_root small_world) [''m'']" "w_stat_plan small_world = []" "name_ok ''g''"
  "\<not> prefix [''h'', ''g''] [''m'']" "base_of ''/h/g'' = ''g''" "w_cancel small_world = None"
  by code_simp+

lemma small_world_free: "free_name (w_root small_world) [''m''] ''g''"
proof -
  have "node_at (w_root small_world) [''m'', numbered ''g'' 2] = None" by code_simp
  then show ?thesis by (auto simp: free_name_def intro!: exI [of _ "2 :: nat"])
qed

lemmas fs_eval = small_world_def small_disk_def lstat_def resolve_def comps_def absolute_def path_max_def strtok_def
  failed_def mkdir_def opendir_def syscall_def next_fate_def put_at_def unlink_def rename_def rename_node_def
  open_read_def open_write_def sys_read_def sys_write_def load_cancelled_def is_dir_node_def set_entry_def

lemmas copy_eval = copy_file_cancellable_def start_file_def copy_bytes.simps write_all.simps file_at_def
  test_cancel_def add_bytes_def bump_done_def Let_def

lemma conflict_run: "resolve_conflict ''/m/g'' (small_world\<lparr>w_errno := e\<rparr>) =
  (''/m/g (2)'', small_world\<lparr>w_errno := Some ENOENT\<rparr>)"
proof -
  have "conflict_name ''/m/g'' 2 = ''/m/g (2)''" by code_simp
  then show ?thesis by (simp add: fs_eval resolve_conflict_def first_unused.simps)
qed

lemma copy_run:
  "\<exists>w'. fileops_copy_progress ''/h/g'' ''/m/g'' (small_world\<lparr>w_errno := e\<rparr>) = (0, w') \<and>
     w_root w' = alter [''m'', ''g (2)''] (Some (Reg ''more'')) small_disk \<and> faultless w'"
  by (simp add: fileops_copy_progress_def conflict_run)
    (simp add: copy_recursive_cb.simps fs_eval copy_eval faultless_def)

subsection \<open>Copying, moving, deleting\<close>





text \<open>
  C30: The two copying routines are the same program: without a cancellation the copy that
  reports progress gives the same result and leaves the same disk, whatever fails, as the one that does not;
  they differ in the counters only.
\<close>

theorem copies_agree:
  assumes "w_cancel w = None"
  shows "fileops_copy src dst (plain w) = apsnd plain (fileops_copy_progress src dst w)"
proof -
  obtain d v where d: "resolve_conflict dst w = (d, v)" by fastforce
  from resolve_conflict_root [OF d] assms have "w_cancel v = None" by (simp add: keeps_def)
  from copy_recursive_cb_plain [OF this] d show ?thesis
    by (simp add: fileops_copy_def fileops_copy_progress_def resolve_conflict_plain)
qed

theorem copies_agree_witness:
  "fst (fileops_copy ''/h/g'' ''/m/g'' (plain small_world)) = 0 \<and>
   fileops_copy ''/h/g'' ''/m/g'' (plain small_world) = apsnd plain (fileops_copy_progress ''/h/g'' ''/m/g'' small_world)"
proof
  from copies_agree [OF small_world_paths(11), of "''/h/g''" "''/m/g''"] copy_run [of "w_errno small_world"]
  show "fst (fileops_copy ''/h/g'' ''/m/g'' (plain small_world)) = 0" by auto
qed (rule copies_agree [OF small_world_paths(11)])

subsection \<open>Trash\<close>



subsection \<open>The job queue\<close>


text \<open>A window opens, submits a job and is closed before the job has run.\<close>

definition closed_early :: FmApp where
  "closed_early = (let open = (jobqueue_init small_world)\<lparr>windows := [7]\<rparr>;
     app = the (fm_do (Submit 0 FM_JOB_COPY 7 [''/h/g''] (Some ''/m'')) open) in
     the (fm_do (CloseWindow 7) (the (fm_do ShowProgress app))))"

lemma fm_reach_the: "fm_reach w app \<Longrightarrow> enabled e app \<Longrightarrow> fm_do e app \<noteq> None \<Longrightarrow> fm_reach w (the (fm_do e app))"
  by (metis fm_reach.step option.exhaust_sel)

lemma closed_early_reach: "fm_reach small_world closed_early"
proof -
  let ?o = "(jobqueue_init small_world)\<lparr>windows := [7]\<rparr>"
  let ?s = "the (fm_do (Submit 0 FM_JOB_COPY 7 [''/h/g''] (Some ''/m'')) ?o)"
  have "fm_reach small_world ?o"
    by (rule fm_reach.step [OF fm_reach.init, of "OpenWindow 7"]) (simp_all add: jobqueue_init_def)
  then have "fm_reach small_world ?s" by (rule fm_reach_the) code_simp+
  then have "fm_reach small_world (the (fm_do ShowProgress ?s))" by (rule fm_reach_the) code_simp+
  then have "fm_reach small_world (the (fm_do (CloseWindow 7) (the (fm_do ShowProgress ?s))))"
    by (rule fm_reach_the) code_simp+
  then show ?thesis by (simp add: closed_early_def Let_def)
qed


subsection \<open>Windows\<close>

text \<open>
  C27: The history of a window is the trail of a browser. In every reachable state with fewer
  than 64 folders behind the current one, opening a folder goes there and forgets the folders
  ahead, and the buttons and the keys for back and forward move along the trail. Beyond that
  the key for back, and nothing else, reads outside of the array.
\<close>

theorem history_is_a_trail:
  assumes "win_reach fm w0"
  shows "(hist_pos fm < fm_history_max \<longrightarrow>
      (\<forall>back \<in> {back_cb, act_go_back}. \<exists>fm' w'. back fm w = Some (fm', w') \<and> trail fm' = go_back (trail fm)) \<and>
      (\<forall>fwd \<in> {fwd_cb, act_go_fwd}. \<exists>fm' w'. fwd fm w = Some (fm', w') \<and> trail fm' = go_forward (trail fm)) \<and>
      (hist_pos fm + 1 < fm_history_max \<longrightarrow> fst (opendir p w) \<noteq> None \<longrightarrow>
        trail (fst (fm_navigate p fm w)) = visit p (trail fm))) \<and>
    (win_do e fm w = None \<longleftrightarrow> e = KeyBack \<and> fm_history_max < hist_pos fm)"
proof -
  have ok: "hist_ok fm" using assms by (rule win_reach_hist_ok)
  have "win_do e fm w = None \<longleftrightarrow> e = KeyBack \<and> fm_history_max < hist_pos fm"
    using history_moves [OF ok, of w] by (cases e) auto
  moreover have "on_trail fm" if "hist_pos fm < fm_history_max" using ok that by (simp add: on_trail_def)
  ultimately show ?thesis
    using buttons.mback [of fm w] buttons.mfwd [of fm w] keys.mback [of fm w] keys.mfwd [of fm w]
      navigate_visits [of fm p w] by auto
qed

definition first_window :: Fm where
  "first_window = fst (fm_window_new False None ''/h'' small_world)"

lemma first_window_reach: "win_reach first_window (snd (fm_window_new False None ''/h'' small_world))"
  unfolding first_window_def by (rule win_new [of False None "''/h''" small_world]) simp

text \<open>Opening the same folder over and over.\<close>

definition visits :: "nat \<Rightarrow> Fm \<Rightarrow> Fm" where
  "visits n = (\<lambda>fm. fst (fm_navigate ''/h'' fm small_world)) ^^ n"

lemma opendir_run: "opendir ''/h'' small_world = (Some [''.'', ''..'', ''a'', ''g'', ''b''], small_world)"
  by (simp add: fs_eval)

lemma visits_reach: "win_reach fm w \<Longrightarrow> \<exists>w'. win_reach (visits n fm) w' \<and> hist_pos (visits n fm) = hist_pos fm + n"
proof (induction n)
  case (Suc n)
  then obtain w' where r: "win_reach (visits n fm) w'" "hist_pos (visits n fm) = hist_pos fm + n" by blast
  obtain fm' v where n: "fm_navigate ''/h'' (visits n fm) small_world = (fm', v)" by fastforce
  from win_step [OF r(1), of "Others small_world"] have "win_reach (visits n fm) small_world" by simp
  from win_step [OF this, of "Navigate ''/h''"] n have "win_reach fm' v" by simp
  moreover have "visits (Suc n) fm = fm'" using n by (simp add: visits_def)
  moreover have "hist_pos fm' = hist_pos (visits n fm) + 1" using n
    by (auto simp: fm_navigate_def browser_read_dir_def opendir_run push_history_def Let_def split: if_splits)
  ultimately show ?case using r(2) by auto
qed (auto simp: visits_def)

theorem history_is_a_trail_witness:
  "trail (fst (fm_navigate ''/h'' first_window small_world)) = ([''/h''], ''/h'', []) \<and>
   act_go_back (visits 65 first_window) small_world = None"
proof -
  have f: "trail first_window = ([], ''/h'', [])" "hist_pos first_window = 0"
    by (simp_all add: first_window_def fm_window_new_def browser_read_dir_def opendir_run Let_def trail_def
        fm_history_max_def)
  obtain w where w: "win_reach (visits 65 first_window) w" "hist_pos (visits 65 first_window) = 65"
    using visits_reach [OF first_window_reach, of 65] f by auto
  have "act_go_back (visits 65 first_window) small_world = None"
    using history_is_a_trail [OF w(1), where e = KeyBack and w = small_world] w(2) by (simp add: fm_history_max_def)
  moreover have "trail (fst (fm_navigate ''/h'' first_window small_world)) = ([''/h''], ''/h'', [])"
    using history_is_a_trail [OF first_window_reach, where p = "''/h''" and w = small_world] f
    by (simp add: fm_history_max_def opendir_run)
  ultimately show ?thesis by simp
qed

text \<open>
  C16: What the clipboard and a drag hand to another program, or to another window, is read back
  as the files that were selected: in the format that tells cut from copy with the operation, as a
  list of URIs as a copy, and from a drag in the same order. This is so for paths without line
  breaks.
\<close>

theorem clipboard_reads_back:
  assumes "list_all uri_safe (selected_paths fm sel)" and "selected_paths fm sel \<noteq> []"
  shows "map_option (receive_paste GnomeFiles) (convert_selection (clip_set_from_selection op sel fm) GnomeFiles) =
      Some (if op = FM_CLIP_CUT then FM_CLIP_CUT else FM_CLIP_COPY, selected_paths fm sel) \<and>
    map_option (receive_paste UriList) (convert_selection (clip_set_from_selection op sel fm) UriList) =
      Some (FM_CLIP_COPY, selected_paths fm sel) \<and>
    map_option (\<lambda>d. collect_paths (extract_uris d) dir ISW_DND_ACTION_COPY) (drag_convert (start_drag sel fm)) =
      Some (selected_paths fm sel)"
  using assms paste_gnome [OF assms(1)] paste_uri_list [OF assms(1)]
  by (simp add: clip_set_from_selection_def convert_selection_def drag_convert_def start_drag_def Let_def
      split_on_uris collect_stripped)

theorem clipboard_reads_back_witness:
  "map_option (receive_paste GnomeFiles) (convert_selection (clip_set_from_selection FM_CLIP_CUT [1, 2]
     first_window) GnomeFiles) = Some (FM_CLIP_CUT, [''/h/b'', ''/h/g''])"
proof -
  have "selected_paths first_window [1, 2] = [''/h/b'', ''/h/g'']"
    by (simp add: first_window_def fm_window_new_def browser_read_dir_def opendir_run Let_def selected_paths_def
        fileview_get_selected_items_def make_entry_def stat_is_dir_def fs_eval is_dir_at_def sort_entries_def entry_le_def
        fold_case_def)
  with clipboard_reads_back [of first_window "[1, 2]" FM_CLIP_CUT] show ?thesis
    by (simp add: uri_safe_def newline_def)
qed

text \<open>
  C9: A file dragged with Move from one window onto another is lost when the drag is reported
  finished before the worker has run the job: the source window deletes the file, and the copy
  that the drop submitted finds nothing. Dropped on a window of the folder it is in, no job is
  submitted at all and the file is deleted. In both cases the disk is as before without the file.
\<close>

theorem drag_move_loses_file:
  assumes "faultless w" "w_cancel w = None" "reaches p l w" "node_at (w_root w) l = Some (Reg s)" "uri_safe p"
    and "selected_paths a sel = [p]"
  defines "uris \<equiv> extract_uris (the (drag_convert (start_drag sel a)))"
    and "w1 \<equiv> snd (drag_finished ISW_DND_ACTION_MOVE True (start_drag sel a) w)"
  shows "case snd (drop_cb uris ISW_DND_ACTION_MOVE b) of
      NoJob \<Rightarrow> drop_target b = butlast (dir_part p) \<and> w_root w1 = alter l None (w_root w)
    | CopyJob ps dir \<Rightarrow> ps = [p] \<and> dir = drop_target b \<and>
        (\<exists>w2. exec_copy ps dir w1 = (Some ENOENT, w2) \<and> w_root w2 = alter l None (w_root w))
    | MoveJob ps dir \<Rightarrow> False"
proof -
  have "dnd_drag_paths (start_drag sel a) = [p]" "\<not> dnd_drop_was_noop (start_drag sel a)"
    using assms(6) by (simp_all add: start_drag_def)
  note gone = drag_finished_deletes [OF assms(1,3,4) this, folded w1_def]
  have l: "l \<noteq> []" "is_dir_at (w_root w) (butlast l)" using assms(3) by (simp_all add: reaches_def)
  then obtain m c where mc: "l = m @ [c]" by (cases l rule: rev_cases) auto
  have "is_dir_at (w_root w1) (butlast l)" using l mc is_dir_at_alter [of "w_root w" m l None] by (simp add: gone(1))
  then have "reaches p l w1" using assms(3) by (simp add: reaches_def)
  moreover have "node_at (w_root w1) l = None" using l by (simp add: gone(1) node_at_alter)
  moreover have "faultless w1" "w_cancel w1 = None"
    using gone(2) assms(1,2) faultless_keeps by (auto simp: keeps_def)
  ultimately have copy: "\<exists>w2. exec_copy [p] dir w1 = (Some ENOENT, w2) \<and> w_root w2 = alter l None (w_root w)" for dir
    using exec_copy_gone [of w1 p l dir] gone(1) by simp
  have "uris = [file_uri p]" using assms(5,6) split_on_uris [of "[p]"]
    by (simp add: uris_def drag_convert_def start_drag_def)
  then show ?thesis using collect_stripped [of "[p]" "drop_target b" ISW_DND_ACTION_MOVE] assms(5) gone(1) copy
    by (simp add: drop_cb_def Let_def)
qed

theorem drag_move_loses_file_witness:
  "snd (drop_cb (extract_uris (the (drag_convert (start_drag [2] first_window)))) ISW_DND_ACTION_MOVE first_window) = NoJob \<and>
   w_root (snd (drag_finished ISW_DND_ACTION_MOVE True (start_drag [2] first_window) small_world)) =
     alter [''h'', ''g''] None small_disk"
proof -
  have sel: "selected_paths first_window [2] = [''/h/g'']" and dir: "drop_target first_window = ''/h''"
    by (simp_all add: first_window_def fm_window_new_def browser_read_dir_def opendir_run Let_def selected_paths_def
        fileview_get_selected_items_def make_entry_def stat_is_dir_def fs_eval is_dir_at_def sort_entries_def entry_le_def
        fold_case_def drop_target_def)
  have "faultless small_world" "reaches ''/h/g'' [''h'', ''g''] small_world"
    by (simp_all add: faultless_def reaches_def spells_def too_long_def fs_eval is_dir_at_def)
  moreover have "uri_safe ''/h/g''" "butlast (dir_part ''/h/g'') = ''/h''" by code_simp+
  moreover have "snd (drop_cb (extract_uris (the (drag_convert (start_drag [2] first_window)))) ISW_DND_ACTION_MOVE first_window) = NoJob"
    using sel dir calculation split_on_uris [of "[''/h/g'']"] collect_stripped [of "[''/h/g'']" "''/h''" ISW_DND_ACTION_MOVE]
    by (simp add: drag_convert_def start_drag_def drop_cb_def Let_def)
  ultimately show ?thesis
    using drag_move_loses_file [of small_world "''/h/g''" "[''h'', ''g'']" "''more''" first_window "[2]" first_window]
      sel small_world_paths(4,11) by (simp add: small_world_def)
qed

text \<open>
  A delete chosen in the context menu asks about the item under the pointer, but acts, when the
  dialog is answered, on the selection of the view.
\<close>

theorem menu_delete_takes_selection:
  assumes "ctx_delete target sel fm w = (Some d, fm', w')" and "0 \<le> target" "target < int (length (entries fm))"
    and "0 \<le> i" "i < int (length (entries fm))"
  shows "dlg_message d = dialog_message fm [target] (dlg_permanent d) \<and>
    delete_result_cb True d [i] fm' =
      (if dlg_permanent d then DeleteJob [full_path (entries fm ! nat i)] else TrashJob [full_path (entries fm ! nat i)])"
proof -
  let ?f = "fm\<lparr>ctx_target_index := target\<rparr>"
  from assms(1) have d: "fm_delete_confirm False sel ?f w = (Some d, w')" and f: "fm' = fm\<lparr>ctx_target_index := -1\<rparr>"
    by (auto simp: ctx_delete_def split: prod.splits)
  from delete_confirm_shown [OF d] assms(2) have "dlg_message d = dialog_message fm [target] (dlg_permanent d)"
    by (simp add: fileview_get_selected_items_def dialog_message_def)
  then show ?thesis using assms(4,5)
    by (simp add: f delete_result_cb_def selected_paths_def fileview_get_selected_items_def)
qed

end
