(* ===== verification/Spec2Isabelle.thy ===== *)
theory Spec2Isabelle
  imports Mountd_Props Dm_Props Calc_Props Desktop_Props Sess_Props Wm_Props Fm_Props
begin

text \<open>
  \<^bold>\<open>ISDE\<close>, a desktop environment in C: its core daemons and programs in Isabelle/HOL.

  \<^bold>\<open>The program.\<close> ISDE is a set of processes that talk over D-Bus, Unix sockets and the X
  protocol. The display manager \<^verbatim>\<open>isde-dm\<close> (\<^verbatim>\<open>src/dm\<close>) runs as root: it starts the X server
  and the greeter, authenticates through PAM what the greeter sends over a socket, and starts the
  user's session, which it can lock and unlock. The disk daemon \<^verbatim>\<open>isde-mountd\<close>
  (\<^verbatim>\<open>src/mountd\<close>) runs as root too: it watches removable devices through udev and mounts,
  unmounts and ejects them, LUKS containers included, for the users who ask over the system bus.
  The session manager (\<^verbatim>\<open>src/platform/X11/session\<close>,
  \<^verbatim>\<open>src/platform/common/session\<close>) starts the window manager, panel and
  file manager in the user's name, restarts what crashes, and asks isde-dm to lock, suspend or shut
  down. The window manager \<^verbatim>\<open>isde-wm\<close> (\<^verbatim>\<open>src/platform/X11/wm\<close>) puts the windows of the
  programs into frames, places, stacks, focuses and hides them on virtual desktops, and learns of
  launched programs from the messages the launcher sends. The session manager and the panel read desktop entries and configuration files through the common library
  (\<^verbatim>\<open>src/platform/common\<close>,
  \<^verbatim>\<open>src/platform/X11/common\<close>). The user runs programs there: of these the file manager \<^verbatim>\<open>isde-fm\<close>
  (\<^verbatim>\<open>src/fm\<close>), whose windows hand their copies, moves and deletions to a worker thread, and the
  calculator \<^verbatim>\<open>isde-calc\<close> (\<^verbatim>\<open>src/calc\<close>) are modelled.

  \<^bold>\<open>How calls out of a program are modelled.\<close> A daemon's state is a record with the fields of
  its C struct and one more, a trace of the calls that left the program (system calls, PAM,
  libcryptsetup, libudev, libdbus), in order. Each call is answered by an environment, a record of
  functions of the trace so far, so that an answer may depend on everything that happened before.
  Theorems hold for every environment unless they name what they need of it. A C function that
  can fail returns a sum, \<open>Inl\<close> with the message or code of the error. Descriptors, pids and
  errno values are \<open>int\<close>; a C string is the list of its characters before the NUL
  (\<open>cstr\<close>), cut by \<open>snprintf\<close> where the code writes it into a buffer.

  \<^bold>\<open>Prelude.\<close> Bounded writes, searching in strings, decimal printing, lists updated by
  index; the collections \<open>cbuf\<close> and \<open>table\<close>.

  \<^bold>\<open>isde-mountd.\<close>
  \<^item> \<open>Mountd_State\<close> (\<^verbatim>\<open>mountd.h\<close>, \<^verbatim>\<open>devices.c\<close>): the record \<open>mountd\<close> with its device
    list, find, add, remove and the invariant of the table; the locale \<open>device_table\<close> states what a
    table of devices promises and derives the map it implements.
  \<^item> \<open>Mountd_Luks\<close> (\<^verbatim>\<open>luks.c\<close>), \<open>Mountd_Mount\<close> (\<^verbatim>\<open>mount_ops.c\<close>): opening and closing
    containers, labels and mount points, mount, unmount and eject with every early return; the
    locale \<open>mountd_platform\<close> is what the mount code relies on of the two platform back ends, and is
    interpreted on the Linux one.
  \<^item> \<open>Mountd_Monitor\<close> (\<^verbatim>\<open>platform_linux.c\<close>): udev events. \<open>Mountd_Dbus\<close> (\<^verbatim>\<open>dbus.c\<close>,
    \<^verbatim>\<open>mountd.c\<close>): the methods, the configuration, the loop and the reachable states.
  \<^item> \<open>Mountd_Props\<close>: C1 to C6 and C8. What is mounted is always of an allowed type with nosuid and
    nodev below the mount base (C1); the table invariant and its map (C2, C3); the exact effects of
    mount, unmount and removal on success and failure (C4 to C6, C8); further, what an eject does, the
    error paths that leave a container open, and that two volumes of one label share a mount point.
    The disk a partition belongs to is a lemma of \<open>Mountd_Monitor\<close>'s.

  \<^bold>\<open>isde-dm.\<close>
  \<^item> \<open>Dm_State\<close> (\<^verbatim>\<open>dm.h\<close>, \<^verbatim>\<open>greeter_proc.c\<close>, \<^verbatim>\<open>auth.c\<close>, \<^verbatim>\<open>session.c\<close>,
    \<^verbatim>\<open>power.c\<close>, \<^verbatim>\<open>dm.c\<close>): processes, PAM, Xauthority, power, lock and unlock. \<open>Dm_Ipc\<close>
    (\<^verbatim>\<open>ipc.c\<close>): the greeter's line protocol. \<open>Dm_Run\<close>: the session child's actions,
    D-Bus methods, seat callbacks, and one turn of the event loop.
  \<^item> \<open>Dm_Inv\<close>, \<open>Dm_Trace\<close>: which part of the state each operation leaves alone, and that the
    trace only grows. \<open>Dm_Proto\<close>: the locale \<open>line_stream\<close> (a stream cut into lines in any
    chunks), interpreted on the receive buffer.
  \<^item> \<open>Dm_Props\<close>: C12, C13, C15 and C17 to C19. Session and buffer invariants (C12); what can unlock a
    session (C13); privileges are dropped before exec (C15); the Xauthority record reads back (C17);
    somebody is running after every turn (C18), except, by a further theorem, for a greeter that
    dies while the session is locked; power needs permission (C19). Further theorems: a login from
    line to session, the lines of the greeter in any chunks, the end of a session.

  \<^bold>\<open>isde-calc.\<close>
  \<^item> \<open>Calc_State\<close>, \<open>Calc_Keys\<close>, \<open>Calc_Actions\<close> (\<^verbatim>\<open>math.c\<close>, \<^verbatim>\<open>actions.c\<close>): the
    static variables as the record \<open>calc\<close>, the 32-byte display buffer byte by byte, the two stacks as
    arrays with stack pointers, every key routine, the dispatch of buttons and the keyboard actions.
    Longs are \<open>64 word\<close>. Floating point is the record \<open>fops\<close>, an argument over a type parameter;
    what a property needs of it is a hypothesis about that record. A routine that can reach an
    integer remainder returns an option, \<open>None\<close> when SIGFPE ends the process.
  \<^item> \<open>Calc_Inv\<close>, \<open>Calc_Entry\<close>: buffers and stacks in bounds. \<open>Calc_Eval\<close>: the stacks as
    lists through the locale \<open>lifo\<close>, interpreted for numbers and operators, and a reference
    evaluator. \<open>Calc_Num\<close>: octal and hexadecimal, factorial, what can end the process.
    \<open>Calc_Rpn\<close>: the four registers.
  \<^item> \<open>Calc_Props\<close>: C22, C23, C25, C29 and C31. Typing stays in the buffer (C22), all keys do
    when what they append fits (C23); left-to-right evaluation (C25); RPN (C29); termination (C31).
    Further theorems: parentheses, stack exhaustion, numbers shown read back, one path that leaves
    the buffer, what the one-step precedence rule computes, factorials, and that keyboard and
    buttons agree.

  \<^bold>\<open>Common library.\<close>
  \<^item> \<open>Text_Lines\<close>: what the sources use of the C library to read text (\<open>fgets\<close> with its
    buffer, \<open>strtok\<close>, \<open>isspace\<close>). \<open>Config\<close> (\<^verbatim>\<open>isde-config.c\<close>): the typed look-ups over
    a TOML tree, whose parser is a parameter. \<open>Xdg\<close> (\<^verbatim>\<open>isde-xdg.c\<close>): base directories, search
    and listing.
  \<^item> \<open>Desktop\<close> (\<^verbatim>\<open>desktop.c\<close>): the parser of desktop entries, the show and try-exec
    rules, the expansion of \<^verbatim>\<open>Exec\<close> lines with its buffer, launching and start-up
    notification. \<open>Desktop_Props\<close>: a printed entry reads back as itself (C34), the expansion stays
    in its buffer and is the expected one (C35), except for one overrun.

  \<^bold>\<open>The session manager.\<close>
  \<^item> \<open>Sess_State\<close> (\<^verbatim>\<open>session/session.h\<close>, \<^verbatim>\<open>session/child.c\<close>): the child table with its restart and
    back-off rules. \<open>Sess_Bus\<close> (\<^verbatim>\<open>session/dbus.c\<close>,
    \<^verbatim>\<open>session.c\<close>): confirmations, inhibitors, idle, lock,
    suspend and shutdown requests and the answers of isde-dm. \<open>Sess_Run\<close> (\<^verbatim>\<open>autostart.c\<close>,
    \<^verbatim>\<open>session.c\<close>, \<^verbatim>\<open>main.c\<close>): autostart, start-up, a turn of the loop, clean-up, and the states \<open>session_reach\<close> that any
    sequence of messages, child deaths and signals reaches.
  \<^item> \<open>Sess_Inv\<close>: the calls that leave processes and confirmations alone. \<open>Sess_Wm\<close>: the
    invariants behind the properties. \<open>Sess_Inhibit\<close>: the locale \<open>inhibitor_table\<close>, what a table
    of inhibitors promises, interpreted on the session's array.
  \<^item> \<open>Sess_Props\<close>: C11 (the inhibitors are a map from cookie to owner), C37 to C39: no shutdown
    without a confirmed request (C37); the window manager is always running or about to be started
    again (C38); the back-off of a crashing child (C39). A further theorem: a confirmation can be lost.
  \<^item> The composition with isde-dm is by the calls of the session's trace, which are the methods
    \<open>Dm_Run\<close> handles. Appearance, input and background settings the session applies are calls of
    the trace; SIGTERM is a step between two turns; what \<^verbatim>\<open>waitpid\<close> returns is an input.

  \<^bold>\<open>The window manager.\<close> The build without the compositor.
  \<^item> \<open>Wm_State\<close> (\<^verbatim>\<open>wm.h\<close>): clients and the manager as records. The C program keeps a list of
    heap objects and pointers into it; here a pointer is a number that is never used twice, the list
    is an association list, and following a pointer that is not in it marks the state as undefined
    (\<open>crash\<close>, \<open>m_ub\<close>), as does an index beyond the array of monitors. Coordinates are cut to
    16 bits where the struct does (\<open>i16\<close>, \<open>u16\<close>). Requests to the X server are the trace, its
    answers the environment \<open>xenv\<close>.
  \<^item> \<open>Wm_Frame\<close>, \<open>Wm_Place\<close> (\<^verbatim>\<open>frame.c\<close>, \<^verbatim>\<open>placement.c\<close>, \<^verbatim>\<open>ewmh.c\<close>): work area, hints,
    frames, placement, synchronised resizing. \<open>Wm_Ops\<close> (\<^verbatim>\<open>wm.c\<close>, \<^verbatim>\<open>desktops.c\<close>,
    \<^verbatim>\<open>switcher.c\<close>): focus, stacking, snapping, maximised and minimised windows, desktops, switcher,
    menu. \<open>Wm_Events\<close> (\<^verbatim>\<open>wm.c\<close>, \<^verbatim>\<open>keys.c\<close>): every handler, timers, start and end, and the
    reachable states \<open>wm_reach\<close>.
  \<^item> \<open>Wm_Inv\<close>: what most operations leave alone (\<open>kept\<close>). \<open>Wm_Live\<close>: live pointers
    (\<open>ptr_ok\<close>) and the two ways to follow a dead one (\<open>hazard\<close>). \<open>Wm_Steps\<close>: the locale
    \<open>wm_invariant\<close> takes any property of the desktops that the primitive desktop operations
    keep and carries it with \<open>ptr_ok\<close> through every handler. \<open>Wm_Desk\<close>: interprets it with
    the invariant of the virtual desktops. \<open>Wm_Geom\<close>: rectangles. \<open>Wm_Notify\<close>: a startup
    notification from the launcher of \<open>Desktop\<close> through the client messages into the manager.
  \<^item> \<open>Wm_Props\<close>: live pointers and desktops in every reachable state (C10); undefined behaviour
    only by the two hazards (C21), one of which is reached by destroying a window with an open menu
    (C26); what a switch of desktops does (C32); startup notification end to end (C33); placement
    (C36), resizing (C24) and maximising (C40).

  \<^bold>\<open>The file manager.\<close>
  \<^item> \<open>Fm_Fs\<close>: what the program uses of POSIX, as functions on a state with a tree of
    directories, files and links, mount points and a plan of failures and short transfers; the
    theorems hold for every plan they do not restrict. \<open>Fm_Tree\<close>, \<open>Fm_Calls\<close>: laws of the tree and
    of each call on an absolute path.
  \<^item> \<open>Fm_Ops\<close> (\<^verbatim>\<open>fileops.c\<close>): conflict names, copying, deleting, the trash. \<open>Fm_Copy\<close>,
    \<open>Fm_Delete\<close>, \<open>Fm_Names\<close>, \<open>Fm_Trash\<close>: what they do to the tree. \<open>Fm_Same\<close>: the
    variants with and without progress agree.
  \<^item> \<open>Fm_Exec\<close>, \<open>Fm_Jobs\<close> (\<^verbatim>\<open>jobqueue.c\<close>, \<^verbatim>\<open>dialogs.c\<close>): what a job does, and the queue
    as two threads over a heap of jobs with linked lists, a mutex, a pipe and timers, every event
    with its guard; \<open>None\<close> is the use of a freed job or window. \<open>Fm_Queue\<close>: its invariant.
  \<^item> \<open>Fm_Win\<close> (\<^verbatim>\<open>browser.c\<close>, \<^verbatim>\<open>navigate.c\<close>, \<^verbatim>\<open>navbar.c\<close>, \<^verbatim>\<open>shortcuts.c\<close>,
    \<^verbatim>\<open>clipboard.c\<close>, \<^verbatim>\<open>dnd.c\<close>, \<^verbatim>\<open>dialogs.c\<close>, \<^verbatim>\<open>fm.c\<close>): a window's directory listing, history,
    clipboard, drag and drop, and deletion with confirmation. \<open>Fm_View\<close>: its reachable states, the
    locale \<open>trail_moves\<close> (back and forward along a trail), interpreted on the buttons and on the
    keys, and the formats of clipboard and drag.
  \<^item> \<open>Fm_Props\<close>: copies are exact and touch nothing else (C7), moves lose nothing (C14), with and
    without progress (C30); trash and restore (C20); the job queue (C28); the history and its bound
    (C27); clipboard and drag read back (C16); a drag that loses a file (C9). A further theorem: a
    delete from the context menu acts on the selection.

  \<^bold>\<open>Bounds and termination.\<close> There is no fuel: every loop is a structural recursion or a
  function with a measure (the pending operators, the rest of a string, the factorial's counter; for the recursion over
  directories what is left of the longest path the kernel accepts).
  The daemons' endless loops are one definition per turn and an inductive set of reachable
  states. Sizes are those of the headers: 64 devices, 32 stack places, the buffers of
  \<^verbatim>\<open>mountd.h\<close> and \<^verbatim>\<open>dm.h\<close>.

  \<^bold>\<open>Not modelled.\<close> User interfaces on the ISW toolkit, which is outside the repository (panel,
  settings, greeter, the widgets of the file manager, its sidebar, thumbnails and icons, terminal,
  screenshot); drawing (the frames of the window
  manager, the compositor) and the X protocol (displayd); vendored code (toml, nanosvg, kplot); bus and socket set-up and
  introspection text; the FreeBSD device monitor; failure of allocation; permissions, owners and times
  of files; themes, MIME associations and the configuration writer of the common library.
\<close>

end
